(* ===== verification/MM_Prelude.thy ===== *)
theory MM_Prelude
  imports Main "HOL-Library.Word" "HOL-Library.Sublist"
begin

section \<open>Shared types, results and lemmas\<close>

text \<open>
  What every component of the development shares: the types that stand for Python's
  \<^verbatim>\<open>UUID\<close>, \<^verbatim>\<open>datetime\<close>, \<^verbatim>\<open>timedelta\<close> and JSON values, the exceptions the modelled code
  raises as one \<open>error\<close> type, sequencing of fallible steps (\<open>bindE\<close>, \<open>guardE\<close>,
  \<open>foldE\<close>), the string operations the code uses, and list lemmas on tables of rows.
\<close>

named_theorems resolve "inversion rules for results of fallible steps"
named_theorems keeps "what an operation leaves unchanged"

type_synonym uuid = "128 word"
type_synonym time = int \<comment> \<open>a UTC instant in microseconds\<close>
type_synonym duration = int \<comment> \<open>a \<^verbatim>\<open>timedelta\<close> in microseconds\<close>

datatype json =
    JNull
  | JBool bool
  | JInt int
  | JStr string
  | JList "json list"
  | JObj "(string \<times> json) list"

text \<open>
  The exceptions of the modelled modules. A message is carried only where the code
  inspects it or where two causes share one class.
\<close>

datatype error =
    InvalidTransitionError
  | ValueError string
  | LeaseNotHeldError
  | LeaseExpiredError
  | DependencyResolutionError string
  | DependencyNotSatisfiedError string
  | WorkflowInactiveError string
  | IdempotencyCollisionError string
  | IdempotencyKeyReservedError
  | ReconciliationBudgetExhausted
  | EventAppendError
  | EngineError
  | WorkflowNotFoundError
  | JobNotFoundError
  | InvalidRetryError string
  | IntegrityError
  | DataError
  | StaleDataError
  | ConcurrentModificationError
  | MultipleResultsFound
  | AgentNotCommissionedError
  | AgentRegistryError
  | ToolPermissionError
  | ToolNotFoundError
  | ReviewSubagentMutationError
  | ReviewSubagentBudgetError
  | AgentRuntimeError
  | AgentNotImplementedError
  | PromptIntegrityError
  | PromptValidationError
  | PromptSecretError
  | FileNotFoundError
  | ConfigLoadError
  | LookupError
  | OverflowError
  | ZeroDivisionError
  | OtherException

subsection \<open>Sequencing fallible steps\<close>

definition bindE :: "'e + 'a \<Rightarrow> ('a \<Rightarrow> 'e + 'b) \<Rightarrow> 'e + 'b" where
  "bindE m f = (case m of Inl e \<Rightarrow> Inl e | Inr x \<Rightarrow> f x)"

definition guardE :: "bool \<Rightarrow> 'e \<Rightarrow> 'e + unit" where
  "guardE b e = (if b then Inr () else Inl e)"

fun foldE :: "('a \<Rightarrow> 's \<Rightarrow> 'e + 's) \<Rightarrow> 'a list \<Rightarrow> 's \<Rightarrow> 'e + 's" where
  "foldE f [] s = Inr s"
| "foldE f (x # xs) s = bindE (f x s) (foldE f xs)"

lemma bindE_simps [simp]:
  "bindE (Inl e) f = Inl e"
  "bindE (Inr x) f = f x"
  by (simp_all add: bindE_def)

lemma bindE_eq_Inr [resolve]: "bindE m f = Inr y \<longleftrightarrow> (\<exists>x. m = Inr x \<and> f x = Inr y)"
  by (cases m) auto

lemma bindE_eq_Inl: "bindE m f = Inl e \<longleftrightarrow> m = Inl e \<or> (\<exists>x. m = Inr x \<and> f x = Inl e)"
  by (cases m) auto

lemma guardE_eq_Inr [simp]: "guardE b e = Inr u \<longleftrightarrow> b"
  by (simp add: guardE_def)

lemma guardE_eq_Inl [simp]: "guardE b e = Inl e' \<longleftrightarrow> \<not> b \<and> e' = e"
  by (auto simp: guardE_def)

lemma guardE_True [simp]: "guardE True e = Inr ()"
  by (simp add: guardE_def)

lemma guardE_False [simp]: "guardE False e = Inl e"
  by (simp add: guardE_def)

text \<open>A relation that every step of a fold respects is respected by the fold.\<close>

lemma foldE_induct:
  assumes "foldE f xs s = Inr t"
    and "\<And>s. R s s"
    and "\<And>a b c. R a b \<Longrightarrow> R b c \<Longrightarrow> R a c"
    and "\<And>x s t. x \<in> set xs \<Longrightarrow> f x s = Inr t \<Longrightarrow> R s t"
  shows "R s t"
  using assms(1,4)
proof (induction xs arbitrary: s)
  case Nil
  then show ?case using assms(2) by simp
next
  case (Cons x xs)
  from Cons.prems(1) obtain u where u: "f x s = Inr u" and r: "foldE f xs u = Inr t"
    by (auto simp: bindE_eq_Inr)
  have "R s u" using Cons.prems(2) [of x] u by simp
  moreover have "R u t" by (rule Cons.IH [OF r]) (rule Cons.prems(2), auto)
  ultimately show ?case by (rule assms(3))
qed

lemma foldE_invariant:
  assumes "foldE f xs s = Inr t" and "P s"
    and "\<And>x s t. x \<in> set xs \<Longrightarrow> P s \<Longrightarrow> f x s = Inr t \<Longrightarrow> P t"
  shows "P t"
  using foldE_induct [of f xs s t "\<lambda>a b. P a \<longrightarrow> P b"] assms by blast

lemma foldE_append: "foldE f (xs @ ys) s = bindE (foldE f xs s) (foldE f ys)"
  by (induction xs arbitrary: s) (auto simp: bindE_def split: sum.splits)

text \<open>A fold succeeds when every step does, under an invariant.\<close>

lemma foldE_total:
  assumes "P s" and "\<And>x s. x \<in> set xs \<Longrightarrow> P s \<Longrightarrow> \<exists>t. f x s = Inr t \<and> P t"
  shows "\<exists>t. foldE f xs s = Inr t \<and> P t"
  using assms
proof (induction xs arbitrary: s)
  case Nil
  then show ?case by simp
next
  case (Cons x xs)
  then obtain u where "f x s = Inr u" "P u" by (metis list.set_intros(1))
  with Cons show ?case by simp
qed

subsection \<open>Options\<close>

text \<open>\<^verbatim>\<open>if x is None: raise e\<close>\<close>

definition requireE :: "'a option \<Rightarrow> 'e \<Rightarrow> 'e + 'a" where
  "requireE x e = (case x of None \<Rightarrow> Inl e | Some y \<Rightarrow> Inr y)"

lemma requireE_simps [simp]:
  "requireE None e = Inl e"
  "requireE (Some y) e = Inr y"
  by (simp_all add: requireE_def)

lemma requireE_eq_Inr [simp]: "requireE x e = Inr y \<longleftrightarrow> x = Some y"
  by (cases x) auto

subsection \<open>Strings\<close>

text \<open>\<^verbatim>\<open>needle in haystack\<close> on strings, and \<^verbatim>\<open>str.lower\<close> on ASCII text.\<close>

fun contains_str :: "string \<Rightarrow> string \<Rightarrow> bool" where
  "contains_str needle [] = (needle = [])"
| "contains_str needle (c # cs) = (prefix needle (c # cs) \<or> contains_str needle cs)"

definition lower_char :: "char \<Rightarrow> char" where
  "lower_char c = (if 65 \<le> (of_char c :: nat) \<and> (of_char c :: nat) \<le> 90
     then char_of ((of_char c :: nat) + 32) else c)"

text \<open>Evaluation on the bits of a character.\<close>

lemma lower_char_code [code]: "lower_char (Char b0 b1 b2 b3 b4 b5 b6 b7) =
  (if \<not> b7 \<and> b6 \<and> \<not> b5 \<and> (b0 \<or> b1 \<or> b2 \<or> b3 \<or> b4) \<and> \<not> (b4 \<and> b3 \<and> (b2 \<or> b1 \<and> b0))
   then Char b0 b1 b2 b3 b4 True b6 b7 else Char b0 b1 b2 b3 b4 b5 b6 b7)"
  by (cases b0; cases b1; cases b2; cases b3; cases b4; cases b5; cases b6; cases b7; simp add: lower_char_def char_of_def bit_0)

definition lower_str :: "string \<Rightarrow> string" where
  "lower_str s = map lower_char s"

lemma contains_str_iff: "contains_str n h \<longleftrightarrow> (\<exists>a b. h = a @ n @ b)"
proof (induction h)
  case Nil
  then show ?case by auto
next
  case (Cons c cs)
  show ?case
  proof
    assume "contains_str n (c # cs)"
    then consider "prefix n (c # cs)" | "contains_str n cs" by auto
    then show "\<exists>a b. c # cs = a @ n @ b"
    proof cases
      case 1
      then show ?thesis by (metis append_Nil prefixE)
    next
      case 2
      with Cons.IH show ?thesis by (metis append_Cons)
    qed
  next
    assume "\<exists>a b. c # cs = a @ n @ b"
    then obtain a b where ab: "c # cs = a @ n @ b" by blast
    show "contains_str n (c # cs)"
    proof (cases a)
      case Nil
      with ab have "prefix n (c # cs)" by (metis append_Nil prefixI)
      then show ?thesis by simp
    next
      case (Cons x xs)
      with ab have "cs = xs @ n @ b" by simp
      with Cons.IH show ?thesis by auto
    qed
  qed
qed

lemma contains_str_append: "contains_str n h \<Longrightarrow> contains_str n (a @ h @ b)"
  by (auto simp: contains_str_iff) (metis append.assoc)

text \<open>\<^verbatim>\<open>sep.split\<close> of Python: the pieces between single-character separators.\<close>

fun split_on :: "char \<Rightarrow> string \<Rightarrow> string list" where
  "split_on c [] = [[]]"
| "split_on c (x # xs) = (if x = c then [] # split_on c xs
     else (case split_on c xs of [] \<Rightarrow> [[x]] | y # ys \<Rightarrow> (x # y) # ys))"

lemma split_on_nonempty [simp]: "split_on c s \<noteq> []"
  by (induction s) (auto split: list.splits)

lemma split_on_append: "split_on c (xs @ c # ys) = split_on c xs @ split_on c ys"
  by (induction xs) (auto split: list.splits)

lemma split_on_plain: "c \<notin> set s \<Longrightarrow> split_on c s = [s]"
  by (induction s) auto

fun join_with :: "string \<Rightarrow> string list \<Rightarrow> string" where
  "join_with sep [] = []"
| "join_with sep [x] = x"
| "join_with sep (x # y # ys) = x @ sep @ join_with sep (y # ys)"

lemma join_split_on [simp]: "join_with [c] (split_on c s) = s"
proof (induction s)
  case Nil
  then show ?case by simp
next
  case (Cons x xs)
  obtain y ys where "split_on c xs = y # ys" by (metis neq_Nil_conv split_on_nonempty)
  with Cons show ?case by (cases ys) auto
qed

subsection \<open>Tables as lists of rows\<close>

lemma find_Some_iff_distinct:
  assumes "distinct (map k xs)"
  shows "find (\<lambda>x. k x = i) xs = Some r \<longleftrightarrow> r \<in> set xs \<and> k r = i"
  using assms
proof (induction xs)
  case Nil
  then show ?case by simp
next
  case (Cons x xs)
  then show ?case by (auto simp: image_iff)
qed

lemma find_None_key: "find (\<lambda>x. k x = i) xs = None \<longleftrightarrow> i \<notin> k ` set xs"
  by (induction xs) auto

lemma find_SomeD: "find P xs = Some x \<Longrightarrow> x \<in> set xs \<and> P x"
  by (induction xs) (auto split: if_splits)

lemma take_sort_key_hd:
  assumes "take (Suc 0) (sort_key f (filter P xs)) = [x]" and "y \<in> set xs" and "P y"
  shows "f x \<le> f y"
proof -
  let ?s = "sort_key f (filter P xs)"
  from assms(1) obtain r where s: "?s = x # r"
    by (cases ?s) auto
  have "y \<in> set ?s" using assms(2,3) by simp
  moreover have "sorted (map f ?s)" by simp
  ultimately show ?thesis using s by auto
qed

lemma hd_sort_key_mem:
  assumes "sort_key f (filter P xs) = x # r"
  shows "x \<in> set xs \<and> P x"
proof -
  have "x \<in> set (sort_key f (filter P xs))" using assms by simp
  then show ?thesis by simp
qed

end
