(* ===== verification/Enums.thy ===== *)
theory Enums
  imports MM_Prelude
begin

section \<open>Domain taxonomies\<close>

text \<open>
  The string enums of \<^verbatim>\<open>domain/enums.py\<close>, the durable event names of
  \<^verbatim>\<open>domain/events.py\<close> and the effect states of \<^verbatim>\<open>orchestration/reconciliation.py\<close> as
  datatypes. Where two enums share a member name the constructors carry a prefix: \<open>J_\<close> for
  \<^verbatim>\<open>JobStatus\<close>, \<open>R_\<close> for \<^verbatim>\<open>AgentRunStatus\<close>, \<open>I_\<close> for \<^verbatim>\<open>IncidentType\<close>, \<open>EV_\<close> for
  \<^verbatim>\<open>EventName\<close>, \<open>X_\<close> for the effect states, \<open>C_\<close> for the commissioning states. The
  functions \<open>job_status_value\<close> and \<open>event_value\<close> are the enums' \<^verbatim>\<open>value\<close> strings.
\<close>

datatype product_state =
    DISCOVERED
  | RESEARCHING
  | RESEARCH_COMPLETE
  | QUALIFYING
  | QUALIFIED
  | REJECTED
  | TEARDOWN_PENDING
  | TEARDOWN_COMPLETE
  | SPEC_READY
  | DEDUPE_CHECK
  | RECONCEPTING
  | BUILDING
  | BUILD_QA
  | BUILD_REPAIR
  | VARIANT_BUILD
  | VARIANT_QA
  | MERCHANDISING
  | ASSET_BUILD
  | ASSET_QA
  | DRAFTING
  | DRAFT_READY
  | PREFLIGHT
  | LISTING_REPAIR
  | READY_TO_PUBLISH
  | PUBLISHED
  | POST_PUBLISH_QA
  | INCIDENT_REPAIR
  | OBSERVING
  | MATURE
  | EVALUATING
  | REPAIRING
  | DEACTIVATING
  | DEACTIVATED
  | SUCCESSOR_SPEC

datatype job_status =
    J_PENDING
  | J_BLOCKED
  | J_READY
  | J_RUNNING
  | J_SUCCEEDED
  | J_FAILED
  | J_TERMINAL_FAILURE
  | J_CANCELLED
  | J_UNCERTAIN_EXTERNAL_EFFECT

datatype agent_run_status =
    R_SUCCESS
  | R_FAILURE
  | R_BLOCKED
  | R_UNCERTAIN_EXTERNAL_EFFECT

datatype branch_outcome =
    PASS
  | FAIL
  | TOO_CLOSE

datatype side_effect_class =
    NONE
  | EXTERNAL_READ
  | EXTERNAL_WRITE
  | EXTERNAL_SPEND
  | EXTERNAL_MESSAGE

datatype retry_class =
    SAFE
  | IDEMPOTENT
  | RECONCILE_FIRST
  | MANUAL_RESUME
  | NEVER

datatype decision_type =
    HOLD
  | REPAIR
  | CULL
  | MULTIPLY

datatype incident_type =
    I_BROKEN_LINK
  | I_CUSTOMER_ISSUE
  | I_BUILD_DEFECT
  | I_LISTING_DEFECT
  | I_CREDENTIAL_FAILURE
  | I_PROVIDER_MISMATCH
  | I_TERMINAL_JOB_FAILURE
  | I_UNCERTAIN_EXTERNAL_EFFECT

datatype autonomy_mode =
    SIMULATION
  | DRAFT
  | LIVE

datatype capability_channel =
    DIRECT_API
  | COMPOSIO
  | BROWSER
  | INTERNAL_RENDERER
  | MANUAL_EXTERNAL_BLOCKER

datatype event_name =
    EV_ACCOUNT_CONNECTED
  | EV_RESEARCH_COMPLETED
  | EV_NICHE_SHORTLISTED
  | EV_PRODUCT_QUALIFIED
  | EV_PRODUCT_REJECTED
  | EV_TEARDOWN_COMPLETED
  | EV_PRODUCT_SPEC_CREATED
  | EV_DEDUPE_PASSED
  | EV_DEDUPE_FAILED
  | EV_BUILD_COMPLETED
  | EV_BUILD_QA_PASSED
  | EV_BUILD_QA_FAILED
  | EV_VARIANTS_COMPLETED
  | EV_ASSETS_COMPLETED
  | EV_DRAFT_CREATED
  | EV_PREFLIGHT_PASSED
  | EV_PREFLIGHT_FAILED
  | EV_LISTING_PUBLISHED
  | EV_POST_PUBLISH_VERIFIED
  | EV_METRICS_CAPTURED
  | EV_LISTING_MATURED
  | EV_LISTING_HELD
  | EV_LISTING_REPAIR_REQUESTED
  | EV_LISTING_CULLED
  | EV_WINNER_DETECTED
  | EV_SUCCESSOR_CREATED
  | EV_CUSTOMER_ISSUE_RECEIVED
  | EV_BROKEN_LINK_DETECTED
  | EV_REPAIR_COMPLETED
  | EV_JOB_FAILED
  | EV_JOB_STALLED
  | EV_CREDENTIAL_REQUIRED
  | EV_ENVIRONMENT_AUDITED
  | EV_SHOP_BOOTSTRAPPED
  | EV_NICHE_SELECTED
  | EV_COMPETITOR_PURCHASED
  | EV_VARIANT_LINKS_VERIFIED
  | EV_SCREENSHOTS_CAPTURED
  | EV_LISTING_COPY_COMPLETED
  | EV_DELIVERY_FILES_COMPLETED
  | EV_PRICING_COMPLETED
  | EV_PROOF_FEEDBACK_CAPTURED
  | EV_SCHEDULE_CONFIGURED
  | EV_BUILD_SLOT_DEFERRED
  | EV_MONTHLY_REVIEW_COMPLETED
  | EV_SCALE_DECIDED
  | EV_LISTING_CULL_REQUESTED
  | EV_REPAIR_APPLIED

datatype effect_state =
    X_CONFIRMED
  | X_ABSENT
  | X_UNKNOWN

datatype commissioning_state =
    C_DESIGNED
  | C_IMPLEMENTED
  | C_TESTED
  | C_COMMISSIONED
  | C_SUSPENDED

fun job_status_value :: "job_status \<Rightarrow> string" where
  "job_status_value J_PENDING = ''PENDING''"
| "job_status_value J_BLOCKED = ''BLOCKED''"
| "job_status_value J_READY = ''READY''"
| "job_status_value J_RUNNING = ''RUNNING''"
| "job_status_value J_SUCCEEDED = ''SUCCEEDED''"
| "job_status_value J_FAILED = ''FAILED''"
| "job_status_value J_TERMINAL_FAILURE = ''TERMINAL_FAILURE''"
| "job_status_value J_CANCELLED = ''CANCELLED''"
| "job_status_value J_UNCERTAIN_EXTERNAL_EFFECT = ''UNCERTAIN_EXTERNAL_EFFECT''"

fun event_value :: "event_name \<Rightarrow> string" where
  "event_value EV_ACCOUNT_CONNECTED = ''ACCOUNT_CONNECTED''"
| "event_value EV_RESEARCH_COMPLETED = ''RESEARCH_COMPLETED''"
| "event_value EV_NICHE_SHORTLISTED = ''NICHE_SHORTLISTED''"
| "event_value EV_PRODUCT_QUALIFIED = ''PRODUCT_QUALIFIED''"
| "event_value EV_PRODUCT_REJECTED = ''PRODUCT_REJECTED''"
| "event_value EV_TEARDOWN_COMPLETED = ''TEARDOWN_COMPLETED''"
| "event_value EV_PRODUCT_SPEC_CREATED = ''PRODUCT_SPEC_CREATED''"
| "event_value EV_DEDUPE_PASSED = ''DEDUPE_PASSED''"
| "event_value EV_DEDUPE_FAILED = ''DEDUPE_FAILED''"
| "event_value EV_BUILD_COMPLETED = ''BUILD_COMPLETED''"
| "event_value EV_BUILD_QA_PASSED = ''BUILD_QA_PASSED''"
| "event_value EV_BUILD_QA_FAILED = ''BUILD_QA_FAILED''"
| "event_value EV_VARIANTS_COMPLETED = ''VARIANTS_COMPLETED''"
| "event_value EV_ASSETS_COMPLETED = ''ASSETS_COMPLETED''"
| "event_value EV_DRAFT_CREATED = ''DRAFT_CREATED''"
| "event_value EV_PREFLIGHT_PASSED = ''PREFLIGHT_PASSED''"
| "event_value EV_PREFLIGHT_FAILED = ''PREFLIGHT_FAILED''"
| "event_value EV_LISTING_PUBLISHED = ''LISTING_PUBLISHED''"
| "event_value EV_POST_PUBLISH_VERIFIED = ''POST_PUBLISH_VERIFIED''"
| "event_value EV_METRICS_CAPTURED = ''METRICS_CAPTURED''"
| "event_value EV_LISTING_MATURED = ''LISTING_MATURED''"
| "event_value EV_LISTING_HELD = ''LISTING_HELD''"
| "event_value EV_LISTING_REPAIR_REQUESTED = ''LISTING_REPAIR_REQUESTED''"
| "event_value EV_LISTING_CULLED = ''LISTING_CULLED''"
| "event_value EV_WINNER_DETECTED = ''WINNER_DETECTED''"
| "event_value EV_SUCCESSOR_CREATED = ''SUCCESSOR_CREATED''"
| "event_value EV_CUSTOMER_ISSUE_RECEIVED = ''CUSTOMER_ISSUE_RECEIVED''"
| "event_value EV_BROKEN_LINK_DETECTED = ''BROKEN_LINK_DETECTED''"
| "event_value EV_REPAIR_COMPLETED = ''REPAIR_COMPLETED''"
| "event_value EV_JOB_FAILED = ''JOB_FAILED''"
| "event_value EV_JOB_STALLED = ''JOB_STALLED''"
| "event_value EV_CREDENTIAL_REQUIRED = ''CREDENTIAL_REQUIRED''"
| "event_value EV_ENVIRONMENT_AUDITED = ''ENVIRONMENT_AUDITED''"
| "event_value EV_SHOP_BOOTSTRAPPED = ''SHOP_BOOTSTRAPPED''"
| "event_value EV_NICHE_SELECTED = ''NICHE_SELECTED''"
| "event_value EV_COMPETITOR_PURCHASED = ''COMPETITOR_PURCHASED''"
| "event_value EV_VARIANT_LINKS_VERIFIED = ''VARIANT_LINKS_VERIFIED''"
| "event_value EV_SCREENSHOTS_CAPTURED = ''SCREENSHOTS_CAPTURED''"
| "event_value EV_LISTING_COPY_COMPLETED = ''LISTING_COPY_COMPLETED''"
| "event_value EV_DELIVERY_FILES_COMPLETED = ''DELIVERY_FILES_COMPLETED''"
| "event_value EV_PRICING_COMPLETED = ''PRICING_COMPLETED''"
| "event_value EV_PROOF_FEEDBACK_CAPTURED = ''PROOF_FEEDBACK_CAPTURED''"
| "event_value EV_SCHEDULE_CONFIGURED = ''SCHEDULE_CONFIGURED''"
| "event_value EV_BUILD_SLOT_DEFERRED = ''BUILD_SLOT_DEFERRED''"
| "event_value EV_MONTHLY_REVIEW_COMPLETED = ''MONTHLY_REVIEW_COMPLETED''"
| "event_value EV_SCALE_DECIDED = ''SCALE_DECIDED''"
| "event_value EV_LISTING_CULL_REQUESTED = ''LISTING_CULL_REQUESTED''"
| "event_value EV_REPAIR_APPLIED = ''REPAIR_APPLIED''"

fun decision_value :: "decision_type \<Rightarrow> string" where
  "decision_value HOLD = ''HOLD''"
| "decision_value REPAIR = ''REPAIR''"
| "decision_value CULL = ''CULL''"
| "decision_value MULTIPLY = ''MULTIPLY''"

definition all_event_names :: "event_name list" where
  "all_event_names =
     [EV_ACCOUNT_CONNECTED, EV_RESEARCH_COMPLETED, EV_NICHE_SHORTLISTED,
      EV_PRODUCT_QUALIFIED, EV_PRODUCT_REJECTED, EV_TEARDOWN_COMPLETED,
      EV_PRODUCT_SPEC_CREATED, EV_DEDUPE_PASSED, EV_DEDUPE_FAILED, EV_BUILD_COMPLETED,
      EV_BUILD_QA_PASSED, EV_BUILD_QA_FAILED, EV_VARIANTS_COMPLETED, EV_ASSETS_COMPLETED,
      EV_DRAFT_CREATED, EV_PREFLIGHT_PASSED, EV_PREFLIGHT_FAILED, EV_LISTING_PUBLISHED,
      EV_POST_PUBLISH_VERIFIED, EV_METRICS_CAPTURED, EV_LISTING_MATURED, EV_LISTING_HELD,
      EV_LISTING_REPAIR_REQUESTED, EV_LISTING_CULLED, EV_WINNER_DETECTED,
      EV_SUCCESSOR_CREATED, EV_CUSTOMER_ISSUE_RECEIVED, EV_BROKEN_LINK_DETECTED,
      EV_REPAIR_COMPLETED, EV_JOB_FAILED, EV_JOB_STALLED, EV_CREDENTIAL_REQUIRED,
      EV_ENVIRONMENT_AUDITED, EV_SHOP_BOOTSTRAPPED, EV_NICHE_SELECTED,
      EV_COMPETITOR_PURCHASED, EV_VARIANT_LINKS_VERIFIED, EV_SCREENSHOTS_CAPTURED,
      EV_LISTING_COPY_COMPLETED, EV_DELIVERY_FILES_COMPLETED, EV_PRICING_COMPLETED,
      EV_PROOF_FEEDBACK_CAPTURED, EV_SCHEDULE_CONFIGURED, EV_BUILD_SLOT_DEFERRED,
      EV_MONTHLY_REVIEW_COMPLETED, EV_SCALE_DECIDED, EV_LISTING_CULL_REQUESTED,
      EV_REPAIR_APPLIED]"

lemma all_event_names_complete [simp]: "e \<in> set all_event_names"
  by (cases e) (simp_all add: all_event_names_def)

lemma event_values_distinct: "distinct (map event_value all_event_names)"
  by code_simp

text \<open>Distinct events have distinct names, so a name read back determines the event.\<close>

lemma event_value_inj: "event_value a = event_value b \<longleftrightarrow> a = b"
  using event_values_distinct all_event_names_complete
  by (metis distinct_map inj_onD)

lemma job_status_value_inj: "job_status_value a = job_status_value b \<longleftrightarrow> a = b"
  by (cases a; cases b; simp)

definition event_chars :: "char list" where
  "event_chars = ''ABCDEFGHIJKLMNOPQRSTUVWXYZ_''"

lemma event_value_chars_all: "list_all (\<lambda>e. list_all (\<lambda>c. c \<in> set event_chars) (event_value e)) all_event_names"
  by code_simp

lemma event_value_chars: "c \<in> set (event_value e) \<Longrightarrow> c \<in> set event_chars"
  using event_value_chars_all all_event_names_complete [of e] by (auto simp: list_all_iff)

text \<open>An event name never contains the key separator.\<close>

lemma event_value_no_colon [simp]: "CHR '':'' \<notin> set (event_value e)"
proof
  assume "CHR '':'' \<in> set (event_value e)"
  then have "CHR '':'' \<in> set event_chars" by (rule event_value_chars)
  then show False by (simp add: event_chars_def)
qed

end
