(* ===== verification/Transition_Guard.thy ===== *)
theory Transition_Guard
  imports Enums "HOL-Library.Transitive_Closure_Table"
begin

section \<open>Lifecycle and job transition tables\<close>

text \<open>
  \<^verbatim>\<open>orchestration/transition_guard.py\<close> (the two transition tables, the terminal results, the
  portfolio decision paths and the three \<^verbatim>\<open>require_\<close> guards) and
  \<^verbatim>\<open>orchestration/state_machine.py\<close> (\<^verbatim>\<open>JobStateMachine\<close>). A table lookup is a function from
  a state to the set of admitted targets; a guard returns the exception or \<open>()\<close>. The
  interface both guards share is the locale \<open>transition_guard\<close>, interpreted on each table.
\<close>

fun PRODUCT_TRANSITIONS :: "product_state \<Rightarrow> product_state set" where
  "PRODUCT_TRANSITIONS DISCOVERED = {RESEARCHING}"
| "PRODUCT_TRANSITIONS RESEARCHING = {RESEARCH_COMPLETE}"
| "PRODUCT_TRANSITIONS RESEARCH_COMPLETE = {QUALIFYING}"
| "PRODUCT_TRANSITIONS QUALIFYING = {QUALIFIED, REJECTED}"
| "PRODUCT_TRANSITIONS QUALIFIED = {TEARDOWN_PENDING}"
| "PRODUCT_TRANSITIONS REJECTED = {}"
| "PRODUCT_TRANSITIONS TEARDOWN_PENDING = {TEARDOWN_COMPLETE}"
| "PRODUCT_TRANSITIONS TEARDOWN_COMPLETE = {SPEC_READY}"
| "PRODUCT_TRANSITIONS SPEC_READY = {DEDUPE_CHECK}"
| "PRODUCT_TRANSITIONS DEDUPE_CHECK = {RECONCEPTING, BUILDING}"
| "PRODUCT_TRANSITIONS RECONCEPTING = {SPEC_READY}"
| "PRODUCT_TRANSITIONS BUILDING = {BUILD_QA}"
| "PRODUCT_TRANSITIONS BUILD_QA = {BUILD_REPAIR, VARIANT_BUILD}"
| "PRODUCT_TRANSITIONS BUILD_REPAIR = {BUILD_QA}"
| "PRODUCT_TRANSITIONS VARIANT_BUILD = {VARIANT_QA}"
| "PRODUCT_TRANSITIONS VARIANT_QA = {VARIANT_BUILD, MERCHANDISING}"
| "PRODUCT_TRANSITIONS MERCHANDISING = {ASSET_BUILD}"
| "PRODUCT_TRANSITIONS ASSET_BUILD = {ASSET_QA}"
| "PRODUCT_TRANSITIONS ASSET_QA = {ASSET_BUILD, DRAFTING}"
| "PRODUCT_TRANSITIONS DRAFTING = {DRAFT_READY}"
| "PRODUCT_TRANSITIONS DRAFT_READY = {PREFLIGHT}"
| "PRODUCT_TRANSITIONS PREFLIGHT = {LISTING_REPAIR, READY_TO_PUBLISH}"
| "PRODUCT_TRANSITIONS LISTING_REPAIR = {PREFLIGHT}"
| "PRODUCT_TRANSITIONS READY_TO_PUBLISH = {PUBLISHED}"
| "PRODUCT_TRANSITIONS PUBLISHED = {POST_PUBLISH_QA}"
| "PRODUCT_TRANSITIONS POST_PUBLISH_QA = {INCIDENT_REPAIR, OBSERVING}"
| "PRODUCT_TRANSITIONS INCIDENT_REPAIR = {POST_PUBLISH_QA}"
| "PRODUCT_TRANSITIONS OBSERVING = {MATURE}"
| "PRODUCT_TRANSITIONS MATURE = {EVALUATING}"
| "PRODUCT_TRANSITIONS EVALUATING = {OBSERVING, REPAIRING, DEACTIVATING, SUCCESSOR_SPEC}"
| "PRODUCT_TRANSITIONS REPAIRING = {OBSERVING}"
| "PRODUCT_TRANSITIONS DEACTIVATING = {DEACTIVATED}"
| "PRODUCT_TRANSITIONS DEACTIVATED = {}"
| "PRODUCT_TRANSITIONS SUCCESSOR_SPEC = {OBSERVING}"

fun JOB_TRANSITIONS :: "job_status \<Rightarrow> job_status set" where
  "JOB_TRANSITIONS J_PENDING = {J_BLOCKED, J_READY, J_CANCELLED}"
| "JOB_TRANSITIONS J_BLOCKED = {J_READY, J_CANCELLED}"
| "JOB_TRANSITIONS J_READY = {J_RUNNING, J_CANCELLED}"
| "JOB_TRANSITIONS J_RUNNING =
     {J_SUCCEEDED, J_FAILED, J_BLOCKED, J_UNCERTAIN_EXTERNAL_EFFECT}"
| "JOB_TRANSITIONS J_FAILED = {J_READY, J_TERMINAL_FAILURE}"
| "JOB_TRANSITIONS J_UNCERTAIN_EXTERNAL_EFFECT = {J_SUCCEEDED, J_FAILED, J_BLOCKED}"
| "JOB_TRANSITIONS J_SUCCEEDED = {}"
| "JOB_TRANSITIONS J_TERMINAL_FAILURE = {}"
| "JOB_TRANSITIONS J_CANCELLED = {}"

definition PRODUCT_TERMINAL_RESULTS :: "product_state \<rightharpoonup> event_name" where
  "PRODUCT_TERMINAL_RESULTS =
     [REJECTED \<mapsto> EV_PRODUCT_REJECTED, DEACTIVATED \<mapsto> EV_LISTING_CULLED]"

definition JOB_TERMINAL_RESULTS :: "job_status \<rightharpoonup> string" where
  "JOB_TERMINAL_RESULTS =
     [J_SUCCEEDED \<mapsto> ''success_contract'', J_TERMINAL_FAILURE \<mapsto> ''structured_error'',
      J_CANCELLED \<mapsto> ''cancellation_reason'']"

fun PORTFOLIO_DECISION_PATHS :: "decision_type \<Rightarrow> product_state list" where
  "PORTFOLIO_DECISION_PATHS HOLD = [EVALUATING, OBSERVING]"
| "PORTFOLIO_DECISION_PATHS REPAIR = [EVALUATING, REPAIRING, OBSERVING]"
| "PORTFOLIO_DECISION_PATHS CULL = [EVALUATING, DEACTIVATING, DEACTIVATED]"
| "PORTFOLIO_DECISION_PATHS MULTIPLY = [EVALUATING, SUCCESSOR_SPEC, OBSERVING]"

definition ORIGINAL_WORKFLOW_ENTRY_STATE :: product_state where
  "ORIGINAL_WORKFLOW_ENTRY_STATE = DISCOVERED"

definition SUCCESSOR_WORKFLOW_ENTRY_STATE :: product_state where
  "SUCCESSOR_WORKFLOW_ENTRY_STATE = DEDUPE_CHECK"

definition SUCCESSOR_SPAWN_SOURCE_STATE :: product_state where
  "SUCCESSOR_SPAWN_SOURCE_STATE = SUCCESSOR_SPEC"

definition require_product_transition :: "product_state \<Rightarrow> product_state \<Rightarrow> error + unit" where
  "require_product_transition source target =
     (if target \<notin> PRODUCT_TRANSITIONS source then Inl InvalidTransitionError else Inr ())"

definition require_job_transition :: "job_status \<Rightarrow> job_status \<Rightarrow> error + unit" where
  "require_job_transition source target =
     (if target \<notin> JOB_TRANSITIONS source then Inl InvalidTransitionError else Inr ())"

definition require_successor_spawn ::
    "product_state \<Rightarrow> uuid \<Rightarrow> uuid \<Rightarrow> error + product_state" where
  "require_successor_spawn parent_state parent_workflow_id successor_workflow_id =
     (if parent_state \<noteq> SUCCESSOR_SPAWN_SOURCE_STATE then Inl InvalidTransitionError
      else if parent_workflow_id = successor_workflow_id then Inl InvalidTransitionError
      else Inr SUCCESSOR_WORKFLOW_ENTRY_STATE)"

subsection \<open>The job state machine\<close>

record state_transition =
  st_job_id :: uuid
  st_source_status :: job_status
  st_target_status :: job_status
  st_timestamp :: time
  st_reason :: "string option"

definition validate_transition ::
    "time \<Rightarrow> uuid \<Rightarrow> job_status \<Rightarrow> job_status \<Rightarrow> string option \<Rightarrow> error + state_transition" where
  "validate_transition now job_id source target reason =
     bindE (require_job_transition source target)
       (\<lambda>_. Inr \<lparr>st_job_id = job_id, st_source_status = source, st_target_status = target,
                 st_timestamp = now, st_reason = reason\<rparr>)"

definition can_transition :: "job_status \<Rightarrow> job_status \<Rightarrow> bool" where
  "can_transition source target =
     (case require_job_transition source target of Inr _ \<Rightarrow> True | Inl _ \<Rightarrow> False)"

definition get_allowed_transitions :: "job_status \<Rightarrow> job_status set" where
  "get_allowed_transitions source = JOB_TRANSITIONS source"

definition is_terminal :: "job_status \<Rightarrow> bool" where
  "is_terminal status \<longleftrightarrow> card (JOB_TRANSITIONS status) = 0"

subsection \<open>The interface of a transition guard\<close>

text \<open>
  A guard over a table: it accepts exactly the table's edges and otherwise raises
  \<open>InvalidTransitionError\<close>. \<open>walk\<close> runs a guard along a list of states, as the callers do
  step by step.
\<close>

fun walk :: "('s \<Rightarrow> 's \<Rightarrow> error + unit) \<Rightarrow> 's \<Rightarrow> 's list \<Rightarrow> error + 's" where
  "walk require s [] = Inr s"
| "walk require s (t # ts) = bindE (require s t) (\<lambda>_. walk require t ts)"

locale transition_guard =
  fixes table :: "'s \<Rightarrow> 's set"
    and require :: "'s \<Rightarrow> 's \<Rightarrow> error + unit"
  assumes require_accepts: "t \<in> table s \<Longrightarrow> require s t = Inr ()"
    and require_rejects: "t \<notin> table s \<Longrightarrow> require s t = Inl InvalidTransitionError"
begin

lemma require_iff: "require s t = Inr u \<longleftrightarrow> t \<in> table s"
  using require_accepts require_rejects by (cases "t \<in> table s") auto

lemma require_error: "require s t = Inl e \<longleftrightarrow> t \<notin> table s \<and> e = InvalidTransitionError"
  using require_accepts require_rejects by (cases "t \<in> table s") auto

lemma walk_reaches: "walk require s ts = Inr t \<Longrightarrow> (\<lambda>a b. b \<in> table a)\<^sup>*\<^sup>* s t"
proof (induction ts arbitrary: s)
  case Nil
  then show ?case by simp
next
  case (Cons u ts)
  then show ?case
    by (auto simp: bindE_eq_Inr require_iff intro: converse_rtranclp_into_rtranclp)
qed

lemma reaches_walk: "(\<lambda>a b. b \<in> table a)\<^sup>*\<^sup>* s t \<Longrightarrow> \<exists>ts. walk require s ts = Inr t"
proof (induction rule: converse_rtranclp_induct)
  case base
  then show ?case by (metis walk.simps(1))
next
  case (step a b)
  then obtain ts where "walk require b ts = Inr t" by blast
  with step.hyps(1) have "walk require a (b # ts) = Inr t" by (simp add: require_accepts)
  then show ?case by blast
qed

lemma walk_terminal: "table s = {} \<Longrightarrow> walk require s ts = Inr t \<Longrightarrow> ts = [] \<and> t = s"
  by (cases ts) (auto simp: bindE_eq_Inr require_iff)

lemma walk_closed:
  assumes "walk require s ts = Inr t" and "s \<in> A" and "\<And>a. a \<in> A \<Longrightarrow> table a \<subseteq> A"
  shows "t \<in> A"
  using assms(1,2)
proof (induction ts arbitrary: s)
  case Nil
  then show ?case by simp
next
  case (Cons u ts)
  then show ?case using assms(3) by (auto simp: bindE_eq_Inr require_iff)
qed

end

interpretation product_guard: transition_guard PRODUCT_TRANSITIONS require_product_transition
  by unfold_locales (simp_all add: require_product_transition_def)

interpretation job_guard: transition_guard JOB_TRANSITIONS require_job_transition
  by unfold_locales (simp_all add: require_job_transition_def)

lemmas guard_simps [simp] =
  product_guard.require_iff product_guard.require_error
  job_guard.require_iff job_guard.require_error

lemma can_transition_iff: "can_transition s t \<longleftrightarrow> t \<in> get_allowed_transitions s"
  by (cases "t \<in> JOB_TRANSITIONS s")
    (simp_all add: can_transition_def get_allowed_transitions_def require_job_transition_def)

lemma is_terminal_iff: "is_terminal s \<longleftrightarrow> s \<in> {J_SUCCEEDED, J_TERMINAL_FAILURE, J_CANCELLED}"
  by (cases s) (simp_all add: is_terminal_def)

lemma terminal_no_targets: "is_terminal s \<Longrightarrow> JOB_TRANSITIONS s = {}"
  by (auto simp: is_terminal_iff)

lemma require_successor_spawn_Inr [simp]:
  "require_successor_spawn ps p s = Inr e \<longleftrightarrow> ps = SUCCESSOR_SPEC \<and> p \<noteq> s \<and> e = DEDUPE_CHECK"
  by (auto simp: require_successor_spawn_def SUCCESSOR_SPAWN_SOURCE_STATE_def
      SUCCESSOR_WORKFLOW_ENTRY_STATE_def)

subsection \<open>Properties of the two tables\<close>

text \<open>
  The state machine agrees with the table on every pair of statuses: it validates
  exactly the table's edges, its result repeats the request, every other pair raises
  \<open>InvalidTransitionError\<close>, and the terminal statuses are exactly those with a recorded
  terminal result.
\<close>

theorem job_state_machine_correct:
  "validate_transition now i s t r =
     (if t \<in> JOB_TRANSITIONS s
      then Inr \<lparr>st_job_id = i, st_source_status = s, st_target_status = t,
                st_timestamp = now, st_reason = r\<rparr>
      else Inl InvalidTransitionError) \<and>
   (can_transition s t \<longleftrightarrow> t \<in> JOB_TRANSITIONS s) \<and>
   (is_terminal s \<longleftrightarrow> JOB_TERMINAL_RESULTS s \<noteq> None)"
proof (intro conjI)
  show "validate_transition now i s t r =
     (if t \<in> JOB_TRANSITIONS s
      then Inr \<lparr>st_job_id = i, st_source_status = s, st_target_status = t,
                st_timestamp = now, st_reason = r\<rparr>
      else Inl InvalidTransitionError)"
    by (simp add: validate_transition_def require_job_transition_def)
  show "can_transition s t \<longleftrightarrow> t \<in> JOB_TRANSITIONS s"
    by (simp add: can_transition_iff get_allowed_transitions_def)
  show "is_terminal s \<longleftrightarrow> JOB_TERMINAL_RESULTS s \<noteq> None"
    by (cases s) (simp_all add: is_terminal_iff JOB_TERMINAL_RESULTS_def)
qed

text \<open>The states a published product can still take.\<close>

definition post_publish_states :: "product_state set" where
  "post_publish_states = {PUBLISHED, POST_PUBLISH_QA, INCIDENT_REPAIR, OBSERVING, MATURE,
     EVALUATING, REPAIRING, DEACTIVATING, DEACTIVATED, SUCCESSOR_SPEC}"

lemma post_publish_closed: "s \<in> post_publish_states \<Longrightarrow> PRODUCT_TRANSITIONS s \<subseteq> post_publish_states"
  by (auto simp: post_publish_states_def)

text \<open>
  Once a product is published, no sequence of admitted transitions takes the same
  workflow back to the dedupe gate or into a build: a multiplied winner re-enters the build
  lifecycle only through a new workflow.
\<close>

theorem published_never_reenters_build:
  assumes "s \<in> post_publish_states" and "walk require_product_transition s ts = Inr t"
  shows "t \<in> post_publish_states \<and> t \<noteq> DEDUPE_CHECK \<and> t \<noteq> BUILDING \<and> t \<noteq> READY_TO_PUBLISH"
proof -
  have "t \<in> post_publish_states"
    by (rule product_guard.walk_closed [OF assms(2,1) post_publish_closed])
  then show ?thesis by (auto simp: post_publish_states_def)
qed

theorem published_never_reenters_build_witness:
  "EVALUATING \<in> post_publish_states \<and>
   walk require_product_transition EVALUATING [SUCCESSOR_SPEC, OBSERVING, MATURE] = Inr MATURE \<and>
   MATURE \<noteq> DEDUPE_CHECK"
proof -
  have h: "EVALUATING \<in> post_publish_states" by (simp add: post_publish_states_def)
  have w: "walk require_product_transition EVALUATING [SUCCESSOR_SPEC, OBSERVING, MATURE] = Inr MATURE"
    by (simp add: require_product_transition_def)
  show ?thesis using h w published_never_reenters_build [OF h w] by simp
qed

text \<open>
  How far a state is from the end of the lifecycle: every state that is not terminal has an
  admitted target of smaller rank, so no product state is a trap.
\<close>

fun exit_rank :: "product_state \<Rightarrow> nat" where
  "exit_rank DEACTIVATED = 0"
| "exit_rank DEACTIVATING = 1"
| "exit_rank EVALUATING = 2"
| "exit_rank MATURE = 3"
| "exit_rank OBSERVING = 4"
| "exit_rank REPAIRING = 5"
| "exit_rank SUCCESSOR_SPEC = 6"
| "exit_rank POST_PUBLISH_QA = 7"
| "exit_rank INCIDENT_REPAIR = 8"
| "exit_rank PUBLISHED = 9"
| "exit_rank READY_TO_PUBLISH = 10"
| "exit_rank PREFLIGHT = 11"
| "exit_rank LISTING_REPAIR = 12"
| "exit_rank DRAFT_READY = 13"
| "exit_rank DRAFTING = 14"
| "exit_rank ASSET_QA = 15"
| "exit_rank ASSET_BUILD = 16"
| "exit_rank MERCHANDISING = 17"
| "exit_rank VARIANT_QA = 18"
| "exit_rank VARIANT_BUILD = 19"
| "exit_rank BUILD_QA = 20"
| "exit_rank BUILD_REPAIR = 21"
| "exit_rank BUILDING = 22"
| "exit_rank DEDUPE_CHECK = 23"
| "exit_rank SPEC_READY = 24"
| "exit_rank RECONCEPTING = 25"
| "exit_rank TEARDOWN_COMPLETE = 26"
| "exit_rank TEARDOWN_PENDING = 27"
| "exit_rank QUALIFIED = 28"
| "exit_rank REJECTED = 29"
| "exit_rank QUALIFYING = 30"
| "exit_rank RESEARCH_COMPLETE = 31"
| "exit_rank RESEARCHING = 32"
| "exit_rank DISCOVERED = 33"

lemma exit_rank_decreases:
  "PRODUCT_TRANSITIONS s = {} \<or> (\<exists>t \<in> PRODUCT_TRANSITIONS s. exit_rank t < exit_rank s)"
  by (cases s) simp_all

text \<open>
  No product state is a trap: from every state some sequence of admitted transitions
  ends in a state with a recorded terminal result (\<open>REJECTED\<close> or \<open>DEACTIVATED\<close>), and the
  path of each portfolio decision is admitted from end to end, ending the lifecycle exactly
  for \<open>CULL\<close>.
\<close>

theorem product_lifecycle_can_end:
  "(\<exists>ts t. walk require_product_transition s ts = Inr t \<and> PRODUCT_TERMINAL_RESULTS t \<noteq> None) \<and>
   walk require_product_transition (hd (PORTFOLIO_DECISION_PATHS d))
     (tl (PORTFOLIO_DECISION_PATHS d)) = Inr (last (PORTFOLIO_DECISION_PATHS d)) \<and>
   (PRODUCT_TERMINAL_RESULTS (last (PORTFOLIO_DECISION_PATHS d)) \<noteq> None \<longleftrightarrow> d = CULL)"
proof (intro conjI)
  show "\<exists>ts t. walk require_product_transition s ts = Inr t \<and> PRODUCT_TERMINAL_RESULTS t \<noteq> None"
  proof (induction "exit_rank s" arbitrary: s rule: less_induct)
    case less
    show ?case
    proof (cases "PRODUCT_TRANSITIONS s = {}")
      case True
      then have "PRODUCT_TERMINAL_RESULTS s \<noteq> None"
        by (cases s) (simp_all add: PRODUCT_TERMINAL_RESULTS_def)
      moreover have "walk require_product_transition s [] = Inr s" by simp
      ultimately show ?thesis by blast
    next
      case False
      then obtain u where u: "u \<in> PRODUCT_TRANSITIONS s" "exit_rank u < exit_rank s"
        using exit_rank_decreases [of s] by blast
      from less.hyps [OF u(2)] obtain ts t where
        "walk require_product_transition u ts = Inr t" "PRODUCT_TERMINAL_RESULTS t \<noteq> None" by blast
      with u(1) have "walk require_product_transition s (u # ts) = Inr t"
        by (simp add: require_product_transition_def)
      with \<open>PRODUCT_TERMINAL_RESULTS t \<noteq> None\<close> show ?thesis by blast
    qed
  qed
  show "walk require_product_transition (hd (PORTFOLIO_DECISION_PATHS d))
     (tl (PORTFOLIO_DECISION_PATHS d)) = Inr (last (PORTFOLIO_DECISION_PATHS d))"
    by (cases d) (simp_all add: require_product_transition_def)
  show "PRODUCT_TERMINAL_RESULTS (last (PORTFOLIO_DECISION_PATHS d)) \<noteq> None \<longleftrightarrow> d = CULL"
    by (cases d) (simp_all add: PRODUCT_TERMINAL_RESULTS_def)
qed

end
