(* ===== verification/Schema.thy ===== *)
theory Schema
  imports Transition_Guard
begin

section \<open>The canonical tables\<close>

text \<open>
  The rows of \<^verbatim>\<open>persistence/tables.py\<close> that the orchestrator reads and writes, as records, and
  the database as one record of tables. A table is the list of its rows in physical order;
  an SQL \<^verbatim>\<open>ORDER BY\<close> is a stable sort, so the order of rows that tie is whatever the
  physical order is, and every theorem holds for all of them. The column names keep the
  source's names behind a prefix for the table: \<open>w_\<close>, \<open>j_\<close>, \<open>d_\<close>, \<open>t_\<close>, \<open>e_\<close>, \<open>ir_\<close>,
  \<open>ea_\<close>, \<open>r_\<close>.

  The \<open>insert_\<close> operations are \<^verbatim>\<open>session.add\<close> followed by \<^verbatim>\<open>flush\<close>: they check the declared
  constraints (primary and foreign keys, uniqueness, checks, column lengths) and raise what
  the driver raises. \<open>flush_job\<close> and \<open>flush_workflow\<close> are the flush of one changed row: no
  statement is sent for an unchanged row, and a changed row gets the next version, as the
  mapper's \<^verbatim>\<open>version_id_col\<close> does. A state column whose taxonomy check admits exactly an
  enum is that enum.
\<close>

subsection \<open>Text form of a UUID\<close>

definition hex_digit :: "nat \<Rightarrow> char" where
  "hex_digit n = ''0123456789abcdef'' ! (n mod 16)"

fun hex_string :: "nat \<Rightarrow> nat \<Rightarrow> string" where
  "hex_string 0 n = []"
| "hex_string (Suc k) n = hex_string k (n div 16) @ [hex_digit n]"

text \<open>\<^verbatim>\<open>str(uuid)\<close>: the 32 hexadecimal digits grouped 8-4-4-4-12.\<close>

definition str_uuid :: "uuid \<Rightarrow> string" where
  "str_uuid u = (let h = hex_string 32 (unat u) in
     take 8 h @ ''-'' @ take 4 (drop 8 h) @ ''-'' @ take 4 (drop 12 h) @ ''-'' @
     take 4 (drop 16 h) @ ''-'' @ drop 20 h)"

lemma length_hex_string [simp]: "length (hex_string k n) = k"
  by (induction k arbitrary: n) auto

lemma hex_digits_distinct: "distinct ''0123456789abcdef''"
  by code_simp

lemma hex_digit_inj: "hex_digit a = hex_digit b \<Longrightarrow> a mod 16 = b mod 16"
  using nth_eq_iff_index_eq [OF hex_digits_distinct, of "a mod 16" "b mod 16"]
  by (simp add: hex_digit_def)

lemma hex_string_inj: "hex_string k a = hex_string k b \<Longrightarrow> a < 16 ^ k \<Longrightarrow> b < 16 ^ k \<Longrightarrow> a = b"
proof (induction k arbitrary: a b)
  case 0
  then show ?case by simp
next
  case (Suc k)
  then have "hex_string k (a div 16) = hex_string k (b div 16)" and d: "a mod 16 = b mod 16"
    by (auto intro: hex_digit_inj)
  moreover have "a div 16 < 16 ^ k" "b div 16 < 16 ^ k"
    using Suc.prems(2,3) by (simp_all add: less_mult_imp_div_less mult.commute)
  ultimately have "a div 16 = b div 16" by (intro Suc.IH)
  with d show ?case by (metis div_mult_mod_eq)
qed

definition uuid_chars :: "char set" where
  "uuid_chars = set ''0123456789abcdef-''"

lemma hex_digit_chars: "hex_digit n \<in> uuid_chars"
proof -
  have "hex_digit n \<in> set ''0123456789abcdef''"
    unfolding hex_digit_def by (rule nth_mem) simp
  then show ?thesis by (auto simp: uuid_chars_def)
qed

lemma hex_string_chars: "set (hex_string k n) \<subseteq> uuid_chars"
  by (induction k arbitrary: n) (auto simp: hex_digit_chars)

lemma length_str_uuid [simp]: "length (str_uuid u) = 36"
  by (simp add: str_uuid_def Let_def)

lemma str_uuid_chars: "set (str_uuid u) \<subseteq> uuid_chars"
proof -
  have "set (take k (drop l (hex_string 32 (unat u)))) \<subseteq> uuid_chars" for k l
    using hex_string_chars by (meson order_trans set_drop_subset set_take_subset)
  moreover have "set (take 8 (hex_string 32 (unat u))) \<subseteq> uuid_chars"
    using hex_string_chars by (meson order_trans set_take_subset)
  moreover have "set (drop 20 (hex_string 32 (unat u))) \<subseteq> uuid_chars"
    using hex_string_chars by (meson order_trans set_drop_subset)
  moreover have "CHR ''-'' \<in> uuid_chars" by (simp add: uuid_chars_def)
  ultimately show ?thesis by (simp add: str_uuid_def Let_def)
qed

lemma str_uuid_no_colon [simp]: "CHR '':'' \<notin> set (str_uuid u)"
proof
  assume "CHR '':'' \<in> set (str_uuid u)"
  then have "CHR '':'' \<in> uuid_chars" using str_uuid_chars by blast
  then show False by (simp add: uuid_chars_def)
qed

text \<open>The text form determines the identifier.\<close>

lemma str_uuid_inj [simp]: "str_uuid a = str_uuid b \<longleftrightarrow> a = b"
proof
  assume eq: "str_uuid a = str_uuid b"
  let ?h = "hex_string 32 (unat a)" and ?g = "hex_string 32 (unat b)"
  from eq have parts: "take 8 ?h = take 8 ?g" "take 4 (drop 8 ?h) = take 4 (drop 8 ?g)"
    "take 4 (drop 12 ?h) = take 4 (drop 12 ?g)" "take 4 (drop 16 ?h) = take 4 (drop 16 ?g)"
    "drop 20 ?h = drop 20 ?g"
    by (simp_all add: str_uuid_def Let_def)
  have join: "h = take 8 h @ take 4 (drop 8 h) @ take 4 (drop 12 h) @ take 4 (drop 16 h) @ drop 20 h"
    for h :: string
    using take_add [of 8 4 h] take_add [of 12 4 h] take_add [of 16 4 h] append_take_drop_id [of 20 h]
    by simp
  have "?h = ?g" using parts join by metis
  moreover have "unat a < 16 ^ 32" "unat b < 16 ^ 32"
    using unsigned_less [of a, where ?'a = nat] unsigned_less [of b, where ?'a = nat] by simp_all
  ultimately have "unat a = unat b" by (rule hex_string_inj)
  then show "a = b" by (simp only: word_unat_eq_iff)
qed simp

subsection \<open>Rows\<close>

record workflow_run =
  w_id :: uuid
  w_version :: int
  w_shop_id :: uuid
  w_workflow_type :: string
  w_workflow_version :: int
  w_product_state :: product_state
  w_parent_workflow_id :: "uuid option"
  w_parent_decision_id :: "uuid option"
  w_batch_id :: "uuid option"
  w_started_at :: time
  w_completed_at :: "time option"

record job =
  j_id :: uuid
  j_version :: int
  j_workflow_id :: uuid
  j_job_type :: string
  j_object_type :: string
  j_object_id :: uuid
  j_owner_agent_id :: string
  j_status :: job_status
  j_input :: json
  j_success_contract :: json
  j_scheduled_at :: time
  j_attempt :: int
  j_max_attempts :: int
  j_idempotency_key :: string
  j_side_effect_class :: side_effect_class
  j_retry_class :: retry_class
  j_allowed_mode :: autonomy_mode
  j_lease_owner :: "string option"
  j_lease_expires_at :: "time option"
  j_heartbeat_at :: "time option"
  j_created_at :: time
  j_updated_at :: time

record job_dependency =
  d_id :: uuid
  d_job_id :: uuid
  d_depends_on_job_id :: uuid
  d_satisfied_at :: "time option"

record scheduled_trigger =
  t_id :: uuid
  t_shop_id :: uuid
  t_trigger_kind :: string
  t_trigger_key :: string
  t_cron_expression :: string
  t_next_fire_at :: time
  t_last_fired_at :: "time option"
  t_active :: bool
  t_created_at :: time

record event =
  e_id :: uuid
  e_event_name :: event_name
  e_aggregate_type :: string
  e_aggregate_id :: uuid
  e_workflow_id :: "uuid option"
  e_job_id :: "uuid option"
  e_agent_run_id :: "uuid option"
  e_payload :: json
  e_dedupe_key :: string
  e_occurred_at :: time
  e_recorded_at :: time

record idempotency_record =
  ir_id :: uuid
  ir_idempotency_key :: string
  ir_job_id :: uuid
  ir_operation :: string
  ir_side_effect_class :: side_effect_class
  ir_reserved_at :: time
  ir_completed_at :: "time option"

record effect_attempt =
  ea_id :: uuid
  ea_idempotency_key :: string
  ea_job_id :: uuid
  ea_agent_run_id :: "uuid option"
  ea_provider :: string
  ea_operation :: string
  ea_effect_state :: effect_state
  ea_provider_object_id :: "string option"
  ea_reconciliation_attempt :: int
  ea_observed_at :: time
  ea_recorded_at :: time

record receipt =
  r_id :: uuid
  r_job_id :: uuid
  r_idempotency_key :: string
  r_provider :: string
  r_operation :: string
  r_side_effect_class :: side_effect_class
  r_autonomy_mode :: autonomy_mode
  r_effect_state :: effect_state
  r_provider_object_id :: "string option"
  r_amount :: "int option" \<comment> \<open>\<^verbatim>\<open>Numeric(14, 2)\<close> in hundredths\<close>
  r_currency :: "string option"
  r_safe_detail :: json
  r_recorded_at :: time

record db =
  shop_ids :: "uuid list" \<comment> \<open>the primary keys of \<^verbatim>\<open>shops\<close>, a foreign-key target only\<close>
  workflow_runs :: "workflow_run list"
  jobs :: "job list"
  job_dependencies :: "job_dependency list"
  scheduled_triggers :: "scheduled_trigger list"
  events :: "event list"
  idempotency_records :: "idempotency_record list"
  effect_attempts :: "effect_attempt list"
  receipts :: "receipt list"
  server_now :: time \<comment> \<open>\<^verbatim>\<open>func.now()\<close> of the running transaction\<close>

definition empty_db :: "uuid list \<Rightarrow> time \<Rightarrow> db" where
  "empty_db shops t = \<lparr>shop_ids = shops, workflow_runs = [], jobs = [], job_dependencies = [],
     scheduled_triggers = [], events = [], idempotency_records = [], effect_attempts = [],
     receipts = [], server_now = t\<rparr>"

subsection \<open>Column and table constraints\<close>

text \<open>\<^verbatim>\<open>String(n)\<close> refuses a longer text; the database raises before any check constraint.\<close>

definition fits :: "nat \<Rightarrow> string \<Rightarrow> bool" where
  "fits n s \<longleftrightarrow> length s \<le> n"

definition fits_opt :: "nat \<Rightarrow> string option \<Rightarrow> bool" where
  "fits_opt n s \<longleftrightarrow> (case s of None \<Rightarrow> True | Some x \<Rightarrow> fits n x)"

definition agent_id_format :: "string \<Rightarrow> bool" where
  "agent_id_format s \<longleftrightarrow> s \<in> set [''A01'', ''A02'', ''A03'', ''A04'', ''A05'', ''A06'', ''A07'', ''A08'',
     ''A09'', ''A10'', ''A11'', ''A12'', ''A13'', ''A14'', ''A15'', ''A16'']"

definition currency_is_iso4217 :: "string \<Rightarrow> bool" where
  "currency_is_iso4217 s \<longleftrightarrow>
     length s = 3 \<and> list_all (\<lambda>c. 65 \<le> (of_char c :: nat) \<and> (of_char c :: nat) \<le> 90) s"

definition check_job :: "job \<Rightarrow> error + unit" where
  "check_job j = bindE (guardE (fits 100 (j_job_type j) \<and> fits 100 (j_object_type j) \<and>
       fits 3 (j_owner_agent_id j) \<and> fits 200 (j_idempotency_key j) \<and>
       fits_opt 100 (j_lease_owner j)) DataError)
     (\<lambda>_. guardE (agent_id_format (j_owner_agent_id j) \<and> j_attempt j \<le> j_max_attempts j \<and>
       0 < j_max_attempts j) IntegrityError)"

definition check_workflow :: "workflow_run \<Rightarrow> error + unit" where
  "check_workflow w = bindE (guardE (fits 100 (w_workflow_type w)) DataError)
     (\<lambda>_. guardE (w_parent_workflow_id w \<noteq> Some (w_id w)) IntegrityError)"

definition check_event :: "event \<Rightarrow> error + unit" where
  "check_event e =
     guardE (fits 100 (e_aggregate_type e) \<and> fits 200 (e_dedupe_key e)) DataError"

definition check_idempotency_record :: "idempotency_record \<Rightarrow> error + unit" where
  "check_idempotency_record r =
     guardE (fits 200 (ir_idempotency_key r) \<and> fits 100 (ir_operation r)) DataError"

definition effect_state_evidence :: "effect_state \<Rightarrow> string option \<Rightarrow> bool" where
  "effect_state_evidence s obj \<longleftrightarrow>
     (s = X_CONFIRMED \<and> obj \<noteq> None) \<or> (s = X_ABSENT \<and> obj = None) \<or> s = X_UNKNOWN"

definition check_effect_attempt :: "effect_attempt \<Rightarrow> error + unit" where
  "check_effect_attempt a = bindE (guardE (fits 200 (ea_idempotency_key a) \<and>
       fits 64 (ea_provider a) \<and> fits 100 (ea_operation a) \<and>
       fits_opt 200 (ea_provider_object_id a)) DataError)
     (\<lambda>_. guardE (effect_state_evidence (ea_effect_state a) (ea_provider_object_id a) \<and>
       0 \<le> ea_reconciliation_attempt a) IntegrityError)"

definition check_receipt :: "receipt \<Rightarrow> error + unit" where
  "check_receipt r = bindE (guardE (fits 200 (r_idempotency_key r) \<and> fits 64 (r_provider r) \<and>
       fits 100 (r_operation r) \<and> fits_opt 200 (r_provider_object_id r) \<and>
       fits_opt 3 (r_currency r) \<and>
       (case r_amount r of None \<Rightarrow> True | Some a \<Rightarrow> \<bar>a\<bar> < 10 ^ 14)) DataError)
     (\<lambda>_. guardE ((case r_amount r of None \<Rightarrow> True | Some a \<Rightarrow> 0 \<le> a) \<and>
       (r_amount r = None) = (r_currency r = None) \<and>
       (case r_currency r of None \<Rightarrow> True | Some c \<Rightarrow> currency_is_iso4217 c)) IntegrityError)"

definition check_scheduled_trigger :: "scheduled_trigger \<Rightarrow> error + unit" where
  "check_scheduled_trigger t = bindE (guardE (fits 64 (t_trigger_kind t) \<and>
       fits 200 (t_trigger_key t) \<and> fits 100 (t_cron_expression t)) DataError)
     (\<lambda>_. guardE (t_trigger_kind t \<in> {''WEEKLY_REVIEW'', ''MONTHLY_DEEP_PASS'', ''BUILD_SLOT''})
       IntegrityError)"

subsection \<open>Reading rows\<close>

definition get_job :: "db \<Rightarrow> uuid \<Rightarrow> job option" where
  "get_job d i = find (\<lambda>j. j_id j = i) (jobs d)"

definition get_workflow :: "db \<Rightarrow> uuid \<Rightarrow> workflow_run option" where
  "get_workflow d i = find (\<lambda>w. w_id w = i) (workflow_runs d)"

definition has_job :: "db \<Rightarrow> uuid \<Rightarrow> bool" where
  "has_job d i \<longleftrightarrow> i \<in> j_id ` set (jobs d)"

definition has_workflow :: "db \<Rightarrow> uuid \<Rightarrow> bool" where
  "has_workflow d i \<longleftrightarrow> i \<in> w_id ` set (workflow_runs d)"

subsection \<open>Writing rows\<close>

definition put_job :: "job \<Rightarrow> db \<Rightarrow> db" where
  "put_job j d = d\<lparr>jobs := map (\<lambda>x. if j_id x = j_id j then j else x) (jobs d)\<rparr>"

definition put_workflow :: "workflow_run \<Rightarrow> db \<Rightarrow> db" where
  "put_workflow w d =
     d\<lparr>workflow_runs := map (\<lambda>x. if w_id x = w_id w then w else x) (workflow_runs d)\<rparr>"

definition flush_job :: "job \<Rightarrow> db \<Rightarrow> error + db" where
  "flush_job j d = bindE (requireE (get_job d (j_id j)) StaleDataError) (\<lambda>old.
     if j = old then Inr d
     else bindE (check_job j) (\<lambda>_. Inr (put_job (j\<lparr>j_version := j_version old + 1\<rparr>) d)))"

definition flush_workflow :: "workflow_run \<Rightarrow> db \<Rightarrow> error + db" where
  "flush_workflow w d = bindE (requireE (get_workflow d (w_id w)) StaleDataError) (\<lambda>old.
     if w = old then Inr d
     else bindE (check_workflow w)
       (\<lambda>_. Inr (put_workflow (w\<lparr>w_version := w_version old + 1\<rparr>) d)))"

definition insert_job :: "job \<Rightarrow> db \<Rightarrow> error + db" where
  "insert_job j d = bindE (check_job j) (\<lambda>_.
     bindE (guardE (\<not> has_job d (j_id j) \<and>
        j_idempotency_key j \<notin> j_idempotency_key ` set (jobs d) \<and>
        has_workflow d (j_workflow_id j)) IntegrityError)
     (\<lambda>_. Inr (d\<lparr>jobs := jobs d @ [j]\<rparr>)))"

definition insert_workflow :: "workflow_run \<Rightarrow> db \<Rightarrow> error + db" where
  "insert_workflow w d = bindE (check_workflow w) (\<lambda>_.
     bindE (guardE (\<not> has_workflow d (w_id w) \<and> w_shop_id w \<in> set (shop_ids d) \<and>
        (case w_parent_workflow_id w of None \<Rightarrow> True | Some p \<Rightarrow> has_workflow d p)) IntegrityError)
     (\<lambda>_. Inr (d\<lparr>workflow_runs := workflow_runs d @ [w]\<rparr>)))"

definition insert_event :: "event \<Rightarrow> db \<Rightarrow> error + db" where
  "insert_event e d = bindE (check_event e) (\<lambda>_.
     bindE (guardE (e_id e \<notin> e_id ` set (events d) \<and>
        e_dedupe_key e \<notin> e_dedupe_key ` set (events d) \<and>
        (case e_workflow_id e of None \<Rightarrow> True | Some w \<Rightarrow> has_workflow d w) \<and>
        (case e_job_id e of None \<Rightarrow> True | Some i \<Rightarrow> has_job d i)) IntegrityError)
     (\<lambda>_. Inr (d\<lparr>events := events d @ [e]\<rparr>)))"

definition insert_idempotency_record :: "idempotency_record \<Rightarrow> db \<Rightarrow> error + db" where
  "insert_idempotency_record r d = bindE (check_idempotency_record r) (\<lambda>_.
     bindE (guardE (ir_id r \<notin> ir_id ` set (idempotency_records d) \<and>
        ir_idempotency_key r \<notin> ir_idempotency_key ` set (idempotency_records d) \<and>
        has_job d (ir_job_id r)) IntegrityError)
     (\<lambda>_. Inr (d\<lparr>idempotency_records := idempotency_records d @ [r]\<rparr>)))"

definition insert_effect_attempt :: "effect_attempt \<Rightarrow> db \<Rightarrow> error + db" where
  "insert_effect_attempt a d = bindE (check_effect_attempt a) (\<lambda>_.
     bindE (guardE (ea_id a \<notin> ea_id ` set (effect_attempts d) \<and>
        (ea_idempotency_key a, ea_reconciliation_attempt a) \<notin>
          (\<lambda>x. (ea_idempotency_key x, ea_reconciliation_attempt x)) ` set (effect_attempts d) \<and>
        has_job d (ea_job_id a)) IntegrityError)
     (\<lambda>_. Inr (d\<lparr>effect_attempts := effect_attempts d @ [a]\<rparr>)))"

definition insert_receipt :: "receipt \<Rightarrow> db \<Rightarrow> error + db" where
  "insert_receipt r d = bindE (check_receipt r) (\<lambda>_.
     bindE (guardE (r_id r \<notin> r_id ` set (receipts d) \<and>
        (r_idempotency_key r, r_operation r, r_recorded_at r) \<notin>
          (\<lambda>x. (r_idempotency_key x, r_operation x, r_recorded_at x)) ` set (receipts d) \<and>
        has_job d (r_job_id r)) IntegrityError)
     (\<lambda>_. Inr (d\<lparr>receipts := receipts d @ [r]\<rparr>)))"

definition insert_scheduled_trigger :: "scheduled_trigger \<Rightarrow> db \<Rightarrow> error + db" where
  "insert_scheduled_trigger t d = bindE (check_scheduled_trigger t) (\<lambda>_.
     bindE (guardE (t_id t \<notin> t_id ` set (scheduled_triggers d) \<and>
        t_trigger_key t \<notin> t_trigger_key ` set (scheduled_triggers d) \<and>
        t_shop_id t \<in> set (shop_ids d)) IntegrityError)
     (\<lambda>_. Inr (d\<lparr>scheduled_triggers := scheduled_triggers d @ [t]\<rparr>)))"

subsection \<open>The interface of a keyed table\<close>

text \<open>
  What the services rely on when they read a row by its key and write it back: the table
  keeps its keys and their order, the written row is read back, every other row is
  untouched.
\<close>

locale row_store =
  fixes key :: "'r \<Rightarrow> 'k"
    and rows :: "'d \<Rightarrow> 'r list"
    and get :: "'d \<Rightarrow> 'k \<Rightarrow> 'r option"
    and put :: "'r \<Rightarrow> 'd \<Rightarrow> 'd"
  assumes get_eq: "get d k = find (\<lambda>r. key r = k) (rows d)"
    and rows_put: "rows (put r d) = map (\<lambda>x. if key x = key r then r else x) (rows d)"
begin

lemma get_member: "get d k = Some r \<Longrightarrow> r \<in> set (rows d) \<and> key r = k"
  by (auto simp: get_eq dest: find_SomeD)

lemma member_get: "distinct (map key (rows d)) \<Longrightarrow> r \<in> set (rows d) \<Longrightarrow> get d (key r) = Some r"
  by (simp add: get_eq find_Some_iff_distinct)

lemma get_None: "get d k = None \<longleftrightarrow> k \<notin> key ` set (rows d)"
  by (simp add: get_eq find_None_key)

lemma keys_put: "map key (rows (put r d)) = map key (rows d)"
  by (auto simp: rows_put)

lemma put_member: "key r \<in> key ` set (rows d) \<Longrightarrow> r \<in> set (rows (put r d))"
  by (auto simp: rows_put image_iff)

lemma put_rows_cases: "x \<in> set (rows (put r d)) \<Longrightarrow> x = r \<or> x \<in> set (rows d) \<and> key x \<noteq> key r"
  by (auto simp: rows_put split: if_splits)

lemma find_put:
  "find (\<lambda>x. key x = k) (map (\<lambda>x. if key x = key r then r else x) xs) =
     (if k = key r then (if k \<in> key ` set xs then Some r else None)
      else find (\<lambda>x. key x = k) xs)"
  by (induction xs) auto

lemma get_put:
  "get (put r d) k = (if k = key r then map_option (\<lambda>_. r) (get d k) else get d k)"
proof (cases "get d k")
  case None
  then have "k \<notin> key ` set (rows d)" by (simp add: get_None)
  with None show ?thesis by (auto simp: get_eq rows_put find_put)
next
  case (Some x)
  then have "k \<in> key ` set (rows d)" using get_member by blast
  then show ?thesis using Some [unfolded get_eq]
    by (cases "k = key r") (simp_all add: get_eq rows_put find_put)
qed

end

interpretation job_store: row_store j_id jobs get_job put_job
  by unfold_locales (simp_all add: get_job_def put_job_def)

interpretation workflow_store: row_store w_id workflow_runs get_workflow put_workflow
  by unfold_locales (simp_all add: get_workflow_def put_workflow_def)

end
