(* ===== verification/Job_Contract.thy ===== *)
theory Job_Contract
  imports Schema
begin

section \<open>What every job operation keeps\<close>

text \<open>
  The contract the orchestration operations share. \<open>job_inv\<close> is the invariant of one job
  row: the attempt budget, a budget left for every job that may still run, and the lease
  fields, which are set while the job is \<open>RUNNING\<close> and otherwise clear, except that the worker
  leaves them on a job whose owner has no implementation. \<open>job_evolves\<close> relates a row before and after
  an operation (identity and contract columns fixed, attempts never lost, statuses moved only
  along \<open>JOB_TRANSITIONS\<close>), \<open>db_evolves\<close> lifts it to the table and adds that rows are never
  deleted and that new rows satisfy the invariant. The locale \<open>job_operation\<close> is the interface
  of an operation with this contract; each component interprets it on its operations.
\<close>

definition live_status :: "job_status \<Rightarrow> bool" where
  "live_status s \<longleftrightarrow> s \<in> {J_PENDING, J_BLOCKED, J_READY, J_RUNNING, J_UNCERTAIN_EXTERNAL_EFFECT}"

definition lease_fields_set :: "job \<Rightarrow> bool" where
  "lease_fields_set j \<longleftrightarrow>
     j_lease_owner j \<noteq> None \<and> j_lease_expires_at j \<noteq> None \<and> j_heartbeat_at j \<noteq> None"

definition lease_fields_clear :: "job \<Rightarrow> bool" where
  "lease_fields_clear j \<longleftrightarrow>
     j_lease_owner j = None \<and> j_lease_expires_at j = None \<and> j_heartbeat_at j = None"

text \<open>
  The agents the worker can run (the keys of its \<^verbatim>\<open>agent_map\<close>), and the lease it leaves behind: a
  job of any other agent is committed as FAILED with its lease fields set, a retry makes it READY
  and a cancellation CANCELLED without clearing them.
\<close>

definition implemented :: "string \<Rightarrow> bool" where
  "implemented agent_id \<longleftrightarrow> agent_id \<in> {''A01'', ''A02''}"

definition lease_abandoned :: "job \<Rightarrow> bool" where
  "lease_abandoned j \<longleftrightarrow> lease_fields_set j \<and> j_status j \<in> {J_FAILED, J_READY, J_CANCELLED} \<and>
     \<not> implemented (j_owner_agent_id j)"

definition job_inv :: "job \<Rightarrow> bool" where
  "job_inv j \<longleftrightarrow> check_job j = Inr () \<and>
     (live_status (j_status j) \<longrightarrow> j_attempt j < j_max_attempts j) \<and>
     (if j_status j = J_RUNNING then lease_fields_set j else lease_fields_clear j \<or> lease_abandoned j)"

definition status_path :: "job_status \<Rightarrow> job_status \<Rightarrow> bool" where
  "status_path = (\<lambda>a b. b \<in> JOB_TRANSITIONS a)\<^sup>*\<^sup>*"

definition job_frame :: "job \<Rightarrow> job \<Rightarrow> bool" where
  "job_frame j k \<longleftrightarrow> j_id k = j_id j \<and> j_workflow_id k = j_workflow_id j \<and>
     j_job_type k = j_job_type j \<and> j_object_type k = j_object_type j \<and>
     j_object_id k = j_object_id j \<and> j_owner_agent_id k = j_owner_agent_id j \<and>
     j_input k = j_input j \<and> j_success_contract k = j_success_contract j \<and>
     j_max_attempts k = j_max_attempts j \<and> j_idempotency_key k = j_idempotency_key j \<and>
     j_side_effect_class k = j_side_effect_class j \<and> j_retry_class k = j_retry_class j \<and>
     j_allowed_mode k = j_allowed_mode j \<and> j_created_at k = j_created_at j \<and>
     j_attempt j \<le> j_attempt k \<and> j_version j \<le> j_version k"

definition job_evolves :: "job \<Rightarrow> job \<Rightarrow> bool" where
  "job_evolves j k \<longleftrightarrow> job_frame j k \<and>
     (job_inv j \<longrightarrow> job_inv k \<and> status_path (j_status j) (j_status k))"

definition job_keys_unique :: "db \<Rightarrow> bool" where
  "job_keys_unique d \<longleftrightarrow>
     distinct (map j_id (jobs d)) \<and> distinct (map j_idempotency_key (jobs d))"

definition db_evolves :: "db \<Rightarrow> db \<Rightarrow> bool" where
  "db_evolves d e \<longleftrightarrow>
     (\<exists>js ns. jobs e = js @ ns \<and> list_all2 job_evolves (jobs d) js \<and> list_all job_inv ns) \<and>
     (job_keys_unique d \<longrightarrow> job_keys_unique e)"

definition jobs_ok :: "db \<Rightarrow> bool" where
  "jobs_ok d \<longleftrightarrow> job_keys_unique d \<and> list_all job_inv (jobs d)"

subsection \<open>The relations are preorders\<close>

lemma status_path_refl [simp]: "status_path s s"
  by (simp add: status_path_def)

lemma status_path_step: "t \<in> JOB_TRANSITIONS s \<Longrightarrow> status_path s t"
  by (auto simp: status_path_def)

lemma status_path_trans: "status_path a b \<Longrightarrow> status_path b c \<Longrightarrow> status_path a c"
  by (auto simp: status_path_def)

lemma status_path_terminal: "status_path s t \<Longrightarrow> is_terminal s \<Longrightarrow> t = s"
  unfolding status_path_def
  by (induction rule: converse_rtranclp_induct) (auto simp: terminal_no_targets)

lemma job_evolves_refl [simp]: "job_evolves j j"
  by (simp add: job_evolves_def job_frame_def)

lemma job_evolves_trans: "job_evolves a b \<Longrightarrow> job_evolves b c \<Longrightarrow> job_evolves a c"
  by (auto simp: job_evolves_def job_frame_def intro: status_path_trans)

lemma job_evolves_keys:
  assumes "list_all2 job_evolves xs ys"
  shows "map j_id ys = map j_id xs" and "map j_idempotency_key ys = map j_idempotency_key xs"
  using assms by (induction rule: list_all2_induct) (auto simp: job_evolves_def job_frame_def)

lemma job_evolves_inv: "list_all2 job_evolves xs ys \<Longrightarrow> list_all job_inv xs \<Longrightarrow> list_all job_inv ys"
  by (induction rule: list_all2_induct) (auto simp: job_evolves_def)

lemma db_evolvesI:
  assumes "jobs e = js @ ns" and "list_all2 job_evolves (jobs d) js" and "list_all job_inv ns"
    and "job_keys_unique d \<Longrightarrow> job_keys_unique e"
  shows "db_evolves d e"
  using assms unfolding db_evolves_def by blast

lemma db_evolves_same_jobs: "jobs e = jobs d \<Longrightarrow> db_evolves d e"
  by (rule db_evolvesI [of e "jobs d" "[]"])
    (simp_all add: list_all2_refl job_keys_unique_def)

lemma db_evolves_refl [simp]: "db_evolves d d"
  by (simp add: db_evolves_same_jobs)

lemma db_evolves_trans:
  assumes "db_evolves a b" and "db_evolves b c"
  shows "db_evolves a c"
proof -
  from assms(1) obtain js ns where b: "jobs b = js @ ns" "list_all2 job_evolves (jobs a) js"
    "list_all job_inv ns" by (auto simp: db_evolves_def)
  from assms(2) obtain ks ms where c: "jobs c = ks @ ms" "list_all2 job_evolves (js @ ns) ks"
    "list_all job_inv ms" using b(1) by (auto simp: db_evolves_def)
  from c(2) obtain k1 k2 where k: "ks = k1 @ k2" "list_all2 job_evolves js k1"
    "list_all2 job_evolves ns k2" by (auto simp: list_all2_append1)
  have "list_all2 job_evolves (jobs a) k1"
    using b(2) k(2) by (rule list_all2_trans [rotated]) (rule job_evolves_trans)
  moreover have "list_all job_inv (k2 @ ms)"
    using job_evolves_inv [OF k(3) b(3)] c(3) by simp
  moreover have "jobs c = k1 @ (k2 @ ms)" using c(1) k(1) by simp
  ultimately have "\<exists>js ns. jobs c = js @ ns \<and> list_all2 job_evolves (jobs a) js \<and> list_all job_inv ns"
    by blast
  moreover have "job_keys_unique a \<longrightarrow> job_keys_unique c"
    using assms by (auto simp: db_evolves_def)
  ultimately show ?thesis by (simp add: db_evolves_def)
qed

lemma db_evolves_ok: "db_evolves d e \<Longrightarrow> jobs_ok d \<Longrightarrow> jobs_ok e"
  by (auto simp: db_evolves_def jobs_ok_def dest: job_evolves_inv)

lemma db_evolves_job:
  assumes "db_evolves d e" and "j \<in> set (jobs d)"
  shows "\<exists>k \<in> set (jobs e). job_evolves j k"
proof -
  from assms(1) obtain js ns where e: "jobs e = js @ ns" "list_all2 job_evolves (jobs d) js"
    by (auto simp: db_evolves_def)
  from assms(2) obtain n where n: "n < length (jobs d)" "jobs d ! n = j"
    by (auto simp: in_set_conv_nth)
  with e(2) have "job_evolves j (js ! n)" "n < length js"
    by (auto simp: list_all2_conv_all_nth)
  then show ?thesis using e(1) by (auto intro: nth_mem)
qed

subsection \<open>Single-row steps\<close>

lemma flush_job_cases:
  assumes "flush_job j d = Inr e"
  obtains (same) "e = d" "get_job d (j_id j) = Some j"
    | (changed) old where "get_job d (j_id j) = Some old" "check_job j = Inr ()"
        "e = put_job (j\<lparr>j_version := j_version old + 1\<rparr>) d"
  using assms by (auto simp: flush_job_def bindE_eq_Inr split: if_splits)

lemma put_job_evolves:
  assumes "\<And>old. old \<in> set (jobs d) \<Longrightarrow> j_id old = j_id j \<Longrightarrow> job_evolves old j"
  shows "db_evolves d (put_job j d)"
proof -
  have all: "list_all2 job_evolves (jobs d) (jobs (put_job j d))"
    using assms by (auto simp: put_job_def list_all2_conv_all_nth)
  have "job_keys_unique (put_job j d) \<longleftrightarrow> job_keys_unique d"
    by (simp only: job_keys_unique_def job_evolves_keys [OF all])
  with all show ?thesis
    by (intro db_evolvesI [of _ "jobs (put_job j d)" "[]"]) simp_all
qed

text \<open>
  Flushing a changed copy of a row evolves the table, when the copy (up to its version)
  evolves the row. The uniqueness of ids makes the flushed row the only one that changes.
\<close>

lemma check_job_version [simp]: "check_job (j\<lparr>j_version := v\<rparr>) = check_job j"
  by (simp add: check_job_def)

lemma job_inv_version [simp]: "job_inv (j\<lparr>j_version := v\<rparr>) = job_inv j"
  by (simp add: job_inv_def lease_fields_set_def lease_fields_clear_def lease_abandoned_def)

lemma flush_job_evolves:
  assumes flush: "flush_job k d = Inr e" and unique: "job_keys_unique d"
    and get: "get_job d (j_id k) = Some j" and step: "job_evolves j k"
  shows "db_evolves d e"
  using flush
proof (cases rule: flush_job_cases)
  case same
  then show ?thesis by simp
next
  case (changed old)
  with get have "old = j" by simp
  have "job_evolves r (k\<lparr>j_version := j_version j + 1\<rparr>)"
    if "r \<in> set (jobs d)" "j_id r = j_id k" for r
  proof -
    have "get_job d (j_id k) = Some r"
      using job_store.member_get [of d r] unique that by (simp add: job_keys_unique_def)
    with get step show ?thesis by (auto simp: job_evolves_def job_frame_def)
  qed
  with changed \<open>old = j\<close> show ?thesis by (auto intro: put_job_evolves)
qed

text \<open>
  The same with what the flush itself establishes: a row it writes satisfies the table's
  constraints, so an operation only has to argue its budget, lease fields and status path.
\<close>

lemma flush_job_step:
  assumes flush: "flush_job k d = Inr e" and ok: "jobs_ok d"
    and get: "get_job d (j_id k) = Some j" and frame: "job_frame j k"
    and step: "job_inv j \<Longrightarrow> check_job k = Inr () \<Longrightarrow>
      job_inv k \<and> status_path (j_status j) (j_status k)"
  shows "db_evolves d e"
  using flush
proof (cases rule: flush_job_cases)
  case same
  then show ?thesis by simp
next
  case (changed old)
  have "job_evolves j k"
    using frame step changed(2) by (auto simp: job_evolves_def)
  moreover have "job_keys_unique d" using ok by (simp add: jobs_ok_def)
  ultimately show ?thesis using flush get by (intro flush_job_evolves)
qed

lemma flush_job_get:
  assumes "flush_job k d = Inr e"
  shows "\<exists>v. get_job e (j_id k) = Some (k\<lparr>j_version := v\<rparr>) \<and>
     (\<forall>i. i \<noteq> j_id k \<longrightarrow> get_job e i = get_job d i)"
  using assms
proof (cases rule: flush_job_cases)
  case same
  then have "k\<lparr>j_version := j_version k\<rparr> = k" by simp
  with same show ?thesis by metis
next
  case (changed old)
  then show ?thesis by (auto simp: job_store.get_put)
qed

lemma flush_job_total:
  "get_job d (j_id k) = Some j \<Longrightarrow> check_job k = Inr () \<Longrightarrow> \<exists>e. flush_job k d = Inr e"
  by (simp add: flush_job_def)

text \<open>A flush of a job row touches no other table.\<close>

lemma flush_job_tables [keeps]:
  assumes "flush_job k d = Inr e"
  shows "\<exists>js. e = d\<lparr>jobs := js\<rparr>"
  using assms
proof (cases rule: flush_job_cases)
  case same
  then have "e = d\<lparr>jobs := jobs d\<rparr>" by simp
  then show ?thesis by blast
next
  case (changed old)
  then show ?thesis by (auto simp: put_job_def)
qed

lemma has_job_get: "has_job d i \<longleftrightarrow> get_job d i \<noteq> None"
  using job_store.get_None [of d i] by (simp add: has_job_def)

lemma has_workflow_get: "has_workflow d i \<longleftrightarrow> get_workflow d i \<noteq> None"
  using workflow_store.get_None [of d i] by (simp add: has_workflow_def)

lemma jobs_ok_get: "jobs_ok d \<Longrightarrow> get_job d i = Some j \<Longrightarrow> job_inv j"
  using job_store.get_member by (fastforce simp: jobs_ok_def list_all_iff)

lemma jobs_ok_member_get: "jobs_ok d \<Longrightarrow> j \<in> set (jobs d) \<Longrightarrow> get_job d (j_id j) = Some j"
  using job_store.member_get by (simp add: jobs_ok_def job_keys_unique_def)

text \<open>A flush of several distinct rows writes each of them and nothing else.\<close>

lemma foldE_flush_jobs:
  assumes "distinct (map j_id xs)"
    and "\<And>x. x \<in> set xs \<Longrightarrow>
      get_job d (j_id x) = Some x \<and> j_id (f x) = j_id x \<and> check_job (f x) = Inr ()"
  shows "\<exists>e. foldE (\<lambda>x. flush_job (f x)) xs d = Inr e \<and>
     (\<forall>x \<in> set xs. \<exists>v. get_job e (j_id x) = Some ((f x)\<lparr>j_version := v\<rparr>)) \<and>
     (\<forall>i. i \<notin> j_id ` set xs \<longrightarrow> get_job e i = get_job d i)"
  using assms
proof (induction xs arbitrary: d)
  case Nil
  then show ?case by simp
next
  case (Cons y ys)
  have y: "get_job d (j_id y) = Some y" "j_id (f y) = j_id y" "check_job (f y) = Inr ()"
    using Cons.prems(2) [of y] by auto
  then obtain d' where d': "flush_job (f y) d = Inr d'"
    using flush_job_total [of d "f y"] by auto
  from flush_job_get [OF d'] y(2) obtain v where
    v: "get_job d' (j_id y) = Some ((f y)\<lparr>j_version := v\<rparr>)"
    and rest: "\<And>i. i \<noteq> j_id y \<Longrightarrow> get_job d' i = get_job d i" by auto
  have "\<exists>e. foldE (\<lambda>x. flush_job (f x)) ys d' = Inr e \<and>
     (\<forall>x \<in> set ys. \<exists>v. get_job e (j_id x) = Some ((f x)\<lparr>j_version := v\<rparr>)) \<and>
     (\<forall>i. i \<notin> j_id ` set ys \<longrightarrow> get_job e i = get_job d' i)"
    using Cons.prems rest by (intro Cons.IH) (auto simp: image_iff)
  then obtain e where e: "foldE (\<lambda>x. flush_job (f x)) ys d' = Inr e"
    "\<forall>x \<in> set ys. \<exists>v. get_job e (j_id x) = Some ((f x)\<lparr>j_version := v\<rparr>)"
    "\<And>i. i \<notin> j_id ` set ys \<Longrightarrow> get_job e i = get_job d' i" by blast
  have "get_job e (j_id y) = Some ((f y)\<lparr>j_version := v\<rparr>)"
    using e(3) [of "j_id y"] v Cons.prems(1) by auto
  then show ?case using d' e rest by auto
qed

lemma flush_rows_evolve:
  assumes "foldE (\<lambda>x. flush_job (f x)) xs d = Inr e" and "jobs_ok d"
    and "distinct (map j_id xs)" and "set xs \<subseteq> set (jobs d)"
    and "\<And>x. x \<in> set xs \<Longrightarrow> job_evolves x (f x)"
  shows "db_evolves d e"
  using assms
proof (induction xs arbitrary: d)
  case Nil
  then show ?case by simp
next
  case (Cons y ys)
  from Cons.prems(1) obtain d' where d': "flush_job (f y) d = Inr d'"
    and r: "foldE (\<lambda>x. flush_job (f x)) ys d' = Inr e" by (auto simp: bindE_eq_Inr)
  have ev: "job_evolves y (f y)" using Cons.prems(5) by simp
  then have id: "j_id (f y) = j_id y" by (simp add: job_evolves_def job_frame_def)
  have get: "get_job d (j_id (f y)) = Some y"
    using jobs_ok_member_get [OF Cons.prems(2)] Cons.prems(4) id by auto
  have step: "db_evolves d d'"
    using Cons.prems(2) by (intro flush_job_evolves [OF d' _ get ev]) (simp add: jobs_ok_def)
  have ok: "jobs_ok d'" using db_evolves_ok [OF step Cons.prems(2)] .
  have "set ys \<subseteq> set (jobs d')"
  proof
    fix x
    assume x: "x \<in> set ys"
    then have "get_job d (j_id x) = Some x" "j_id x \<noteq> j_id y"
      using jobs_ok_member_get [OF Cons.prems(2)] Cons.prems(3,4) by (auto simp: image_iff)
    then have "get_job d' (j_id x) = Some x" using flush_job_get [OF d'] id by auto
    then show "x \<in> set (jobs d')" using job_store.get_member by blast
  qed
  then have "db_evolves d' e"
    using Cons.prems(3,5) by (intro Cons.IH [OF r ok]) auto
  with step show ?case by (rule db_evolves_trans)
qed

lemma insert_job_evolves:
  assumes "insert_job j d = Inr e" and "job_inv j"
  shows "db_evolves d e"
proof (rule db_evolvesI [of e "jobs d" "[j]"])
  show "jobs e = jobs d @ [j]" and "job_keys_unique d \<Longrightarrow> job_keys_unique e"
    using assms(1)
    by (auto simp: insert_job_def bindE_eq_Inr job_keys_unique_def has_job_def)
qed (simp_all add: assms(2) list_all2_refl)

lemma foldE_db_evolves:
  assumes "foldE f xs d = Inr e" and "jobs_ok d"
    and "\<And>x d e. x \<in> set xs \<Longrightarrow> jobs_ok d \<Longrightarrow> f x d = Inr e \<Longrightarrow> db_evolves d e"
  shows "db_evolves d e"
proof -
  have "jobs_ok d \<longrightarrow> db_evolves d e \<and> jobs_ok e"
    by (rule foldE_induct [OF assms(1), of "\<lambda>a b. jobs_ok a \<longrightarrow> db_evolves a b \<and> jobs_ok b"])
      (auto intro: db_evolves_trans assms(3) db_evolves_ok)
  with assms(2) show ?thesis by simp
qed

subsection \<open>The interface of a job operation\<close>

locale job_operation =
  fixes operation :: "db \<Rightarrow> error + ('r \<times> db)"
  assumes evolves: "jobs_ok d \<Longrightarrow> operation d = Inr (r, e) \<Longrightarrow> db_evolves d e"
begin

lemma keeps_jobs_ok: "jobs_ok d \<Longrightarrow> operation d = Inr (r, e) \<Longrightarrow> jobs_ok e"
  using evolves db_evolves_ok by blast

lemma keeps_terminal:
  assumes "jobs_ok d" and "operation d = Inr (r, e)" and "get_job d i = Some j"
    and "is_terminal (j_status j)"
  shows "\<exists>k. get_job e i = Some k \<and> j_status k = j_status j"
proof -
  have j: "j \<in> set (jobs d)" "j_id j = i" using job_store.get_member [OF assms(3)] by auto
  then obtain k where k: "k \<in> set (jobs e)" "job_evolves j k"
    using db_evolves_job [OF evolves [OF assms(1,2)]] by blast
  have "job_inv j" using assms(1) j by (auto simp: jobs_ok_def list_all_iff)
  with k(2) have "status_path (j_status j) (j_status k)" "j_id k = i"
    using j by (auto simp: job_evolves_def job_frame_def)
  moreover have "distinct (map j_id (jobs e))"
    using keeps_jobs_ok [OF assms(1,2)] by (simp add: jobs_ok_def job_keys_unique_def)
  ultimately show ?thesis
    using k(1) assms(4) job_store.member_get status_path_terminal by metis
qed

end

subsection \<open>Concrete rows\<close>

text \<open>One shop, one workflow and its jobs, on which the properties are instantiated.\<close>

definition example_workflow :: workflow_run where
  "example_workflow = \<lparr>w_id = 7, w_version = 1, w_shop_id = 1, w_workflow_type = ''product'',
     w_workflow_version = 1, w_product_state = DISCOVERED, w_parent_workflow_id = None,
     w_parent_decision_id = None, w_batch_id = None, w_started_at = 0, w_completed_at = None\<rparr>"

definition example_job :: "uuid \<Rightarrow> string \<Rightarrow> job_status \<Rightarrow> job" where
  "example_job i key s = \<lparr>j_id = i, j_version = 1, j_workflow_id = 7, j_job_type = ''research'',
     j_object_type = ''product'', j_object_id = 9, j_owner_agent_id = ''A01'', j_status = s,
     j_input = JObj [], j_success_contract = JObj [], j_scheduled_at = 0, j_attempt = 0,
     j_max_attempts = 3, j_idempotency_key = key, j_side_effect_class = NONE,
     j_retry_class = SAFE, j_allowed_mode = SIMULATION, j_lease_owner = None,
     j_lease_expires_at = None, j_heartbeat_at = None, j_created_at = 0, j_updated_at = 0\<rparr>"

definition example_leased_job :: "uuid \<Rightarrow> string \<Rightarrow> string \<Rightarrow> job" where
  "example_leased_job i key w = (example_job i key J_RUNNING)\<lparr>j_lease_owner := Some w,
     j_lease_expires_at := Some 100, j_heartbeat_at := Some 0\<rparr>"

definition example_db :: "job list \<Rightarrow> db" where
  "example_db js = (empty_db [1] 0)\<lparr>workflow_runs := [example_workflow], jobs := js\<rparr>"

lemmas example_defs = example_workflow_def example_job_def example_leased_job_def example_db_def
  empty_db_def

lemmas example_inv_defs = jobs_ok_def job_keys_unique_def job_inv_def check_job_def fits_def
  fits_opt_def agent_id_format_def live_status_def lease_fields_set_def lease_fields_clear_def lease_abandoned_def
  get_job_def

end
