(* ===== verification/Calendar.thy ===== *)
theory Calendar
  imports Schema
begin

section \<open>Rendering of numbers and instants\<close>

text \<open>
  The parts of Python's \<^verbatim>\<open>str\<close> and \<^verbatim>\<open>datetime\<close> that keys and messages are built from: decimal
  numbers, the proleptic Gregorian calendar (the interpreter's \<^verbatim>\<open>_ord2ymd\<close>), and
  \<^verbatim>\<open>isoformat\<close> and \<^verbatim>\<open>str\<close> of an aware UTC instant. An instant is a number of microseconds
  since 1970-01-01, whose ordinal is 719163. The lemmas bound the characters that can
  occur, which is what the callers' key formats and message checks rely on.
\<close>

fun str_nat :: "nat \<Rightarrow> string" where
  "str_nat n = (if n < 10 then [hex_digit n] else str_nat (n div 10) @ [hex_digit (n mod 10)])"

declare str_nat.simps [simp del]

definition str_int :: "int \<Rightarrow> string" where
  "str_int n = (if n < 0 then ''-'' @ str_nat (nat (- n)) else str_nat (nat n))"

fun pad :: "nat \<Rightarrow> nat \<Rightarrow> string" where
  "pad 0 n = []"
| "pad (Suc k) n = pad k (n div 10) @ [hex_digit (n mod 10)]"

subsection \<open>The calendar\<close>

definition is_leap :: "nat \<Rightarrow> bool" where
  "is_leap y \<longleftrightarrow> y mod 4 = 0 \<and> (y mod 100 \<noteq> 0 \<or> y mod 400 = 0)"

definition days_before_month :: "nat \<Rightarrow> nat" where
  "days_before_month m = [0, 0, 31, 59, 90, 120, 151, 181, 212, 243, 273, 304, 334] ! m"

definition days_in_month :: "nat \<Rightarrow> nat \<Rightarrow> nat" where
  "days_in_month y m = (if m = 2 \<and> is_leap y then 29
     else [0, 31, 28, 31, 30, 31, 30, 31, 31, 30, 31, 30, 31] ! m)"

definition ord2ymd :: "nat \<Rightarrow> nat \<times> nat \<times> nat" where
  "ord2ymd ordinal = (let n = ordinal - 1;
      n400 = n div 146097; n = n mod 146097;
      n100 = n div 36524; n = n mod 36524;
      n4 = n div 1461; n = n mod 1461;
      n1 = n div 365; n = n mod 365;
      year = n400 * 400 + 1 + n100 * 100 + n4 * 4 + n1
    in if n1 = 4 \<or> n100 = 4 then (year - 1, 12, 31)
       else let leap = (n1 = 3 \<and> (n4 \<noteq> 24 \<or> n100 = 3));
           month = (n + 50) div 32;
           preceding = days_before_month month + (if 2 < month \<and> leap then 1 else 0)
         in if n < preceding
            then (year, month - 1, n - (preceding - days_in_month year (month - 1)) + 1)
            else (year, month, n - preceding + 1))"

definition date_text :: "nat \<Rightarrow> string" where
  "date_text ordinal = (case ord2ymd ordinal of (y, m, d) \<Rightarrow> pad 4 y @ ''-'' @ pad 2 m @ ''-'' @ pad 2 d)"

definition day_microseconds :: int where "day_microseconds = 86400000000"

definition time_text :: "int \<Rightarrow> string" where
  "time_text us = (let s = nat (us div 1000000); f = nat (us mod 1000000) in
     pad 2 (s div 3600) @ '':'' @ pad 2 (s div 60 mod 60) @ '':'' @ pad 2 (s mod 60) @
     (if f = 0 then [] else ''.'' @ pad 6 f) @ ''+00:00'')"

definition datetime_text :: "string \<Rightarrow> time \<Rightarrow> string" where
  "datetime_text sep t = date_text (nat (t div day_microseconds + 719163)) @ sep @
     time_text (t mod day_microseconds)"

abbreviation isoformat :: "time \<Rightarrow> string" where
  "isoformat \<equiv> datetime_text ''T''"

abbreviation str_datetime :: "time \<Rightarrow> string" where
  "str_datetime \<equiv> datetime_text '' ''"

subsection \<open>The characters a rendering uses\<close>

definition decimal_chars :: "char set" where
  "decimal_chars = set ''0123456789''"

lemma decimal_digit: "n < 10 \<Longrightarrow> hex_digit n \<in> decimal_chars"
proof -
  assume "n < 10"
  then have "n \<in> {0, 1, 2, 3, 4, 5, 6, 7, 8, 9}" by auto
  then show ?thesis by (auto simp: hex_digit_def decimal_chars_def)
qed

lemma pad_chars: "set (pad k n) \<subseteq> decimal_chars"
  by (induction k arbitrary: n) (auto intro: decimal_digit)

lemma str_nat_chars: "set (str_nat n) \<subseteq> decimal_chars"
proof (induction n rule: str_nat.induct)
  case (1 n)
  then show ?case
    by (subst str_nat.simps) (auto intro: decimal_digit simp: subset_iff)
qed

lemma str_nat_nonempty [simp]: "str_nat n \<noteq> []" "[] \<noteq> str_nat n"
  by (subst str_nat.simps, simp)+

definition datetime_chars :: "string \<Rightarrow> char set" where
  "datetime_chars sep = decimal_chars \<union> set ''-:.+'' \<union> set sep"

lemma datetime_text_chars: "set (datetime_text sep t) \<subseteq> datetime_chars sep"
proof -
  have p: "set (pad k n) \<subseteq> datetime_chars sep" for k n
    using pad_chars by (auto simp: datetime_chars_def)
  have l: "CHR ''-'' \<in> datetime_chars sep" "CHR '':'' \<in> datetime_chars sep"
    "CHR ''.'' \<in> datetime_chars sep" "CHR ''+'' \<in> datetime_chars sep"
    "CHR ''0'' \<in> datetime_chars sep" "set sep \<subseteq> datetime_chars sep"
    by (auto simp: datetime_chars_def decimal_chars_def)
  have "set (date_text n) \<subseteq> datetime_chars sep" for n
    using p l by (cases "ord2ymd n") (simp add: date_text_def)
  moreover have "set (time_text n) \<subseteq> datetime_chars sep" for n
    using p l by (simp add: time_text_def Let_def)
  ultimately show ?thesis using l by (simp add: datetime_text_def)
qed

text \<open>Decimal renderings are injective.\<close>

lemma hex_digit_eq: "a < 10 \<Longrightarrow> b < 10 \<Longrightarrow> hex_digit a = hex_digit b \<Longrightarrow> a = b"
  using hex_digit_inj [of a b] by simp

lemma str_nat_inj: "str_nat a = str_nat b \<Longrightarrow> a = b"
proof (induction a arbitrary: b rule: str_nat.induct)
  case (1 a)
  show ?case
  proof (cases "a < 10 \<or> b < 10")
    case True
    then show ?thesis using 1(2) hex_digit_eq
      by (subst (asm) (1 2) str_nat.simps) (auto split: if_splits)
  next
    case False
    then have e: "str_nat (a div 10) = str_nat (b div 10)" "hex_digit (a mod 10) = hex_digit (b mod 10)"
      using 1(2) by (subst (asm) (1 2) str_nat.simps, simp)+
    have "a div 10 = b div 10" using 1(1) False e(1) by simp
    moreover have "a mod 10 = b mod 10" using e(2) hex_digit_eq by simp
    ultimately show ?thesis by (metis div_mult_mod_eq)
  qed
qed

lemma str_int_inj: "str_int a = str_int b \<Longrightarrow> 0 \<le> a \<Longrightarrow> 0 \<le> b \<Longrightarrow> a = b"
  by (auto simp: str_int_def dest: str_nat_inj)

lemma str_int_chars: "0 \<le> n \<Longrightarrow> set (str_int n) \<subseteq> decimal_chars"
  using str_nat_chars by (simp add: str_int_def)

lemma str_nat_leading: "0 < n \<Longrightarrow> hd (str_nat n) \<noteq> CHR ''0''"
proof (induction n rule: str_nat.induct)
  case (1 n)
  show ?case
  proof (cases "n < 10")
    case True
    then have "n \<in> {1, 2, 3, 4, 5, 6, 7, 8, 9}" using 1 by auto
    then show ?thesis by (subst str_nat.simps) (auto simp: hex_digit_def)
  next
    case False
    then show ?thesis using 1 by (subst str_nat.simps) (simp add: hd_append)
  qed
qed

text \<open>A separator that does not occur in the first part splits a key in one way.\<close>

lemma append_sep_inj:
  assumes "a @ c # x = b @ c # y" and "c \<notin> set a" and "c \<notin> set b"
  shows "a = b \<and> x = y"
  using assms
proof (induction a arbitrary: b)
  case Nil
  then show ?case by (cases b) auto
next
  case (Cons h t)
  then show ?case by (cases b) auto
qed

lemma length_pad [simp]: "length (pad k n) = k"
  by (induction k arbitrary: n) auto

lemma length_isoformat: "length (isoformat t) \<le> 32"
  by (cases "ord2ymd (nat (t div day_microseconds + 719163))")
    (simp add: datetime_text_def date_text_def time_text_def Let_def)

end
