(* ===== verification/Leases.thy ===== *)
theory Leases
  imports Job_Contract Calendar
begin

section \<open>Leases\<close>

text \<open>
  \<^verbatim>\<open>orchestration/leases.py\<close>: exclusive claims, heartbeats, release and the reclaim of expired
  leases. \<^verbatim>\<open>FOR UPDATE SKIP LOCKED\<close> is the argument \<open>locked\<close>, the rows other transactions hold:
  the query passes over them. A flush of several rows writes them one after the other and
  fails as a whole. The value returned for a claimed or reclaimed job is its row after the
  flush, as the session's identity map returns it.
\<close>

definition LEGAL_RELEASE_STATUSES :: "job_status set" where
  "LEGAL_RELEASE_STATUSES = {J_SUCCEEDED, J_FAILED, J_BLOCKED, J_UNCERTAIN_EXTERNAL_EFFECT}"

text \<open>The rows of the claim query, in its order; \<open>limit\<close> is accepted and not used.\<close>

definition claimable :: "(uuid \<Rightarrow> bool) \<Rightarrow> time \<Rightarrow> job \<Rightarrow> bool" where
  "claimable locked now j \<longleftrightarrow> j_status j = J_READY \<and> j_scheduled_at j \<le> now \<and> \<not> locked (j_id j)"

definition claim_candidates :: "(uuid \<Rightarrow> bool) \<Rightarrow> time \<Rightarrow> db \<Rightarrow> job list" where
  "claim_candidates locked now d =
     take 1 (sort_key j_scheduled_at (filter (claimable locked now) (jobs d)))"

definition claim_ready_job ::
    "(uuid \<Rightarrow> bool) \<Rightarrow> string \<Rightarrow> time \<Rightarrow> duration \<Rightarrow> int \<Rightarrow> db \<Rightarrow> error + (job option \<times> db)" where
  "claim_ready_job locked worker_id now lease_duration limit d =
     (case claim_candidates locked now d of
        [] \<Rightarrow> Inr (None, d)
      | job # _ \<Rightarrow>
          bindE (require_job_transition J_READY J_RUNNING) (\<lambda>_.
          bindE (flush_job (job\<lparr>j_status := J_RUNNING, j_lease_owner := Some worker_id,
              j_lease_expires_at := Some (now + lease_duration), j_heartbeat_at := Some now,
              j_updated_at := now\<rparr>) d) (\<lambda>e.
          Inr (get_job e (j_id job), e))))"

definition heartbeat ::
    "uuid \<Rightarrow> string \<Rightarrow> time \<Rightarrow> duration option \<Rightarrow> db \<Rightarrow> error + (unit \<times> db)" where
  "heartbeat job_id worker_id now lease_extension d =
     bindE (requireE (get_job d job_id) LeaseNotHeldError) (\<lambda>job.
     bindE (guardE (j_lease_owner job = Some worker_id) LeaseNotHeldError) (\<lambda>_.
     bindE (guardE (\<not> (case j_lease_expires_at job of None \<Rightarrow> False | Some t \<Rightarrow> t < now))
        LeaseExpiredError) (\<lambda>_.
     let job = job\<lparr>j_heartbeat_at := Some now, j_updated_at := now\<rparr>;
         job = (case lease_extension of None \<Rightarrow> job
                | Some x \<Rightarrow> job\<lparr>j_lease_expires_at := Some (now + x)\<rparr>)
     in bindE (flush_job job d) (\<lambda>e. Inr ((), e)))))"

definition release_lease ::
    "uuid \<Rightarrow> string \<Rightarrow> time \<Rightarrow> job_status \<Rightarrow> db \<Rightarrow> error + (unit \<times> db)" where
  "release_lease job_id worker_id now final_status d =
     bindE (guardE (final_status \<in> LEGAL_RELEASE_STATUSES) (ValueError ''Cannot release'')) (\<lambda>_.
     bindE (requireE (get_job d job_id) LeaseNotHeldError) (\<lambda>job.
     bindE (guardE (j_lease_owner job = Some worker_id) LeaseNotHeldError) (\<lambda>_.
     bindE (require_job_transition J_RUNNING final_status) (\<lambda>_.
     bindE (flush_job (job\<lparr>j_status := final_status, j_lease_owner := None,
         j_lease_expires_at := None, j_heartbeat_at := None, j_updated_at := now\<rparr>) d) (\<lambda>e.
     Inr ((), e))))))"

subsection \<open>Reclaiming expired leases\<close>

definition lease_expired :: "time \<Rightarrow> job \<Rightarrow> bool" where
  "lease_expired now j \<longleftrightarrow>
     j_status j = J_RUNNING \<and> (case j_lease_expires_at j of None \<Rightarrow> False | Some t \<Rightarrow> t \<le> now)"

definition expired_candidates :: "(uuid \<Rightarrow> bool) \<Rightarrow> time \<Rightarrow> nat \<Rightarrow> db \<Rightarrow> job list" where
  "expired_candidates locked now limit d =
     take limit (sort_key (\<lambda>j. the (j_lease_expires_at j))
       (filter (\<lambda>j. lease_expired now j \<and> \<not> locked (j_id j)) (jobs d)))"

definition reset_expired_job :: "time \<Rightarrow> job \<Rightarrow> error + job" where
  "reset_expired_job now job =
     bindE (require_job_transition J_RUNNING J_FAILED) (\<lambda>_.
     let job = job\<lparr>j_status := J_FAILED, j_attempt := j_attempt job + 1, j_lease_owner := None,
           j_lease_expires_at := None, j_heartbeat_at := None, j_updated_at := now\<rparr>
     in case j_retry_class job of
          NEVER \<Rightarrow> bindE (require_job_transition J_FAILED J_TERMINAL_FAILURE)
            (\<lambda>_. Inr (job\<lparr>j_status := J_TERMINAL_FAILURE\<rparr>))
        | MANUAL_RESUME \<Rightarrow> Inr job
        | _ \<Rightarrow> (if j_max_attempts job \<le> j_attempt job
            then bindE (require_job_transition J_FAILED J_TERMINAL_FAILURE)
              (\<lambda>_. Inr (job\<lparr>j_status := J_TERMINAL_FAILURE\<rparr>))
            else bindE (require_job_transition J_FAILED J_READY)
              (\<lambda>_. Inr (job\<lparr>j_status := J_READY\<rparr>))))"

definition reclaim_expired_leases ::
    "(uuid \<Rightarrow> bool) \<Rightarrow> time \<Rightarrow> nat \<Rightarrow> db \<Rightarrow> error + (job list \<times> db)" where
  "reclaim_expired_leases locked now limit d =
     (let expired_jobs = expired_candidates locked now limit d in
      bindE (foldE (\<lambda>job e. bindE (reset_expired_job now job) (\<lambda>k. flush_job k e)) expired_jobs d)
        (\<lambda>e. Inr (List.map_filter (\<lambda>j. get_job e (j_id j)) expired_jobs, e)))"

text \<open>\<^verbatim>\<open>f"worker-{worker_index}"\<close>.\<close>

definition deterministic_worker_id :: "nat \<Rightarrow> string" where
  "deterministic_worker_id worker_index = ''worker-'' @ str_nat worker_index"

subsection \<open>Behaviour of a claim\<close>

lemma claim_candidates_Nil:
  "claim_candidates locked now d = [] \<longleftrightarrow> (\<forall>j \<in> set (jobs d). \<not> claimable locked now j)"
proof -
  have "claim_candidates locked now d = [] \<longleftrightarrow> filter (claimable locked now) (jobs d) = []"
    by (simp add: claim_candidates_def) (metis set_empty set_sort)
  then show ?thesis by (simp add: filter_empty_conv)
qed

lemma claim_candidates_Cons:
  assumes "claim_candidates locked now d = j # r"
  shows "j \<in> set (jobs d)" and "claimable locked now j"
    and "\<And>k. k \<in> set (jobs d) \<Longrightarrow> claimable locked now k \<Longrightarrow> j_scheduled_at j \<le> j_scheduled_at k"
proof -
  let ?s = "sort_key j_scheduled_at (filter (claimable locked now) (jobs d))"
  from assms obtain t where s: "?s = j # t" and one: "take (Suc 0) ?s = [j]"
    by (cases ?s) (auto simp: claim_candidates_def)
  show "j \<in> set (jobs d)" "claimable locked now j"
    using hd_sort_key_mem [OF s] by auto
  show "j_scheduled_at j \<le> j_scheduled_at k"
    if "k \<in> set (jobs d)" "claimable locked now k" for k
    by (rule take_sort_key_hd [OF one that])
qed

lemma claim_ready_job_cases:
  assumes "claim_ready_job locked w now dur lim d = Inr (res, e)"
  obtains (none) "res = None" "e = d" "\<forall>j \<in> set (jobs d). \<not> claimable locked now j"
    | (claimed) j r k where "claim_candidates locked now d = j # r"
        "k = j\<lparr>j_status := J_RUNNING, j_lease_owner := Some w,
           j_lease_expires_at := Some (now + dur), j_heartbeat_at := Some now, j_updated_at := now\<rparr>"
        "flush_job k d = Inr e" "res = get_job e (j_id j)"
  using assms
  by (cases "claim_candidates locked now d")
    (auto simp: claim_ready_job_def bindE_eq_Inr claim_candidates_Nil)

lemma claim_evolves:
  assumes "jobs_ok d" and "claim_ready_job locked w now dur lim d = Inr (res, e)"
  shows "db_evolves d e"
  using assms(2)
proof (cases rule: claim_ready_job_cases)
  case none
  then show ?thesis by simp
next
  case (claimed j r k)
  note c = claim_candidates_Cons [OF claimed(1)]
  show ?thesis
    by (rule flush_job_step [OF claimed(3) assms(1), of j])
      (use claimed(2) c jobs_ok_member_get [OF assms(1)] in
        \<open>auto simp: job_frame_def job_inv_def live_status_def lease_fields_set_def claimable_def
          intro!: status_path_step\<close>)
qed

interpretation claim_op: job_operation "claim_ready_job locked w now dur lim"
  for locked w now dur lim
  by unfold_locales (rule claim_evolves)

subsection \<open>Behaviour of heartbeat and release\<close>

lemma heartbeat_cases:
  assumes "heartbeat i w now ext d = Inr (u, e)"
  obtains j k where "get_job d i = Some j" "j_lease_owner j = Some w"
    "\<And>t. j_lease_expires_at j = Some t \<Longrightarrow> now \<le> t"
    "k = j\<lparr>j_heartbeat_at := Some now, j_updated_at := now,
       j_lease_expires_at := (case ext of None \<Rightarrow> j_lease_expires_at j | Some x \<Rightarrow> Some (now + x))\<rparr>"
    "flush_job k d = Inr e"
  using assms
  by (cases ext) (auto simp: heartbeat_def bindE_eq_Inr Let_def not_less split: option.splits)

lemma heartbeat_evolves:
  assumes "jobs_ok d" and "heartbeat i w now ext d = Inr (u, e)"
  shows "db_evolves d e"
  using assms(2)
proof (cases rule: heartbeat_cases)
  case (1 j k)
  have "j_id j = i" using job_store.get_member [OF 1(1)] by simp
  with 1 show ?thesis
    by (intro flush_job_step [OF 1(5) assms(1), of j])
      (auto simp: job_frame_def job_inv_def lease_fields_set_def lease_fields_clear_def lease_abandoned_def
        split: option.splits if_splits)
qed

interpretation heartbeat_op: job_operation "heartbeat i w now ext" for i w now ext
  by unfold_locales (rule heartbeat_evolves)

lemma release_lease_cases:
  assumes "release_lease i w now s d = Inr (u, e)"
  obtains j k where "s \<in> LEGAL_RELEASE_STATUSES" "get_job d i = Some j" "j_lease_owner j = Some w"
    "k = j\<lparr>j_status := s, j_lease_owner := None, j_lease_expires_at := None,
       j_heartbeat_at := None, j_updated_at := now\<rparr>"
    "flush_job k d = Inr e"
  using assms by (auto simp: release_lease_def bindE_eq_Inr)

lemma owner_leased: "job_inv j \<Longrightarrow> j_lease_owner j = Some w \<Longrightarrow> lease_fields_set j"
  by (auto simp: job_inv_def lease_fields_clear_def lease_abandoned_def split: if_splits)

text \<open>
  A release takes the job along the table when the job is RUNNING, as it is for a worker that
  still runs it. The code looks at the lease only, so a release of a lease that was left behind
  would overwrite any status.
\<close>

lemma release_evolves:
  assumes "jobs_ok d" and "release_lease i w now s d = Inr (u, e)"
    and running: "\<forall>j. get_job d i = Some j \<longrightarrow> j_status j = J_RUNNING"
  shows "db_evolves d e"
  using assms(2)
proof (cases rule: release_lease_cases)
  case (1 j k)
  have "j_id j = i" using job_store.get_member [OF 1(2)] by simp
  moreover have "j_status j = J_RUNNING" using running 1(2) by simp
  ultimately show ?thesis using 1
    by (intro flush_job_step [OF 1(5) assms(1), of j])
      (auto simp: job_frame_def job_inv_def lease_fields_clear_def LEGAL_RELEASE_STATUSES_def
        live_status_def intro!: status_path_step)
qed

definition running :: "uuid \<Rightarrow> db \<Rightarrow> bool" where
  "running i d \<longleftrightarrow> (\<exists>j. get_job d i = Some j \<and> j_status j = J_RUNNING)"

interpretation release_op: job_operation "\<lambda>d. if running i d then release_lease i w now s d else Inl LeaseNotHeldError"
  for i w now s
proof unfold_locales
  fix d r e
  assume "jobs_ok d" and "(if running i d then release_lease i w now s d else Inl LeaseNotHeldError) = Inr (r, e)"
  then show "db_evolves d e" by (auto simp: running_def split: if_splits intro: release_evolves)
qed

subsection \<open>Behaviour of the reclaim\<close>

text \<open>Where an expired lease sends its job, and the row it leaves.\<close>

definition expired_status :: "job \<Rightarrow> job_status" where
  "expired_status j =
     (if j_retry_class j = NEVER then J_TERMINAL_FAILURE
      else if j_retry_class j = MANUAL_RESUME then J_FAILED
      else if j_max_attempts j \<le> j_attempt j + 1 then J_TERMINAL_FAILURE
      else J_READY)"

definition reset_row :: "time \<Rightarrow> job \<Rightarrow> job" where
  "reset_row now j = j\<lparr>j_status := expired_status j, j_attempt := j_attempt j + 1,
     j_lease_owner := None, j_lease_expires_at := None, j_heartbeat_at := None,
     j_updated_at := now\<rparr>"

lemma reset_expired_job_eq: "reset_expired_job now j = Inr (reset_row now j)"
  by (cases "j_retry_class j")
    (auto simp: reset_expired_job_def reset_row_def expired_status_def Let_def
      require_job_transition_def)

lemma reset_row_evolves:
  assumes "job_inv j" and "j_status j = J_RUNNING"
  shows "check_job (reset_row now j) = Inr ()" and "job_evolves j (reset_row now j)"
proof -
  show check: "check_job (reset_row now j) = Inr ()"
    using assms by (auto simp: job_inv_def check_job_def reset_row_def live_status_def fits_opt_def
        bindE_eq_Inr)
  have "status_path J_RUNNING J_FAILED" by (rule status_path_step) simp
  moreover have "expired_status j = J_FAILED \<or> expired_status j \<in> JOB_TRANSITIONS J_FAILED"
    by (simp add: expired_status_def)
  ultimately have "status_path J_RUNNING (expired_status j)"
    by (metis status_path_step status_path_trans)
  moreover have "job_inv (reset_row now j)"
    using check by (auto simp: job_inv_def reset_row_def expired_status_def live_status_def
        lease_fields_clear_def)
  ultimately show "job_evolves j (reset_row now j)"
    using assms(2) by (simp add: job_evolves_def job_frame_def reset_row_def)
qed

lemma expired_candidates_mem:
  "j \<in> set (expired_candidates locked now limit d) \<Longrightarrow>
     j \<in> set (jobs d) \<and> lease_expired now j \<and> \<not> locked (j_id j)"
  by (auto simp: expired_candidates_def dest!: in_set_takeD)

lemma expired_candidates_all:
  assumes "length (filter (\<lambda>j. lease_expired now j \<and> \<not> locked (j_id j)) (jobs d)) \<le> limit"
  shows "set (expired_candidates locked now limit d) =
     {j \<in> set (jobs d). lease_expired now j \<and> \<not> locked (j_id j)}"
  using assms by (auto simp: expired_candidates_def)

lemma expired_candidates_distinct:
  assumes "distinct (map j_id (jobs d))"
  shows "distinct (map j_id (expired_candidates locked now limit d))"
proof -
  have "distinct (map j_id (filter P (jobs d)))" for P
    using assms by (simp add: distinct_map inj_on_def)
  then have "distinct (map j_id (sort_key f (filter P (jobs d))))" for P and f :: "job \<Rightarrow> int"
    by (simp add: distinct_map)
  then show ?thesis
    unfolding expired_candidates_def by (simp only: take_map [symmetric] distinct_take)
qed

lemma reclaim_fold_eq:
  "foldE (\<lambda>job e. bindE (reset_expired_job now job) (\<lambda>k. flush_job k e)) xs d =
   foldE (\<lambda>job. flush_job (reset_row now job)) xs d"
  by (simp add: reset_expired_job_eq)

lemma reclaim_behaviour:
  assumes "jobs_ok d" and xs_def: "xs = expired_candidates locked now limit d"
  shows "\<exists>rs e. reclaim_expired_leases locked now limit d = Inr (rs, e) \<and>
     map j_id rs = map j_id xs \<and>
     (\<forall>j \<in> set xs. \<exists>v. get_job e (j_id j) = Some ((reset_row now j)\<lparr>j_version := v\<rparr>)) \<and>
     (\<forall>i. i \<notin> j_id ` set xs \<longrightarrow> get_job e i = get_job d i)"
proof -
  have xs: "get_job d (j_id x) = Some x \<and> j_id (reset_row now x) = j_id x \<and>
      check_job (reset_row now x) = Inr ()" if "x \<in> set xs" for x
  proof -
    have "x \<in> set (jobs d)" "j_status x = J_RUNNING"
      using expired_candidates_mem [of x locked now limit d] that
      by (auto simp: xs_def lease_expired_def)
    then have "get_job d (j_id x) = Some x" "check_job (reset_row now x) = Inr ()"
      using jobs_ok_member_get [OF assms(1)] jobs_ok_get [OF assms(1)] reset_row_evolves(1)
      by blast+
    then show ?thesis by (simp add: reset_row_def)
  qed
  have "distinct (map j_id xs)"
    using assms(1) expired_candidates_distinct by (simp add: xs_def jobs_ok_def job_keys_unique_def)
  from foldE_flush_jobs [OF this xs] obtain e where
    e: "foldE (\<lambda>x. flush_job (reset_row now x)) xs d = Inr e"
      "\<forall>x \<in> set xs. \<exists>v. get_job e (j_id x) = Some ((reset_row now x)\<lparr>j_version := v\<rparr>)"
      "\<forall>i. i \<notin> j_id ` set xs \<longrightarrow> get_job e i = get_job d i" by blast
  have ids: "map j_id (List.map_filter (\<lambda>j. get_job e (j_id j)) ys) = map j_id ys"
    if "\<forall>x \<in> set ys. \<exists>v. get_job e (j_id x) = Some ((reset_row now x)\<lparr>j_version := v\<rparr>)" for ys
    using that by (induction ys) (auto simp: List.map_filter_simps reset_row_def)
  show ?thesis
    using e ids [OF e(2)]
    by (simp add: reclaim_expired_leases_def reclaim_fold_eq xs_def [symmetric] Let_def)
qed

lemma reclaim_evolves:
  assumes "jobs_ok d" and "reclaim_expired_leases locked now limit d = Inr (rs, e)"
  shows "db_evolves d e"
proof -
  let ?xs = "expired_candidates locked now limit d"
  have "foldE (\<lambda>job. flush_job (reset_row now job)) ?xs d = Inr e"
    using assms(2) by (auto simp: reclaim_expired_leases_def reclaim_fold_eq bindE_eq_Inr Let_def)
  then show ?thesis
    by (rule flush_rows_evolve)
      (use assms(1) expired_candidates_mem [of _ locked now limit d] expired_candidates_distinct in
       \<open>auto simp: lease_expired_def reset_row_def jobs_ok_def job_keys_unique_def
          intro: reset_row_evolves(2) [unfolded reset_row_def] simp: list_all_iff\<close>)
qed

interpretation reclaim_op: job_operation "reclaim_expired_leases locked now limit"
  for locked now limit
  by unfold_locales (rule reclaim_evolves)

subsection \<open>Properties\<close>

text \<open>
  A claim takes the oldest due \<open>READY\<close> job that no other transaction has locked and
  changes nothing else: the row becomes \<open>RUNNING\<close>, owned by the worker until
  \<open>now + lease_duration\<close>; it returns no job exactly when there is none to claim.
\<close>

theorem claim_takes_oldest_ready:
  assumes "jobs_ok d" and "fits 100 w"
  shows "\<exists>res e. claim_ready_job locked w now dur lim d = Inr (res, e) \<and> jobs_ok e \<and>
     (case res of
        None \<Rightarrow> e = d \<and> (\<forall>j \<in> set (jobs d). \<not> claimable locked now j)
      | Some k \<Rightarrow> get_job e (j_id k) = Some k \<and> j_status k = J_RUNNING \<and>
          j_lease_owner k = Some w \<and> j_lease_expires_at k = Some (now + dur) \<and>
          j_heartbeat_at k = Some now \<and>
          (\<exists>j \<in> set (jobs d). j_id j = j_id k \<and> claimable locked now j \<and>
             (\<forall>i \<in> set (jobs d). claimable locked now i \<longrightarrow> j_scheduled_at j \<le> j_scheduled_at i)) \<and>
          (\<forall>i. i \<noteq> j_id k \<longrightarrow> get_job e i = get_job d i))"
proof (cases "claim_candidates locked now d")
  case Nil
  then show ?thesis
    using assms(1) claim_candidates_Nil [of locked now d] by (simp add: claim_ready_job_def)
next
  case (Cons j r)
  note c = claim_candidates_Cons [OF Cons]
  let ?k = "j\<lparr>j_status := J_RUNNING, j_lease_owner := Some w,
    j_lease_expires_at := Some (now + dur), j_heartbeat_at := Some now, j_updated_at := now\<rparr>"
  have get: "get_job d (j_id j) = Some j" using jobs_ok_member_get [OF assms(1) c(1)] .
  have "check_job ?k = Inr ()"
    using jobs_ok_get [OF assms(1) get] assms(2)
    by (auto simp: job_inv_def check_job_def fits_opt_def bindE_eq_Inr)
  then obtain e where e: "flush_job ?k d = Inr e" using flush_job_total [of d ?k] get by auto
  from flush_job_get [OF e] obtain v where
    v: "get_job e (j_id j) = Some (?k\<lparr>j_version := v\<rparr>)"
       "\<forall>i. i \<noteq> j_id j \<longrightarrow> get_job e i = get_job d i" by auto
  have claim: "claim_ready_job locked w now dur lim d = Inr (Some (?k\<lparr>j_version := v\<rparr>), e)"
    using Cons e v(1) by (simp add: claim_ready_job_def require_job_transition_def)
  then have "jobs_ok e" using claim_op.keeps_jobs_ok [OF assms(1)] by blast
  then show ?thesis using claim v c by auto
qed

theorem claim_takes_oldest_ready_witness:
  "\<exists>res e. claim_ready_job (\<lambda>_. False) ''worker-1'' 5 300 1
       (example_db [example_job 2 ''k'' J_READY]) = Inr (res, e) \<and> jobs_ok e \<and> res \<noteq> None"
proof -
  let ?d = "example_db [example_job 2 ''k'' J_READY]"
  have "jobs_ok ?d" "fits 100 ''worker-1''"
    by (simp_all add: example_defs example_inv_defs)
  from claim_takes_oldest_ready [OF this, of "\<lambda>_. False" 5 300 1] show ?thesis
    by (auto simp: example_defs claimable_def split: option.splits)
qed

text \<open>
  C3: no job is claimed twice. A worker that claims while another transaction holds the row of
  the first claim gets a different job, from the same snapshot; and so does one that claims
  after the first claim committed.
\<close>

theorem claims_are_exclusive:
  assumes "jobs_ok d" and "claim_ready_job locked w now dur lim d = Inr (Some j, e)"
    and "s = d \<and> locked' (j_id j) \<or> s = e"
    and "claim_ready_job locked' w' now' dur' lim' s = Inr (Some k, f)"
  shows "j_id k \<noteq> j_id j"
proof -
  from assms(2) obtain v where run: "get_job e (j_id j) = Some v" "j_status v = J_RUNNING"
  proof (cases rule: claim_ready_job_cases)
    case (claimed j0 r k0)
    from flush_job_get [OF claimed(3)] claimed(2,4) show ?thesis by (auto intro: that)
  qed simp
  from assms(4) show ?thesis
  proof (cases rule: claim_ready_job_cases)
    case (claimed j1 r1 k1)
    have id: "j_id k = j_id j1" using claimed(4) job_store.get_member by metis
    note c = claim_candidates_Cons [OF claimed(1)]
    show ?thesis
    proof
      assume eq: "j_id k = j_id j"
      show False using assms(3)
      proof
        assume "s = d \<and> locked' (j_id j)"
        with c(2) id eq show False by (simp add: claimable_def)
      next
        assume "s = e"
        with c jobs_ok_member_get [OF claim_op.keeps_jobs_ok [OF assms(1,2)]] id eq run
        show False by (auto simp: claimable_def)
      qed
    qed
  qed simp
qed

theorem claims_are_exclusive_witness:
  "\<exists>j e k f. claim_ready_job (\<lambda>_. False) ''worker-1'' 5 300 1
       (example_db [example_job 2 ''k'' J_READY, example_job 3 ''l'' J_READY]) = Inr (Some j, e) \<and>
     claim_ready_job (\<lambda>_. False) ''worker-2'' 5 300 1 e = Inr (Some k, f) \<and> j_id k \<noteq> j_id j"
proof -
  let ?d = "example_db [example_job 2 ''k'' J_READY, example_job 3 ''l'' J_READY]"
  have ok: "jobs_ok ?d" by (simp add: example_defs example_inv_defs)
  have sim: "\<exists>j e k f. claim_ready_job (\<lambda>_. False) ''worker-1'' 5 300 1 ?d = Inr (Some j, e) \<and>
     claim_ready_job (\<lambda>_. False) ''worker-2'' 5 300 1 e = Inr (Some k, f)"
    by (simp add: claim_ready_job_def claim_candidates_def claimable_def example_defs flush_job_def
        example_inv_defs put_job_def require_job_transition_def)
  then obtain j e k f where
    r: "claim_ready_job (\<lambda>_. False) ''worker-1'' 5 300 1 ?d = Inr (Some j, e)"
       "claim_ready_job (\<lambda>_. False) ''worker-2'' 5 300 1 e = Inr (Some k, f)" by blast
  have "j_id k \<noteq> j_id j"
    by (rule claims_are_exclusive [OF ok r(1) _ r(2)]) simp
  with r show ?thesis by blast
qed

text \<open>Who holds the lease of a job, and until when.\<close>

definition lease_held :: "db \<Rightarrow> uuid \<Rightarrow> string \<Rightarrow> time \<Rightarrow> bool" where
  "lease_held d i w t \<longleftrightarrow>
     (\<exists>j. get_job d i = Some j \<and> j_lease_owner j = Some w \<and> j_lease_expires_at j = Some t)"

lemma owner_lease_held:
  assumes "jobs_ok d" and "get_job d i = Some j" and "j_lease_owner j = Some w"
  shows "\<exists>t. j_lease_expires_at j = Some t \<and> lease_held d i w t"
proof -
  have "j_lease_expires_at j \<noteq> None"
    using owner_leased [OF jobs_ok_get [OF assms(1,2)] assms(3)] by (simp add: lease_fields_set_def)
  then show ?thesis using assms(2,3) by (auto simp: lease_held_def)
qed

lemma flush_checked:
  assumes "get_job d (j_id k) = Some j" and "check_job k = Inr ()"
  shows "\<exists>e v. flush_job k d = Inr e \<and> get_job e (j_id k) = Some (k\<lparr>j_version := v\<rparr>)"
  using flush_job_total [OF assms] flush_job_get by blast

lemma heartbeat_outcome:
  assumes "jobs_ok d"
  shows "(\<exists>e. heartbeat i w now ext d = Inr ((), e)) \<and> (\<exists>t. lease_held d i w t \<and> now \<le> t) \<or>
     heartbeat i w now ext d = Inl LeaseExpiredError \<and> (\<exists>t. lease_held d i w t \<and> t < now) \<or>
     heartbeat i w now ext d = Inl LeaseNotHeldError \<and> (\<nexists>t. lease_held d i w t)"
proof (cases "\<exists>j. get_job d i = Some j \<and> j_lease_owner j = Some w")
  case False
  then show ?thesis by (cases "get_job d i") (auto simp: heartbeat_def lease_held_def)
next
  case True
  then obtain j where j: "get_job d i = Some j" "j_lease_owner j = Some w" by blast
  then obtain t where t: "j_lease_expires_at j = Some t" "lease_held d i w t"
    using owner_lease_held [OF assms] by blast
  have id: "j_id j = i" using job_store.get_member [OF j(1)] by simp
  have "check_job j = Inr ()" using jobs_ok_get [OF assms j(1)] by (simp add: job_inv_def)
  then have "check_job (j\<lparr>j_heartbeat_at := a, j_updated_at := b\<rparr>) = Inr ()"
    "check_job (j\<lparr>j_heartbeat_at := a, j_updated_at := b, j_lease_expires_at := c\<rparr>) = Inr ()" for a b c
    by (simp_all add: check_job_def)
  then have flush: "\<exists>e. flush_job (j\<lparr>j_heartbeat_at := a, j_updated_at := b\<rparr>) d = Inr e"
    "\<exists>e. flush_job (j\<lparr>j_heartbeat_at := a, j_updated_at := b, j_lease_expires_at := c\<rparr>) d = Inr e"
    for a b c using flush_job_total j(1) id by simp_all
  show ?thesis
  proof (cases "t < now")
    case True
    with j t show ?thesis by (auto simp: heartbeat_def)
  next
    case False
    with j t have "\<exists>e. heartbeat i w now ext d = Inr ((), e)"
      using flush by (cases ext) (auto simp: heartbeat_def Let_def bindE_eq_Inr)
    with False t show ?thesis by (meson not_le)
  qed
qed

lemma release_outcome:
  assumes "jobs_ok d" and "s \<in> JOB_TRANSITIONS J_RUNNING"
  shows "(\<exists>e k. release_lease i w now s d = Inr ((), e) \<and> get_job e i = Some k \<and>
       j_status k = s \<and> lease_fields_clear k) \<and> (\<exists>t. lease_held d i w t) \<or>
     release_lease i w now s d = Inl LeaseNotHeldError \<and> (\<nexists>t. lease_held d i w t)"
proof (cases "\<exists>j. get_job d i = Some j \<and> j_lease_owner j = Some w")
  case False
  moreover have "s \<in> LEGAL_RELEASE_STATUSES" using assms(2) by (simp add: LEGAL_RELEASE_STATUSES_def)
  ultimately show ?thesis by (cases "get_job d i") (auto simp: release_lease_def lease_held_def)
next
  case True
  then obtain j where j: "get_job d i = Some j" "j_lease_owner j = Some w" by blast
  let ?k = "j\<lparr>j_status := s, j_lease_owner := None, j_lease_expires_at := None,
         j_heartbeat_at := None, j_updated_at := now\<rparr>"
  have id: "j_id j = i" using job_store.get_member [OF j(1)] by simp
  have "check_job j = Inr ()" using jobs_ok_get [OF assms(1) j(1)] by (simp add: job_inv_def)
  then have "check_job ?k = Inr ()" by (simp add: check_job_def fits_opt_def bindE_eq_Inr)
  then obtain e v where e: "flush_job ?k d = Inr e" "get_job e i = Some (?k\<lparr>j_version := v\<rparr>)"
    using flush_checked [of d ?k j] j(1) id by auto
  then have "release_lease i w now s d = Inr ((), e)"
    using j assms(2) by (simp add: release_lease_def LEGAL_RELEASE_STATUSES_def
        require_job_transition_def)
  with e(2) show ?thesis using owner_lease_held [OF assms(1) j]
    by (auto simp: lease_fields_clear_def)
qed

text \<open>
  Only the owner of a lease can touch its job. A heartbeat succeeds exactly for the owner
  of a lease that has not expired, and fails with \<open>LeaseExpiredError\<close> for its owner afterwards
  and with \<open>LeaseNotHeldError\<close> for everybody else; a release with a status that \<open>RUNNING\<close>
  admits succeeds exactly for the owner, and leaves the job in that status without a lease;
  any other status is refused before the row is read.
\<close>

theorem only_the_owner_heartbeats_and_releases:
  assumes "jobs_ok d"
  shows "(case heartbeat i w now ext d of
       Inr _ \<Rightarrow> \<exists>t. lease_held d i w t \<and> now \<le> t
     | Inl err \<Rightarrow> err = LeaseExpiredError \<and> (\<exists>t. lease_held d i w t \<and> t < now) \<or>
         err = LeaseNotHeldError \<and> (\<nexists>t. lease_held d i w t)) \<and>
    (case release_lease i w now s d of
       Inr (_, e) \<Rightarrow> s \<in> JOB_TRANSITIONS J_RUNNING \<and> (\<exists>t. lease_held d i w t) \<and>
         (\<exists>k. get_job e i = Some k \<and> j_status k = s \<and> lease_fields_clear k)
     | Inl err \<Rightarrow> if s \<in> JOB_TRANSITIONS J_RUNNING
         then err = LeaseNotHeldError \<and> (\<nexists>t. lease_held d i w t)
         else err = ValueError ''Cannot release'')"
proof (rule conjI)
  show "case heartbeat i w now ext d of
       Inr _ \<Rightarrow> \<exists>t. lease_held d i w t \<and> now \<le> t
     | Inl err \<Rightarrow> err = LeaseExpiredError \<and> (\<exists>t. lease_held d i w t \<and> t < now) \<or>
         err = LeaseNotHeldError \<and> (\<nexists>t. lease_held d i w t)"
    using heartbeat_outcome [OF assms, of i w now ext] by (auto split: sum.split)
  show "case release_lease i w now s d of
       Inr (_, e) \<Rightarrow> s \<in> JOB_TRANSITIONS J_RUNNING \<and> (\<exists>t. lease_held d i w t) \<and>
         (\<exists>k. get_job e i = Some k \<and> j_status k = s \<and> lease_fields_clear k)
     | Inl err \<Rightarrow> if s \<in> JOB_TRANSITIONS J_RUNNING
         then err = LeaseNotHeldError \<and> (\<nexists>t. lease_held d i w t)
         else err = ValueError ''Cannot release''"
  proof (cases "s \<in> JOB_TRANSITIONS J_RUNNING")
    case True
    with release_outcome [OF assms True, of i w now] show ?thesis by (auto split: sum.split)
  next
    case False
    then show ?thesis by (simp add: release_lease_def LEGAL_RELEASE_STATUSES_def)
  qed
qed

theorem only_the_owner_heartbeats_and_releases_witness:
  "\<exists>e. heartbeat 2 ''worker-1'' 50 None (example_db [example_leased_job 2 ''k'' ''worker-1'']) =
      Inr ((), e) \<and>
    (\<exists>t. lease_held (example_db [example_leased_job 2 ''k'' ''worker-1'']) 2 ''worker-1'' t \<and> 50 \<le> t)"
proof -
  let ?d = "example_db [example_leased_job 2 ''k'' ''worker-1'']"
  have ok: "jobs_ok ?d" by (simp add: example_defs example_inv_defs)
  have "\<exists>e. heartbeat 2 ''worker-1'' 50 None ?d = Inr ((), e)"
    by (simp add: heartbeat_def example_defs flush_job_def example_inv_defs)
  then show ?thesis
    using only_the_owner_heartbeats_and_releases [OF ok, of 2 "''worker-1''" 50 None J_FAILED]
    by auto
qed

text \<open>
  C4: reclaiming never fails and resets exactly the expired leases it selected: each such job
  loses its lease and one attempt and becomes terminal when its class forbids retries or its
  budget is used up, stays \<open>FAILED\<close> when it needs an operator, and becomes \<open>READY\<close> with budget
  left otherwise. Every other row is unchanged, and with a sufficient limit no expired
  unlocked lease is passed over.
\<close>

theorem reclaim_resets_expired_leases:
  assumes "jobs_ok d"
  shows "\<exists>rs e. reclaim_expired_leases locked now limit d = Inr (rs, e) \<and> jobs_ok e \<and>
     (\<forall>j \<in> set (jobs d). if j_id j \<in> j_id ` set rs
        then lease_expired now j \<and> \<not> locked (j_id j) \<and>
          (\<exists>k. get_job e (j_id j) = Some k \<and> j_attempt k = j_attempt j + 1 \<and> lease_fields_clear k \<and>
             j_status k = expired_status j \<and>
             (j_status k = J_READY \<longrightarrow> j_attempt k < j_max_attempts k))
        else get_job e (j_id j) = Some j) \<and>
     (length (filter (\<lambda>j. lease_expired now j \<and> \<not> locked (j_id j)) (jobs d)) \<le> limit \<longrightarrow>
        (\<forall>j \<in> set (jobs d). lease_expired now j \<and> \<not> locked (j_id j) \<longrightarrow> j_id j \<in> j_id ` set rs))"
proof -
  let ?xs = "expired_candidates locked now limit d"
  from reclaim_behaviour [OF assms refl, of locked now limit] obtain rs e where
    r: "reclaim_expired_leases locked now limit d = Inr (rs, e)" and ids: "map j_id rs = map j_id ?xs"
    and reset: "\<forall>j \<in> set ?xs. \<exists>v. get_job e (j_id j) = Some ((reset_row now j)\<lparr>j_version := v\<rparr>)"
    and rest: "\<forall>i. i \<notin> j_id ` set ?xs \<longrightarrow> get_job e i = get_job d i" by blast
  have idset: "j_id ` set rs = j_id ` set ?xs" using ids by (metis list.set_map)
  have sel: "j \<in> set ?xs" if j: "j \<in> set (jobs d)" "j_id j \<in> j_id ` set rs" for j
  proof -
    from j(2) idset obtain x where x: "x \<in> set ?xs" "j_id j = j_id x" by auto
    have "x \<in> set (jobs d)" using expired_candidates_mem x(1) by blast
    then show ?thesis using x jobs_ok_member_get [OF assms] j(1) by (metis option.inject)
  qed
  have row: "if j_id j \<in> j_id ` set rs
        then lease_expired now j \<and> \<not> locked (j_id j) \<and>
          (\<exists>k. get_job e (j_id j) = Some k \<and> j_attempt k = j_attempt j + 1 \<and> lease_fields_clear k \<and>
             j_status k = expired_status j \<and>
             (j_status k = J_READY \<longrightarrow> j_attempt k < j_max_attempts k))
        else get_job e (j_id j) = Some j" if j: "j \<in> set (jobs d)" for j
  proof (cases "j_id j \<in> j_id ` set rs")
    case True
    then have "j \<in> set ?xs" using sel j by blast
    then show ?thesis using True reset expired_candidates_mem [of j locked now limit d]
      by (fastforce simp: reset_row_def lease_fields_clear_def expired_status_def)
  next
    case False
    then show ?thesis using rest idset jobs_ok_member_get [OF assms j] by simp
  qed
  moreover have "jobs_ok e" using reclaim_op.keeps_jobs_ok [OF assms r] .
  moreover have "\<forall>j \<in> set (jobs d). lease_expired now j \<and> \<not> locked (j_id j) \<longrightarrow> j_id j \<in> j_id ` set rs"
    if "length (filter (\<lambda>j. lease_expired now j \<and> \<not> locked (j_id j)) (jobs d)) \<le> limit"
    using expired_candidates_all [OF that] idset by auto
  ultimately show ?thesis using r by blast
qed

theorem reclaim_resets_expired_leases_witness:
  "\<exists>rs e k. reclaim_expired_leases (\<lambda>_. False) 100 50
       (example_db [example_leased_job 2 ''k'' ''worker-1'']) = Inr (rs, e) \<and>
     get_job e 2 = Some k \<and> j_status k = J_READY \<and> j_attempt k = 1"
proof -
  let ?j = "example_leased_job 2 ''k'' ''worker-1''"
  have "jobs_ok (example_db [?j])" by (simp add: example_defs example_inv_defs)
  from reclaim_resets_expired_leases [OF this, of "\<lambda>_. False" 100 50] show ?thesis
    by (fastforce simp: example_defs lease_expired_def expired_status_def)
qed

end
