(* ===== verification/Dependencies.thy ===== *)
theory Dependencies
  imports Job_Contract Calendar
begin

section \<open>Dependency resolution\<close>

text \<open>
  \<^verbatim>\<open>orchestration/dependency_resolver.py\<close>: readiness of a pending job, its promotion, and the
  propagation of a predecessor's failure or success. The reason texts are kept because the
  promotion classifies its error by searching them. The unique constraint on
  \<^verbatim>\<open>(job_id, depends_on_job_id)\<close> makes the join of the failure propagation return each
  dependent job once.
\<close>

text \<open>A comparison with the status of a missing row is SQL's unknown, which selects nothing.\<close>

definition unsatisfied :: "db \<Rightarrow> job_dependency \<Rightarrow> bool" where
  "unsatisfied d p \<longleftrightarrow> d_satisfied_at p = None \<or>
     (case get_job d (d_depends_on_job_id p) of None \<Rightarrow> False | Some k \<Rightarrow> j_status k \<noteq> J_SUCCEEDED)"

definition check_dependencies_satisfied :: "uuid \<Rightarrow> db \<Rightarrow> bool" where
  "check_dependencies_satisfied job_id d =
     (\<not> list_ex (\<lambda>p. d_job_id p = job_id \<and> unsatisfied d p) (job_dependencies d))"

definition check_workflow_active :: "uuid \<Rightarrow> db \<Rightarrow> bool" where
  "check_workflow_active workflow_id d =
     (case get_workflow d workflow_id of None \<Rightarrow> False | Some w \<Rightarrow> w_completed_at w = None)"

definition check_idempotency_collision :: "uuid \<Rightarrow> string \<Rightarrow> db \<Rightarrow> bool" where
  "check_idempotency_collision job_id idempotency_key d =
     list_ex (\<lambda>r. ir_idempotency_key r = idempotency_key \<and> ir_job_id r \<noteq> job_id)
       (idempotency_records d)"

definition check_product_lifecycle_valid :: "uuid \<Rightarrow> db \<Rightarrow> bool" where
  "check_product_lifecycle_valid workflow_id d =
     (case get_workflow d workflow_id of None \<Rightarrow> False
      | Some w \<Rightarrow> w_product_state w \<notin> {REJECTED, DEACTIVATED})"

definition evaluate_job_readiness :: "uuid \<Rightarrow> time \<Rightarrow> db \<Rightarrow> bool \<times> string" where
  "evaluate_job_readiness job_id now d =
     (case get_job d job_id of
        None \<Rightarrow> (False, ''Job '' @ str_uuid job_id @ '' not found'')
      | Some job \<Rightarrow>
          if j_status job \<noteq> J_PENDING
            then (False, ''Job is '' @ job_status_value (j_status job) @ '', not PENDING'')
          else if now < j_scheduled_at job
            then (False, ''Job scheduled for '' @ str_datetime (j_scheduled_at job) @
              '', now is '' @ str_datetime now)
          else if \<not> check_dependencies_satisfied job_id d
            then (False, ''Dependencies not satisfied'')
          else if \<not> check_workflow_active (j_workflow_id job) d
            then (False, ''Workflow is no longer active'')
          else if \<not> check_product_lifecycle_valid (j_workflow_id job) d
            then (False, ''Product lifecycle is terminal (REJECTED or DEACTIVATED)'')
          else if j_idempotency_key job \<noteq> [] \<and>
              check_idempotency_collision job_id (j_idempotency_key job) d
            then (False, ''Idempotency key '' @ j_idempotency_key job @ '' already reserved'')
          else (True, ''All conditions satisfied''))"

definition classify_reason :: "string \<Rightarrow> error" where
  "classify_reason reason =
     (if contains_str ''dependencies'' (lower_str reason) then DependencyNotSatisfiedError reason
      else if contains_str ''workflow'' (lower_str reason) then WorkflowInactiveError reason
      else if contains_str ''idempotency'' (lower_str reason) then IdempotencyCollisionError reason
      else DependencyResolutionError reason)"

definition promote_pending_to_ready :: "uuid \<Rightarrow> time \<Rightarrow> db \<Rightarrow> error + (job option \<times> db)" where
  "promote_pending_to_ready job_id now d =
     bindE (requireE (get_job d job_id) (DependencyResolutionError ''not found'')) (\<lambda>job.
     bindE (guardE (j_status job = J_PENDING) (DependencyResolutionError ''not PENDING'')) (\<lambda>_.
     case evaluate_job_readiness job_id now d of (is_ready, reason) \<Rightarrow>
       if \<not> is_ready then Inl (classify_reason reason)
       else bindE (require_job_transition J_PENDING J_READY) (\<lambda>_.
         bindE (flush_job (job\<lparr>j_status := J_READY, j_updated_at := now\<rparr>) d) (\<lambda>e.
         Inr (get_job e job_id, e)))))"

definition dependents :: "uuid \<Rightarrow> db \<Rightarrow> job list" where
  "dependents failed_job_id d =
     filter (\<lambda>j. j_status j = J_PENDING \<and>
       list_ex (\<lambda>p. d_job_id p = j_id j \<and> d_depends_on_job_id p = failed_job_id)
         (job_dependencies d)) (jobs d)"

definition propagate_dependency_failure :: "uuid \<Rightarrow> time \<Rightarrow> db \<Rightarrow> error + (uuid list \<times> db)" where
  "propagate_dependency_failure failed_job_id now d =
     (let dependent_jobs = dependents failed_job_id d in
      bindE (foldE (\<lambda>job e. bindE (require_job_transition J_PENDING J_BLOCKED) (\<lambda>_.
          flush_job (job\<lparr>j_status := J_BLOCKED, j_updated_at := now\<rparr>) e)) dependent_jobs d) (\<lambda>e.
      Inr (map j_id dependent_jobs, e)))"

definition satisfies :: "uuid \<Rightarrow> job_dependency \<Rightarrow> bool" where
  "satisfies succeeded_job_id p \<longleftrightarrow>
     d_depends_on_job_id p = succeeded_job_id \<and> d_satisfied_at p = None"

definition satisfy_dependency :: "uuid \<Rightarrow> time \<Rightarrow> db \<Rightarrow> error + (nat \<times> db)" where
  "satisfy_dependency succeeded_job_id now d =
     Inr (length (filter (satisfies succeeded_job_id) (job_dependencies d)),
       d\<lparr>job_dependencies := map (\<lambda>p. if satisfies succeeded_job_id p
          then p\<lparr>d_satisfied_at := Some now\<rparr> else p) (job_dependencies d)\<rparr>)"

subsection \<open>Readiness\<close>

text \<open>The five conditions of the promotion, as one predicate.\<close>

definition ready_to_run :: "job \<Rightarrow> time \<Rightarrow> db \<Rightarrow> bool" where
  "ready_to_run j now d \<longleftrightarrow> j_status j = J_PENDING \<and> j_scheduled_at j \<le> now \<and>
     (\<forall>p \<in> set (job_dependencies d). d_job_id p = j_id j \<longrightarrow> \<not> unsatisfied d p) \<and>
     (\<exists>w. get_workflow d (j_workflow_id j) = Some w \<and> w_completed_at w = None \<and>
        w_product_state w \<notin> {REJECTED, DEACTIVATED}) \<and>
     (\<forall>r \<in> set (idempotency_records d). ir_idempotency_key r = j_idempotency_key j \<longrightarrow>
        j_idempotency_key j \<noteq> [] \<longrightarrow> ir_job_id r = j_id j)"

lemma evaluate_ready_iff:
  assumes "get_job d i = Some j"
  shows "fst (evaluate_job_readiness i now d) \<longleftrightarrow> ready_to_run j now d"
proof -
  have "j_id j = i" using job_store.get_member [OF assms] by simp
  then show ?thesis
    using assms
    by (auto simp: evaluate_job_readiness_def ready_to_run_def check_dependencies_satisfied_def
        check_workflow_active_def check_product_lifecycle_valid_def check_idempotency_collision_def
        list_ex_iff not_le split: option.splits)
qed

lemma promote_cases:
  assumes "promote_pending_to_ready i now d = Inr (res, e)"
  obtains j k where "get_job d i = Some j" "ready_to_run j now d"
    "k = j\<lparr>j_status := J_READY, j_updated_at := now\<rparr>" "flush_job k d = Inr e" "res = get_job e i"
proof -
  from assms obtain j where j: "get_job d i = Some j" "fst (evaluate_job_readiness i now d)"
    "flush_job (j\<lparr>j_status := J_READY, j_updated_at := now\<rparr>) d = Inr e" "res = get_job e i"
    by (cases "evaluate_job_readiness i now d")
      (auto simp: promote_pending_to_ready_def bindE_eq_Inr split: if_splits)
  then show ?thesis using that evaluate_ready_iff [OF j(1)] by blast
qed

lemma promote_evolves:
  assumes "jobs_ok d" and "promote_pending_to_ready i now d = Inr (res, e)"
  shows "db_evolves d e"
  using assms(2)
proof (cases rule: promote_cases)
  case (1 j k)
  have "j_id j = i" using job_store.get_member [OF 1(1)] by simp
  with 1 show ?thesis
    by (intro flush_job_step [OF 1(4) assms(1), of j])
      (auto simp: job_frame_def job_inv_def lease_fields_clear_def lease_abandoned_def live_status_def ready_to_run_def
        intro!: status_path_step)
qed

interpretation promote_op: job_operation "promote_pending_to_ready i now" for i now
  by unfold_locales (rule promote_evolves)

lemma check_job_status [simp]: "check_job (j\<lparr>j_status := s, j_updated_at := t\<rparr>) = check_job j"
  by (simp add: check_job_def)

lemma promote_succeeds:
  assumes "jobs_ok d" and "get_job d i = Some j" and "ready_to_run j now d"
  shows "\<exists>e k. promote_pending_to_ready i now d = Inr (Some k, e) \<and> get_job e i = Some k \<and>
     (\<exists>v. k = j\<lparr>j_status := J_READY, j_updated_at := now, j_version := v\<rparr>) \<and>
     (\<forall>m. m \<noteq> i \<longrightarrow> get_job e m = get_job d m)"
proof -
  let ?k = "j\<lparr>j_status := J_READY, j_updated_at := now\<rparr>"
  have id: "j_id j = i" using job_store.get_member [OF assms(2)] by simp
  have ev: "fst (evaluate_job_readiness i now d)"
    using evaluate_ready_iff [OF assms(2)] assms(3) by simp
  have "check_job ?k = Inr ()" using jobs_ok_get [OF assms(1,2)] by (simp add: job_inv_def)
  then obtain e where e: "flush_job ?k d = Inr e"
    using flush_job_total [of d ?k j] assms(2) id by auto
  then have "promote_pending_to_ready i now d = Inr (get_job e i, e)"
    using assms(2,3) ev
    by (auto simp: promote_pending_to_ready_def require_job_transition_def ready_to_run_def
        split: prod.split)
  with flush_job_get [OF e] id show ?thesis by auto
qed

lemma promote_refused:
  assumes "get_job d i = Some j" and "\<not> ready_to_run j now d"
  shows "\<exists>r. promote_pending_to_ready i now d = Inl (DependencyResolutionError r) \<or>
     promote_pending_to_ready i now d = Inl (classify_reason r)"
proof -
  have "\<not> fst (evaluate_job_readiness i now d)" using evaluate_ready_iff [OF assms(1)] assms(2) by simp
  then show ?thesis using assms(1)
    by (cases "j_status j = J_PENDING") (auto simp: promote_pending_to_ready_def case_prod_unfold)
qed

subsection \<open>Classification of a refused promotion\<close>

lemma contains_str_chars: "contains_str n h \<Longrightarrow> set n \<subseteq> set h"
  by (auto simp: contains_str_iff)

lemma lower_datetime: "set (lower_str (str_datetime t)) \<subseteq> datetime_chars '' ''"
proof -
  have "lower_char c = c" if "c \<in> datetime_chars '' ''" for c
    using that by (auto simp: datetime_chars_def decimal_chars_def lower_char_def)
  then have "lower_char ` set (str_datetime t) = set (str_datetime t)"
    using datetime_text_chars [of "'' ''" t] by (force simp: subset_iff image_iff)
  then show ?thesis using datetime_text_chars [of "'' ''" t] by (simp add: lower_str_def)
qed

lemma lower_str_append: "lower_str (a @ b) = lower_str a @ lower_str b"
  by (simp add: lower_str_def)

lemma not_due_reason:
  "classify_reason (''Job scheduled for '' @ str_datetime a @ '', now is '' @ str_datetime b) =
   DependencyResolutionError (''Job scheduled for '' @ str_datetime a @ '', now is '' @ str_datetime b)"
    (is "classify_reason ?r = _")
proof -
  have "set (lower_str ?r) \<subseteq> datetime_chars '' '' \<union> set (lower_str ''Job scheduled for , now is '')"
    using lower_datetime [of a] lower_datetime [of b] unfolding lower_str_append
    by (auto simp: lower_str_def)
  moreover have "CHR ''p'' \<notin> datetime_chars '' '' \<union> set (lower_str ''Job scheduled for , now is '')"
    "CHR ''k'' \<notin> datetime_chars '' '' \<union> set (lower_str ''Job scheduled for , now is '')"
    by code_simp+
  ultimately have "CHR ''p'' \<notin> set (lower_str ?r)" "CHR ''k'' \<notin> set (lower_str ?r)" by blast+
  then have "\<not> contains_str ''dependencies'' (lower_str ?r)"
    "\<not> contains_str ''workflow'' (lower_str ?r)" "\<not> contains_str ''idempotency'' (lower_str ?r)"
    using contains_str_chars by fastforce+
  then show ?thesis by (simp add: classify_reason_def)
qed

lemma literal_reasons:
  "classify_reason ''Dependencies not satisfied'' = DependencyNotSatisfiedError ''Dependencies not satisfied''"
  "classify_reason ''Workflow is no longer active'' = WorkflowInactiveError ''Workflow is no longer active''"
  "classify_reason ''Product lifecycle is terminal (REJECTED or DEACTIVATED)'' =
     DependencyResolutionError ''Product lifecycle is terminal (REJECTED or DEACTIVATED)''"
  by code_simp+

lemma collision_reason:
  assumes "\<not> contains_str ''dependencies'' (lower_str (''Idempotency key '' @ key @ '' already reserved''))"
    and "\<not> contains_str ''workflow'' (lower_str (''Idempotency key '' @ key @ '' already reserved''))"
  shows "classify_reason (''Idempotency key '' @ key @ '' already reserved'') =
     IdempotencyCollisionError (''Idempotency key '' @ key @ '' already reserved'')"
proof -
  have "lower_str ''Idempotency key '' = ''idempotency key ''" by code_simp
  then have "lower_str (''Idempotency key '' @ r) = ''idempotency key '' @ lower_str r" for r
    by (simp only: lower_str_append)
  then have "contains_str ''idempotency'' (lower_str (''Idempotency key '' @ key @ '' already reserved''))"
    unfolding contains_str_iff
    by (intro exI [of _ "[]"] exI [of _ "'' key '' @ lower_str (key @ '' already reserved'')"]) simp
  with assms show ?thesis by (simp add: classify_reason_def)
qed

subsection \<open>Properties\<close>

text \<open>
  A pending job is promoted exactly when it is due, every predecessor has succeeded and is
  recorded as satisfied, its workflow is running, its product is not in a terminal state, and
  no other job holds its idempotency key; the promotion changes its status to \<open>READY\<close> and no
  other row.
\<close>

theorem promotion_iff_ready:
  assumes "jobs_ok d"
  shows "case promote_pending_to_ready i now d of
       Inr (res, e) \<Rightarrow> (\<exists>j. get_job d i = Some j \<and> ready_to_run j now d) \<and> jobs_ok e \<and>
         (\<exists>k. res = Some k \<and> get_job e i = Some k \<and> j_status k = J_READY) \<and>
         (\<forall>m. m \<noteq> i \<longrightarrow> get_job e m = get_job d m)
     | Inl _ \<Rightarrow> \<not> (\<exists>j. get_job d i = Some j \<and> ready_to_run j now d)"
proof (cases "promote_pending_to_ready i now d")
  case (Inl err)
  then show ?thesis using promote_succeeds [OF assms, of i _ now] by fastforce
next
  case (Inr p)
  obtain res e where r: "promote_pending_to_ready i now d = Inr (res, e)" using Inr by (cases p) auto
  then obtain j where j: "get_job d i = Some j" "ready_to_run j now d" by (blast elim: promote_cases)
  from promote_succeeds [OF assms j] r promote_op.keeps_jobs_ok [OF assms r] j
  show ?thesis by auto
qed

theorem promotion_iff_ready_witness:
  "\<exists>k e. promote_pending_to_ready 2 5 (example_db [example_job 2 ''k'' J_PENDING]) = Inr (Some k, e) \<and>
     j_status k = J_READY"
proof -
  let ?d = "example_db [example_job 2 ''k'' J_PENDING]"
  have ok: "jobs_ok ?d" by (simp add: example_defs example_inv_defs)
  have "\<exists>j. get_job ?d 2 = Some j \<and> ready_to_run j 5 ?d"
    by (simp add: example_defs get_job_def get_workflow_def ready_to_run_def)
  then show ?thesis using promotion_iff_ready [OF ok, of 2 5]
    by (auto split: sum.splits)
qed

text \<open>
  A refused promotion raises the error of the first condition that fails, and changes
  nothing: \<open>DependencyNotSatisfiedError\<close> for a predecessor, \<open>WorkflowInactiveError\<close> for a finished
  or missing workflow, \<open>DependencyResolutionError\<close> for a job that is not due or whose product is
  in a terminal state, and \<open>IdempotencyCollisionError\<close> for a key held by another job, the last
  only when the text of the key mentions neither of the words that the classification
  searches for first.
\<close>

theorem refused_promotion_error:
  assumes "get_job d i = Some j" and "j_status j = J_PENDING" and "\<not> ready_to_run j now d"
  shows "\<exists>err. promote_pending_to_ready i now d = Inl err \<and>
     (if now < j_scheduled_at j then \<exists>r. err = DependencyResolutionError r
      else if \<not> check_dependencies_satisfied i d then \<exists>r. err = DependencyNotSatisfiedError r
      else if \<not> check_workflow_active (j_workflow_id j) d then \<exists>r. err = WorkflowInactiveError r
      else if \<not> check_product_lifecycle_valid (j_workflow_id j) d
        then \<exists>r. err = DependencyResolutionError r
      else check_idempotency_collision i (j_idempotency_key j) d \<and>
        (let r = ''Idempotency key '' @ j_idempotency_key j @ '' already reserved'' in
         \<not> contains_str ''dependencies'' (lower_str r) \<longrightarrow> \<not> contains_str ''workflow'' (lower_str r) \<longrightarrow>
         err = IdempotencyCollisionError r))"
proof -
  obtain b r where ev: "evaluate_job_readiness i now d = (b, r)" by fastforce
  have nb: "\<not> b" using evaluate_ready_iff [OF assms(1), of now] assms(3) ev by simp
  have p: "promote_pending_to_ready i now d = Inl (classify_reason r)"
    using assms(1,2) ev nb by (simp add: promote_pending_to_ready_def)
  from ev nb assms(1,2) show ?thesis
    unfolding p evaluate_job_readiness_def Let_def
    using not_due_reason [of "j_scheduled_at j" now] literal_reasons
      collision_reason [of "j_idempotency_key j"]
    by (auto split: if_splits)
qed

theorem refused_promotion_error_witness:
  "\<exists>err r. promote_pending_to_ready 2 5
       ((example_db [example_job 2 ''k'' J_PENDING])\<lparr>workflow_runs := []\<rparr>) = Inl err \<and>
     err = WorkflowInactiveError r"
proof -
  let ?d = "(example_db [example_job 2 ''k'' J_PENDING])\<lparr>workflow_runs := []\<rparr>"
  have h: "get_job ?d 2 = Some (example_job 2 ''k'' J_PENDING)"
    "j_status (example_job 2 ''k'' J_PENDING) = J_PENDING"
    "\<not> ready_to_run (example_job 2 ''k'' J_PENDING) 5 ?d"
    by (simp_all add: example_defs get_job_def get_workflow_def ready_to_run_def)
  have "check_dependencies_satisfied 2 ?d" "\<not> check_workflow_active 7 ?d"
    by (simp_all add: example_defs check_dependencies_satisfied_def check_workflow_active_def
        get_workflow_def)
  then show ?thesis
    using refused_promotion_error [OF h] by (auto simp: example_job_def)
qed

subsection \<open>Outcome of a predecessor\<close>

lemma propagate_fold_eq:
  "foldE (\<lambda>job e. bindE (require_job_transition J_PENDING J_BLOCKED) (\<lambda>_.
      flush_job (job\<lparr>j_status := J_BLOCKED, j_updated_at := now\<rparr>) e)) xs d =
   foldE (\<lambda>job. flush_job (job\<lparr>j_status := J_BLOCKED, j_updated_at := now\<rparr>)) xs d"
  by (simp add: require_job_transition_def)

lemma dependents_distinct: "jobs_ok d \<Longrightarrow> distinct (map j_id (dependents i d))"
  by (simp add: dependents_def jobs_ok_def job_keys_unique_def distinct_map_filter)

lemma propagate_evolves:
  assumes "jobs_ok d" and "propagate_dependency_failure i now d = Inr (ids, e)"
  shows "db_evolves d e"
proof -
  have "foldE (\<lambda>job. flush_job (job\<lparr>j_status := J_BLOCKED, j_updated_at := now\<rparr>)) (dependents i d) d =
      Inr e"
    using assms(2)
    by (auto simp: propagate_dependency_failure_def propagate_fold_eq bindE_eq_Inr Let_def)
  then show ?thesis
  proof (rule flush_rows_evolve [OF _ assms(1) dependents_distinct [OF assms(1)]])
    show "set (dependents i d) \<subseteq> set (jobs d)" by (auto simp: dependents_def)
    show "job_evolves j (j\<lparr>j_status := J_BLOCKED, j_updated_at := now\<rparr>)"
      if "j \<in> set (dependents i d)" for j
      using that by (auto simp: dependents_def job_evolves_def job_frame_def job_inv_def
          lease_fields_clear_def lease_abandoned_def live_status_def intro!: status_path_step)
  qed
qed

interpretation propagate_op: job_operation "propagate_dependency_failure i now" for i now
  by unfold_locales (rule propagate_evolves)

lemma propagate_behaviour:
  assumes "jobs_ok d"
  shows "\<exists>e. propagate_dependency_failure i now d = Inr (map j_id (dependents i d), e) \<and>
     (\<forall>j \<in> set (dependents i d). \<exists>k. get_job e (j_id j) = Some k \<and> j_status k = J_BLOCKED) \<and>
     (\<forall>m. m \<notin> j_id ` set (dependents i d) \<longrightarrow> get_job e m = get_job d m)"
proof -
  have "get_job d (j_id j) = Some j \<and> check_job j = Inr ()" if "j \<in> set (dependents i d)" for j
    using that jobs_ok_member_get [OF assms, of j] jobs_ok_get [OF assms, of "j_id j" j]
    by (auto simp: dependents_def job_inv_def)
  then show ?thesis
    using foldE_flush_jobs [OF dependents_distinct [OF assms], of i d
        "\<lambda>j. j\<lparr>j_status := J_BLOCKED, j_updated_at := now\<rparr>"]
    by (fastforce simp: propagate_dependency_failure_def propagate_fold_eq Let_def)
qed

text \<open>
  When a job fails for good, the propagation blocks exactly the pending jobs that depend on
  it, reports their ids and leaves every other job alone; no later promotion can run a blocked
  job. The propagation never raises.
\<close>

theorem failure_blocks_dependents:
  assumes "jobs_ok d"
  shows "\<exists>ids e. propagate_dependency_failure i now d = Inr (ids, e) \<and> jobs_ok e \<and>
     set ids = {j_id j | j. j \<in> set (jobs d) \<and> j_status j = J_PENDING \<and>
       (\<exists>p \<in> set (job_dependencies d). d_job_id p = j_id j \<and> d_depends_on_job_id p = i)} \<and>
     (\<forall>m. if m \<in> set ids
          then (\<exists>k. get_job e m = Some k \<and> j_status k = J_BLOCKED) \<and>
            (\<forall>t r f. promote_pending_to_ready m t e \<noteq> Inr (r, f))
          else get_job e m = get_job d m)"
proof -
  from propagate_behaviour [OF assms, of i now] obtain e where
    e: "propagate_dependency_failure i now d = Inr (map j_id (dependents i d), e)"
    "\<forall>j \<in> set (dependents i d). \<exists>k. get_job e (j_id j) = Some k \<and> j_status k = J_BLOCKED"
    "\<forall>m. m \<notin> j_id ` set (dependents i d) \<longrightarrow> get_job e m = get_job d m" by blast
  have ids: "set (map j_id (dependents i d)) = {j_id j | j. j \<in> set (jobs d) \<and> j_status j = J_PENDING \<and>
       (\<exists>p \<in> set (job_dependencies d). d_job_id p = j_id j \<and> d_depends_on_job_id p = i)}"
    by (auto simp: dependents_def list_ex_iff)
  have stuck: "promote_pending_to_ready m t e \<noteq> Inr (r, f)"
    if "get_job e m = Some k" "j_status k = J_BLOCKED" for m k t r f
    using that by (auto elim: promote_cases simp: ready_to_run_def)
  have "if m \<in> set (map j_id (dependents i d))
          then (\<exists>k. get_job e m = Some k \<and> j_status k = J_BLOCKED) \<and>
            (\<forall>t r f. promote_pending_to_ready m t e \<noteq> Inr (r, f))
          else get_job e m = get_job d m" for m
    using e(2,3) stuck by (cases "m \<in> set (map j_id (dependents i d))") auto
  with e(1) ids propagate_op.keeps_jobs_ok [OF assms e(1)] show ?thesis by blast
qed

theorem failure_blocks_dependents_witness:
  "\<exists>ids e. propagate_dependency_failure 2 5
       ((example_db [example_job 2 ''k'' J_TERMINAL_FAILURE, example_job 3 ''l'' J_PENDING])
        \<lparr>job_dependencies := [\<lparr>d_id = 4, d_job_id = 3, d_depends_on_job_id = 2, d_satisfied_at = None\<rparr>]\<rparr>)
       = Inr (ids, e) \<and> set ids = {3}"
proof -
  let ?d = "(example_db [example_job 2 ''k'' J_TERMINAL_FAILURE, example_job 3 ''l'' J_PENDING])
        \<lparr>job_dependencies := [\<lparr>d_id = 4, d_job_id = 3, d_depends_on_job_id = 2, d_satisfied_at = None\<rparr>]\<rparr>"
  have ok: "jobs_ok ?d" by (simp add: example_defs example_inv_defs)
  have "{j_id j | j. j \<in> set (jobs ?d) \<and> j_status j = J_PENDING \<and>
       (\<exists>p \<in> set (job_dependencies ?d). d_job_id p = j_id j \<and> d_depends_on_job_id p = 2)} = {3}"
    by (auto simp: example_defs intro!: exI [of _ "example_job 3 ''l'' J_PENDING"])
  then show ?thesis using failure_blocks_dependents [OF ok, of 2 5] by fastforce
qed

text \<open>
  Once a job has succeeded and its success is recorded, none of its edges holds a dependent
  back: a job all of whose predecessors are this job has its dependencies satisfied. Recording
  it again changes nothing and reports zero.
\<close>

theorem success_satisfies_dependents:
  assumes "get_job d i = Some j" and "j_status j = J_SUCCEEDED"
    and "\<forall>p \<in> set (job_dependencies d). d_job_id p = m \<longrightarrow> d_depends_on_job_id p = i"
  shows "\<exists>n e. satisfy_dependency i now d = Inr (n, e) \<and> jobs e = jobs d \<and>
     check_dependencies_satisfied m e \<and> satisfy_dependency i later e = Inr (0, e)"
proof -
  let ?f = "\<lambda>p. if satisfies i p then p\<lparr>d_satisfied_at := Some now\<rparr> else p"
  let ?e = "d\<lparr>job_dependencies := map ?f (job_dependencies d)\<rparr>"
  have "satisfies i \<circ> ?f = (\<lambda>_. False)" by (rule ext) (simp add: satisfies_def)
  then have fil: "filter (satisfies i) (map ?f (job_dependencies d)) = []"
    by (simp add: filter_map)
  have twice: "map (\<lambda>p. if satisfies i p then p\<lparr>d_satisfied_at := Some later\<rparr> else p)
      (map ?f (job_dependencies d)) = map ?f (job_dependencies d)"
    by (auto simp: satisfies_def)
  have get: "get_job ?e k = get_job d k" for k by (simp add: get_job_def)
  have "\<not> unsatisfied ?e (?f p)" if "p \<in> set (job_dependencies d)" "d_job_id p = m" for p
    using assms that get by (auto simp: unsatisfied_def satisfies_def)
  moreover have "d_job_id (?f p) = d_job_id p" for p by simp
  ultimately have "\<forall>q \<in> ?f ` set (job_dependencies d). \<not> (d_job_id q = m \<and> unsatisfied ?e q)"
    by (metis (no_types, lifting) imageE)
  then have "check_dependencies_satisfied m ?e"
    unfolding check_dependencies_satisfied_def list_ex_iff by simp
  with fil twice show ?thesis by (simp add: satisfy_dependency_def)
qed

theorem success_satisfies_dependents_witness:
  "\<exists>n e. satisfy_dependency 2 5
       ((example_db [example_job 2 ''k'' J_SUCCEEDED, example_job 3 ''l'' J_PENDING])
        \<lparr>job_dependencies := [\<lparr>d_id = 4, d_job_id = 3, d_depends_on_job_id = 2, d_satisfied_at = None\<rparr>]\<rparr>)
       = Inr (n, e) \<and> check_dependencies_satisfied 3 e"
proof -
  let ?d = "(example_db [example_job 2 ''k'' J_SUCCEEDED, example_job 3 ''l'' J_PENDING])
        \<lparr>job_dependencies := [\<lparr>d_id = 4, d_job_id = 3, d_depends_on_job_id = 2, d_satisfied_at = None\<rparr>]\<rparr>"
  have "get_job ?d 2 = Some (example_job 2 ''k'' J_SUCCEEDED)"
    "j_status (example_job 2 ''k'' J_SUCCEEDED) = J_SUCCEEDED"
    "\<forall>p \<in> set (job_dependencies ?d). d_job_id p = 3 \<longrightarrow> d_depends_on_job_id p = 2"
    by (simp_all add: example_defs get_job_def)
  from success_satisfies_dependents [OF this, of 5 6] show ?thesis by blast
qed

end
