(* ===== verification/Scheduler.thy ===== *)
theory Scheduler
  imports Leases Dependencies
begin

section \<open>Scheduler\<close>

text \<open>
  \<^verbatim>\<open>orchestration/scheduler.py\<close>: promotion of due jobs, detection of stalled jobs with their
  \<open>JOB_STALLED\<close> events, the durable maturity and weekly timers, and the scheduler cycle that
  composes reclaim, stall detection and promotion in one transaction. The \<^verbatim>\<open>uuid4\<close> drawn for the
  event of a stalled job is \<open>event_id\<close> of the job's id.
\<close>

definition DEFAULT_STALL_THRESHOLD :: duration where
  "DEFAULT_STALL_THRESHOLD = 300000000"

subsection \<open>Promotion of due jobs\<close>

definition is_dependency_resolution_error :: "error \<Rightarrow> bool" where
  "is_dependency_resolution_error err = (case err of
     DependencyResolutionError _ \<Rightarrow> True | DependencyNotSatisfiedError _ \<Rightarrow> True
   | WorkflowInactiveError _ \<Rightarrow> True | IdempotencyCollisionError _ \<Rightarrow> True | _ \<Rightarrow> False)"

definition due_candidates :: "time \<Rightarrow> nat \<Rightarrow> db \<Rightarrow> job list" where
  "due_candidates now limit d = take limit (sort_key j_scheduled_at
     (filter (\<lambda>j. j_status j = J_PENDING \<and> j_scheduled_at j \<le> now) (jobs d)))"

fun promote_each :: "time \<Rightarrow> job list \<Rightarrow> db \<Rightarrow> error + (job list \<times> db)" where
  "promote_each now [] d = Inr ([], d)"
| "promote_each now (job # pending) d =
     (case promote_pending_to_ready (j_id job) now d of
        Inr (promoted_job, e) \<Rightarrow>
          bindE (promote_each now pending e) (\<lambda>(promoted, f).
            Inr ((case promoted_job of None \<Rightarrow> promoted | Some k \<Rightarrow> k # promoted), f))
      | Inl err \<Rightarrow>
          if is_dependency_resolution_error err then promote_each now pending d else Inl err)"

definition promote_due_jobs :: "time \<Rightarrow> nat \<Rightarrow> db \<Rightarrow> error + (job list \<times> db)" where
  "promote_due_jobs now limit d = promote_each now (due_candidates now limit d) d"

subsection \<open>Stalled jobs\<close>

definition stalled :: "time \<Rightarrow> duration \<Rightarrow> job \<Rightarrow> bool" where
  "stalled now stall_threshold j \<longleftrightarrow> j_status j = J_RUNNING \<and>
     (case j_heartbeat_at j of None \<Rightarrow> False | Some h \<Rightarrow> h < now - stall_threshold) \<and>
     (case j_lease_expires_at j of None \<Rightarrow> False | Some t \<Rightarrow> now < t)"

definition stalled_candidates ::
    "(uuid \<Rightarrow> bool) \<Rightarrow> time \<Rightarrow> duration \<Rightarrow> nat \<Rightarrow> db \<Rightarrow> job list" where
  "stalled_candidates locked now stall_threshold limit d =
     take limit (sort_key (\<lambda>j. the (j_heartbeat_at j))
       (filter (\<lambda>j. stalled now stall_threshold j \<and> \<not> locked (j_id j)) (jobs d)))"

text \<open>\<^verbatim>\<open>int(timedelta.total_seconds())\<close> truncates towards zero.\<close>

definition whole_seconds :: "duration \<Rightarrow> int" where
  "whole_seconds t = (if t < 0 then - (- t div 1000000) else t div 1000000)"

definition stall_dedupe_key :: "uuid \<Rightarrow> time \<Rightarrow> string" where
  "stall_dedupe_key job_id now = ''job_stalled:'' @ str_uuid job_id @ '':'' @ isoformat now"

definition stall_event :: "uuid \<Rightarrow> time \<Rightarrow> duration \<Rightarrow> job \<Rightarrow> time \<Rightarrow> event" where
  "stall_event fresh now stall_threshold job recorded_at = \<lparr>e_id = fresh,
     e_event_name = EV_JOB_STALLED, e_aggregate_type = ''Job'', e_aggregate_id = j_id job,
     e_workflow_id = Some (j_workflow_id job), e_job_id = Some (j_id job), e_agent_run_id = None,
     e_payload = JObj [(''job_type'', JStr (j_job_type job)),
       (''stall_threshold_seconds'', JInt (whole_seconds stall_threshold)),
       (''last_heartbeat_at'', (case j_heartbeat_at job of None \<Rightarrow> JNull | Some h \<Rightarrow> JStr (isoformat h)))],
     e_dedupe_key = stall_dedupe_key (j_id job) now, e_occurred_at = now,
     e_recorded_at = recorded_at\<rparr>"

definition stall_row :: "time \<Rightarrow> job \<Rightarrow> job" where
  "stall_row now job = job\<lparr>j_status := J_FAILED, j_attempt := j_attempt job + 1,
     j_lease_owner := None, j_lease_expires_at := None, j_heartbeat_at := None,
     j_updated_at := now\<rparr>"

definition stall_job :: "(uuid \<Rightarrow> uuid) \<Rightarrow> time \<Rightarrow> duration \<Rightarrow> job \<Rightarrow> db \<Rightarrow> error + db" where
  "stall_job event_id now stall_threshold job d =
     bindE (require_job_transition J_RUNNING J_FAILED) (\<lambda>_.
     bindE (flush_job (stall_row now job) d) (\<lambda>e.
       insert_event (stall_event (event_id (j_id job)) now stall_threshold job (server_now d)) e))"

definition detect_stalled_jobs ::
    "(uuid \<Rightarrow> bool) \<Rightarrow> (uuid \<Rightarrow> uuid) \<Rightarrow> time \<Rightarrow> duration \<Rightarrow> nat \<Rightarrow> db \<Rightarrow> error + (job list \<times> db)" where
  "detect_stalled_jobs locked event_id now stall_threshold limit d =
     (let stalled_jobs = stalled_candidates locked now stall_threshold limit d in
      bindE (foldE (stall_job event_id now stall_threshold) stalled_jobs d) (\<lambda>e.
      Inr (List.map_filter (\<lambda>j. get_job e (j_id j)) stalled_jobs, e)))"

subsection \<open>Durable timers\<close>

definition schedule_maturity_timer ::
    "uuid \<Rightarrow> uuid \<Rightarrow> time \<Rightarrow> time \<Rightarrow> db \<Rightarrow> error + (job option \<times> db)" where
  "schedule_maturity_timer fresh workflow_id maturity_date now d =
     bindE (requireE (get_workflow d workflow_id) (ValueError ''Workflow not found'')) (\<lambda>workflow.
     if w_completed_at workflow \<noteq> None then Inr (None, d)
     else let job = \<lparr>j_id = fresh, j_version = 1, j_workflow_id = workflow_id,
         j_job_type = ''maturity_check'', j_object_type = ''workflow_runs'', j_object_id = workflow_id,
         j_owner_agent_id = ''A01'', j_status = J_PENDING, j_input = JObj [],
         j_success_contract = JObj [], j_scheduled_at = maturity_date, j_attempt = 0,
         j_max_attempts = 3, j_idempotency_key = ''MATURITY_CHECK:'' @ str_uuid workflow_id,
         j_side_effect_class = NONE, j_retry_class = SAFE, j_allowed_mode = SIMULATION,
         j_lease_owner = None, j_lease_expires_at = None, j_heartbeat_at = None,
         j_created_at = now, j_updated_at = now\<rparr>
       in bindE (insert_job job d) (\<lambda>e. Inr (Some job, e)))"

definition schedule_weekly_timer ::
    "uuid \<Rightarrow> uuid \<Rightarrow> string \<Rightarrow> time \<Rightarrow> string \<Rightarrow> time \<Rightarrow> db \<Rightarrow> error + (unit \<times> db)" where
  "schedule_weekly_timer fresh shop_id trigger_key next_fire_at cron_expression now d =
     (case find (\<lambda>t. t_trigger_key t = trigger_key) (scheduled_triggers d) of
        Some existing \<Rightarrow> Inr ((), d\<lparr>scheduled_triggers := map (\<lambda>t. if t_id t = t_id existing
            then t\<lparr>t_next_fire_at := next_fire_at\<rparr> else t) (scheduled_triggers d)\<rparr>)
      | None \<Rightarrow> bindE (insert_scheduled_trigger \<lparr>t_id = fresh, t_shop_id = shop_id,
            t_trigger_kind = ''WEEKLY_REVIEW'', t_trigger_key = trigger_key,
            t_cron_expression = cron_expression, t_next_fire_at = next_fire_at,
            t_last_fired_at = None, t_active = True, t_created_at = now\<rparr> d) (\<lambda>e. Inr ((), e)))"

subsection \<open>The cycle\<close>

record cycle_counts =
  promoted_count :: nat
  reclaimed_count :: nat
  stalled_count :: nat

definition run_scheduler_cycle ::
    "(uuid \<Rightarrow> bool) \<Rightarrow> (uuid \<Rightarrow> uuid) \<Rightarrow> time \<Rightarrow> nat \<Rightarrow> nat \<Rightarrow> nat \<Rightarrow> db \<Rightarrow> error + (cycle_counts \<times> db)" where
  "run_scheduler_cycle locked event_id now promote_limit reclaim_limit stall_limit d =
     bindE (reclaim_expired_leases locked now reclaim_limit d) (\<lambda>(reclaimed, d).
     bindE (detect_stalled_jobs locked event_id now DEFAULT_STALL_THRESHOLD stall_limit d)
       (\<lambda>(stalled, d).
     bindE (promote_due_jobs now promote_limit d) (\<lambda>(promoted, d).
     Inr (\<lparr>promoted_count = length promoted, reclaimed_count = length reclaimed,
           stalled_count = length stalled\<rparr>, d))))"

subsection \<open>Promotion leaves the readiness of other jobs alone\<close>

definition same_readiness :: "db \<Rightarrow> db \<Rightarrow> bool" where
  "same_readiness d e \<longleftrightarrow> job_dependencies e = job_dependencies d \<and> workflow_runs e = workflow_runs d \<and>
     idempotency_records e = idempotency_records d \<and>
     (\<forall>i. map_option (\<lambda>k. j_status k = J_SUCCEEDED) (get_job e i) =
        map_option (\<lambda>k. j_status k = J_SUCCEEDED) (get_job d i))"

lemma same_readiness_refl [simp]: "same_readiness d d"
  by (simp add: same_readiness_def)

lemma same_readiness_trans: "same_readiness a b \<Longrightarrow> same_readiness b c \<Longrightarrow> same_readiness a c"
  by (simp add: same_readiness_def)

lemma unsatisfied_eq:
  "unsatisfied d p \<longleftrightarrow> d_satisfied_at p = None \<or>
     map_option (\<lambda>k. j_status k = J_SUCCEEDED) (get_job d (d_depends_on_job_id p)) = Some False"
  by (auto simp: unsatisfied_def split: option.splits)

lemma same_readiness_ready:
  assumes "same_readiness d e"
  shows "ready_to_run j now e \<longleftrightarrow> ready_to_run j now d"
  using assms by (simp add: ready_to_run_def unsatisfied_eq same_readiness_def get_workflow_def)

lemma promote_same_readiness:
  assumes "promote_pending_to_ready i now d = Inr (res, e)"
  shows "same_readiness d e"
  using assms
proof (cases rule: promote_cases)
  case (1 j k)
  obtain js where js: "e = d\<lparr>jobs := js\<rparr>" using flush_job_tables [OF 1(4)] by blast
  have id: "j_id k = i" using job_store.get_member [OF 1(1)] 1(3) by simp
  from flush_job_get [OF 1(4)] obtain v where
    v: "get_job e i = Some (k\<lparr>j_version := v\<rparr>)" "\<And>m. m \<noteq> i \<Longrightarrow> get_job e m = get_job d m"
    unfolding id by blast
  have "map_option (\<lambda>k. j_status k = J_SUCCEEDED) (get_job e m) =
      map_option (\<lambda>k. j_status k = J_SUCCEEDED) (get_job d m)" for m
    using v 1(1,2,3) by (cases "m = i") (auto simp: ready_to_run_def)
  with js show ?thesis by (simp add: same_readiness_def)
qed

lemma classified_is_dependency_error:
  "is_dependency_resolution_error (classify_reason r)"
  "is_dependency_resolution_error (DependencyResolutionError r)"
  by (simp_all add: classify_reason_def is_dependency_resolution_error_def)

definition promoted_exactly :: "time \<Rightarrow> job list \<Rightarrow> db \<Rightarrow> job list \<Rightarrow> db \<Rightarrow> bool" where
  "promoted_exactly now xs d rs e \<longleftrightarrow> jobs_ok e \<and> same_readiness d e \<and>
     (\<forall>x \<in> set xs. if ready_to_run x now d
        then \<exists>v. get_job e (j_id x) = Some (x\<lparr>j_status := J_READY, j_updated_at := now, j_version := v\<rparr>)
        else get_job e (j_id x) = Some x) \<and>
     (\<forall>i. i \<notin> j_id ` set xs \<longrightarrow> get_job e i = get_job d i) \<and>
     map j_id rs = map j_id (filter (\<lambda>x. ready_to_run x now d) xs)"

lemma promote_each_correct:
  assumes "jobs_ok d" and "distinct (map j_id xs)"
    and "\<And>x. x \<in> set xs \<Longrightarrow> get_job d (j_id x) = Some x"
  shows "\<exists>rs e. promote_each now xs d = Inr (rs, e) \<and> promoted_exactly now xs d rs e"
  using assms
proof (induction xs arbitrary: d)
  case Nil
  then show ?case by (simp add: promoted_exactly_def)
next
  case (Cons x xs)
  have x: "get_job d (j_id x) = Some x" using Cons.prems(3) by simp
  show ?case
  proof (cases "ready_to_run x now d")
    case False
    from promote_refused [OF x False] obtain err where
      "promote_pending_to_ready (j_id x) now d = Inl err" "is_dependency_resolution_error err"
      using classified_is_dependency_error by blast
    then have run: "promote_each now (x # xs) d = promote_each now xs d" by simp
    have "\<exists>rs e. promote_each now xs d = Inr (rs, e) \<and> promoted_exactly now xs d rs e"
      using Cons.prems by (intro Cons.IH) auto
    then show ?thesis
      unfolding run promoted_exactly_def using False x Cons.prems(2) by fastforce
  next
    case True
    from promote_succeeds [OF Cons.prems(1) x True] obtain d' k where
      p: "promote_pending_to_ready (j_id x) now d = Inr (Some k, d')" "get_job d' (j_id x) = Some k"
        "\<exists>v. k = x\<lparr>j_status := J_READY, j_updated_at := now, j_version := v\<rparr>" "\<forall>m. m \<noteq> j_id x \<longrightarrow> get_job d' m = get_job d m" by blast
    have ok: "jobs_ok d'" by (rule promote_op.keeps_jobs_ok [OF Cons.prems(1) p(1)])
    have same: "same_readiness d d'" by (rule promote_same_readiness [OF p(1)])
    have "j_id y \<noteq> j_id x" if "y \<in> set xs" for y
      using that Cons.prems(2) by (auto simp: image_iff)
    then have "\<exists>rs e. promote_each now xs d' = Inr (rs, e) \<and> promoted_exactly now xs d' rs e"
      using Cons.prems p(4) ok by (intro Cons.IH) auto
    then obtain rs e where e: "promote_each now xs d' = Inr (rs, e)" "promoted_exactly now xs d' rs e"
      by blast
    note ex = e(2) [unfolded promoted_exactly_def same_readiness_ready [OF same]]
    have "promote_each now (x # xs) d = Inr (k # rs, e)" using p(1) e(1) by simp
    moreover have "j_id k = j_id x" using p(2) job_store.get_member by blast
    moreover have "get_job e (j_id x) = Some k" using ex p(2) Cons.prems(2) by simp
    moreover have "same_readiness d e" using same ex same_readiness_trans by blast
    ultimately show ?thesis unfolding promoted_exactly_def using ex True p(3,4) by auto
  qed
qed

lemma promote_each_evolves:
  "jobs_ok d \<Longrightarrow> promote_each now xs d = Inr (rs, e) \<Longrightarrow> db_evolves d e"
proof (induction xs arbitrary: d rs)
  case Nil
  then show ?case by simp
next
  case (Cons x xs)
  show ?case
  proof (cases "promote_pending_to_ready (j_id x) now d")
    case (Inl err)
    with Cons show ?thesis by (auto split: if_splits)
  next
    case (Inr p)
    obtain r d' where p: "p = (r, d')" by fastforce
    with Inr Cons.prems(2) obtain ps where ps: "promote_each now xs d' = Inr (ps, e)"
      by (auto simp: bindE_eq_Inr)
    note r = Inr [unfolded p]
    have "db_evolves d d'" by (rule promote_op.evolves [OF Cons.prems(1) r])
    moreover have "db_evolves d' e"
      by (rule Cons.IH [OF promote_op.keeps_jobs_ok [OF Cons.prems(1) r] ps])
    ultimately show ?thesis by (rule db_evolves_trans)
  qed
qed

interpretation promote_due_op: job_operation "promote_due_jobs now limit" for now limit
  by unfold_locales (simp add: promote_due_jobs_def promote_each_evolves)

lemma due_candidates_mem:
  "j \<in> set (due_candidates now limit d) \<Longrightarrow>
     j \<in> set (jobs d) \<and> j_status j = J_PENDING \<and> j_scheduled_at j \<le> now"
  by (auto simp: due_candidates_def dest!: in_set_takeD)

lemma sorted_take_distinct:
  fixes f :: "job \<Rightarrow> int"
  assumes "distinct (map j_id xs)"
  shows "distinct (map j_id (take n (sort_key f (filter P xs))))"
proof -
  have "distinct (map j_id (filter P xs))" using assms by (simp add: distinct_map_filter)
  then have "distinct (map j_id (sort_key f (filter P xs)))" by (simp add: distinct_map)
  then show ?thesis by (simp only: take_map [symmetric] distinct_take)
qed

lemma jobs_ok_distinct: "jobs_ok d \<Longrightarrow> distinct (map j_id (jobs d))"
  by (simp add: jobs_ok_def job_keys_unique_def)

lemma promote_due_behaviour:
  assumes "jobs_ok d"
  shows "\<exists>rs e. promote_due_jobs now limit d = Inr (rs, e) \<and>
     promoted_exactly now (due_candidates now limit d) d rs e"
  unfolding promote_due_jobs_def
proof (rule promote_each_correct [OF assms])
  show "distinct (map j_id (due_candidates now limit d))"
    unfolding due_candidates_def by (rule sorted_take_distinct [OF jobs_ok_distinct [OF assms]])
  show "get_job d (j_id x) = Some x" if "x \<in> set (due_candidates now limit d)" for x
    using jobs_ok_member_get [OF assms] due_candidates_mem [OF that] by blast
qed

subsection \<open>Stall detection\<close>

lemma stall_row_evolves:
  assumes "job_inv j" and "j_status j = J_RUNNING"
  shows "check_job (stall_row now j) = Inr ()" and "job_evolves j (stall_row now j)"
proof -
  show check: "check_job (stall_row now j) = Inr ()"
    using assms by (auto simp: job_inv_def check_job_def stall_row_def live_status_def fits_opt_def
        bindE_eq_Inr)
  then have "job_inv (stall_row now j)"
    by (simp add: job_inv_def stall_row_def live_status_def lease_fields_clear_def)
  moreover have "status_path J_RUNNING J_FAILED" by (rule status_path_step) simp
  ultimately show "job_evolves j (stall_row now j)"
    using assms(2) by (simp add: job_evolves_def job_frame_def stall_row_def)
qed

lemma insert_event_eq: "insert_event ev d = Inr e \<Longrightarrow> e = d\<lparr>events := events d @ [ev]\<rparr>"
  by (auto simp: insert_event_def bindE_eq_Inr)

lemma stall_job_cases:
  assumes "stall_job event_id now th j d = Inr e"
  obtains d' where "flush_job (stall_row now j) d = Inr d'"
    "e = d'\<lparr>events := events d' @ [stall_event (event_id (j_id j)) now th j (server_now d)]\<rparr>"
  using assms by (auto simp: stall_job_def bindE_eq_Inr dest!: insert_event_eq)

lemma stalled_candidates_mem:
  "j \<in> set (stalled_candidates locked now th limit d) \<Longrightarrow>
     j \<in> set (jobs d) \<and> stalled now th j \<and> \<not> locked (j_id j)"
  by (auto simp: stalled_candidates_def dest!: in_set_takeD)

text \<open>What the detection does to the jobs it selected, one after the other.\<close>

lemma stall_fold:
  assumes "foldE (stall_job event_id now th) xs d = Inr e" and "jobs_ok d"
    and "distinct (map j_id xs)"
    and "\<And>x. x \<in> set xs \<Longrightarrow> get_job d (j_id x) = Some x \<and> j_status x = J_RUNNING"
  shows "db_evolves d e \<and>
     (\<forall>x \<in> set xs. \<exists>v. get_job e (j_id x) = Some ((stall_row now x)\<lparr>j_version := v\<rparr>)) \<and>
     (\<forall>i. i \<notin> j_id ` set xs \<longrightarrow> get_job e i = get_job d i) \<and>
     events e = events d @
       map (\<lambda>j. stall_event (event_id (j_id j)) now th j (server_now d)) xs"
  using assms
proof (induction xs arbitrary: d)
  case Nil
  then show ?case by simp
next
  case (Cons x xs)
  from Cons.prems(1) obtain d1 where s: "stall_job event_id now th x d = Inr d1"
    and r: "foldE (stall_job event_id now th) xs d1 = Inr e" by (auto simp: bindE_eq_Inr)
  have x: "get_job d (j_id x) = Some x" "j_status x = J_RUNNING" using Cons.prems(4) by auto
  from s show ?case
  proof (cases rule: stall_job_cases)
    case (1 d2)
    obtain js where js: "d2 = d\<lparr>jobs := js\<rparr>" using flush_job_tables [OF 1(1)] by blast
    have jobs: "get_job d1 i = get_job d2 i" for i using 1(2) by (simp add: get_job_def)
    have id: "j_id (stall_row now x) = j_id x" by (simp add: stall_row_def)
    have row: "job_evolves x (stall_row now x)"
      using stall_row_evolves(2) [OF jobs_ok_get [OF Cons.prems(2) x(1)] x(2)] .
    have "db_evolves d d2"
      using flush_job_evolves [OF 1(1) _ _ row] Cons.prems(2) x(1) id by (simp add: jobs_ok_def)
    moreover have "db_evolves d2 d1" using 1(2) by (simp add: db_evolves_same_jobs)
    ultimately have ev: "db_evolves d d1" by (rule db_evolves_trans)
    from flush_job_get [OF 1(1)] id obtain v where
      v: "get_job d1 (j_id x) = Some ((stall_row now x)\<lparr>j_version := v\<rparr>)"
        "\<And>i. i \<noteq> j_id x \<Longrightarrow> get_job d1 i = get_job d i" by (auto simp: jobs)
    have "j_id y \<noteq> j_id x" if "y \<in> set xs" for y
      using that Cons.prems(3) by (auto simp: image_iff)
    then have IH: "db_evolves d1 e \<and>
     (\<forall>x \<in> set xs. \<exists>v. get_job e (j_id x) = Some ((stall_row now x)\<lparr>j_version := v\<rparr>)) \<and>
     (\<forall>i. i \<notin> j_id ` set xs \<longrightarrow> get_job e i = get_job d1 i) \<and>
     events e = events d1 @ map (\<lambda>j. stall_event (event_id (j_id j)) now th j (server_now d1)) xs"
      using Cons.prems v by (intro Cons.IH [OF r db_evolves_ok [OF ev Cons.prems(2)]]) auto
    have "get_job e (j_id x) = get_job d1 (j_id x)" using IH Cons.prems(3) by simp
    moreover have "db_evolves d e" using ev IH db_evolves_trans by blast
    ultimately show ?thesis using IH v 1(2) js by auto
  qed
qed

lemma detect_cases:
  assumes "jobs_ok d" and "detect_stalled_jobs locked event_id now th limit d = Inr (rs, e)"
    and "xs = stalled_candidates locked now th limit d"
  shows "db_evolves d e" and "map j_id rs = map j_id xs"
    and "\<forall>x \<in> set xs. \<exists>v. get_job e (j_id x) = Some ((stall_row now x)\<lparr>j_version := v\<rparr>)"
    and "\<forall>i. i \<notin> j_id ` set xs \<longrightarrow> get_job e i = get_job d i"
    and "events e = events d @ map (\<lambda>j. stall_event (event_id (j_id j)) now th j (server_now d)) xs"
proof -
  have fold: "foldE (stall_job event_id now th) xs d = Inr e"
    and rs: "rs = List.map_filter (\<lambda>j. get_job e (j_id j)) xs"
    using assms(2,3) by (auto simp: detect_stalled_jobs_def Let_def bindE_eq_Inr)
  have dist: "distinct (map j_id xs)"
    unfolding assms(3) stalled_candidates_def
    by (rule sorted_take_distinct [OF jobs_ok_distinct [OF assms(1)]])
  have mem: "get_job d (j_id x) = Some x \<and> j_status x = J_RUNNING" if "x \<in> set xs" for x
    using that stalled_candidates_mem [of x locked now th limit d] jobs_ok_member_get [OF assms(1)]
    by (auto simp: assms(3) stalled_def)
  note f = stall_fold [OF fold assms(1) dist mem]
  show "db_evolves d e" "\<forall>x \<in> set xs. \<exists>v. get_job e (j_id x) = Some ((stall_row now x)\<lparr>j_version := v\<rparr>)"
    "\<forall>i. i \<notin> j_id ` set xs \<longrightarrow> get_job e i = get_job d i"
    "events e = events d @ map (\<lambda>j. stall_event (event_id (j_id j)) now th j (server_now d)) xs"
    using f by blast+
  have "map j_id (List.map_filter (\<lambda>j. get_job e (j_id j)) ys) = map j_id ys"
    if "set ys \<subseteq> set xs" for ys
    using that f by (induction ys) (fastforce simp: List.map_filter_simps stall_row_def)+
  then show "map j_id rs = map j_id xs" using rs by simp
qed

interpretation detect_op: job_operation "detect_stalled_jobs locked event_id now th limit"
  for locked event_id now th limit
  by unfold_locales (rule detect_cases(1) [OF _ _ refl])

text \<open>
  The ids and keys a detection needs: the ids drawn for the events are new, no stall of the
  same job was recorded at the same instant, and every job belongs to a stored workflow.
\<close>

definition stall_events_possible :: "(uuid \<Rightarrow> uuid) \<Rightarrow> time \<Rightarrow> db \<Rightarrow> bool" where
  "stall_events_possible event_id now d \<longleftrightarrow> inj event_id \<and>
     (\<forall>j \<in> set (jobs d). event_id (j_id j) \<notin> e_id ` set (events d) \<and>
        stall_dedupe_key (j_id j) now \<notin> e_dedupe_key ` set (events d) \<and>
        has_workflow d (j_workflow_id j))"

lemma stall_dedupe_key_inj: "stall_dedupe_key a t = stall_dedupe_key b t \<longleftrightarrow> a = b"
  by (auto simp: stall_dedupe_key_def)

lemma stall_dedupe_key_fits: "fits 200 (stall_dedupe_key i t)"
  using length_isoformat [of t] by (simp add: stall_dedupe_key_def fits_def)

lemma stall_job_succeeds:
  assumes "get_job d (j_id x) = Some x" and "job_inv x" and "j_status x = J_RUNNING"
    and "event_id (j_id x) \<notin> e_id ` set (events d)"
    and "stall_dedupe_key (j_id x) now \<notin> e_dedupe_key ` set (events d)"
    and "has_workflow d (j_workflow_id x)"
  shows "\<exists>e. stall_job event_id now th x d = Inr e"
proof -
  have id: "j_id (stall_row now x) = j_id x" by (simp add: stall_row_def)
  obtain e where e: "flush_job (stall_row now x) d = Inr e"
    using flush_job_total [of d "stall_row now x" x] stall_row_evolves(1) [OF assms(2,3)] assms(1) id
    by auto
  then obtain js where js: "e = d\<lparr>jobs := js\<rparr>" using flush_job_tables by blast
  have "has_job e (j_id x)" using flush_job_get [OF e] id by (auto simp: has_job_get)
  moreover have "fits 100 ''Job''" by (simp add: fits_def)
  ultimately show ?thesis
    using e js assms(4-6) stall_dedupe_key_fits [of "j_id x" now]
    by (simp add: stall_job_def require_job_transition_def insert_event_def check_event_def
        stall_event_def has_workflow_def)
qed

lemma stall_fold_succeeds:
  assumes "jobs_ok d" and "distinct (map j_id xs)" and "inj event_id"
    and "\<And>x. x \<in> set xs \<Longrightarrow> get_job d (j_id x) = Some x \<and> j_status x = J_RUNNING \<and>
      event_id (j_id x) \<notin> e_id ` set (events d) \<and>
      stall_dedupe_key (j_id x) now \<notin> e_dedupe_key ` set (events d) \<and>
      has_workflow d (j_workflow_id x)"
  shows "\<exists>e. foldE (stall_job event_id now th) xs d = Inr e"
  using assms
proof (induction xs arbitrary: d)
  case Nil
  then show ?case by simp
next
  case (Cons x xs)
  have x: "get_job d (j_id x) = Some x" "j_status x = J_RUNNING"
    "event_id (j_id x) \<notin> e_id ` set (events d)"
    "stall_dedupe_key (j_id x) now \<notin> e_dedupe_key ` set (events d)"
    "has_workflow d (j_workflow_id x)" using Cons.prems(4) by auto
  obtain d1 where d1: "stall_job event_id now th x d = Inr d1"
    using stall_job_succeeds [of d x event_id now th] jobs_ok_get [OF Cons.prems(1) x(1)] x by blast
  have one: "foldE (stall_job event_id now th) [x] d = Inr d1" using d1 by simp
  have f: "db_evolves d d1" "\<forall>i. i \<notin> {j_id x} \<longrightarrow> get_job d1 i = get_job d i"
    "events d1 = events d @ [stall_event (event_id (j_id x)) now th x (server_now d)]"
    using stall_fold [OF one Cons.prems(1)] x by simp_all
  have ok: "jobs_ok d1" by (rule db_evolves_ok [OF f(1) Cons.prems(1)])
  have wf: "workflow_runs d1 = workflow_runs d"
    using d1 by (auto elim!: stall_job_cases dest!: flush_job_tables)
  have "\<exists>e. foldE (stall_job event_id now th) xs d1 = Inr e"
  proof (rule Cons.IH [OF ok])
    fix y
    assume y: "y \<in> set xs"
    have ne: "j_id y \<noteq> j_id x" using y Cons.prems(2) by (auto simp: image_iff)
    with y Cons.prems(4) [of y] f wf show "get_job d1 (j_id y) = Some y \<and> j_status y = J_RUNNING \<and>
      event_id (j_id y) \<notin> e_id ` set (events d1) \<and>
      stall_dedupe_key (j_id y) now \<notin> e_dedupe_key ` set (events d1) \<and>
      has_workflow d1 (j_workflow_id y)"
      by (simp add: stall_event_def stall_dedupe_key_inj inj_eq [OF Cons.prems(3)] has_workflow_def)
  qed (use Cons.prems in auto)
  with d1 show ?case by simp
qed

lemma detect_succeeds:
  assumes "jobs_ok d" and "stall_events_possible event_id now d"
  shows "\<exists>rs e. detect_stalled_jobs locked event_id now th limit d = Inr (rs, e)"
proof -
  let ?xs = "stalled_candidates locked now th limit d"
  have "\<exists>e. foldE (stall_job event_id now th) ?xs d = Inr e"
  proof (rule stall_fold_succeeds [OF assms(1)])
    show "distinct (map j_id ?xs)"
      unfolding stalled_candidates_def
      by (rule sorted_take_distinct [OF jobs_ok_distinct [OF assms(1)]])
    show "inj event_id" using assms(2) by (simp add: stall_events_possible_def)
    fix x
    assume "x \<in> set ?xs"
    from stalled_candidates_mem [OF this] show "get_job d (j_id x) = Some x \<and> j_status x = J_RUNNING \<and>
      event_id (j_id x) \<notin> e_id ` set (events d) \<and>
      stall_dedupe_key (j_id x) now \<notin> e_dedupe_key ` set (events d) \<and>
      has_workflow d (j_workflow_id x)"
      using assms jobs_ok_member_get [OF assms(1), of x]
      by (auto simp: stall_events_possible_def stalled_def)
  qed
  then show ?thesis by (auto simp: detect_stalled_jobs_def Let_def)
qed

subsection \<open>The cycle keeps the contract\<close>

lemma cycle_cases:
  assumes "run_scheduler_cycle locked event_id now pl rl sl d = Inr (c, e)"
  obtains rs d1 ss d2 ps where "reclaim_expired_leases locked now rl d = Inr (rs, d1)"
    "detect_stalled_jobs locked event_id now DEFAULT_STALL_THRESHOLD sl d1 = Inr (ss, d2)"
    "promote_due_jobs now pl d2 = Inr (ps, e)"
    "c = \<lparr>promoted_count = length ps, reclaimed_count = length rs, stalled_count = length ss\<rparr>"
  using assms by (auto simp: run_scheduler_cycle_def bindE_eq_Inr)

interpretation cycle_op: job_operation "run_scheduler_cycle locked event_id now pl rl sl"
  for locked event_id now pl rl sl
proof unfold_locales
  fix d c e
  assume ok: "jobs_ok d" and r: "run_scheduler_cycle locked event_id now pl rl sl d = Inr (c, e)"
  from r show "db_evolves d e"
  proof (cases rule: cycle_cases)
    case (1 rs d1 ss d2 ps)
    have ok1: "jobs_ok d1" by (rule reclaim_op.keeps_jobs_ok [OF ok 1(1)])
    have ok2: "jobs_ok d2" by (rule detect_op.keeps_jobs_ok [OF ok1 1(2)])
    show ?thesis
      using reclaim_op.evolves [OF ok 1(1)] detect_op.evolves [OF ok1 1(2)]
        promote_due_op.evolves [OF ok2 1(3)] db_evolves_trans by blast
  qed
qed

lemma maturity_job_inv:
  "job_inv \<lparr>j_id = fresh, j_version = 1, j_workflow_id = w,
     j_job_type = ''maturity_check'', j_object_type = ''workflow_runs'', j_object_id = w,
     j_owner_agent_id = ''A01'', j_status = J_PENDING, j_input = JObj [],
     j_success_contract = JObj [], j_scheduled_at = t, j_attempt = 0,
     j_max_attempts = 3, j_idempotency_key = ''MATURITY_CHECK:'' @ str_uuid w,
     j_side_effect_class = NONE, j_retry_class = SAFE, j_allowed_mode = SIMULATION,
     j_lease_owner = None, j_lease_expires_at = None, j_heartbeat_at = None,
     j_created_at = now, j_updated_at = now\<rparr>"
  by (simp add: job_inv_def check_job_def fits_def fits_opt_def agent_id_format_def live_status_def
      lease_fields_clear_def)

interpretation maturity_op: job_operation "schedule_maturity_timer fresh w t now" for fresh w t now
proof unfold_locales
  fix d r e
  assume "jobs_ok d" and "schedule_maturity_timer fresh w t now d = Inr (r, e)"
  then show "db_evolves d e"
    using insert_job_evolves [OF _ maturity_job_inv]
    by (auto simp: schedule_maturity_timer_def Let_def bindE_eq_Inr split: if_splits)
qed

interpretation weekly_op: job_operation "schedule_weekly_timer fresh shop key next cron now"
  for fresh shop key "next" cron now
  by unfold_locales
    (auto simp: schedule_weekly_timer_def insert_scheduled_trigger_def bindE_eq_Inr
      intro!: db_evolves_same_jobs split: option.splits)

subsection \<open>Properties\<close>

text \<open>
  One promotion pass never fails and leaves no ready job behind. It promotes exactly the
  jobs among its candidates that were ready when the pass started (promoting one job does not
  make another one ready or unready), leaves every other job unchanged, and with a sufficient
  limit every pending job that is ready ends up \<open>READY\<close>.
\<close>

theorem promotion_pass_is_exact:
  assumes "jobs_ok d"
  shows "\<exists>rs e. promote_due_jobs now limit d = Inr (rs, e) \<and> jobs_ok e \<and>
     (\<forall>j \<in> set (jobs d). if j_id j \<in> j_id ` set rs
        then ready_to_run j now d \<and> (\<exists>k. get_job e (j_id j) = Some k \<and> j_status k = J_READY)
        else get_job e (j_id j) = Some j) \<and>
     (length (filter (\<lambda>j. j_status j = J_PENDING \<and> j_scheduled_at j \<le> now) (jobs d)) \<le> limit \<longrightarrow>
        (\<forall>j \<in> set (jobs d). ready_to_run j now d \<longrightarrow> j_id j \<in> j_id ` set rs))"
proof -
  let ?xs = "due_candidates now limit d"
  from promote_due_behaviour [OF assms, of now limit] obtain rs e where
    r: "promote_due_jobs now limit d = Inr (rs, e)" and ex: "promoted_exactly now ?xs d rs e" by blast
  note ex = ex [unfolded promoted_exactly_def]
  have ids: "j_id ` set rs = j_id ` {x \<in> set ?xs. ready_to_run x now d}"
    using ex by (metis list.set_map set_filter)
  have same: "j = x" if "j \<in> set (jobs d)" "x \<in> set ?xs" "j_id j = j_id x" for j x
    using that due_candidates_mem jobs_ok_member_get [OF assms] by (metis option.inject)
  have row: "if j_id j \<in> j_id ` set rs
        then ready_to_run j now d \<and> (\<exists>k. get_job e (j_id j) = Some k \<and> j_status k = J_READY)
        else get_job e (j_id j) = Some j" if j: "j \<in> set (jobs d)" for j
  proof (cases "j_id j \<in> j_id ` set ?xs")
    case True
    then have x: "j \<in> set ?xs" using same [OF j] by fastforce
    then have "j_id j \<in> j_id ` set rs \<longleftrightarrow> ready_to_run j now d"
      unfolding ids using same [OF j] by blast
    moreover have "if ready_to_run j now d
        then \<exists>v. get_job e (j_id j) = Some (j\<lparr>j_status := J_READY, j_updated_at := now, j_version := v\<rparr>)
        else get_job e (j_id j) = Some j" using ex x by blast
    ultimately show ?thesis by auto
  next
    case False
    then show ?thesis using ex jobs_ok_member_get [OF assms j] unfolding ids by auto
  qed
  have "j_id j \<in> j_id ` set rs"
    if "length (filter (\<lambda>j. j_status j = J_PENDING \<and> j_scheduled_at j \<le> now) (jobs d)) \<le> limit"
      "j \<in> set (jobs d)" "ready_to_run j now d" for j
    using that unfolding ids by (auto simp: due_candidates_def ready_to_run_def)
  with r ex row show ?thesis by blast
qed

theorem promotion_pass_is_exact_witness:
  "\<exists>rs e. promote_due_jobs 5 50 (example_db [example_job 2 ''k'' J_PENDING]) = Inr (rs, e) \<and>
     2 \<in> j_id ` set rs"
proof -
  let ?d = "example_db [example_job 2 ''k'' J_PENDING]"
  have ok: "jobs_ok ?d" by (simp add: example_defs example_inv_defs)
  have "ready_to_run (example_job 2 ''k'' J_PENDING) 5 ?d"
    by (simp add: example_defs get_job_def get_workflow_def ready_to_run_def)
  moreover have "jobs ?d = [example_job 2 ''k'' J_PENDING]" "j_id (example_job 2 ''k'' J_PENDING) = 2"
    by (simp_all add: example_defs)
  moreover obtain rs e where r: "promote_due_jobs 5 50 ?d = Inr (rs, e)"
    "length (filter (\<lambda>j. j_status j = J_PENDING \<and> j_scheduled_at j \<le> 5) (jobs ?d)) \<le> 50 \<longrightarrow>
        (\<forall>j \<in> set (jobs ?d). ready_to_run j 5 ?d \<longrightarrow> j_id j \<in> j_id ` set rs)"
    using promotion_pass_is_exact [OF ok, of 5 50] by blast
  ultimately have "2 \<in> j_id ` set rs" by simp
  with r(1) show ?thesis by blast
qed

text \<open>
  Stall detection fails exactly the running jobs that hold an unexpired lease and have not
  sent a heartbeat within the threshold: each loses its lease and one attempt, and exactly one
  \<open>JOB_STALLED\<close> event is appended for it; the log is only extended and no other job changes.
  With new event ids and a new instant the detection never raises.
\<close>

theorem stall_detection_is_exact:
  assumes "jobs_ok d" and "stall_events_possible event_id now d"
  shows "\<exists>rs e evs. detect_stalled_jobs locked event_id now th limit d = Inr (rs, e) \<and> jobs_ok e \<and>
     (\<forall>j \<in> set (jobs d). if j_id j \<in> j_id ` set rs
        then stalled now th j \<and> \<not> locked (j_id j) \<and>
          (\<exists>k. get_job e (j_id j) = Some k \<and> j_status k = J_FAILED \<and>
             j_attempt k = j_attempt j + 1 \<and> lease_fields_clear k)
        else get_job e (j_id j) = Some j) \<and>
     events e = events d @ evs \<and> map e_job_id evs = map (\<lambda>k. Some (j_id k)) rs \<and>
     (\<forall>ev \<in> set evs. e_event_name ev = EV_JOB_STALLED)"
proof -
  let ?xs = "stalled_candidates locked now th limit d"
  from detect_succeeds [OF assms] obtain rs e where
    r: "detect_stalled_jobs locked event_id now th limit d = Inr (rs, e)" by blast
  note c = detect_cases [OF assms(1) r refl]
  have ids: "j_id ` set rs = j_id ` set ?xs" using c(2) by (metis list.set_map)
  have same: "j = x" if "j \<in> set (jobs d)" "x \<in> set ?xs" "j_id j = j_id x" for j x
    using that stalled_candidates_mem jobs_ok_member_get [OF assms(1)] by (metis option.inject)
  have row: "if j_id j \<in> j_id ` set rs
        then stalled now th j \<and> \<not> locked (j_id j) \<and>
          (\<exists>k. get_job e (j_id j) = Some k \<and> j_status k = J_FAILED \<and>
             j_attempt k = j_attempt j + 1 \<and> lease_fields_clear k)
        else get_job e (j_id j) = Some j" if j: "j \<in> set (jobs d)" for j
  proof (cases "j_id j \<in> j_id ` set ?xs")
    case True
    then have x: "j \<in> set ?xs" using same [OF j] by fastforce
    then show ?thesis
      using True ids c(3) stalled_candidates_mem [OF x]
      by (fastforce simp: stall_row_def lease_fields_clear_def)
  next
    case False
    then show ?thesis using ids c(4) jobs_ok_member_get [OF assms(1) j] by simp
  qed
  let ?evs = "map (\<lambda>j. stall_event (event_id (j_id j)) now th j (server_now d)) ?xs"
  have "map e_job_id ?evs = map Some (map j_id ?xs)" by (simp add: stall_event_def)
  then have "map e_job_id ?evs = map (\<lambda>k. Some (j_id k)) rs" unfolding c(2) [symmetric] by simp
  moreover have "\<forall>ev \<in> set ?evs. e_event_name ev = EV_JOB_STALLED" by (simp add: stall_event_def)
  ultimately show ?thesis
    using r row c(5) detect_op.keeps_jobs_ok [OF assms(1) r] by blast
qed

theorem stall_detection_is_exact_witness:
  "\<exists>rs e evs. detect_stalled_jobs (\<lambda>_. False) (\<lambda>i. i) 50 10 50
       (example_db [example_leased_job 2 ''k'' ''worker-1'']) = Inr (rs, e) \<and> jobs_ok e \<and>
     events e = evs \<and> (\<forall>ev \<in> set evs. e_event_name ev = EV_JOB_STALLED)"
proof -
  let ?d = "example_db [example_leased_job 2 ''k'' ''worker-1'']"
  have "jobs_ok ?d" by (simp add: example_defs example_inv_defs)
  moreover have "stall_events_possible (\<lambda>i. i) 50 ?d"
    by (simp add: stall_events_possible_def example_defs has_workflow_def)
  ultimately have "\<exists>rs e evs. detect_stalled_jobs (\<lambda>_. False) (\<lambda>i. i) 50 10 50 ?d = Inr (rs, e) \<and>
     jobs_ok e \<and> events e = events ?d @ evs \<and> (\<forall>ev \<in> set evs. e_event_name ev = EV_JOB_STALLED)"
    using stall_detection_is_exact by blast
  moreover have "events ?d = []" by (simp add: example_defs)
  ultimately show ?thesis by auto
qed

subsection \<open>What a cycle leaves behind\<close>

text \<open>Steps that only rewrite rows keep the ids of the jobs and the other tables' keys.\<close>

definition same_keys :: "db \<Rightarrow> db \<Rightarrow> bool" where
  "same_keys d e \<longleftrightarrow> map j_id (jobs e) = map j_id (jobs d) \<and> workflow_runs e = workflow_runs d"

lemma same_keys_refl [simp]: "same_keys d d"
  by (simp add: same_keys_def)

lemma same_keys_trans: "same_keys a b \<Longrightarrow> same_keys b c \<Longrightarrow> same_keys a c"
  by (simp add: same_keys_def)

lemma flush_job_same_keys: "flush_job k d = Inr e \<Longrightarrow> same_keys d e \<and> events e = events d"
  using job_store.keys_put
  by (auto elim!: flush_job_cases simp: same_keys_def put_job_def)

lemma reclaim_same_keys:
  assumes "reclaim_expired_leases locked now limit d = Inr (rs, e)"
  shows "same_keys d e \<and> events e = events d"
proof -
  have "foldE (\<lambda>job. flush_job (reset_row now job)) (expired_candidates locked now limit d) d = Inr e"
    using assms by (auto simp: reclaim_expired_leases_def reclaim_fold_eq bindE_eq_Inr Let_def)
  then show ?thesis
    by (rule foldE_induct [where R = "\<lambda>a b. same_keys a b \<and> events b = events a"])
      (auto dest: same_keys_trans flush_job_same_keys)
qed

lemma detect_same_keys:
  assumes "detect_stalled_jobs locked event_id now th limit d = Inr (rs, e)"
  shows "same_keys d e"
proof -
  have "foldE (stall_job event_id now th) (stalled_candidates locked now th limit d) d = Inr e"
    using assms by (auto simp: detect_stalled_jobs_def bindE_eq_Inr Let_def)
  then show ?thesis
  proof (rule foldE_induct [where R = same_keys])
    fix x s t
    assume "stall_job event_id now th x s = Inr t"
    then show "same_keys s t"
      by (cases rule: stall_job_cases) (auto dest!: flush_job_same_keys simp: same_keys_def)
  qed (auto dest: same_keys_trans)
qed

lemma same_keys_length: "same_keys d e \<Longrightarrow> length (jobs e) = length (jobs d)"
  by (metis length_map same_keys_def)

lemma same_id_member:
  assumes "jobs_ok d" and "set xs \<subseteq> set (jobs d)" and "j \<in> set (jobs d)" and "j_id j \<in> j_id ` set xs"
  shows "j \<in> set xs"
proof -
  obtain x where x: "x \<in> set xs" "j_id j = j_id x" using assms(4) by auto
  then have "Some x = Some j"
    using jobs_ok_member_get [OF assms(1) assms(3)] jobs_ok_member_get [OF assms(1), of x] assms(2) by auto
  then show ?thesis using x(1) by simp
qed

lemma reclaim_row:
  assumes "jobs_ok d" and "reclaim_expired_leases locked now limit d = Inr (rs, e)"
    and "length (jobs d) \<le> limit" and "j \<in> set (jobs d)"
  shows "if lease_expired now j \<and> \<not> locked (j_id j)
     then \<exists>v. get_job e (j_id j) = Some ((reset_row now j)\<lparr>j_version := v\<rparr>) else get_job e (j_id j) = Some j"
proof -
  let ?xs = "expired_candidates locked now limit d"
  from reclaim_behaviour [OF assms(1) refl, of locked now limit] assms(2)
  have reset: "\<forall>j \<in> set ?xs. \<exists>v. get_job e (j_id j) = Some ((reset_row now j)\<lparr>j_version := v\<rparr>)"
    and rest: "\<forall>i. i \<notin> j_id ` set ?xs \<longrightarrow> get_job e i = get_job d i" by auto
  have "length (filter (\<lambda>j. lease_expired now j \<and> \<not> locked (j_id j)) (jobs d)) \<le> limit"
    using assms(3) length_filter_le order_trans by blast
  note xs = expired_candidates_all [OF this]
  have out: "j_id j \<notin> j_id ` set ?xs" if "j \<notin> set ?xs"
    using same_id_member [OF assms(1) _ assms(4), of ?xs] that xs by blast
  show ?thesis
  proof (cases "j \<in> set ?xs")
    case True
    moreover from True have "lease_expired now j \<and> \<not> locked (j_id j)" unfolding xs by blast
    ultimately show ?thesis using reset by simp
  next
    case False
    then have "\<not> (lease_expired now j \<and> \<not> locked (j_id j))" unfolding xs using assms(4) by blast
    moreover have "get_job e (j_id j) = Some j" using False rest out jobs_ok_member_get [OF assms(1,4)] by simp
    ultimately show ?thesis by auto
  qed
qed

lemma detect_row:
  assumes "jobs_ok d" and "detect_stalled_jobs locked event_id now th limit d = Inr (rs, e)"
    and "length (jobs d) \<le> limit" and "j \<in> set (jobs d)"
  shows "if stalled now th j \<and> \<not> locked (j_id j)
     then (\<exists>v. get_job e (j_id j) = Some ((stall_row now j)\<lparr>j_version := v\<rparr>)) \<and>
       stall_event (event_id (j_id j)) now th j (server_now d) \<in> set (events e)
     else get_job e (j_id j) = Some j"
proof -
  let ?xs = "stalled_candidates locked now th limit d"
  note c = detect_cases [OF assms(1,2) refl]
  have "length (filter (\<lambda>j. stalled now th j \<and> \<not> locked (j_id j)) (jobs d)) \<le> limit"
    using assms(3) length_filter_le order_trans by blast
  then have xs: "set ?xs = {j \<in> set (jobs d). stalled now th j \<and> \<not> locked (j_id j)}"
    by (auto simp: stalled_candidates_def)
  have out: "j_id j \<notin> j_id ` set ?xs" if "j \<notin> set ?xs"
    using same_id_member [OF assms(1) _ assms(4), of ?xs] that xs by blast
  show ?thesis
  proof (cases "j \<in> set ?xs")
    case True
    moreover from True have "stalled now th j \<and> \<not> locked (j_id j)" unfolding xs by blast
    ultimately show ?thesis using c(3,5) by simp
  next
    case False
    then have "\<not> (stalled now th j \<and> \<not> locked (j_id j))" unfolding xs using assms(4) by blast
    moreover have "get_job e (j_id j) = Some j" using False c(4) out jobs_ok_member_get [OF assms(1,4)] by simp
    ultimately show ?thesis by auto
  qed
qed

lemma promote_row:
  assumes "jobs_ok d" and "promote_due_jobs now limit d = Inr (rs, e)"
    and "length (jobs d) \<le> limit" and "j \<in> set (jobs d)"
  shows "if ready_to_run j now d
     then \<exists>v. get_job e (j_id j) = Some (j\<lparr>j_status := J_READY, j_updated_at := now, j_version := v\<rparr>)
     else get_job e (j_id j) = Some j"
proof -
  let ?xs = "due_candidates now limit d"
  from promote_due_behaviour [OF assms(1), of now limit] assms(2)
  have ex: "promoted_exactly now ?xs d rs e" by auto
  note ex = ex [unfolded promoted_exactly_def]
  have "length (filter P (jobs d)) \<le> limit" for P using assms(3) length_filter_le order_trans by blast
  then have "ready_to_run j now d \<Longrightarrow> j \<in> set ?xs" using assms(4) by (auto simp: due_candidates_def ready_to_run_def)
  moreover have "j_id j \<notin> j_id ` set ?xs" if "j \<notin> set ?xs"
    using same_id_member [OF assms(1) _ assms(4), of ?xs] due_candidates_mem that by blast
  ultimately show ?thesis using ex jobs_ok_member_get [OF assms(1,4)] by (cases "j \<in> set ?xs") auto
qed

text \<open>Resetting a lease or failing a stalled job makes no other job ready or unready.\<close>

definition same_tables :: "db \<Rightarrow> db \<Rightarrow> bool" where
  "same_tables d e \<longleftrightarrow> job_dependencies e = job_dependencies d \<and> workflow_runs e = workflow_runs d \<and>
     idempotency_records e = idempotency_records d"

lemma same_readinessI:
  assumes "job_dependencies e = job_dependencies d" "workflow_runs e = workflow_runs d"
    "idempotency_records e = idempotency_records d"
    and "\<And>i. get_job e i = get_job d i \<or> (\<exists>j k. get_job d i = Some j \<and> get_job e i = Some k \<and>
      j_status j \<noteq> J_SUCCEEDED \<and> j_status k \<noteq> J_SUCCEEDED)"
  shows "same_readiness d e"
proof -
  have "map_option (\<lambda>k. j_status k = J_SUCCEEDED) (get_job e i) = map_option (\<lambda>k. j_status k = J_SUCCEEDED) (get_job d i)" for i
    using assms(4) [of i] by auto
  then show ?thesis using assms(1-3) by (simp add: same_readiness_def)
qed

lemma reclaim_same_readiness:
  assumes "jobs_ok d" and "reclaim_expired_leases locked now limit d = Inr (rs, e)"
  shows "same_readiness d e"
proof -
  let ?xs = "expired_candidates locked now limit d"
  from reclaim_behaviour [OF assms(1) refl, of locked now limit] assms(2)
  have reset: "\<forall>j \<in> set ?xs. \<exists>v. get_job e (j_id j) = Some ((reset_row now j)\<lparr>j_version := v\<rparr>)"
    and rest: "\<forall>i. i \<notin> j_id ` set ?xs \<longrightarrow> get_job e i = get_job d i" by auto
  have "foldE (\<lambda>job. flush_job (reset_row now job)) ?xs d = Inr e"
    using assms(2) by (auto simp: reclaim_expired_leases_def reclaim_fold_eq bindE_eq_Inr Let_def)
  then have "same_tables d e"
    by (rule foldE_induct [where R = same_tables]) (auto simp: same_tables_def dest!: flush_job_tables)
  moreover have "\<exists>j k. get_job d i = Some j \<and> get_job e i = Some k \<and> j_status j \<noteq> J_SUCCEEDED \<and> j_status k \<noteq> J_SUCCEEDED"
    if i: "i \<in> j_id ` set ?xs" for i
  proof -
    obtain j where j: "j \<in> set ?xs" "j_id j = i" using i by auto
    then have "get_job d i = Some j" "j_status j = J_RUNNING"
      using expired_candidates_mem [of j locked now limit d] jobs_ok_member_get [OF assms(1), of j] by (auto simp: lease_expired_def)
    then show ?thesis using reset j by (force simp: reset_row_def expired_status_def)
  qed
  ultimately show ?thesis using rest unfolding same_tables_def by (intro same_readinessI) blast+
qed

lemma detect_same_readiness:
  assumes "jobs_ok d" and "detect_stalled_jobs locked event_id now th limit d = Inr (rs, e)"
  shows "same_readiness d e"
proof -
  let ?xs = "stalled_candidates locked now th limit d"
  note c = detect_cases [OF assms(1,2) refl]
  have "foldE (stall_job event_id now th) ?xs d = Inr e"
    using assms(2) by (auto simp: detect_stalled_jobs_def bindE_eq_Inr Let_def)
  then have "same_tables d e"
  proof (rule foldE_induct [where R = same_tables])
    fix x a b
    assume "stall_job event_id now th x a = Inr b"
    then show "same_tables a b" by (cases rule: stall_job_cases) (auto simp: same_tables_def dest!: flush_job_tables)
  qed (auto simp: same_tables_def)
  moreover have "\<exists>j k. get_job d i = Some j \<and> get_job e i = Some k \<and> j_status j \<noteq> J_SUCCEEDED \<and> j_status k \<noteq> J_SUCCEEDED"
    if i: "i \<in> j_id ` set ?xs" for i
  proof -
    obtain j where j: "j \<in> set ?xs" "j_id j = i" using i by auto
    then have "get_job d i = Some j" "j_status j = J_RUNNING"
      using stalled_candidates_mem [of j locked now th limit d] jobs_ok_member_get [OF assms(1), of j] by (auto simp: stalled_def)
    then show ?thesis using c(3) j by (force simp: stall_row_def)
  qed
  ultimately show ?thesis using c(4) unfolding same_tables_def by (intro same_readinessI) blast+
qed

lemma stall_events_possible_reclaim:
  assumes "jobs_ok d" and "reclaim_expired_leases locked now limit d = Inr (rs, e)"
    and "stall_events_possible event_id now d"
  shows "stall_events_possible event_id now e"
proof -
  have keys: "same_keys d e" "events e = events d" using reclaim_same_keys [OF assms(2)] by auto
  have "\<exists>j \<in> set (jobs d). j_id j = j_id k \<and> j_workflow_id j = j_workflow_id k" if k: "k \<in> set (jobs e)" for k
  proof -
    have "j_id k \<in> set (map j_id (jobs d))" using k keys(1) by (metis image_eqI list.set_map same_keys_def)
    then obtain j where j: "j \<in> set (jobs d)" "j_id j = j_id k" by auto
    from db_evolves_job [OF reclaim_op.evolves [OF assms(1,2)] j(1)] obtain k' where
      k': "k' \<in> set (jobs e)" "job_evolves j k'" by blast
    then have "j_id k' = j_id k" using j by (simp add: job_evolves_def job_frame_def)
    then have "k' = k" using k k'(1) jobs_ok_member_get [OF reclaim_op.keeps_jobs_ok [OF assms(1,2)]]
      by (metis option.inject)
    with k' j show ?thesis by (auto simp: job_evolves_def job_frame_def)
  qed
  with assms(3) keys show ?thesis
    unfolding stall_events_possible_def same_keys_def has_workflow_def by metis
qed

text \<open>
  What a whole cycle makes of one job: an unlocked expired lease is reset, an unlocked stalled job
  fails, a job that was ready when the cycle started becomes \<open>READY\<close>, and any other job is
  unchanged.
\<close>

definition cycle_row :: "(uuid \<Rightarrow> bool) \<Rightarrow> time \<Rightarrow> db \<Rightarrow> job \<Rightarrow> job" where
  "cycle_row locked now d j =
     (if lease_expired now j \<and> \<not> locked (j_id j) then reset_row now j
      else if stalled now DEFAULT_STALL_THRESHOLD j \<and> \<not> locked (j_id j) then stall_row now j
      else if ready_to_run j now d then j\<lparr>j_status := J_READY, j_updated_at := now\<rparr>
      else j)"

lemma unready_row: "j_status j \<noteq> J_PENDING \<Longrightarrow> \<not> ready_to_run j now d"
  by (simp add: ready_to_run_def)

lemma reset_row_idle:
  "\<not> stalled now th ((reset_row now j)\<lparr>j_version := v\<rparr>)" "\<not> ready_to_run ((reset_row now j)\<lparr>j_version := v\<rparr>) now d"
  "\<not> ready_to_run ((stall_row now j)\<lparr>j_version := v\<rparr>) now d"
  "j_id ((reset_row now j)\<lparr>j_version := v\<rparr>) = j_id j" "j_id ((stall_row now j)\<lparr>j_version := v\<rparr>) = j_id j"
  by (auto simp: stalled_def reset_row_def stall_row_def expired_status_def ready_to_run_def)

lemma cycle_rows:
  assumes ok: "jobs_ok d" and r: "reclaim_expired_leases locked now rl d = Inr (rs, d1)"
    and s: "detect_stalled_jobs locked event_id now DEFAULT_STALL_THRESHOLD sl d1 = Inr (ss, d2)"
    and p: "promote_due_jobs now pl d2 = Inr (ps, e)"
    and lim: "length (jobs d) \<le> pl" "length (jobs d) \<le> rl" "length (jobs d) \<le> sl" and j: "j \<in> set (jobs d)"
  shows "\<exists>v. get_job e (j_id j) = Some ((cycle_row locked now d j)\<lparr>j_version := v\<rparr>)"
    and "cycle_row locked now d j = j \<longrightarrow> get_job e (j_id j) = Some j"
    and "stalled now DEFAULT_STALL_THRESHOLD j \<and> \<not> locked (j_id j) \<longrightarrow>
      (\<exists>t. stall_event (event_id (j_id j)) now DEFAULT_STALL_THRESHOLD j t \<in> set (events d2))"
proof -
  have ok1: "jobs_ok d1" by (rule reclaim_op.keeps_jobs_ok [OF ok r])
  have ok2: "jobs_ok d2" by (rule detect_op.keeps_jobs_ok [OF ok1 s])
  have len1: "length (jobs d1) = length (jobs d)" using reclaim_same_keys [OF r] same_keys_length by blast
  have len2: "length (jobs d2) = length (jobs d)" using same_keys_length [OF detect_same_keys [OF s]] len1 by simp
  have ready: "ready_to_run x now d2 \<longleftrightarrow> ready_to_run x now d" for x
    using same_readiness_ready [OF reclaim_same_readiness [OF ok r]] same_readiness_ready [OF detect_same_readiness [OF ok1 s]] by simp
  note row1 = reclaim_row [OF ok r lim(2) j]
  note row2 = detect_row [OF ok1 s lim(3) [folded len1] job_store.get_member [THEN conjunct1]]
  note row3 = promote_row [OF ok2 p lim(1) [folded len2] job_store.get_member [THEN conjunct1], unfolded ready]
  have exclusive: "\<not> (lease_expired now j \<and> stalled now DEFAULT_STALL_THRESHOLD j)"
    by (auto simp: lease_expired_def stalled_def split: option.splits)
  have all: "(\<exists>v. get_job e (j_id j) = Some ((cycle_row locked now d j)\<lparr>j_version := v\<rparr>)) \<and>
    (cycle_row locked now d j = j \<longrightarrow> get_job e (j_id j) = Some j) \<and>
    (stalled now DEFAULT_STALL_THRESHOLD j \<and> \<not> locked (j_id j) \<longrightarrow>
      (\<exists>t. stall_event (event_id (j_id j)) now DEFAULT_STALL_THRESHOLD j t \<in> set (events d2)))"
  proof (cases "lease_expired now j \<and> \<not> locked (j_id j)")
    case True
    then obtain v where g1: "get_job d1 (j_id j) = Some ((reset_row now j)\<lparr>j_version := v\<rparr>)" using row1 by auto
    have g2: "get_job d2 (j_id j) = Some ((reset_row now j)\<lparr>j_version := v\<rparr>)"
      using row2 [OF g1] by (simp add: reset_row_idle)
    have g3: "get_job e (j_id j) = Some ((reset_row now j)\<lparr>j_version := v\<rparr>)"
      using row3 [OF g2] by (simp add: reset_row_idle)
    have "reset_row now j \<noteq> j" using True by (auto simp: lease_expired_def reset_row_def expired_status_def dest: arg_cong [of _ _ j_status] split: if_splits)
    then show ?thesis using g3 True exclusive by (auto simp: cycle_row_def)
  next
    case False
    then have g1: "get_job d1 (j_id j) = Some j" using row1 by auto
    show ?thesis
    proof (cases "stalled now DEFAULT_STALL_THRESHOLD j \<and> \<not> locked (j_id j)")
      case True
      then obtain v where g2: "get_job d2 (j_id j) = Some ((stall_row now j)\<lparr>j_version := v\<rparr>)"
        and ev: "stall_event (event_id (j_id j)) now DEFAULT_STALL_THRESHOLD j (server_now d1) \<in> set (events d2)"
        using row2 [OF g1] by auto
      have "get_job e (j_id j) = Some ((stall_row now j)\<lparr>j_version := v\<rparr>)"
        using row3 [OF g2] by (simp add: reset_row_idle)
      moreover have "stall_row now j \<noteq> j" using True by (auto simp: stalled_def stall_row_def dest: arg_cong [of _ _ j_status])
      ultimately show ?thesis using True False ev by (auto simp: cycle_row_def)
    next
      case False': False
      then have g2: "get_job d2 (j_id j) = Some j" using row2 [OF g1] by auto
      show ?thesis
      proof (cases "ready_to_run j now d")
        case True
        then have "j\<lparr>j_status := J_READY, j_updated_at := now\<rparr> \<noteq> j" by (auto simp: ready_to_run_def dest: arg_cong [of _ _ j_status])
        with True show ?thesis using row3 [OF g2] False False' by (auto simp: cycle_row_def)
      next
        case False'': False
        have "\<exists>v. j = j\<lparr>j_version := v\<rparr>" by (rule exI [of _ "j_version j"]) simp
        then show ?thesis using row3 [OF g2] False False' False'' by (auto simp: cycle_row_def)
      qed
    qed
  qed
  show "\<exists>v. get_job e (j_id j) = Some ((cycle_row locked now d j)\<lparr>j_version := v\<rparr>)"
    "cycle_row locked now d j = j \<longrightarrow> get_job e (j_id j) = Some j"
    "stalled now DEFAULT_STALL_THRESHOLD j \<and> \<not> locked (j_id j) \<longrightarrow>
      (\<exists>t. stall_event (event_id (j_id j)) now DEFAULT_STALL_THRESHOLD j t \<in> set (events d2))"
    using all by blast+
qed

lemma settled_row:
  assumes "job_inv j" and "k = (cycle_row locked now d j)\<lparr>j_version := v\<rparr>"
  shows "\<not> ready_to_run k now d \<and> (j_status k = J_RUNNING \<and> \<not> locked (j_id k) \<longrightarrow>
    now < the (j_lease_expires_at k) \<and> now - DEFAULT_STALL_THRESHOLD \<le> the (j_heartbeat_at k))"
proof -
  have ready: "ready_to_run (j\<lparr>j_version := v\<rparr>) now d \<longleftrightarrow> ready_to_run j now d" by (simp add: ready_to_run_def)
  show ?thesis
  proof (cases "lease_expired now j \<and> \<not> locked (j_id j)")
    case True
    then show ?thesis by (auto simp: assms(2) cycle_row_def reset_row_def expired_status_def ready_to_run_def)
  next
    case expired: False
    show ?thesis
    proof (cases "stalled now DEFAULT_STALL_THRESHOLD j \<and> \<not> locked (j_id j)")
      case True
      then show ?thesis using expired by (auto simp: assms(2) cycle_row_def stall_row_def ready_to_run_def)
    next
      case False
      with expired assms ready show ?thesis
        by (cases "ready_to_run j now d")
          (auto simp: cycle_row_def job_inv_def lease_fields_set_def lease_expired_def stalled_def ready_to_run_def)
    qed
  qed
qed

lemma promote_due_tables:
  assumes "promote_due_jobs now limit d = Inr (rs, e)"
  shows "same_keys d e \<and> events e = events d"
proof -
  have "promote_each now xs d = Inr (rs, e) \<Longrightarrow> same_keys d e \<and> events e = events d" for xs
  proof (induction now xs d arbitrary: rs rule: promote_each.induct)
    case (2 now job pending d)
    show ?case
    proof (cases "promote_pending_to_ready (j_id job) now d")
      case (Inl err)
      with 2 show ?thesis by (auto split: if_splits)
    next
      case (Inr p)
      obtain k d1 where p: "p = (k, d1)" by (cases p)
      with Inr 2(3) obtain r1 where r1: "promote_each now pending d1 = Inr (r1, e)" by (auto simp: bindE_eq_Inr)
      have "same_keys d d1 \<and> events d1 = events d"
        using Inr p flush_job_same_keys by (blast elim: promote_cases)
      moreover have "same_keys d1 e \<and> events e = events d1" using 2(1,2) Inr p r1 by blast
      ultimately show ?thesis by (auto intro: same_keys_trans)
    qed
  qed simp
  with assms show ?thesis by (simp add: promote_due_jobs_def)
qed

lemma promote_due_same_readiness:
  "jobs_ok d \<Longrightarrow> promote_due_jobs now limit d = Inr (rs, e) \<Longrightarrow> same_readiness d e"
  using promote_due_behaviour [of d now limit] by (auto simp: promoted_exactly_def)

text \<open>
  C5: a scheduler cycle completes whatever rows other transactions have locked and whatever its
  limits are, given new event ids and a new instant for the stall events. With limits that cover
  the table it does all the work there is: every unlocked expired lease is reset, every unlocked
  running job without a recent heartbeat fails and is announced by a \<open>JOB_STALLED\<close> event, every
  job that was ready when the cycle started is \<open>READY\<close>, and every other job is unchanged. In
  particular no ready job is left, and a job that still runs holds an unexpired lease and has
  sent a heartbeat within the stall threshold, unless its row was locked.
\<close>

theorem scheduler_cycle_settles:
  assumes "jobs_ok d" and "stall_events_possible event_id now d"
  shows "\<exists>c e. run_scheduler_cycle locked event_id now pl rl sl d = Inr (c, e) \<and> jobs_ok e \<and>
     (length (jobs d) \<le> pl \<and> length (jobs d) \<le> rl \<and> length (jobs d) \<le> sl \<longrightarrow>
      (\<forall>j \<in> set (jobs d). (\<exists>v. get_job e (j_id j) = Some ((cycle_row locked now d j)\<lparr>j_version := v\<rparr>)) \<and>
        (cycle_row locked now d j = j \<longrightarrow> get_job e (j_id j) = Some j) \<and>
        (stalled now DEFAULT_STALL_THRESHOLD j \<and> \<not> locked (j_id j) \<longrightarrow>
          (\<exists>t. stall_event (event_id (j_id j)) now DEFAULT_STALL_THRESHOLD j t \<in> set (events e)))) \<and>
      (\<forall>k \<in> set (jobs e). \<not> ready_to_run k now e \<and>
        (j_status k = J_RUNNING \<and> \<not> locked (j_id k) \<longrightarrow>
           now < the (j_lease_expires_at k) \<and> now - DEFAULT_STALL_THRESHOLD \<le> the (j_heartbeat_at k))))"
proof -
  from reclaim_behaviour [OF assms(1) refl, of locked now rl] obtain rs d1 where
    r: "reclaim_expired_leases locked now rl d = Inr (rs, d1)" by blast
  have ok1: "jobs_ok d1" by (rule reclaim_op.keeps_jobs_ok [OF assms(1) r])
  from detect_succeeds [OF ok1 stall_events_possible_reclaim [OF assms(1) r assms(2)]] obtain ss d2
    where s: "detect_stalled_jobs locked event_id now DEFAULT_STALL_THRESHOLD sl d1 = Inr (ss, d2)" by blast
  have ok2: "jobs_ok d2" by (rule detect_op.keeps_jobs_ok [OF ok1 s])
  from promote_due_behaviour [OF ok2, of now pl] obtain ps e where
    p: "promote_due_jobs now pl d2 = Inr (ps, e)" by blast
  have oke: "jobs_ok e" by (rule promote_due_op.keeps_jobs_ok [OF ok2 p])
  obtain c where c: "run_scheduler_cycle locked event_id now pl rl sl d = Inr (c, e)"
    using r s p by (simp add: run_scheduler_cycle_def)
  have ev: "events e = events d2" using promote_due_tables [OF p] by blast
  show ?thesis
  proof (intro exI [of _ c] exI [of _ e] conjI impI)
    show "run_scheduler_cycle locked event_id now pl rl sl d = Inr (c, e)" "jobs_ok e" using c oke by blast+
    assume lim: "length (jobs d) \<le> pl \<and> length (jobs d) \<le> rl \<and> length (jobs d) \<le> sl"
    note rows = cycle_rows [OF assms(1) r s p lim [THEN conjunct1] lim [THEN conjunct2, THEN conjunct1]
        lim [THEN conjunct2, THEN conjunct2], folded ev]
    show "\<forall>j \<in> set (jobs d). (\<exists>v. get_job e (j_id j) = Some ((cycle_row locked now d j)\<lparr>j_version := v\<rparr>)) \<and>
        (cycle_row locked now d j = j \<longrightarrow> get_job e (j_id j) = Some j) \<and>
        (stalled now DEFAULT_STALL_THRESHOLD j \<and> \<not> locked (j_id j) \<longrightarrow>
          (\<exists>t. stall_event (event_id (j_id j)) now DEFAULT_STALL_THRESHOLD j t \<in> set (events e)))"
      using rows by blast
    show "\<forall>k \<in> set (jobs e). \<not> ready_to_run k now e \<and> (j_status k = J_RUNNING \<and> \<not> locked (j_id k) \<longrightarrow>
           now < the (j_lease_expires_at k) \<and> now - DEFAULT_STALL_THRESHOLD \<le> the (j_heartbeat_at k))"
    proof
      fix k
      assume k: "k \<in> set (jobs e)"
      have "same_keys d e"
        using reclaim_same_keys [OF r] detect_same_keys [OF s] promote_due_tables [OF p] same_keys_trans by blast
      then obtain j where j: "j \<in> set (jobs d)" "j_id j = j_id k"
        using k unfolding same_keys_def by (metis (no_types, lifting) image_iff list.set_map)
      obtain v where v: "k = (cycle_row locked now d j)\<lparr>j_version := v\<rparr>"
        using rows(1) [OF j(1)] jobs_ok_member_get [OF oke k] j(2) by auto
      have "ready_to_run k now e \<longleftrightarrow> ready_to_run k now d"
        using same_readiness_ready [OF reclaim_same_readiness [OF assms(1) r]] same_readiness_ready [OF detect_same_readiness [OF ok1 s]]
          same_readiness_ready [OF promote_due_same_readiness [OF ok2 p]] by simp
      then show "\<not> ready_to_run k now e \<and> (j_status k = J_RUNNING \<and> \<not> locked (j_id k) \<longrightarrow>
           now < the (j_lease_expires_at k) \<and> now - DEFAULT_STALL_THRESHOLD \<le> the (j_heartbeat_at k))"
        using settled_row [OF jobs_ok_get [OF assms(1) jobs_ok_member_get [OF assms(1) j(1)]] v] by simp
    qed
  qed
qed

theorem scheduler_cycle_settles_witness:
  "\<exists>c e. run_scheduler_cycle (\<lambda>_. False) (\<lambda>i. i) 50 50 50 50
       (example_db [example_leased_job 2 ''k'' ''worker-1'', example_job 3 ''l'' J_PENDING]) = Inr (c, e) \<and> jobs_ok e \<and>
     (\<exists>v. get_job e 3 = Some ((example_job 3 ''l'' J_READY)\<lparr>j_updated_at := 50, j_version := v\<rparr>))"
proof -
  let ?d = "example_db [example_leased_job 2 ''k'' ''worker-1'', example_job 3 ''l'' J_PENDING]"
  have ok: "jobs_ok ?d" by (simp add: example_defs example_inv_defs)
  have ev: "stall_events_possible (\<lambda>i. i) 50 ?d"
    by (simp add: stall_events_possible_def example_defs has_workflow_def)
  have len: "length (jobs ?d) \<le> 50" by (simp add: example_defs)
  have j: "example_job 3 ''l'' J_PENDING \<in> set (jobs ?d)" by (simp add: example_defs)
  have row: "cycle_row (\<lambda>_. False) 50 ?d (example_job 3 ''l'' J_PENDING) = (example_job 3 ''l'' J_READY)\<lparr>j_updated_at := 50\<rparr>"
    by (simp add: cycle_row_def lease_expired_def stalled_def ready_to_run_def example_defs get_workflow_def)
  have id: "j_id (example_job 3 ''l'' J_PENDING) = 3" by (simp add: example_job_def)
  obtain c e where c: "run_scheduler_cycle (\<lambda>_. False) (\<lambda>i. i) 50 50 50 50 ?d = Inr (c, e)" "jobs_ok e"
    and rows: "\<forall>j \<in> set (jobs ?d). (\<exists>v. get_job e (j_id j) = Some ((cycle_row (\<lambda>_. False) 50 ?d j)\<lparr>j_version := v\<rparr>))"
    using scheduler_cycle_settles [OF ok ev, of "\<lambda>_. False" 50 50 50] len by blast
  show ?thesis using c bspec [OF rows j, unfolded row id] by auto
qed

end
