(* ===== verification/Idempotency.thy ===== *)
theory Idempotency
  imports Job_Contract Calendar
begin

section \<open>Idempotency keys, effect attempts and receipts\<close>

text \<open>
  \<^verbatim>\<open>orchestration/idempotency.py\<close>: the reservation that must precede an external write, the
  reconciliation record of an effect, and the append-only receipt. Row ids (\<^verbatim>\<open>uuid4\<close>) are the
  argument \<open>fresh\<close>; an optional \<open>now\<close> is passed resolved; a receipt's amount is in hundredths,
  the scale of its column.
\<close>

record idempotency_reservation =
  res_record_id :: uuid
  res_idempotency_key :: string
  res_job_id :: uuid
  res_reserved_at :: time

definition reserve_idempotency_key ::
    "uuid \<Rightarrow> string \<Rightarrow> uuid \<Rightarrow> string \<Rightarrow> side_effect_class \<Rightarrow> time \<Rightarrow> db \<Rightarrow>
     error + (idempotency_reservation \<times> db)" where
  "reserve_idempotency_key fresh idempotency_key job_id operation side_effect_class now d =
     (case insert_idempotency_record \<lparr>ir_id = fresh, ir_idempotency_key = idempotency_key,
          ir_job_id = job_id, ir_operation = operation, ir_side_effect_class = side_effect_class,
          ir_reserved_at = now, ir_completed_at = None\<rparr> d of
        Inl IntegrityError \<Rightarrow> Inl IdempotencyKeyReservedError
      | Inl err \<Rightarrow> Inl err
      | Inr e \<Rightarrow> Inr (\<lparr>res_record_id = fresh, res_idempotency_key = idempotency_key,
          res_job_id = job_id, res_reserved_at = now\<rparr>, e))"

text \<open>\<^verbatim>\<open>scalars().one_or_none()\<close>\<close>

definition one_or_none :: "'a list \<Rightarrow> error + 'a option" where
  "one_or_none xs = (case xs of [] \<Rightarrow> Inr None | [x] \<Rightarrow> Inr (Some x) | _ \<Rightarrow> Inl MultipleResultsFound)"

definition get_idempotency_record :: "string \<Rightarrow> db \<Rightarrow> error + idempotency_record option" where
  "get_idempotency_record idempotency_key d =
     one_or_none (filter (\<lambda>r. ir_idempotency_key r = idempotency_key) (idempotency_records d))"

definition mark_idempotency_completed :: "string \<Rightarrow> time \<Rightarrow> db \<Rightarrow> error + (unit \<times> db)" where
  "mark_idempotency_completed idempotency_key now d =
     bindE (get_idempotency_record idempotency_key d) (\<lambda>r.
     bindE (requireE r (ValueError ''idempotency key not found'')) (\<lambda>record.
     Inr ((), d\<lparr>idempotency_records := map (\<lambda>x. if ir_id x = ir_id record
         then x\<lparr>ir_completed_at := Some now\<rparr> else x) (idempotency_records d)\<rparr>)))"

definition get_latest_effect_attempt :: "string \<Rightarrow> db \<Rightarrow> effect_attempt option" where
  "get_latest_effect_attempt idempotency_key d =
     (case take 1 (sort_key (\<lambda>a. - ea_reconciliation_attempt a)
         (filter (\<lambda>a. ea_idempotency_key a = idempotency_key) (effect_attempts d))) of
        [] \<Rightarrow> None
      | a # _ \<Rightarrow> Some a)"

definition record_effect_attempt ::
    "uuid \<Rightarrow> string \<Rightarrow> uuid \<Rightarrow> uuid option \<Rightarrow> string \<Rightarrow> string \<Rightarrow> effect_state \<Rightarrow> string option \<Rightarrow>
     int \<Rightarrow> time \<Rightarrow> db \<Rightarrow> error + (effect_attempt \<times> db)" where
  "record_effect_attempt fresh idempotency_key job_id agent_run_id provider operation effect_state
       provider_object_id reconciliation_attempt now d =
     (let attempt = \<lparr>ea_id = fresh, ea_idempotency_key = idempotency_key, ea_job_id = job_id,
        ea_agent_run_id = agent_run_id, ea_provider = provider, ea_operation = operation,
        ea_effect_state = effect_state, ea_provider_object_id = provider_object_id,
        ea_reconciliation_attempt = reconciliation_attempt, ea_observed_at = now,
        ea_recorded_at = now\<rparr>
      in bindE (insert_effect_attempt attempt d) (\<lambda>e. Inr (attempt, e)))"

definition record_receipt ::
    "uuid \<Rightarrow> uuid \<Rightarrow> string \<Rightarrow> string \<Rightarrow> string \<Rightarrow> side_effect_class \<Rightarrow> autonomy_mode \<Rightarrow> effect_state \<Rightarrow>
     string option \<Rightarrow> int option \<Rightarrow> string option \<Rightarrow> json option \<Rightarrow> time \<Rightarrow> db \<Rightarrow>
     error + (receipt \<times> db)" where
  "record_receipt fresh job_id idempotency_key provider operation side_effect_class autonomy_mode
       effect_state provider_object_id amount currency safe_detail now d =
     (let receipt = \<lparr>r_id = fresh, r_job_id = job_id, r_idempotency_key = idempotency_key,
        r_provider = provider, r_operation = operation, r_side_effect_class = side_effect_class,
        r_autonomy_mode = autonomy_mode, r_effect_state = effect_state,
        r_provider_object_id = provider_object_id, r_amount = amount, r_currency = currency,
        r_safe_detail = (case safe_detail of None \<Rightarrow> JObj [] | Some x \<Rightarrow> x), r_recorded_at = now\<rparr>
      in bindE (insert_receipt receipt d) (\<lambda>e. Inr (receipt, e)))"

definition is_reconciliation_resolved :: "string \<Rightarrow> db \<Rightarrow> bool" where
  "is_reconciliation_resolved idempotency_key d =
     (case get_latest_effect_attempt idempotency_key d of
        None \<Rightarrow> False
      | Some latest \<Rightarrow> ea_effect_state latest \<in> {X_CONFIRMED, X_ABSENT})"

definition derive_idempotency_key :: "string \<Rightarrow> uuid \<Rightarrow> uuid \<Rightarrow> string \<Rightarrow> string" where
  "derive_idempotency_key job_type workflow_id object_id operation =
     job_type @ '':'' @ str_uuid workflow_id @ '':'' @ str_uuid object_id @ '':'' @ operation"

subsection \<open>Reservations\<close>

lemma reserve_cases:
  assumes "reserve_idempotency_key fresh key i op sc now d = Inr (res, e)"
  obtains "key \<notin> ir_idempotency_key ` set (idempotency_records d)" "has_job d i"
    "res = \<lparr>res_record_id = fresh, res_idempotency_key = key, res_job_id = i, res_reserved_at = now\<rparr>"
    "e = d\<lparr>idempotency_records := idempotency_records d @ [\<lparr>ir_id = fresh, ir_idempotency_key = key,
       ir_job_id = i, ir_operation = op, ir_side_effect_class = sc, ir_reserved_at = now,
       ir_completed_at = None\<rparr>]\<rparr>"
  using assms
  by (auto simp: reserve_idempotency_key_def insert_idempotency_record_def bindE_eq_Inr
      split: sum.splits error.splits)

lemma reserve_taken:
  assumes "key \<in> ir_idempotency_key ` set (idempotency_records d)"
  shows "reserve_idempotency_key fresh key i op sc now d =
     Inl (if fits 200 key \<and> fits 100 op then IdempotencyKeyReservedError else DataError)"
  using assms
  by (auto simp: reserve_idempotency_key_def insert_idempotency_record_def check_idempotency_record_def)

lemma mark_completed_keys:
  assumes "mark_idempotency_completed key now d = Inr (u, e)"
  shows "map ir_idempotency_key (idempotency_records e) = map ir_idempotency_key (idempotency_records d)"
  using assms by (auto simp: mark_idempotency_completed_def bindE_eq_Inr)

text \<open>
  A reserved key stays reserved. Once a reservation of a key has succeeded, every further
  reservation of that key is refused, for any job and at any later time, in every state that
  still holds the record, whether or not the effect has been marked as completed since; the
  first reservation stored the key for exactly the job that asked.
\<close>

theorem reservation_at_most_once:
  assumes "reserve_idempotency_key fresh key i op sc now d = Inr (res, e)"
    and "set (map ir_idempotency_key (idempotency_records e)) \<subseteq>
      set (map ir_idempotency_key (idempotency_records f))"
  shows "res_idempotency_key res = key \<and> res_job_id res = i \<and>
     (\<exists>r \<in> set (idempotency_records e). ir_idempotency_key r = key \<and> ir_job_id r = i) \<and>
     (\<exists>err. reserve_idempotency_key fresh' key i' op' sc' now' f = Inl err \<and>
        (fits 100 op' \<longrightarrow> err = IdempotencyKeyReservedError)) \<and>
     (\<forall>u g. mark_idempotency_completed key' t f = Inr (u, g) \<longrightarrow>
        (\<exists>err. reserve_idempotency_key fresh' key i' op' sc' now' g = Inl err))"
  using assms(1)
proof (cases rule: reserve_cases)
  case 1
  from assms(1) have fits: "fits 200 key"
    by (auto simp: reserve_idempotency_key_def insert_idempotency_record_def
        check_idempotency_record_def bindE_eq_Inr split: sum.splits error.splits)
  have taken: "key \<in> ir_idempotency_key ` set (idempotency_records f)" using assms(2) 1(4) by auto
  have "key \<in> ir_idempotency_key ` set (idempotency_records g)"
    if "mark_idempotency_completed key' t f = Inr (u, g)" for u g
    using mark_completed_keys [OF that] taken by (metis list.set_map)
  with taken 1 fits show ?thesis by (auto simp: reserve_taken)
qed

theorem reservation_at_most_once_witness:
  "\<exists>res e. reserve_idempotency_key 5 ''publish:1'' 2 ''etsy.publish'' EXTERNAL_WRITE 10
       (example_db [example_leased_job 2 ''k'' ''worker-1'']) = Inr (res, e) \<and>
     reserve_idempotency_key 6 ''publish:1'' 2 ''etsy.publish'' EXTERNAL_WRITE 20 e =
       Inl IdempotencyKeyReservedError"
proof -
  let ?d = "example_db [example_leased_job 2 ''k'' ''worker-1'']"
  have "\<exists>res e. reserve_idempotency_key 5 ''publish:1'' 2 ''etsy.publish'' EXTERNAL_WRITE 10 ?d =
      Inr (res, e)"
    by (simp add: reserve_idempotency_key_def insert_idempotency_record_def example_defs
        check_idempotency_record_def fits_def has_job_def)
  then obtain res e where
    r: "reserve_idempotency_key 5 ''publish:1'' 2 ''etsy.publish'' EXTERNAL_WRITE 10 ?d = Inr (res, e)"
    by blast
  have "fits 100 ''etsy.publish''" by (simp add: fits_def)
  with reservation_at_most_once [OF r subset_refl, of 6 2 "''etsy.publish''" EXTERNAL_WRITE 20] r
  show ?thesis by blast
qed

subsection \<open>Derived keys\<close>

text \<open>
  Derived keys do not collide. Two derived keys are equal only for the same job type,
  workflow, object and operation, when the job types contain no colon (the operations may).
\<close>

theorem derived_keys_distinct:
  assumes "CHR '':'' \<notin> set job_type" and "CHR '':'' \<notin> set job_type'"
    and "derive_idempotency_key job_type w i op = derive_idempotency_key job_type' w' i' op'"
  shows "job_type = job_type' \<and> w = w' \<and> i = i' \<and> op = op'"
proof -
  have "job_type @ CHR '':'' # (str_uuid w @ CHR '':'' # (str_uuid i @ CHR '':'' # op)) =
    job_type' @ CHR '':'' # (str_uuid w' @ CHR '':'' # (str_uuid i' @ CHR '':'' # op'))"
    using assms(3) by (simp add: derive_idempotency_key_def)
  from append_sep_inj [OF this assms(1,2)] have 1: "job_type = job_type'"
    "str_uuid w @ CHR '':'' # (str_uuid i @ CHR '':'' # op) =
     str_uuid w' @ CHR '':'' # (str_uuid i' @ CHR '':'' # op')" by auto
  from append_sep_inj [OF 1(2)] have 2: "w = w'"
    "str_uuid i @ CHR '':'' # op = str_uuid i' @ CHR '':'' # op'" by auto
  from append_sep_inj [OF 2(2)] 1 2 show ?thesis by auto
qed

theorem derived_keys_distinct_witness:
  "derive_idempotency_key ''PublishListingJob'' 1 2 ''etsy:publish'' \<noteq>
   derive_idempotency_key ''PublishListingJob'' 1 3 ''etsy:publish''"
proof
  assume eq: "derive_idempotency_key ''PublishListingJob'' 1 2 ''etsy:publish'' =
    derive_idempotency_key ''PublishListingJob'' 1 3 ''etsy:publish''"
  have "CHR '':'' \<notin> set ''PublishListingJob''" by simp
  from derived_keys_distinct [OF this this eq] show False by simp
qed

subsection \<open>The latest attempt\<close>

lemma latest_attempt_None:
  "get_latest_effect_attempt key d = None \<longleftrightarrow>
     (\<forall>a \<in> set (effect_attempts d). ea_idempotency_key a \<noteq> key)"
proof -
  let ?s = "sort_key (\<lambda>a. - ea_reconciliation_attempt a)
    (filter (\<lambda>a. ea_idempotency_key a = key) (effect_attempts d))"
  have "get_latest_effect_attempt key d = None \<longleftrightarrow> ?s = []"
    by (cases ?s) (auto simp: get_latest_effect_attempt_def)
  also have "\<dots> \<longleftrightarrow> set ?s = {}" by (simp only: set_empty)
  also have "\<dots> \<longleftrightarrow> (\<forall>a \<in> set (effect_attempts d). ea_idempotency_key a \<noteq> key)"
    unfolding set_sort by auto
  finally show ?thesis .
qed

lemma latest_attempt_Some:
  assumes "get_latest_effect_attempt key d = Some a"
  shows "a \<in> set (effect_attempts d)" and "ea_idempotency_key a = key"
    and "\<And>b. b \<in> set (effect_attempts d) \<Longrightarrow> ea_idempotency_key b = key \<Longrightarrow>
      ea_reconciliation_attempt b \<le> ea_reconciliation_attempt a"
proof -
  let ?P = "\<lambda>a. ea_idempotency_key a = key"
  let ?s = "sort_key (\<lambda>a. - ea_reconciliation_attempt a) (filter ?P (effect_attempts d))"
  from assms obtain t where s: "?s = a # t" and one: "take (Suc 0) ?s = [a]"
    by (cases ?s) (auto simp: get_latest_effect_attempt_def)
  show "a \<in> set (effect_attempts d)" "ea_idempotency_key a = key"
    using hd_sort_key_mem [OF s] by auto
  show "ea_reconciliation_attempt b \<le> ea_reconciliation_attempt a"
    if "b \<in> set (effect_attempts d)" "ea_idempotency_key b = key" for b
    using take_sort_key_hd [OF one that] by simp
qed

text \<open>Appending an attempt with a higher count makes it the latest one.\<close>

lemma latest_attempt_append:
  assumes "\<And>b. b \<in> set (effect_attempts d) \<Longrightarrow> ea_idempotency_key b = ea_idempotency_key a \<Longrightarrow>
      ea_reconciliation_attempt b < ea_reconciliation_attempt a"
  shows "get_latest_effect_attempt (ea_idempotency_key a)
     (d\<lparr>effect_attempts := effect_attempts d @ [a]\<rparr>) = Some a"
proof -
  let ?e = "d\<lparr>effect_attempts := effect_attempts d @ [a]\<rparr>"
  have "get_latest_effect_attempt (ea_idempotency_key a) ?e \<noteq> None"
    by (auto simp: latest_attempt_None)
  then obtain b where b: "get_latest_effect_attempt (ea_idempotency_key a) ?e = Some b" by blast
  note l = latest_attempt_Some [OF b]
  have "ea_reconciliation_attempt a \<le> ea_reconciliation_attempt b" by (rule l(3)) simp_all
  then have "b = a" using l(1,2) assms by fastforce
  with b show ?thesis by simp
qed

end
