(* ===== verification/Reconciliation.thy ===== *)
theory Reconciliation
  imports Idempotency
begin

section \<open>Reconciliation of uncertain effects\<close>

text \<open>
  \<^verbatim>\<open>orchestration/reconciliation.py\<close>: an external write whose outcome is unknown is resolved by
  asking the provider, at most \<open>max_reconciliation_attempts\<close> times. The provider adapter
  (\<^verbatim>\<open>ProviderReconciler\<close>, an interface without an implementation in this package) is the
  argument \<open>query\<close>; its documented results are the hypothesis \<open>documented_reconciler\<close>.
\<close>

type_synonym reconciler = "string \<Rightarrow> string \<Rightarrow> error + (effect_state \<times> string option)"

record reconciliation_result =
  rr_effect_state :: effect_state
  rr_next_job_status :: job_status
  rr_reconciliation_attempt :: int
  rr_provider_object_id :: "string option"
  rr_reason :: string

definition extract_provider :: "string \<Rightarrow> string" where
  "extract_provider operation =
     (if CHR ''.'' \<in> set operation then takeWhile (\<lambda>c. c \<noteq> CHR ''.'') operation else operation)"

definition next_status_after :: "effect_state \<Rightarrow> int \<Rightarrow> int \<Rightarrow> job_status \<times> string" where
  "next_status_after effect_state next_reconciliation max_reconciliation_attempts =
     (case effect_state of
        X_CONFIRMED \<Rightarrow> (J_SUCCEEDED,
          ''reconciled as CONFIRMED (attempt '' @ str_int next_reconciliation @ '')'')
      | X_ABSENT \<Rightarrow> (J_FAILED,
          ''reconciled as ABSENT (attempt '' @ str_int next_reconciliation @ '')'')
      | X_UNKNOWN \<Rightarrow>
          (if max_reconciliation_attempts \<le> next_reconciliation
           then (J_BLOCKED, ''reconciliation budget exhausted after '' @
             str_int next_reconciliation @ '' attempts'')
           else (J_UNCERTAIN_EXTERNAL_EFFECT, ''still UNKNOWN after '' @
             str_int next_reconciliation @ '' attempts'')))"

definition reconcile_uncertain_effect ::
    "uuid \<Rightarrow> uuid \<Rightarrow> reconciler \<Rightarrow> int \<Rightarrow> time \<Rightarrow> db \<Rightarrow> error + (reconciliation_result \<times> db)" where
  "reconcile_uncertain_effect fresh job_id query max_reconciliation_attempts now d =
     bindE (requireE (get_job d job_id) (ValueError ''job not found'')) (\<lambda>job.
     bindE (guardE (j_status job = J_UNCERTAIN_EXTERNAL_EFFECT)
        (ValueError ''expected UNCERTAIN_EXTERNAL_EFFECT'')) (\<lambda>_.
     bindE (get_idempotency_record (j_idempotency_key job) d) (\<lambda>r.
     bindE (requireE r (ValueError ''no idempotency record'')) (\<lambda>idempotency_record.
     let current_reconciliation = (case get_latest_effect_attempt (j_idempotency_key job) d of
            None \<Rightarrow> 0 | Some latest \<Rightarrow> ea_reconciliation_attempt latest);
         next_reconciliation = current_reconciliation + 1
     in bindE (guardE (next_reconciliation \<le> max_reconciliation_attempts)
          ReconciliationBudgetExhausted) (\<lambda>_.
        bindE (query (j_idempotency_key job) (ir_operation idempotency_record)) (\<lambda>(effect_state, obj).
        bindE (record_effect_attempt fresh (j_idempotency_key job) job_id None
            (extract_provider (ir_operation idempotency_record)) (ir_operation idempotency_record)
            effect_state obj next_reconciliation now d) (\<lambda>(_, e).
        case next_status_after effect_state next_reconciliation max_reconciliation_attempts of
          (next_status, reason) \<Rightarrow>
            Inr (\<lparr>rr_effect_state = effect_state, rr_next_job_status = next_status,
                  rr_reconciliation_attempt = next_reconciliation, rr_provider_object_id = obj,
                  rr_reason = reason\<rparr>, e))))))))"

definition apply_reconciliation_result ::
    "uuid \<Rightarrow> reconciliation_result \<Rightarrow> time \<Rightarrow> db \<Rightarrow> error + (unit \<times> db)" where
  "apply_reconciliation_result job_id result now d =
     bindE (requireE (get_job d job_id) (ValueError ''job not found'')) (\<lambda>job.
     if j_status job = rr_next_job_status result \<and>
        rr_next_job_status result = J_UNCERTAIN_EXTERNAL_EFFECT
     then Inr ((), d)
     else bindE (require_job_transition (j_status job) (rr_next_job_status result)) (\<lambda>_.
       bindE (flush_job (job\<lparr>j_status := rr_next_job_status result, j_updated_at := now\<rparr>) d) (\<lambda>e.
       Inr ((), e))))"

text \<open>One reconciliation as its callers perform it: query, then apply the result.\<close>

definition reconcile_and_apply ::
    "uuid \<Rightarrow> uuid \<Rightarrow> reconciler \<Rightarrow> int \<Rightarrow> time \<Rightarrow> db \<Rightarrow> error + (reconciliation_result \<times> db)" where
  "reconcile_and_apply fresh job_id query max_attempts now d =
     bindE (reconcile_uncertain_effect fresh job_id query max_attempts now d) (\<lambda>(result, e).
     bindE (apply_reconciliation_result job_id result now e) (\<lambda>(_, f). Inr (result, f)))"

text \<open>
  The documented results of a provider adapter: \<^verbatim>\<open>(CONFIRMED, object_id)\<close>, \<^verbatim>\<open>(ABSENT, None)\<close> or
  \<^verbatim>\<open>(UNKNOWN, None)\<close>. An object id need not fit the column of \<^verbatim>\<open>effect_attempts\<close>.
\<close>

definition documented_reconciler :: "reconciler \<Rightarrow> bool" where
  "documented_reconciler query \<longleftrightarrow> (\<forall>key op. \<exists>s obj. query key op = Inr (s, obj) \<and>
     (s = X_CONFIRMED \<longleftrightarrow> obj \<noteq> None))"

subsection \<open>Behaviour of one reconciliation\<close>

lemma next_status_cases:
  "fst (next_status_after s n m) =
     (if s = X_CONFIRMED then J_SUCCEEDED else if s = X_ABSENT then J_FAILED
      else if m \<le> n then J_BLOCKED else J_UNCERTAIN_EXTERNAL_EFFECT)"
  by (cases s) (simp_all add: next_status_after_def)

definition reconciliation_count :: "string \<Rightarrow> db \<Rightarrow> int" where
  "reconciliation_count key d = (case get_latest_effect_attempt key d of
     None \<Rightarrow> 0 | Some a \<Rightarrow> ea_reconciliation_attempt a)"

lemma reconcile_cases:
  assumes "reconcile_uncertain_effect fresh i query m now d = Inr (res, e)"
  obtains j ir s obj a where "get_job d i = Some j" "j_status j = J_UNCERTAIN_EXTERNAL_EFFECT"
    "get_idempotency_record (j_idempotency_key j) d = Inr (Some ir)"
    "reconciliation_count (j_idempotency_key j) d + 1 \<le> m"
    "query (j_idempotency_key j) (ir_operation ir) = Inr (s, obj)"
    "insert_effect_attempt a d = Inr e" "ea_idempotency_key a = j_idempotency_key j" "ea_effect_state a = s"
    "ea_reconciliation_attempt a = reconciliation_count (j_idempotency_key j) d + 1" "ea_job_id a = i"
    "rr_effect_state res = s"
    "rr_reconciliation_attempt res = reconciliation_count (j_idempotency_key j) d + 1"
    "rr_next_job_status res = fst (next_status_after s (reconciliation_count (j_idempotency_key j) d + 1) m)"
    "ea_id a = fresh"
  using assms
  by (auto simp: reconcile_uncertain_effect_def bindE_eq_Inr Let_def record_effect_attempt_def
      reconciliation_count_def [symmetric] case_prod_unfold)

lemma insert_effect_attempt_eq:
  "insert_effect_attempt a d = Inr e \<Longrightarrow> e = d\<lparr>effect_attempts := effect_attempts d @ [a]\<rparr>"
  by (auto simp: insert_effect_attempt_def bindE_eq_Inr)

lemma reconcile_keeps_jobs:
  assumes "reconcile_uncertain_effect fresh i query m now d = Inr (res, e)"
  shows "jobs e = jobs d" and "get_job e k = get_job d k"
  using assms by (auto elim!: reconcile_cases dest!: insert_effect_attempt_eq simp: get_job_def)

lemma reconciliation_count_step:
  assumes "insert_effect_attempt a d = Inr e" and "0 \<le> reconciliation_count (ea_idempotency_key a) d"
    and "ea_reconciliation_attempt a = reconciliation_count (ea_idempotency_key a) d + 1"
  shows "get_latest_effect_attempt (ea_idempotency_key a) e = Some a"
  unfolding insert_effect_attempt_eq [OF assms(1)]
proof (rule latest_attempt_append)
  fix b
  assume b: "b \<in> set (effect_attempts d)" "ea_idempotency_key b = ea_idempotency_key a"
  then obtain x where x: "get_latest_effect_attempt (ea_idempotency_key a) d = Some x"
    by (metis latest_attempt_None option.exhaust)
  show "ea_reconciliation_attempt b < ea_reconciliation_attempt a"
    using latest_attempt_Some(3) [OF x b] assms(3) by (simp add: reconciliation_count_def x)
qed

lemma reconcile_evolves:
  assumes "jobs_ok d" and "reconcile_and_apply fresh i query m now d = Inr (res, f)"
  shows "db_evolves d f"
proof -
  from assms(2) obtain e u where e: "reconcile_uncertain_effect fresh i query m now d = Inr (res, e)"
    and f: "apply_reconciliation_result i res now e = Inr (u, f)"
    by (auto simp: reconcile_and_apply_def bindE_eq_Inr)
  have ev: "db_evolves d e" by (rule db_evolves_same_jobs [OF reconcile_keeps_jobs(1) [OF e]])
  have ok: "jobs_ok e" by (rule db_evolves_ok [OF ev assms(1)])
  from e obtain j where j: "get_job e i = Some j" "j_status j = J_UNCERTAIN_EXTERNAL_EFFECT"
    using reconcile_keeps_jobs(2) [OF e] by (auto elim!: reconcile_cases)
  have id: "j_id j = i" using job_store.get_member [OF j(1)] by simp
  have "db_evolves e f"
  proof (cases "rr_next_job_status res = J_UNCERTAIN_EXTERNAL_EFFECT")
    case True
    with f j show ?thesis by (simp add: apply_reconciliation_result_def)
  next
    case False
    with f j have flush: "flush_job (j\<lparr>j_status := rr_next_job_status res, j_updated_at := now\<rparr>) e = Inr f"
      and step: "rr_next_job_status res \<in> JOB_TRANSITIONS J_UNCERTAIN_EXTERNAL_EFFECT"
      by (auto simp: apply_reconciliation_result_def bindE_eq_Inr)
    show ?thesis
      by (rule flush_job_step [OF flush ok, of j])
        (use j id step in \<open>auto simp: job_frame_def job_inv_def lease_fields_clear_def lease_abandoned_def
          live_status_def intro!: status_path_step\<close>)
  qed
  with ev show ?thesis by (rule db_evolves_trans)
qed

interpretation reconcile_op: job_operation "reconcile_and_apply fresh i query m now"
  for fresh i query m now
  by unfold_locales (rule reconcile_evolves)

subsection \<open>Properties\<close>

text \<open>A state in which a reconciliation of the job can run.\<close>

definition reconcilable :: "db \<Rightarrow> uuid \<Rightarrow> string \<Rightarrow> bool" where
  "reconcilable d i key \<longleftrightarrow> jobs_ok d \<and>
     (\<exists>j ir. get_job d i = Some j \<and> j_status j = J_UNCERTAIN_EXTERNAL_EFFECT \<and> j_idempotency_key j = key \<and>
        get_idempotency_record key d = Inr (Some ir) \<and> fits 100 (ir_operation ir) \<and>
        fits 64 (extract_provider (ir_operation ir))) \<and>
     (\<forall>a \<in> set (effect_attempts d). 0 \<le> ea_reconciliation_attempt a)"

lemma reconciliation_count_nonneg: "reconcilable d i key \<Longrightarrow> 0 \<le> reconciliation_count k d"
  by (auto simp: reconcilable_def reconciliation_count_def dest: latest_attempt_Some(1)
      split: option.splits)

lemma count_not_used:
  assumes "a \<in> set (effect_attempts d)" and "ea_idempotency_key a = key"
  shows "ea_reconciliation_attempt a \<le> reconciliation_count key d"
proof -
  obtain x where x: "get_latest_effect_attempt key d = Some x"
    using assms by (metis latest_attempt_None option.exhaust)
  with latest_attempt_Some(3) [OF x assms] show ?thesis by (simp add: reconciliation_count_def)
qed

text \<open>The answer of one query, for the operation that was reserved under the key.\<close>

definition answers :: "reconciler \<Rightarrow> string \<Rightarrow> db \<Rightarrow> effect_state \<Rightarrow> string option \<Rightarrow> bool" where
  "answers query key d s obj \<longleftrightarrow>
     (\<exists>ir. get_idempotency_record key d = Inr (Some ir) \<and> query key (ir_operation ir) = Inr (s, obj))"

lemma documented_answers:
  assumes "reconcilable d i key" and "documented_reconciler query"
  obtains s obj where "answers query key d s obj" "s = X_CONFIRMED \<longleftrightarrow> obj \<noteq> None"
  using assms unfolding reconcilable_def documented_reconciler_def answers_def by metis

lemma reconcile_outcome:
  assumes "reconcilable d i key" and "answers query key d s obj" and "s = X_CONFIRMED \<longleftrightarrow> obj \<noteq> None"
    and "reconciliation_count key d < m" and "fresh \<notin> ea_id ` set (effect_attempts d)"
  shows "if fits_opt 200 obj
     then \<exists>res e. reconcile_uncertain_effect fresh i query m now d = Inr (res, e) \<and> rr_effect_state res = s
     else reconcile_uncertain_effect fresh i query m now d = Inl DataError"
proof -
  from assms(1) obtain j ir where j: "get_job d i = Some j" "j_status j = J_UNCERTAIN_EXTERNAL_EFFECT"
    "j_idempotency_key j = key" "get_idempotency_record key d = Inr (Some ir)"
    "fits 100 (ir_operation ir)" "fits 64 (extract_provider (ir_operation ir))" "jobs_ok d"
    by (auto simp: reconcilable_def)
  have q: "query key (ir_operation ir) = Inr (s, obj)" using assms(2) j(4) by (auto simp: answers_def)
  have "job_inv j" using jobs_ok_get j(1,7) by blast
  then have "fits 200 key" using j(3) by (auto simp: job_inv_def check_job_def bindE_eq_Inr)
  moreover have "has_job d i" using job_store.get_member [OF j(1)] by (auto simp: has_job_def)
  moreover have "(key, reconciliation_count key d + 1) \<notin>
      (\<lambda>x. (ea_idempotency_key x, ea_reconciliation_attempt x)) ` set (effect_attempts d)"
    using count_not_used by fastforce
  moreover have "0 \<le> reconciliation_count key d" using reconciliation_count_nonneg [OF assms(1)] .
  moreover have "effect_state_evidence s obj"
    using assms(3) by (cases s) (auto simp: effect_state_evidence_def)
  ultimately show ?thesis
    using j q assms(4,5)
    by (simp add: reconcile_uncertain_effect_def reconciliation_count_def [symmetric] Let_def
        record_effect_attempt_def insert_effect_attempt_def check_effect_attempt_def case_prod_unfold)
qed

lemma apply_succeeds:
  assumes "jobs_ok d" and "get_job d i = Some j" and "j_status j = J_UNCERTAIN_EXTERNAL_EFFECT"
    and "rr_next_job_status res \<in> {J_SUCCEEDED, J_FAILED, J_BLOCKED, J_UNCERTAIN_EXTERNAL_EFFECT}"
  shows "\<exists>e k. apply_reconciliation_result i res now d = Inr ((), e) \<and> get_job e i = Some k \<and>
     j_status k = rr_next_job_status res \<and> effect_attempts e = effect_attempts d \<and>
     idempotency_records e = idempotency_records d \<and> j_idempotency_key k = j_idempotency_key j"
proof (cases "rr_next_job_status res = J_UNCERTAIN_EXTERNAL_EFFECT")
  case True
  with assms show ?thesis by (simp add: apply_reconciliation_result_def)
next
  case False
  let ?k = "j\<lparr>j_status := rr_next_job_status res, j_updated_at := now\<rparr>"
  have id: "j_id j = i" using job_store.get_member [OF assms(2)] by simp
  have "check_job ?k = Inr ()" using jobs_ok_get [OF assms(1,2)] by (simp add: job_inv_def check_job_def)
  then obtain e where e: "flush_job ?k d = Inr e"
    using flush_job_total [of d ?k j] assms(2) id by auto
  moreover obtain js where "e = d\<lparr>jobs := js\<rparr>" using flush_job_tables [OF e] by blast
  ultimately show ?thesis
    using flush_job_get [OF e] assms False id
    by (auto simp: apply_reconciliation_result_def require_job_transition_def)
qed

lemma reconcile_step:
  assumes "reconcilable d i key" and "answers query key d s obj" and "s = X_CONFIRMED \<longleftrightarrow> obj \<noteq> None"
    and "fits_opt 200 obj" and "fresh \<notin> ea_id ` set (effect_attempts d)" and "reconciliation_count key d < m"
  shows "\<exists>res e k. reconcile_and_apply fresh i query m now d = Inr (res, e) \<and> jobs_ok e \<and>
     get_job e i = Some k \<and> j_idempotency_key k = key \<and> rr_effect_state res = s \<and>
     j_status k = fst (next_status_after s (reconciliation_count key d + 1) m) \<and>
     reconciliation_count key e = reconciliation_count key d + 1 \<and>
     is_reconciliation_resolved key e = (s \<noteq> X_UNKNOWN) \<and>
     ea_id ` set (effect_attempts e) = insert fresh (ea_id ` set (effect_attempts d)) \<and>
     idempotency_records e = idempotency_records d \<and>
     (\<forall>a \<in> set (effect_attempts e). 0 \<le> ea_reconciliation_attempt a)"
proof -
  have ok: "jobs_ok d" and nonneg: "\<forall>a \<in> set (effect_attempts d). 0 \<le> ea_reconciliation_attempt a"
    using assms(1) by (simp_all add: reconcilable_def)
  from reconcile_outcome [OF assms(1,2,3,6,5), of now] assms(4) obtain res e where
    r: "reconcile_uncertain_effect fresh i query m now d = Inr (res, e)" and rs: "rr_effect_state res = s" by auto
  have oke: "jobs_ok e"
    using db_evolves_ok [OF db_evolves_same_jobs [OF reconcile_keeps_jobs(1) [OF r]] ok] .
  from r show ?thesis
  proof (cases rule: reconcile_cases)
    case (1 j ir s' obj' a)
    have ss: "s' = s" using 1(11) rs by simp
    have key: "j_idempotency_key j = key" using assms(1) 1(1) by (auto simp: reconcilable_def)
    have fresh: "ea_id a = fresh" "effect_attempts e = effect_attempts d @ [a]"
      "idempotency_records e = idempotency_records d"
      using insert_effect_attempt_eq [OF 1(6)] 1(14) by simp_all
    have get: "get_job e i = Some j" using reconcile_keeps_jobs(2) [OF r] 1(1) by simp
    have count: "0 \<le> reconciliation_count key d" using reconciliation_count_nonneg [OF assms(1)] .
    have latest: "get_latest_effect_attempt key e = Some a"
      using reconciliation_count_step [OF 1(6)] count 1(7,9) key by simp
    have "rr_next_job_status res \<in> {J_SUCCEEDED, J_FAILED, J_BLOCKED, J_UNCERTAIN_EXTERNAL_EFFECT}"
      unfolding 1(13) next_status_cases by simp
    from apply_succeeds [OF oke get 1(2) this, of now] obtain f k where
      f: "apply_reconciliation_result i res now e = Inr ((), f)" "get_job f i = Some k"
        "j_status k = rr_next_job_status res" "effect_attempts f = effect_attempts e"
        "idempotency_records f = idempotency_records e" "j_idempotency_key k = j_idempotency_key j"
      by blast
    then have run: "reconcile_and_apply fresh i query m now d = Inr (res, f)"
      using r by (simp add: reconcile_and_apply_def)
    have "get_latest_effect_attempt key f = Some a"
      using latest f(4) by (simp add: get_latest_effect_attempt_def)
    then have "reconciliation_count key f = reconciliation_count key d + 1"
      "is_reconciliation_resolved key f = (s \<noteq> X_UNKNOWN)"
      using 1(8,9) ss key
      by (cases s; simp add: reconciliation_count_def is_reconciliation_resolved_def)+
    moreover have "\<forall>x \<in> set (effect_attempts f). 0 \<le> ea_reconciliation_attempt x"
      using nonneg fresh(2) f(4) 1(9) count key by auto
    ultimately show ?thesis
      using run f reconcile_op.keeps_jobs_ok [OF ok run] 1(13) rs ss key fresh by auto
  qed
qed

definition example_uncertain_db :: db where
  "example_uncertain_db = (example_db [example_job 2 ''k'' J_UNCERTAIN_EXTERNAL_EFFECT])
     \<lparr>idempotency_records := [\<lparr>ir_id = 4, ir_idempotency_key = ''k'', ir_job_id = 2,
        ir_operation = ''etsy.publish'', ir_side_effect_class = EXTERNAL_WRITE, ir_reserved_at = 0,
        ir_completed_at = None\<rparr>]\<rparr>"

lemma example_reconcilable: "reconcilable example_uncertain_db 2 ''k''"
  by (simp add: reconcilable_def example_uncertain_db_def example_defs example_inv_defs
      get_idempotency_record_def one_or_none_def extract_provider_def)

lemma example_count: "reconciliation_count ''k'' example_uncertain_db = 0"
  by (simp add: reconciliation_count_def get_latest_effect_attempt_def example_uncertain_db_def
      example_defs)

lemma example_reconciler:
  "documented_reconciler (\<lambda>_ _. Inr (X_UNKNOWN, None))"
  "documented_reconciler (\<lambda>_ _. Inr (X_CONFIRMED, Some ''listing-1''))"
  by (simp_all add: documented_reconciler_def)

text \<open>One round of a caller that reconciles a job again as long as it stays uncertain.\<close>

type_synonym reconciliation_call = "uuid \<times> reconciler \<times> time"

definition reconcile_call :: "uuid \<Rightarrow> int \<Rightarrow> reconciliation_call \<Rightarrow> db \<Rightarrow> error + db" where
  "reconcile_call i m call d = (case call of (fresh, query, now) \<Rightarrow>
     bindE (reconcile_and_apply fresh i query m now d) (\<lambda>(_, e). Inr e))"

text \<open>
  One reconciliation with a budget left. An object id that does not fit its column makes the
  database refuse the attempt and nothing changes. Otherwise the call completes, records exactly
  one more attempt and moves the job to the status that the answer determines: \<open>SUCCEEDED\<close> when
  the effect is confirmed, \<open>FAILED\<close> when it is absent, and otherwise it stays uncertain until the
  last attempt of the budget, which blocks it. Once the budget is used up, no query is made.
\<close>

lemma reconcile_call_outcome:
  assumes "reconcilable d i key" and "answers query key d s obj" and "s = X_CONFIRMED \<longleftrightarrow> obj \<noteq> None"
    and "fresh \<notin> ea_id ` set (effect_attempts d)"
  shows "if m \<le> reconciliation_count key d then reconcile_call i m (fresh, query, now) d = Inl ReconciliationBudgetExhausted
     else if \<not> fits_opt 200 obj then reconcile_call i m (fresh, query, now) d = Inl DataError
     else \<exists>e k. reconcile_call i m (fresh, query, now) d = Inr e \<and> jobs_ok e \<and>
       get_job e i = Some k \<and> j_idempotency_key k = key \<and>
       j_status k = (case s of X_CONFIRMED \<Rightarrow> J_SUCCEEDED | X_ABSENT \<Rightarrow> J_FAILED
         | X_UNKNOWN \<Rightarrow> if reconciliation_count key d + 1 = m then J_BLOCKED
             else J_UNCERTAIN_EXTERNAL_EFFECT) \<and>
       reconciliation_count key e = reconciliation_count key d + 1 \<and>
       ea_id ` set (effect_attempts e) = insert fresh (ea_id ` set (effect_attempts d)) \<and>
       idempotency_records e = idempotency_records d \<and>
       (\<forall>a \<in> set (effect_attempts e). 0 \<le> ea_reconciliation_attempt a)"
proof -
  consider (spent) "m \<le> reconciliation_count key d" | (long) "reconciliation_count key d < m" "\<not> fits_opt 200 obj"
    | (fine) "reconciliation_count key d < m" "fits_opt 200 obj" by linarith
  then show ?thesis
  proof cases
    case spent
    then show ?thesis using assms(1)
      by (auto simp: reconcilable_def reconcile_call_def reconcile_and_apply_def reconcile_uncertain_effect_def
          reconciliation_count_def [symmetric] Let_def)
  next
    case long
    then show ?thesis using reconcile_outcome [OF assms(1,2,3) long(1) assms(4), of now]
      by (simp add: reconcile_call_def reconcile_and_apply_def)
  next
    case fine
    from reconcile_step [OF assms(1,2,3) fine(2) assms(4) fine(1), of now] obtain res e k where
      r: "reconcile_and_apply fresh i query m now d = Inr (res, e)" "jobs_ok e" "get_job e i = Some k"
        "j_idempotency_key k = key"
        "j_status k = fst (next_status_after s (reconciliation_count key d + 1) m)"
        "reconciliation_count key e = reconciliation_count key d + 1"
        "ea_id ` set (effect_attempts e) = insert fresh (ea_id ` set (effect_attempts d))"
        "idempotency_records e = idempotency_records d"
        "\<forall>a \<in> set (effect_attempts e). 0 \<le> ea_reconciliation_attempt a" by blast
    have "j_status k = (case s of X_CONFIRMED \<Rightarrow> J_SUCCEEDED | X_ABSENT \<Rightarrow> J_FAILED
         | X_UNKNOWN \<Rightarrow> if reconciliation_count key d + 1 = m then J_BLOCKED else J_UNCERTAIN_EXTERNAL_EFFECT)"
      using fine(1) unfolding r(5) next_status_cases by (cases s) auto
    then show ?thesis using fine r by (simp add: reconcile_call_def)
  qed
qed

text \<open>
  C8: an uncertain effect does not stay uncertain. Let a caller reconcile the job again and again,
  every call with its own provider, which may answer anything it is documented to answer, and its
  own time. Then within the budget either a call settles the job, as SUCCEEDED after a confirmed
  effect, FAILED after an absent one, and BLOCKED after unknown answers that used up the whole
  budget; or a provider names an object whose id is longer than its column, and that call is
  refused by the database with the job still uncertain.
\<close>

theorem uncertain_effect_is_settled:
  assumes "reconcilable d i key" and "reconciliation_count key d < m"
    and "\<forall>(fresh, query, now) \<in> set calls. documented_reconciler query"
    and "distinct (map fst calls)" and "fst ` set calls \<inter> ea_id ` set (effect_attempts d) = {}"
    and "m - reconciliation_count key d \<le> int (length calls)"
  shows "\<exists>n e k s obj. n < length calls \<and> int n < m - reconciliation_count key d \<and>
     foldE (reconcile_call i m) (take n calls) d = Inr e \<and> answers (fst (snd (calls ! n))) key e s obj \<and>
     get_job e i = Some k \<and> j_status k = J_UNCERTAIN_EXTERNAL_EFFECT \<and>
     (if fits_opt 200 obj then \<exists>e' k'. reconcile_call i m (calls ! n) e = Inr e' \<and> jobs_ok e' \<and> get_job e' i = Some k' \<and>
          j_status k' = (case s of X_CONFIRMED \<Rightarrow> J_SUCCEEDED | X_ABSENT \<Rightarrow> J_FAILED | X_UNKNOWN \<Rightarrow> J_BLOCKED) \<and>
          (s = X_UNKNOWN \<longrightarrow> int n + 1 = m - reconciliation_count key d)
      else s = X_CONFIRMED \<and> reconcile_call i m (calls ! n) e = Inl DataError)"
  using assms
proof (induction calls arbitrary: d)
  case Nil
  then show ?case by simp
next
  case (Cons c calls)
  obtain fresh query now where c: "c = (fresh, query, now)" by (cases c)
  obtain s obj where a: "answers query key d s obj" "s = X_CONFIRMED \<longleftrightarrow> obj \<noteq> None"
    using documented_answers [OF Cons.prems(1)] Cons.prems(3) c by auto
  have fresh: "fresh \<notin> ea_id ` set (effect_attempts d)" using Cons.prems(5) c by simp
  note o = reconcile_call_outcome [OF Cons.prems(1) a fresh, of m now]
  obtain j where j: "get_job d i = Some j" "j_status j = J_UNCERTAIN_EXTERNAL_EFFECT"
    using Cons.prems(1) by (auto simp: reconcilable_def)
  show ?case
  proof (cases "fits_opt 200 obj \<and> s = X_UNKNOWN \<and> reconciliation_count key d + 1 \<noteq> m")
    case False
    have "if fits_opt 200 obj then \<exists>e' k'. reconcile_call i m c d = Inr e' \<and> jobs_ok e' \<and> get_job e' i = Some k' \<and>
          j_status k' = (case s of X_CONFIRMED \<Rightarrow> J_SUCCEEDED | X_ABSENT \<Rightarrow> J_FAILED | X_UNKNOWN \<Rightarrow> J_BLOCKED) \<and>
          (s = X_UNKNOWN \<longrightarrow> 1 = m - reconciliation_count key d)
        else s = X_CONFIRMED \<and> reconcile_call i m c d = Inl DataError"
      using o False Cons.prems(2) a(2) by (cases s) (auto simp: c fits_opt_def split: if_splits)
    then show ?thesis
      using a(1) j Cons.prems(2) c
      by (intro exI [of _ 0] exI [of _ d] exI [of _ j] exI [of _ s] exI [of _ obj]) (auto split: if_splits)
  next
    case True
    with o Cons.prems(2) obtain e k where r: "reconcile_call i m c d = Inr e" "jobs_ok e" "get_job e i = Some k"
        "j_idempotency_key k = key" "j_status k = J_UNCERTAIN_EXTERNAL_EFFECT"
        "reconciliation_count key e = reconciliation_count key d + 1"
        "ea_id ` set (effect_attempts e) = insert fresh (ea_id ` set (effect_attempts d))"
        "idempotency_records e = idempotency_records d"
        "\<forall>a \<in> set (effect_attempts e). 0 \<le> ea_reconciliation_attempt a" by (auto simp: c)
    have rec: "reconcilable e i key"
      using Cons.prems(1) r by (auto simp: reconcilable_def get_idempotency_record_def)
    have less: "reconciliation_count key e < m" using True Cons.prems(2) r(6) by linarith
    have new: "fst ` set calls \<inter> ea_id ` set (effect_attempts e) = {}" using Cons.prems(4,5) r(7) c by (auto simp: image_iff)
    have docs: "\<forall>(fresh, query, now) \<in> set calls. documented_reconciler query" using Cons.prems(3) by simp
    have dist: "distinct (map fst calls)" using Cons.prems(4) by simp
    have len: "m - reconciliation_count key e \<le> int (length calls)" using Cons.prems(6) r(6) by simp
    obtain n e' k' s' obj' where "n < length calls" "int n < m - reconciliation_count key e"
        "foldE (reconcile_call i m) (take n calls) e = Inr e'" "answers (fst (snd (calls ! n))) key e' s' obj'"
        "get_job e' i = Some k'" "j_status k' = J_UNCERTAIN_EXTERNAL_EFFECT"
        "if fits_opt 200 obj' then \<exists>e'' k''. reconcile_call i m (calls ! n) e' = Inr e'' \<and> jobs_ok e'' \<and>
            get_job e'' i = Some k'' \<and>
            j_status k'' = (case s' of X_CONFIRMED \<Rightarrow> J_SUCCEEDED | X_ABSENT \<Rightarrow> J_FAILED | X_UNKNOWN \<Rightarrow> J_BLOCKED) \<and>
            (s' = X_UNKNOWN \<longrightarrow> int n + 1 = m - reconciliation_count key e)
          else s' = X_CONFIRMED \<and> reconcile_call i m (calls ! n) e' = Inl DataError"
      using Cons.IH [OF rec less docs dist new len] by (elim exE conjE) (rule that)
    then show ?thesis using r(1,6)
      by (intro exI [of _ "Suc n"] exI [of _ e'] exI [of _ k'] exI [of _ s'] exI [of _ obj'])
        (auto split: if_splits)
  qed
qed

definition example_calls :: "reconciliation_call list" where
  "example_calls = [(8, \<lambda>_ _. Inr (X_UNKNOWN, None), 10), (9, \<lambda>_ _. Inr (X_CONFIRMED, Some ''listing-1''), 20),
     (10, \<lambda>_ _. Inr (X_UNKNOWN, None), 30)]"

theorem uncertain_effect_is_settled_witness:
  "\<exists>n e s obj. n < length example_calls \<and> foldE (reconcile_call 2 3) (take n example_calls) example_uncertain_db = Inr e \<and>
     answers (fst (snd (example_calls ! n))) ''k'' e s obj \<and> s \<noteq> X_ABSENT"
proof -
  have count: "reconciliation_count ''k'' example_uncertain_db < 3" by (simp add: example_count)
  have docs: "\<forall>(fresh, query, now) \<in> set example_calls. documented_reconciler query"
    using example_reconciler by (simp add: example_calls_def)
  have ids: "distinct (map fst example_calls)" by (simp add: example_calls_def)
  have new: "fst ` set example_calls \<inter> ea_id ` set (effect_attempts example_uncertain_db) = {}"
    by (simp add: example_uncertain_db_def example_defs)
  have len: "3 - reconciliation_count ''k'' example_uncertain_db \<le> int (length example_calls)"
    by (simp add: example_count example_calls_def)
  have present: "s \<noteq> X_ABSENT" if "n < length example_calls" "answers (fst (snd (example_calls ! n))) ''k'' e s obj" for n e s obj
    using that by (auto simp: example_calls_def answers_def less_Suc_eq nth_Cons split: nat.splits)
  from uncertain_effect_is_settled [OF example_reconcilable count docs ids new len] present show ?thesis by blast
qed

end
