(* ===== verification/Event_Log.thy ===== *)
theory Event_Log
  imports Idempotency
begin

section \<open>The event log\<close>

text \<open>
  \<^verbatim>\<open>persistence/repositories/events.py\<close>: the append-only log with its dedupe keys. The contract a
  dispatcher relies on is the locale \<open>event_log\<close>: an append is found afterwards, a duplicate
  key is refused, nothing else changes. \<open>record_once\<close> is the dispatcher's
  \<^verbatim>\<open>try: append / except EventAppendError: look the event up\<close>; its idempotence is proved from
  the contract alone.
\<close>

definition by_dedupe_key :: "string \<Rightarrow> db \<Rightarrow> error + event option" where
  "by_dedupe_key dedupe_key d = one_or_none (filter (\<lambda>e. e_dedupe_key e = dedupe_key) (events d))"

text \<open>\<^verbatim>\<open>append\<close> of a constructed event; the id is the \<^verbatim>\<open>uuid4\<close> default, \<open>recorded_at\<close> the server's.\<close>

definition append_event :: "event \<Rightarrow> db \<Rightarrow> error + db" where
  "append_event ev d = bindE (by_dedupe_key (e_dedupe_key ev) d) (\<lambda>existing.
     if existing \<noteq> None then Inl EventAppendError else insert_event ev d)"

definition make_event ::
    "uuid \<Rightarrow> event_name \<Rightarrow> string \<Rightarrow> uuid \<Rightarrow> uuid option \<Rightarrow> uuid option \<Rightarrow> json \<Rightarrow> string \<Rightarrow> time \<Rightarrow> db \<Rightarrow> event" where
  "make_event fresh event_name aggregate_type aggregate_id workflow_id job_id payload dedupe_key
       occurred_at d =
     \<lparr>e_id = fresh, e_event_name = event_name, e_aggregate_type = aggregate_type,
      e_aggregate_id = aggregate_id, e_workflow_id = workflow_id, e_job_id = job_id,
      e_agent_run_id = None, e_payload = payload, e_dedupe_key = dedupe_key,
      e_occurred_at = occurred_at, e_recorded_at = server_now d\<rparr>"

definition for_aggregate :: "uuid \<Rightarrow> db \<Rightarrow> event list" where
  "for_aggregate aggregate_id d =
     sort_key e_occurred_at (sort_key e_recorded_at
       (filter (\<lambda>e. e_aggregate_id e = aggregate_id) (events d)))"

definition record_once ::
    "('e \<Rightarrow> 's \<Rightarrow> error + 's) \<Rightarrow> ('k \<Rightarrow> 's \<Rightarrow> error + 'e option) \<Rightarrow> ('e \<Rightarrow> 'k) \<Rightarrow> 'e \<Rightarrow> 's \<Rightarrow>
     error + (bool \<times> 's)" where
  "record_once append_to lookup key ev d =
     (case append_to ev d of
        Inr e \<Rightarrow> Inr (True, e)
      | Inl err \<Rightarrow>
          if err = EventAppendError
          then bindE (lookup (key ev) d) (\<lambda>existing.
            if existing = None then Inl EventAppendError else Inr (False, d))
          else Inl err)"

definition event_keys_unique :: "db \<Rightarrow> bool" where
  "event_keys_unique d \<longleftrightarrow> distinct (map e_dedupe_key (events d)) \<and> distinct (map e_id (events d))"

subsection \<open>The interface\<close>

locale event_log =
  fixes append_to :: "'e \<Rightarrow> 's \<Rightarrow> error + 's"
    and lookup :: "'k \<Rightarrow> 's \<Rightarrow> error + 'e option"
    and key :: "'e \<Rightarrow> 'k"
    and ok :: "'s \<Rightarrow> bool"
  assumes lookup_total: "ok d \<Longrightarrow> \<exists>r. lookup k d = Inr r"
    and append_keeps: "ok d \<Longrightarrow> append_to ev d = Inr e \<Longrightarrow> ok e"
    and append_found: "ok d \<Longrightarrow> append_to ev d = Inr e \<Longrightarrow> lookup (key ev) e = Inr (Some ev)"
    and append_others: "ok d \<Longrightarrow> append_to ev d = Inr e \<Longrightarrow> k \<noteq> key ev \<Longrightarrow> lookup k e = lookup k d"
    and append_duplicate: "ok d \<Longrightarrow> lookup (key ev) d = Inr (Some x) \<Longrightarrow> append_to ev d = Inl EventAppendError"
    and append_new: "ok d \<Longrightarrow> lookup (key ev) d = Inr None \<Longrightarrow> append_to ev d \<noteq> Inl EventAppendError"
begin

lemma record_once_found:
  assumes "ok d" and "lookup (key ev) d = Inr (Some x)"
  shows "record_once append_to lookup key ev d = Inr (False, d)"
  using append_duplicate [OF assms] assms(2) by (simp add: record_once_def)

lemma record_once_new:
  assumes "ok d" and "lookup (key ev) d = Inr None"
  shows "record_once append_to lookup key ev d =
    (case append_to ev d of Inl err \<Rightarrow> Inl err | Inr e \<Rightarrow> Inr (True, e))"
  using append_new [OF assms] by (cases "append_to ev d") (auto simp: record_once_def)

lemma record_once_result:
  assumes "ok d" and "record_once append_to lookup key ev d = Inr (new, e)"
  shows "ok e" and "\<exists>x. lookup (key ev) e = Inr (Some x)"
    and "\<And>k x. lookup k d = Inr (Some x) \<Longrightarrow> lookup k e = Inr (Some x)"
    and "\<not> new \<Longrightarrow> e = d"
proof -
  obtain r where r: "lookup (key ev) d = Inr r" using lookup_total [OF assms(1)] by blast
  have "ok e \<and> (\<exists>x. lookup (key ev) e = Inr (Some x)) \<and>
    (\<forall>k x. lookup k d = Inr (Some x) \<longrightarrow> lookup k e = Inr (Some x)) \<and> (\<not> new \<longrightarrow> e = d)"
  proof (cases r)
    case (Some x)
    with r assms record_once_found [of d ev x] show ?thesis by auto
  next
    case None
    with r assms record_once_new [of d ev] have a: "append_to ev d = Inr e" "new"
      by (auto split: sum.splits)
    then show ?thesis
      using append_keeps [OF assms(1) a(1)] append_found [OF assms(1) a(1)]
        append_others [OF assms(1) a(1)] r None by (metis option.distinct(1) sum.inject(2))
  qed
  then show "ok e" "\<exists>x. lookup (key ev) e = Inr (Some x)"
    "\<And>k x. lookup k d = Inr (Some x) \<Longrightarrow> lookup k e = Inr (Some x)" "\<not> new \<Longrightarrow> e = d" by blast+
qed

lemma record_once_twice:
  assumes "ok d" and "record_once append_to lookup key ev d = Inr (new, e)" and "key ev' = key ev"
  shows "record_once append_to lookup key ev' e = Inr (False, e)"
  using record_once_result(1,2) [OF assms(1,2)] record_once_found [of e ev'] assms(3) by metis

end

subsection \<open>The repository implements it\<close>

lemma filter_key_distinct:
  assumes "distinct (map k xs)"
  shows "filter (\<lambda>x. k x = i) xs = (case find (\<lambda>x. k x = i) xs of None \<Rightarrow> [] | Some x \<Rightarrow> [x])"
  using assms
proof (induction xs)
  case Nil
  then show ?case by simp
next
  case (Cons x xs)
  show ?case
  proof (cases "k x = i")
    case True
    then have "filter (\<lambda>x. k x = i) xs = []" using Cons.prems by (auto simp: filter_empty_conv image_iff)
    with True show ?thesis by simp
  next
    case False
    with Cons show ?thesis by simp
  qed
qed

lemma by_dedupe_key_find:
  assumes "event_keys_unique d"
  shows "by_dedupe_key k d = Inr (find (\<lambda>e. e_dedupe_key e = k) (events d))"
  using assms filter_key_distinct [of e_dedupe_key "events d" k]
  by (simp add: by_dedupe_key_def event_keys_unique_def one_or_none_def split: option.splits)

lemma insert_event_cases:
  assumes "insert_event ev d = Inr e"
  shows "e = d\<lparr>events := events d @ [ev]\<rparr>" and "e_dedupe_key ev \<notin> e_dedupe_key ` set (events d)"
    and "e_id ev \<notin> e_id ` set (events d)"
  using assms by (auto simp: insert_event_def bindE_eq_Inr)

lemma insert_event_error: "insert_event ev d \<noteq> Inl EventAppendError"
  by (auto simp: insert_event_def check_event_def bindE_eq_Inl)

lemma find_append: "find P (xs @ ys) = (case find P xs of None \<Rightarrow> find P ys | Some x \<Rightarrow> Some x)"
  by (induction xs) auto

lemma append_event_cases:
  assumes "append_event ev d = Inr e"
  obtains "insert_event ev d = Inr e" "by_dedupe_key (e_dedupe_key ev) d = Inr None"
  using assms by (auto simp: append_event_def bindE_eq_Inr split: if_splits)

interpretation log: event_log append_event by_dedupe_key e_dedupe_key event_keys_unique
proof unfold_locales
  fix d e :: db and ev x :: event and k
  show "\<exists>r. by_dedupe_key k d = Inr r" if "event_keys_unique d"
    using by_dedupe_key_find [OF that] by simp
  show keeps: "event_keys_unique e" if "event_keys_unique d" "append_event ev d = Inr e"
    using that insert_event_cases [of ev d e]
    by (auto elim!: append_event_cases simp: event_keys_unique_def)
  show "by_dedupe_key (e_dedupe_key ev) e = Inr (Some ev)"
    if "event_keys_unique d" "append_event ev d = Inr e"
  proof -
    have e: "e = d\<lparr>events := events d @ [ev]\<rparr>" "e_dedupe_key ev \<notin> e_dedupe_key ` set (events d)"
      using that(2) insert_event_cases [of ev d e] by (auto elim!: append_event_cases)
    have "find (\<lambda>x. e_dedupe_key x = e_dedupe_key ev) (events d) = None"
      using e(2) find_None_key [of e_dedupe_key "e_dedupe_key ev" "events d"] by simp
    then show ?thesis using by_dedupe_key_find [OF keeps [OF that]] e(1) by (simp add: find_append)
  qed
  show "by_dedupe_key k e = by_dedupe_key k d"
    if "event_keys_unique d" "append_event ev d = Inr e" "k \<noteq> e_dedupe_key ev"
  proof -
    have e: "e = d\<lparr>events := events d @ [ev]\<rparr>"
      using that(2) insert_event_cases [of ev d e] by (auto elim!: append_event_cases)
    show ?thesis
      using by_dedupe_key_find [OF keeps [OF that(1,2)]] by_dedupe_key_find [OF that(1)] that(3) e
      by (simp add: find_append split: option.split)
  qed
  show "append_event ev d = Inl EventAppendError"
    if "event_keys_unique d" "by_dedupe_key (e_dedupe_key ev) d = Inr (Some x)"
    using that by (simp add: append_event_def)
  show "append_event ev d \<noteq> Inl EventAppendError"
    if "event_keys_unique d" "by_dedupe_key (e_dedupe_key ev) d = Inr None"
    using that insert_event_error by (simp add: append_event_def)
qed

abbreviation record_event :: "event \<Rightarrow> db \<Rightarrow> error + (bool \<times> db)" where
  "record_event \<equiv> record_once append_event by_dedupe_key e_dedupe_key"

text \<open>Recording an event extends the log by at most that event and touches nothing else.\<close>

lemma record_event_cases:
  assumes "record_event ev d = Inr (new, e)"
  obtains (old) "\<not> new" "e = d" | (new) "new" "e = d\<lparr>events := events d @ [ev]\<rparr>"
  using assms insert_event_cases(1) [of ev d e]
  by (auto simp: record_once_def bindE_eq_Inr split: sum.splits if_splits elim!: append_event_cases)

text \<open>
  The log never forgets and never repeats. Appending an event extends the log by exactly
  that event, keeps every earlier event in place and the dedupe keys distinct; the event is then
  found under its key, and a second append with the same key is refused with
  \<open>EventAppendError\<close>, whatever else the second event says.
\<close>

theorem event_log_append_only:
  assumes "event_keys_unique d" and "append_event ev d = Inr e" and "e_dedupe_key ev' = e_dedupe_key ev"
  shows "events e = events d @ [ev] \<and> event_keys_unique e \<and>
     by_dedupe_key (e_dedupe_key ev) e = Inr (Some ev) \<and>
     append_event ev' e = Inl EventAppendError \<and> ev \<in> set (for_aggregate (e_aggregate_id ev) e)"
proof -
  have "events e = events d @ [ev]"
    using assms(2) insert_event_cases(1) [of ev d e] by (auto elim!: append_event_cases)
  moreover have "append_event ev' e = Inl EventAppendError"
    using log.append_duplicate [OF log.append_keeps [OF assms(1,2)], of ev' ev]
      log.append_found [OF assms(1,2)] assms(3) by simp
  ultimately show ?thesis
    using log.append_keeps [OF assms(1,2)] log.append_found [OF assms(1,2)]
    by (simp add: for_aggregate_def)
qed

theorem event_log_append_only_witness:
  "let d = example_db []; ev = make_event 3 EV_PRODUCT_REJECTED ''products'' 9 (Some 7) None (JObj [])
      ''PRODUCT_REJECTED:9'' 5 d
   in \<exists>e. append_event ev d = Inr e \<and> append_event ev e = Inl EventAppendError"
proof -
  let ?d = "example_db []"
  let ?ev = "make_event 3 EV_PRODUCT_REJECTED ''products'' 9 (Some 7) None (JObj [])
      ''PRODUCT_REJECTED:9'' 5 ?d"
  have u: "event_keys_unique ?d" by (simp add: event_keys_unique_def example_defs)
  have "\<exists>e. append_event ?ev ?d = Inr e"
    by (simp add: append_event_def by_dedupe_key_def one_or_none_def example_defs make_event_def
        insert_event_def check_event_def fits_def has_workflow_def)
  then obtain e where e: "append_event ?ev ?d = Inr e" by blast
  from event_log_append_only [OF u e refl] e show ?thesis by (auto simp: Let_def)
qed

end
