(* ===== verification/Retry.thy ===== *)
theory Retry
  imports Complex_Main Transition_Guard
begin

section \<open>Retry policy\<close>

text \<open>
  \<^verbatim>\<open>orchestration/retry.py\<close>: retry eligibility per retry class, exponential backoff with a cap,
  and the reconcile-first rule. Python floats are exact rationals here: the default base and
  multiplier are powers of two, on which float arithmetic is exact; a power beyond the
  largest float raises \<open>OverflowError\<close> as the float power does. The human-readable reason of
  a decision is kept as data (\<open>retry_reason\<close>).
\<close>

datatype retry_reason =
    BudgetExhausted int int
  | RetryAfter retry_class rat
  | ReconciliationRequired
  | OperatorInterventionRequired
  | NonRetryableFailure

record retry_decision =
  can_retry :: bool
  next_attempt :: int
  retry_scheduled_at :: "time option"
  retry_reason :: retry_reason

text \<open>\<^verbatim>\<open>x ** n\<close> on a float and an int.\<close>

definition float_power :: "rat \<Rightarrow> int \<Rightarrow> error + rat" where
  "float_power x n =
     (if n < 0 \<and> x = 0 then Inl ZeroDivisionError
      else let p = (if 0 \<le> n then x ^ nat n else inverse (x ^ nat (- n)))
        in if 2 ^ 1024 \<le> \<bar>p\<bar> then Inl OverflowError else Inr p)"

text \<open>\<^verbatim>\<open>round\<close> (to the nearest integer, ties to even) and \<^verbatim>\<open>timedelta(seconds=x)\<close>.\<close>

definition round_half_even :: "rat \<Rightarrow> int" where
  "round_half_even x = (let f = \<lfloor>x\<rfloor>; r = x - of_int f in
     if r < 1 / 2 then f else if 1 / 2 < r then f + 1 else if even f then f else f + 1)"

definition timedelta_seconds :: "rat \<Rightarrow> error + duration" where
  "timedelta_seconds x = (let us = round_half_even (x * 1000000) in
     if us < - 999999999 * 86400000000 \<or> 1000000000 * 86400000000 \<le> us
     then Inl OverflowError else Inr us)"

definition calculate_backoff :: "int \<Rightarrow> rat \<Rightarrow> rat \<Rightarrow> rat \<Rightarrow> error + rat" where
  "calculate_backoff attempt base_delay multiplier max_delay =
     bindE (float_power multiplier attempt) (\<lambda>p. Inr (min (base_delay * p) max_delay))"

definition retry_after :: "retry_class \<Rightarrow> int \<Rightarrow> rat \<Rightarrow> rat \<Rightarrow> rat \<Rightarrow> time \<Rightarrow> error + retry_decision" where
  "retry_after rc current_attempt base_delay multiplier max_delay now =
     bindE (calculate_backoff current_attempt base_delay multiplier max_delay) (\<lambda>delay.
     bindE (timedelta_seconds delay) (\<lambda>dt.
       Inr \<lparr>can_retry = True, next_attempt = current_attempt + 1,
            retry_scheduled_at = Some (now + dt), retry_reason = RetryAfter rc delay\<rparr>))"

definition no_retry :: "int \<Rightarrow> retry_reason \<Rightarrow> error + retry_decision" where
  "no_retry n reason = Inr \<lparr>can_retry = False, next_attempt = n, retry_scheduled_at = None,
     retry_reason = reason\<rparr>"

definition evaluate_retry ::
    "retry_class \<Rightarrow> int \<Rightarrow> int \<Rightarrow> rat \<Rightarrow> rat \<Rightarrow> rat \<Rightarrow> time \<Rightarrow> bool \<Rightarrow> error + retry_decision" where
  "evaluate_retry rc current_attempt max_attempts base_delay multiplier max_delay now resolved =
     (if max_attempts \<le> 0 then Inl (ValueError ''max_attempts must be positive'')
      else if max_attempts \<le> current_attempt
        then Inl (ValueError ''job should already be TERMINAL_FAILURE'')
      else let n = current_attempt + 1 in
        if max_attempts \<le> n then no_retry n (BudgetExhausted n max_attempts)
        else case rc of
          SAFE \<Rightarrow> retry_after SAFE current_attempt base_delay multiplier max_delay now
        | IDEMPOTENT \<Rightarrow> retry_after IDEMPOTENT current_attempt base_delay multiplier max_delay now
        | RECONCILE_FIRST \<Rightarrow>
            (if resolved
             then retry_after RECONCILE_FIRST current_attempt base_delay multiplier max_delay now
             else no_retry n ReconciliationRequired)
        | MANUAL_RESUME \<Rightarrow> no_retry n OperatorInterventionRequired
        | NEVER \<Rightarrow> no_retry n NonRetryableFailure)"

definition default_base_delay :: rat where "default_base_delay = 2"
definition default_multiplier :: rat where "default_multiplier = 2"
definition default_max_delay :: rat where "default_max_delay = 300"

abbreviation evaluate_retry_default ::
    "retry_class \<Rightarrow> int \<Rightarrow> int \<Rightarrow> time \<Rightarrow> bool \<Rightarrow> error + retry_decision" where
  "evaluate_retry_default rc a m \<equiv>
     evaluate_retry rc a m default_base_delay default_multiplier default_max_delay"

definition can_retry_from_status :: "job_status \<Rightarrow> bool" where
  "can_retry_from_status status \<longleftrightarrow> status = J_FAILED"

definition must_reconcile_first :: "job_status \<Rightarrow> retry_class \<Rightarrow> bool \<Rightarrow> bool" where
  "must_reconcile_first status rc resolved =
     (if status = J_SUCCEEDED then False
      else if status = J_UNCERTAIN_EXTERNAL_EFFECT then True
      else if resolved then False
      else rc = RECONCILE_FIRST)"

subsection \<open>Backoff\<close>

lemma round_half_even_of_int [simp]: "round_half_even (of_int k) = k"
  by (simp add: round_half_even_def Let_def)

text \<open>The default delay in seconds: doubling from two seconds, capped at five minutes.\<close>

definition default_delay :: "int \<Rightarrow> int" where
  "default_delay a = min (2 * 2 ^ nat a) 300"

lemma default_delay_mono: "0 \<le> a \<Longrightarrow> a \<le> b \<Longrightarrow> default_delay a \<le> default_delay b"
  unfolding default_delay_def by (intro min.mono mult_left_mono power_increasing) auto

lemma default_delay_bounds: "2 \<le> default_delay a \<and> default_delay a \<le> 300"
  by (simp add: default_delay_def)

lemma default_float_power:
  assumes "0 \<le> a" and "a < 1024"
  shows "float_power default_multiplier a = Inr (2 ^ nat a)"
proof -
  have "(2::rat) ^ nat a < 2 ^ 1024" using assms by (intro power_strict_increasing) auto
  with assms show ?thesis by (simp add: float_power_def default_multiplier_def Let_def not_le)
qed

lemma default_backoff:
  assumes "0 \<le> a" and "a < 1024"
  shows "calculate_backoff a default_base_delay default_multiplier default_max_delay =
     Inr (of_int (default_delay a))"
proof -
  have "min (2 * 2 ^ nat a) 300 = (of_int (default_delay a) :: rat)"
    unfolding default_delay_def by (simp add: of_int_min)
  then show ?thesis
    by (simp add: calculate_backoff_def default_float_power [OF assms]
        default_base_delay_def default_max_delay_def)
qed

lemma default_timedelta: "timedelta_seconds (of_int (default_delay a)) = Inr (default_delay a * 1000000)"
proof -
  have "of_int (default_delay a) * 1000000 = (of_int (default_delay a * 1000000) :: rat)" by simp
  then have "round_half_even (of_int (default_delay a) * 1000000) = default_delay a * 1000000"
    by (metis round_half_even_of_int)
  then show ?thesis
    using default_delay_bounds [of a] by (simp add: timedelta_seconds_def Let_def)
qed

lemma default_retry_after:
  assumes "0 \<le> a" and "a < 1024"
  shows "retry_after rc a default_base_delay default_multiplier default_max_delay now =
     Inr \<lparr>can_retry = True, next_attempt = a + 1,
          retry_scheduled_at = Some (now + default_delay a * 1000000),
          retry_reason = RetryAfter rc (of_int (default_delay a))\<rparr>"
  by (simp add: retry_after_def default_backoff [OF assms] default_timedelta)

text \<open>The classes that the policy retries without an operator.\<close>

definition retryable :: "retry_class \<Rightarrow> bool \<Rightarrow> bool" where
  "retryable rc resolved \<longleftrightarrow> rc = SAFE \<or> rc = IDEMPOTENT \<or> rc = RECONCILE_FIRST \<and> resolved"

lemma evaluate_retry_can_retry:
  assumes "evaluate_retry rc a m b x y now resolved = Inr dec" and "can_retry dec"
  shows "a + 1 < m \<and> retryable rc resolved \<and> retry_scheduled_at dec \<noteq> None"
  using assms
  by (auto simp: evaluate_retry_def no_retry_def retry_after_def retryable_def Let_def bindE_eq_Inr
      split: if_splits retry_class.splits)

lemma policy_outcome:
  assumes "0 \<le> a" and "a < m" and "a < 1024"
  shows "\<exists>dec. evaluate_retry_default rc a m now resolved = Inr dec \<and>
     (can_retry dec \<longleftrightarrow> a + 1 < m \<and> retryable rc resolved) \<and> next_attempt dec = a + 1 \<and>
     retry_scheduled_at dec =
       (if can_retry dec then Some (now + default_delay a * 1000000) else None)"
proof -
  have pos: "\<not> m \<le> 0" "\<not> m \<le> a" using assms by auto
  show ?thesis
  proof (cases "m \<le> a + 1")
    case True
    with pos show ?thesis by (simp add: evaluate_retry_def no_retry_def Let_def)
  next
    case False
    with pos show ?thesis
      by (cases rc; cases resolved)
        (simp_all add: evaluate_retry_def no_retry_def Let_def retryable_def
          default_retry_after [OF assms(1,3)])
  qed
qed

text \<open>
  The retry policy on its default settings. With a budget left, a job is retried exactly
  when its class allows it (\<open>SAFE\<close>, \<open>IDEMPOTENT\<close>, or \<open>RECONCILE_FIRST\<close> once reconciliation
  resolved) and the next attempt is still inside the budget; the retry is then scheduled
  \<open>min(2 * 2^attempt, 300)\<close> seconds after now, and otherwise nothing is scheduled.
\<close>

theorem evaluate_retry_policy:
  assumes "0 \<le> a" and "a < m" and "a < 1024"
  shows "\<exists>dec. evaluate_retry_default rc a m now resolved = Inr dec \<and>
     (can_retry dec \<longleftrightarrow> a + 1 < m \<and> retryable rc resolved) \<and> next_attempt dec = a + 1 \<and>
     retry_scheduled_at dec =
       (if can_retry dec then Some (now + default_delay a * 1000000) else None)"
  using policy_outcome [OF assms] by blast

theorem evaluate_retry_policy_witness:
  "\<exists>dec. evaluate_retry_default IDEMPOTENT 1 3 0 False = Inr dec \<and>
     (can_retry dec \<longleftrightarrow> 1 + 1 < (3::int) \<and> retryable IDEMPOTENT False) \<and> next_attempt dec = 1 + 1 \<and>
     retry_scheduled_at dec =
       (if can_retry dec then Some (0 + default_delay 1 * 1000000) else None)"
  by (rule evaluate_retry_policy) simp_all

text \<open>
  An effect whose outcome is uncertain is never repeated by the retry policy: whenever
  the policy grants a retry of a failed job, no reconciliation is outstanding for it, on any
  backoff settings; and a granted retry always leaves the attempt inside the budget.
\<close>

theorem retry_never_skips_reconciliation:
  assumes "evaluate_retry rc a m b x y now resolved = Inr dec" and "can_retry dec"
  shows "\<not> must_reconcile_first J_FAILED rc resolved \<and> rc \<noteq> NEVER \<and> rc \<noteq> MANUAL_RESUME \<and>
     a + 1 < m"
  using evaluate_retry_can_retry [OF assms]
  by (auto simp: must_reconcile_first_def retryable_def)

theorem retry_never_skips_reconciliation_witness:
  "\<exists>dec. evaluate_retry_default RECONCILE_FIRST 0 3 0 True = Inr dec \<and> can_retry dec \<and>
     \<not> must_reconcile_first J_FAILED RECONCILE_FIRST True"
proof -
  let ?dec = "\<lparr>can_retry = True, next_attempt = 1,
    retry_scheduled_at = Some (default_delay 0 * 1000000),
    retry_reason = RetryAfter RECONCILE_FIRST (of_int (default_delay 0))\<rparr>"
  have e: "evaluate_retry_default RECONCILE_FIRST 0 3 0 True = Inr ?dec"
    by (simp add: evaluate_retry_def default_retry_after)
  have c: "can_retry ?dec" by simp
  show ?thesis using e c retry_never_skips_reconciliation [OF e c] by blast
qed

end
