(* ===== verification/Workflow_Config.thy ===== *)
theory Workflow_Config
  imports Schema Retry
begin

section \<open>Workflow configuration\<close>

text \<open>
  The workflow part of \<^verbatim>\<open>config/settings.py\<close>: job and workflow definitions, the retry classes
  a side effect admits, and the graph check of a workflow with its reachability search. A
  validated model is the model itself, a failed validation \<open>ValueError\<close>; the constraints of the
  fields (\<^verbatim>\<open>PositiveInt\<close>, patterns, \<^verbatim>\<open>min_length\<close>) are checked before the model validator, as
  the framework does, on strings whose surrounding whitespace is already stripped. Sets built for membership tests are lists here; the frontier of the
  search is kept with its top first.
\<close>

definition is_upper :: "char \<Rightarrow> bool" where
  "is_upper c \<longleftrightarrow> 65 \<le> (of_char c :: nat) \<and> (of_char c :: nat) \<le> 90"

definition is_lower :: "char \<Rightarrow> bool" where
  "is_lower c \<longleftrightarrow> 97 \<le> (of_char c :: nat) \<and> (of_char c :: nat) \<le> 122"

definition is_digit :: "char \<Rightarrow> bool" where
  "is_digit c \<longleftrightarrow> 48 \<le> (of_char c :: nat) \<and> (of_char c :: nat) \<le> 57"

text \<open>The pattern \<^verbatim>\<open>^[A-Z][A-Za-z0-9]*Job$\<close>.\<close>

definition canonical_job_type :: "string \<Rightarrow> bool" where
  "canonical_job_type s \<longleftrightarrow> 4 \<le> length s \<and> is_upper (hd s) \<and>
     list_all (\<lambda>c. is_upper c \<or> is_lower c \<or> is_digit c) s \<and>
     drop (length s - 3) s = ''Job''"

definition non_empty_str :: "string \<Rightarrow> bool" where
  "non_empty_str s \<longleftrightarrow> s \<noteq> []"

record workflow_job_definition =
  wj_job_type :: string
  wj_owner_agent_id :: string
  wj_side_effect_class :: side_effect_class
  wj_retry_class :: retry_class
  wj_allowed_modes :: "autonomy_mode list"
  wj_output_contracts :: "string list"
  wj_admitted_events :: "event_name list"
  wj_successor_job_types :: "string list"
  wj_capability_operation :: "string option"
  wj_capability_channel :: "capability_channel option"

definition job_definition_fields :: "workflow_job_definition \<Rightarrow> bool" where
  "job_definition_fields j \<longleftrightarrow> canonical_job_type (wj_job_type j) \<and>
     agent_id_format (wj_owner_agent_id j) \<and> wj_allowed_modes j \<noteq> [] \<and>
     list_all non_empty_str (wj_output_contracts j) \<and> distinct (wj_output_contracts j) \<and>
     wj_admitted_events j \<noteq> [] \<and> list_all canonical_job_type (wj_successor_job_types j) \<and>
     (case wj_capability_operation j of None \<Rightarrow> True | Some s \<Rightarrow> non_empty_str s)"

fun admitted_retries :: "side_effect_class \<Rightarrow> retry_class list" where
  "admitted_retries NONE = [SAFE, IDEMPOTENT]"
| "admitted_retries EXTERNAL_READ = [SAFE, IDEMPOTENT, MANUAL_RESUME]"
| "admitted_retries EXTERNAL_WRITE = [IDEMPOTENT, RECONCILE_FIRST, MANUAL_RESUME]"
| "admitted_retries EXTERNAL_SPEND = [RECONCILE_FIRST]"
| "admitted_retries EXTERNAL_MESSAGE = [RECONCILE_FIRST]"

definition validate_effect_contract :: "workflow_job_definition \<Rightarrow> error + workflow_job_definition" where
  "validate_effect_contract j =
     bindE (guardE (job_definition_fields j) (ValueError ''field'')) (\<lambda>_.
     bindE (guardE (distinct (wj_allowed_modes j)) (ValueError ''allowed modes must be unique'')) (\<lambda>_.
     bindE (guardE (distinct (wj_admitted_events j)) (ValueError ''admitted events must be unique'')) (\<lambda>_.
     bindE (guardE (distinct (wj_successor_job_types j))
       (ValueError ''successor job types must be unique'')) (\<lambda>_.
     bindE (if wj_side_effect_class j = NONE
        then guardE (wj_capability_operation j = None \<and> wj_capability_channel j = None)
          (ValueError ''internal jobs forbid external capability fields'')
        else guardE (wj_capability_operation j \<noteq> None \<and> wj_capability_channel j \<noteq> None)
          (ValueError ''external jobs require operation and capability channel'')) (\<lambda>_.
     bindE (guardE (wj_retry_class j \<in> set (admitted_retries (wj_side_effect_class j)))
       (ValueError ''retry class is unsafe for the configured side effect'')) (\<lambda>_.
     bindE (guardE (\<not> (wj_side_effect_class j \<in> {EXTERNAL_SPEND, EXTERNAL_MESSAGE} \<and>
         DRAFT \<in> set (wj_allowed_modes j)))
       (ValueError ''draft mode prohibits spend and message effects'')) (\<lambda>_. Inr j)))))))"

subsection \<open>Workflow graphs\<close>

record workflow_definition =
  wd_workflow_type :: string
  wd_version :: int
  wd_entry_job_types :: "string list"
  wd_jobs :: "workflow_job_definition list"

definition successor_table :: "workflow_definition \<Rightarrow> (string \<times> string list) list" where
  "successor_table w = map (\<lambda>j. (wj_job_type j, wj_successor_job_types j)) (wd_jobs w)"

text \<open>
  The search: pop a job type, skip it when it was reached before, otherwise record it and push
  its successors; a type without an entry in the table is a \<^verbatim>\<open>KeyError\<close>.
\<close>

function search :: "(string \<times> string list) list \<Rightarrow> string list \<Rightarrow> string list \<Rightarrow> error + string list" where
  "search successors reachable [] = Inr reachable"
| "search successors reachable (job_type # frontier) =
     (if job_type \<in> set reachable then search successors reachable frontier
      else case map_of successors job_type of
        None \<Rightarrow> Inl LookupError
      | Some next \<Rightarrow> search successors (job_type # reachable) (rev next @ frontier))"
  by pat_completeness auto
termination
proof (relation "measures [\<lambda>(s, r, f). card (set (map fst s) - set r), \<lambda>(s, r, f). length f]")
  fix successors :: "(string \<times> string list) list" and reachable job_type frontier and "next" :: "string list"
  assume new: "job_type \<notin> set reachable" and found: "map_of successors job_type = Some next"
  have "job_type \<in> set (map fst successors)" using map_of_SomeD [OF found] by force
  then have "set (map fst successors) - set (job_type # reachable) \<subset>
      set (map fst successors) - set reachable" using new by auto
  then have "card (set (map fst successors) - set (job_type # reachable)) <
      card (set (map fst successors) - set reachable)" by (intro psubset_card_mono) auto
  then show "((successors, job_type # reachable, rev next @ frontier), successors, reachable,
      job_type # frontier) \<in> measures [\<lambda>(s, r, f). card (set (map fst s) - set r), \<lambda>(s, r, f). length f]"
    by simp
qed auto

definition validate_graph :: "workflow_definition \<Rightarrow> error + workflow_definition" where
  "validate_graph w =
     (let job_types = map wj_job_type (wd_jobs w); known = set job_types in
      bindE (guardE (non_empty_str (wd_workflow_type w) \<and> 0 < wd_version w \<and>
          wd_entry_job_types w \<noteq> [] \<and> list_all canonical_job_type (wd_entry_job_types w) \<and>
          wd_jobs w \<noteq> []) (ValueError ''field'')) (\<lambda>_.
      bindE (guardE (distinct job_types) (ValueError ''workflow job types must be unique'')) (\<lambda>_.
      bindE (guardE (set (wd_entry_job_types w) \<subseteq> known)
        (ValueError ''workflow entry jobs must exist in the workflow'')) (\<lambda>_.
      bindE (guardE (list_all (\<lambda>j. set (wj_successor_job_types j) \<subseteq> known) (wd_jobs w))
        (ValueError ''workflow successor jobs must exist in the workflow'')) (\<lambda>_.
      bindE (search (successor_table w) [] (rev (wd_entry_job_types w))) (\<lambda>reachable.
      bindE (guardE (known \<subseteq> set reachable)
        (ValueError ''workflow jobs must be reachable from an entry job'')) (\<lambda>_. Inr w)))))))"

record workflows_config =
  wc_version :: int
  wc_event_successor_map :: "(string \<times> string list) list"
  wc_workflows :: "workflow_definition list"

definition validate_workflow_types :: "workflows_config \<Rightarrow> error + workflows_config" where
  "validate_workflow_types c =
     bindE (guardE (wc_version c = 1 \<and> wc_workflows c \<noteq> []) (ValueError ''field'')) (\<lambda>_.
     bindE (guardE (distinct (map wd_workflow_type (wc_workflows c)))
       (ValueError ''workflow types must be unique'')) (\<lambda>_. Inr c))"

text \<open>The whole document: every job and workflow validates, then the workflow list.\<close>

definition validate_workflows :: "workflows_config \<Rightarrow> error + workflows_config" where
  "validate_workflows c =
     bindE (foldE (\<lambda>w _. bindE (foldE (\<lambda>j _. bindE (validate_effect_contract j) (\<lambda>_. Inr ()))
          (wd_jobs w) ()) (\<lambda>_. bindE (validate_graph w) (\<lambda>_. Inr ()))) (wc_workflows c) ()) (\<lambda>_.
     validate_workflow_types c)"

subsection \<open>Correctness of the search\<close>

definition edge :: "(string \<times> string list) list \<Rightarrow> string \<Rightarrow> string \<Rightarrow> bool" where
  "edge succs a b \<longleftrightarrow> (\<exists>next. map_of succs a = Some next \<and> b \<in> set next)"

lemma search_sound:
  "search succs R F = Inr R' \<Longrightarrow> x \<in> set R' \<Longrightarrow>
     x \<in> set R \<or> (\<exists>s \<in> set F. (edge succs)\<^sup>*\<^sup>* s x)"
proof (induction succs R F rule: search.induct)
  case (1 succs R)
  then show ?case by simp
next
  case (2 succs R t F)
  show ?case
  proof (cases "t \<in> set R")
    case True
    with 2 show ?thesis by auto
  next
    case False
    with 2(3) obtain n where n: "map_of succs t = Some n"
      and run: "search succs (t # R) (rev n @ F) = Inr R'" by (auto split: option.splits)
    from 2(2) [OF False n run 2(4)] consider "x \<in> set (t # R)"
      | s where "s \<in> set n" "(edge succs)\<^sup>*\<^sup>* s x" | s where "s \<in> set F" "(edge succs)\<^sup>*\<^sup>* s x" by auto
    then show ?thesis
    proof cases
      case 2
      then have "edge succs t s" using n by (simp add: edge_def)
      with 2 show ?thesis by (auto intro: converse_rtranclp_into_rtranclp)
    qed auto
  qed
qed

lemma search_complete:
  assumes "search succs R F = Inr R'"
    and "\<And>r n. r \<in> set R \<Longrightarrow> map_of succs r = Some n \<Longrightarrow> set n \<subseteq> set R \<union> set F"
  shows "set R \<union> set F \<subseteq> set R' \<and> (\<forall>r n. r \<in> set R' \<longrightarrow> map_of succs r = Some n \<longrightarrow> set n \<subseteq> set R')"
  using assms
proof (induction succs R F rule: search.induct)
  case (1 succs R)
  then show ?case by auto
next
  case (2 succs R t F)
  show ?case
  proof (cases "t \<in> set R")
    case True
    have "set R \<union> set F \<subseteq> set R' \<and> (\<forall>r n. r \<in> set R' \<longrightarrow> map_of succs r = Some n \<longrightarrow> set n \<subseteq> set R')"
    proof (rule 2(1) [OF True])
      show "search succs R F = Inr R'" using 2(3) True by simp
      show "set n \<subseteq> set R \<union> set F" if "r \<in> set R" "map_of succs r = Some n" for r n
        using 2(4) [OF that] True by auto
    qed
    with True show ?thesis by auto
  next
    case False
    with 2(3) obtain n where n: "map_of succs t = Some n"
      and run: "search succs (t # R) (rev n @ F) = Inr R'" by (auto split: option.splits)
    have "set (t # R) \<union> set (rev n @ F) \<subseteq> set R' \<and>
        (\<forall>r n. r \<in> set R' \<longrightarrow> map_of succs r = Some n \<longrightarrow> set n \<subseteq> set R')"
    proof (rule 2(2) [OF False n run])
      show "set m \<subseteq> set (t # R) \<union> set (rev n @ F)"
        if "r \<in> set (t # R)" "map_of succs r = Some m" for r m
        using that 2(4) [of r m] n by auto
    qed
    then show ?thesis by auto
  qed
qed

lemma search_total:
  assumes "set F \<subseteq> set (map fst succs)" and "\<And>t n. map_of succs t = Some n \<Longrightarrow> set n \<subseteq> set (map fst succs)"
  shows "\<exists>R'. search succs R F = Inr R'"
  using assms
proof (induction succs R F rule: search.induct)
  case (1 succs R)
  then show ?case by simp
next
  case (2 succs R t F)
  show ?case
  proof (cases "t \<in> set R")
    case True
    with 2 show ?thesis by auto
  next
    case False
    have "t \<in> fst ` set succs" using 2(3) by auto
    then obtain n where n: "map_of succs t = Some n" by (metis map_of_eq_None_iff not_None_eq)
    have "\<exists>R'. search succs (t # R) (rev n @ F) = Inr R'"
      using 2(3,4) n by (intro 2(2) [OF False n]) auto
    with False n show ?thesis by simp
  qed
qed

lemma search_reaches:
  assumes "search succs [] F = Inr R'"
  shows "set R' = {x. \<exists>s \<in> set F. (edge succs)\<^sup>*\<^sup>* s x}"
proof
  show "set R' \<subseteq> {x. \<exists>s \<in> set F. (edge succs)\<^sup>*\<^sup>* s x}" using search_sound [OF assms] by auto
  from search_complete [OF assms] have closed: "set F \<subseteq> set R'"
    "\<And>r n. r \<in> set R' \<Longrightarrow> map_of succs r = Some n \<Longrightarrow> set n \<subseteq> set R'" by auto
  have "x \<in> set R'" if "(edge succs)\<^sup>*\<^sup>* s x" "s \<in> set F" for s x
    using that
  proof (induction rule: rtranclp_induct)
    case base
    then show ?case using closed(1) by auto
  next
    case (step y z)
    then show ?case using closed(2) by (auto simp: edge_def)
  qed
  then show "{x. \<exists>s \<in> set F. (edge succs)\<^sup>*\<^sup>* s x} \<subseteq> set R'" by blast
qed

subsection \<open>Properties\<close>

text \<open>The successor relation of a workflow, read off its job definitions.\<close>

definition leads_to :: "workflow_definition \<Rightarrow> string \<Rightarrow> string \<Rightarrow> bool" where
  "leads_to w a b \<longleftrightarrow> (\<exists>j \<in> set (wd_jobs w). wj_job_type j = a \<and> b \<in> set (wj_successor_job_types j))"

definition graph_ok :: "workflow_definition \<Rightarrow> bool" where
  "graph_ok w \<longleftrightarrow> (let known = wj_job_type ` set (wd_jobs w) in
     non_empty_str (wd_workflow_type w) \<and> 0 < wd_version w \<and> wd_entry_job_types w \<noteq> [] \<and>
     list_all canonical_job_type (wd_entry_job_types w) \<and> wd_jobs w \<noteq> [] \<and>
     distinct (map wj_job_type (wd_jobs w)) \<and> set (wd_entry_job_types w) \<subseteq> known \<and>
     (\<forall>a b. leads_to w a b \<longrightarrow> b \<in> known) \<and>
     (\<forall>t \<in> known. \<exists>s \<in> set (wd_entry_job_types w). (leads_to w)\<^sup>*\<^sup>* s t))"

lemma successor_table_edge:
  assumes "distinct (map wj_job_type (wd_jobs w))"
  shows "edge (successor_table w) = leads_to w"
proof (intro ext iffI)
  fix a b
  assume "edge (successor_table w) a b"
  then obtain n where "map_of (successor_table w) a = Some n" "b \<in> set n" by (auto simp: edge_def)
  then show "leads_to w a b" by (auto simp: successor_table_def leads_to_def dest!: map_of_SomeD)
next
  fix a b
  assume "leads_to w a b"
  then obtain j where j: "j \<in> set (wd_jobs w)" "wj_job_type j = a" "b \<in> set (wj_successor_job_types j)"
    by (auto simp: leads_to_def)
  have "distinct (map fst (successor_table w))" using assms by (simp add: successor_table_def o_def)
  then have "map_of (successor_table w) a = Some (wj_successor_job_types j)"
    using j by (intro map_of_is_SomeI) (auto simp: successor_table_def)
  with j(3) show "edge (successor_table w) a b" by (simp add: edge_def)
qed

lemma validate_graph_search:
  assumes "set (wd_entry_job_types w) \<subseteq> wj_job_type ` set (wd_jobs w)"
    and "list_all (\<lambda>j. set (wj_successor_job_types j) \<subseteq> wj_job_type ` set (wd_jobs w)) (wd_jobs w)"
  shows "\<exists>R. search (successor_table w) [] (rev (wd_entry_job_types w)) = Inr R"
proof (rule search_total)
  have fst: "set (map fst (successor_table w)) = wj_job_type ` set (wd_jobs w)"
    by (force simp: successor_table_def)
  show "set (rev (wd_entry_job_types w)) \<subseteq> set (map fst (successor_table w))" using assms(1) fst by simp
  show "set n \<subseteq> set (map fst (successor_table w))" if "map_of (successor_table w) t = Some n" for t n
    using map_of_SomeD [OF that] assms(2) unfolding fst
    by (auto simp: successor_table_def list_all_iff)
qed

text \<open>
  C17: the graph check accepts exactly the well-formed workflows: distinct job types, entries and
  successors that exist, and every job reachable from an entry along successor edges. Its
  search terminates, never looks up a missing job type, and every rejection is a
  \<open>ValueError\<close>.
\<close>

theorem validate_graph_correct:
  "validate_graph w = Inr w \<and> graph_ok w \<or>
   (\<exists>msg. validate_graph w = Inl (ValueError msg)) \<and> \<not> graph_ok w"
proof -
  let ?known = "wj_job_type ` set (wd_jobs w)"
  have succ: "list_all (\<lambda>j. set (wj_successor_job_types j) \<subseteq> ?known) (wd_jobs w) \<longleftrightarrow>
      (\<forall>a b. leads_to w a b \<longrightarrow> b \<in> ?known)"
    by (auto simp: list_all_iff leads_to_def)
  show ?thesis
  proof (cases "distinct (map wj_job_type (wd_jobs w)) \<and> set (wd_entry_job_types w) \<subseteq> ?known \<and>
      list_all (\<lambda>j. set (wj_successor_job_types j) \<subseteq> ?known) (wd_jobs w)")
    case False
    then show ?thesis using succ by (auto simp: validate_graph_def graph_ok_def Let_def guardE_def)
  next
    case True
    then obtain R where R: "search (successor_table w) [] (rev (wd_entry_job_types w)) = Inr R"
      using validate_graph_search by blast
    have "set R = {t. \<exists>s \<in> set (wd_entry_job_types w). (leads_to w)\<^sup>*\<^sup>* s t}"
      using search_reaches [OF R] successor_table_edge True by simp
    with True R show ?thesis
      using succ by (auto simp: validate_graph_def graph_ok_def Let_def guardE_def)
  qed
qed

text \<open>
  A job that spends money or sends messages is configured so that the retry policy can
  never repeat it on its own: every accepted definition of such a job has the class
  \<open>RECONCILE_FIRST\<close> and is barred from draft mode, and no backoff settings make the policy
  grant it a retry while its effect is unresolved.
\<close>

theorem spend_and_message_never_repeat:
  assumes "validate_effect_contract j = Inr k"
    and "wj_side_effect_class j = EXTERNAL_SPEND \<or> wj_side_effect_class j = EXTERNAL_MESSAGE"
  shows "k = j \<and> wj_retry_class j = RECONCILE_FIRST \<and> DRAFT \<notin> set (wj_allowed_modes j) \<and>
     wj_capability_operation j \<noteq> None \<and>
     (\<forall>dec. evaluate_retry (wj_retry_class j) a m b x y now False = Inr dec \<longrightarrow> \<not> can_retry dec)"
proof -
  have "k = j \<and> wj_retry_class j = RECONCILE_FIRST \<and> DRAFT \<notin> set (wj_allowed_modes j) \<and>
     wj_capability_operation j \<noteq> None"
    using assms by (auto simp: validate_effect_contract_def bindE_eq_Inr)
  moreover have "\<not> can_retry dec" if "evaluate_retry RECONCILE_FIRST a m b x y now False = Inr dec" for dec
    using evaluate_retry_can_retry [OF that] by (auto simp: retryable_def)
  ultimately show ?thesis by simp
qed

theorem spend_and_message_never_repeat_witness:
  "let j = \<lparr>wj_job_type = ''PurchaseJob'', wj_owner_agent_id = ''A02'',
      wj_side_effect_class = EXTERNAL_SPEND, wj_retry_class = RECONCILE_FIRST,
      wj_allowed_modes = [SIMULATION, LIVE], wj_output_contracts = [''AgentResult''],
      wj_admitted_events = [EV_PRODUCT_REJECTED], wj_successor_job_types = [],
      wj_capability_operation = Some ''etsy.purchase'', wj_capability_channel = Some DIRECT_API\<rparr>
   in validate_effect_contract j = Inr j \<and> DRAFT \<notin> set (wj_allowed_modes j)"
proof -
  let ?j = "\<lparr>wj_job_type = ''PurchaseJob'', wj_owner_agent_id = ''A02'',
      wj_side_effect_class = EXTERNAL_SPEND, wj_retry_class = RECONCILE_FIRST,
      wj_allowed_modes = [SIMULATION, LIVE], wj_output_contracts = [''AgentResult''],
      wj_admitted_events = [EV_PRODUCT_REJECTED], wj_successor_job_types = [],
      wj_capability_operation = Some ''etsy.purchase'', wj_capability_channel = Some DIRECT_API\<rparr>"
  have "canonical_job_type ''PurchaseJob''" by code_simp
  then have v: "validate_effect_contract ?j = Inr ?j"
    by (simp add: validate_effect_contract_def job_definition_fields_def agent_id_format_def
        non_empty_str_def)
  from spend_and_message_never_repeat [OF v] show ?thesis using v by simp
qed

end
