(* ===== verification/Contracts.thy ===== *)
theory Contracts
  imports Schema
begin

section \<open>Domain contracts\<close>

text \<open>
  The result and envelope models of \<^verbatim>\<open>domain/models/common.py\<close>, \<^verbatim>\<open>jobs.py\<close> and
  \<^verbatim>\<open>portfolio.py\<close> with their validators. A model is a record; constructing it is its
  \<open>validate_\<close> function, which checks the field constraints and then the model validator and
  returns the model or \<open>ValueError\<close>. Strings are held as the framework holds them, with the
  surrounding whitespace stripped. Decimals are exact rationals in the models that have them.
\<close>

definition is_white :: "char \<Rightarrow> bool" where
  "is_white c \<longleftrightarrow> (let n = (of_char c :: nat) in (9 \<le> n \<and> n \<le> 13) \<or> n = 32 \<or> n = 133 \<or> n = 160)"

lemma is_white_code [code]: "is_white (Char b0 b1 b2 b3 b4 b5 b6 b7) =
  (\<not> b6 \<and> (if b7 then b0 \<and> \<not> b1 \<and> b2 \<and> \<not> b3 \<and> \<not> b4 \<and> \<not> b5 \<or> \<not> b0 \<and> \<not> b1 \<and> \<not> b2 \<and> \<not> b3 \<and> \<not> b4 \<and> b5
     else if b5 then \<not> b4 \<and> \<not> b3 \<and> \<not> b2 \<and> \<not> b1 \<and> \<not> b0
     else \<not> b4 \<and> b3 \<and> (if b2 then \<not> b1 else b1 \<or> b0)))"
  by (cases b0; cases b1; cases b2; cases b3; cases b4; cases b5; cases b6; cases b7; simp add: is_white_def)

definition strip_str :: "string \<Rightarrow> string" where
  "strip_str s = rev (dropWhile is_white (rev (dropWhile is_white s)))"

lemma strip_str_Nil: "strip_str s = [] \<longleftrightarrow> list_all is_white s"
proof -
  have "strip_str s = [] \<longleftrightarrow> (\<forall>c \<in> set (dropWhile is_white s). is_white c)"
    by (simp add: strip_str_def)
  also have "\<dots> \<longleftrightarrow> (\<forall>c \<in> set s. is_white c)"
    by (metis dropWhile_eq_Nil_conv hd_dropWhile list.set_sel(1) set_dropWhileD)
  finally show ?thesis by (simp add: list_all_iff)
qed

definition sha256_hex :: "string \<Rightarrow> bool" where
  "sha256_hex s \<longleftrightarrow> length s = 64 \<and> list_all (\<lambda>c. c \<in> set ''0123456789abcdef'') s"

definition opt_non_empty :: "string option \<Rightarrow> bool" where
  "opt_non_empty s \<longleftrightarrow> s \<noteq> Some []"

subsection \<open>Shared references\<close>

datatype sensitivity = PUBLIC | INTERNAL | DENIED

record artifact_reference =
  ar_artifact_id :: uuid
  ar_logical_role :: string
  ar_media_type :: string
  ar_sha256 :: string
  ar_byte_size :: int
  ar_storage_reference :: string
  ar_producing_job_id :: uuid
  ar_producing_agent_run_id :: uuid
  ar_created_at :: time
  ar_sensitivity :: sensitivity
  ar_retention_class :: string
  ar_parent_artifact_ids :: "uuid list"

definition validate_parent_ids :: "artifact_reference \<Rightarrow> error + artifact_reference" where
  "validate_parent_ids a =
     bindE (guardE (ar_logical_role a \<noteq> [] \<and> ar_media_type a \<noteq> [] \<and> sha256_hex (ar_sha256 a) \<and>
        0 \<le> ar_byte_size a \<and> ar_storage_reference a \<noteq> [] \<and> ar_retention_class a \<noteq> [])
        (ValueError ''field'')) (\<lambda>_.
     bindE (guardE (ar_artifact_id a \<notin> set (ar_parent_artifact_ids a))
        (ValueError ''artifact cannot be its own parent'')) (\<lambda>_.
     bindE (guardE (distinct (ar_parent_artifact_ids a))
        (ValueError ''parent artifact IDs must be unique'')) (\<lambda>_. Inr a)))"

record evidence_reference =
  er_evidence_id :: uuid
  er_evidence_type :: string
  er_source_reference :: string
  er_observed_at :: time
  er_sha256 :: "string option"
  er_artifact_id :: "uuid option"
  er_producing_job_id :: "uuid option"
  er_safe_summary :: string

record effect_reference =
  ef_idempotency_key :: string
  ef_provider :: string
  ef_operation :: string
  ef_provider_object_id :: "string option"
  ef_effect_state :: effect_state
  ef_observed_at :: time
  ef_reconciliation_attempt :: int

definition validate_effect_state :: "effect_reference \<Rightarrow> error + effect_reference" where
  "validate_effect_state r =
     bindE (guardE (ef_idempotency_key r \<noteq> [] \<and> ef_provider r \<noteq> [] \<and> ef_operation r \<noteq> [] \<and>
        opt_non_empty (ef_provider_object_id r) \<and> 0 \<le> ef_reconciliation_attempt r)
        (ValueError ''field'')) (\<lambda>_.
     bindE (guardE (\<not> (ef_effect_state r = X_CONFIRMED \<and> ef_provider_object_id r = None))
        (ValueError ''a confirmed effect must identify the provider object'')) (\<lambda>_.
     bindE (guardE (\<not> (ef_effect_state r = X_ABSENT \<and> ef_provider_object_id r \<noteq> None))
        (ValueError ''an absent effect cannot identify a provider object'')) (\<lambda>_. Inr r)))"

record contract_error =
  ce_code :: string
  ce_message :: string
  ce_retryable :: bool
  ce_blocker_action :: "string option"
  ce_safe_detail :: json

record success_contract =
  sc_output_model :: string
  sc_required_artifact_roles :: "string list"
  sc_required_events :: "event_name list"

definition validate_success_contract :: "success_contract \<Rightarrow> error + success_contract" where
  "validate_success_contract s =
     bindE (guardE (sc_output_model s \<noteq> [] \<and> list_all (\<lambda>r. r \<noteq> []) (sc_required_artifact_roles s))
        (ValueError ''field'')) (\<lambda>_.
     bindE (guardE (distinct (sc_required_artifact_roles s))
        (ValueError ''required artifact roles must be unique'')) (\<lambda>_.
     bindE (guardE (distinct (sc_required_events s))
        (ValueError ''required events must be unique'')) (\<lambda>_. Inr s)))"

text \<open>
  \<^verbatim>\<open>SuccessContract.model_validate\<close> of a stored JSON object. Extra keys are forbidden, and the
  strict mode accepts neither a JSON array for a tuple nor a JSON string for an enum member, so
  an object with \<open>required_artifact_roles\<close> or \<open>required_events\<close> is refused.
\<close>

definition success_contract_of_json :: "json \<Rightarrow> error + success_contract" where
  "success_contract_of_json v = (case v of
     JObj kvs \<Rightarrow>
       bindE (guardE (set (map fst kvs) \<subseteq> {''output_model'', ''schema_version''} \<and>
          (case map_of kvs ''schema_version'' of None \<Rightarrow> True | Some n \<Rightarrow> n = JInt 1))
          (ValueError ''success_contract'')) (\<lambda>_.
       case map_of kvs ''output_model'' of
         Some (JStr s) \<Rightarrow> validate_success_contract \<lparr>sc_output_model = strip_str s,
            sc_required_artifact_roles = [], sc_required_events = []\<rparr>
       | _ \<Rightarrow> Inl (ValueError ''success_contract''))
   | _ \<Rightarrow> Inl (ValueError ''success_contract''))"

record check_result =
  cr_name :: string
  cr_passed :: bool
  cr_defect_code :: "string option"
  cr_evidence :: "evidence_reference list"
  cr_observed_value :: json

definition validate_defect_code :: "check_result \<Rightarrow> error + check_result" where
  "validate_defect_code c =
     bindE (guardE (cr_name c \<noteq> [] \<and> opt_non_empty (cr_defect_code c) \<and> cr_evidence c \<noteq> [])
        (ValueError ''field'')) (\<lambda>_.
     bindE (guardE (\<not> (cr_passed c \<and> cr_defect_code c \<noteq> None))
        (ValueError ''passing check forbids a defect code'')) (\<lambda>_.
     bindE (guardE (\<not> (\<not> cr_passed c \<and> cr_defect_code c = None))
        (ValueError ''failed check requires a defect code'')) (\<lambda>_. Inr c)))"

subsection \<open>Job envelope and agent result\<close>

record job_envelope =
  je_job_id :: uuid
  je_workflow_id :: uuid
  je_object_id :: uuid
  je_job_type :: string
  je_object_type :: string
  je_owner_agent_id :: string
  je_status :: job_status
  je_input :: "(string \<times> json) list"
  je_required_artifacts :: "artifact_reference list"
  je_scheduled_at :: time
  je_attempt :: int
  je_max_attempts :: int
  je_idempotency_key :: string
  je_side_effect_class :: side_effect_class
  je_retry_class :: retry_class
  je_success_contract :: success_contract

definition validate_attempt_budget :: "job_envelope \<Rightarrow> error + job_envelope" where
  "validate_attempt_budget e =
     bindE (guardE (je_job_type e \<noteq> [] \<and> je_object_type e \<noteq> [] \<and> agent_id_format (je_owner_agent_id e) \<and>
        0 \<le> je_attempt e \<and> 0 < je_max_attempts e \<and> je_idempotency_key e \<noteq> [])
        (ValueError ''field'')) (\<lambda>_.
     bindE (guardE (je_attempt e \<le> je_max_attempts e)
        (ValueError ''attempt cannot exceed max_attempts'')) (\<lambda>_.
     bindE (guardE (distinct (map ar_artifact_id (je_required_artifacts e)))
        (ValueError ''required artifacts must be unique'')) (\<lambda>_. Inr e)))"

record agent_result =
  rs_job_id :: uuid
  rs_agent_run_id :: uuid
  rs_agent_id :: string
  rs_agent_definition_version :: int
  rs_prompt_reference :: string
  rs_prompt_sha256 :: string
  rs_status :: agent_run_status
  rs_output :: "(string \<times> json) list"
  rs_artifacts :: "artifact_reference list"
  rs_evidence :: "evidence_reference list"
  rs_emitted_events :: "event_name list"
  rs_effects :: "effect_reference list"
  rs_error :: "contract_error option"

definition validate_terminal_result :: "agent_result \<Rightarrow> error + agent_result" where
  "validate_terminal_result r =
     bindE (guardE (agent_id_format (rs_agent_id r) \<and> 0 < rs_agent_definition_version r \<and>
        rs_prompt_reference r \<noteq> [] \<and> sha256_hex (rs_prompt_sha256 r)) (ValueError ''field'')) (\<lambda>_.
     bindE (guardE (\<not> (rs_status r = R_SUCCESS \<and> rs_error r \<noteq> None))
        (ValueError ''SUCCESS forbids an error'')) (\<lambda>_.
     bindE (guardE (\<not> (rs_status r \<noteq> R_SUCCESS \<and> rs_error r = None))
        (ValueError ''non-success result requires an error'')) (\<lambda>_.
     bindE (foldE (\<lambda>a _.
         bindE (guardE (ar_producing_agent_run_id a = rs_agent_run_id r)
           (ValueError ''every produced artifact must cite this agent run'')) (\<lambda>_.
         guardE (ar_producing_job_id a = rs_job_id r)
           (ValueError ''every produced artifact must cite this job''))) (rs_artifacts r) ()) (\<lambda>_.
     bindE (guardE (distinct (map ef_idempotency_key (rs_effects r)))
        (ValueError ''effect references must be unique by idempotency key'')) (\<lambda>_.
     bindE (guardE (\<not> (rs_status r = R_UNCERTAIN_EXTERNAL_EFFECT \<and>
          \<not> list_ex (\<lambda>f. ef_effect_state f = X_UNKNOWN) (rs_effects r)))
        (ValueError ''an uncertain result must cite the unresolved effect'')) (\<lambda>_.
     bindE (guardE (distinct (rs_emitted_events r))
        (ValueError ''emitted events must be unique'')) (\<lambda>_.
     bindE (guardE (distinct (map ar_artifact_id (rs_artifacts r)))
        (ValueError ''result artifacts must be unique'')) (\<lambda>_.
     bindE (guardE (distinct (map er_evidence_id (rs_evidence r)))
        (ValueError ''result evidence must be unique'')) (\<lambda>_. Inr r)))))))))"

subsection \<open>Portfolio decisions and incidents\<close>

record portfolio_decision =
  pd_decision_id :: uuid
  pd_workflow_id :: uuid
  pd_product_id :: uuid
  pd_listing_id :: uuid
  pd_decision :: decision_type
  pd_metrics_snapshot_ids :: "uuid list"
  pd_cohort_reference :: string
  pd_rule_version :: string
  pd_explanation :: string
  pd_evidence :: "evidence_reference list"
  pd_repair_job_id :: "uuid option"
  pd_deactivation_job_id :: "uuid option"
  pd_successor_workflow_id :: "uuid option"
  pd_successor_spec_id :: "uuid option"
  pd_decided_at :: time

definition validate_decision_path :: "portfolio_decision \<Rightarrow> error + portfolio_decision" where
  "validate_decision_path p =
     bindE (guardE (pd_metrics_snapshot_ids p \<noteq> [] \<and> pd_cohort_reference p \<noteq> [] \<and>
        pd_rule_version p \<noteq> [] \<and> pd_explanation p \<noteq> [] \<and> pd_evidence p \<noteq> []) (ValueError ''field'')) (\<lambda>_.
     bindE (guardE (distinct (pd_metrics_snapshot_ids p))
        (ValueError ''metrics snapshot IDs must be unique'')) (\<lambda>_.
     bindE (case pd_decision p of
        HOLD \<Rightarrow> guardE (pd_repair_job_id p = None \<and> pd_deactivation_job_id p = None \<and>
            pd_successor_workflow_id p = None \<and> pd_successor_spec_id p = None)
          (ValueError ''HOLD forbids repair, deactivation, and successor IDs'')
      | REPAIR \<Rightarrow>
          bindE (guardE (pd_repair_job_id p \<noteq> None) (ValueError ''REPAIR requires repair_job_id'')) (\<lambda>_.
          guardE (pd_deactivation_job_id p = None \<and> pd_successor_workflow_id p = None \<and>
            pd_successor_spec_id p = None) (ValueError ''REPAIR forbids deactivation and successor IDs''))
      | CULL \<Rightarrow>
          bindE (guardE (pd_deactivation_job_id p \<noteq> None)
            (ValueError ''CULL requires deactivation_job_id'')) (\<lambda>_.
          guardE (pd_repair_job_id p = None \<and> pd_successor_workflow_id p = None \<and>
            pd_successor_spec_id p = None) (ValueError ''CULL forbids repair and successor IDs''))
      | MULTIPLY \<Rightarrow>
          bindE (guardE (pd_successor_workflow_id p \<noteq> None)
            (ValueError ''MULTIPLY requires successor_workflow_id'')) (\<lambda>_.
          bindE (guardE (pd_successor_spec_id p \<noteq> None)
            (ValueError ''MULTIPLY requires successor_spec_id'')) (\<lambda>_.
          bindE (guardE (pd_successor_workflow_id p \<noteq> Some (pd_workflow_id p))
            (ValueError ''successor workflow must differ from parent workflow'')) (\<lambda>_.
          guardE (pd_repair_job_id p = None \<and> pd_deactivation_job_id p = None)
            (ValueError ''MULTIPLY forbids repair and deactivation IDs''))))) (\<lambda>_. Inr p)))"

datatype incident_status = IS_OPEN | IS_BLOCKED | IS_RESOLVED | IS_UNCERTAIN_EXTERNAL_EFFECT

record incident_result =
  in_result_id :: uuid
  in_incident_id :: uuid
  in_incident_type :: incident_type
  in_status :: incident_status
  in_affected_object_type :: string
  in_affected_object_id :: uuid
  in_affected_version :: int
  in_opening_event :: event_name
  in_opening_job_id :: uuid
  in_safe_detail :: string
  in_evidence :: "evidence_reference list"
  in_resolution_job_id :: "uuid option"
  in_resolution_result_reference :: "string option"
  in_error :: "contract_error option"
  in_opened_at :: time
  in_resolved_at :: "time option"

definition validate_incident_status :: "incident_result \<Rightarrow> error + incident_result" where
  "validate_incident_status r =
     bindE (guardE (in_affected_object_type r \<noteq> [] \<and> 0 < in_affected_version r \<and> in_safe_detail r \<noteq> [] \<and>
        in_evidence r \<noteq> [] \<and> opt_non_empty (in_resolution_result_reference r)) (ValueError ''field'')) (\<lambda>_.
     bindE (if in_status r = IS_RESOLVED
        then bindE (guardE (in_resolution_job_id r \<noteq> None \<and> in_resolution_result_reference r \<noteq> None \<and>
              in_resolved_at r \<noteq> None)
            (ValueError ''RESOLVED requires resolution job, result, and timestamp'')) (\<lambda>_.
          guardE (in_error r = None) (ValueError ''RESOLVED forbids an error''))
        else bindE (guardE (in_resolution_job_id r = None \<and> in_resolution_result_reference r = None \<and>
              in_resolved_at r = None)
            (ValueError ''unresolved incident forbids resolution fields'')) (\<lambda>_.
          guardE (\<not> (in_status r \<in> {IS_BLOCKED, IS_UNCERTAIN_EXTERNAL_EFFECT} \<and> in_error r = None))
            (ValueError ''requires an error''))) (\<lambda>_.
     bindE (guardE (case in_resolved_at r of None \<Rightarrow> True | Some t \<Rightarrow> in_opened_at r \<le> t)
        (ValueError ''resolved_at cannot precede opened_at'')) (\<lambda>_. Inr r)))"

subsection \<open>Properties\<close>

lemma foldE_checks:
  fixes g :: "'a \<Rightarrow> 'e + unit"
  shows "foldE (\<lambda>a _. g a) xs () = Inr u \<longleftrightarrow> (\<forall>a \<in> set xs. g a = Inr ())"
proof (induction xs)
  case Nil
  then show ?case by simp
next
  case (Cons x xs)
  then show ?case by (cases "g x") auto
qed

text \<open>
  An agent result that validates tells a consistent story: it carries an error exactly when
  it is not a success, every artifact in it was produced by this very run for this very job,
  its effects have distinct idempotency keys, and a result that claims an uncertain effect
  names at least one effect whose state is unknown.
\<close>

theorem agent_result_consistent:
  assumes "validate_terminal_result r = Inr q"
  shows "q = r \<and> (rs_error r = None \<longleftrightarrow> rs_status r = R_SUCCESS) \<and>
     (\<forall>a \<in> set (rs_artifacts r). ar_producing_agent_run_id a = rs_agent_run_id r \<and>
        ar_producing_job_id a = rs_job_id r) \<and>
     distinct (map ef_idempotency_key (rs_effects r)) \<and> distinct (rs_emitted_events r) \<and>
     (rs_status r = R_UNCERTAIN_EXTERNAL_EFFECT \<longrightarrow>
        (\<exists>f \<in> set (rs_effects r). ef_effect_state f = X_UNKNOWN))"
  using assms
  by (simp add: validate_terminal_result_def bindE_eq_Inr foldE_checks list_ex_iff) auto

theorem agent_result_consistent_witness:
  "let r = \<lparr>rs_job_id = 1, rs_agent_run_id = 2, rs_agent_id = ''A01'', rs_agent_definition_version = 1,
      rs_prompt_reference = ''agent://A01/system/v1'', rs_prompt_sha256 = replicate 64 CHR ''0'',
      rs_status = R_SUCCESS, rs_output = [], rs_artifacts = [], rs_evidence = [],
      rs_emitted_events = [], rs_effects = [], rs_error = None\<rparr>
   in validate_terminal_result r = Inr r \<and> (rs_error r = None \<longleftrightarrow> rs_status r = R_SUCCESS)"
proof -
  let ?r = "\<lparr>rs_job_id = 1, rs_agent_run_id = 2, rs_agent_id = ''A01'', rs_agent_definition_version = 1,
      rs_prompt_reference = ''agent://A01/system/v1'', rs_prompt_sha256 = replicate 64 CHR ''0'',
      rs_status = R_SUCCESS, rs_output = [], rs_artifacts = [], rs_evidence = [],
      rs_emitted_events = [], rs_effects = [], rs_error = None\<rparr>"
  have "sha256_hex (replicate 64 CHR ''0'')" by code_simp
  then have v: "validate_terminal_result ?r = Inr ?r"
    by (simp add: validate_terminal_result_def agent_id_format_def)
  from agent_result_consistent [OF v] show ?thesis using v by simp
qed

text \<open>Which optional ids a validated decision carries, by its type.\<close>

lemma validate_decision_path_ids:
  assumes "validate_decision_path p = Inr q"
  shows "q = p" and "pd_repair_job_id p \<noteq> None \<longleftrightarrow> pd_decision p = REPAIR"
    and "pd_deactivation_job_id p \<noteq> None \<longleftrightarrow> pd_decision p = CULL"
    and "pd_successor_workflow_id p \<noteq> None \<longleftrightarrow> pd_decision p = MULTIPLY"
    and "pd_successor_spec_id p \<noteq> None \<longleftrightarrow> pd_decision p = MULTIPLY"
    and "pd_successor_workflow_id p \<noteq> Some (pd_workflow_id p)"
  using assms
  by (cases "pd_decision p"; auto simp: validate_decision_path_def bindE_eq_Inr)+

end
