(* ===== verification/Successors.thy ===== *)
theory Successors
  imports Event_Log Workflow_Config Contracts
begin

section \<open>Successor jobs and workflows\<close>

text \<open>
  \<^verbatim>\<open>orchestration/successor_factory.py\<close>: the jobs an event authorises and the successor
  workflow of a \<open>MULTIPLY\<close> decision. The loaded workflow configuration is the argument \<open>cfg\<close>
  (\<^verbatim>\<open>load_workflows_config\<close> caches it for the process). \<open>digest\<close> is the identifier derived from
  a text, the first sixteen bytes of its SHA-256. The server's clock fills \<open>created_at\<close> and
  \<open>updated_at\<close> of a new row; \<open>wall\<close> is the \<^verbatim>\<open>datetime.now\<close> read for \<open>started_at\<close>.
\<close>

type_synonym digest = "string \<Rightarrow> uuid"

definition str_opt_uuid :: "string \<Rightarrow> uuid option \<Rightarrow> string" where
  "str_opt_uuid none u = (case u of None \<Rightarrow> none | Some i \<Rightarrow> str_uuid i)"

definition autonomy_default :: "autonomy_mode list \<Rightarrow> autonomy_mode" where
  "autonomy_default modes = (case modes of [] \<Rightarrow> SIMULATION | m # _ \<Rightarrow> m)"

definition output_default :: "string list \<Rightarrow> string" where
  "output_default contracts = (case contracts of [] \<Rightarrow> ''AgentResult'' | c # _ \<Rightarrow> c)"

text \<open>A \<^verbatim>\<open>Job(...)\<close> as the factories construct it: pending, no attempt made, no lease.\<close>

definition new_job ::
    "uuid \<Rightarrow> uuid \<Rightarrow> string \<Rightarrow> string \<Rightarrow> uuid \<Rightarrow> string \<Rightarrow> json \<Rightarrow> string \<Rightarrow> time \<Rightarrow> string \<Rightarrow>
     side_effect_class \<Rightarrow> retry_class \<Rightarrow> autonomy_mode \<Rightarrow> db \<Rightarrow> job" where
  "new_job job_id workflow_id job_type object_type object_id owner_agent_id inp output_model
       scheduled_at idempotency_key side_effect_class retry_class allowed_mode d =
     \<lparr>j_id = job_id, j_version = 1, j_workflow_id = workflow_id, j_job_type = job_type,
      j_object_type = object_type, j_object_id = object_id, j_owner_agent_id = owner_agent_id,
      j_status = J_PENDING, j_input = inp,
      j_success_contract = JObj [(''output_model'', JStr output_model)],
      j_scheduled_at = scheduled_at, j_attempt = 0, j_max_attempts = 3,
      j_idempotency_key = idempotency_key, j_side_effect_class = side_effect_class,
      j_retry_class = retry_class, j_allowed_mode = allowed_mode, j_lease_owner = None,
      j_lease_expires_at = None, j_heartbeat_at = None, j_created_at = server_now d,
      j_updated_at = server_now d\<rparr>"

definition infer_object_type :: "string \<Rightarrow> string" where
  "infer_object_type job_type = (let t = lower_str job_type in
     if contains_str ''dedupe'' t \<or> contains_str ''spec'' t \<or> contains_str ''niche'' t
       then ''product_specs''
     else if contains_str ''build'' t \<or> contains_str ''qa'' t \<or> contains_str ''variant'' t
       then ''products''
     else if contains_str ''decision'' t \<or> contains_str ''evaluation'' t \<or> contains_str ''slot'' t
       then ''decisions''
     else if contains_str ''research'' t \<or> contains_str ''collection'' t then ''research_runs''
     else if contains_str ''listing'' t \<or> contains_str ''copy'' t \<or> contains_str ''asset'' t
       then ''listing_versions''
     else if contains_str ''incident'' t \<or> contains_str ''repair'' t then ''incidents''
     else if contains_str ''metric'' t \<or> contains_str ''review'' t then ''metrics_snapshots''
     else ''workflow_runs'')"

definition derive_product_job_id :: "digest \<Rightarrow> uuid \<Rightarrow> string \<Rightarrow> uuid" where
  "derive_product_job_id digest product_id job_type = digest (str_uuid product_id @ '':'' @ job_type)"

definition derive_successor_job_id :: "digest \<Rightarrow> uuid \<Rightarrow> uuid option \<Rightarrow> string \<Rightarrow> uuid" where
  "derive_successor_job_id digest workflow_id parent_job_id job_type =
     digest (str_uuid workflow_id @ '':'' @ str_opt_uuid ''none'' parent_job_id @ '':'' @ job_type)"

definition derive_job_id :: "digest \<Rightarrow> uuid \<Rightarrow> uuid \<Rightarrow> string \<Rightarrow> uuid" where
  "derive_job_id digest workflow_id spec_id job_type =
     digest (str_uuid workflow_id @ '':'' @ str_uuid spec_id @ '':'' @ job_type)"

text \<open>The first definition of a job type in the configuration, workflow by workflow.\<close>

definition find_job_def :: "workflows_config \<Rightarrow> string \<Rightarrow> workflow_job_definition option" where
  "find_job_def cfg job_type =
     find (\<lambda>j. wj_job_type j = job_type) (concat (map wd_jobs (wc_workflows cfg)))"

definition create_successor_job ::
    "digest \<Rightarrow> workflows_config \<Rightarrow> uuid \<Rightarrow> uuid option \<Rightarrow> uuid option \<Rightarrow> string \<Rightarrow> time \<Rightarrow> db \<Rightarrow>
     error + (uuid \<times> db)" where
  "create_successor_job digest cfg workflow_id parent_job_id aggregate_id job_type occurred_at d =
     bindE (requireE (find_job_def cfg job_type) (ValueError ''Job type not found'')) (\<lambda>job_def.
     let insert = (\<lambda>job_id idempotency_key.
           bindE (insert_job (new_job job_id workflow_id job_type (infer_object_type job_type) workflow_id
               (wj_owner_agent_id job_def)
               (JObj [(''parent_job_id'', case parent_job_id of None \<Rightarrow> JNull | Some p \<Rightarrow> JStr (str_uuid p))])
               (output_default (wj_output_contracts job_def)) occurred_at idempotency_key
               (wj_side_effect_class job_def) (wj_retry_class job_def)
               (autonomy_default (wj_allowed_modes job_def)) d) d)
             (\<lambda>e. Inr (job_id, e)))
     in if job_type = ''DraftListingJob''
        then bindE (requireE aggregate_id (ValueError ''DraftListingJob requires the product aggregate''))
          (\<lambda>product_id.
            let job_id = derive_product_job_id digest product_id job_type in
            if has_job d job_id then Inr (job_id, d)
            else insert job_id (job_type @ '':'' @ str_uuid product_id))
        else insert (derive_successor_job_id digest workflow_id parent_job_id job_type)
          (job_type @ '':'' @ str_uuid workflow_id @ '':'' @ str_opt_uuid ''none'' parent_job_id))"

fun create_each ::
    "digest \<Rightarrow> workflows_config \<Rightarrow> uuid \<Rightarrow> uuid option \<Rightarrow> uuid option \<Rightarrow> string option \<Rightarrow> time \<Rightarrow>
     string list \<Rightarrow> db \<Rightarrow> error + (uuid list \<times> db)" where
  "create_each digest cfg w parent agg agg_type t [] d = Inr ([], d)"
| "create_each digest cfg w parent agg agg_type t (job_type # job_types) d =
     (if job_type = ''DraftListingJob'' \<and> agg_type = Some ''Job''
      then create_each digest cfg w parent agg agg_type t job_types d
      else bindE (create_successor_job digest cfg w parent agg job_type t d) (\<lambda>(job_id, e).
        bindE (create_each digest cfg w parent agg agg_type t job_types e) (\<lambda>(ids, f).
        Inr (job_id # ids, f))))"

definition create_successors ::
    "digest \<Rightarrow> workflows_config \<Rightarrow> event_name \<Rightarrow> uuid \<Rightarrow> uuid option \<Rightarrow> uuid option \<Rightarrow> string option \<Rightarrow>
     time \<Rightarrow> db \<Rightarrow> error + (uuid list \<times> db)" where
  "create_successors digest cfg event_name workflow_id parent_job_id aggregate_id aggregate_type
       occurred_at d =
     bindE (requireE (map_of (wc_event_successor_map cfg) (event_value event_name))
        (ValueError ''Unknown event'')) (\<lambda>successor_job_types.
     create_each digest cfg workflow_id parent_job_id aggregate_id aggregate_type occurred_at
       successor_job_types d)"

subsection \<open>The successor of a winner\<close>

definition create_successor_workflow ::
    "time \<Rightarrow> uuid \<Rightarrow> product_state \<Rightarrow> uuid \<Rightarrow> uuid \<Rightarrow> uuid \<Rightarrow> db \<Rightarrow> error + (uuid \<times> db)" where
  "create_successor_workflow wall parent_workflow_id parent_state parent_decision_id
       successor_workflow_id shop_id d =
     bindE (require_successor_spawn parent_state parent_workflow_id successor_workflow_id) (\<lambda>entry_state.
     bindE (insert_workflow \<lparr>w_id = successor_workflow_id, w_version = 1, w_shop_id = shop_id,
         w_workflow_type = ''ProductLifecycleWorkflow'', w_workflow_version = 1,
         w_product_state = entry_state, w_parent_workflow_id = Some parent_workflow_id,
         w_parent_decision_id = Some parent_decision_id, w_batch_id = None, w_started_at = wall,
         w_completed_at = None\<rparr> d) (\<lambda>e. Inr (successor_workflow_id, e)))"

definition create_successor_entry_job ::
    "digest \<Rightarrow> uuid \<Rightarrow> uuid \<Rightarrow> time \<Rightarrow> db \<Rightarrow> error + (uuid \<times> db)" where
  "create_successor_entry_job digest successor_workflow_id successor_spec_id occurred_at d =
     (let job_id = derive_job_id digest successor_workflow_id successor_spec_id ''DedupeJob'' in
      bindE (insert_job (new_job job_id successor_workflow_id ''DedupeJob'' ''product_specs''
          successor_spec_id ''A06'' (JObj [(''successor_spec_id'', JStr (str_uuid successor_spec_id))])
          ''DedupeResult'' occurred_at (''DEDUPE:'' @ str_uuid successor_spec_id) NONE SAFE SIMULATION d) d)
        (\<lambda>e. Inr (job_id, e)))"

text \<open>
  The decision is a constructed, hence validated, model: a \<open>MULTIPLY\<close> decision without its
  successor ids cannot be an argument; the branch is there because the columns are optional.
\<close>

definition create_multiply_successor ::
    "digest \<Rightarrow> time \<Rightarrow> portfolio_decision \<Rightarrow> time \<Rightarrow> db \<Rightarrow> error + (uuid list \<times> db)" where
  "create_multiply_successor digest wall decision occurred_at d =
     (if pd_decision decision \<noteq> MULTIPLY then Inr ([], d)
      else case (pd_successor_workflow_id decision, pd_successor_spec_id decision) of
        (Some successor_id, Some spec_id) \<Rightarrow>
          bindE (requireE (get_workflow d (pd_workflow_id decision)) (ValueError ''parent workflow not found''))
            (\<lambda>parent.
          bindE (require_successor_spawn (w_product_state parent) (pd_workflow_id decision) successor_id) (\<lambda>_.
          bindE (require_product_transition (w_product_state parent) OBSERVING) (\<lambda>_.
          bindE (flush_workflow (parent\<lparr>w_product_state := OBSERVING, w_version := w_version parent + 1\<rparr>) d)
            (\<lambda>d1.
          bindE (create_successor_workflow wall (pd_workflow_id decision) (w_product_state parent)
              (pd_decision_id decision) successor_id (w_shop_id parent) d1) (\<lambda>(wid, d2).
          bindE (create_successor_entry_job digest wid spec_id occurred_at d2) (\<lambda>(job_id, d3).
          Inr ([job_id], d3)))))))
      | _ \<Rightarrow> Inl OtherException)"

subsection \<open>New jobs satisfy the contract\<close>

lemma new_job_inv:
  assumes "check_job (new_job a b c d' e f g h i k l m n d) = Inr ()"
  shows "job_inv (new_job a b c d' e f g h i k l m n d)"
  using assms by (simp add: job_inv_def new_job_def live_status_def lease_fields_clear_def)

lemma insert_new_job_evolves:
  assumes "insert_job (new_job a b c d' e f g h i k l m n d) x = Inr y"
  shows "db_evolves x y"
proof -
  have "check_job (new_job a b c d' e f g h i k l m n d) = Inr ()"
    using assms by (auto simp: insert_job_def bindE_eq_Inr)
  then show ?thesis using insert_job_evolves [OF assms new_job_inv] by simp
qed

lemma create_successor_job_cases:
  assumes "create_successor_job digest cfg w parent agg jt t d = Inr (i, e)"
  obtains (existing) "e = d" "has_job d i" "jt = ''DraftListingJob''"
    | (created) job where "insert_job job d = Inr e" "j_id job = i" "j_job_type job = jt"
        "j_workflow_id job = w" "j_status job = J_PENDING" "job_inv job"
        "find_job_def cfg jt \<noteq> None"
proof -
  have inv: "job_inv (new_job a b c d' e' f g h i' k l m n d)"
    if "insert_job (new_job a b c d' e' f g h i' k l m n d) d = Inr e" for a b c d' e' f g h i' k l m n
    using that new_job_inv by (auto simp: insert_job_def bindE_eq_Inr)
  show ?thesis
    using assms inv that
    by (auto simp: create_successor_job_def Let_def bindE_eq_Inr new_job_def split: if_splits)
qed

lemma create_successor_job_evolves:
  "create_successor_job digest cfg w parent agg jt t d = Inr (i, e) \<Longrightarrow> db_evolves d e"
  by (cases rule: create_successor_job_cases) (auto intro: insert_job_evolves)

lemma insert_job_eq: "insert_job j d = Inr e \<Longrightarrow> e = d\<lparr>jobs := jobs d @ [j]\<rparr>"
  by (auto simp: insert_job_def bindE_eq_Inr)

lemma create_successor_job_tables:
  assumes "create_successor_job digest cfg w parent agg jt t d = Inr (i, e)"
  shows "\<exists>ns. e = d\<lparr>jobs := jobs d @ ns\<rparr>"
  using assms
proof (cases rule: create_successor_job_cases)
  case existing
  then have "e = d\<lparr>jobs := jobs d @ []\<rparr>" by simp
  then show ?thesis by blast
next
  case (created job)
  then show ?thesis using insert_job_eq by blast
qed

lemma create_each_evolves:
  "create_each digest cfg w parent agg agt t jts d = Inr (ids, e) \<Longrightarrow> db_evolves d e"
proof (induction jts arbitrary: d ids)
  case Nil
  then show ?case by simp
next
  case (Cons jt jts)
  then show ?case
    using create_successor_job_evolves db_evolves_trans
    by (fastforce simp: bindE_eq_Inr split: if_splits)
qed

lemma create_each_tables:
  "create_each digest cfg w parent agg agt t jts d = Inr (ids, e) \<Longrightarrow> \<exists>ns. e = d\<lparr>jobs := jobs d @ ns\<rparr>"
proof (induction jts arbitrary: d ids)
  case Nil
  then have "e = d\<lparr>jobs := jobs d @ []\<rparr>" by simp
  then show ?case by blast
next
  case (Cons jt jts)
  show ?case
  proof (cases "jt = ''DraftListingJob'' \<and> agt = Some ''Job''")
    case True
    with Cons show ?thesis by auto
  next
    case False
    with Cons.prems obtain i d1 ids1 where c: "create_successor_job digest cfg w parent agg jt t d = Inr (i, d1)"
      and r: "create_each digest cfg w parent agg agt t jts d1 = Inr (ids1, e)"
      by (auto simp: bindE_eq_Inr)
    obtain ns where ns: "d1 = d\<lparr>jobs := jobs d @ ns\<rparr>" using create_successor_job_tables [OF c] by blast
    obtain ms where "e = d1\<lparr>jobs := jobs d1 @ ms\<rparr>" using Cons.IH [OF r] by blast
    with ns have "e = d\<lparr>jobs := jobs d @ (ns @ ms)\<rparr>" by simp
    then show ?thesis by blast
  qed
qed

interpretation successors_op: job_operation "create_successors digest cfg ev w parent agg agt t"
  for digest cfg ev w parent agg agt t
  by unfold_locales (auto simp: create_successors_def bindE_eq_Inr intro: create_each_evolves)

subsection \<open>The winner/successor boundary\<close>

lemma insert_workflow_cases:
  assumes "insert_workflow w d = Inr e"
  shows "e = d\<lparr>workflow_runs := workflow_runs d @ [w]\<rparr>" and "get_workflow d (w_id w) = None"
    and "get_workflow e i = (if i = w_id w then Some w else get_workflow d i)"
proof -
  show e: "e = d\<lparr>workflow_runs := workflow_runs d @ [w]\<rparr>" and none: "get_workflow d (w_id w) = None"
    using assms by (auto simp: insert_workflow_def bindE_eq_Inr has_workflow_get)
  show "get_workflow e i = (if i = w_id w then Some w else get_workflow d i)"
    using none by (auto simp: e get_workflow_def find_append split: option.splits)
qed

lemma flush_workflow_cases:
  assumes "flush_workflow w d = Inr e" and "get_workflow d (w_id w) = Some old" and "w \<noteq> old"
  shows "\<exists>ws. e = d\<lparr>workflow_runs := ws\<rparr>"
    and "get_workflow e i = (if i = w_id w then Some (w\<lparr>w_version := w_version old + 1\<rparr>) else get_workflow d i)"
proof -
  have e: "e = put_workflow (w\<lparr>w_version := w_version old + 1\<rparr>) d"
    using assms by (auto simp: flush_workflow_def bindE_eq_Inr)
  then show "\<exists>ws. e = d\<lparr>workflow_runs := ws\<rparr>" by (auto simp: put_workflow_def)
  show "get_workflow e i = (if i = w_id w then Some (w\<lparr>w_version := w_version old + 1\<rparr>) else get_workflow d i)"
    using assms(2) by (simp add: e workflow_store.get_put)
qed

lemma insert_job_get:
  assumes "insert_job j d = Inr e"
  shows "get_job e i = (if i = j_id j then Some j else get_job d i)"
proof -
  have "get_job d (j_id j) = None" using assms by (auto simp: insert_job_def bindE_eq_Inr has_job_get)
  then show ?thesis
    unfolding insert_job_eq [OF assms] get_job_def by (auto simp: find_append split: option.splits)
qed

lemma multiply_cases:
  assumes "create_multiply_successor digest wall p t d = Inr (ids, e)" and "pd_decision p = MULTIPLY"
  obtains s spec parent d1 w d2 job where
    "pd_successor_workflow_id p = Some s" "pd_successor_spec_id p = Some spec"
    "get_workflow d (pd_workflow_id p) = Some parent" "w_product_state parent = SUCCESSOR_SPEC"
    "pd_workflow_id p \<noteq> s"
    "flush_workflow (parent\<lparr>w_product_state := OBSERVING, w_version := w_version parent + 1\<rparr>) d = Inr d1"
    "insert_workflow w d1 = Inr d2" "w_id w = s" "w_product_state w = DEDUPE_CHECK"
    "w_parent_workflow_id w = Some (pd_workflow_id p)" "w_parent_decision_id w = Some (pd_decision_id p)"
    "w_shop_id w = w_shop_id parent" "w_completed_at w = None"
    "insert_job job d2 = Inr e" "ids = [j_id job]" "j_workflow_id job = s"
    "j_job_type job = ''DedupeJob''" "j_status job = J_PENDING" "j_owner_agent_id job = ''A06''"
    "j_object_id job = spec" "job_inv job"
    "j_id job = derive_job_id digest s spec ''DedupeJob''"
proof -
  from assms obtain s spec parent where
    a: "pd_successor_workflow_id p = Some s" "pd_successor_spec_id p = Some spec"
      "get_workflow d (pd_workflow_id p) = Some parent" "w_product_state parent = SUCCESSOR_SPEC"
      "pd_workflow_id p \<noteq> s"
    by (auto simp: create_multiply_successor_def bindE_eq_Inr split: option.splits)
  with assms obtain d1 wid d2 i where
    b: "flush_workflow (parent\<lparr>w_product_state := OBSERVING, w_version := w_version parent + 1\<rparr>) d = Inr d1"
      "create_successor_workflow wall (pd_workflow_id p) SUCCESSOR_SPEC (pd_decision_id p) s
         (w_shop_id parent) d1 = Inr (wid, d2)"
      "create_successor_entry_job digest wid spec t d2 = Inr (i, e)" "ids = [i]"
    by (auto simp: create_multiply_successor_def bindE_eq_Inr)
  let ?w = "\<lparr>w_id = s, w_version = 1, w_shop_id = w_shop_id parent,
         w_workflow_type = ''ProductLifecycleWorkflow'', w_workflow_version = 1,
         w_product_state = DEDUPE_CHECK, w_parent_workflow_id = Some (pd_workflow_id p),
         w_parent_decision_id = Some (pd_decision_id p), w_batch_id = None, w_started_at = wall,
         w_completed_at = None\<rparr>"
  let ?j = "new_job (derive_job_id digest s spec ''DedupeJob'') s ''DedupeJob'' ''product_specs''
          spec ''A06'' (JObj [(''successor_spec_id'', JStr (str_uuid spec))])
          ''DedupeResult'' t (''DEDUPE:'' @ str_uuid spec) NONE SAFE SIMULATION d2"
  from b(2) have c: "insert_workflow ?w d1 = Inr d2" "wid = s"
    by (auto simp: create_successor_workflow_def bindE_eq_Inr)
  from b(3) c(2) have j: "insert_job ?j d2 = Inr e" "i = j_id ?j"
    by (auto simp: create_successor_entry_job_def Let_def bindE_eq_Inr new_job_def)
  have inv: "job_inv ?j" using j(1) new_job_inv by (auto simp: insert_job_def bindE_eq_Inr)
  show ?thesis
    by (rule that [OF a b(1) c(1) _ _ _ _ _ _ j(1) _ _ _ _ _ _ inv])
      (use b(4) j(2) in \<open>simp_all add: new_job_def\<close>)
qed

lemma multiply_evolves:
  assumes "create_multiply_successor digest wall p t d = Inr (ids, e)"
  shows "db_evolves d e"
proof (cases "pd_decision p = MULTIPLY")
  case False
  with assms show ?thesis by (simp add: create_multiply_successor_def)
next
  case True
  from assms True show ?thesis
  proof (cases rule: multiply_cases)
    case (1 s spec parent d1 w d2 job)
    have "w_id parent = pd_workflow_id p" using workflow_store.get_member [OF 1(3)] by simp
    then have "\<exists>ws. d1 = d\<lparr>workflow_runs := ws\<rparr>"
      using flush_workflow_cases(1) [OF 1(6), of parent] 1(3,4) by (cases parent) auto
    moreover have "d2 = d1\<lparr>workflow_runs := workflow_runs d1 @ [w]\<rparr>"
      by (rule insert_workflow_cases(1) [OF 1(7)])
    ultimately have "jobs d2 = jobs d" by auto
    then have "db_evolves d d2" by (rule db_evolves_same_jobs)
    moreover have "db_evolves d2 e" using insert_job_evolves [OF 1(14)] 1(21) by simp
    ultimately show ?thesis by (rule db_evolves_trans)
  qed
qed

interpretation multiply_op: job_operation "create_multiply_successor digest wall p t"
  for digest wall p t
  by unfold_locales (rule multiply_evolves)

text \<open>
  The winner/successor boundary. A \<open>MULTIPLY\<close> decision is carried out only from
  \<open>SUCCESSOR_SPEC\<close>; then the parent workflow moves to \<open>OBSERVING\<close>, a workflow that did not exist
  before starts at \<open>DEDUPE_CHECK\<close> with the parent and the decision recorded and the parent's
  shop, its only new job is the pending dedupe job of A06, and every other workflow and job is
  unchanged. From any other state the attempt raises \<open>InvalidTransitionError\<close>, and for a missing
  parent \<open>ValueError\<close>.
\<close>

theorem multiply_successor_boundary:
  assumes "validate_decision_path p = Inr p" and "pd_decision p = MULTIPLY"
  shows "\<exists>s spec. pd_successor_workflow_id p = Some s \<and> pd_successor_spec_id p = Some spec \<and>
     (case create_multiply_successor digest wall p t d of
        Inr (ids, e) \<Rightarrow>
          (\<exists>parent v w j. get_workflow d (pd_workflow_id p) = Some parent \<and>
             w_product_state parent = SUCCESSOR_SPEC \<and> get_workflow d s = None \<and>
             get_workflow e (pd_workflow_id p) = Some (parent\<lparr>w_product_state := OBSERVING, w_version := v\<rparr>) \<and>
             get_workflow e s = Some w \<and> w_product_state w = DEDUPE_CHECK \<and>
             w_parent_workflow_id w = Some (pd_workflow_id p) \<and>
             w_parent_decision_id w = Some (pd_decision_id p) \<and> w_shop_id w = w_shop_id parent \<and>
             (\<forall>i. i \<noteq> s \<longrightarrow> i \<noteq> pd_workflow_id p \<longrightarrow> get_workflow e i = get_workflow d i) \<and>
             ids = [j_id j] \<and> jobs e = jobs d @ [j] \<and> j_workflow_id j = s \<and> j_status j = J_PENDING \<and>
             j_job_type j = ''DedupeJob'' \<and> j_owner_agent_id j = ''A06'' \<and> j_object_id j = spec)
      | Inl err \<Rightarrow> (case get_workflow d (pd_workflow_id p) of
          None \<Rightarrow> err = ValueError ''parent workflow not found''
        | Some parent \<Rightarrow> w_product_state parent \<noteq> SUCCESSOR_SPEC \<longrightarrow> err = InvalidTransitionError))"
proof -
  note ids = validate_decision_path_ids [OF assms(1)]
  obtain s spec where s: "pd_successor_workflow_id p = Some s" "pd_successor_spec_id p = Some spec"
    using ids(4,5) assms(2) by auto
  show ?thesis
  proof (cases "create_multiply_successor digest wall p t d")
    case (Inl err)
    have "case get_workflow d (pd_workflow_id p) of
          None \<Rightarrow> err = ValueError ''parent workflow not found''
        | Some parent \<Rightarrow> w_product_state parent \<noteq> SUCCESSOR_SPEC \<longrightarrow> err = InvalidTransitionError"
      using Inl s assms(2)
      by (auto simp: create_multiply_successor_def require_successor_spawn_def
          SUCCESSOR_SPAWN_SOURCE_STATE_def split: option.splits)
    with s Inl show ?thesis by simp
  next
    case (Inr r)
    obtain js e where r: "create_multiply_successor digest wall p t d = Inr (js, e)"
      using Inr by (cases r) auto
    from r assms(2) show ?thesis
    proof (cases rule: multiply_cases)
      case (1 s' spec' parent d1 w d2 job)
      have id: "w_id parent = pd_workflow_id p" using workflow_store.get_member [OF 1(3)] by simp
      have ne: "parent\<lparr>w_product_state := OBSERVING, w_version := w_version parent + 1\<rparr> \<noteq> parent"
        using 1(4) by (cases parent) auto
      have get: "get_workflow d (w_id (parent\<lparr>w_product_state := OBSERVING,
          w_version := w_version parent + 1\<rparr>)) = Some parent" using 1(3) id by simp
      note f = flush_workflow_cases [OF 1(6) get ne]
      note i = insert_workflow_cases [OF 1(7)]
      have j: "e = d2\<lparr>jobs := jobs d2 @ [job]\<rparr>" by (rule insert_job_eq [OF 1(14)])
      have g: "get_workflow e k = get_workflow d2 k" for k by (simp add: j get_workflow_def)
      have jobs: "jobs e = jobs d @ [job]" using j i(1) f(1) by auto
      have ss: "s' = s" "spec' = spec" using 1(1,2) s by auto
      show ?thesis
        unfolding r using 1 i(2,3) f(2) g jobs id s ss by auto
    qed
  qed
qed

definition example_decision :: portfolio_decision where
  "example_decision = \<lparr>pd_decision_id = 31, pd_workflow_id = 7, pd_product_id = 9, pd_listing_id = 33,
     pd_decision = MULTIPLY, pd_metrics_snapshot_ids = [34], pd_cohort_reference = ''cohort'',
     pd_rule_version = ''v1'', pd_explanation = ''winner'',
     pd_evidence = [\<lparr>er_evidence_id = 35, er_evidence_type = ''metrics'', er_source_reference = ''m'',
        er_observed_at = 0, er_sha256 = None, er_artifact_id = None, er_producing_job_id = None,
        er_safe_summary = ''m''\<rparr>],
     pd_repair_job_id = None, pd_deactivation_job_id = None, pd_successor_workflow_id = Some 8,
     pd_successor_spec_id = Some 36, pd_decided_at = 0\<rparr>"

definition example_winner_db :: db where
  "example_winner_db = (example_db [example_job 2 ''k'' J_SUCCEEDED])
     \<lparr>workflow_runs := [example_workflow\<lparr>w_product_state := SUCCESSOR_SPEC\<rparr>]\<rparr>"

lemma example_decision_valid: "validate_decision_path example_decision = Inr example_decision"
  by (simp add: validate_decision_path_def example_decision_def)

lemma example_multiply_runs:
  "\<exists>ids e. create_multiply_successor (\<lambda>_. 50) 5 example_decision 5 example_winner_db = Inr (ids, e)"
  by (simp add: create_multiply_successor_def example_decision_def example_winner_db_def example_defs
      get_workflow_def flush_workflow_def check_workflow_def fits_def require_product_transition_def
      require_successor_spawn_def SUCCESSOR_SPAWN_SOURCE_STATE_def SUCCESSOR_WORKFLOW_ENTRY_STATE_def
      put_workflow_def create_successor_workflow_def insert_workflow_def has_workflow_def
      create_successor_entry_job_def insert_job_def new_job_def check_job_def fits_opt_def
      agent_id_format_def has_job_def derive_job_id_def)

theorem multiply_successor_boundary_witness:
  "\<exists>ids e w. create_multiply_successor (\<lambda>_. 50) 5 example_decision 5 example_winner_db = Inr (ids, e) \<and>
     get_workflow e 8 = Some w \<and> w_product_state w = DEDUPE_CHECK"
proof -
  obtain ids e where r: "create_multiply_successor (\<lambda>_. 50) 5 example_decision 5 example_winner_db = Inr (ids, e)"
    using example_multiply_runs by blast
  have "pd_decision example_decision = MULTIPLY" "pd_successor_workflow_id example_decision = Some 8"
    by (simp_all add: example_decision_def)
  with multiply_successor_boundary [OF example_decision_valid, where digest = "\<lambda>_. 50" and wall = 5
      and t = 5 and d = example_winner_db] r
  show ?thesis by auto
qed

lemma create_each_jobs:
  assumes "create_each digest cfg w parent agg agt t jts d = Inr (ids, e)"
  shows "\<exists>ns. e = d\<lparr>jobs := jobs d @ ns\<rparr> \<and>
     (\<forall>j \<in> set ns. j_status j = J_PENDING \<and> j_workflow_id j = w \<and> j_job_type j \<in> set jts \<and>
        j_id j \<in> set ids \<and> job_inv j) \<and>
     length ids = length (filter (\<lambda>jt. \<not> (jt = ''DraftListingJob'' \<and> agt = Some ''Job'')) jts) \<and>
     (\<forall>i \<in> set ids. has_job e i)"
  using assms
proof (induction jts arbitrary: d ids)
  case Nil
  then have "e = d\<lparr>jobs := jobs d @ []\<rparr>" by simp
  with Nil show ?case by fastforce
next
  case (Cons jt jts)
  show ?case
  proof (cases "jt = ''DraftListingJob'' \<and> agt = Some ''Job''")
    case True
    with Cons.prems have "create_each digest cfg w parent agg agt t jts d = Inr (ids, e)" by simp
    from Cons.IH [OF this] True show ?thesis by auto
  next
    case False
    with Cons.prems obtain i d1 ids1 where c: "create_successor_job digest cfg w parent agg jt t d = Inr (i, d1)"
      and r: "create_each digest cfg w parent agg agt t jts d1 = Inr (ids1, e)" and ids: "ids = i # ids1"
      by (auto simp: bindE_eq_Inr)
    from Cons.IH [OF r] obtain ms where ms: "e = d1\<lparr>jobs := jobs d1 @ ms\<rparr>"
      "\<forall>j \<in> set ms. j_status j = J_PENDING \<and> j_workflow_id j = w \<and> j_job_type j \<in> set jts \<and>
             j_id j \<in> set ids1 \<and> job_inv j"
      "length ids1 = length (filter (\<lambda>jt. \<not> (jt = ''DraftListingJob'' \<and> agt = Some ''Job'')) jts)"
      "\<forall>i \<in> set ids1. has_job e i" by blast
    from c show ?thesis
    proof (cases rule: create_successor_job_cases)
      case existing
      then have "has_job e i" using ms(1) by (auto simp: has_job_def)
      with existing ms ids False show ?thesis by auto
    next
      case (created job)
      have d1: "d1 = d\<lparr>jobs := jobs d @ [job]\<rparr>" by (rule insert_job_eq [OF created(1)])
      then have "e = d\<lparr>jobs := jobs d @ (job # ms)\<rparr>" using ms(1) by simp
      moreover have "has_job e i" using created(2) ms(1) d1 by (simp add: has_job_def)
      ultimately show ?thesis using created ms ids False
        by (intro exI [of _ "job # ms"]) auto
    qed
  qed
qed

text \<open>
  Events fail closed. An event that the configuration does not list raises \<open>ValueError\<close> and
  creates nothing; a listed event only appends jobs, all of them pending, in the event's
  workflow and of a listed type, and returns one id for every listed type except a
  \<open>DraftListingJob\<close> requested on behalf of a job instead of a product.
\<close>

theorem successors_follow_the_map:
  "case map_of (wc_event_successor_map cfg) (event_value ev) of
     None \<Rightarrow> create_successors digest cfg ev w parent agg agt t d = Inl (ValueError ''Unknown event'')
   | Some types \<Rightarrow>
       (case create_successors digest cfg ev w parent agg agt t d of
          Inl _ \<Rightarrow> True
        | Inr (ids, e) \<Rightarrow> \<exists>ns. e = d\<lparr>jobs := jobs d @ ns\<rparr> \<and>
            (\<forall>j \<in> set ns. j_status j = J_PENDING \<and> j_workflow_id j = w \<and> j_job_type j \<in> set types \<and>
               j_id j \<in> set ids \<and> job_inv j) \<and>
            length ids = length (filter (\<lambda>jt. \<not> (jt = ''DraftListingJob'' \<and> agt = Some ''Job'')) types) \<and>
            (\<forall>i \<in> set ids. has_job e i))"
  using create_each_jobs
  by (fastforce simp: create_successors_def bindE_eq_Inr split: option.split sum.split)

definition example_workflows :: workflows_config where
  "example_workflows = \<lparr>wc_version = 1,
     wc_event_successor_map = [(''PRODUCT_REJECTED'', []), (''WINNER_DETECTED'', []),
       (''PRODUCT_SPEC_CREATED'', [''DedupeJob''])],
     wc_workflows = [\<lparr>wd_workflow_type = ''product'', wd_version = 1, wd_entry_job_types = [''DedupeJob''],
       wd_jobs = [\<lparr>wj_job_type = ''DedupeJob'', wj_owner_agent_id = ''A06'', wj_side_effect_class = NONE,
         wj_retry_class = SAFE, wj_allowed_modes = [SIMULATION], wj_output_contracts = [''DedupeResult''],
         wj_admitted_events = [EV_PRODUCT_REJECTED], wj_successor_job_types = [],
         wj_capability_operation = None, wj_capability_channel = None\<rparr>]\<rparr>]\<rparr>"

theorem successors_follow_the_map_witness:
  "\<exists>ids e. create_successors (\<lambda>_. 50) example_workflows EV_PRODUCT_SPEC_CREATED 7 None None
     (Some ''products'') 5 (example_db []) = Inr (ids, e) \<and> length ids = 1"
proof -
  have "\<exists>ids e. create_successors (\<lambda>_. 50) example_workflows EV_PRODUCT_SPEC_CREATED 7 None None
     (Some ''products'') 5 (example_db []) = Inr (ids, e)"
    by (simp add: create_successors_def example_workflows_def create_successor_job_def find_job_def_def
        Let_def insert_job_def new_job_def check_job_def fits_def fits_opt_def agent_id_format_def
        has_job_def has_workflow_def example_defs infer_object_type_def str_opt_uuid_def)
  then obtain ids e where r: "create_successors (\<lambda>_. 50) example_workflows EV_PRODUCT_SPEC_CREATED 7 None
     None (Some ''products'') 5 (example_db []) = Inr (ids, e)" by blast
  have m: "map_of (wc_event_successor_map example_workflows) (event_value EV_PRODUCT_SPEC_CREATED) =
      Some [''DedupeJob'']" by (simp add: example_workflows_def)
  from successors_follow_the_map [where cfg = example_workflows and ev = EV_PRODUCT_SPEC_CREATED
      and digest = "\<lambda>_. 50" and w = 7 and parent = None and agg = None and agt = "Some ''products''"
      and t = 5 and d = "example_db []"] r
  show ?thesis unfolding m by auto
qed

end
