(* ===== verification/Dispatcher.thy ===== *)
theory Dispatcher
  imports Successors
begin

section \<open>Event dispatch\<close>

text \<open>
  \<^verbatim>\<open>orchestration/event_dispatcher.py\<close>: one event is appended once, under a semantic key, and
  only a new event creates successors; a portfolio decision creates its successor first and then
  emits \<open>WINNER_DETECTED\<close> and \<open>SUCCESSOR_CREATED\<close>. \<open>fresh\<close> arguments are the ids of the events.
\<close>

definition dedupe_key :: "event_name \<Rightarrow> uuid \<Rightarrow> uuid option \<Rightarrow> uuid option \<Rightarrow> string" where
  "dedupe_key event_name aggregate_id workflow_id job_id =
     join_with '':'' [event_value event_name, str_uuid aggregate_id,
       str_opt_uuid ''null'' workflow_id, str_opt_uuid ''null'' job_id]"

text \<open>The key of a dispatch, and whether the event is already known under its earlier key.\<close>

definition dispatch_key ::
    "event_name \<Rightarrow> string \<Rightarrow> uuid \<Rightarrow> uuid option \<Rightarrow> uuid option \<Rightarrow> db \<Rightarrow> error + (string \<times> bool)" where
  "dispatch_key event_name aggregate_type aggregate_id workflow_id job_id d =
     (if event_name = EV_ASSETS_COMPLETED \<and> aggregate_type = ''Job'' then
        (case job_id of
           None \<Rightarrow> Inl (ValueError ''worker ASSETS_COMPLETED requires a job'')
         | Some j \<Rightarrow>
             if has_job d j
             then Inr (event_value event_name @ '':'' @ str_uuid aggregate_id @ '':job:'' @ str_uuid j, False)
             else Inl (ValueError ''worker ASSETS_COMPLETED requires a job''))
      else if event_name = EV_ASSETS_COMPLETED \<and> aggregate_type = ''products'' then
        bindE (by_dedupe_key (dedupe_key event_name aggregate_id workflow_id None) d) (\<lambda>legacy.
        Inr (event_value event_name @ '':'' @ str_uuid aggregate_id @ '':product'', legacy \<noteq> None))
      else Inr (dedupe_key event_name aggregate_id workflow_id job_id, False))"

definition dispatch ::
    "digest \<Rightarrow> workflows_config \<Rightarrow> uuid \<Rightarrow> event_name \<Rightarrow> string \<Rightarrow> uuid \<Rightarrow> uuid option \<Rightarrow> uuid option \<Rightarrow>
     json \<Rightarrow> time \<Rightarrow> db \<Rightarrow> error + (uuid list \<times> db)" where
  "dispatch digest cfg fresh event_name aggregate_type aggregate_id workflow_id job_id payload
       occurred_at d =
     bindE (dispatch_key event_name aggregate_type aggregate_id workflow_id job_id d)
       (\<lambda>(key, event_already_existed).
     bindE (if event_already_existed then Inr (False, d)
        else record_event (make_event fresh event_name aggregate_type aggregate_id workflow_id job_id
          payload key occurred_at d) d) (\<lambda>(new, e).
     case workflow_id of
       None \<Rightarrow> Inr ([], e)
     | Some w \<Rightarrow>
         if \<not> new \<or> event_name = EV_SUCCESSOR_CREATED then Inr ([], e)
         else create_successors digest cfg event_name w job_id (Some aggregate_id)
           (Some aggregate_type) occurred_at e))"

text \<open>The job of a successor that an earlier dispatch of the same decision created.\<close>

definition existing_successor :: "portfolio_decision \<Rightarrow> db \<Rightarrow> uuid list" where
  "existing_successor decision d = (case pd_successor_workflow_id decision of
     None \<Rightarrow> []
   | Some s \<Rightarrow> (case find (\<lambda>j. j_workflow_id j = s) (jobs d) of
       None \<Rightarrow> []
     | Some existing_job \<Rightarrow> [j_id existing_job]))"

definition winner_key :: "portfolio_decision \<Rightarrow> uuid \<Rightarrow> string" where
  "winner_key decision parent_job_id = dedupe_key EV_WINNER_DETECTED (pd_decision_id decision)
     (Some (pd_workflow_id decision)) (Some parent_job_id)"

definition successor_key :: "portfolio_decision \<Rightarrow> uuid \<Rightarrow> uuid \<Rightarrow> string" where
  "successor_key decision successor_workflow_id successor_job_id =
     ''SUCCESSOR_CREATED:'' @ str_uuid (pd_decision_id decision) @ '':'' @
       str_uuid successor_workflow_id @ '':'' @ str_uuid successor_job_id"

definition emit_successor_created ::
    "uuid \<Rightarrow> portfolio_decision \<Rightarrow> uuid list \<Rightarrow> time \<Rightarrow> db \<Rightarrow> error + (bool \<times> db)" where
  "emit_successor_created fresh decision successor_job_ids occurred_at d =
     (case (successor_job_ids, pd_successor_workflow_id decision, pd_successor_spec_id decision) of
        (successor_job_id # _, Some s, Some spec) \<Rightarrow>
          if pd_decision decision = MULTIPLY then
            record_event (make_event fresh EV_SUCCESSOR_CREATED ''product_specs'' spec (Some s)
              (Some successor_job_id)
              (JObj [(''parent_workflow_id'', JStr (str_uuid (pd_workflow_id decision))),
                     (''parent_decision_id'', JStr (str_uuid (pd_decision_id decision)))])
              (successor_key decision s successor_job_id) occurred_at d) d
          else Inr (False, d)
      | _ \<Rightarrow> Inr (False, d))"

definition dispatch_decision ::
    "digest \<Rightarrow> uuid \<Rightarrow> uuid \<Rightarrow> time \<Rightarrow> portfolio_decision \<Rightarrow> uuid \<Rightarrow> time \<Rightarrow> db \<Rightarrow> error + (uuid list \<times> db)" where
  "dispatch_decision digest fresh fresh' wall decision parent_job_id occurred_at d =
     bindE (by_dedupe_key (winner_key decision parent_job_id) d) (\<lambda>existing_winner.
     if existing_winner \<noteq> None \<and> pd_decision decision = MULTIPLY
     then Inr (existing_successor decision d, d)
     else
       bindE (create_multiply_successor digest wall decision occurred_at d) (\<lambda>(successor_job_ids, d1).
       bindE (record_event (make_event fresh EV_WINNER_DETECTED ''decisions'' (pd_decision_id decision)
           (Some (pd_workflow_id decision)) (Some parent_job_id)
           (JObj [(''decision'', JStr (decision_value (pd_decision decision)))])
           (winner_key decision parent_job_id) occurred_at d1) d1) (\<lambda>(_, d2).
       bindE (emit_successor_created fresh' decision successor_job_ids occurred_at d2) (\<lambda>(_, d3).
       Inr (successor_job_ids, d3)))))"

subsection \<open>Keys\<close>

lemma str_opt_uuid_inj: "str_opt_uuid ''null'' a = str_opt_uuid ''null'' b \<longleftrightarrow> a = b"
proof -
  have "''null'' \<noteq> str_uuid u" for u
  proof
    assume "''null'' = str_uuid u"
    then have "length ''null'' = length (str_uuid u)" by (simp only:)
    then show False by simp
  qed
  note this and this [symmetric]
  then show ?thesis by (cases a; cases b) (simp_all add: str_opt_uuid_def)
qed

lemma str_opt_uuid_no_colon: "CHR '':'' \<notin> set (str_opt_uuid ''null'' u)"
  by (cases u) (simp_all add: str_opt_uuid_def)

text \<open>
  The semantic keys of two events are equal only if the events agree on their name,
  aggregate, workflow and job, so deduplication never merges different events.
\<close>

theorem dedupe_key_injective:
  "dedupe_key ev a w j = dedupe_key ev' a' w' j' \<longleftrightarrow> ev = ev' \<and> a = a' \<and> w = w' \<and> j = j'"
proof
  assume "dedupe_key ev a w j = dedupe_key ev' a' w' j'"
  then have k: "event_value ev @ CHR '':'' # (str_uuid a @ CHR '':'' #
      (str_opt_uuid ''null'' w @ CHR '':'' # str_opt_uuid ''null'' j)) =
    event_value ev' @ CHR '':'' # (str_uuid a' @ CHR '':'' #
      (str_opt_uuid ''null'' w' @ CHR '':'' # str_opt_uuid ''null'' j'))"
    by (simp add: dedupe_key_def)
  from append_sep_inj [OF k] have 1: "event_value ev = event_value ev'"
    and k1: "str_uuid a @ CHR '':'' # (str_opt_uuid ''null'' w @ CHR '':'' # str_opt_uuid ''null'' j) =
      str_uuid a' @ CHR '':'' # (str_opt_uuid ''null'' w' @ CHR '':'' # str_opt_uuid ''null'' j')" by auto
  from append_sep_inj [OF k1] have 2: "a = a'"
    and k2: "str_opt_uuid ''null'' w @ CHR '':'' # str_opt_uuid ''null'' j =
      str_opt_uuid ''null'' w' @ CHR '':'' # str_opt_uuid ''null'' j'" by auto
  from append_sep_inj [OF k2 str_opt_uuid_no_colon str_opt_uuid_no_colon]
  show "ev = ev' \<and> a = a' \<and> w = w' \<and> j = j'"
    using 1 2 by (simp add: event_value_inj str_opt_uuid_inj)
qed simp

subsection \<open>Dispatch\<close>

lemma by_dedupe_key_events: "events e = events d \<Longrightarrow> by_dedupe_key k e = by_dedupe_key k d"
  by (simp add: by_dedupe_key_def)

lemma event_keys_unique_events: "events e = events d \<Longrightarrow> event_keys_unique e = event_keys_unique d"
  by (simp add: event_keys_unique_def)

lemma create_successors_tables:
  "create_successors digest cfg ev w parent agg agt t d = Inr (ids, e) \<Longrightarrow>
     \<exists>ns. e = d\<lparr>jobs := jobs d @ ns\<rparr>"
  by (auto simp: create_successors_def bindE_eq_Inr dest: create_each_tables)

text \<open>A dispatch records its event first; what follows only appends jobs.\<close>

lemma dispatch_cases:
  assumes "dispatch digest cfg fresh ev agt agg w j payload t d = Inr (ids, e)"
  obtains key existed new d1 ns where "dispatch_key ev agt agg w j d = Inr (key, existed)"
    "if existed then \<not> new \<and> d1 = d
     else record_event (make_event fresh ev agt agg w j payload key t d) d = Inr (new, d1)"
    "e = d1\<lparr>jobs := jobs d1 @ ns\<rparr>" "db_evolves d1 e" "\<not> new \<Longrightarrow> e = d1"
proof -
  from assms obtain key existed new d1 where
    k: "dispatch_key ev agt agg w j d = Inr (key, existed)"
      "(if existed then Inr (False, d)
        else record_event (make_event fresh ev agt agg w j payload key t d) d) = Inr (new, d1)"
      "(case w of None \<Rightarrow> Inr ([], d1) | Some w \<Rightarrow>
         if \<not> new \<or> ev = EV_SUCCESSOR_CREATED then Inr ([], d1)
         else create_successors digest cfg ev w j (Some agg) (Some agt) t d1) = Inr (ids, e)"
    by (auto simp: dispatch_def bindE_eq_Inr)
  have same: "e = d1 \<Longrightarrow> e = d1\<lparr>jobs := jobs d1 @ []\<rparr>" by simp
  from k(3) consider "e = d1" | w' where "new"
    "create_successors digest cfg ev w' j (Some agg) (Some agt) t d1 = Inr (ids, e)"
    by (auto split: option.splits if_splits)
  then show ?thesis
  proof cases
    case 1
    with k that [OF k(1) _ same] show ?thesis by (auto split: if_splits)
  next
    case (2 w')
    then obtain ns where "e = d1\<lparr>jobs := jobs d1 @ ns\<rparr>" using create_successors_tables by blast
    moreover have "db_evolves d1 e"
      using 2(2) by (auto simp: create_successors_def bindE_eq_Inr intro: create_each_evolves)
    ultimately show ?thesis using k(1,2) 2(1) that by (auto split: if_splits)
  qed
qed

lemma record_event_evolves:
  assumes "record_event ev d = Inr (new, e)"
  shows "db_evolves d e"
  using assms by (cases rule: record_event_cases) (auto intro: db_evolves_same_jobs)

interpretation dispatch_op: job_operation "dispatch digest cfg fresh ev agt agg w j payload t"
  for digest cfg fresh ev agt agg w j payload t
proof unfold_locales
  fix d ids e
  assume "dispatch digest cfg fresh ev agt agg w j payload t d = Inr (ids, e)"
  then show "db_evolves d e"
  proof (cases rule: dispatch_cases)
    case (1 key existed new d1 ns)
    then have "db_evolves d d1" by (cases existed) (auto intro: record_event_evolves)
    then show ?thesis using 1(4) by (rule db_evolves_trans)
  qed
qed

lemma dispatch_key_stable:
  assumes "dispatch_key ev agt agg w j d = Inr (key, existed)"
    and "\<And>i. has_job d i \<Longrightarrow> has_job e i"
    and "event_keys_unique d" and "event_keys_unique e"
    and "\<And>k x. by_dedupe_key k d = Inr (Some x) \<Longrightarrow> by_dedupe_key k e = Inr (Some x)"
  shows "\<exists>b. dispatch_key ev agt agg w j e = Inr (key, b) \<and> (existed \<longrightarrow> b)"
proof (cases "ev = EV_ASSETS_COMPLETED \<and> agt = ''products''")
  case True
  then show ?thesis
    using assms(1) log.lookup_total [OF assms(4)] assms(5)
    by (auto simp: dispatch_key_def bindE_eq_Inr)
next
  case False
  then show ?thesis
    using assms(1,2) by (auto simp: dispatch_key_def split: if_splits option.splits)
qed

text \<open>
  C6: dispatching an event twice is dispatching it once. After a successful dispatch, a second
  dispatch of the same event (same name, aggregate, workflow and job, at any time and with any
  payload) succeeds, creates no job, appends no event and leaves the database unchanged; the
  first one extended the log by at most one event.
\<close>

theorem dispatch_idempotent:
  assumes "event_keys_unique d"
    and "dispatch digest cfg fresh ev agt agg w j payload t d = Inr (ids, e)"
  shows "dispatch digest cfg fresh' ev agt agg w j payload' t' e = Inr ([], e) \<and>
     event_keys_unique e \<and> (\<exists>xs. events e = events d @ xs \<and> length xs \<le> 1)"
  using assms(2)
proof (cases rule: dispatch_cases)
  case (1 key existed new d1 ns)
  have ev: "events e = events d1" using 1(3) by simp
  show ?thesis
  proof (cases existed)
    case True
    then have "e = d" using 1(2,5) by simp
    with 1(1) True assms(1) show ?thesis
      by (auto simp: dispatch_def split: option.split)
  next
    case False
    let ?ev = "make_event fresh ev agt agg w j payload key t d"
    have r: "record_event ?ev d = Inr (new, d1)" using 1(2) False by simp
    note k = log.record_once_result [OF assms(1) r]
    have ue: "event_keys_unique e" using event_keys_unique_events [OF ev] k(1) by simp
    have jobs: "has_job d i \<Longrightarrow> has_job e i" for i
      using r by (cases rule: record_event_cases) (auto simp: 1(3) has_job_def)
    have look: "by_dedupe_key k' d = Inr (Some x) \<Longrightarrow> by_dedupe_key k' e = Inr (Some x)" for k' x
      using k(3) by_dedupe_key_events [OF ev] by simp
    obtain b where b: "dispatch_key ev agt agg w j e = Inr (key, b)"
      using dispatch_key_stable [OF 1(1) jobs assms(1) ue look] by blast
    obtain x where "by_dedupe_key key e = Inr (Some x)"
      using k(2) by_dedupe_key_events [OF ev] by (auto simp: make_event_def)
    then have "record_event (make_event fresh' ev agt agg w j payload' key t' e) e = Inr (False, e)"
      using log.record_once_found [OF ue] by (simp add: make_event_def)
    then have "dispatch digest cfg fresh' ev agt agg w j payload' t' e = Inr ([], e)"
      using b by (simp add: dispatch_def split: option.split)
    moreover have "\<exists>xs. events e = events d @ xs \<and> length xs \<le> 1"
      using r by (cases rule: record_event_cases) (simp_all add: ev)
    ultimately show ?thesis using ue by simp
  qed
qed

theorem dispatch_idempotent_witness:
  "\<exists>ids e. dispatch (\<lambda>_. 50) example_workflows 3 EV_PRODUCT_REJECTED ''products'' 9 (Some 7) None
       (JObj []) 5 (example_db []) = Inr (ids, e) \<and>
     dispatch (\<lambda>_. 50) example_workflows 4 EV_PRODUCT_REJECTED ''products'' 9 (Some 7) None
       (JObj []) 6 e = Inr ([], e)"
proof -
  have u: "event_keys_unique (example_db [])" by (simp add: event_keys_unique_def example_defs)
  have "\<exists>ids e. dispatch (\<lambda>_. 50) example_workflows 3 EV_PRODUCT_REJECTED ''products'' 9 (Some 7) None
       (JObj []) 5 (example_db []) = Inr (ids, e)"
    by (simp add: dispatch_def dispatch_key_def record_once_def append_event_def by_dedupe_key_def
        one_or_none_def example_defs make_event_def insert_event_def check_event_def fits_def
        has_workflow_def dedupe_key_def str_opt_uuid_def create_successors_def example_workflows_def)
  then obtain ids e where r: "dispatch (\<lambda>_. 50) example_workflows 3 EV_PRODUCT_REJECTED ''products'' 9
      (Some 7) None (JObj []) 5 (example_db []) = Inr (ids, e)" by blast
  with dispatch_idempotent [OF u r, of 4 "JObj []" 6] show ?thesis by blast
qed

subsection \<open>Decisions\<close>

lemma dispatch_decision_cases:
  assumes "dispatch_decision digest f f' wall p pj t d = Inr (ids, e)"
  obtains (repeated) x where "by_dedupe_key (winner_key p pj) d = Inr (Some x)" "pd_decision p = MULTIPLY"
      "ids = existing_successor p d" "e = d"
    | (first) d1 n ev d2 n' where "create_multiply_successor digest wall p t d = Inr (ids, d1)"
      "e_dedupe_key ev = winner_key p pj" "record_event ev d1 = Inr (n, d2)"
      "emit_successor_created f' p ids t d2 = Inr (n', e)"
proof -
  from assms obtain x where x: "by_dedupe_key (winner_key p pj) d = Inr x"
    by (auto simp: dispatch_decision_def bindE_eq_Inr)
  show ?thesis
  proof (cases "x \<noteq> None \<and> pd_decision p = MULTIPLY")
    case True
    then obtain y where y: "by_dedupe_key (winner_key p pj) d = Inr (Some y)" using x by auto
    have "dispatch_decision digest f f' wall p pj t d = Inr (existing_successor p d, d)"
      using y True by (simp add: dispatch_decision_def)
    then show ?thesis using repeated [OF y] True assms by simp
  next
    case False
    let ?ev = "\<lambda>d1. make_event f EV_WINNER_DETECTED ''decisions'' (pd_decision_id p)
           (Some (pd_workflow_id p)) (Some pj)
           (JObj [(''decision'', JStr (decision_value (pd_decision p)))]) (winner_key p pj) t d1"
    have "dispatch_decision digest f f' wall p pj t d =
       bindE (create_multiply_successor digest wall p t d) (\<lambda>(ids, d1).
       bindE (record_event (?ev d1) d1) (\<lambda>(_, d2).
       bindE (emit_successor_created f' p ids t d2) (\<lambda>(_, d3). Inr (ids, d3))))"
      unfolding dispatch_decision_def x bindE_simps if_not_P [OF False] by (rule refl)
    with assms obtain d1 n d2 n' where
      "create_multiply_successor digest wall p t d = Inr (ids, d1)"
      "record_event (?ev d1) d1 = Inr (n, d2)" "emit_successor_created f' p ids t d2 = Inr (n', e)"
      by (auto simp: bindE_eq_Inr)
    then show ?thesis using first [of d1 "?ev d1"] by (simp add: make_event_def)
  qed
qed

lemma emit_successor_created_cases:
  assumes "emit_successor_created f p ids t d = Inr (n, e)"
  obtains (none) "e = d" | (recorded) ev where "record_event ev d = Inr (n, e)"
  using assms by (auto simp: emit_successor_created_def split: list.splits option.splits if_splits)

lemma dispatch_decision_evolves:
  assumes "dispatch_decision digest f f' wall p pj t d = Inr (ids, e)"
  shows "db_evolves d e"
  using assms
proof (cases rule: dispatch_decision_cases)
  case repeated
  then show ?thesis by simp
next
  case (first d1 n ev d2 n')
  from first(4) have "db_evolves d2 e"
    by (cases rule: emit_successor_created_cases) (auto intro: record_event_evolves)
  then show ?thesis
    using multiply_evolves [OF first(1)] record_event_evolves [OF first(3)] db_evolves_trans by blast
qed

interpretation decision_op: job_operation "dispatch_decision digest f f' wall p pj t"
  for digest f f' wall p pj t
  by unfold_locales (rule dispatch_decision_evolves)

lemma emit_successor_created_keeps:
  assumes "emit_successor_created f p ids t d = Inr (n, e)" and "event_keys_unique d"
  shows "event_keys_unique e" and "jobs e = jobs d"
    and "by_dedupe_key k d = Inr (Some x) \<Longrightarrow> by_dedupe_key k e = Inr (Some x)"
proof -
  have "event_keys_unique e \<and> jobs e = jobs d \<and>
    (by_dedupe_key k d = Inr (Some x) \<longrightarrow> by_dedupe_key k e = Inr (Some x))"
    using assms(1)
  proof (cases rule: emit_successor_created_cases)
    case none
    with assms(2) show ?thesis by simp
  next
    case (recorded ev)
    have "jobs e = jobs d" using recorded by (cases rule: record_event_cases) auto
    with log.record_once_result(1,3) [OF assms(2) recorded] show ?thesis by blast
  qed
  then show "event_keys_unique e" "jobs e = jobs d"
    "by_dedupe_key k d = Inr (Some x) \<Longrightarrow> by_dedupe_key k e = Inr (Some x)" by blast+
qed

text \<open>Every job belongs to a stored workflow: the foreign key of the table.\<close>

definition jobs_have_workflows :: "db \<Rightarrow> bool" where
  "jobs_have_workflows d \<longleftrightarrow> (\<forall>j \<in> set (jobs d). has_workflow d (j_workflow_id j))"

lemma multiply_new_job:
  assumes "create_multiply_successor digest wall p t d = Inr (ids, e)" and "pd_decision p = MULTIPLY"
    and "jobs_have_workflows d"
  shows "existing_successor p e = ids" and "events e = events d" and "ids \<noteq> []"
proof -
  from assms(1,2) have "existing_successor p e = ids \<and> events e = events d \<and> ids \<noteq> []"
  proof (cases rule: multiply_cases)
    case (1 s spec parent d1 w d2 job)
    have "w_id parent = pd_workflow_id p" using workflow_store.get_member [OF 1(3)] by simp
    then obtain ws where d1: "d1 = d\<lparr>workflow_runs := ws\<rparr>"
      and old: "\<And>i. get_workflow d1 i = None \<longleftrightarrow> get_workflow d i = None"
      using flush_workflow_cases [OF 1(6), of parent] 1(3,4) by (cases parent) auto
    have d2: "d2 = d1\<lparr>workflow_runs := workflow_runs d1 @ [w]\<rparr>" "get_workflow d1 s = None"
      using insert_workflow_cases(1,2) [OF 1(7)] 1(8) by auto
    have e: "e = d2\<lparr>jobs := jobs d2 @ [job]\<rparr>" by (rule insert_job_eq [OF 1(14)])
    have "\<forall>j \<in> set (jobs d). j_workflow_id j \<noteq> s"
      using assms(3) d2(2) old by (auto simp: jobs_have_workflows_def has_workflow_get)
    then have "find (\<lambda>j. j_workflow_id j = s) (jobs d) = None" by (simp add: find_None_iff)
    then have "find (\<lambda>j. j_workflow_id j = s) (jobs e) = Some job"
      using e d2(1) d1 1(16) by (simp add: find_append)
    then show ?thesis using 1(1,15) e d2(1) d1 by (simp add: existing_successor_def)
  qed
  then show "existing_successor p e = ids" "events e = events d" "ids \<noteq> []" by simp_all
qed

text \<open>
  C7: a winner is multiplied once. After a \<open>MULTIPLY\<close> decision has been dispatched, dispatching
  the same decision again returns the same successor job and leaves the database exactly as it
  was: no second workflow, job or event.
\<close>

theorem decision_dispatch_idempotent:
  assumes "event_keys_unique d" and "jobs_have_workflows d" and "pd_decision p = MULTIPLY"
    and "by_dedupe_key (winner_key p pj) d = Inr None"
    and "dispatch_decision digest f f' wall p pj t d = Inr (ids, e)"
  shows "dispatch_decision digest' g g' wall' p pj t' e = Inr (ids, e) \<and> ids \<noteq> []"
  using assms(5)
proof (cases rule: dispatch_decision_cases)
  case (repeated x)
  with assms(4) show ?thesis by simp
next
  case (first d1 n ev d2 n')
  note m = multiply_new_job [OF first(1) assms(3,2)]
  have u1: "event_keys_unique d1" using event_keys_unique_events [OF m(2)] assms(1) by simp
  note r = log.record_once_result [OF u1 first(3)]
  obtain x where x: "by_dedupe_key (winner_key p pj) d2 = Inr (Some x)" using r(2) first(2) by auto
  have jobs2: "jobs d2 = jobs d1" using first(3) by (cases rule: record_event_cases) auto
  note k = emit_successor_created_keeps [OF first(4) r(1)]
  have "jobs e = jobs d1" using jobs2 k(2) by simp
  then have "existing_successor p e = ids"
    using m(1) unfolding existing_successor_def by (simp only:)
  with k(3) [OF x] assms(3) m(3) show ?thesis by (simp add: dispatch_decision_def)
qed

theorem decision_dispatch_idempotent_witness:
  "\<exists>ids e. dispatch_decision (\<lambda>_. 50) 60 61 5 example_decision 2 5 example_winner_db = Inr (ids, e) \<and>
     dispatch_decision (\<lambda>_. 50) 62 63 9 example_decision 2 9 e = Inr (ids, e)"
proof -
  have h: "event_keys_unique example_winner_db" "jobs_have_workflows example_winner_db"
    "pd_decision example_decision = MULTIPLY"
    "by_dedupe_key (winner_key example_decision 2) example_winner_db = Inr None"
    by (simp_all add: event_keys_unique_def jobs_have_workflows_def has_workflow_def by_dedupe_key_def
        one_or_none_def example_winner_db_def example_defs example_decision_def)
  have "\<exists>ids e. dispatch_decision (\<lambda>_. 50) 60 61 5 example_decision 2 5 example_winner_db = Inr (ids, e)"
    by (simp add: dispatch_decision_def winner_key_def successor_key_def emit_successor_created_def
        create_multiply_successor_def example_decision_def example_winner_db_def example_defs
        get_workflow_def flush_workflow_def check_workflow_def fits_def require_product_transition_def
        require_successor_spawn_def SUCCESSOR_SPAWN_SOURCE_STATE_def SUCCESSOR_WORKFLOW_ENTRY_STATE_def
        put_workflow_def create_successor_workflow_def insert_workflow_def has_workflow_def
        create_successor_entry_job_def insert_job_def new_job_def check_job_def fits_opt_def
        agent_id_format_def has_job_def derive_job_id_def by_dedupe_key_def one_or_none_def
        record_once_def append_event_def insert_event_def check_event_def make_event_def
        dedupe_key_def str_opt_uuid_def)
  then obtain ids e where
    r: "dispatch_decision (\<lambda>_. 50) 60 61 5 example_decision 2 5 example_winner_db = Inr (ids, e)" by blast
  with decision_dispatch_idempotent [OF h r, of "\<lambda>_. 50" 62 63 9 9] show ?thesis by blast
qed

end
