(* ===== verification/Engine.thy ===== *)
theory Engine
  imports Scheduler Reconciliation Dispatcher
begin

section \<open>The engine\<close>

text \<open>
  \<^verbatim>\<open>orchestration/engine.py\<close>: starting a workflow with its entry jobs, the operator's retry,
  cancellation, manual reconciliation of an uncertain effect, and the single scheduler and worker
  steps. The loaded configuration, the digest and fresh ids are arguments as in the factory.
\<close>

definition infer_object_type_for_entry_job :: "string \<Rightarrow> string" where
  "infer_object_type_for_entry_job job_type =
     (if contains_str ''Provisioning'' job_type \<or> contains_str ''Environment'' job_type then ''shops''
      else if contains_str ''Schedule'' job_type \<or> contains_str ''Configuration'' job_type
        then ''workflow_runs''
      else ''workflow_runs'')"

definition entry_job ::
    "digest \<Rightarrow> uuid \<Rightarrow> string \<Rightarrow> time \<Rightarrow> string \<Rightarrow> workflow_job_definition \<Rightarrow> db \<Rightarrow> job" where
  "entry_job digest workflow_id workflow_type now job_type job_spec d =
     new_job (digest (str_uuid workflow_id @ '':'' @ job_type @ '':entry'')) workflow_id job_type
       (infer_object_type_for_entry_job job_type) workflow_id (wj_owner_agent_id job_spec)
       (JObj [(''entry'', JBool True), (''workflow_type'', JStr workflow_type)])
       (output_default (wj_output_contracts job_spec)) now
       (''ENTRY:'' @ job_type @ '':'' @ str_uuid workflow_id) (wj_side_effect_class job_spec)
       (wj_retry_class job_spec) (autonomy_default (wj_allowed_modes job_spec)) d"

definition spawn_entry_jobs ::
    "digest \<Rightarrow> workflows_config \<Rightarrow> uuid \<Rightarrow> string \<Rightarrow> string list \<Rightarrow> time \<Rightarrow> db \<Rightarrow> error + (uuid list \<times> db)" where
  "spawn_entry_jobs digest cfg workflow_id workflow_type entry_job_types now d =
     bindE (requireE (find (\<lambda>w. wd_workflow_type w = workflow_type) (wc_workflows cfg))
        (ValueError ''Workflow type not found'')) (\<lambda>workflow_def.
     let job_specs = map_of (rev (map (\<lambda>j. (wj_job_type j, j)) (wd_jobs workflow_def))) in
     bindE (foldE (\<lambda>job_type e.
         bindE (requireE (job_specs job_type) (ValueError ''Entry job type not found'')) (\<lambda>job_spec.
         insert_job (entry_job digest workflow_id workflow_type now job_type job_spec d) e))
       entry_job_types d) (\<lambda>e.
     Inr (map (\<lambda>jt. digest (str_uuid workflow_id @ '':'' @ jt @ '':entry'')) entry_job_types, e)))"

definition start_workflow ::
    "digest \<Rightarrow> workflows_config \<Rightarrow> uuid \<Rightarrow> string \<Rightarrow> product_state \<Rightarrow> uuid \<Rightarrow> time \<Rightarrow> db \<Rightarrow>
     error + (workflow_run \<times> db)" where
  "start_workflow digest cfg fresh workflow_type product_state shop_id now d =
     bindE (requireE (find (\<lambda>w. wd_workflow_type w = workflow_type) (wc_workflows cfg))
        (ValueError ''Workflow type not found in configuration'')) (\<lambda>workflow_def.
     bindE (guardE (wd_entry_job_types workflow_def \<noteq> [])
        (ValueError ''Workflow has no entry_job_types defined'')) (\<lambda>_.
     let workflow = \<lparr>w_id = fresh, w_version = 1, w_shop_id = shop_id, w_workflow_type = workflow_type,
         w_workflow_version = 1, w_product_state = product_state, w_parent_workflow_id = None,
         w_parent_decision_id = None, w_batch_id = None, w_started_at = now, w_completed_at = None\<rparr>
     in bindE (insert_workflow workflow d) (\<lambda>e.
        bindE (spawn_entry_jobs digest cfg fresh workflow_type (wd_entry_job_types workflow_def) now e)
          (\<lambda>(_, f). Inr (workflow, f)))))"

subsection \<open>Retry\<close>

definition latest_effect_of_job :: "uuid \<Rightarrow> db \<Rightarrow> effect_attempt option" where
  "latest_effect_of_job job_id d =
     (case take 1 (sort_key (\<lambda>a. - ea_reconciliation_attempt a)
         (filter (\<lambda>a. ea_job_id a = job_id) (effect_attempts d))) of
        [] \<Rightarrow> None
      | a # _ \<Rightarrow> Some a)"

definition effect_resolved :: "effect_attempt option \<Rightarrow> bool" where
  "effect_resolved effect =
     (case effect of None \<Rightarrow> False | Some a \<Rightarrow> ea_effect_state a \<in> {X_CONFIRMED, X_ABSENT})"

definition retry_failed_job :: "uuid \<Rightarrow> time \<Rightarrow> db \<Rightarrow> error + (job option \<times> db)" where
  "retry_failed_job job_id now d =
     bindE (requireE (get_job d job_id) JobNotFoundError) (\<lambda>job.
     bindE (guardE (j_status job = J_FAILED) (InvalidRetryError ''not FAILED'')) (\<lambda>_.
     let reconciliation_resolved = (j_retry_class job = RECONCILE_FIRST \<and>
           effect_resolved (latest_effect_of_job job_id d))
     in bindE (evaluate_retry_default (j_retry_class job) (j_attempt job) (j_max_attempts job) now
          reconciliation_resolved) (\<lambda>decision.
        bindE (guardE (can_retry decision) (InvalidRetryError ''Cannot retry'')) (\<lambda>_.
        bindE (require_job_transition J_FAILED J_READY) (\<lambda>_.
        bindE (requireE (retry_scheduled_at decision) IntegrityError) (\<lambda>scheduled_at.
        bindE (flush_job (job\<lparr>j_status := J_READY, j_scheduled_at := scheduled_at,
            j_updated_at := now\<rparr>) d) (\<lambda>e.
        Inr (get_job e job_id, e))))))))"

subsection \<open>Cancellation\<close>

definition cancellable :: "uuid \<Rightarrow> job \<Rightarrow> bool" where
  "cancellable workflow_id j \<longleftrightarrow> j_workflow_id j = workflow_id \<and> j_status j \<in> {J_PENDING, J_READY}"

definition cancel_workflow :: "uuid \<Rightarrow> time \<Rightarrow> db \<Rightarrow> error + ((workflow_run option \<times> nat) \<times> db)" where
  "cancel_workflow workflow_id now d =
     bindE (requireE (get_workflow d workflow_id) WorkflowNotFoundError) (\<lambda>workflow.
     bindE (flush_workflow (workflow\<lparr>w_completed_at := Some now\<rparr>) d) (\<lambda>d1.
     let cancelled = filter (cancellable workflow_id) (jobs d1) in
     bindE (foldE (\<lambda>job e.
         bindE (require_job_transition (j_status job) J_CANCELLED) (\<lambda>_.
         flush_job (job\<lparr>j_status := J_CANCELLED, j_updated_at := now\<rparr>) e)) cancelled d1) (\<lambda>e.
     Inr ((get_workflow e workflow_id, length cancelled), e))))"

subsection \<open>Manual reconciliation\<close>

definition flush_effect_attempt :: "effect_attempt \<Rightarrow> db \<Rightarrow> error + db" where
  "flush_effect_attempt a d = bindE (check_effect_attempt a) (\<lambda>_.
     Inr (d\<lparr>effect_attempts := map (\<lambda>x. if ea_id x = ea_id a then a else x) (effect_attempts d)\<rparr>))"

text \<open>An \<open>effect_state\<close> outside the taxonomy is refused like \<open>UNKNOWN\<close>: it is neither of the two.\<close>

definition engine_reconcile_uncertain_effect ::
    "uuid \<Rightarrow> effect_state \<Rightarrow> string option \<Rightarrow> time \<Rightarrow> db \<Rightarrow> error + (effect_attempt \<times> db)" where
  "engine_reconcile_uncertain_effect job_id effect_state provider_object_id now d =
     bindE (guardE (effect_state \<in> {X_CONFIRMED, X_ABSENT}) EngineError) (\<lambda>_.
     bindE (requireE (get_job d job_id) JobNotFoundError) (\<lambda>job.
     bindE (guardE (j_status job = J_UNCERTAIN_EXTERNAL_EFFECT) EngineError) (\<lambda>_.
     bindE (requireE (latest_effect_of_job job_id d) EngineError) (\<lambda>effect.
     let effect = effect\<lparr>ea_effect_state := effect_state, ea_provider_object_id := provider_object_id,
           ea_observed_at := now\<rparr>;
         target_status = (if effect_state = X_CONFIRMED then J_SUCCEEDED else J_FAILED)
     in bindE (require_job_transition (j_status job) target_status) (\<lambda>_.
        bindE (flush_effect_attempt effect d) (\<lambda>d1.
        bindE (flush_job (job\<lparr>j_status := target_status, j_updated_at := now\<rparr>) d1) (\<lambda>e.
        Inr (effect, e))))))))"

subsection \<open>Single steps\<close>

definition run_scheduler_once ::
    "(uuid \<Rightarrow> bool) \<Rightarrow> (uuid \<Rightarrow> uuid) \<Rightarrow> time \<Rightarrow> db \<Rightarrow> error + (cycle_counts \<times> db)" where
  "run_scheduler_once locked event_id now d = run_scheduler_cycle locked event_id now 50 50 50 d"

definition run_worker_once ::
    "(uuid \<Rightarrow> bool) \<Rightarrow> string \<Rightarrow> time \<Rightarrow> db \<Rightarrow> error + (job option \<times> db)" where
  "run_worker_once locked worker_id now d = claim_ready_job locked worker_id now 300000000 1 d"

subsection \<open>Each operation keeps the job contract\<close>

lemma spawn_evolves:
  assumes "spawn_entry_jobs digest cfg w wt types now d = Inr (ids, e)"
  shows "db_evolves d e"
proof -
  obtain specs where f: "foldE (\<lambda>job_type e.
         bindE (requireE (specs job_type) (ValueError ''Entry job type not found'')) (\<lambda>job_spec.
         insert_job (entry_job digest w wt now job_type job_spec d) e)) types d = Inr e"
    using assms by (auto simp: spawn_entry_jobs_def Let_def bindE_eq_Inr)
  show ?thesis
    by (rule foldE_induct [OF f, where R = db_evolves])
      (auto simp: bindE_eq_Inr entry_job_def intro: db_evolves_trans insert_new_job_evolves)
qed

lemma start_workflow_cases:
  assumes "start_workflow digest cfg fresh wt ps shop now d = Inr (w, e)"
  obtains wd d1 ids where "find (\<lambda>x. wd_workflow_type x = wt) (wc_workflows cfg) = Some wd"
    "wd_entry_job_types wd \<noteq> []" "w_id w = fresh" "w_product_state w = ps" "w_completed_at w = None"
    "insert_workflow w d = Inr d1"
    "spawn_entry_jobs digest cfg fresh wt (wd_entry_job_types wd) now d1 = Inr (ids, e)"
  using assms by (auto simp: start_workflow_def Let_def bindE_eq_Inr)

interpretation start_op: job_operation "start_workflow digest cfg fresh wt ps shop now"
  for digest cfg fresh wt ps shop now
proof unfold_locales
  fix d w e
  assume "start_workflow digest cfg fresh wt ps shop now d = Inr (w, e)"
  then show "db_evolves d e"
  proof (cases rule: start_workflow_cases)
    case (1 wd d1 ids)
    have "db_evolves d d1"
      using insert_workflow_cases(1) [OF 1(6)] by (simp add: db_evolves_same_jobs)
    then show ?thesis using spawn_evolves [OF 1(7)] by (rule db_evolves_trans)
  qed
qed

lemma retry_cases:
  assumes "retry_failed_job i now d = Inr (res, e)"
  obtains j dec t k where "get_job d i = Some j" "j_status j = J_FAILED"
    "evaluate_retry_default (j_retry_class j) (j_attempt j) (j_max_attempts j) now
       (j_retry_class j = RECONCILE_FIRST \<and> effect_resolved (latest_effect_of_job i d)) = Inr dec"
    "can_retry dec" "retry_scheduled_at dec = Some t"
    "k = j\<lparr>j_status := J_READY, j_scheduled_at := t, j_updated_at := now\<rparr>"
    "flush_job k d = Inr e" "res = get_job e i"
  using assms by (auto simp: retry_failed_job_def Let_def bindE_eq_Inr)

lemma retry_evolves:
  assumes "jobs_ok d" and "retry_failed_job i now d = Inr (res, e)"
  shows "db_evolves d e"
  using assms(2)
proof (cases rule: retry_cases)
  case (1 j dec t k)
  have id: "j_id j = i" using job_store.get_member [OF 1(1)] by simp
  have "j_attempt j + 1 < j_max_attempts j" using evaluate_retry_can_retry [OF 1(3,4)] by simp
  with 1 id show ?thesis
    by (intro flush_job_step [OF 1(7) assms(1), of j])
      (auto simp: job_frame_def job_inv_def lease_fields_clear_def lease_fields_set_def lease_abandoned_def live_status_def
        intro!: status_path_step)
qed

interpretation retry_op: job_operation "retry_failed_job i now" for i now
  by unfold_locales (rule retry_evolves)

lemma cancel_fold_eq:
  assumes "\<And>x. x \<in> set xs \<Longrightarrow> cancellable w x"
  shows "foldE (\<lambda>job e. bindE (require_job_transition (j_status job) J_CANCELLED) (\<lambda>_.
      flush_job (job\<lparr>j_status := J_CANCELLED, j_updated_at := now\<rparr>) e)) xs d =
    foldE (\<lambda>job. flush_job (job\<lparr>j_status := J_CANCELLED, j_updated_at := now\<rparr>)) xs d"
  using assms
proof (induction xs arbitrary: d)
  case Nil
  then show ?case by simp
next
  case (Cons x xs)
  have step: "require_job_transition (j_status x) J_CANCELLED = Inr ()"
    using Cons.prems [of x] by (auto simp: cancellable_def require_job_transition_def)
  have rest: "foldE (\<lambda>job e. bindE (require_job_transition (j_status job) J_CANCELLED) (\<lambda>_.
      flush_job (job\<lparr>j_status := J_CANCELLED, j_updated_at := now\<rparr>) e)) xs =
    foldE (\<lambda>job. flush_job (job\<lparr>j_status := J_CANCELLED, j_updated_at := now\<rparr>)) xs"
    using Cons by (intro ext) simp
  show ?case unfolding foldE.simps step bindE_simps rest by (rule refl)
qed

lemma flush_workflow_jobs: "flush_workflow w d = Inr e \<Longrightarrow> \<exists>ws. e = d\<lparr>workflow_runs := ws\<rparr>"
proof -
  assume "flush_workflow w d = Inr e"
  then consider "e = d" | w' where "e = put_workflow w' d"
    by (auto simp: flush_workflow_def bindE_eq_Inr split: if_splits)
  then show ?thesis
  proof cases
    case 1
    then have "e = d\<lparr>workflow_runs := workflow_runs d\<rparr>" by simp
    then show ?thesis by blast
  qed (auto simp: put_workflow_def)
qed

lemma cancel_cases:
  assumes "cancel_workflow w now d = Inr ((res, n), e)"
  obtains wf d1 where "get_workflow d w = Some wf"
    "flush_workflow (wf\<lparr>w_completed_at := Some now\<rparr>) d = Inr d1" "jobs d1 = jobs d"
    "foldE (\<lambda>job. flush_job (job\<lparr>j_status := J_CANCELLED, j_updated_at := now\<rparr>))
       (filter (cancellable w) (jobs d)) d1 = Inr e"
    "res = get_workflow e w" "n = length (filter (cancellable w) (jobs d))"
proof -
  from assms obtain wf d1 where c: "get_workflow d w = Some wf"
    "flush_workflow (wf\<lparr>w_completed_at := Some now\<rparr>) d = Inr d1"
    "foldE (\<lambda>job e. bindE (require_job_transition (j_status job) J_CANCELLED) (\<lambda>_.
         flush_job (job\<lparr>j_status := J_CANCELLED, j_updated_at := now\<rparr>) e))
       (filter (cancellable w) (jobs d1)) d1 = Inr e"
    "res = get_workflow e w" "n = length (filter (cancellable w) (jobs d1))"
    by (auto simp: cancel_workflow_def Let_def bindE_eq_Inr)
  have "jobs d1 = jobs d" using flush_workflow_jobs [OF c(2)] by auto
  moreover have "foldE (\<lambda>job. flush_job (job\<lparr>j_status := J_CANCELLED, j_updated_at := now\<rparr>))
       (filter (cancellable w) (jobs d1)) d1 = Inr e"
    using c(3) cancel_fold_eq [of "filter (cancellable w) (jobs d1)" w now d1] by simp
  ultimately show ?thesis using c that by simp
qed

lemma cancel_evolves:
  assumes "jobs_ok d" and "cancel_workflow w now d = Inr (r, e)"
  shows "db_evolves d e"
proof -
  obtain res n where "cancel_workflow w now d = Inr ((res, n), e)" using assms(2) by (cases r) auto
  then show ?thesis
  proof (cases rule: cancel_cases)
    case (1 wf d1)
    have ev: "db_evolves d d1" by (rule db_evolves_same_jobs [OF 1(3)])
    have "db_evolves d1 e"
    proof (rule flush_rows_evolve [OF 1(4) db_evolves_ok [OF ev assms(1)]])
      show "distinct (map j_id (filter (cancellable w) (jobs d)))"
        using jobs_ok_distinct [OF assms(1)] by (simp add: distinct_map_filter)
      show "set (filter (cancellable w) (jobs d)) \<subseteq> set (jobs d1)" using 1(3) by auto
      show "job_evolves x (x\<lparr>j_status := J_CANCELLED, j_updated_at := now\<rparr>)"
        if "x \<in> set (filter (cancellable w) (jobs d))" for x
        using that by (auto simp: cancellable_def job_evolves_def job_frame_def job_inv_def lease_fields_clear_def
            lease_fields_set_def lease_abandoned_def live_status_def intro!: status_path_step)
    qed
    with ev show ?thesis by (rule db_evolves_trans)
  qed
qed

interpretation cancel_op: job_operation "cancel_workflow w now" for w now
  by unfold_locales (rule cancel_evolves)

lemma engine_reconcile_cases:
  assumes "engine_reconcile_uncertain_effect i s obj now d = Inr (a, e)"
  obtains j x d1 where "get_job d i = Some j" "j_status j = J_UNCERTAIN_EXTERNAL_EFFECT"
    "s \<in> {X_CONFIRMED, X_ABSENT}" "latest_effect_of_job i d = Some x"
    "a = x\<lparr>ea_effect_state := s, ea_provider_object_id := obj, ea_observed_at := now\<rparr>"
    "flush_effect_attempt a d = Inr d1"
    "flush_job (j\<lparr>j_status := (if s = X_CONFIRMED then J_SUCCEEDED else J_FAILED), j_updated_at := now\<rparr>) d1 =
       Inr e"
  using assms by (auto simp: engine_reconcile_uncertain_effect_def Let_def bindE_eq_Inr)

lemma flush_effect_attempt_jobs: "flush_effect_attempt a d = Inr e \<Longrightarrow> jobs e = jobs d"
  by (auto simp: flush_effect_attempt_def bindE_eq_Inr)

lemma engine_reconcile_evolves:
  assumes "jobs_ok d" and "engine_reconcile_uncertain_effect i s obj now d = Inr (a, e)"
  shows "db_evolves d e"
  using assms(2)
proof (cases rule: engine_reconcile_cases)
  case (1 j x d1)
  have ev: "db_evolves d d1" by (rule db_evolves_same_jobs [OF flush_effect_attempt_jobs [OF 1(6)]])
  have get: "get_job d1 i = Some j" using 1(1) flush_effect_attempt_jobs [OF 1(6)] by (simp add: get_job_def)
  have "j_id j = i" using job_store.get_member [OF 1(1)] by simp
  with 1 get have "db_evolves d1 e"
    by (intro flush_job_step [OF 1(7) db_evolves_ok [OF ev assms(1)], of j])
      (auto simp: job_frame_def job_inv_def lease_fields_clear_def lease_fields_set_def lease_abandoned_def live_status_def
        intro!: status_path_step)
  with ev show ?thesis by (rule db_evolves_trans)
qed

interpretation engine_reconcile_op: job_operation "engine_reconcile_uncertain_effect i s obj now"
  for i s obj now
  by unfold_locales (rule engine_reconcile_evolves)

subsection \<open>Properties\<close>

lemma spawn_jobs:
  assumes "spawn_entry_jobs digest cfg w wt types now d = Inr (ids, e)"
  shows "\<exists>ns. e = d\<lparr>jobs := jobs d @ ns\<rparr> \<and> map j_job_type ns = types \<and> map j_id ns = ids \<and>
     (\<forall>j \<in> set ns. j_workflow_id j = w \<and> j_status j = J_PENDING \<and> j_scheduled_at j = now)"
proof -
  let ?id = "\<lambda>jt. digest (str_uuid w @ '':'' @ jt @ '':entry'')"
  obtain specs where f: "foldE (\<lambda>job_type e.
         bindE (requireE (specs job_type) (ValueError ''Entry job type not found'')) (\<lambda>job_spec.
         insert_job (entry_job digest w wt now job_type job_spec d) e)) types d = Inr e"
    and ids: "ids = map ?id types"
    using assms by (auto simp: spawn_entry_jobs_def Let_def bindE_eq_Inr)
  have "\<exists>ns. e = x\<lparr>jobs := jobs x @ ns\<rparr> \<and> map j_job_type ns = types \<and> map j_id ns = map ?id types \<and>
     (\<forall>j \<in> set ns. j_workflow_id j = w \<and> j_status j = J_PENDING \<and> j_scheduled_at j = now)"
    if "foldE (\<lambda>job_type e.
         bindE (requireE (specs job_type) (ValueError ''Entry job type not found'')) (\<lambda>job_spec.
         insert_job (entry_job digest w wt now job_type job_spec d) e)) types x = Inr e" for types x
    using that
  proof (induction types arbitrary: x)
    case Nil
    then have "e = x\<lparr>jobs := jobs x @ []\<rparr>" by simp
    then show ?case by fastforce
  next
    case (Cons jt types)
    from Cons.prems obtain spec y where i: "insert_job (entry_job digest w wt now jt spec d) x = Inr y"
      and r: "foldE (\<lambda>job_type e.
         bindE (requireE (specs job_type) (ValueError ''Entry job type not found'')) (\<lambda>job_spec.
         insert_job (entry_job digest w wt now job_type job_spec d) e)) types y = Inr e"
      by (auto simp: bindE_eq_Inr)
    from Cons.IH [OF r] obtain ns where ns: "e = y\<lparr>jobs := jobs y @ ns\<rparr>" "map j_job_type ns = types"
      "map j_id ns = map ?id types"
      "\<forall>j \<in> set ns. j_workflow_id j = w \<and> j_status j = J_PENDING \<and> j_scheduled_at j = now" by blast
    let ?j = "entry_job digest w wt now jt spec d"
    have "e = x\<lparr>jobs := jobs x @ (?j # ns)\<rparr>" using ns(1) insert_job_eq [OF i] by simp
    moreover have "j_job_type ?j = jt" "j_id ?j = ?id jt" "j_workflow_id ?j = w"
      "j_status ?j = J_PENDING" "j_scheduled_at ?j = now" by (simp_all add: entry_job_def new_job_def)
    ultimately show ?case using ns by (intro exI [of _ "?j # ns"]) simp
  qed
  with f ids show ?thesis by blast
qed

text \<open>
  Starting a workflow stores one new, active workflow in the requested product state and
  exactly one pending job per configured entry type, due at once and owned by that workflow;
  no other workflow and no existing job changes.
\<close>

theorem start_workflow_spawns_entry_jobs:
  assumes "start_workflow digest cfg fresh wt ps shop now d = Inr (w, e)"
  shows "\<exists>wd ns. find (\<lambda>x. wd_workflow_type x = wt) (wc_workflows cfg) = Some wd \<and>
     get_workflow d fresh = None \<and> get_workflow e fresh = Some w \<and> w_product_state w = ps \<and>
     w_completed_at w = None \<and> (\<forall>i. i \<noteq> fresh \<longrightarrow> get_workflow e i = get_workflow d i) \<and>
     jobs e = jobs d @ ns \<and> ns \<noteq> [] \<and> map j_job_type ns = wd_entry_job_types wd \<and>
     (\<forall>j \<in> set ns. j_workflow_id j = fresh \<and> j_status j = J_PENDING \<and> j_scheduled_at j = now) \<and>
     events e = events d"
  using assms
proof (cases rule: start_workflow_cases)
  case (1 wd d1 ids)
  note i = insert_workflow_cases [OF 1(6)]
  from spawn_jobs [OF 1(7)] obtain ns where ns: "e = d1\<lparr>jobs := jobs d1 @ ns\<rparr>"
    "map j_job_type ns = wd_entry_job_types wd"
    "\<forall>j \<in> set ns. j_workflow_id j = fresh \<and> j_status j = J_PENDING \<and> j_scheduled_at j = now" by blast
  have get: "get_workflow e k = get_workflow d1 k" for k by (simp add: ns(1) get_workflow_def)
  have "ns \<noteq> []" using 1(2) ns(2) by auto
  with 1 i ns get show ?thesis by auto
qed

theorem start_workflow_spawns_entry_jobs_witness:
  "\<exists>w e. start_workflow (\<lambda>_. 50) example_workflows 70 ''product'' DISCOVERED 1 5 (example_db []) =
     Inr (w, e) \<and> get_workflow e 70 = Some w"
proof -
  have "\<exists>w e. start_workflow (\<lambda>_. 50) example_workflows 70 ''product'' DISCOVERED 1 5 (example_db []) = Inr (w, e)"
    by (simp add: start_workflow_def example_workflows_def example_defs insert_workflow_def fits_def
        check_workflow_def has_workflow_def spawn_entry_jobs_def entry_job_def new_job_def insert_job_def
        check_job_def fits_opt_def agent_id_format_def has_job_def infer_object_type_for_entry_job_def
        Let_def)
  then obtain w e where
    r: "start_workflow (\<lambda>_. 50) example_workflows 70 ''product'' DISCOVERED 1 5 (example_db []) = Inr (w, e)"
    by blast
  from start_workflow_spawns_entry_jobs [OF r] r show ?thesis by blast
qed

text \<open>
  The operator's retry. A failed job goes back to \<open>READY\<close> exactly when the policy allows it:
  budget left and a class that may be retried, where a \<open>RECONCILE_FIRST\<close> job needs its latest
  effect attempt to be confirmed or absent. It is then due after the backoff delay, keeps its
  attempt count, and no other job changes. Otherwise nothing changes and the error tells why; an
  exhausted budget surfaces as the policy's \<open>ValueError\<close>.
\<close>

theorem retry_follows_policy:
  assumes "jobs_ok d" and "get_job d i = Some j" and "0 \<le> j_attempt j" and "j_attempt j < 1024"
  shows "let resolved = (j_retry_class j = RECONCILE_FIRST \<and> effect_resolved (latest_effect_of_job i d));
       allowed = (j_status j = J_FAILED \<and> j_attempt j + 1 < j_max_attempts j \<and>
         retryable (j_retry_class j) resolved)
     in case retry_failed_job i now d of
       Inr (res, e) \<Rightarrow> allowed \<and> jobs_ok e \<and>
         (\<exists>k. res = Some k \<and> get_job e i = Some k \<and> j_status k = J_READY \<and> j_attempt k = j_attempt j \<and>
            j_scheduled_at k = now + default_delay (j_attempt j) * 1000000) \<and>
         (\<forall>m. m \<noteq> i \<longrightarrow> get_job e m = get_job d m)
     | Inl err \<Rightarrow> \<not> allowed \<and>
         (if j_status j = J_FAILED \<and> j_max_attempts j \<le> j_attempt j then \<exists>msg. err = ValueError msg
          else \<exists>msg. err = InvalidRetryError msg)"
proof (cases "j_status j = J_FAILED \<and> j_attempt j < j_max_attempts j")
  case False
  have "0 < j_max_attempts j" using jobs_ok_get [OF assms(1,2)] by (auto simp: job_inv_def check_job_def bindE_eq_Inr)
  with False assms(2) show ?thesis
    by (cases "j_status j = J_FAILED") (auto simp: retry_failed_job_def Let_def evaluate_retry_def)
next
  case True
  let ?res = "j_retry_class j = RECONCILE_FIRST \<and> effect_resolved (latest_effect_of_job i d)"
  have id: "j_id j = i" using job_store.get_member [OF assms(2)] by simp
  from policy_outcome [OF assms(3) conjunct2 [OF True] assms(4), of "j_retry_class j" now ?res]
  obtain dec where dec: "evaluate_retry_default (j_retry_class j) (j_attempt j) (j_max_attempts j) now ?res = Inr dec"
    "can_retry dec \<longleftrightarrow> j_attempt j + 1 < j_max_attempts j \<and> retryable (j_retry_class j) ?res"
    "retry_scheduled_at dec = (if can_retry dec then Some (now + default_delay (j_attempt j) * 1000000) else None)"
    by blast
  show ?thesis
  proof (cases "can_retry dec")
    case False
    with True dec assms(2) show ?thesis by (auto simp: retry_failed_job_def Let_def)
  next
    case can: True
    let ?k = "j\<lparr>j_status := J_READY, j_scheduled_at := now + default_delay (j_attempt j) * 1000000,
      j_updated_at := now\<rparr>"
    have "check_job ?k = Inr ()" using jobs_ok_get [OF assms(1,2)] by (simp add: job_inv_def check_job_def)
    then obtain e where e: "flush_job ?k d = Inr e"
      using flush_job_total [of d ?k j] assms(2) id by auto
    have run: "retry_failed_job i now d = Inr (get_job e i, e)"
      using True dec can assms(2) e by (simp add: retry_failed_job_def Let_def require_job_transition_def)
    from flush_job_get [OF e] id show ?thesis
      using run True dec(2) can retry_op.keeps_jobs_ok [OF assms(1) run] by (auto simp: Let_def)
  qed
qed

theorem retry_follows_policy_witness:
  "\<exists>res e. retry_failed_job 2 5 (example_db [example_job 2 ''k'' J_FAILED]) = Inr (res, e) \<and>
     (\<exists>k. res = Some k \<and> j_status k = J_READY \<and> j_scheduled_at k = 5 + default_delay 0 * 1000000)"
proof -
  let ?d = "example_db [example_job 2 ''k'' J_FAILED]" and ?j = "example_job 2 ''k'' J_FAILED"
  have h: "jobs_ok ?d" "get_job ?d 2 = Some ?j" "0 \<le> j_attempt ?j" "j_attempt ?j < 1024"
    by (simp_all add: example_defs example_inv_defs)
  have v: "j_status ?j = J_FAILED" "j_attempt ?j = 0" "j_max_attempts ?j = 3" "j_retry_class ?j = SAFE"
    by (simp_all add: example_defs)
  from retry_follows_policy [OF h, of 5] show ?thesis
    unfolding v by (auto simp: Let_def retryable_def split: sum.splits)
qed

text \<open>
  C15: cancelling a workflow. The workflow is closed at the given instant, exactly its pending and
  ready jobs become \<open>CANCELLED\<close> (that is the reported count), every other job, the running ones
  included, is left as it was, and afterwards the workflow has no job that could be promoted or
  claimed.
\<close>

theorem cancel_stops_workflow:
  assumes "jobs_ok d" and "get_workflow d w = Some old" and "check_workflow old = Inr ()"
  shows "\<exists>r e. cancel_workflow w now d = Inr ((Some r, length (filter (cancellable w) (jobs d))), e) \<and>
     jobs_ok e \<and> get_workflow e w = Some r \<and> w_completed_at r = Some now \<and>
     (\<forall>j \<in> set (jobs d). \<exists>k. get_job e (j_id j) = Some k \<and>
        (if cancellable w j then j_status k = J_CANCELLED else k = j)) \<and>
     (\<forall>j \<in> set (jobs e). \<not> cancellable w j)"
proof -
  let ?c = "filter (cancellable w) (jobs d)" and ?closed = "old\<lparr>w_completed_at := Some now\<rparr>"
  let ?f = "\<lambda>j. j\<lparr>j_status := J_CANCELLED, j_updated_at := now\<rparr>"
  have id: "w_id old = w" using workflow_store.get_member [OF assms(2)] by simp
  have "\<exists>d1. flush_workflow ?closed d = Inr d1" using assms(2,3) id by (simp add: flush_workflow_def check_workflow_def)
  then obtain d1 where d1: "flush_workflow ?closed d = Inr d1" by blast
  then obtain ws where ws: "d1 = d\<lparr>workflow_runs := ws\<rparr>" using flush_workflow_jobs by blast
  have closed: "\<exists>r. get_workflow d1 w = Some r \<and> w_completed_at r = Some now"
  proof (cases "?closed = old")
    case True
    then have "w_completed_at old = Some now" by (metis workflow_run.select_convs(11) workflow_run.surjective workflow_run.update_convs(11))
    with True d1 assms(2) id show ?thesis by (auto simp: flush_workflow_def)
  next
    case False
    with d1 assms(2) id show ?thesis
      by (auto simp: flush_workflow_def bindE_eq_Inr workflow_store.get_put)
  qed
  have "\<exists>e. foldE (\<lambda>j. flush_job (?f j)) ?c d1 = Inr e \<and>
     (\<forall>x \<in> set ?c. \<exists>v. get_job e (j_id x) = Some ((?f x)\<lparr>j_version := v\<rparr>)) \<and>
     (\<forall>i. i \<notin> j_id ` set ?c \<longrightarrow> get_job e i = get_job d1 i)"
  proof (rule foldE_flush_jobs)
    show "distinct (map j_id ?c)" using jobs_ok_distinct [OF assms(1)] by (simp add: distinct_map_filter)
    show "get_job d1 (j_id x) = Some x \<and> j_id (?f x) = j_id x \<and> check_job (?f x) = Inr ()"
      if "x \<in> set ?c" for x
      using that jobs_ok_member_get [OF assms(1)] assms(1) ws
      by (auto simp: get_job_def jobs_ok_def list_all_iff job_inv_def check_job_def)
  qed
  then obtain e where e: "foldE (\<lambda>j. flush_job (?f j)) ?c d1 = Inr e"
    and hit: "\<And>x. x \<in> set ?c \<Longrightarrow> \<exists>v. get_job e (j_id x) = Some ((?f x)\<lparr>j_version := v\<rparr>)"
    and miss: "\<And>i. i \<notin> j_id ` set ?c \<Longrightarrow> get_job e i = get_job d i"
    using ws by (auto simp: get_job_def)
  have wfs: "get_workflow e w = get_workflow d1 w"
  proof -
    have "workflow_runs e = workflow_runs d1"
      by (rule foldE_induct [OF e, of "\<lambda>a b. workflow_runs b = workflow_runs a"])
        (auto dest: flush_job_tables)
    then show ?thesis by (simp add: get_workflow_def)
  qed
  have run: "cancel_workflow w now d = Inr ((get_workflow e w, length ?c), e)"
    using assms(2) d1 ws e cancel_fold_eq [of ?c w now d1]
    by (simp add: cancel_workflow_def Let_def)
  have ok: "jobs_ok e" by (rule cancel_op.keeps_jobs_ok [OF assms(1) run])
  have "\<exists>k. get_job e (j_id j) = Some k \<and> (if cancellable w j then j_status k = J_CANCELLED else k = j)"
    if j: "j \<in> set (jobs d)" for j
  proof (cases "cancellable w j")
    case True
    then show ?thesis using hit [of j] j by auto
  next
    case False
    have "j_id j \<notin> j_id ` set ?c"
    proof
      assume "j_id j \<in> j_id ` set ?c"
      then obtain x where "x \<in> set (jobs d)" "cancellable w x" "j_id x = j_id j" by auto
      then have "x = j" using jobs_ok_member_get [OF assms(1)] j by (metis option.inject)
      with False \<open>cancellable w x\<close> show False by simp
    qed
    then show ?thesis using False miss jobs_ok_member_get [OF assms(1) j] by simp
  qed
  moreover have "\<not> cancellable w j" if j: "j \<in> set (jobs e)" for j
  proof (cases "j_id j \<in> j_id ` set ?c")
    case True
    then obtain x where x: "x \<in> set ?c" "j_id x = j_id j" by auto
    from hit [OF x(1)] x(2) jobs_ok_member_get [OF ok j] have "j_status j = J_CANCELLED" by auto
    then show ?thesis by (simp add: cancellable_def)
  next
    case False
    then have "get_job d (j_id j) = Some j" using miss [OF False] jobs_ok_member_get [OF ok j] by simp
    then have "j \<in> set (jobs d)" using job_store.get_member by blast
    with False show ?thesis by auto
  qed
  ultimately show ?thesis using run ok closed wfs by auto
qed

theorem cancel_stops_workflow_witness:
  "\<exists>r e. cancel_workflow 7 5 (example_db [example_job 2 ''k'' J_READY, example_leased_job 3 ''l'' ''w'']) =
     Inr ((Some r, 1), e) \<and> w_completed_at r = Some 5"
proof -
  let ?d = "example_db [example_job 2 ''k'' J_READY, example_leased_job 3 ''l'' ''w'']"
  have h: "jobs_ok ?d" "get_workflow ?d 7 = Some example_workflow" "check_workflow example_workflow = Inr ()"
    by (simp_all add: example_defs example_inv_defs get_workflow_def check_workflow_def)
  have "length (filter (cancellable 7) (jobs ?d)) = 1" by (simp add: example_defs cancellable_def)
  with cancel_stops_workflow [OF h, of 5] show ?thesis by metis
qed

subsubsection \<open>Manual reconciliation\<close>

lemma sort_key_map:
  assumes "\<And>x. x \<in> set xs \<Longrightarrow> k (f x) = k x"
  shows "sort_key k (map f xs) = map f (sort_key k xs)"
proof -
  have ins: "insort_key k (f x) (map f ys) = map f (insort_key k x ys)"
    if "k (f x) = k x" "\<And>y. y \<in> set ys \<Longrightarrow> k (f y) = k y" for x ys
    using that by (induction ys) auto
  show ?thesis using assms
  proof (induction xs)
    case Nil
    then show ?case by simp
  next
    case (Cons x xs)
    then have "sort_key k (map f xs) = map f (sort_key k xs)" by simp
    with ins [of x "sort_key k xs"] Cons.prems show ?case by simp
  qed
qed

lemma latest_effect_member:
  assumes "latest_effect_of_job i d = Some x"
  shows "x \<in> set (effect_attempts d) \<and> ea_job_id x = i"
proof -
  have "x \<in> set (sort_key (\<lambda>a. - ea_reconciliation_attempt a)
      (filter (\<lambda>a. ea_job_id a = i) (effect_attempts d)))"
  proof (rule in_set_takeD [of x 1])
    show "x \<in> set (take 1 (sort_key (\<lambda>a. - ea_reconciliation_attempt a)
        (filter (\<lambda>a. ea_job_id a = i) (effect_attempts d))))"
      using assms unfolding latest_effect_of_job_def by (auto split: list.splits)
  qed
  then show ?thesis by simp
qed

text \<open>Rewriting the latest attempt, its position columns apart, leaves it the latest.\<close>

lemma latest_effect_flushed:
  assumes "latest_effect_of_job i d = Some x" and "flush_effect_attempt a d = Inr e"
    and "distinct (map ea_id (effect_attempts d))" and "ea_id a = ea_id x"
    and "ea_job_id a = i" and "ea_reconciliation_attempt a = ea_reconciliation_attempt x"
  shows "latest_effect_of_job i e = Some a"
proof -
  let ?f = "\<lambda>y. if ea_id y = ea_id a then a else y"
  let ?sel = "filter (\<lambda>a. ea_job_id a = i)" and ?k = "\<lambda>a. - ea_reconciliation_attempt a"
  note x = latest_effect_member [OF assms(1)]
  have same: "y = x" if "y \<in> set (effect_attempts d)" "ea_id y = ea_id a" for y
    using that x assms(3,4) by (metis distinct_map inj_onD)
  have "?sel (map ?f (effect_attempts d)) = map ?f (?sel (effect_attempts d))"
    using same x assms(5) by (induction "effect_attempts d") (auto simp: filter_map comp_def intro!: arg_cong [of _ _ "map _"] filter_cong)
  moreover have "sort_key ?k (map ?f (?sel (effect_attempts d))) = map ?f (sort_key ?k (?sel (effect_attempts d)))"
    using same assms(6) by (intro sort_key_map) auto
  ultimately show ?thesis
    using assms(1,2,4)
    by (auto simp: latest_effect_of_job_def flush_effect_attempt_def bindE_eq_Inr take_map split: list.splits)
qed

text \<open>
  Manual reconciliation. When an operator settles an uncertain job, the recorded effect is the
  latest attempt of that job, now confirmed with a provider object or absent without one, the job
  ends \<open>SUCCEEDED\<close> or \<open>FAILED\<close> accordingly, and no other job and no other attempt changes.
\<close>

theorem manual_reconciliation_settles:
  assumes "jobs_ok d" and "distinct (map ea_id (effect_attempts d))"
    and "engine_reconcile_uncertain_effect i s obj now d = Inr (a, e)"
  shows "jobs_ok e \<and> latest_effect_of_job i e = Some a \<and> effect_resolved (Some a) \<and>
     (ea_effect_state a = X_CONFIRMED \<longleftrightarrow> ea_provider_object_id a \<noteq> None) \<and>
     (\<exists>k. get_job e i = Some k \<and>
        j_status k = (if ea_effect_state a = X_CONFIRMED then J_SUCCEEDED else J_FAILED)) \<and>
     (\<forall>m. m \<noteq> i \<longrightarrow> get_job e m = get_job d m) \<and>
     filter (\<lambda>x. ea_id x \<noteq> ea_id a) (effect_attempts e) = filter (\<lambda>x. ea_id x \<noteq> ea_id a) (effect_attempts d)"
  using assms(3)
proof (cases rule: engine_reconcile_cases)
  case (1 j x d1)
  let ?k = "j\<lparr>j_status := (if s = X_CONFIRMED then J_SUCCEEDED else J_FAILED), j_updated_at := now\<rparr>"
  have id: "j_id j = i" using job_store.get_member [OF 1(1)] by simp
  have jobs1: "get_job d1 m = get_job d m" for m
    using flush_effect_attempt_jobs [OF 1(6)] by (simp add: get_job_def)
  obtain js where e: "e = d1\<lparr>jobs := js\<rparr>" using flush_job_tables [OF 1(7)] by blast
  have "latest_effect_of_job i d1 = Some a"
    using 1 assms(2) latest_effect_member [OF 1(4)] by (intro latest_effect_flushed [OF 1(4,6)]) auto
  then have latest: "latest_effect_of_job i e = Some a" by (simp add: e latest_effect_of_job_def)
  have evidence: "effect_state_evidence s obj"
    using 1(5,6) by (auto simp: flush_effect_attempt_def check_effect_attempt_def bindE_eq_Inr)
  have others: "filter (\<lambda>x. ea_id x \<noteq> ea_id a) (effect_attempts e) = filter (\<lambda>x. ea_id x \<noteq> ea_id a) (effect_attempts d)"
  proof -
    have "filter (\<lambda>x. ea_id x \<noteq> ea_id a) (map (\<lambda>x. if ea_id x = ea_id a then a else x) xs) =
        filter (\<lambda>x. ea_id x \<noteq> ea_id a) xs" for xs by (induction xs) auto
    then show ?thesis using 1(6) e by (auto simp: flush_effect_attempt_def bindE_eq_Inr)
  qed
  from flush_job_get [OF 1(7)] id obtain v where
    "get_job e i = Some (?k\<lparr>j_version := v\<rparr>)" "\<forall>m. m \<noteq> i \<longrightarrow> get_job e m = get_job d1 m" by auto
  then show ?thesis
    using 1(3,5) latest evidence others jobs1 engine_reconcile_op.keeps_jobs_ok [OF assms(1,3)]
    by (auto simp: effect_resolved_def effect_state_evidence_def)
qed

definition example_attempt :: effect_attempt where
  "example_attempt = \<lparr>ea_id = 4, ea_idempotency_key = ''k'', ea_job_id = 2, ea_agent_run_id = None,
     ea_provider = ''etsy'', ea_operation = ''publish'', ea_effect_state = X_UNKNOWN,
     ea_provider_object_id = None, ea_reconciliation_attempt = 0, ea_observed_at = 0, ea_recorded_at = 0\<rparr>"

theorem manual_reconciliation_settles_witness:
  "\<exists>a e. engine_reconcile_uncertain_effect 2 X_ABSENT None 5
       ((example_db [example_job 2 ''k'' J_UNCERTAIN_EXTERNAL_EFFECT])\<lparr>effect_attempts := [example_attempt]\<rparr>) =
     Inr (a, e) \<and> latest_effect_of_job 2 e = Some a \<and> effect_resolved (Some a)"
proof -
  let ?d = "(example_db [example_job 2 ''k'' J_UNCERTAIN_EXTERNAL_EFFECT])\<lparr>effect_attempts := [example_attempt]\<rparr>"
  have h: "jobs_ok ?d" "distinct (map ea_id (effect_attempts ?d))"
    by (simp_all add: example_defs example_inv_defs)
  have "\<exists>a e. engine_reconcile_uncertain_effect 2 X_ABSENT None 5 ?d = Inr (a, e)"
    by (simp add: engine_reconcile_uncertain_effect_def example_defs get_job_def latest_effect_of_job_def
        example_attempt_def flush_effect_attempt_def check_effect_attempt_def fits_def fits_opt_def
        effect_state_evidence_def flush_job_def check_job_def agent_id_format_def require_job_transition_def
        Let_def)
  then obtain a e where r: "engine_reconcile_uncertain_effect 2 X_ABSENT None 5 ?d = Inr (a, e)" by blast
  from manual_reconciliation_settles [OF h r] r show ?thesis by blast
qed

end
