(* ===== verification/Tools.thy ===== *)
theory Tools
  imports Contracts "HOL-Library.AList"
begin

section \<open>Tools and review subagents\<close>

text \<open>
  \<^verbatim>\<open>agents/tool_registry.py\<close> and \<^verbatim>\<open>agents/review_subagent.py\<close>: the catalogue of tools with
  their side-effect classes, the invocation under an agent's allowlist, the narrower invocation
  of a review subagent, and the bounded coordinator of reviews. A Python dict is an association
  list without repeated keys; the keyword arguments of a tool are such a list. The language model
  behind a review is the argument \<open>provider\<close>.
\<close>

fun side_effect_value :: "side_effect_class \<Rightarrow> string" where
  "side_effect_value NONE = ''NONE''"
| "side_effect_value EXTERNAL_READ = ''EXTERNAL_READ''"
| "side_effect_value EXTERNAL_WRITE = ''EXTERNAL_WRITE''"
| "side_effect_value EXTERNAL_SPEND = ''EXTERNAL_SPEND''"
| "side_effect_value EXTERNAL_MESSAGE = ''EXTERNAL_MESSAGE''"

type_synonym json_object = "(string \<times> json) list"
type_synonym tool_handler = "string \<Rightarrow> string \<Rightarrow> json_object \<Rightarrow> json_object"

definition REVIEW_ALLOWED_NONE_TOOLS :: "string list" where
  "REVIEW_ALLOWED_NONE_TOOLS = [''workflow.inspect'', ''configuration.read'', ''database.read'',
     ''provider.check_openai'', ''provider.check_anthropic'', ''provider.check_notion'',
     ''provider.check_etsy'']"

definition REVIEW_PERMITTED_SIDE_EFFECTS :: "side_effect_class list" where
  "REVIEW_PERMITTED_SIDE_EFFECTS = [NONE, EXTERNAL_READ]"

record tool_definition =
  td_tool_id :: string
  td_side_effect_class :: side_effect_class
  td_description :: string

definition tool :: "string \<Rightarrow> side_effect_class \<Rightarrow> string \<Rightarrow> tool_definition" where
  "tool i c s = \<lparr>td_tool_id = i, td_side_effect_class = c, td_description = s\<rparr>"

definition simulated_handler :: tool_handler where
  "simulated_handler tool_id agent_id kwargs =
     [(''tool_id'', JStr tool_id), (''simulated'', JBool True), (''status'', JStr ''ok'')]"

definition CANONICAL_TOOLS :: "tool_definition list" where
  "CANONICAL_TOOLS =
     [tool ''job.create'' NONE ''Create a typed successor job'',
      tool ''workflow.inspect'' NONE ''Read workflow state and history'',
      tool ''job.retry'' NONE ''Requeue a failed job within retry policy'',
      tool ''configuration.read'' NONE ''Read shop and agent configuration'',
      tool ''database.read'' NONE ''Query durable orchestration state'',
      tool ''database.write_orchestration'' NONE ''Write orchestration-only workflow and job state'',
      tool ''provider.check_openai'' EXTERNAL_READ ''Test OpenAI connection without credential exposure'',
      tool ''provider.check_anthropic'' EXTERNAL_READ ''Test Anthropic connection without credential exposure'',
      tool ''provider.check_notion'' EXTERNAL_READ ''Test Notion connection without credential exposure'',
      tool ''provider.check_etsy'' EXTERNAL_READ ''Test Etsy connection without credential exposure'',
      tool ''provider.provision_workspace'' EXTERNAL_WRITE ''Create provider workspace resources when holder authorized'',
      tool ''database.write_accounts'' NONE ''Persist integration readiness status'',
      tool ''incident.create'' NONE ''Create a structured incident record'',
      tool ''etsy.read_listing'' EXTERNAL_READ ''Read one Etsy listing'',
      tool ''etsy.search_listings'' EXTERNAL_READ ''Search Etsy listings for research'',
      tool ''browser.navigate'' EXTERNAL_READ ''Navigate browser read-only'',
      tool ''storage.write_blob'' NONE ''Persist research capture blob'',
      tool ''etsy.purchase_listing'' EXTERNAL_SPEND ''Purchase competitor listing for teardown'',
      tool ''notion.create_page'' EXTERNAL_WRITE ''Create Notion page'',
      tool ''notion.upload_asset'' EXTERNAL_WRITE ''Upload asset to Notion'',
      tool ''notion.update_page'' EXTERNAL_WRITE ''Update Notion page'',
      tool ''notion.link_publish'' EXTERNAL_WRITE ''Publish Notion variant links'',
      tool ''notion.read_page'' EXTERNAL_READ ''Read Notion page content'',
      tool ''notion.read_links'' EXTERNAL_READ ''Read Notion link targets'',
      tool ''renderer.generate_asset'' NONE ''Generate deterministic local render artifact'',
      tool ''etsy.read_draft'' EXTERNAL_READ ''Read Etsy draft listing'',
      tool ''etsy.publish_listing'' EXTERNAL_WRITE ''Publish Etsy listing'',
      tool ''etsy.update_listing'' EXTERNAL_WRITE ''Update Etsy listing'',
      tool ''etsy.deactivate_listing'' EXTERNAL_WRITE ''Deactivate Etsy listing'',
      tool ''etsy.upload_media'' EXTERNAL_WRITE ''Upload Etsy listing media'',
      tool ''etsy.read_shop_stats'' EXTERNAL_READ ''Read Etsy shop statistics'',
      tool ''etsy.list_transactions'' EXTERNAL_READ ''List Etsy shop transactions'',
      tool ''etsy.read_messages'' EXTERNAL_READ ''Read Etsy messages'',
      tool ''etsy.send_message'' EXTERNAL_MESSAGE ''Send Etsy customer message'']"

record tool_registry =
  tr_definitions :: "(string \<times> tool_definition) list"
  tr_handlers :: "(string \<times> tool_handler) list"

definition register :: "tool_definition \<Rightarrow> tool_handler \<Rightarrow> tool_registry \<Rightarrow> tool_registry" where
  "register definition handler r = r
     \<lparr>tr_definitions := AList.update (td_tool_id definition) definition (tr_definitions r),
      tr_handlers := AList.update (td_tool_id definition) handler (tr_handlers r)\<rparr>"

definition canonical :: tool_registry where
  "canonical = fold (\<lambda>definition. register definition simulated_handler) CANONICAL_TOOLS
     \<lparr>tr_definitions = [], tr_handlers = []\<rparr>"

definition get_tool :: "tool_registry \<Rightarrow> string \<Rightarrow> error + tool_definition" where
  "get_tool r tool_id = requireE (map_of (tr_definitions r) tool_id) ToolNotFoundError"

definition known_tool_ids :: "tool_registry \<Rightarrow> string set" where
  "known_tool_ids r = set (map fst (tr_definitions r))"

definition invoke ::
    "tool_registry \<Rightarrow> string list \<Rightarrow> string \<Rightarrow> string \<Rightarrow> json_object \<Rightarrow> error + json_object" where
  "invoke r allowed_tools agent_id tool_id kwargs =
     bindE (guardE (tool_id \<in> set allowed_tools) ToolPermissionError) (\<lambda>_.
     bindE (get_tool r tool_id) (\<lambda>definition.
     bindE (requireE (map_of (tr_handlers r) tool_id) ToolNotFoundError) (\<lambda>handler.
     Inr (AList.update ''side_effect_class'' (JStr (side_effect_value (td_side_effect_class definition)))
       (handler tool_id agent_id kwargs)))))"

definition invoke_for_review ::
    "tool_registry \<Rightarrow> string list \<Rightarrow> string \<Rightarrow> string \<Rightarrow> json_object \<Rightarrow> error + json_object" where
  "invoke_for_review r allowed_tools agent_id tool_id kwargs =
     bindE (guardE (tool_id \<in> set allowed_tools) ToolPermissionError) (\<lambda>_.
     bindE (get_tool r tool_id) (\<lambda>definition.
     bindE (guardE (td_side_effect_class definition \<in> set REVIEW_PERMITTED_SIDE_EFFECTS)
        ToolPermissionError) (\<lambda>_.
     bindE (guardE (\<not> (td_side_effect_class definition = NONE \<and>
          tool_id \<notin> set REVIEW_ALLOWED_NONE_TOOLS)) ToolPermissionError) (\<lambda>_.
     invoke r allowed_tools agent_id tool_id kwargs))))"

subsection \<open>Review subagents\<close>

definition DEFAULT_MAX_REVIEWS_PER_JOB :: int where
  "DEFAULT_MAX_REVIEWS_PER_JOB = 3"

definition DEFAULT_MAX_TOKENS_PER_REVIEW :: int where
  "DEFAULT_MAX_TOKENS_PER_REVIEW = 4096"

record review_bounds =
  rb_max_reviews_per_job :: int
  rb_max_tokens_per_review :: int

definition bounds_from_definition :: "int \<Rightarrow> review_bounds" where
  "bounds_from_definition timeout_seconds =
     (let per_review_timeout = max 1 (timeout_seconds div DEFAULT_MAX_REVIEWS_PER_JOB);
          token_budget = min DEFAULT_MAX_TOKENS_PER_REVIEW (per_review_timeout * 32)
      in \<lparr>rb_max_reviews_per_job = DEFAULT_MAX_REVIEWS_PER_JOB, rb_max_tokens_per_review = token_budget\<rparr>)"

record review_request =
  rq_specialist_role :: string
  rq_subject_summary :: string
  rq_review_prompt :: string

record 'v llm_response =
  lr_content :: 'v
  lr_model_name :: string
  lr_total_tokens :: "int option"

record 'v review_artifact =
  ra_review_number :: int
  ra_specialist_role :: string
  ra_result :: 'v
  ra_model :: "string option"
  ra_token_count :: "int option"

record 'v review_coordinator =
  co_agent_id :: string
  co_allowed_tools :: "string list"
  co_tool_registry :: tool_registry
  co_bounds :: review_bounds
  co_review_count :: int
  co_artifacts :: "'v review_artifact list"

definition new_coordinator ::
    "string \<Rightarrow> string list \<Rightarrow> tool_registry \<Rightarrow> review_bounds \<Rightarrow> 'v review_coordinator" where
  "new_coordinator agent_id allowed_tools tools bounds = \<lparr>co_agent_id = agent_id,
     co_allowed_tools = allowed_tools, co_tool_registry = tools, co_bounds = bounds,
     co_review_count = 0, co_artifacts = []\<rparr>"

text \<open>
  The prompt the coordinator composes is a function of the request alone, so the provider is a
  function of the request here.
\<close>

definition request_review ::
    "(review_request \<Rightarrow> error + 'v llm_response) \<Rightarrow> review_request \<Rightarrow> 'v review_coordinator \<Rightarrow>
     error + ('v review_artifact \<times> 'v review_coordinator)" where
  "request_review provider request c =
     bindE (guardE (co_review_count c < rb_max_reviews_per_job (co_bounds c))
        ReviewSubagentBudgetError) (\<lambda>_.
     bindE (provider request) (\<lambda>response.
     bindE (guardE (\<not> (case lr_total_tokens response of None \<Rightarrow> False
          | Some token_count \<Rightarrow> rb_max_tokens_per_review (co_bounds c) < token_count))
        ReviewSubagentBudgetError) (\<lambda>_.
     let artifact = \<lparr>ra_review_number = co_review_count c + 1,
           ra_specialist_role = rq_specialist_role request, ra_result = lr_content response,
           ra_model = Some (lr_model_name response), ra_token_count = lr_total_tokens response\<rparr>
     in Inr (artifact, c\<lparr>co_review_count := co_review_count c + 1,
          co_artifacts := co_artifacts c @ [artifact]\<rparr>))))"

definition invoke_review_tool ::
    "'v review_coordinator \<Rightarrow> string \<Rightarrow> json_object \<Rightarrow> error + json_object" where
  "invoke_review_tool c tool_id kwargs =
     (case invoke_for_review (co_tool_registry c) (co_allowed_tools c) (co_agent_id c) tool_id kwargs of
        Inl ToolPermissionError \<Rightarrow> Inl ReviewSubagentMutationError
      | Inl ToolNotFoundError \<Rightarrow> Inl ReviewSubagentMutationError
      | r \<Rightarrow> r)"

subsection \<open>The interface of a registry\<close>

text \<open>
  What an agent relies on: registering a tool makes it found, and changes nothing about the
  others.
\<close>

locale tool_catalogue =
  fixes lookup :: "'r \<Rightarrow> string \<Rightarrow> error + tool_definition"
    and add :: "tool_definition \<Rightarrow> tool_handler \<Rightarrow> 'r \<Rightarrow> 'r"
  assumes lookup_add: "lookup (add t h r) i = (if i = td_tool_id t then Inr t else lookup r i)"
begin

lemma lookup_fold:
  "distinct (map td_tool_id ts) \<Longrightarrow>
   lookup (fold (\<lambda>t. add t h) ts r) i =
     (case find (\<lambda>t. td_tool_id t = i) ts of None \<Rightarrow> lookup r i | Some t \<Rightarrow> Inr t)"
proof (induction ts arbitrary: r)
  case Nil
  then show ?case by simp
next
  case (Cons t ts)
  then have "find (\<lambda>u. td_tool_id u = td_tool_id t) ts = None"
    by (simp add: find_None_key)
  with Cons show ?case by (auto simp: lookup_add split: option.split)
qed

end

interpretation registry: tool_catalogue get_tool register
  by unfold_locales (simp add: get_tool_def register_def update_conv')

lemma canonical_ids_distinct: "distinct (map td_tool_id CANONICAL_TOOLS)"
  by code_simp

lemma get_canonical:
  "get_tool canonical i = requireE (find (\<lambda>t. td_tool_id t = i) CANONICAL_TOOLS) ToolNotFoundError"
  unfolding canonical_def registry.lookup_fold [OF canonical_ids_distinct]
  by (simp add: get_tool_def requireE_def split: option.split)

text \<open>Every registered tool of the canonical registry has the simulating handler.\<close>

lemma register_handlers:
  "map_of (tr_handlers (register t h r)) i = (if i = td_tool_id t then Some h else map_of (tr_handlers r) i)"
  by (simp add: register_def update_conv')

lemma fold_handlers:
  "map_of (tr_handlers (fold (\<lambda>t. register t h) ts r)) i =
     (if i \<in> td_tool_id ` set ts then Some h else map_of (tr_handlers r) i)"
  by (induction ts arbitrary: r) (auto simp: register_handlers)

lemma handler_canonical:
  "map_of (tr_handlers canonical) i =
     (if i \<in> td_tool_id ` set CANONICAL_TOOLS then Some simulated_handler else None)"
  unfolding canonical_def fold_handlers by simp

lemma canonical_found:
  assumes "get_tool canonical i = Inr t"
  shows "t \<in> set CANONICAL_TOOLS" and "td_tool_id t = i" and "map_of (tr_handlers canonical) i = Some simulated_handler"
proof -
  have "find (\<lambda>t. td_tool_id t = i) CANONICAL_TOOLS = Some t"
    using assms by (simp add: get_canonical)
  then show t: "t \<in> set CANONICAL_TOOLS" "td_tool_id t = i" using find_SomeD by fast+
  then show "map_of (tr_handlers canonical) i = Some simulated_handler" by (auto simp: handler_canonical)
qed

lemma invoke_canonical:
  "invoke canonical allowed agent i kwargs =
     (if i \<notin> set allowed then Inl ToolPermissionError
      else bindE (get_tool canonical i) (\<lambda>t. Inr [(''tool_id'', JStr i), (''simulated'', JBool True),
        (''status'', JStr ''ok''), (''side_effect_class'', JStr (side_effect_value (td_side_effect_class t)))]))"
proof (cases "get_tool canonical i")
  case (Inl err)
  then show ?thesis by (simp add: invoke_def)
next
  case (Inr t)
  then show ?thesis using canonical_found [OF Inr] by (simp add: invoke_def simulated_handler_def)
qed

text \<open>
  Agents act only within their allowlist. On the canonical registry a tool call succeeds
  exactly when the tool is on the agent's allowlist and in the catalogue; the result is a
  simulation labelled with the tool's declared side-effect class. A call outside the allowlist is
  refused before the catalogue is consulted, and an unknown tool is reported as such.
\<close>

theorem tools_obey_the_allowlist:
  "invoke canonical allowed agent i kwargs =
     (if i \<notin> set allowed then Inl ToolPermissionError
      else case find (\<lambda>t. td_tool_id t = i) CANONICAL_TOOLS of
        None \<Rightarrow> Inl ToolNotFoundError
      | Some t \<Rightarrow> Inr [(''tool_id'', JStr i), (''simulated'', JBool True), (''status'', JStr ''ok''),
          (''side_effect_class'', JStr (side_effect_value (td_side_effect_class t)))])"
  by (simp add: invoke_canonical get_canonical requireE_def split: option.split)

text \<open>The tools a review may use, read off the catalogue.\<close>

definition review_tools :: "string list" where
  "review_tools = map td_tool_id (filter (\<lambda>t. td_side_effect_class t = EXTERNAL_READ \<or>
     td_side_effect_class t = NONE \<and> td_tool_id t \<in> set REVIEW_ALLOWED_NONE_TOOLS) CANONICAL_TOOLS)"

lemma review_canonical:
  "invoke_for_review canonical allowed agent i kwargs =
     (if i \<notin> set allowed then Inl ToolPermissionError
      else case find (\<lambda>t. td_tool_id t = i) CANONICAL_TOOLS of
        None \<Rightarrow> Inl ToolNotFoundError
      | Some t \<Rightarrow> if i \<in> set review_tools then invoke canonical allowed agent i kwargs
          else Inl ToolPermissionError)"
proof (cases "find (\<lambda>t. td_tool_id t = i) CANONICAL_TOOLS")
  case None
  then show ?thesis by (simp add: invoke_for_review_def get_canonical)
next
  case (Some t)
  then have t: "t \<in> set CANONICAL_TOOLS" "td_tool_id t = i" using find_SomeD by fast+
  have "i \<in> set review_tools \<longleftrightarrow> td_side_effect_class t = EXTERNAL_READ \<or>
      td_side_effect_class t = NONE \<and> i \<in> set REVIEW_ALLOWED_NONE_TOOLS"
    using t canonical_ids_distinct by (auto simp: review_tools_def distinct_map dest: inj_onD)
  then show ?thesis
    using Some by (cases "td_side_effect_class t")
      (auto simp: invoke_for_review_def get_canonical REVIEW_PERMITTED_SIDE_EFFECTS_def guardE_def)
qed

text \<open>
  C19: a review cannot change anything. The only tools a review subagent can run, whatever its
  owner may do, are the catalogue's external reads and the three internal read tools; in
  particular none that creates jobs or incidents, writes to the database or storage, mutates a
  provider, spends or sends. Every other request is the mutation error.
\<close>

theorem reviews_are_read_only:
  assumes "co_tool_registry c = canonical"
  shows "case invoke_review_tool c i kwargs of
       Inr out \<Rightarrow> i \<in> set (co_allowed_tools c) \<and>
         i \<in> {''workflow.inspect'', ''configuration.read'', ''database.read'', ''provider.check_openai'',
           ''provider.check_anthropic'', ''provider.check_notion'', ''provider.check_etsy'',
           ''etsy.read_listing'', ''etsy.search_listings'', ''browser.navigate'', ''notion.read_page'',
           ''notion.read_links'', ''etsy.read_draft'', ''etsy.read_shop_stats'',
           ''etsy.list_transactions'', ''etsy.read_messages''}
     | Inl err \<Rightarrow> err = ReviewSubagentMutationError \<and>
         (i \<in> set (co_allowed_tools c) \<longrightarrow> i \<notin> set review_tools)"
proof -
  have tools: "review_tools = [''workflow.inspect'', ''configuration.read'', ''database.read'',
      ''provider.check_openai'', ''provider.check_anthropic'', ''provider.check_notion'',
      ''provider.check_etsy'', ''etsy.read_listing'', ''etsy.search_listings'', ''browser.navigate'',
      ''notion.read_page'', ''notion.read_links'', ''etsy.read_draft'', ''etsy.read_shop_stats'',
      ''etsy.list_transactions'', ''etsy.read_messages'']" by code_simp
  have mem: "find (\<lambda>t. td_tool_id t = i) CANONICAL_TOOLS = None \<Longrightarrow> i \<notin> set review_tools"
    by (auto simp: find_None_key review_tools_def)
  show ?thesis
  proof (cases "i \<in> set (co_allowed_tools c)")
    case False
    then show ?thesis by (simp add: invoke_review_tool_def assms review_canonical)
  next
    case True
    show ?thesis
    proof (cases "find (\<lambda>t. td_tool_id t = i) CANONICAL_TOOLS")
      case None
      with True mem show ?thesis by (simp add: invoke_review_tool_def assms review_canonical)
    next
      case (Some t)
      show ?thesis
      proof (cases "i \<in> set review_tools")
        case False
        with True Some show ?thesis by (simp add: invoke_review_tool_def assms review_canonical)
      next
        case allowed: True
        have run: "\<exists>out. invoke_review_tool c i kwargs = Inr out"
          using True Some allowed
          by (simp add: invoke_review_tool_def assms review_canonical invoke_canonical get_canonical)
        have "i \<in> {''workflow.inspect'', ''configuration.read'', ''database.read'', ''provider.check_openai'',
           ''provider.check_anthropic'', ''provider.check_notion'', ''provider.check_etsy'',
           ''etsy.read_listing'', ''etsy.search_listings'', ''browser.navigate'', ''notion.read_page'',
           ''notion.read_links'', ''etsy.read_draft'', ''etsy.read_shop_stats'',
           ''etsy.list_transactions'', ''etsy.read_messages''}"
          using allowed unfolding tools by simp
        with run True show ?thesis by auto
      qed
    qed
  qed
qed

theorem reviews_are_read_only_witness:
  "invoke_review_tool (new_coordinator ''A01'' [''job.create'', ''workflow.inspect''] canonical
     (bounds_from_definition 300) :: unit review_coordinator) ''job.create'' [] = Inl ReviewSubagentMutationError"
proof -
  let ?c = "new_coordinator ''A01'' [''job.create'', ''workflow.inspect''] canonical (bounds_from_definition 300)
    :: unit review_coordinator"
  have "co_tool_registry ?c = canonical" by (simp add: new_coordinator_def)
  note p = reviews_are_read_only [OF this, of "''job.create''" "[]"]
  show ?thesis
  proof (cases "invoke_review_tool ?c ''job.create'' []")
    case (Inl err)
    with p show ?thesis by simp
  next
    case (Inr out)
    with p show ?thesis by simp
  qed
qed

subsection \<open>The review budget\<close>

text \<open>A session of reviews: the requests an owner makes, of which the failing ones change nothing.\<close>

fun review_session ::
    "(review_request \<Rightarrow> error + 'v llm_response) \<Rightarrow> review_request list \<Rightarrow> 'v review_coordinator \<Rightarrow>
     'v review_coordinator" where
  "review_session provider [] c = c"
| "review_session provider (q # qs) c =
     (case request_review provider q c of
        Inr (_, c') \<Rightarrow> review_session provider qs c'
      | Inl _ \<Rightarrow> review_session provider qs c)"

definition reviews_ok :: "'v review_coordinator \<Rightarrow> bool" where
  "reviews_ok c \<longleftrightarrow> co_review_count c = int (length (co_artifacts c)) \<and>
     map ra_review_number (co_artifacts c) = map int [1..<length (co_artifacts c) + 1] \<and>
     co_review_count c \<le> max 0 (rb_max_reviews_per_job (co_bounds c)) \<and>
     (\<forall>a \<in> set (co_artifacts c). \<forall>n. ra_token_count a = Some n \<longrightarrow> n \<le> rb_max_tokens_per_review (co_bounds c))"

lemma request_review_ok:
  assumes "request_review provider q c = Inr (a, c')" and "reviews_ok c"
  shows "reviews_ok c' \<and> co_bounds c' = co_bounds c"
  using assms by (auto simp: request_review_def bindE_eq_Inr Let_def reviews_ok_def split: option.splits)

lemma review_session_ok:
  "reviews_ok c \<Longrightarrow> reviews_ok (review_session provider qs c) \<and> co_bounds (review_session provider qs c) = co_bounds c"
proof (induction qs arbitrary: c)
  case Nil
  then show ?case by simp
next
  case (Cons q qs)
  show ?case
  proof (cases "request_review provider q c")
    case (Inl err)
    with Cons show ?thesis by simp
  next
    case (Inr p)
    obtain a c' where p: "p = (a, c')" by (cases p)
    have "reviews_ok c'" "co_bounds c' = co_bounds c" using request_review_ok [OF Inr [unfolded p] Cons.prems] by auto
    with Cons.IH Inr p show ?thesis by simp
  qed
qed

text \<open>
  Reviews stay within their budget. However many reviews an owner requests and whatever the
  model answers, a coordinator made for an agent definition records at most three, numbered
  consecutively from one, each within a token budget of at most 4096.
\<close>

theorem review_budget_is_bounded:
  fixes provider :: "review_request \<Rightarrow> error + 'v llm_response"
  shows "let c = review_session provider qs (new_coordinator agent allowed tools (bounds_from_definition timeout))
     in length (co_artifacts c) \<le> 3 \<and>
       map ra_review_number (co_artifacts c) = map int [1..<length (co_artifacts c) + 1] \<and>
       (\<forall>a \<in> set (co_artifacts c). case ra_token_count a of None \<Rightarrow> True | Some n \<Rightarrow> n \<le> 4096)"
proof -
  let ?start = "new_coordinator agent allowed tools (bounds_from_definition timeout) :: 'v review_coordinator"
  let ?c = "review_session provider qs ?start"
  have b: "rb_max_reviews_per_job (co_bounds ?start) = 3" "rb_max_tokens_per_review (co_bounds ?start) \<le> 4096"
    by (simp_all add: new_coordinator_def bounds_from_definition_def Let_def
        DEFAULT_MAX_REVIEWS_PER_JOB_def DEFAULT_MAX_TOKENS_PER_REVIEW_def)
  have "reviews_ok ?start" by (simp add: reviews_ok_def new_coordinator_def)
  from review_session_ok [OF this, of provider qs] have ok: "reviews_ok ?c" "co_bounds ?c = co_bounds ?start" by auto
  have "length (co_artifacts ?c) \<le> 3" using ok b(1) by (simp add: reviews_ok_def)
  moreover have "\<forall>a \<in> set (co_artifacts ?c). case ra_token_count a of None \<Rightarrow> True | Some n \<Rightarrow> n \<le> 4096"
  proof
    fix a
    assume "a \<in> set (co_artifacts ?c)"
    then have "ra_token_count a = Some n \<Longrightarrow> n \<le> 4096" for n
      using ok b(2) by (force simp: reviews_ok_def)
    then show "case ra_token_count a of None \<Rightarrow> True | Some n \<Rightarrow> n \<le> 4096" by (simp split: option.split)
  qed
  ultimately show ?thesis using ok(1) by (simp add: reviews_ok_def Let_def)
qed

theorem review_budget_is_bounded_witness:
  "length (co_artifacts (review_session
     (\<lambda>_. Inr \<lparr>lr_content = (), lr_model_name = ''m'', lr_total_tokens = Some 10\<rparr>)
     (replicate 5 \<lparr>rq_specialist_role = ''qa'', rq_subject_summary = ''s'', rq_review_prompt = ''p''\<rparr>)
     (new_coordinator ''A01'' [] canonical (bounds_from_definition 300)))) \<le> 3"
  using review_budget_is_bounded [where provider = "\<lambda>_. Inr \<lparr>lr_content = (), lr_model_name = ''m'', lr_total_tokens = Some 10\<rparr>"
      and qs = "replicate 5 \<lparr>rq_specialist_role = ''qa'', rq_subject_summary = ''s'', rq_review_prompt = ''p''\<rparr>"
      and agent = "''A01''" and allowed = "[]" and tools = canonical and timeout = 300]
  unfolding Let_def by blast

end
