(* ===== verification/Config.thy ===== *)
theory Config
  imports Calendar Workflow_Config Contracts
begin

section \<open>Configuration contracts\<close>

text \<open>
  The remaining models of \<^verbatim>\<open>config/settings.py\<close> (product rules, publishing ramp, standing
  authority, the agent roster, telemetry), the domain rules of \<^verbatim>\<open>domain/models/rules.py\<close>, and
  \<^verbatim>\<open>config/validation.py\<close> with the parts of \<^verbatim>\<open>config/loader.py\<close> that decide which authority
  applies. A decimal amount is an exact rational; a file is the document its parser returns, or
  none when it cannot be read or parsed.
\<close>

definition PLAYBOOK_MACHINE_WEEKLY_CAP :: int where
  "PLAYBOOK_MACHINE_WEEKLY_CAP = 15"

definition weekly_cap :: "int \<Rightarrow> bool" where
  "weekly_cap n \<longleftrightarrow> 0 < n \<and> n \<le> PLAYBOOK_MACHINE_WEEKLY_CAP"

definition unique_strings :: "string list \<Rightarrow> bool" where
  "unique_strings xs \<longleftrightarrow> list_all non_empty_str xs \<and> distinct xs"

subsection \<open>Evidence locators\<close>

definition locator_char :: "char \<Rightarrow> bool" where
  "locator_char c \<longleftrightarrow> is_upper c \<or> is_lower c \<or> is_digit c \<or> c \<in> set ''._-''"

text \<open>The two alternatives of the pattern: a URI, or a path under one of three directories.\<close>

definition uri_locator :: "string \<Rightarrow> bool" where
  "uri_locator s \<longleftrightarrow> (let scheme = takeWhile (\<lambda>c. c \<noteq> CHR '':'') s; rest = dropWhile (\<lambda>c. c \<noteq> CHR '':'') s in
     scheme \<noteq> [] \<and> is_lower (hd scheme) \<and>
     list_all (\<lambda>c. is_lower c \<or> is_digit c \<or> c \<in> set ''+.-'') (tl scheme) \<and>
     take 3 rest = ''://'' \<and> drop 3 rest \<noteq> [] \<and> list_all (\<lambda>c. \<not> is_white c) (drop 3 rest))"

definition path_locator :: "string \<Rightarrow> bool" where
  "path_locator s \<longleftrightarrow> (let segments = split_on (CHR ''/'') s in
     hd segments \<in> {''docs'', ''tests'', ''scripts''} \<and> tl segments \<noteq> [] \<and>
     list_all (\<lambda>t. t \<noteq> [] \<and> list_all locator_char t) (tl segments))"

definition reject_path_traversal :: "string \<Rightarrow> error + string" where
  "reject_path_traversal value =
     bindE (guardE (\<not> (\<not> contains_str ''://'' value \<and>
        list_ex (\<lambda>segment. segment \<in> {''.'', ''..''}) (split_on (CHR ''/'') value)))
        (ValueError ''evidence path must not contain dot segments'')) (\<lambda>_. Inr value)"

definition evidence_locator :: "string \<Rightarrow> bool" where
  "evidence_locator s \<longleftrightarrow> (uri_locator s \<or> path_locator s) \<and> reject_path_traversal s = Inr s"

subsection \<open>Product rules\<close>

record inclusive_int_range =
  ir_minimum :: int
  ir_maximum :: int

definition validate_order :: "inclusive_int_range \<Rightarrow> error + inclusive_int_range" where
  "validate_order r =
     bindE (guardE (0 < ir_minimum r \<and> 0 < ir_maximum r) (ValueError ''field'')) (\<lambda>_.
     bindE (guardE (ir_minimum r \<le> ir_maximum r) (ValueError ''minimum cannot exceed maximum''))
       (\<lambda>_. Inr r))"

record qualification_rules =
  qr_build_threshold :: int
  qr_maximum_score :: int

definition validate_threshold :: "qualification_rules \<Rightarrow> error + qualification_rules" where
  "validate_threshold q =
     bindE (guardE (0 < qr_build_threshold q \<and> 0 < qr_maximum_score q) (ValueError ''field'')) (\<lambda>_.
     bindE (guardE (qr_build_threshold q \<le> qr_maximum_score q)
        (ValueError ''build threshold cannot exceed maximum score'')) (\<lambda>_. Inr q))"

record listing_rules =
  lr_rule_version :: string
  lr_tags :: int
  lr_images :: int
  lr_videos :: int
  lr_description_sections :: int
  lr_quantity :: int
  lr_image_role :: string
  lr_video_role :: string

text \<open>\<^verbatim>\<open>casefold\<close> is \<open>lower_str\<close> on ASCII roles.\<close>

definition validate_roles :: "listing_rules \<Rightarrow> error + listing_rules" where
  "validate_roles r =
     bindE (guardE (lr_rule_version r \<noteq> [] \<and> 0 < lr_tags r \<and> 0 < lr_images r \<and> 0 < lr_videos r \<and>
        0 < lr_description_sections r \<and> 0 < lr_quantity r \<and> lr_image_role r \<noteq> [] \<and>
        lr_video_role r \<noteq> []) (ValueError ''field'')) (\<lambda>_.
     bindE (guardE (lower_str (lr_image_role r) \<noteq> lower_str (lr_video_role r))
        (ValueError ''image and video artifact roles must differ'')) (\<lambda>_. Inr r))"

record product_shape_rules =
  ps_rule_version :: string
  ps_hubs_minimum :: int
  ps_hubs_maximum :: int
  ps_colour_variants_minimum :: int
  ps_colour_variants_maximum :: int

definition validate_ranges :: "product_shape_rules \<Rightarrow> error + product_shape_rules" where
  "validate_ranges r =
     bindE (guardE (ps_rule_version r \<noteq> [] \<and> 0 < ps_hubs_minimum r \<and> 0 < ps_hubs_maximum r \<and>
        0 < ps_colour_variants_minimum r \<and> 0 < ps_colour_variants_maximum r) (ValueError ''field'')) (\<lambda>_.
     bindE (guardE (ps_hubs_minimum r \<le> ps_hubs_maximum r)
        (ValueError ''hubs minimum cannot exceed maximum'')) (\<lambda>_.
     bindE (guardE (ps_colour_variants_minimum r \<le> ps_colour_variants_maximum r)
        (ValueError ''colour variants minimum cannot exceed maximum'')) (\<lambda>_. Inr r)))"

record listing_asset_rules =
  la_tags :: int
  la_images :: int
  la_videos :: int
  la_description_sections :: int
  la_quantity :: int
  la_image_role :: string
  la_video_role :: string

definition listing_asset_fields :: "listing_asset_rules \<Rightarrow> bool" where
  "listing_asset_fields a \<longleftrightarrow> 0 < la_tags a \<and> 0 < la_images a \<and> 0 < la_videos a \<and>
     0 < la_description_sections a \<and> 0 < la_quantity a \<and> la_image_role a \<noteq> [] \<and> la_video_role a \<noteq> []"

definition listing_to_domain_rules :: "listing_asset_rules \<Rightarrow> string \<Rightarrow> error + listing_rules" where
  "listing_to_domain_rules a rule_version = validate_roles \<lparr>lr_rule_version = rule_version,
     lr_tags = la_tags a, lr_images = la_images a, lr_videos = la_videos a,
     lr_description_sections = la_description_sections a, lr_quantity = la_quantity a,
     lr_image_role = la_image_role a, lr_video_role = la_video_role a\<rparr>"

record niche_selection_rules =
  ns_primary :: int
  ns_backup :: int

record product_shape_config =
  sh_hubs :: inclusive_int_range
  sh_colour_variants :: inclusive_int_range

record portfolio_rules =
  pf_maturity_live_days :: int
  pf_cull_bottom_percent :: rat
  pf_deep_pass_cadence :: string

record experiment_rules =
  xr_new_fronts_per_batch :: int

record dedupe_rules =
  dr_rule_version :: string
  dr_title_jaccard_threshold :: rat

record product_rules_config =
  pr_version :: int
  pr_research_rows :: inclusive_int_range
  pr_shortlisted_candidates :: int
  pr_qualification :: qualification_rules
  pr_niche_selection :: niche_selection_rules
  pr_product_shape :: product_shape_config
  pr_listing_assets :: listing_asset_rules
  pr_portfolio :: portfolio_rules
  pr_experiments :: experiment_rules
  pr_dedupe :: dedupe_rules

definition shape_to_domain_rules :: "product_shape_config \<Rightarrow> string \<Rightarrow> error + product_shape_rules" where
  "shape_to_domain_rules c rule_version = validate_ranges \<lparr>ps_rule_version = rule_version,
     ps_hubs_minimum = ir_minimum (sh_hubs c), ps_hubs_maximum = ir_maximum (sh_hubs c),
     ps_colour_variants_minimum = ir_minimum (sh_colour_variants c),
     ps_colour_variants_maximum = ir_maximum (sh_colour_variants c)\<rparr>"

definition product_rules_fields :: "product_rules_config \<Rightarrow> bool" where
  "product_rules_fields c \<longleftrightarrow> pr_version c = 1 \<and> 0 < pr_shortlisted_candidates c \<and>
     0 < ns_primary (pr_niche_selection c) \<and> 0 < ns_backup (pr_niche_selection c) \<and>
     listing_asset_fields (pr_listing_assets c) \<and> 0 < pf_maturity_live_days (pr_portfolio c) \<and>
     0 < pf_cull_bottom_percent (pr_portfolio c) \<and> pf_cull_bottom_percent (pr_portfolio c) \<le> 100 \<and>
     pf_deep_pass_cadence (pr_portfolio c) = ''monthly'' \<and>
     0 < xr_new_fronts_per_batch (pr_experiments c) \<and> dr_rule_version (pr_dedupe c) \<noteq> [] \<and>
     0 < dr_title_jaccard_threshold (pr_dedupe c) \<and> dr_title_jaccard_threshold (pr_dedupe c) \<le> 1"

definition validate_selection_counts :: "product_rules_config \<Rightarrow> error + product_rules_config" where
  "validate_selection_counts c =
     bindE (validate_order (pr_research_rows c)) (\<lambda>_.
     bindE (validate_threshold (pr_qualification c)) (\<lambda>_.
     bindE (validate_order (sh_hubs (pr_product_shape c))) (\<lambda>_.
     bindE (validate_order (sh_colour_variants (pr_product_shape c))) (\<lambda>_.
     bindE (guardE (product_rules_fields c) (ValueError ''field'')) (\<lambda>_.
     bindE (guardE (ns_primary (pr_niche_selection c) + ns_backup (pr_niche_selection c) \<le>
          pr_shortlisted_candidates c)
        (ValueError ''primary and backup counts cannot exceed the shortlist'')) (\<lambda>_. Inr c))))))"

definition rule_version :: "product_rules_config \<Rightarrow> string" where
  "rule_version c = ''product-rules-v'' @ str_int (pr_version c)"

definition product_listing_rules :: "product_rules_config \<Rightarrow> error + listing_rules" where
  "product_listing_rules c = listing_to_domain_rules (pr_listing_assets c) (rule_version c)"

definition product_shape_rules_of :: "product_rules_config \<Rightarrow> error + product_shape_rules" where
  "product_shape_rules_of c = shape_to_domain_rules (pr_product_shape c) (rule_version c)"

subsection \<open>Publishing ramp\<close>

record publishing_ramp_config =
  ramp_version :: int
  ramp_publishing_enabled :: bool
  ramp_launch_target :: inclusive_int_range
  ramp_initial_weekly_cap :: int
  ramp_hard_weekly_cap :: int
  ramp_rolling_window_days :: int
  ramp_count_only_reconciled_publications :: bool

definition validate_caps :: "publishing_ramp_config \<Rightarrow> error + publishing_ramp_config" where
  "validate_caps r =
     bindE (validate_order (ramp_launch_target r)) (\<lambda>_.
     bindE (guardE (ramp_version r = 1 \<and> 0 < ramp_initial_weekly_cap r \<and>
        weekly_cap (ramp_hard_weekly_cap r) \<and> 0 < ramp_rolling_window_days r \<and>
        ramp_count_only_reconciled_publications r) (ValueError ''field'')) (\<lambda>_.
     bindE (guardE (ramp_initial_weekly_cap r \<le> ramp_hard_weekly_cap r)
        (ValueError ''initial weekly cap cannot exceed hard weekly cap'')) (\<lambda>_.
     bindE (guardE (ir_minimum (ramp_launch_target r) \<le> ramp_initial_weekly_cap r \<and>
          ramp_initial_weekly_cap r \<le> ir_maximum (ramp_launch_target r))
        (ValueError ''initial weekly cap must be within the launch target'')) (\<lambda>_.
     bindE (guardE (ir_maximum (ramp_launch_target r) \<le> ramp_hard_weekly_cap r)
        (ValueError ''launch target cannot exceed hard weekly cap'')) (\<lambda>_. Inr r)))))"

subsection \<open>Standing authority\<close>

datatype runtime_environment = DEVELOPMENT | TEST | PRODUCTION

record authorized_recipient_scope =
  rsc_scope_id :: string
  rsc_version :: int
  rsc_consent_evidence_reference :: string

definition recipient_scope_fields :: "authorized_recipient_scope \<Rightarrow> bool" where
  "recipient_scope_fields s \<longleftrightarrow> rsc_scope_id s \<noteq> [] \<and> 0 < rsc_version s \<and> rsc_consent_evidence_reference s \<noteq> []"

record autonomy_config =
  au_version :: int
  au_mode :: autonomy_mode
  au_currency :: string
  au_external_mutations_enabled :: bool
  au_external_spend_enabled :: bool
  au_auto_publish :: bool
  au_auto_deactivate :: bool
  au_auto_multiply :: bool
  au_external_message_enabled :: bool
  au_message_monthly_cap :: int
  au_authorized_recipient_scopes :: "authorized_recipient_scope list"
  au_recipient_consent_evidence_required :: bool
  au_competitor_purchase_enabled :: bool
  au_competitor_purchase_max_each :: rat
  au_competitor_purchase_monthly_cap :: rat
  au_live_checkout_test_enabled :: bool
  au_live_checkout_test_cap :: rat
  au_weekly_listing_cap :: int
  au_paid_tool_monthly_cap :: rat

definition autonomy_fields :: "autonomy_config \<Rightarrow> bool" where
  "autonomy_fields a \<longleftrightarrow> au_version a = 1 \<and> currency_is_iso4217 (au_currency a) \<and>
     0 \<le> au_message_monthly_cap a \<and> list_all recipient_scope_fields (au_authorized_recipient_scopes a) \<and>
     au_recipient_consent_evidence_required a \<and> 0 \<le> au_competitor_purchase_max_each a \<and>
     0 \<le> au_competitor_purchase_monthly_cap a \<and> 0 \<le> au_live_checkout_test_cap a \<and>
     weekly_cap (au_weekly_listing_cap a) \<and> 0 \<le> au_paid_tool_monthly_cap a"

definition live_mutations :: "autonomy_config \<Rightarrow> bool" where
  "live_mutations a \<longleftrightarrow> au_mode a = LIVE \<and> au_external_mutations_enabled a"

definition live_spend :: "autonomy_config \<Rightarrow> bool" where
  "live_spend a \<longleftrightarrow> au_mode a = LIVE \<and> au_external_spend_enabled a"

definition message_authority :: "autonomy_config \<Rightarrow> error + unit" where
  "message_authority a =
     (if au_external_message_enabled a then
        bindE (guardE (\<not> au_message_monthly_cap a \<le> 0)
          (ValueError ''message authority requires a positive cap'')) (\<lambda>_.
        guardE (au_authorized_recipient_scopes a \<noteq> [])
          (ValueError ''message authority requires recipient scopes''))
      else guardE (\<not> (au_message_monthly_cap a \<noteq> 0 \<or> au_authorized_recipient_scopes a \<noteq> []))
          (ValueError ''disabled message authority requires zero cap and no scopes''))"

definition purchase_authority :: "autonomy_config \<Rightarrow> error + unit" where
  "purchase_authority a =
     (let purchase_values = [au_competitor_purchase_max_each a, au_competitor_purchase_monthly_cap a] in
      if au_competitor_purchase_enabled a then
        bindE (guardE (live_spend a) (ValueError ''competitor purchase requires live spend authority'')) (\<lambda>_.
        bindE (guardE (\<not> list_ex (\<lambda>v. v \<le> 0) purchase_values)
          (ValueError ''competitor purchase requires positive per-item and monthly caps'')) (\<lambda>_.
        guardE (au_competitor_purchase_max_each a \<le> au_competitor_purchase_monthly_cap a)
          (ValueError ''competitor purchase maximum cannot exceed its monthly cap'')))
      else guardE (\<not> list_ex (\<lambda>v. v \<noteq> 0) purchase_values)
          (ValueError ''disabled competitor purchase requires zero caps''))"

definition checkout_authority :: "autonomy_config \<Rightarrow> error + unit" where
  "checkout_authority a =
     (if au_live_checkout_test_enabled a then
        bindE (guardE (live_spend a) (ValueError ''live checkout test requires live spend authority'')) (\<lambda>_.
        guardE (\<not> au_live_checkout_test_cap a \<le> 0)
          (ValueError ''live checkout test requires a positive cap''))
      else guardE (au_live_checkout_test_cap a = 0)
          (ValueError ''disabled live checkout test requires a zero cap''))"

definition validate_authority :: "autonomy_config \<Rightarrow> error + autonomy_config" where
  "validate_authority a =
     bindE (guardE (autonomy_fields a) (ValueError ''field'')) (\<lambda>_.
     bindE (guardE (\<not> (au_auto_publish a \<and> \<not> live_mutations a))
        (ValueError ''auto_publish requires live external mutations'')) (\<lambda>_.
     bindE (guardE (\<not> (au_auto_deactivate a \<and> \<not> live_mutations a))
        (ValueError ''auto_deactivate requires live external mutations'')) (\<lambda>_.
     bindE (message_authority a) (\<lambda>_.
     bindE (purchase_authority a) (\<lambda>_.
     bindE (checkout_authority a) (\<lambda>_.
     bindE (guardE (\<not> (au_paid_tool_monthly_cap a \<noteq> 0 \<and> \<not> live_spend a))
        (ValueError ''paid-tool spend requires live spend authority'')) (\<lambda>_.
     bindE (guardE (\<not> (au_mode a = SIMULATION \<and> (au_external_mutations_enabled a \<or>
          au_external_spend_enabled a \<or> au_external_message_enabled a \<or> au_auto_publish a \<or>
          au_auto_deactivate a)))
        (ValueError ''simulation forbids external authority'')) (\<lambda>_. Inr a))))))))"

definition apply_environment_safety ::
    "autonomy_config \<Rightarrow> runtime_environment \<Rightarrow> error + autonomy_config" where
  "apply_environment_safety autonomy environment =
     (if environment = PRODUCTION then Inr autonomy
      else validate_authority (autonomy\<lparr>au_mode := SIMULATION, au_external_mutations_enabled := False,
        au_external_spend_enabled := False, au_auto_publish := False, au_auto_deactivate := False,
        au_auto_multiply := False, au_external_message_enabled := False, au_message_monthly_cap := 0,
        au_authorized_recipient_scopes := [], au_competitor_purchase_enabled := False,
        au_competitor_purchase_max_each := 0, au_competitor_purchase_monthly_cap := 0,
        au_live_checkout_test_enabled := False, au_live_checkout_test_cap := 0,
        au_paid_tool_monthly_cap := 0\<rparr>))"

subsection \<open>Agent roster\<close>

record agent_config =
  ac_agent_id :: string
  ac_name :: string
  ac_implementation_version :: int
  ac_contract_version :: int
  ac_system_prompt_reference :: string
  ac_input_contracts :: "string list"
  ac_output_contracts :: "string list"
  ac_allowed_tools :: "string list"
  ac_provider_operations :: "string list"
  ac_allowed_side_effect_classes :: "side_effect_class list"
  ac_default_side_effect_class :: side_effect_class
  ac_allowed_retry_classes :: "retry_class list"
  ac_default_retry_class :: retry_class
  ac_timeout_seconds :: int
  ac_model_policy :: string
  ac_commissioning_state :: commissioning_state
  ac_commissioning_evidence :: "string list"

definition agent_config_fields :: "agent_config \<Rightarrow> bool" where
  "agent_config_fields a \<longleftrightarrow> agent_id_format (ac_agent_id a) \<and> ac_name a \<noteq> [] \<and>
     0 < ac_implementation_version a \<and> 0 < ac_contract_version a \<and> ac_system_prompt_reference a \<noteq> [] \<and>
     unique_strings (ac_input_contracts a) \<and> unique_strings (ac_output_contracts a) \<and>
     unique_strings (ac_allowed_tools a) \<and> unique_strings (ac_provider_operations a) \<and>
     ac_allowed_side_effect_classes a \<noteq> [] \<and> ac_allowed_retry_classes a \<noteq> [] \<and>
     0 < ac_timeout_seconds a \<and> ac_model_policy a \<noteq> [] \<and>
     list_all evidence_locator (ac_commissioning_evidence a) \<and> distinct (ac_commissioning_evidence a)"

definition validate_defaults_and_uniqueness :: "agent_config \<Rightarrow> error + agent_config" where
  "validate_defaults_and_uniqueness a =
     bindE (guardE (agent_config_fields a) (ValueError ''field'')) (\<lambda>_.
     bindE (guardE (distinct (ac_allowed_side_effect_classes a))
        (ValueError ''allowed side-effect classes must be unique'')) (\<lambda>_.
     bindE (guardE (ac_default_side_effect_class a \<in> set (ac_allowed_side_effect_classes a))
        (ValueError ''default side-effect class must be allowed'')) (\<lambda>_.
     bindE (guardE (distinct (ac_allowed_retry_classes a))
        (ValueError ''allowed retry classes must be unique'')) (\<lambda>_.
     bindE (guardE (ac_default_retry_class a \<in> set (ac_allowed_retry_classes a))
        (ValueError ''default retry class must be allowed'')) (\<lambda>_.
     bindE (guardE (\<not> (ac_commissioning_state a = C_COMMISSIONED \<and> ac_commissioning_evidence a = []))
        (ValueError ''COMMISSIONED requires evidence'')) (\<lambda>_. Inr a))))))"

record agents_config =
  agc_version :: int
  agc_agents :: "agent_config list"

definition expected_roster :: "string list" where
  "expected_roster = map (\<lambda>number. ''A'' @ pad 2 number) [1..<17]"

definition validate_roster :: "agents_config \<Rightarrow> error + agents_config" where
  "validate_roster c =
     (let agent_ids = map ac_agent_id (agc_agents c) in
      bindE (foldE (\<lambda>a _. bindE (validate_defaults_and_uniqueness a) (\<lambda>_. Inr ())) (agc_agents c) ()) (\<lambda>_.
      bindE (guardE (agc_version c = 1 \<and> length (agc_agents c) = 16) (ValueError ''field'')) (\<lambda>_.
      bindE (guardE (distinct agent_ids) (ValueError ''agent IDs must be unique'')) (\<lambda>_.
      bindE (guardE (set agent_ids = set expected_roster)
        (ValueError ''agent roster must contain exactly A01 through A16'')) (\<lambda>_. Inr c)))))"

subsection \<open>Telemetry\<close>

text \<open>The observation names are text; the taxonomy is closed.\<close>

definition telemetry_event_names :: "string list" where
  "telemetry_event_names = [''workflow_started'', ''job_started'', ''job_completed'', ''job_failed'',
     ''agent_run_started'', ''agent_run_completed'', ''research_completed'', ''product_qualified'',
     ''dedupe_failed'', ''build_completed'', ''qa_failed'', ''assets_completed'', ''draft_created'',
     ''publish_started'', ''publish_completed'', ''publish_failed'', ''metrics_collected'',
     ''winner_detected'', ''listing_culled'', ''successor_created'', ''incident_opened'',
     ''incident_resolved'', ''human_intervention_required'']"

record telemetry_config =
  tel_version :: int
  tel_enabled :: bool
  tel_allowed_events :: "string list"

definition validate_events :: "telemetry_config \<Rightarrow> error + telemetry_config" where
  "validate_events t =
     bindE (guardE (tel_version t = 1 \<and> set (tel_allowed_events t) \<subseteq> set telemetry_event_names)
        (ValueError ''field'')) (\<lambda>_.
     bindE (guardE (distinct (tel_allowed_events t)) (ValueError ''telemetry events must be unique'')) (\<lambda>_.
     bindE (guardE (\<not> (tel_enabled t \<and> tel_allowed_events t = []))
        (ValueError ''enabled telemetry requires an explicit allowed event list'')) (\<lambda>_. Inr t)))"

subsection \<open>The bundle\<close>

record configuration_bundle =
  cb_product_rules :: product_rules_config
  cb_publishing_ramp :: publishing_ramp_config
  cb_autonomy :: autonomy_config
  cb_agents :: agents_config
  cb_workflows :: workflows_config
  cb_telemetry :: telemetry_config

text \<open>One job against the contract of its owner; an owner outside the roster is a \<^verbatim>\<open>KeyError\<close>.\<close>

definition check_owner :: "agents_config \<Rightarrow> workflow_job_definition \<Rightarrow> error + unit" where
  "check_owner agents job =
     bindE (requireE (map_of (rev (map (\<lambda>a. (ac_agent_id a, a)) (agc_agents agents)))
        (wj_owner_agent_id job)) LookupError) (\<lambda>owner.
     bindE (guardE (wj_side_effect_class job \<in> set (ac_allowed_side_effect_classes owner))
        (ValueError ''outside the agent side-effect contract'')) (\<lambda>_.
     bindE (guardE (wj_retry_class job \<in> set (ac_allowed_retry_classes owner))
        (ValueError ''outside the agent retry contract'')) (\<lambda>_.
     case wj_capability_operation job of
       None \<Rightarrow> Inr ()
     | Some operation \<Rightarrow> guardE (operation \<in> set (ac_provider_operations owner))
         (ValueError ''outside the provider operations''))))"

definition validate_config_bundle ::
    "product_rules_config \<Rightarrow> publishing_ramp_config \<Rightarrow> autonomy_config \<Rightarrow> agents_config \<Rightarrow>
     workflows_config \<Rightarrow> telemetry_config \<Rightarrow> error + configuration_bundle" where
  "validate_config_bundle product_rules publishing_ramp autonomy agents workflows telemetry =
     bindE (guardE (au_weekly_listing_cap autonomy \<le> ramp_hard_weekly_cap publishing_ramp)
        (ValueError ''autonomy weekly listing cap exceeds the publishing hard cap'')) (\<lambda>_.
     bindE (guardE (\<not> (au_auto_publish autonomy \<and> \<not> ramp_publishing_enabled publishing_ramp))
        (ValueError ''auto_publish requires the publishing ramp to be enabled'')) (\<lambda>_.
     bindE (foldE (\<lambda>workflow _. foldE (\<lambda>job _. check_owner agents job) (wd_jobs workflow) ())
        (wc_workflows workflows) ()) (\<lambda>_.
     Inr \<lparr>cb_product_rules = product_rules, cb_publishing_ramp = publishing_ramp,
          cb_autonomy = autonomy, cb_agents = agents, cb_workflows = workflows,
          cb_telemetry = telemetry\<rparr>)))"

subsection \<open>Loading\<close>

text \<open>
  \<^verbatim>\<open>raw.strip().lower()\<close> against the three environment names; a missing variable is the
  development default.
\<close>

definition python_white :: "char \<Rightarrow> bool" where
  "python_white c \<longleftrightarrow> is_white c \<or> (28 \<le> (of_char c :: nat) \<and> (of_char c :: nat) \<le> 31)"

lemma python_white_code [code]: "python_white (Char b0 b1 b2 b3 b4 b5 b6 b7) =
  (is_white (Char b0 b1 b2 b3 b4 b5 b6 b7) \<or> \<not> b7 \<and> \<not> b6 \<and> \<not> b5 \<and> b4 \<and> b3 \<and> b2)"
  by (cases b0; cases b1; cases b2; cases b3; cases b4; cases b5; cases b6; cases b7; simp add: python_white_def)

text \<open>\<^verbatim>\<open>str.strip\<close> without arguments\<close>

definition py_strip :: "string \<Rightarrow> string" where
  "py_strip s = rev (dropWhile python_white (rev (dropWhile python_white s)))"

definition resolve_runtime_environment :: "string option \<Rightarrow> error + runtime_environment" where
  "resolve_runtime_environment app_env =
     (let raw = (case app_env of None \<Rightarrow> ''development'' | Some s \<Rightarrow> s);
          name = lower_str (rev (dropWhile python_white (rev (dropWhile python_white raw))))
      in if name = ''development'' then Inr DEVELOPMENT
         else if name = ''test'' then Inr TEST
         else if name = ''production'' then Inr PRODUCTION
         else Inl ConfigLoadError)"

text \<open>
  \<^verbatim>\<open>load_yaml_model\<close>: the document is what the YAML parser returned, if the file could be read
  and parsed into a mapping; a model that does not validate is a \<open>ConfigLoadError\<close> too.
\<close>

definition load_yaml_model :: "('a \<Rightarrow> error + 'a) \<Rightarrow> 'a option \<Rightarrow> error + 'a" where
  "load_yaml_model validate document = (case document of
     None \<Rightarrow> Inl ConfigLoadError
   | Some raw \<Rightarrow> (case validate raw of Inl _ \<Rightarrow> Inl ConfigLoadError | Inr model \<Rightarrow> Inr model))"

record config_directory =
  operator_is_symlink :: bool
  operator_is_file :: bool
  operator_same_as_example :: bool
  operator_autonomy :: "autonomy_config option"
  example_autonomy :: "autonomy_config option"
  product_rules_doc :: "product_rules_config option"
  publishing_ramp_doc :: "publishing_ramp_config option"
  agents_doc :: "agents_config option"
  workflows_doc :: "workflows_config option"
  telemetry_doc :: "telemetry_config option"

definition select_autonomy :: "config_directory \<Rightarrow> runtime_environment \<Rightarrow> error + autonomy_config option" where
  "select_autonomy dir environment =
     bindE (guardE (\<not> operator_is_symlink dir) ConfigLoadError) (\<lambda>_.
     if operator_is_file dir then
       bindE (guardE (\<not> operator_same_as_example dir) ConfigLoadError) (\<lambda>_. Inr (operator_autonomy dir))
     else if environment = PRODUCTION then Inl ConfigLoadError
     else Inr (example_autonomy dir))"

definition load_config_bundle ::
    "config_directory \<Rightarrow> runtime_environment \<Rightarrow> error + configuration_bundle" where
  "load_config_bundle dir environment =
     bindE (load_yaml_model validate_selection_counts (product_rules_doc dir)) (\<lambda>product_rules.
     bindE (load_yaml_model validate_caps (publishing_ramp_doc dir)) (\<lambda>publishing_ramp.
     bindE (select_autonomy dir environment) (\<lambda>document.
     bindE (load_yaml_model validate_authority document) (\<lambda>standing.
     bindE (apply_environment_safety standing environment) (\<lambda>autonomy.
     bindE (load_yaml_model validate_roster (agents_doc dir)) (\<lambda>agents.
     bindE (load_yaml_model validate_workflows (workflows_doc dir)) (\<lambda>workflows.
     bindE (load_yaml_model validate_events (telemetry_doc dir)) (\<lambda>telemetry.
     validate_config_bundle product_rules publishing_ramp autonomy agents workflows telemetry))))))))"

subsection \<open>Authority\<close>

definition no_external_authority :: "autonomy_config \<Rightarrow> bool" where
  "no_external_authority a \<longleftrightarrow> \<not> au_external_mutations_enabled a \<and> \<not> au_external_spend_enabled a \<and>
     \<not> au_auto_publish a \<and> \<not> au_auto_deactivate a \<and> \<not> au_external_message_enabled a \<and>
     au_message_monthly_cap a = 0 \<and> au_authorized_recipient_scopes a = [] \<and>
     \<not> au_competitor_purchase_enabled a \<and> au_competitor_purchase_max_each a = 0 \<and>
     au_competitor_purchase_monthly_cap a = 0 \<and> \<not> au_live_checkout_test_enabled a \<and>
     au_live_checkout_test_cap a = 0 \<and> au_paid_tool_monthly_cap a = 0"

lemma validate_authority_id: "validate_authority a = Inr b \<Longrightarrow> b = a"
  by (auto simp: validate_authority_def bindE_eq_Inr)

lemma validate_authority_fields: "validate_authority a = Inr b \<Longrightarrow> autonomy_fields a"
  by (auto simp: validate_authority_def bindE_eq_Inr)

lemma simulation_has_no_authority:
  assumes "validate_authority a = Inr b" and "au_mode a = SIMULATION"
  shows "no_external_authority a"
  using assms
  by (auto simp: validate_authority_def bindE_eq_Inr no_external_authority_def message_authority_def
      purchase_authority_def checkout_authority_def live_spend_def live_mutations_def Let_def
      split: if_splits)

text \<open>
  What an authority may grant: publishing and deactivation without a human only with live
  mutations, messages only under a positive cap and to named scopes, purchases and checkout tests
  only with live spending and inside their caps, paid tools only with live spending, and nothing
  external in simulation. A permission that is off has its caps at zero.
\<close>

definition authority_within_bounds :: "autonomy_config \<Rightarrow> bool" where
  "authority_within_bounds a \<longleftrightarrow>
     (au_auto_publish a \<or> au_auto_deactivate a \<longrightarrow> live_mutations a) \<and>
     (if au_external_message_enabled a
      then 0 < au_message_monthly_cap a \<and> au_authorized_recipient_scopes a \<noteq> []
      else au_message_monthly_cap a = 0 \<and> au_authorized_recipient_scopes a = []) \<and>
     (if au_competitor_purchase_enabled a
      then live_spend a \<and> 0 < au_competitor_purchase_max_each a \<and>
        au_competitor_purchase_max_each a \<le> au_competitor_purchase_monthly_cap a
      else au_competitor_purchase_max_each a = 0 \<and> au_competitor_purchase_monthly_cap a = 0) \<and>
     (if au_live_checkout_test_enabled a then live_spend a \<and> 0 < au_live_checkout_test_cap a
      else au_live_checkout_test_cap a = 0) \<and>
     (au_paid_tool_monthly_cap a \<noteq> 0 \<longrightarrow> live_spend a) \<and>
     (au_external_mutations_enabled a \<or> au_external_spend_enabled a \<or> au_external_message_enabled a \<longrightarrow>
        au_mode a \<noteq> SIMULATION)"

lemma validated_authority_within_bounds:
  assumes "validate_authority a = Inr b"
  shows "authority_within_bounds a"
  using assms
  by (auto simp: validate_authority_def bindE_eq_Inr authority_within_bounds_def message_authority_def
      purchase_authority_def checkout_authority_def Let_def split: if_splits)

lemma reduced_validates:
  assumes "autonomy_fields a" and "environment \<noteq> PRODUCTION"
  shows "\<exists>b. apply_environment_safety a environment = Inr b \<and> au_mode b = SIMULATION \<and>
     no_external_authority b \<and> \<not> au_auto_multiply b \<and> au_weekly_listing_cap b = au_weekly_listing_cap a \<and>
     au_currency b = au_currency a \<and> validate_authority b = Inr b"
  using assms
  by (simp add: apply_environment_safety_def validate_authority_def autonomy_fields_def
      message_authority_def purchase_authority_def checkout_authority_def no_external_authority_def
      live_spend_def live_mutations_def)

lemma load_yaml_model_Inr: "load_yaml_model v doc = Inr a \<longleftrightarrow> (\<exists>raw. doc = Some raw \<and> v raw = Inr a)"
  by (auto simp: load_yaml_model_def split: option.splits sum.splits)

lemma load_config_bundle_cases:
  assumes "load_config_bundle dir environment = Inr cb"
  obtains raw standing ag wfs rp where "select_autonomy dir environment = Inr (Some raw)"
    "validate_authority raw = Inr standing" "apply_environment_safety standing environment = Inr (cb_autonomy cb)"
    "agents_doc dir = Some ag" "validate_roster ag = Inr (cb_agents cb)"
    "workflows_doc dir = Some wfs" "validate_workflows wfs = Inr (cb_workflows cb)"
    "publishing_ramp_doc dir = Some rp" "validate_caps rp = Inr (cb_publishing_ramp cb)"
    "validate_config_bundle (cb_product_rules cb) (cb_publishing_ramp cb) (cb_autonomy cb) (cb_agents cb)
       (cb_workflows cb) (cb_telemetry cb) = Inr cb"
  using assms
  by (auto simp: load_config_bundle_def bindE_eq_Inr load_yaml_model_Inr validate_config_bundle_def)

text \<open>
  C18: authority can only be configured deliberately. Whatever the standing authority file says, a
  process outside production runs in simulation with every external permission off and every
  spending cap zero; in production the authority is the operator's own file, never the template
  and never a link. In either case what is granted stays within bounds: automatic publishing and
  automatic deactivation require live mode with the mutation switch on, publishing also a ramp
  that allows it; purchases, checkout tests and paid tools require live mode with the spending
  switch on and are inside their caps, a single purchase inside the monthly one; messages require
  a cap and named recipients; simulation grants nothing. Outside simulation the mutation, spending
  and message switches themselves are the operator's. The weekly cap is inside the ramp's, which
  never exceeds fifteen.
\<close>

theorem authority_is_contained:
  assumes "load_config_bundle dir environment = Inr cb"
  shows "(environment \<noteq> PRODUCTION \<longrightarrow> au_mode (cb_autonomy cb) = SIMULATION \<and>
        no_external_authority (cb_autonomy cb) \<and> \<not> au_auto_multiply (cb_autonomy cb)) \<and>
     (environment = PRODUCTION \<longrightarrow> operator_autonomy dir = Some (cb_autonomy cb) \<and>
        \<not> operator_is_symlink dir \<and> \<not> operator_same_as_example dir) \<and>
     (au_mode (cb_autonomy cb) = SIMULATION \<longrightarrow> no_external_authority (cb_autonomy cb)) \<and>
     authority_within_bounds (cb_autonomy cb) \<and>
     (au_auto_publish (cb_autonomy cb) \<longrightarrow> ramp_publishing_enabled (cb_publishing_ramp cb)) \<and>
     au_weekly_listing_cap (cb_autonomy cb) \<le> ramp_hard_weekly_cap (cb_publishing_ramp cb) \<and>
     ramp_hard_weekly_cap (cb_publishing_ramp cb) \<le> 15"
  using assms
proof (cases rule: load_config_bundle_cases)
  case (1 raw standing ag wfs rp)
  let ?a = "cb_autonomy cb"
  have st: "standing = raw" using validate_authority_id [OF 1(2)] .
  have red: "environment \<noteq> PRODUCTION \<Longrightarrow> au_mode ?a = SIMULATION \<and> no_external_authority ?a \<and> \<not> au_auto_multiply ?a"
    using reduced_validates [OF validate_authority_fields [OF 1(2)]] 1(3) st by fastforce
  have valid: "validate_authority ?a = Inr ?a"
    using 1(2,3) st reduced_validates [OF validate_authority_fields [OF 1(2)]]
    by (cases "environment = PRODUCTION") (auto simp: apply_environment_safety_def)
  have prod: "environment = PRODUCTION \<Longrightarrow> operator_autonomy dir = Some ?a \<and>
      \<not> operator_is_symlink dir \<and> \<not> operator_same_as_example dir"
    using 1(1,3) st by (auto simp: select_autonomy_def bindE_eq_Inr apply_environment_safety_def split: if_splits)
  have ramp: "au_weekly_listing_cap ?a \<le> ramp_hard_weekly_cap (cb_publishing_ramp cb)"
    "au_auto_publish ?a \<Longrightarrow> ramp_publishing_enabled (cb_publishing_ramp cb)"
    "ramp_hard_weekly_cap (cb_publishing_ramp cb) \<le> 15"
    using 1(9,10) by (auto simp: validate_config_bundle_def bindE_eq_Inr validate_caps_def weekly_cap_def
        PLAYBOOK_MACHINE_WEEKLY_CAP_def)
  show ?thesis
    using red prod ramp simulation_has_no_authority [OF valid] validated_authority_within_bounds [OF valid] by blast
qed

subsection \<open>A complete configuration\<close>

definition example_agent :: "string \<Rightarrow> agent_config" where
  "example_agent i = \<lparr>ac_agent_id = i, ac_name = ''agent'', ac_implementation_version = 1,
     ac_contract_version = 1, ac_system_prompt_reference = ''agent://'' @ i @ ''/system/v1'',
     ac_input_contracts = [''JobEnvelope''], ac_output_contracts = [''AgentResult''],
     ac_allowed_tools = [''workflow.inspect''], ac_provider_operations = [''ETSY_PUBLISH''],
     ac_allowed_side_effect_classes = [NONE, EXTERNAL_WRITE], ac_default_side_effect_class = NONE,
     ac_allowed_retry_classes = [SAFE, RECONCILE_FIRST], ac_default_retry_class = SAFE,
     ac_timeout_seconds = 300, ac_model_policy = ''default'', ac_commissioning_state = C_TESTED,
     ac_commissioning_evidence = [''docs/control/a.md'']\<rparr>"

definition example_agents :: agents_config where
  "example_agents = \<lparr>agc_version = 1, agc_agents = map example_agent expected_roster\<rparr>"

definition example_workflow_docs :: workflows_config where
  "example_workflow_docs = \<lparr>wc_version = 1, wc_event_successor_map = [(''PRODUCT_REJECTED'', [])],
     wc_workflows = [\<lparr>wd_workflow_type = ''product'', wd_version = 1, wd_entry_job_types = [''DedupeJob''],
       wd_jobs = [\<lparr>wj_job_type = ''DedupeJob'', wj_owner_agent_id = ''A06'', wj_side_effect_class = NONE,
         wj_retry_class = SAFE, wj_allowed_modes = [SIMULATION], wj_output_contracts = [''DedupeResult''],
         wj_admitted_events = [EV_PRODUCT_REJECTED], wj_successor_job_types = [],
         wj_capability_operation = None, wj_capability_channel = None\<rparr>]\<rparr>]\<rparr>"

definition example_autonomy_config :: autonomy_config where
  "example_autonomy_config = \<lparr>au_version = 1, au_mode = LIVE, au_currency = ''GBP'',
     au_external_mutations_enabled = True, au_external_spend_enabled = True, au_auto_publish = True,
     au_auto_deactivate = True, au_auto_multiply = True, au_external_message_enabled = True,
     au_message_monthly_cap = 5,
     au_authorized_recipient_scopes = [\<lparr>rsc_scope_id = ''buyers'', rsc_version = 1,
       rsc_consent_evidence_reference = ''docs/consent.md''\<rparr>],
     au_recipient_consent_evidence_required = True, au_competitor_purchase_enabled = True,
     au_competitor_purchase_max_each = 10, au_competitor_purchase_monthly_cap = 50,
     au_live_checkout_test_enabled = True, au_live_checkout_test_cap = 5, au_weekly_listing_cap = 5,
     au_paid_tool_monthly_cap = 20\<rparr>"

definition example_product_rules :: product_rules_config where
  "example_product_rules = \<lparr>pr_version = 1, pr_research_rows = \<lparr>ir_minimum = 50, ir_maximum = 100\<rparr>,
     pr_shortlisted_candidates = 5, pr_qualification = \<lparr>qr_build_threshold = 7, qr_maximum_score = 10\<rparr>,
     pr_niche_selection = \<lparr>ns_primary = 1, ns_backup = 1\<rparr>,
     pr_product_shape = \<lparr>sh_hubs = \<lparr>ir_minimum = 5, ir_maximum = 12\<rparr>,
       sh_colour_variants = \<lparr>ir_minimum = 1, ir_maximum = 6\<rparr>\<rparr>,
     pr_listing_assets = \<lparr>la_tags = 13, la_images = 10, la_videos = 1, la_description_sections = 6,
       la_quantity = 999, la_image_role = ''listing_image'', la_video_role = ''listing_video''\<rparr>,
     pr_portfolio = \<lparr>pf_maturity_live_days = 30, pf_cull_bottom_percent = 20,
       pf_deep_pass_cadence = ''monthly''\<rparr>,
     pr_experiments = \<lparr>xr_new_fronts_per_batch = 2\<rparr>,
     pr_dedupe = \<lparr>dr_rule_version = ''v1'', dr_title_jaccard_threshold = 3 / 4\<rparr>\<rparr>"

definition example_ramp :: publishing_ramp_config where
  "example_ramp = \<lparr>ramp_version = 1, ramp_publishing_enabled = True,
     ramp_launch_target = \<lparr>ir_minimum = 3, ir_maximum = 5\<rparr>, ramp_initial_weekly_cap = 5,
     ramp_hard_weekly_cap = 15, ramp_rolling_window_days = 7,
     ramp_count_only_reconciled_publications = True\<rparr>"

definition example_directory :: config_directory where
  "example_directory = \<lparr>operator_is_symlink = False, operator_is_file = True,
     operator_same_as_example = False, operator_autonomy = Some example_autonomy_config,
     example_autonomy = None, product_rules_doc = Some example_product_rules,
     publishing_ramp_doc = Some example_ramp, agents_doc = Some example_agents,
     workflows_doc = Some example_workflow_docs,
     telemetry_doc = Some \<lparr>tel_version = 1, tel_enabled = False, tel_allowed_events = []\<rparr>\<rparr>"

lemma example_directory_loads: "\<not> isl (load_config_bundle example_directory DEVELOPMENT)"
  by code_simp

theorem authority_is_contained_witness:
  "\<exists>cb. load_config_bundle example_directory DEVELOPMENT = Inr cb \<and> no_external_authority (cb_autonomy cb)"
proof -
  obtain cb where r: "load_config_bundle example_directory DEVELOPMENT = Inr cb"
    using example_directory_loads by (cases "load_config_bundle example_directory DEVELOPMENT") auto
  from authority_is_contained [OF r] r show ?thesis by blast
qed

subsection \<open>Ownership\<close>

lemma foldE_unit: "foldE (\<lambda>x _. f x) xs () = Inr () \<longleftrightarrow> (\<forall>x \<in> set xs. f x = Inr ())"
proof (induction xs)
  case Nil
  then show ?case by simp
next
  case (Cons x xs)
  then show ?case by (cases "f x") (auto simp: bindE_eq_Inr)
qed

lemma foldE_unit_error: "foldE (\<lambda>x _. f x) xs () = Inl err \<Longrightarrow> \<exists>x \<in> set xs. f x = Inl err"
  by (induction xs) (auto simp: bindE_eq_Inl)

lemma roster_complete: "agent_id_format s \<longleftrightarrow> s \<in> set expected_roster"
proof -
  have "expected_roster = [''A01'', ''A02'', ''A03'', ''A04'', ''A05'', ''A06'', ''A07'', ''A08'',
     ''A09'', ''A10'', ''A11'', ''A12'', ''A13'', ''A14'', ''A15'', ''A16'']" by code_simp
  then show ?thesis by (simp add: agent_id_format_def)
qed

lemma validate_roster_Inr:
  assumes "validate_roster c = Inr b"
  shows "b = c \<and> distinct (map ac_agent_id (agc_agents c)) \<and> set (map ac_agent_id (agc_agents c)) = set expected_roster"
  using assms by (auto simp: validate_roster_def Let_def bindE_eq_Inr)

lemma roster_owner:
  assumes "validate_roster c = Inr b" and "agent_id_format s"
  shows "\<exists>a \<in> set (agc_agents c). ac_agent_id a = s \<and>
     map_of (rev (map (\<lambda>a. (ac_agent_id a, a)) (agc_agents c))) s = Some a"
proof -
  note r = validate_roster_Inr [OF assms(1)]
  then have "s \<in> ac_agent_id ` set (agc_agents c)" using assms(2) roster_complete by simp
  then obtain a where a: "a \<in> set (agc_agents c)" "ac_agent_id a = s" by auto
  have "distinct (map fst (rev (map (\<lambda>a. (ac_agent_id a, a)) (agc_agents c))))"
    using r by (simp add: rev_map [symmetric] comp_def)
  then have "map_of (rev (map (\<lambda>a. (ac_agent_id a, a)) (agc_agents c))) s = Some a"
    using a by (intro map_of_is_SomeI) auto
  with a show ?thesis by blast
qed

lemma validated_job_owner:
  assumes "validate_workflows c = Inr b" and "w \<in> set (wc_workflows c)" and "j \<in> set (wd_jobs w)"
  shows "agent_id_format (wj_owner_agent_id j)"
proof -
  have "foldE (\<lambda>w _. bindE (foldE (\<lambda>j _. bindE (validate_effect_contract j) (\<lambda>_. Inr ()))
      (wd_jobs w) ()) (\<lambda>_. bindE (validate_graph w) (\<lambda>_. Inr ()))) (wc_workflows c) () = Inr ()"
    using assms(1) by (auto simp: validate_workflows_def bindE_eq_Inr)
  then have "foldE (\<lambda>j _. bindE (validate_effect_contract j) (\<lambda>_. Inr ())) (wd_jobs w) () = Inr ()"
    using assms(2) by (auto simp: foldE_unit bindE_eq_Inr)
  then have "\<exists>x. validate_effect_contract j = Inr x"
    using assms(3) by (auto simp: foldE_unit bindE_eq_Inr)
  then show ?thesis by (auto simp: validate_effect_contract_def bindE_eq_Inr job_definition_fields_def)
qed

definition within_contract :: "agent_config \<Rightarrow> workflow_job_definition \<Rightarrow> bool" where
  "within_contract owner j \<longleftrightarrow> wj_side_effect_class j \<in> set (ac_allowed_side_effect_classes owner) \<and>
     wj_retry_class j \<in> set (ac_allowed_retry_classes owner) \<and>
     set_option (wj_capability_operation j) \<subseteq> set (ac_provider_operations owner)"

text \<open>
  Every configured job has an owner that may do it. For a validated roster and validated
  workflows the cross-check of the bundle succeeds exactly when the caps agree and every job of
  every workflow stays inside the side-effect, retry and provider contract of its owner, which is
  one of the sixteen agents; it fails only with \<open>ValueError\<close>, never on a missing owner.
\<close>

theorem configured_jobs_have_able_owners:
  assumes "validate_roster ag = Inr ag" and "validate_workflows wfs = Inr wfs"
  shows "case validate_config_bundle pr rp au ag wfs tel of
       Inr cb \<Rightarrow> cb_agents cb = ag \<and> cb_workflows cb = wfs \<and>
         (\<forall>w \<in> set (wc_workflows wfs). \<forall>j \<in> set (wd_jobs w).
            \<exists>owner \<in> set (agc_agents ag). ac_agent_id owner = wj_owner_agent_id j \<and> within_contract owner j)
     | Inl err \<Rightarrow> (\<exists>msg. err = ValueError msg) \<and>
         (ramp_hard_weekly_cap rp < au_weekly_listing_cap au \<or>
          au_auto_publish au \<and> \<not> ramp_publishing_enabled rp \<or>
          (\<exists>w \<in> set (wc_workflows wfs). \<exists>j \<in> set (wd_jobs w). \<exists>owner \<in> set (agc_agents ag).
             ac_agent_id owner = wj_owner_agent_id j \<and> \<not> within_contract owner j))"
proof -
  have owner: "\<exists>a \<in> set (agc_agents ag). ac_agent_id a = wj_owner_agent_id j \<and>
      (check_owner ag j = Inr () \<and> within_contract a j \<or>
       (\<exists>msg. check_owner ag j = Inl (ValueError msg)) \<and> \<not> within_contract a j)"
    if "w \<in> set (wc_workflows wfs)" "j \<in> set (wd_jobs w)" for w j
  proof -
    from roster_owner [OF assms(1) validated_job_owner [OF assms(2) that]] obtain a where
      a: "a \<in> set (agc_agents ag)" "ac_agent_id a = wj_owner_agent_id j"
      "map_of (rev (map (\<lambda>a. (ac_agent_id a, a)) (agc_agents ag))) (wj_owner_agent_id j) = Some a" by blast
    show ?thesis
      by (rule bexI [OF _ a(1)], cases "wj_capability_operation j")
        (auto simp: check_owner_def a(2,3) within_contract_def guardE_def)
  qed
  let ?f = "foldE (\<lambda>w _. foldE (\<lambda>j _. check_owner ag j) (wd_jobs w) ()) (wc_workflows wfs) ()"
  have good: "\<forall>w \<in> set (wc_workflows wfs). \<forall>j \<in> set (wd_jobs w). check_owner ag j = Inr ()"
    if "?f = Inr ()" using that unfolding foldE_unit by blast
  have bad: "\<exists>w \<in> set (wc_workflows wfs). \<exists>j \<in> set (wd_jobs w). check_owner ag j = Inl err"
    if "?f = Inl err" for err
    using foldE_unit_error [OF that] foldE_unit_error [where f = "check_owner ag"] by blast
  consider (cap) "ramp_hard_weekly_cap rp < au_weekly_listing_cap au"
    | (publish) "au_weekly_listing_cap au \<le> ramp_hard_weekly_cap rp" "au_auto_publish au \<and> \<not> ramp_publishing_enabled rp"
    | (jobs) "au_weekly_listing_cap au \<le> ramp_hard_weekly_cap rp" "\<not> (au_auto_publish au \<and> \<not> ramp_publishing_enabled rp)"
    by linarith
  then show ?thesis
  proof cases
    case cap
    then show ?thesis by (simp add: validate_config_bundle_def)
  next
    case publish
    then show ?thesis by (simp add: validate_config_bundle_def)
  next
    case jobs
    show ?thesis
    proof (cases ?f)
      case (Inl err)
      with bad owner obtain w j a msg where "w \<in> set (wc_workflows wfs)" "j \<in> set (wd_jobs w)"
        "a \<in> set (agc_agents ag)" "ac_agent_id a = wj_owner_agent_id j" "\<not> within_contract a j"
        "err = ValueError msg" by (metis Inl_inject Inr_Inl_False)
      with jobs Inl show ?thesis by (auto simp: validate_config_bundle_def)
    next
      case (Inr u)
      with good owner have "\<forall>w \<in> set (wc_workflows wfs). \<forall>j \<in> set (wd_jobs w).
          \<exists>a \<in> set (agc_agents ag). ac_agent_id a = wj_owner_agent_id j \<and> within_contract a j"
        by (metis Inl_Inr_False old.unit.exhaust)
      with jobs Inr show ?thesis by (simp add: validate_config_bundle_def)
    qed
  qed
qed

lemma not_isl_Inr: "\<not> isl x \<Longrightarrow> \<exists>y. x = Inr y"
  by (cases x) auto

theorem configured_jobs_have_able_owners_witness:
  "\<exists>cb owner. validate_config_bundle example_product_rules example_ramp example_autonomy_config example_agents
     example_workflow_docs \<lparr>tel_version = 1, tel_enabled = False, tel_allowed_events = []\<rparr> = Inr cb \<and>
     owner \<in> set (agc_agents example_agents) \<and> ac_agent_id owner = ''A06''"
proof -
  let ?t = "\<lparr>tel_version = 1, tel_enabled = False, tel_allowed_events = []\<rparr>"
  let ?b = "validate_config_bundle example_product_rules example_ramp example_autonomy_config example_agents
     example_workflow_docs ?t"
  have i: "\<not> isl (validate_roster example_agents)" by code_simp
  have j: "\<not> isl (validate_workflows example_workflow_docs)" by code_simp
  have k: "\<not> isl ?b" by code_simp
  have v: "validate_roster example_agents = Inr example_agents"
    using not_isl_Inr [OF i] validate_roster_Inr by blast
  have w: "validate_workflows example_workflow_docs = Inr example_workflow_docs"
    using not_isl_Inr [OF j] by (auto simp: validate_workflows_def validate_workflow_types_def bindE_eq_Inr)
  obtain cb where b: "?b = Inr cb" using not_isl_Inr [OF k] by blast
  have "\<forall>w \<in> set (wc_workflows example_workflow_docs). \<forall>j \<in> set (wd_jobs w).
      \<exists>owner \<in> set (agc_agents example_agents). ac_agent_id owner = wj_owner_agent_id j \<and> within_contract owner j"
    using configured_jobs_have_able_owners [OF v w, where pr = example_product_rules and
      rp = example_ramp and au = example_autonomy_config and tel = ?t] unfolding b by simp
  then have "\<exists>owner \<in> set (agc_agents example_agents). ac_agent_id owner = ''A06''"
    by (auto simp: example_workflow_docs_def)
  with b show ?thesis by blast
qed

end
