(* ===== verification/Patterns.thy ===== *)
theory Patterns
  imports MM_Prelude
begin

section \<open>Regular expressions\<close>

text \<open>
  The part of Python's \<^verbatim>\<open>re\<close> the code uses: \<^verbatim>\<open>search\<close> and \<^verbatim>\<open>fullmatch\<close> with character classes,
  concatenation, alternation and repetition. A pattern denotes a language; the searcher computes
  by derivatives and is proved to find a match exactly when some substring is in the language.
  A character class is a predicate, so a case-insensitive class is one too.
\<close>

datatype pattern =
    PNever
  | PEmpty
  | PClass "char \<Rightarrow> bool"
  | PSeq pattern pattern
  | PAlt pattern pattern
  | PStar pattern

inductive_set repeats :: "string set \<Rightarrow> string set" for A where
  repeats_Nil: "[] \<in> repeats A"
| repeats_step: "u \<in> A \<Longrightarrow> v \<in> repeats A \<Longrightarrow> u @ v \<in> repeats A"

fun lang :: "pattern \<Rightarrow> string set" where
  "lang PNever = {}"
| "lang PEmpty = {[]}"
| "lang (PClass f) = {[c] | c. f c}"
| "lang (PSeq p q) = {u @ v | u v. u \<in> lang p \<and> v \<in> lang q}"
| "lang (PAlt p q) = lang p \<union> lang q"
| "lang (PStar p) = repeats (lang p)"

subsection \<open>Derivatives\<close>

fun nullable :: "pattern \<Rightarrow> bool" where
  "nullable PNever = False"
| "nullable PEmpty = True"
| "nullable (PClass f) = False"
| "nullable (PSeq p q) = (nullable p \<and> nullable q)"
| "nullable (PAlt p q) = (nullable p \<or> nullable q)"
| "nullable (PStar p) = True"

text \<open>Concatenation and alternation that drop dead branches, so that a search stops early.\<close>

fun seq_of :: "pattern \<Rightarrow> pattern \<Rightarrow> pattern" where
  "seq_of PNever q = PNever"
| "seq_of PEmpty q = q"
| "seq_of p q = PSeq p q"

fun alt_of :: "pattern \<Rightarrow> pattern \<Rightarrow> pattern" where
  "alt_of PNever q = q"
| "alt_of p PNever = p"
| "alt_of p q = PAlt p q"

fun deriv :: "char \<Rightarrow> pattern \<Rightarrow> pattern" where
  "deriv c PNever = PNever"
| "deriv c PEmpty = PNever"
| "deriv c (PClass f) = (if f c then PEmpty else PNever)"
| "deriv c (PSeq p q) = (if nullable p then alt_of (seq_of (deriv c p) q) (deriv c q)
     else seq_of (deriv c p) q)"
| "deriv c (PAlt p q) = alt_of (deriv c p) (deriv c q)"
| "deriv c (PStar p) = seq_of (deriv c p) (PStar p)"

text \<open>\<^verbatim>\<open>re.fullmatch\<close>, \<^verbatim>\<open>re.match\<close> and \<^verbatim>\<open>re.search\<close>, each as whether there is a match.\<close>

fun fullmatch :: "pattern \<Rightarrow> string \<Rightarrow> bool" where
  "fullmatch p [] = nullable p"
| "fullmatch p (c # cs) = fullmatch (deriv c p) cs"

fun match_here :: "pattern \<Rightarrow> string \<Rightarrow> bool" where
  "match_here p [] = nullable p"
| "match_here p (c # cs) = (nullable p \<or> (let d = deriv c p in
     case d of PNever \<Rightarrow> False | _ \<Rightarrow> match_here d cs))"

fun re_search :: "pattern \<Rightarrow> string \<Rightarrow> bool" where
  "re_search p [] = nullable p"
| "re_search p (c # cs) = (match_here p (c # cs) \<or> re_search p cs)"

lemma nullable_iff: "nullable p \<longleftrightarrow> [] \<in> lang p"
  by (induction p) (auto intro: repeats.intros)

lemma lang_seq_of [simp]: "lang (seq_of p q) = lang (PSeq p q)"
  by (cases p) auto

lemma lang_alt_of [simp]: "lang (alt_of p q) = lang (PAlt p q)"
  by (cases p; cases q) auto

lemma repeats_Cons:
  "c # w \<in> repeats A \<longleftrightarrow> (\<exists>u v. w = u @ v \<and> c # u \<in> A \<and> v \<in> repeats A)"
proof
  assume "c # w \<in> repeats A"
  then show "\<exists>u v. w = u @ v \<and> c # u \<in> A \<and> v \<in> repeats A"
  proof (induction "c # w" rule: repeats.induct)
    case (repeats_step u v)
    then show ?case by (cases u) auto
  qed
next
  assume "\<exists>u v. w = u @ v \<and> c # u \<in> A \<and> v \<in> repeats A"
  then obtain u v where "w = u @ v" "c # u \<in> A" "v \<in> repeats A" by blast
  then show "c # w \<in> repeats A" using repeats_step [of "c # u" A v] by simp
qed

lemma lang_deriv [simp]: "lang (deriv c p) = {w. c # w \<in> lang p}"
proof (induction p)
  case (PSeq p q)
  then show ?case by (auto simp: nullable_iff Cons_eq_append_conv)
next
  case (PStar p)
  then show ?case by (auto simp: repeats_Cons)
qed auto

theorem fullmatch_iff: "fullmatch p s \<longleftrightarrow> s \<in> lang p"
  by (induction s arbitrary: p) (simp_all add: nullable_iff)

lemma match_here_Cons: "match_here p (c # cs) \<longleftrightarrow> nullable p \<or> match_here (deriv c p) cs"
proof -
  have "\<not> match_here PNever cs" by (cases cs) auto
  then show ?thesis by (auto simp: Let_def split: pattern.splits)
qed

lemma match_here_iff: "match_here p s \<longleftrightarrow> (\<exists>v w. s = v @ w \<and> v \<in> lang p)"
proof (induction s arbitrary: p)
  case Nil
  then show ?case by (simp add: nullable_iff)
next
  case (Cons c cs)
  have "(\<exists>v w. c # cs = v @ w \<and> v \<in> lang p) \<longleftrightarrow>
      [] \<in> lang p \<or> (\<exists>v w. cs = v @ w \<and> c # v \<in> lang p)"
    by (auto simp: Cons_eq_append_conv)
  then show ?case
    unfolding match_here_Cons by (simp add: nullable_iff Cons.IH)
qed

theorem re_search_iff: "re_search p s \<longleftrightarrow> (\<exists>u v w. s = u @ v @ w \<and> v \<in> lang p)"
proof (induction s)
  case Nil
  then show ?case by (simp add: nullable_iff)
next
  case (Cons c cs)
  have split: "(\<exists>u v w. c # cs = u @ v @ w \<and> v \<in> lang p) \<longleftrightarrow>
      (\<exists>v w. c # cs = v @ w \<and> v \<in> lang p) \<or> (\<exists>u v w. cs = u @ v @ w \<and> v \<in> lang p)"
  proof
    assume "\<exists>u v w. c # cs = u @ v @ w \<and> v \<in> lang p"
    then obtain u v w where "c # cs = u @ v @ w" "v \<in> lang p" by blast
    then show "(\<exists>v w. c # cs = v @ w \<and> v \<in> lang p) \<or> (\<exists>u v w. cs = u @ v @ w \<and> v \<in> lang p)"
      by (cases u) auto
  next
    assume "(\<exists>v w. c # cs = v @ w \<and> v \<in> lang p) \<or> (\<exists>u v w. cs = u @ v @ w \<and> v \<in> lang p)"
    then show "\<exists>u v w. c # cs = u @ v @ w \<and> v \<in> lang p"
    proof
      assume "\<exists>v w. c # cs = v @ w \<and> v \<in> lang p"
      then obtain v w where "c # cs = v @ w" "v \<in> lang p" by blast
      then show ?thesis by (intro exI [of _ "[]"] exI [of _ v] exI [of _ w]) simp
    next
      assume "\<exists>u v w. cs = u @ v @ w \<and> v \<in> lang p"
      then obtain u v w where "cs = u @ v @ w" "v \<in> lang p" by blast
      then show ?thesis by (intro exI [of _ "c # u"] exI [of _ v] exI [of _ w]) simp
    qed
  qed
  show ?case by (simp only: re_search.simps(2) match_here_iff Cons.IH split)
qed

subsection \<open>Derived patterns\<close>

definition POpt :: "pattern \<Rightarrow> pattern" where
  "POpt p = PAlt p PEmpty"

text \<open>A literal under \<^verbatim>\<open>re.IGNORECASE\<close>, given in lower case.\<close>

fun literal_ci :: "string \<Rightarrow> pattern" where
  "literal_ci [] = PEmpty"
| "literal_ci [c] = PClass (\<lambda>x. lower_char x = c)"
| "literal_ci (c # cs) = PSeq (PClass (\<lambda>x. lower_char x = c)) (literal_ci cs)"

fun alternatives :: "pattern list \<Rightarrow> pattern" where
  "alternatives [] = PNever"
| "alternatives [p] = p"
| "alternatives (p # ps) = PAlt p (alternatives ps)"

text \<open>\<^verbatim>\<open>p{n,}\<close>\<close>

fun at_least :: "nat \<Rightarrow> pattern \<Rightarrow> pattern" where
  "at_least 0 p = PStar p"
| "at_least (Suc n) p = PSeq p (at_least n p)"

lemma lang_POpt [simp]: "lang (POpt p) = insert [] (lang p)"
  by (auto simp: POpt_def)

lemma lang_class_seq: "lang (PSeq (PClass f) q) = {x # v | x v. f x \<and> v \<in> lang q}"
  by (auto, metis append_Cons append_Nil)

lemma lang_literal_ci [simp]: "lang (literal_ci s) = {w. lower_str w = s}"
proof (induction s rule: literal_ci.induct)
  case 1
  then show ?case by (auto simp: lower_str_def)
next
  case (2 c)
  then show ?case by (auto simp: lower_str_def Cons_eq_map_conv)
next
  case (3 c d cs)
  have "{x # v | x v. lower_char x = c \<and> lower_str v = d # cs} = {w. lower_str w = c # d # cs}"
    by (auto simp: lower_str_def)
  with 3 show ?case by (simp only: literal_ci.simps lang_class_seq mem_Collect_eq)
qed

declare literal_ci.simps [simp del]

lemma lang_alternatives [simp]: "lang (alternatives ps) = (\<Union>p \<in> set ps. lang p)"
  by (induction ps rule: alternatives.induct) auto

lemma repeats_class: "repeats {[c] | c. f c} = {w. list_all f w}"
proof -
  have "w \<in> repeats {[c] | c. f c} \<Longrightarrow> list_all f w" for w
    by (induction rule: repeats.induct) auto
  moreover have "list_all f w \<Longrightarrow> w \<in> repeats {[c] | c. f c}" for w
    by (induction w) (auto intro: repeats.intros simp: repeats_Cons)
  ultimately show ?thesis by blast
qed

lemma lang_star_class [simp]: "lang (PStar (PClass f)) = {w. list_all f w}"
  by (simp add: repeats_class)

lemma lang_at_least_class [simp]: "lang (at_least n (PClass f)) = {w. n \<le> length w \<and> list_all f w}"
proof (induction n)
  case 0
  then show ?case by (simp add: repeats_class)
next
  case (Suc n)
  have "{x # v | x v. f x \<and> n \<le> length v \<and> list_all f v} = {w. Suc n \<le> length w \<and> list_all f w}"
    by (auto simp: Suc_le_length_iff)
  with Suc show ?case by (simp only: at_least.simps lang_class_seq mem_Collect_eq)
qed

declare at_least.simps [simp del]

end
