(* ===== verification/Prompt_Store.thy ===== *)
theory Prompt_Store
  imports Config Patterns
begin

section \<open>The prompt store\<close>

text \<open>
  \<^verbatim>\<open>agents/prompt_store.py\<close>: prompts are read from \<^verbatim>\<open>prompts/agents/<agent-id>/<version>.md\<close>,
  checked against a recorded hash, for the required sections and for embedded secrets. The file
  system is the argument \<open>tree\<close>: what is found at the resolved path of an agent's version. The
  text is 8-bit characters; \<open>digest\<close> is the hexadecimal SHA-256 of the encoded text.
\<close>

definition REQUIRED_SECTIONS :: "string list" where
  "REQUIRED_SECTIONS = [''## Purpose'', ''## Input Contract'', ''## Output Contract'',
     ''## Instructions'', ''## Tool Permissions'']"

definition value_char :: "char \<Rightarrow> bool" where
  "value_char c \<longleftrightarrow> (let n = (of_char c :: nat) in
     (97 \<le> n \<and> n \<le> 122) \<or> (65 \<le> n \<and> n \<le> 90) \<or> (48 \<le> n \<and> n \<le> 57) \<or> c = CHR ''_'' \<or> c = CHR ''-'')"

definition quote_char :: "char \<Rightarrow> bool" where
  "quote_char c \<longleftrightarrow> c = CHR 0x27 \<or> c = CHR 0x22"

definition SECRET_PATTERN :: pattern where
  "SECRET_PATTERN =
     PSeq (alternatives
       [PSeq (literal_ci ''api'') (PSeq (POpt (PClass (\<lambda>c. c = CHR ''_'' \<or> c = CHR ''-'')))
          (literal_ci ''key'')),
        literal_ci ''token'', literal_ci ''password'', literal_ci ''secret'', literal_ci ''credential''])
     (PSeq (PStar (PClass python_white))
     (PSeq (alternatives [PClass (\<lambda>c. c = CHR '':'' \<or> c = CHR ''=''), literal_ci ''is'', literal_ci ''of''])
     (PSeq (PStar (PClass python_white))
     (PSeq (POpt (PClass quote_char)) (at_least 6 (PClass value_char))))))"

definition dangerous_patterns :: "string list" where
  "dangerous_patterns = [''..'', ''/'', [CHR 0x5C], [CHR 0x00], ''~'']"

definition validate_path_component :: "string \<Rightarrow> error + unit" where
  "validate_path_component component =
     bindE (guardE (component \<noteq> []) (ValueError ''cannot be empty'')) (\<lambda>_.
     bindE (foldE (\<lambda>p _. guardE (\<not> contains_str p component)
        (ValueError ''contains forbidden pattern'')) dangerous_patterns ()) (\<lambda>_.
     guardE (\<not> (prefix ''/'' component \<or> (1 < length component \<and> component ! 1 = CHR '':'')))
        (ValueError ''cannot be an absolute path'')))"

definition validate_sections :: "string \<Rightarrow> error + unit" where
  "validate_sections content =
     (let missing_sections = filter (\<lambda>s. \<not> contains_str s content) REQUIRED_SECTIONS
      in guardE (missing_sections = []) PromptValidationError)"

definition check_secrets :: "string \<Rightarrow> error + unit" where
  "check_secrets content = guardE (\<not> re_search SECRET_PATTERN content) PromptSecretError"

text \<open>
  What \<^verbatim>\<open>resolve\<close>, \<^verbatim>\<open>is_file\<close> and \<^verbatim>\<open>read_text\<close> find: a path that leaves the prompt directory or
  cannot be resolved, no regular file, bytes that are not UTF-8, or the stored text. Reading in
  text mode turns every \<^verbatim>\<open>CR LF\<close> and every \<^verbatim>\<open>CR\<close> into one \<^verbatim>\<open>LF\<close>.
\<close>

datatype prompt_path = Escapes | NoFile | Undecodable | PromptFile string

type_synonym prompt_tree = "string \<Rightarrow> string \<Rightarrow> prompt_path"

fun newlines_after :: "bool \<Rightarrow> string \<Rightarrow> string" where
  "newlines_after after_cr [] = []"
| "newlines_after after_cr (c # cs) =
     (if c = CHR 0x0A \<and> after_cr then newlines_after False cs
      else if c = CHR 0x0D then CHR 0x0A # newlines_after True cs
      else c # newlines_after False cs)"

definition universal_newlines :: "string \<Rightarrow> string" where
  "universal_newlines s = newlines_after False s"

definition load_prompt ::
    "(string \<Rightarrow> string) \<Rightarrow> prompt_tree \<Rightarrow> string \<Rightarrow> string \<Rightarrow> string \<Rightarrow> error + string" where
  "load_prompt digest tree agent_id version expected_hash =
     bindE (validate_path_component agent_id) (\<lambda>_.
     bindE (validate_path_component version) (\<lambda>_.
     case tree agent_id version of
       Escapes \<Rightarrow> Inl (ValueError ''Invalid path'')
     | NoFile \<Rightarrow> Inl FileNotFoundError
     | Undecodable \<Rightarrow> Inl (ValueError ''utf-8'')
     | PromptFile stored \<Rightarrow>
         let content = universal_newlines stored; actual_hash = digest content in
         bindE (guardE (actual_hash = expected_hash) PromptIntegrityError) (\<lambda>_.
         bindE (validate_sections content) (\<lambda>_.
         bindE (check_secrets content) (\<lambda>_. Inr content)))))"

subsection \<open>Newlines\<close>

lemma newlines_no_cr: "CHR 0x0D \<notin> set (newlines_after b s)"
  by (induction b s rule: newlines_after.induct) auto

lemma newlines_id: "CHR 0x0D \<notin> set s \<Longrightarrow> newlines_after False s = s"
  by (induction s) auto

lemma universal_newlines_eq_iff: "universal_newlines s = s \<longleftrightarrow> CHR 0x0D \<notin> set s"
  using newlines_no_cr [of False s] newlines_id [of s] by (auto simp: universal_newlines_def)

subsection \<open>Secrets\<close>

text \<open>The texts the pattern stands for.\<close>

definition secret_text :: "string \<Rightarrow> bool" where
  "secret_text s \<longleftrightarrow> (\<exists>name gap1 link gap2 quote value. s = name @ gap1 @ link @ gap2 @ quote @ value \<and>
     lower_str name \<in> {''apikey'', ''api_key'', ''api-key'', ''token'', ''password'', ''secret'', ''credential''} \<and>
     list_all python_white gap1 \<and> lower_str link \<in> {'':'', ''='', ''is'', ''of''} \<and> list_all python_white gap2 \<and>
     quote \<in> {[], [CHR 0x27], [CHR 0x22]} \<and> 6 \<le> length value \<and> list_all value_char value)"

lemma lang_PSeq_iff: "s \<in> lang (PSeq p q) \<longleftrightarrow> (\<exists>u v. s = u @ v \<and> u \<in> lang p \<and> v \<in> lang q)"
  by auto

lemma lang_PSeq3:
  "s \<in> lang (PSeq p (PSeq q r)) \<longleftrightarrow> (\<exists>u v w. s = u @ v @ w \<and> u \<in> lang p \<and> v \<in> lang q \<and> w \<in> lang r)"
proof
  assume "s \<in> lang (PSeq p (PSeq q r))"
  then show "\<exists>u v w. s = u @ v @ w \<and> u \<in> lang p \<and> v \<in> lang q \<and> w \<in> lang r"
    unfolding lang_PSeq_iff by (elim exE conjE) (rule exI, rule exI, rule exI, rule conjI, simp, simp)
next
  assume "\<exists>u v w. s = u @ v @ w \<and> u \<in> lang p \<and> v \<in> lang q \<and> w \<in> lang r"
  then show "s \<in> lang (PSeq p (PSeq q r))"
    unfolding lang_PSeq_iff by blast
qed

lemma lang_PSeq6:
  "s \<in> lang (PSeq a (PSeq b (PSeq c (PSeq d (PSeq e f))))) \<longleftrightarrow>
     (\<exists>u v w x y z. s = u @ v @ w @ x @ y @ z \<and> u \<in> lang a \<and> v \<in> lang b \<and> w \<in> lang c \<and>
        x \<in> lang d \<and> y \<in> lang e \<and> z \<in> lang f)"
  unfolding lang_PSeq3 [of _ a b] lang_PSeq3 [of _ c d] lang_PSeq_iff [of _ e f]
  by (intro iffI; elim exE conjE; (intro exI conjI; (assumption | simp))?)

lemma lower_char_fixed:
  assumes "\<not> (97 \<le> (of_char d :: nat) \<and> (of_char d :: nat) \<le> 122)"
  shows "lower_char c = d \<longleftrightarrow> c = d \<and> \<not> (65 \<le> (of_char d :: nat) \<and> (of_char d :: nat) \<le> 90)"
proof (cases "65 \<le> (of_char c :: nat) \<and> (of_char c :: nat) \<le> 90")
  case True
  then have "(of_char (lower_char c) :: nat) = of_char c + 32" by (simp add: lower_char_def)
  with True assms have "lower_char c \<noteq> d" by auto
  with True show ?thesis by auto
next
  case False
  then show ?thesis by (auto simp: lower_char_def)
qed

lemma lower_str_append_iff:
  "lower_str s = a @ b \<longleftrightarrow> (\<exists>u v. s = u @ v \<and> lower_str u = a \<and> lower_str v = b)"
  by (auto simp: lower_str_def map_eq_append_conv)

lemma lower_str_single: "lower_str s = [d] \<longleftrightarrow> (\<exists>c. s = [c] \<and> lower_char c = d)"
  by (auto simp: lower_str_def)

lemma separator_lang:
  "(\<exists>u v w. s = u @ v @ w \<and> lower_str u = ''api'' \<and> (v = [] \<or> v = ''_'' \<or> v = ''-'') \<and> lower_str w = ''key'') \<longleftrightarrow>
   lower_str s \<in> {''apikey'', ''api_key'', ''api-key''}"
proof -
  have sep: "lower_str v = ''_'' \<longleftrightarrow> v = ''_''" "lower_str v = ''-'' \<longleftrightarrow> v = ''-''" "lower_str v = [] \<longleftrightarrow> v = []" for v
    by (auto simp: lower_str_single lower_char_fixed) (auto simp: lower_str_def)
  have "lower_str s = ''api'' @ m @ ''key'' \<longleftrightarrow>
      (\<exists>u v w. s = u @ v @ w \<and> lower_str u = ''api'' \<and> lower_str v = m \<and> lower_str w = ''key'')" for m
    unfolding lower_str_append_iff by blast
  moreover have "lower_str s \<in> {''apikey'', ''api_key'', ''api-key''} \<longleftrightarrow>
      (\<exists>m \<in> {[], ''_'', ''-''}. lower_str s = ''api'' @ m @ ''key'')" by simp
  ultimately have "lower_str s \<in> {''apikey'', ''api_key'', ''api-key''} \<longleftrightarrow>
      (\<exists>m \<in> {[], ''_'', ''-''}. \<exists>u v w. s = u @ v @ w \<and> lower_str u = ''api'' \<and> lower_str v = m \<and> lower_str w = ''key'')"
    by simp
  then show ?thesis by (simp only: bex_simps sep) blast
qed

lemma link_lang:
  "s \<in> lang (alternatives [PClass (\<lambda>c. c = CHR '':'' \<or> c = CHR ''=''), literal_ci ''is'', literal_ci ''of'']) \<longleftrightarrow>
   lower_str s \<in> {'':'', ''='', ''is'', ''of''}"
  by (auto simp: lower_str_single lower_char_fixed)

lemma name_lang:
  "s \<in> lang (alternatives
       [PSeq (literal_ci ''api'') (PSeq (POpt (PClass (\<lambda>c. c = CHR ''_'' \<or> c = CHR ''-'')))
          (literal_ci ''key'')),
        literal_ci ''token'', literal_ci ''password'', literal_ci ''secret'', literal_ci ''credential'']) \<longleftrightarrow>
   lower_str s \<in> {''apikey'', ''api_key'', ''api-key'', ''token'', ''password'', ''secret'', ''credential''}"
proof -
  have mid: "v \<in> lang (POpt (PClass (\<lambda>c. c = CHR ''_'' \<or> c = CHR ''-''))) \<longleftrightarrow>
      v = [] \<or> v = ''_'' \<or> v = ''-''" for v by auto
  have "s \<in> lang (PSeq (literal_ci ''api'') (PSeq (POpt (PClass (\<lambda>c. c = CHR ''_'' \<or> c = CHR ''-'')))
      (literal_ci ''key''))) \<longleftrightarrow> lower_str s \<in> {''apikey'', ''api_key'', ''api-key''}"
    unfolding separator_lang [symmetric] lang_PSeq3 lang_literal_ci mid mem_Collect_eq ..
  then show ?thesis by (simp del: lang.simps(4))
qed

lemma secret_pattern_lang: "s \<in> lang SECRET_PATTERN \<longleftrightarrow> secret_text s"
proof -
  have quote: "q \<in> lang (POpt (PClass quote_char)) \<longleftrightarrow> q \<in> {[], [CHR 0x27], [CHR 0x22]}" for q
    by (auto simp: quote_char_def)
  show ?thesis
    unfolding SECRET_PATTERN_def secret_text_def lang_PSeq6 name_lang link_lang quote
      lang_star_class lang_at_least_class mem_Collect_eq ..
qed

subsection \<open>Loading\<close>

definition safe_component :: "string \<Rightarrow> bool" where
  "safe_component c \<longleftrightarrow> c \<noteq> [] \<and> \<not> contains_str ''..'' c \<and>
     set c \<inter> {CHR ''/'', CHR 0x5C, CHR 0x00, CHR ''~''} = {} \<and> \<not> (\<exists>d rest. c = d # CHR '':'' # rest)"

lemma contains_single: "contains_str [x] s \<longleftrightarrow> x \<in> set s"
  by (induction s) auto

lemma validate_path_component_iff: "validate_path_component c = Inr u \<longleftrightarrow> safe_component c"
proof -
  have "(1 < length c \<and> c ! 1 = CHR '':'') \<longleftrightarrow> (\<exists>d rest. c = d # CHR '':'' # rest)"
    by (cases c rule: remdups_adj.cases) auto
  moreover have "prefix ''/'' c \<Longrightarrow> CHR ''/'' \<in> set c" by (cases c) auto
  ultimately show ?thesis
    by (auto simp: validate_path_component_def bindE_eq_Inr foldE_checks dangerous_patterns_def
        contains_single safe_component_def)
qed

lemma validate_path_component_error:
  "validate_path_component c = Inl err \<Longrightarrow> \<exists>m. err = ValueError m"
  by (auto simp: validate_path_component_def bindE_eq_Inl dangerous_patterns_def)

text \<open>
  C14: a prompt reaches an agent exactly when it is the prompt that was recorded. Loading returns a
  text exactly when agent id and version are single safe path components, the file exists inside
  the prompt directory, its text hashes to the recorded hash, contains every required section
  and contains no secret: no substring that names an API key, token, password, secret or
  credential and gives it a value of six or more characters.
\<close>

theorem only_recorded_prompts_load:
  "load_prompt digest tree agent_id version expected_hash = Inr content \<longleftrightarrow>
     safe_component agent_id \<and> safe_component version \<and>
     (\<exists>stored. tree agent_id version = PromptFile stored \<and> content = universal_newlines stored) \<and>
     digest content = expected_hash \<and>
     (\<forall>section \<in> {''## Purpose'', ''## Input Contract'', ''## Output Contract'', ''## Instructions'',
        ''## Tool Permissions''}. \<exists>before after. content = before @ section @ after) \<and>
     (\<nexists>before text after. content = before @ text @ after \<and> secret_text text)"
proof -
  have comp: "validate_path_component c = (if safe_component c then Inr ()
      else validate_path_component c)" for c
    using validate_path_component_iff [of c "()"] by simp
  have sections: "validate_sections content = Inr () \<longleftrightarrow>
      (\<forall>section \<in> {''## Purpose'', ''## Input Contract'', ''## Output Contract'', ''## Instructions'',
        ''## Tool Permissions''}. \<exists>before after. content = before @ section @ after)"
    by (auto simp: validate_sections_def REQUIRED_SECTIONS_def contains_str_iff filter_empty_conv)
  have secrets: "check_secrets content = Inr () \<longleftrightarrow>
      (\<nexists>before text after. content = before @ text @ after \<and> secret_text text)"
    by (simp add: check_secrets_def re_search_iff secret_pattern_lang)
  have "load_prompt digest tree agent_id version expected_hash = Inr content \<longleftrightarrow>
      validate_path_component agent_id = Inr () \<and> validate_path_component version = Inr () \<and>
      (\<exists>stored. tree agent_id version = PromptFile stored \<and> content = universal_newlines stored) \<and>
      digest content = expected_hash \<and> validate_sections content = Inr () \<and> check_secrets content = Inr ()"
    by (auto simp: load_prompt_def bindE_eq_Inr Let_def split: prompt_path.splits)
  then show ?thesis unfolding sections secrets validate_path_component_iff .
qed

lemma loaded_digest:
  "load_prompt digest tree agent_id version expected_hash = Inr content \<Longrightarrow> digest content = expected_hash"
  by (auto simp: load_prompt_def bindE_eq_Inr Let_def split: prompt_path.splits)

definition example_prompt :: string where
  "example_prompt = ''## Purpose'' @ ''## Input Contract'' @ ''## Output Contract'' @ ''## Instructions'' @
     ''## Tool Permissions''"

lemma secret_names_itself:
  assumes "secret_text s"
  shows "\<exists>name \<in> {''key'', ''token'', ''password'', ''secret'', ''credential''}. contains_str name (lower_str (a @ s @ b))"
proof -
  from assms obtain name rest where s: "s = name @ rest" and name: "lower_str name \<in>
      {''apikey'', ''api_key'', ''api-key'', ''token'', ''password'', ''secret'', ''credential''}"
    unfolding secret_text_def by blast
  have low: "lower_str (a @ s @ b) = lower_str a @ lower_str name @ lower_str rest @ lower_str b"
    by (simp add: s lower_str_def)
  have "\<exists>key \<in> {''key'', ''token'', ''password'', ''secret'', ''credential''}. contains_str key (lower_str name)"
    using name by auto
  then show ?thesis unfolding low by (metis append.assoc contains_str_append)
qed

lemma example_prompt_loads:
  assumes "safe_component a"
  shows "load_prompt digest (\<lambda>a v. PromptFile example_prompt) a ''v1'' (digest example_prompt) = Inr example_prompt"
proof -
  have "list_all (\<lambda>name. \<not> contains_str name (lower_str example_prompt))
      [''key'', ''token'', ''password'', ''secret'', ''credential'']" by code_simp
  then have "name \<in> {''key'', ''token'', ''password'', ''secret'', ''credential''} \<Longrightarrow>
      \<not> contains_str name (lower_str example_prompt)" for name by auto
  then have "check_secrets example_prompt = Inr ()"
    unfolding check_secrets_def re_search_iff secret_pattern_lang guardE_eq_Inr
    using secret_names_itself by metis
  moreover have "validate_sections example_prompt = Inr ()"
    by code_simp
  moreover have "universal_newlines example_prompt = example_prompt"
    unfolding universal_newlines_eq_iff by (simp add: example_prompt_def)
  moreover have "safe_component ''v1''" by (auto simp: safe_component_def)
  with assms have "validate_path_component a = Inr ()" "validate_path_component ''v1'' = Inr ()"
    unfolding validate_path_component_iff .
  ultimately show ?thesis by (simp add: load_prompt_def)
qed

lemma safe_agent: "safe_component ''A01''"
  by (auto simp: safe_component_def)

theorem only_recorded_prompts_load_witness:
  "load_prompt (\<lambda>s. ''h'') (\<lambda>a v. PromptFile example_prompt) ''A01'' ''v1'' ''h'' = Inr example_prompt \<and>
   (\<exists>before after. example_prompt = before @ ''## Instructions'' @ after)"
  using example_prompt_loads [OF safe_agent, of "\<lambda>s. ''h''"]
    only_recorded_prompts_load [of "\<lambda>s. ''h''" "\<lambda>a v. PromptFile example_prompt" "''A01''" "''v1''" "''h''" example_prompt]
  by blast

end
