(* ===== verification/Agent_Runtime.thy ===== *)
theory Agent_Runtime
  imports Tools Prompt_Store "HOL-Library.List_Lexorder" "HOL-Library.Char_ord"
begin

section \<open>Agents and their runner\<close>

text \<open>
  \<^verbatim>\<open>agents/base.py\<close>, \<^verbatim>\<open>agents/registry.py\<close>, \<^verbatim>\<open>agents/runtime.py\<close>, \<^verbatim>\<open>observability/agent_runs.py\<close>, the
  two agent implementations of \<^verbatim>\<open>agents/implementations/\<close> the worker can run, and the tables of
  agent definitions, prompt versions and runs. The runner checks commissioning, the recorded
  definition and the prompt before it calls the agent, and stores one run for every call that
  returns. Structured logs and telemetry are left out: the code suppresses their failures. The
  clock and the fresh run id are arguments, as is \<open>str_error\<close>, Python's text of an exception.
\<close>

subsection \<open>Definitions and registry\<close>

record agent_definition =
  ad_agent_id :: string
  ad_name :: string
  ad_contract_version :: int
  ad_system_prompt_reference :: string
  ad_input_contracts :: "string list"
  ad_output_contracts :: "string list"
  ad_allowed_tools :: "string list"
  ad_default_side_effect_class :: string
  ad_timeout_seconds :: int
  ad_commissioning_state :: commissioning_state
  ad_commissioning_evidence :: "string list"
  ad_database_id :: "uuid option"

definition EXECUTABLE_COMMISSIONING_STATES :: "commissioning_state set" where
  "EXECUTABLE_COMMISSIONING_STATES = {C_TESTED, C_COMMISSIONED}"

definition definition_from_config :: "agent_config \<Rightarrow> uuid option \<Rightarrow> agent_definition" where
  "definition_from_config config database_id =
     \<lparr>ad_agent_id = ac_agent_id config, ad_name = ac_name config,
      ad_contract_version = ac_contract_version config,
      ad_system_prompt_reference = ac_system_prompt_reference config,
      ad_input_contracts = ac_input_contracts config, ad_output_contracts = ac_output_contracts config,
      ad_allowed_tools = ac_allowed_tools config,
      ad_default_side_effect_class = side_effect_value (ac_default_side_effect_class config),
      ad_timeout_seconds = ac_timeout_seconds config,
      ad_commissioning_state = ac_commissioning_state config,
      ad_commissioning_evidence = ac_commissioning_evidence config, ad_database_id = database_id\<rparr>"

definition allows_production_execution :: "agent_definition \<Rightarrow> bool" where
  "allows_production_execution a \<longleftrightarrow> ad_commissioning_state a \<in> EXECUTABLE_COMMISSIONING_STATES"

definition assert_production_executable :: "agent_definition \<Rightarrow> error + unit" where
  "assert_production_executable a = guardE (allows_production_execution a) AgentNotCommissionedError"

definition assert_agent_may_execute :: "agent_definition \<Rightarrow> bool \<Rightarrow> error + unit" where
  "assert_agent_may_execute a production =
     (if \<not> production then Inr () else assert_production_executable a)"

definition parse_system_prompt_reference :: "string \<Rightarrow> error + (string \<times> string)" where
  "parse_system_prompt_reference reference =
     bindE (guardE (prefix ''agent://'' reference) AgentRegistryError) (\<lambda>_.
     let parts = split_on (CHR ''/'') (drop 8 reference) in
     bindE (guardE (\<not> (length parts \<noteq> 3 \<or> parts ! 1 \<noteq> ''system'')) AgentRegistryError) (\<lambda>_.
     let agent_id = parts ! 0; version = parts ! 2 in
     bindE (guardE (\<not> (agent_id = [] \<or> version = [])) AgentRegistryError) (\<lambda>_.
     Inr (agent_id, version))))"

type_synonym agent_registry = "(string \<times> agent_definition) list"

definition new_registry :: "agent_registry \<Rightarrow> error + agent_registry" where
  "new_registry agents = bindE (guardE (length agents = 16) AgentRegistryError) (\<lambda>_. Inr agents)"

definition registry_from_config :: "agents_config \<Rightarrow> error + agent_registry" where
  "registry_from_config config = new_registry
     (fold (\<lambda>a. AList.update (ac_agent_id a) (definition_from_config a None)) (agc_agents config) [])"

definition registry_from_yaml :: "agents_config option \<Rightarrow> error + agent_registry" where
  "registry_from_yaml document = bindE (load_yaml_model validate_roster document) registry_from_config"

definition get_definition :: "agent_registry \<Rightarrow> string \<Rightarrow> error + agent_definition" where
  "get_definition registry agent_id = requireE (map_of registry agent_id) AgentRegistryError"

definition roster :: "agent_registry \<Rightarrow> agent_definition list" where
  "roster registry = map snd (sort_key fst registry)"

datatype implementation = ShopOrchestratorAgent | AccountIntegrationAgent

definition get_implementation :: "string \<Rightarrow> error + implementation" where
  "get_implementation agent_id =
     (if agent_id = ''A01'' then Inr ShopOrchestratorAgent
      else if agent_id = ''A02'' then Inr AccountIntegrationAgent
      else Inl AgentNotImplementedError)"

definition validate_tool_allowlists :: "agent_registry \<Rightarrow> string set \<Rightarrow> error + unit" where
  "validate_tool_allowlists registry known =
     foldE (\<lambda>a _. guardE (set (ad_allowed_tools a) \<subseteq> known) AgentRegistryError) (roster registry) ()"

subsection \<open>Execution context\<close>

record agent_context =
  cx_job :: job_envelope
  cx_definition :: agent_definition
  cx_run_id :: uuid
  cx_prompt_text :: string
  cx_prompt_reference :: string
  cx_prompt_sha256 :: string
  cx_prompt_version :: int
  cx_run_at :: time
  cx_tool_registry :: "tool_registry option"
  cx_review_coordinator :: "json review_coordinator option"

definition invoke_tool :: "agent_context \<Rightarrow> string \<Rightarrow> json_object \<Rightarrow> error + json_object" where
  "invoke_tool context tool_id kwargs =
     bindE (requireE (cx_tool_registry context) AgentRuntimeError) (\<lambda>registry.
     invoke registry (ad_allowed_tools (cx_definition context)) (ad_agent_id (cx_definition context))
       tool_id kwargs)"

definition context_request_review ::
    "(review_request \<Rightarrow> error + json llm_response) \<Rightarrow> agent_context \<Rightarrow> review_request \<Rightarrow>
     error + (json review_artifact \<times> json review_coordinator)" where
  "context_request_review provider context request =
     bindE (requireE (cx_review_coordinator context) AgentRuntimeError) (request_review provider request)"

definition context_invoke_review_tool ::
    "agent_context \<Rightarrow> string \<Rightarrow> json_object \<Rightarrow> error + json_object" where
  "context_invoke_review_tool context tool_id kwargs =
     bindE (requireE (cx_review_coordinator context) AgentRuntimeError) (\<lambda>c.
     invoke_review_tool c tool_id kwargs)"

subsection \<open>A01 and A02\<close>

text \<open>The terminal \<^verbatim>\<open>AgentResult\<close> both agents build from their output.\<close>

definition success_result :: "string \<Rightarrow> agent_context \<Rightarrow> json_object \<Rightarrow> error + agent_result" where
  "success_result agent_id context out = validate_terminal_result
     \<lparr>rs_job_id = je_job_id (cx_job context), rs_agent_run_id = cx_run_id context, rs_agent_id = agent_id,
      rs_agent_definition_version = ad_contract_version (cx_definition context),
      rs_prompt_reference = strip_str (cx_prompt_reference context), rs_prompt_sha256 = cx_prompt_sha256 context,
      rs_status = R_SUCCESS, rs_output = out, rs_artifacts = [], rs_evidence = [],
      rs_emitted_events = [], rs_effects = [], rs_error = None\<rparr>"

definition shop_orchestrator :: "agent_context \<Rightarrow> error + agent_result" where
  "shop_orchestrator context =
     (let job = cx_job context; job_type = je_job_type job in
      bindE
       (if job_type = ''BootstrapRecordsJob'' then
          bindE (invoke_tool context ''configuration.read'' [(''scope'', JStr ''shop'')]) (\<lambda>_.
          bindE (invoke_tool context ''database.read'' [(''table'', JStr ''integration_accounts'')]) (\<lambda>_.
          bindE (invoke_tool context ''job.create''
            [(''job_type'', JStr ''ProductBuildJob''), (''owner_agent_id'', JStr ''A07'')]) (\<lambda>successor.
          Inr [(''initial_workflows_created'', JInt 3), (''successor_job'', JObj successor)])))
        else if job_type = ''ScheduleConfigurationJob'' then
          bindE (invoke_tool context ''database.write_orchestration''
            [(''table'', JStr ''scheduled_triggers'')]) (\<lambda>_.
          Inr [(''schedule_utc'', JStr ''0 9 * * 1''), (''timezone'', JStr ''UTC'')])
        else if job_type = ''BuildSlotJob'' then
          bindE (invoke_tool context ''workflow.inspect''
            [(''workflow_id'', JStr (str_uuid (je_workflow_id job)))]) (\<lambda>workflow.
          Inr [(''decision'', JStr ''SLOT_DEFERRED''), (''workflow'', JObj workflow)])
        else
          bindE (invoke_tool context ''workflow.inspect''
            [(''workflow_id'', JStr (str_uuid (je_workflow_id job)))]) (\<lambda>_.
          Inr [(''routed'', JBool True), (''job_type'', JStr job_type)]))
       (success_result ''A01'' context))"

definition account_integration :: "agent_context \<Rightarrow> error + agent_result" where
  "account_integration context =
     (let job = cx_job context; job_type = je_job_type job in
      bindE
       (if job_type = ''ProvisioningCheckJob'' then
          bindE (invoke_tool context ''provider.check_openai'' []) (\<lambda>openai.
          bindE (invoke_tool context ''provider.check_notion'' []) (\<lambda>notion.
          bindE (invoke_tool context ''provider.check_etsy'' []) (\<lambda>etsy.
          Inr [(''readiness'', JStr ''READY''), (''providers'', JObj
            [(''openai'', JObj openai), (''notion'', JObj notion), (''etsy'', JObj etsy)])])))
        else if job_type = ''EnvironmentAuditJob'' then
          bindE (invoke_tool context ''configuration.read'' [(''scope'', JStr ''environment'')]) (\<lambda>_.
          Inr [(''audit_status'', JStr ''PASS''), (''clients_checked'', JList [JStr ''node'', JStr ''python''])])
        else if job_type = ''WorkspaceProvisioningJob'' then
          bindE (invoke_tool context ''provider.provision_workspace'' [(''provider'', JStr ''notion'')]) (\<lambda>workspace.
          bindE (invoke_tool context ''database.write_accounts''
            [(''provider'', JStr ''notion''), (''status'', JStr ''PENDING'')]) (\<lambda>_.
          Inr [(''workspace'', JObj workspace), (''status'', JStr ''PENDING'')]))
        else if job_type = ''ShopProvisioningJob'' then
          bindE (invoke_tool context ''provider.check_etsy'' []) (\<lambda>etsy.
          bindE (invoke_tool context ''database.write_accounts''
            [(''provider'', JStr ''etsy''), (''status'', JStr ''READY'')]) (\<lambda>_.
          Inr [(''etsy'', JObj etsy), (''status'', JStr ''READY'')]))
        else
          bindE (invoke_tool context ''incident.create''
            [(''incident_type'', JStr ''CREDENTIAL_MISSING''), (''severity'', JStr ''BLOCKING'')]) (\<lambda>incident.
          Inr [(''incident'', JObj incident), (''job_type'', JStr job_type)]))
       (success_result ''A02'' context))"

fun run_implementation :: "implementation \<Rightarrow> agent_context \<Rightarrow> error + agent_result" where
  "run_implementation ShopOrchestratorAgent = shop_orchestrator"
| "run_implementation AccountIntegrationAgent = account_integration"

subsection \<open>Prompt references\<close>

lemma split_on_free: "x \<in> set (split_on c s) \<Longrightarrow> c \<notin> set x"
proof (induction s arbitrary: x)
  case Nil
  then show ?case by simp
next
  case (Cons y ys)
  obtain z zs where z: "split_on c ys = z # zs" by (metis neq_Nil_conv split_on_nonempty)
  with Cons show ?case by (auto split: if_splits)
qed

lemma split_on_three:
  "split_on c s = [x, y, z] \<longleftrightarrow> s = x @ c # y @ c # z \<and> c \<notin> set x \<and> c \<notin> set y \<and> c \<notin> set z"
proof
  assume split: "split_on c s = [x, y, z]"
  then have "s = join_with [c] [x, y, z]" by (metis join_split_on)
  moreover have "c \<notin> set x" "c \<notin> set y" "c \<notin> set z" using split_on_free [of _ c s] split by auto
  ultimately show "s = x @ c # y @ c # z \<and> c \<notin> set x \<and> c \<notin> set y \<and> c \<notin> set z" by simp
next
  assume "s = x @ c # y @ c # z \<and> c \<notin> set x \<and> c \<notin> set y \<and> c \<notin> set z"
  then show "split_on c s = [x, y, z]" by (simp add: split_on_append split_on_plain)
qed

lemma parse_reference_parts:
  "parse_system_prompt_reference reference = Inr (agent_id, version) \<longleftrightarrow>
     prefix ''agent://'' reference \<and> split_on (CHR ''/'') (drop 8 reference) = [agent_id, ''system'', version] \<and>
     agent_id \<noteq> [] \<and> version \<noteq> []"
  by (auto simp: parse_system_prompt_reference_def bindE_eq_Inr Let_def length_Suc_conv eval_nat_numeral)

lemma parsed_reference:
  assumes "parse_system_prompt_reference reference = Inr (agent_id, version)"
  shows "reference = ''agent://'' @ agent_id @ ''/system/'' @ version"
  using assms by (auto simp: parse_reference_parts split_on_three prefix_def)

lemma parse_written:
  assumes "agent_id \<noteq> []" and "version \<noteq> []" and "CHR ''/'' \<notin> set agent_id" and "CHR ''/'' \<notin> set version"
  shows "parse_system_prompt_reference (''agent://'' @ agent_id @ ''/system/'' @ version) = Inr (agent_id, version)"
proof -
  have "drop 8 (''agent://'' @ agent_id @ ''/system/'' @ version) =
      agent_id @ CHR ''/'' # ''system'' @ CHR ''/'' # version" by simp
  moreover have "split_on (CHR ''/'') (agent_id @ CHR ''/'' # ''system'' @ CHR ''/'' # version) =
      [agent_id, ''system'', version]"
    unfolding split_on_three using assms by simp
  ultimately show ?thesis using assms(1,2) unfolding parse_reference_parts by (simp add: prefix_def)
qed

text \<open>
  Parsing a prompt reference is the inverse of writing it: the parser accepts exactly the
  references \<^verbatim>\<open>agent://<agent>/system/<version>\<close> with a non-empty agent id and version that hold
  no slash, and returns the two parts.
\<close>

theorem prompt_reference_round_trip:
  "parse_system_prompt_reference reference = Inr (agent_id, version) \<longleftrightarrow>
     reference = ''agent://'' @ agent_id @ ''/system/'' @ version \<and> agent_id \<noteq> [] \<and> version \<noteq> [] \<and>
     CHR ''/'' \<notin> set agent_id \<and> CHR ''/'' \<notin> set version"
proof
  assume p: "parse_system_prompt_reference reference = Inr (agent_id, version)"
  then have "split_on (CHR ''/'') (drop 8 reference) = [agent_id, ''system'', version]" "agent_id \<noteq> []" "version \<noteq> []"
    by (simp_all add: parse_reference_parts)
  with parsed_reference [OF p] show "reference = ''agent://'' @ agent_id @ ''/system/'' @ version \<and> agent_id \<noteq> [] \<and>
      version \<noteq> [] \<and> CHR ''/'' \<notin> set agent_id \<and> CHR ''/'' \<notin> set version"
    by (simp only: split_on_three) simp
next
  assume "reference = ''agent://'' @ agent_id @ ''/system/'' @ version \<and> agent_id \<noteq> [] \<and> version \<noteq> [] \<and>
     CHR ''/'' \<notin> set agent_id \<and> CHR ''/'' \<notin> set version"
  then show "parse_system_prompt_reference reference = Inr (agent_id, version)" using parse_written by blast
qed

end
