(* ===== verification/Agent_Runner.thy ===== *)
theory Agent_Runner
  imports Agent_Runtime Job_Contract
begin

section \<open>The agent runner and its receipts\<close>

text \<open>
  \<^verbatim>\<open>AgentRunner\<close> of \<^verbatim>\<open>agents/runtime.py\<close> with the observer of \<^verbatim>\<open>observability/agent_runs.py\<close>, the
  repositories of \<^verbatim>\<open>persistence/repositories/agents.py\<close> and the tables \<^verbatim>\<open>agent_definitions\<close>,
  \<^verbatim>\<open>prompt_versions\<close> and \<^verbatim>\<open>agent_runs\<close>. The three tables are the record \<open>agent_store\<close> beside the
  orchestrator's database.
\<close>

subsection \<open>Tables\<close>

record agent_definition_row =
  dr_id :: uuid
  dr_agent_id :: string
  dr_name :: string
  dr_implementation_version :: int
  dr_contract_version :: int
  dr_timeout_seconds :: int
  dr_commissioning_state :: commissioning_state
  dr_commissioning_evidence :: "json list"

record prompt_version_row =
  pv_id :: uuid
  pv_prompt_reference :: string
  pv_version :: int
  pv_sha256 :: string
  pv_source_path :: string

record agent_run =
  ag_id :: uuid
  ag_job_id :: uuid
  ag_agent_definition_id :: uuid
  ag_agent_id :: string
  ag_agent_definition_version :: int
  ag_prompt_version_id :: uuid
  ag_prompt_reference :: string
  ag_prompt_sha256 :: string
  ag_run_number :: int
  ag_model :: "string option"
  ag_input_hash :: "string option"
  ag_token_count :: "int option"
  ag_cost_usd :: "rat option"
  ag_status :: agent_run_status
  ag_output :: json_object
  ag_error :: "contract_error option"
  ag_started_at :: time
  ag_completed_at :: time

record agent_store =
  agent_definitions :: "agent_definition_row list"
  prompt_versions :: "prompt_version_row list"
  agent_runs :: "agent_run list"

definition check_agent_run :: "agent_run \<Rightarrow> error + unit" where
  "check_agent_run r = bindE (guardE (fits 3 (ag_agent_id r) \<and> fits 200 (ag_prompt_reference r) \<and>
       fits 64 (ag_prompt_sha256 r) \<and> fits_opt 100 (ag_model r) \<and> fits_opt 64 (ag_input_hash r)) DataError)
     (\<lambda>_. guardE (agent_id_format (ag_agent_id r) \<and> length (ag_prompt_sha256 r) = 64 \<and>
       (ag_status r = R_SUCCESS \<longleftrightarrow> ag_error r = None) \<and> ag_started_at r \<le> ag_completed_at r \<and>
       1 \<le> ag_run_number r \<and> (case ag_input_hash r of None \<Rightarrow> True | Some h \<Rightarrow> length h = 64) \<and>
       (case ag_token_count r of None \<Rightarrow> True | Some n \<Rightarrow> 0 \<le> n) \<and>
       (case ag_cost_usd r of None \<Rightarrow> True | Some c \<Rightarrow> 0 \<le> c)) IntegrityError)"

text \<open>The foreign keys: the job, and the two composite keys that pin the lineage.\<close>

definition insert_agent_run :: "db \<Rightarrow> agent_run \<Rightarrow> agent_store \<Rightarrow> error + agent_store" where
  "insert_agent_run d r s = bindE (check_agent_run r) (\<lambda>_.
     bindE (guardE (ag_id r \<notin> ag_id ` set (agent_runs s) \<and> has_job d (ag_job_id r) \<and>
        (ag_agent_definition_id r, ag_agent_id r, ag_agent_definition_version r) \<in>
          (\<lambda>x. (dr_id x, dr_agent_id x, dr_contract_version x)) ` set (agent_definitions s) \<and>
        (ag_prompt_version_id r, ag_prompt_reference r, ag_prompt_sha256 r) \<in>
          (\<lambda>x. (pv_id x, pv_prompt_reference x, pv_sha256 x)) ` set (prompt_versions s)) IntegrityError)
     (\<lambda>_. Inr (s\<lparr>agent_runs := agent_runs s @ [r]\<rparr>)))"

text \<open>\<^verbatim>\<open>ORDER BY ... DESC LIMIT 1\<close>\<close>

definition by_agent_id :: "agent_store \<Rightarrow> string \<Rightarrow> agent_definition_row option" where
  "by_agent_id s agent_id =
     (case sort_key (\<lambda>r. - dr_contract_version r) (filter (\<lambda>r. dr_agent_id r = agent_id) (agent_definitions s)) of
        [] \<Rightarrow> None | r # _ \<Rightarrow> Some r)"

definition by_reference :: "agent_store \<Rightarrow> string \<Rightarrow> prompt_version_row option" where
  "by_reference s reference =
     (case sort_key (\<lambda>r. - pv_version r) (filter (\<lambda>r. pv_prompt_reference r = reference) (prompt_versions s)) of
        [] \<Rightarrow> None | r # _ \<Rightarrow> Some r)"

definition runs_for_job :: "agent_store \<Rightarrow> uuid \<Rightarrow> agent_run list" where
  "runs_for_job s job_id = sort_key ag_started_at (filter (\<lambda>r. ag_job_id r = job_id) (agent_runs s))"

subsection \<open>Canonical JSON\<close>

text \<open>
  \<^verbatim>\<open>json.dumps(payload, sort_keys=True, separators=(",", ":"))\<close>: keys sorted, no spaces, and every
  character outside printable ASCII escaped.
\<close>

definition json_char :: "char \<Rightarrow> string" where
  "json_char c = (let n = (of_char c :: nat) in
     if c = CHR 0x22 then [CHR 0x5C, CHR 0x22]
     else if c = CHR 0x5C then [CHR 0x5C, CHR 0x5C]
     else if n = 10 then [CHR 0x5C, CHR ''n'']
     else if n = 13 then [CHR 0x5C, CHR ''r'']
     else if n = 9 then [CHR 0x5C, CHR ''t'']
     else if n = 8 then [CHR 0x5C, CHR ''b'']
     else if n = 12 then [CHR 0x5C, CHR ''f'']
     else if 32 \<le> n \<and> n \<le> 126 then [c]
     else [CHR 0x5C, CHR ''u''] @ hex_string 4 n)"

definition json_text :: "string \<Rightarrow> string" where
  "json_text s = [CHR 0x22] @ concat (map json_char s) @ [CHR 0x22]"

fun json_dumps :: "json \<Rightarrow> string" where
  "json_dumps JNull = ''null''"
| "json_dumps (JBool b) = (if b then ''true'' else ''false'')"
| "json_dumps (JInt n) = str_int n"
| "json_dumps (JStr s) = json_text s"
| "json_dumps (JList vs) = ''['' @ join_with '','' (map json_dumps vs) @ '']''"
| "json_dumps (JObj kvs) = ''{'' @ join_with '',''
     (map (\<lambda>(k, t). json_text k @ '':'' @ t)
       (sort_key fst (map (\<lambda>(k, v). (k, json_dumps v)) kvs))) @ ''}''"

definition hash_payload :: "(string \<Rightarrow> string) \<Rightarrow> json_object \<Rightarrow> string" where
  "hash_payload digest payload = digest (json_dumps (JObj payload))"

subsection \<open>The observer\<close>

record observation_context =
  oc_run_id :: uuid
  oc_job_id :: uuid
  oc_agent_id :: string
  oc_agent_definition_id :: uuid
  oc_agent_definition_version :: int
  oc_prompt_version_id :: uuid
  oc_prompt_reference :: string
  oc_prompt_sha256 :: string
  oc_run_number :: int
  oc_model :: "string option"
  oc_input_hash :: string
  oc_started_at :: time

definition next_run_number :: "agent_store \<Rightarrow> uuid \<Rightarrow> int" where
  "next_run_number s job_id = (case map ag_run_number (runs_for_job s job_id) of
     [] \<Rightarrow> 1 | n # ns \<Rightarrow> fold max ns n + 1)"

definition begin_run ::
    "(string \<Rightarrow> string) \<Rightarrow> uuid \<Rightarrow> time \<Rightarrow> uuid \<Rightarrow> string \<Rightarrow> agent_definition_row \<Rightarrow> prompt_version_row \<Rightarrow>
     int \<Rightarrow> string option \<Rightarrow> json_object \<Rightarrow> observation_context" where
  "begin_run digest fresh now job_id agent_id db_definition prompt_version run_number model input_payload =
     \<lparr>oc_run_id = fresh, oc_job_id = job_id, oc_agent_id = agent_id,
      oc_agent_definition_id = dr_id db_definition,
      oc_agent_definition_version = dr_contract_version db_definition,
      oc_prompt_version_id = pv_id prompt_version, oc_prompt_reference = pv_prompt_reference prompt_version,
      oc_prompt_sha256 = pv_sha256 prompt_version, oc_run_number = run_number, oc_model = model,
      oc_input_hash = hash_payload digest input_payload, oc_started_at = now\<rparr>"

definition finalize_run ::
    "db \<Rightarrow> observation_context \<Rightarrow> agent_run_status \<Rightarrow> json_object \<Rightarrow> contract_error option \<Rightarrow> time \<Rightarrow>
     agent_store \<Rightarrow> error + (agent_run \<times> agent_store)" where
  "finalize_run d c status out err completed_at s =
     (let run = \<lparr>ag_id = oc_run_id c, ag_job_id = oc_job_id c,
          ag_agent_definition_id = oc_agent_definition_id c, ag_agent_id = oc_agent_id c,
          ag_agent_definition_version = oc_agent_definition_version c,
          ag_prompt_version_id = oc_prompt_version_id c, ag_prompt_reference = oc_prompt_reference c,
          ag_prompt_sha256 = oc_prompt_sha256 c, ag_run_number = oc_run_number c, ag_model = oc_model c,
          ag_input_hash = Some (oc_input_hash c), ag_token_count = None, ag_cost_usd = None,
          ag_status = status, ag_output = out, ag_error = err, ag_started_at = oc_started_at c,
          ag_completed_at = completed_at\<rparr>
      in bindE (insert_agent_run d run s) (\<lambda>s. Inr (run, s)))"

subsection \<open>The runner\<close>

record agent_run_receipt =
  rc_run_id :: uuid
  rc_job_id :: uuid
  rc_agent_id :: string
  rc_agent_definition_id :: uuid
  rc_agent_definition_version :: int
  rc_prompt_version_id :: uuid
  rc_prompt_reference :: string
  rc_prompt_sha256 :: string
  rc_status :: agent_run_status
  rc_output :: json_object
  rc_error :: "contract_error option"
  rc_started_at :: time
  rc_completed_at :: time

definition receipt_from_run :: "agent_run \<Rightarrow> contract_error option \<Rightarrow> agent_run_receipt" where
  "receipt_from_run run err =
     \<lparr>rc_run_id = ag_id run, rc_job_id = ag_job_id run, rc_agent_id = ag_agent_id run,
      rc_agent_definition_id = ag_agent_definition_id run,
      rc_agent_definition_version = ag_agent_definition_version run,
      rc_prompt_version_id = ag_prompt_version_id run, rc_prompt_reference = ag_prompt_reference run,
      rc_prompt_sha256 = ag_prompt_sha256 run, rc_status = ag_status run, rc_output = ag_output run,
      rc_error = err, rc_started_at = ag_started_at run, rc_completed_at = ag_completed_at run\<rparr>"

text \<open>
  The runner's collaborators: the registry, the prompt directory and its hash, the provider's
  default model, the tool registry.
\<close>

record agent_runner =
  rn_registry :: agent_registry
  rn_digest :: "string \<Rightarrow> string"
  rn_prompts :: prompt_tree
  rn_model :: "string option"
  rn_tools :: tool_registry

definition load_database_definition ::
    "agent_store \<Rightarrow> agent_definition \<Rightarrow> error + agent_definition_row" where
  "load_database_definition s a =
     bindE (requireE (by_agent_id s (ad_agent_id a)) AgentRegistryError) (\<lambda>row.
     bindE (guardE (dr_contract_version row = ad_contract_version a) AgentRegistryError) (\<lambda>_. Inr row))"

definition load_prompt_version ::
    "agent_store \<Rightarrow> agent_definition \<Rightarrow> error + prompt_version_row" where
  "load_prompt_version s a = requireE (by_reference s (ad_system_prompt_reference a)) AgentRegistryError"

definition make_contract_error :: "string \<Rightarrow> string \<Rightarrow> error + contract_error" where
  "make_contract_error code message =
     bindE (guardE (strip_str code \<noteq> [] \<and> strip_str message \<noteq> []) (ValueError ''field'')) (\<lambda>_.
     Inr \<lparr>ce_code = strip_str code, ce_message = strip_str message, ce_retryable = False,
          ce_blocker_action = None, ce_safe_detail = JObj []\<rparr>)"

text \<open>What the runner has checked before it calls the agent.\<close>

record prepared_run =
  pr_definition :: agent_definition
  pr_db_definition :: agent_definition_row
  pr_prompt_version :: prompt_version_row
  pr_prompt_text :: string

definition prepare :: "agent_runner \<Rightarrow> agent_store \<Rightarrow> job_envelope \<Rightarrow> bool \<Rightarrow> error + prepared_run" where
  "prepare runner s job production =
     bindE (get_definition (rn_registry runner) (je_owner_agent_id job)) (\<lambda>a.
     bindE (if production then assert_production_executable a else Inr ()) (\<lambda>_.
     bindE (load_database_definition s a) (\<lambda>db_definition.
     bindE (load_prompt_version s a) (\<lambda>prompt_version.
     bindE (parse_system_prompt_reference (ad_system_prompt_reference a)) (\<lambda>(prompt_agent_id, label).
     bindE (guardE (prompt_agent_id = ad_agent_id a) AgentRegistryError) (\<lambda>_.
     bindE (load_prompt (rn_digest runner) (rn_prompts runner) prompt_agent_id label (pv_sha256 prompt_version))
       (\<lambda>prompt_text.
     Inr \<lparr>pr_definition = a, pr_db_definition = db_definition, pr_prompt_version = prompt_version,
          pr_prompt_text = prompt_text\<rparr>)))))))"

definition context_for ::
    "agent_runner \<Rightarrow> job_envelope \<Rightarrow> prepared_run \<Rightarrow> uuid \<Rightarrow> time \<Rightarrow> agent_context" where
  "context_for runner job p run_id started_at =
     \<lparr>cx_job = job, cx_definition = pr_definition p, cx_run_id = run_id, cx_prompt_text = pr_prompt_text p,
      cx_prompt_reference = pv_prompt_reference (pr_prompt_version p),
      cx_prompt_sha256 = pv_sha256 (pr_prompt_version p), cx_prompt_version = pv_version (pr_prompt_version p),
      cx_run_at = started_at, cx_tool_registry = Some (rn_tools runner),
      cx_review_coordinator = Some (new_coordinator (ad_agent_id (pr_definition p))
        (ad_allowed_tools (pr_definition p)) (rn_tools runner)
        (bounds_from_definition (ad_timeout_seconds (pr_definition p))))\<rparr>"

definition failure_result :: "job_envelope \<Rightarrow> prepared_run \<Rightarrow> uuid \<Rightarrow> contract_error \<Rightarrow> error + agent_result" where
  "failure_result job p run_id err = validate_terminal_result
     \<lparr>rs_job_id = je_job_id job, rs_agent_run_id = run_id, rs_agent_id = ad_agent_id (pr_definition p),
      rs_agent_definition_version = ad_contract_version (pr_definition p),
      rs_prompt_reference = strip_str (pv_prompt_reference (pr_prompt_version p)),
      rs_prompt_sha256 = pv_sha256 (pr_prompt_version p), rs_status = R_FAILURE, rs_output = [],
      rs_artifacts = [], rs_evidence = [], rs_emitted_events = [], rs_effects = [], rs_error = Some err\<rparr>"

definition execute ::
    "(error \<Rightarrow> string) \<Rightarrow> agent_runner \<Rightarrow> db \<Rightarrow> job_envelope \<Rightarrow> (agent_context \<Rightarrow> error + agent_result) \<Rightarrow>
     bool \<Rightarrow> time option \<Rightarrow> time \<Rightarrow> time \<Rightarrow> uuid \<Rightarrow> agent_store \<Rightarrow>
     error + (agent_result \<times> agent_run_receipt \<times> agent_store)" where
  "execute str_error runner d job agent production run_at now_before now_after fresh s =
     (let started_at = (case run_at of None \<Rightarrow> now_before | Some t \<Rightarrow> t) in
      bindE (prepare runner s job production) (\<lambda>p.
      let observation = begin_run (rn_digest runner) fresh started_at (je_job_id job)
            (ad_agent_id (pr_definition p)) (pr_db_definition p) (pr_prompt_version p)
            (next_run_number s (je_job_id job)) (rn_model runner) (je_input job);
          completed_at = max now_after started_at
      in case agent (context_for runner job p fresh started_at) of
           Inl AgentNotCommissionedError \<Rightarrow> Inl AgentNotCommissionedError
         | Inl err \<Rightarrow>
             bindE (make_contract_error ''AGENT_EXECUTION_FAILED'' (str_error err)) (\<lambda>contract_error.
             bindE (finalize_run d observation R_FAILURE [] (Some contract_error) completed_at s) (\<lambda>(run, s).
             bindE (failure_result job p fresh contract_error) (\<lambda>failure.
             Inr (failure, receipt_from_run run (Some contract_error), s))))
         | Inr result \<Rightarrow>
             bindE (guardE (rs_agent_run_id result = fresh) AgentRegistryError) (\<lambda>_.
             bindE (guardE (rs_job_id result = je_job_id job) AgentRegistryError) (\<lambda>_.
             bindE (finalize_run d observation (rs_status result) (rs_output result) (rs_error result)
                completed_at s) (\<lambda>(run, s).
             Inr (result, receipt_from_run run (rs_error result), s))))))"

subsection \<open>What a run leaves\<close>

lemma fold_max_ge: "n \<le> fold max ns n \<and> (\<forall>m \<in> set ns. m \<le> fold max ns n)" for n :: int
proof (induction ns arbitrary: n)
  case Nil
  then show ?case by simp
next
  case (Cons x xs)
  from Cons [of "max x n"] show ?case by auto
qed

lemma next_run_number_greater:
  assumes "r \<in> set (agent_runs s)" and "ag_job_id r = job_id"
  shows "ag_run_number r < next_run_number s job_id"
proof -
  have r: "ag_run_number r \<in> set (map ag_run_number (runs_for_job s job_id))"
    using assms by (simp add: runs_for_job_def)
  then obtain n ns where ns: "map ag_run_number (runs_for_job s job_id) = n # ns"
    by (metis list.exhaust length_greater_0_conv length_pos_if_in_set list.distinct(1))
  with r fold_max_ge [of n ns] show ?thesis by (auto simp: next_run_number_def)
qed

lemma insert_agent_run_cases:
  assumes "insert_agent_run d r s = Inr s'"
  shows "s' = s\<lparr>agent_runs := agent_runs s @ [r]\<rparr> \<and> has_job d (ag_job_id r) \<and>
     (ag_error r = None \<longleftrightarrow> ag_status r = R_SUCCESS) \<and> ag_started_at r \<le> ag_completed_at r \<and>
     ag_id r \<notin> ag_id ` set (agent_runs s)"
  using assms by (auto simp: insert_agent_run_def check_agent_run_def bindE_eq_Inr)

lemma prepare_cases:
  assumes "prepare runner s job production = Inr p"
  obtains version where "get_definition (rn_registry runner) (je_owner_agent_id job) = Inr (pr_definition p)"
    and "production \<Longrightarrow> allows_production_execution (pr_definition p)"
    and "by_agent_id s (ad_agent_id (pr_definition p)) = Some (pr_db_definition p)"
    and "dr_contract_version (pr_db_definition p) = ad_contract_version (pr_definition p)"
    and "by_reference s (ad_system_prompt_reference (pr_definition p)) = Some (pr_prompt_version p)"
    and "parse_system_prompt_reference (ad_system_prompt_reference (pr_definition p)) =
      Inr (ad_agent_id (pr_definition p), version)"
    and "load_prompt (rn_digest runner) (rn_prompts runner) (ad_agent_id (pr_definition p)) version
      (pv_sha256 (pr_prompt_version p)) = Inr (pr_prompt_text p)"
  using assms
  by (auto simp: prepare_def load_database_definition_def load_prompt_version_def bindE_eq_Inr
      assert_production_executable_def split: if_splits)

definition observe :: "agent_runner \<Rightarrow> agent_store \<Rightarrow> job_envelope \<Rightarrow> prepared_run \<Rightarrow> uuid \<Rightarrow> time \<Rightarrow> observation_context" where
  "observe runner s job p fresh started_at = begin_run (rn_digest runner) fresh started_at (je_job_id job)
     (ad_agent_id (pr_definition p)) (pr_db_definition p) (pr_prompt_version p)
     (next_run_number s (je_job_id job)) (rn_model runner) (je_input job)"

definition started :: "time option \<Rightarrow> time \<Rightarrow> time" where
  "started run_at now = (case run_at of None \<Rightarrow> now | Some t \<Rightarrow> t)"

lemma execute_raised:
  assumes "prepare runner s job production = Inr p" and "err \<noteq> AgentNotCommissionedError"
    and "agent (context_for runner job p fresh (started run_at t0)) = Inl err"
  shows "execute str_error runner d job agent production run_at t0 t1 fresh s =
     bindE (make_contract_error ''AGENT_EXECUTION_FAILED'' (str_error err)) (\<lambda>contract_error.
     bindE (finalize_run d (observe runner s job p fresh (started run_at t0)) R_FAILURE [] (Some contract_error)
        (max t1 (started run_at t0)) s) (\<lambda>(run, s).
     bindE (failure_result job p fresh contract_error) (\<lambda>failure.
     Inr (failure, receipt_from_run run (Some contract_error), s))))"
  using assms by (cases err) (simp_all add: execute_def started_def observe_def Let_def)

lemma execute_returned:
  assumes "prepare runner s job production = Inr p"
    and "agent (context_for runner job p fresh (started run_at t0)) = Inr result"
  shows "execute str_error runner d job agent production run_at t0 t1 fresh s =
     bindE (guardE (rs_agent_run_id result = fresh) AgentRegistryError) (\<lambda>_.
     bindE (guardE (rs_job_id result = je_job_id job) AgentRegistryError) (\<lambda>_.
     bindE (finalize_run d (observe runner s job p fresh (started run_at t0)) (rs_status result)
        (rs_output result) (rs_error result) (max t1 (started run_at t0)) s) (\<lambda>(run, s).
     Inr (result, receipt_from_run run (rs_error result), s))))"
  using assms by (simp add: execute_def started_def observe_def Let_def)

lemma finalize_run_cases:
  assumes "finalize_run d (observe runner s job p fresh t) status out err completed s = Inr (run, s')"
  shows "insert_agent_run d run s = Inr s' \<and> s' = s\<lparr>agent_runs := agent_runs s @ [run]\<rparr> \<and>
     ag_id run = fresh \<and> ag_job_id run = je_job_id job \<and> ag_status run = status \<and> ag_output run = out \<and>
     ag_error run = err \<and> ag_agent_id run = ad_agent_id (pr_definition p) \<and>
     ag_agent_definition_id run = dr_id (pr_db_definition p) \<and>
     ag_agent_definition_version run = dr_contract_version (pr_db_definition p) \<and>
     ag_prompt_sha256 run = pv_sha256 (pr_prompt_version p) \<and>
     ag_run_number run = next_run_number s (je_job_id job)"
  using assms insert_agent_run_cases
  by (fastforce simp: finalize_run_def observe_def begin_run_def Let_def bindE_eq_Inr)

lemma failure_result_cases:
  "failure_result job p fresh err = Inr r \<Longrightarrow> rs_job_id r = je_job_id job \<and> rs_agent_run_id r = fresh \<and>
     rs_status r = R_FAILURE \<and> rs_output r = [] \<and> rs_error r = Some err \<and> rs_emitted_events r = []"
  by (auto simp: failure_result_def validate_terminal_result_def bindE_eq_Inr)

lemma execute_cases:
  assumes "execute str_error runner d job agent production run_at t0 t1 fresh s = Inr (result, receipt, s')"
  obtains p run where "prepare runner s job production = Inr p"
    and "s' = s\<lparr>agent_runs := agent_runs s @ [run]\<rparr>" and "insert_agent_run d run s = Inr s'"
    and "receipt = receipt_from_run run (rs_error result)"
    and "ag_id run = fresh" and "ag_job_id run = je_job_id job" and "rs_agent_run_id result = fresh"
    and "rs_job_id result = je_job_id job" and "ag_status run = rs_status result"
    and "ag_output run = rs_output result" and "ag_error run = rs_error result"
    and "ag_agent_id run = ad_agent_id (pr_definition p)"
    and "ag_agent_definition_id run = dr_id (pr_db_definition p)"
    and "ag_agent_definition_version run = dr_contract_version (pr_db_definition p)"
    and "ag_prompt_sha256 run = pv_sha256 (pr_prompt_version p)"
    and "ag_run_number run = next_run_number s (je_job_id job)"
proof -
  from assms obtain p where p: "prepare runner s job production = Inr p"
    by (auto simp: execute_def bindE_eq_Inr Let_def)
  show thesis
  proof (cases "agent (context_for runner job p fresh (started run_at t0))")
    case (Inl err)
    show thesis
    proof (cases "err = AgentNotCommissionedError")
      case True
      with Inl assms p show thesis by (simp add: execute_def started_def)
    next
      case False
      from assms obtain ce run where
        fin: "finalize_run d (observe runner s job p fresh (started run_at t0)) R_FAILURE [] (Some ce)
          (max t1 (started run_at t0)) s = Inr (run, s')"
        and res: "failure_result job p fresh ce = Inr result" "receipt = receipt_from_run run (Some ce)"
        unfolding execute_raised [where agent = agent, OF p False Inl] by (auto simp: bindE_eq_Inr)
      show thesis
        using that [OF p] finalize_run_cases [OF fin] failure_result_cases [OF res(1)] res(2) by simp
    qed
  next
    case (Inr r)
    from assms obtain run where
      fin: "finalize_run d (observe runner s job p fresh (started run_at t0)) (rs_status r) (rs_output r)
        (rs_error r) (max t1 (started run_at t0)) s = Inr (run, s')"
      and res: "r = result" "rs_agent_run_id r = fresh" "rs_job_id r = je_job_id job"
        "receipt = receipt_from_run run (rs_error r)"
      unfolding execute_returned [where agent = agent, OF p Inr] by (auto simp: bindE_eq_Inr)
    show thesis using that [OF p] finalize_run_cases [OF fin] res by simp
  qed
qed

lemma execute_result:
  assumes "execute str_error runner d job agent production run_at t0 t1 fresh s = Inr (result, receipt, s')"
  shows "(\<exists>c. agent c = Inr result) \<or> rs_status result = R_FAILURE \<and> rs_emitted_events result = []"
proof -
  from assms obtain p where p: "prepare runner s job production = Inr p"
    by (auto simp: execute_def bindE_eq_Inr Let_def)
  show ?thesis
  proof (cases "agent (context_for runner job p fresh (started run_at t0))")
    case (Inl err)
    show ?thesis
    proof (cases "err = AgentNotCommissionedError")
      case True
      with Inl assms p show ?thesis by (simp add: execute_def started_def)
    next
      case False
      with assms show ?thesis
        unfolding execute_raised [where agent = agent, OF p False Inl]
        by (auto simp: bindE_eq_Inr dest: failure_result_cases)
    qed
  next
    case (Inr r)
    with assms show ?thesis unfolding execute_returned [where agent = agent, OF p Inr] by (auto simp: bindE_eq_Inr)
  qed
qed

text \<open>
  C13: every completed agent run is on record with its lineage. When the runner returns, exactly
  one run has been appended to the store: it names this job, the result's run id, status, output
  and error; its number is above that of every earlier run of the job; it carries an error exactly
  when it is no success; its agent, definition and prompt hash are those the runner checked, the
  text given to the agent hashes to the recorded hash, and in production the agent is TESTED or
  COMMISSIONED. Every other row is unchanged.
\<close>

theorem agent_run_is_recorded:
  assumes "execute str_error runner d job agent production run_at t0 t1 fresh s = Inr (result, receipt, s')"
  shows "\<exists>run a text version. s' = s\<lparr>agent_runs := agent_runs s @ [run]\<rparr> \<and>
     receipt = receipt_from_run run (rs_error result) \<and>
     ag_id run = rs_agent_run_id result \<and> ag_id run \<notin> ag_id ` set (agent_runs s) \<and>
     ag_job_id run = je_job_id job \<and> rs_job_id result = je_job_id job \<and> has_job d (ag_job_id run) \<and>
     ag_status run = rs_status result \<and> ag_output run = rs_output result \<and> ag_error run = rs_error result \<and>
     (ag_error run = None \<longleftrightarrow> ag_status run = R_SUCCESS) \<and> ag_started_at run \<le> ag_completed_at run \<and>
     (\<forall>r \<in> set (agent_runs s). ag_job_id r = je_job_id job \<longrightarrow> ag_run_number r < ag_run_number run) \<and>
     get_definition (rn_registry runner) (je_owner_agent_id job) = Inr a \<and> ag_agent_id run = ad_agent_id a \<and>
     ag_agent_definition_version run = ad_contract_version a \<and>
     (production \<longrightarrow> ad_commissioning_state a \<in> {C_TESTED, C_COMMISSIONED}) \<and>
     ad_system_prompt_reference a = ''agent://'' @ ad_agent_id a @ ''/system/'' @ version \<and>
     load_prompt (rn_digest runner) (rn_prompts runner) (ad_agent_id a) version (ag_prompt_sha256 run) = Inr text \<and>
     rn_digest runner text = ag_prompt_sha256 run"
proof -
  from assms obtain p run where p: "prepare runner s job production = Inr p"
    and s': "s' = s\<lparr>agent_runs := agent_runs s @ [run]\<rparr>" and ins: "insert_agent_run d run s = Inr s'"
    and receipt: "receipt = receipt_from_run run (rs_error result)"
    and run: "ag_id run = fresh" "ag_job_id run = je_job_id job" "rs_agent_run_id result = fresh"
      "rs_job_id result = je_job_id job" "ag_status run = rs_status result"
      "ag_output run = rs_output result" "ag_error run = rs_error result"
      "ag_agent_id run = ad_agent_id (pr_definition p)"
      "ag_agent_definition_version run = dr_contract_version (pr_db_definition p)"
      "ag_prompt_sha256 run = pv_sha256 (pr_prompt_version p)"
      "ag_run_number run = next_run_number s (je_job_id job)"
    by (rule execute_cases) blast
  from p obtain version where
    a: "get_definition (rn_registry runner) (je_owner_agent_id job) = Inr (pr_definition p)"
      "production \<Longrightarrow> allows_production_execution (pr_definition p)"
      "dr_contract_version (pr_db_definition p) = ad_contract_version (pr_definition p)"
    and parse: "parse_system_prompt_reference (ad_system_prompt_reference (pr_definition p)) =
      Inr (ad_agent_id (pr_definition p), version)"
    and load: "load_prompt (rn_digest runner) (rn_prompts runner) (ad_agent_id (pr_definition p)) version
      (pv_sha256 (pr_prompt_version p)) = Inr (pr_prompt_text p)"
    by (rule prepare_cases) blast
  note row = insert_agent_run_cases [OF ins]
  have numbers: "\<forall>r \<in> set (agent_runs s). ag_job_id r = je_job_id job \<longrightarrow> ag_run_number r < ag_run_number run"
    using next_run_number_greater run by auto
  have reference: "ad_system_prompt_reference (pr_definition p) =
      ''agent://'' @ ad_agent_id (pr_definition p) @ ''/system/'' @ version"
    by (rule parsed_reference [OF parse])
  have digest: "rn_digest runner (pr_prompt_text p) = pv_sha256 (pr_prompt_version p)"
    by (rule loaded_digest [OF load])
  show ?thesis
    by (rule exI [of _ run], rule exI [of _ "pr_definition p"], rule exI [of _ "pr_prompt_text p"],
        rule exI [of _ version])
      (use s' receipt run row numbers a load reference digest in
        \<open>simp add: allows_production_execution_def EXECUTABLE_COMMISSIONING_STATES_def\<close>)
qed

subsection \<open>Runs that always complete\<close>

text \<open>
  What the tables require of a run: an unused id, a stored job, a well-formed definition, and a
  hash function that returns 64 hexadecimal digits, as SHA-256 does.
\<close>

definition run_storable ::
    "agent_runner \<Rightarrow> db \<Rightarrow> agent_store \<Rightarrow> job_envelope \<Rightarrow> prepared_run \<Rightarrow> uuid \<Rightarrow> bool" where
  "run_storable runner d s job p fresh \<longleftrightarrow>
     fresh \<notin> ag_id ` set (agent_runs s) \<and> has_job d (je_job_id job) \<and>
     (\<forall>text. sha256_hex (rn_digest runner text)) \<and> fits_opt 100 (rn_model runner) \<and>
     agent_id_format (ad_agent_id (pr_definition p)) \<and> 0 < ad_contract_version (pr_definition p) \<and>
     fits 200 (ad_system_prompt_reference (pr_definition p)) \<and>
     (\<forall>r \<in> set (agent_runs s). 0 \<le> ag_run_number r)"

lemma by_agent_id_member:
  "by_agent_id s i = Some r \<Longrightarrow> r \<in> set (agent_definitions s) \<and> dr_agent_id r = i"
  by (auto simp: by_agent_id_def split: list.splits dest: hd_sort_key_mem)

lemma by_reference_member:
  "by_reference s i = Some r \<Longrightarrow> r \<in> set (prompt_versions s) \<and> pv_prompt_reference r = i"
  by (auto simp: by_reference_def split: list.splits dest: hd_sort_key_mem)

lemma next_run_number_pos:
  assumes "\<forall>r \<in> set (agent_runs s). 0 \<le> ag_run_number r"
  shows "1 \<le> next_run_number s job_id"
proof (cases "map ag_run_number (runs_for_job s job_id)")
  case Nil
  then show ?thesis by (simp add: next_run_number_def)
next
  case (Cons n ns)
  then have "n \<in> set (map ag_run_number (runs_for_job s job_id))" by simp
  then have "0 \<le> n" using assms by (auto simp: runs_for_job_def)
  with Cons fold_max_ge [of n ns] show ?thesis by (simp add: next_run_number_def)
qed

lemma prepared_rows:
  assumes "prepare runner s job production = Inr p"
  shows "pr_db_definition p \<in> set (agent_definitions s)"
    and "dr_agent_id (pr_db_definition p) = ad_agent_id (pr_definition p)"
    and "dr_contract_version (pr_db_definition p) = ad_contract_version (pr_definition p)"
    and "pr_prompt_version p \<in> set (prompt_versions s)"
    and "pv_prompt_reference (pr_prompt_version p) = ad_system_prompt_reference (pr_definition p)"
    and "rn_digest runner (pr_prompt_text p) = pv_sha256 (pr_prompt_version p)"
    and "\<exists>version. ad_system_prompt_reference (pr_definition p) =
      ''agent://'' @ ad_agent_id (pr_definition p) @ ''/system/'' @ version"
proof -
  from assms obtain version where
    row: "by_agent_id s (ad_agent_id (pr_definition p)) = Some (pr_db_definition p)"
      "dr_contract_version (pr_db_definition p) = ad_contract_version (pr_definition p)"
    and prompt: "by_reference s (ad_system_prompt_reference (pr_definition p)) = Some (pr_prompt_version p)"
    and parse: "parse_system_prompt_reference (ad_system_prompt_reference (pr_definition p)) =
      Inr (ad_agent_id (pr_definition p), version)"
    and load: "load_prompt (rn_digest runner) (rn_prompts runner) (ad_agent_id (pr_definition p)) version
      (pv_sha256 (pr_prompt_version p)) = Inr (pr_prompt_text p)"
    by (rule prepare_cases) blast
  show "pr_db_definition p \<in> set (agent_definitions s)"
    "dr_agent_id (pr_db_definition p) = ad_agent_id (pr_definition p)"
    "dr_contract_version (pr_db_definition p) = ad_contract_version (pr_definition p)"
    using by_agent_id_member [OF row(1)] row(2) by auto
  show "pr_prompt_version p \<in> set (prompt_versions s)"
    "pv_prompt_reference (pr_prompt_version p) = ad_system_prompt_reference (pr_definition p)"
    using by_reference_member [OF prompt] by auto
  show "rn_digest runner (pr_prompt_text p) = pv_sha256 (pr_prompt_version p)" by (rule loaded_digest [OF load])
  show "\<exists>version. ad_system_prompt_reference (pr_definition p) =
      ''agent://'' @ ad_agent_id (pr_definition p) @ ''/system/'' @ version"
    using parsed_reference [OF parse] by blast
qed

lemma finalize_run_ok:
  assumes p: "prepare runner s job production = Inr p" and ok: "run_storable runner d s job p fresh"
    and status: "status = R_SUCCESS \<longleftrightarrow> err = None" and "t \<le> completed"
  shows "\<exists>run. finalize_run d (observe runner s job p fresh t) status out err completed s =
     Inr (run, s\<lparr>agent_runs := agent_runs s @ [run]\<rparr>)"
proof -
  note rows = prepared_rows [OF p]
  have hex: "length (rn_digest runner x) = 64" for x using ok by (simp add: run_storable_def sha256_hex_def)
  then have "length (pv_sha256 (pr_prompt_version p)) = 64" using rows(6) by metis
  moreover have "1 \<le> next_run_number s (je_job_id job)"
    using ok next_run_number_pos by (simp add: run_storable_def)
  moreover have "length (ad_agent_id (pr_definition p)) \<le> 3"
    using ok by (auto simp: run_storable_def agent_id_format_def)
  moreover have "(dr_id (pr_db_definition p), ad_agent_id (pr_definition p), dr_contract_version (pr_db_definition p)) \<in>
      (\<lambda>x. (dr_id x, dr_agent_id x, dr_contract_version x)) ` set (agent_definitions s)"
    using rows(1,2) by (metis (no_types, lifting) image_eqI)
  moreover have "(pv_id (pr_prompt_version p), pv_prompt_reference (pr_prompt_version p),
      pv_sha256 (pr_prompt_version p)) \<in> (\<lambda>x. (pv_id x, pv_prompt_reference x, pv_sha256 x)) ` set (prompt_versions s)"
    using rows(4) by blast
  ultimately show ?thesis
    using ok rows(5) status assms(4) hex
    by (simp add: finalize_run_def observe_def begin_run_def Let_def insert_agent_run_def
        check_agent_run_def run_storable_def fits_def fits_opt_def hash_payload_def del: json_dumps.simps)
qed

lemma reference_not_blank:
  assumes "prepare runner s job production = Inr p"
  shows "strip_str (pv_prompt_reference (pr_prompt_version p)) \<noteq> []"
  using prepared_rows(5,7) [OF assms] by (auto simp: strip_str_Nil is_white_def)

lemma failure_result_ok:
  assumes "prepare runner s job production = Inr p" and "run_storable runner d s job p fresh"
  shows "\<exists>r. failure_result job p fresh err = Inr r"
proof -
  have "sha256_hex (pv_sha256 (pr_prompt_version p))"
    using assms(2) prepared_rows(6) [OF assms(1)] by (metis run_storable_def)
  with assms(2) reference_not_blank [OF assms(1)] show ?thesis
    by (simp add: failure_result_def validate_terminal_result_def run_storable_def)
qed

lemma execution_failed_error:
  assumes "strip_str (str_error err) \<noteq> []"
  shows "make_contract_error ''AGENT_EXECUTION_FAILED'' (str_error err) =
     Inr \<lparr>ce_code = ''AGENT_EXECUTION_FAILED'', ce_message = strip_str (str_error err),
       ce_retryable = False, ce_blocker_action = None, ce_safe_detail = JObj []\<rparr>"
proof -
  have "strip_str ''AGENT_EXECUTION_FAILED'' = ''AGENT_EXECUTION_FAILED''"
    by (simp add: strip_str_def is_white_def)
  with assms show ?thesis by (simp add: make_contract_error_def)
qed

lemma execute_raised_ok:
  assumes "prepare runner s job production = Inr p" and "run_storable runner d s job p fresh"
    and "err \<noteq> AgentNotCommissionedError"
    and "agent (context_for runner job p fresh (started run_at t0)) = Inl err"
    and "strip_str (str_error err) \<noteq> []"
  shows "\<exists>ce run failure. execute str_error runner d job agent production run_at t0 t1 fresh s =
       Inr (failure, receipt_from_run run (Some ce), s\<lparr>agent_runs := agent_runs s @ [run]\<rparr>) \<and>
     make_contract_error ''AGENT_EXECUTION_FAILED'' (str_error err) = Inr ce \<and>
     failure_result job p fresh ce = Inr failure \<and>
     finalize_run d (observe runner s job p fresh (started run_at t0)) R_FAILURE [] (Some ce)
       (max t1 (started run_at t0)) s = Inr (run, s\<lparr>agent_runs := agent_runs s @ [run]\<rparr>)"
proof -
  obtain ce where ce: "make_contract_error ''AGENT_EXECUTION_FAILED'' (str_error err) = Inr ce"
    using execution_failed_error [where str_error = str_error, OF assms(5)] by blast
  obtain run where fin: "finalize_run d (observe runner s job p fresh (started run_at t0)) R_FAILURE []
      (Some ce) (max t1 (started run_at t0)) s = Inr (run, s\<lparr>agent_runs := agent_runs s @ [run]\<rparr>)"
    using finalize_run_ok [OF assms(1,2)] by (metis agent_run_status.distinct(1) max.cobounded2 option.distinct(1))
  obtain failure where res: "failure_result job p fresh ce = Inr failure"
    using failure_result_ok [OF assms(1,2)] by blast
  show ?thesis
    unfolding execute_raised [where agent = agent, OF assms(1,3,4)] ce bindE_simps
    using fin res by auto
qed

text \<open>
  An agent's exception never escapes the runner. Once the checks have passed, whatever the
  agent raises other than \<^verbatim>\<open>AgentNotCommissionedError\<close> becomes a FAILURE result with the code
  \<^verbatim>\<open>AGENT_EXECUTION_FAILED\<close> and the exception's text, not retryable and without events, and a
  FAILURE run is stored; the one thing required of the exception is a text that is not blank.
\<close>

theorem agent_errors_become_results:
  assumes p: "prepare runner s job production = Inr p" and "run_storable runner d s job p fresh"
    and err: "err \<noteq> AgentNotCommissionedError"
    and raised: "agent (context_for runner job p fresh (started run_at t0)) = Inl err"
    and shown: "strip_str (str_error err) \<noteq> []"
  shows "\<exists>failure run.
     execute str_error runner d job agent production run_at t0 t1 fresh s =
       Inr (failure, receipt_from_run run (rs_error failure), s\<lparr>agent_runs := agent_runs s @ [run]\<rparr>) \<and>
     rs_status failure = R_FAILURE \<and> rs_emitted_events failure = [] \<and> ag_status run = R_FAILURE \<and>
     rs_error failure = Some \<lparr>ce_code = ''AGENT_EXECUTION_FAILED'', ce_message = strip_str (str_error err),
       ce_retryable = False, ce_blocker_action = None, ce_safe_detail = JObj []\<rparr>"
proof -
  from execute_raised_ok [where agent = agent and str_error = str_error, OF assms] obtain ce run failure where
    ex: "execute str_error runner d job agent production run_at t0 t1 fresh s =
       Inr (failure, receipt_from_run run (Some ce), s\<lparr>agent_runs := agent_runs s @ [run]\<rparr>)"
    and ce: "make_contract_error ''AGENT_EXECUTION_FAILED'' (str_error err) = Inr ce"
    and res: "failure_result job p fresh ce = Inr failure"
    and fin: "finalize_run d (observe runner s job p fresh (started run_at t0)) R_FAILURE [] (Some ce)
       (max t1 (started run_at t0)) s = Inr (run, s\<lparr>agent_runs := agent_runs s @ [run]\<rparr>)"
    by blast
  show ?thesis
    using ex ce finalize_run_cases [OF fin] failure_result_cases [OF res]
      execution_failed_error [where str_error = str_error, OF shown] by auto
qed

subsection \<open>A runner at work\<close>

definition example_runner :: agent_runner where
  "example_runner = \<lparr>rn_registry = map (\<lambda>i. (i, definition_from_config (example_agent i) None)) expected_roster,
     rn_digest = (\<lambda>s. replicate 64 (CHR ''0'')), rn_prompts = (\<lambda>a v. PromptFile example_prompt),
     rn_model = None, rn_tools = canonical\<rparr>"

definition example_store :: agent_store where
  "example_store = \<lparr>agent_definitions = [\<lparr>dr_id = 1, dr_agent_id = ''A01'', dr_name = ''agent'',
       dr_implementation_version = 1, dr_contract_version = 1, dr_timeout_seconds = 300,
       dr_commissioning_state = C_TESTED, dr_commissioning_evidence = []\<rparr>],
     prompt_versions = [\<lparr>pv_id = 2, pv_prompt_reference = ''agent://A01/system/v1'', pv_version = 1,
       pv_sha256 = replicate 64 (CHR ''0''), pv_source_path = ''prompts/agents/A01/v1.md''\<rparr>],
     agent_runs = []\<rparr>"

definition example_envelope :: job_envelope where
  "example_envelope = \<lparr>je_job_id = 2, je_workflow_id = 7, je_object_id = 9, je_job_type = ''research'',
     je_object_type = ''product'', je_owner_agent_id = ''A01'', je_status = J_RUNNING, je_input = [],
     je_required_artifacts = [], je_scheduled_at = 0, je_attempt = 0, je_max_attempts = 3,
     je_idempotency_key = ''k'', je_side_effect_class = NONE, je_retry_class = SAFE,
     je_success_contract = \<lparr>sc_output_model = ''AgentResult'', sc_required_artifact_roles = [],
       sc_required_events = []\<rparr>\<rparr>"

definition example_prepared :: prepared_run where
  "example_prepared = \<lparr>pr_definition = definition_from_config (example_agent ''A01'') None,
     pr_db_definition = hd (agent_definitions example_store),
     pr_prompt_version = hd (prompt_versions example_store), pr_prompt_text = example_prompt\<rparr>"

lemma example_registry:
  "get_definition (rn_registry example_runner) ''A01'' = Inr (definition_from_config (example_agent ''A01'') None)"
proof -
  have "''A01'' \<in> set expected_roster" by code_simp
  then show ?thesis by (simp add: get_definition_def example_runner_def map_of_map_restrict)
qed

lemma example_prepares: "prepare example_runner example_store example_envelope True = Inr example_prepared"
proof -
  have "parse_system_prompt_reference ''agent://A01/system/v1'' = Inr (''A01'', ''v1'')" by code_simp
  moreover have "load_prompt (rn_digest example_runner) (rn_prompts example_runner) ''A01'' ''v1''
      (replicate 64 (CHR ''0'')) = Inr example_prompt"
    using example_prompt_loads [OF safe_agent, of "rn_digest example_runner"] by (simp add: example_runner_def)
  ultimately show ?thesis
    using example_registry
    by (simp add: prepare_def example_envelope_def definition_from_config_def example_agent_def
        assert_production_executable_def allows_production_execution_def EXECUTABLE_COMMISSIONING_STATES_def
        load_database_definition_def by_agent_id_def load_prompt_version_def by_reference_def
        example_store_def example_prepared_def)
qed

lemma example_storable:
  "run_storable example_runner (example_db [example_job 2 ''k'' J_READY]) example_store example_envelope example_prepared 5"
  by (simp add: run_storable_def example_runner_def example_store_def example_envelope_def example_prepared_def
      example_defs has_job_def sha256_hex_def definition_from_config_def example_agent_def fits_def fits_opt_def
      agent_id_format_def list_all_iff)

theorem agent_errors_become_results_witness:
  "\<exists>failure receipt s'. execute (\<lambda>_. ''not allowed'') example_runner (example_db [example_job 2 ''k'' J_READY])
     example_envelope (\<lambda>_. Inl ToolPermissionError) True (Some 0) 0 1 5 example_store = Inr (failure, receipt, s') \<and>
     rs_status failure = R_FAILURE"
proof -
  have "strip_str ''not allowed'' \<noteq> []" by (simp add: strip_str_Nil is_white_def)
  from agent_errors_become_results [OF example_prepares example_storable, of ToolPermissionError
      "\<lambda>_. Inl ToolPermissionError" "Some 0" 0 "\<lambda>_. ''not allowed''" 1] this
  show ?thesis by fastforce
qed

theorem agent_run_is_recorded_witness:
  "\<exists>result receipt s'. execute (\<lambda>_. ''not allowed'') example_runner (example_db [example_job 2 ''k'' J_READY])
     example_envelope (\<lambda>_. Inl ToolPermissionError) True (Some 0) 0 1 5 example_store = Inr (result, receipt, s') \<and>
     (\<exists>run. agent_runs s' = [run] \<and> ag_job_id run = 2)"
proof -
  have "strip_str ''not allowed'' \<noteq> []" by (simp add: strip_str_Nil is_white_def)
  then obtain result receipt s' where r: "execute (\<lambda>_. ''not allowed'') example_runner
      (example_db [example_job 2 ''k'' J_READY]) example_envelope (\<lambda>_. Inl ToolPermissionError) True (Some 0) 0 1 5
      example_store = Inr (result, receipt, s')"
    using execute_raised_ok [OF example_prepares example_storable, of ToolPermissionError
      "\<lambda>_. Inl ToolPermissionError" "Some 0" 0 "\<lambda>_. ''not allowed''" 1] by auto
  from agent_run_is_recorded [OF r] obtain run where
    "s' = example_store\<lparr>agent_runs := agent_runs example_store @ [run]\<rparr>" "ag_job_id run = je_job_id example_envelope"
    by blast
  then have "agent_runs s' = [run] \<and> ag_job_id run = 2" by (simp add: example_store_def example_envelope_def)
  with r show ?thesis by blast
qed

end
