(* ===== verification/Worker.thy ===== *)
theory Worker
  imports Agent_Runner Leases Dispatcher
begin

section \<open>The worker process\<close>

text \<open>
  \<^verbatim>\<open>orchestration/worker.py\<close>: the startup gates, the conversion of a job row to an envelope, and the
  claim loop. One iteration is one unit of work: it claims a job, runs the owner's agent, settles
  the job and commits; what it does not commit is rolled back, so an iteration maps the committed
  state (database and agent tables) to the next one. An error in the result of an iteration is an
  exception that ends the process. The session does not autoflush, so an attribute set on a row is
  sent with the next flush.
\<close>

type_synonym worker_state = "db \<times> agent_store"

definition LEASE_DURATION :: duration where
  "LEASE_DURATION = 5 * 60 * 1000000"

definition EXIT_UNAVAILABLE :: int where
  "EXIT_UNAVAILABLE = 78"

subsection \<open>Startup gates\<close>

text \<open>
  Gate 7 for one agent: the reference names the agent itself, the file exists, and the prompt store
  accepts it under the hash of the bytes on disk.
\<close>

definition prompt_gate :: "(string \<Rightarrow> string) \<Rightarrow> prompt_tree \<Rightarrow> agent_definition \<Rightarrow> bool" where
  "prompt_gate digest tree a = (case parse_system_prompt_reference (ad_system_prompt_reference a) of
     Inl _ \<Rightarrow> False
   | Inr (prompt_agent_id, prompt_version) \<Rightarrow>
       prompt_agent_id = ad_agent_id a \<and>
       (case tree (ad_agent_id a) prompt_version of
          PromptFile stored \<Rightarrow>
            \<not> isl (load_prompt digest tree prompt_agent_id prompt_version (digest stored))
        | _ \<Rightarrow> False))"

definition tested_or_commissioned :: "agent_registry \<Rightarrow> agent_definition list" where
  "tested_or_commissioned registry =
     filter (\<lambda>a. ad_commissioning_state a \<in> {C_TESTED, C_COMMISSIONED}) (roster registry)"

definition check_commissioning_gates ::
    "(string \<Rightarrow> string) \<Rightarrow> prompt_tree \<Rightarrow> bool \<Rightarrow> agents_config option \<Rightarrow> bool" where
  "check_commissioning_gates digest tree settings_valid agents_yaml \<longleftrightarrow> settings_valid \<and>
     (case registry_from_yaml agents_yaml of
        Inl _ \<Rightarrow> False
      | Inr registry \<Rightarrow> tested_or_commissioned registry \<noteq> [] \<and>
          list_all (prompt_gate digest tree) (tested_or_commissioned registry))"

text \<open>The exit code of the process; the loop ends by an interrupt or by an exception.\<close>

definition worker_main :: "bool \<Rightarrow> error option \<Rightarrow> int" where
  "worker_main gates loop_error =
     (if \<not> gates then EXIT_UNAVAILABLE else case loop_error of None \<Rightarrow> 0 | Some _ \<Rightarrow> 1)"

subsection \<open>From row to envelope\<close>

text \<open>\<^verbatim>\<open>dict(job.input or {})\<close>: an object, or a value that counts as false.\<close>

definition input_of_json :: "json \<Rightarrow> error + json_object" where
  "input_of_json v = (case v of JObj kvs \<Rightarrow> Inr kvs
     | _ \<Rightarrow> if v \<in> {JNull, JBool False, JInt 0, JStr [], JList []} then Inr [] else Inl OtherException)"

definition job_envelope_of :: "job \<Rightarrow> error + job_envelope" where
  "job_envelope_of job =
     bindE (input_of_json (j_input job)) (\<lambda>input.
     bindE (success_contract_of_json (j_success_contract job)) (\<lambda>success_contract.
     validate_attempt_budget
       \<lparr>je_job_id = j_id job, je_workflow_id = j_workflow_id job, je_object_id = j_object_id job,
        je_job_type = strip_str (j_job_type job), je_object_type = strip_str (j_object_type job),
        je_owner_agent_id = j_owner_agent_id job, je_status = j_status job, je_input = input,
        je_required_artifacts = [], je_scheduled_at = j_scheduled_at job, je_attempt = j_attempt job,
        je_max_attempts = j_max_attempts job, je_idempotency_key = strip_str (j_idempotency_key job),
        je_side_effect_class = j_side_effect_class job, je_retry_class = j_retry_class job,
        je_success_contract = success_contract\<rparr>))"

subsection \<open>Executing one job\<close>

record worker_env =
  wk_runner :: agent_runner
  wk_str_error :: "error \<Rightarrow> string"
  wk_digest :: digest
  wk_workflows :: workflows_config
  wk_worker_id :: string

text \<open>What one iteration reads from outside: the locked rows, the clock, and fresh identifiers.\<close>

record iteration_input =
  it_locked :: "uuid \<Rightarrow> bool"
  it_now :: time
  it_after :: time
  it_run_id :: uuid
  it_event_id :: "nat \<Rightarrow> uuid"

fun final_status_of :: "agent_run_status \<Rightarrow> job_status" where
  "final_status_of R_SUCCESS = J_SUCCEEDED"
| "final_status_of R_FAILURE = J_FAILED"
| "final_status_of _ = J_BLOCKED"

definition agent_map :: "string \<Rightarrow> implementation option" where
  "agent_map agent_id =
     (if agent_id = ''A01'' then Some ShopOrchestratorAgent
      else if agent_id = ''A02'' then Some AccountIntegrationAgent else None)"

lemma agent_map_implemented: "agent_map a = None \<longleftrightarrow> \<not> implemented a"
  by (auto simp: agent_map_def implemented_def)

text \<open>
  What the worker commits for an owner with no implementation: the status alone is written, so the
  lease fields stay set.
\<close>

definition fail_unimplemented :: "time \<Rightarrow> job \<Rightarrow> db \<Rightarrow> error + (unit \<times> db)" where
  "fail_unimplemented now job d =
     bindE (flush_job (job\<lparr>j_status := J_FAILED, j_updated_at := now\<rparr>) d) (\<lambda>d. Inr ((), d))"

definition emit_events ::
    "worker_env \<Rightarrow> iteration_input \<Rightarrow> job \<Rightarrow> agent_result \<Rightarrow> db \<Rightarrow> error + db" where
  "emit_events env i job result d =
     foldE (\<lambda>(n, event_name) d. bindE (dispatch (wk_digest env) (wk_workflows env) (it_event_id i n) event_name
         ''Job'' (j_id job) (Some (j_workflow_id job)) (Some (j_id job)) (JObj (rs_output result)) (it_now i) d)
         (\<lambda>(_, d). Inr d))
       (enumerate 0 (rs_emitted_events result)) d"

text \<open>The body of the \<^verbatim>\<open>try\<close>; a value is what is committed.\<close>

definition try_execute ::
    "worker_env \<Rightarrow> iteration_input \<Rightarrow> job \<Rightarrow> worker_state \<Rightarrow> error + (agent_result option \<times> worker_state)" where
  "try_execute env i job = (\<lambda>(d, s).
     bindE (job_envelope_of job) (\<lambda>envelope.
     bindE (get_definition (rn_registry (wk_runner env)) (je_owner_agent_id envelope)) (\<lambda>a.
     case agent_map (ad_agent_id a) of
       None \<Rightarrow>
         bindE (fail_unimplemented (it_now i) job d) (\<lambda>(_, d). Inr (None, (d, s)))
     | Some agent \<Rightarrow>
         bindE (execute (wk_str_error env) (wk_runner env) d envelope (run_implementation agent) True
            (Some (it_now i)) (it_now i) (it_after i) (it_run_id i) s) (\<lambda>(result, receipt, s).
         bindE (heartbeat (j_id job) (wk_worker_id env) (it_now i) None d) (\<lambda>(_, d).
         bindE (release_lease (j_id job) (wk_worker_id env) (it_now i) (final_status_of (rs_status result)) d)
           (\<lambda>(_, d).
         bindE (emit_events env i job result d) (\<lambda>d. Inr (Some result, (d, s)))))))))"

definition execute_job_with_runner ::
    "worker_env \<Rightarrow> iteration_input \<Rightarrow> worker_state \<Rightarrow> job \<Rightarrow> worker_state \<Rightarrow>
     error + (agent_result option \<times> worker_state)" where
  "execute_job_with_runner env i committed job state = (case try_execute env i job state of
     Inr r \<Rightarrow> Inr r
   | Inl AgentNotCommissionedError \<Rightarrow>
       bindE (release_lease (j_id job) (wk_worker_id env) (it_now i) J_FAILED (fst state)) (\<lambda>(_, d).
       Inr (None, (d, snd state)))
   | Inl _ \<Rightarrow> Inr (None, committed))"

definition worker_iteration ::
    "worker_env \<Rightarrow> iteration_input \<Rightarrow> worker_state \<Rightarrow> error + (agent_result option \<times> worker_state)" where
  "worker_iteration env i committed =
     bindE (claim_ready_job (it_locked i) (wk_worker_id env) (it_now i) LEASE_DURATION 1 (fst committed))
       (\<lambda>(claimed, d). case claimed of
          None \<Rightarrow> Inr (None, committed)
        | Some job \<Rightarrow> execute_job_with_runner env i committed job (d, snd committed))"

definition worker_loop :: "worker_env \<Rightarrow> iteration_input list \<Rightarrow> worker_state \<Rightarrow> error + worker_state" where
  "worker_loop env inputs state =
     foldE (\<lambda>i state. bindE (worker_iteration env i state) (\<lambda>(_, state). Inr state)) inputs state"

subsection \<open>One row written\<close>

text \<open>Row \<open>i\<close> of the jobs is \<open>k\<close> now; no other row and no other table has changed.\<close>

definition wrote_row :: "uuid \<Rightarrow> db \<Rightarrow> job \<Rightarrow> db \<Rightarrow> bool" where
  "wrote_row i d k e \<longleftrightarrow> get_job e i = Some k \<and> (\<forall>x. x \<noteq> i \<longrightarrow> get_job e x = get_job d x) \<and>
     (\<exists>js. e = d\<lparr>jobs := js\<rparr>)"

lemma flush_wrote: "flush_job k d = Inr e \<Longrightarrow> \<exists>v. wrote_row (j_id k) d (k\<lparr>j_version := v\<rparr>) e"
  using flush_job_get [of k d e] flush_job_tables [of k d e] by (auto simp: wrote_row_def)

lemma wrote_trans: "wrote_row i d k e \<Longrightarrow> wrote_row i e l f \<Longrightarrow> wrote_row i d l f"
  by (auto simp: wrote_row_def)

lemma claim_wrote:
  assumes "claim_ready_job locked w now dur n d = Inr (Some job, e)"
  obtains j v where "j \<in> set (jobs d)" and "claimable locked now j"
    and "\<And>x. x \<in> set (jobs d) \<Longrightarrow> claimable locked now x \<Longrightarrow> j_scheduled_at j \<le> j_scheduled_at x"
    and "job = j\<lparr>j_status := J_RUNNING, j_lease_owner := Some w, j_lease_expires_at := Some (now + dur),
      j_heartbeat_at := Some now, j_updated_at := now, j_version := v\<rparr>"
    and "wrote_row (j_id j) d job e"
  using assms
proof (cases rule: claim_ready_job_cases)
  case none
  then show thesis by simp
next
  case (claimed j r k)
  note c = claim_candidates_Cons [OF claimed(1)]
  from flush_wrote [OF claimed(3)] obtain v where v: "wrote_row (j_id j) d (k\<lparr>j_version := v\<rparr>) e"
    using claimed(2) by auto
  moreover have "job = k\<lparr>j_version := v\<rparr>" using v claimed(4) by (simp add: wrote_row_def)
  ultimately show thesis using that [of j v] c claimed(2) by simp
qed

lemma heartbeat_wrote:
  assumes "heartbeat i w now None d = Inr (u, e)" and "get_job d i = Some j"
  shows "\<exists>v. wrote_row i d (j\<lparr>j_heartbeat_at := Some now, j_updated_at := now, j_version := v\<rparr>) e"
  using assms(1)
proof (cases rule: heartbeat_cases)
  case (1 j' k)
  then have "j' = j" "j_id j = i" using assms(2) job_store.get_member [OF assms(2)] by auto
  with 1 flush_wrote [OF 1(5)] show ?thesis by simp
qed

lemma release_wrote:
  assumes "release_lease i w now st d = Inr (u, e)" and "get_job d i = Some j"
  shows "\<exists>v. wrote_row i d (j\<lparr>j_status := st, j_lease_owner := None, j_lease_expires_at := None,
     j_heartbeat_at := None, j_updated_at := now, j_version := v\<rparr>) e"
  using assms(1)
proof (cases rule: release_lease_cases)
  case (1 j' k)
  then have "j' = j" "j_id j = i" using assms(2) job_store.get_member [OF assms(2)] by auto
  with 1 flush_wrote [OF 1(5)] show ?thesis by simp
qed

subsection \<open>What the agents return\<close>

lemma success_result_cases:
  "success_result i c out = Inr r \<Longrightarrow> rs_emitted_events r = [] \<and> rs_status r = R_SUCCESS"
  by (auto simp: success_result_def validate_terminal_result_def bindE_eq_Inr)

lemma implementation_result:
  "run_implementation a c = Inr r \<Longrightarrow> rs_emitted_events r = [] \<and> rs_status r = R_SUCCESS"
proof (cases a)
  case ShopOrchestratorAgent
  moreover assume "run_implementation a c = Inr r"
  ultimately obtain out where "success_result ''A01'' c out = Inr r"
    by (auto simp: shop_orchestrator_def Let_def bindE_eq_Inr)
  then show ?thesis by (rule success_result_cases)
next
  case AccountIntegrationAgent
  moreover assume "run_implementation a c = Inr r"
  ultimately obtain out where "success_result ''A02'' c out = Inr r"
    by (auto simp: account_integration_def Let_def bindE_eq_Inr)
  then show ?thesis by (rule success_result_cases)
qed

lemma execute_quiet:
  "execute str_error runner d job (run_implementation a) production run_at t0 t1 fresh s = Inr (result, receipt, s') \<Longrightarrow>
   rs_emitted_events result = [] \<and> rs_status result \<in> {R_SUCCESS, R_FAILURE}"
  using execute_result implementation_result by blast

subsection \<open>The registry\<close>

definition registry_consistent :: "agent_registry \<Rightarrow> bool" where
  "registry_consistent registry \<longleftrightarrow> (\<forall>i a. map_of registry i = Some a \<longrightarrow> ad_agent_id a = i)"

lemma registry_from_config_consistent:
  assumes "registry_from_config config = Inr registry"
  shows "registry_consistent registry"
proof -
  have "registry_consistent r \<Longrightarrow>
      registry_consistent (fold (\<lambda>a. AList.update (ac_agent_id a) (definition_from_config a None)) as r)" for as r
  proof (induction as arbitrary: r)
    case Nil
    then show ?case by simp
  next
    case (Cons a as)
    have "registry_consistent (AList.update (ac_agent_id a) (definition_from_config a None) r)"
      using Cons.prems by (auto simp: registry_consistent_def update_conv' definition_from_config_def)
    with Cons.IH show ?case by simp
  qed
  moreover have "registry_consistent []" by (simp add: registry_consistent_def)
  ultimately show ?thesis
    using assms by (auto simp: registry_from_config_def new_registry_def bindE_eq_Inr)
qed

lemma envelope_owner: "job_envelope_of job = Inr e \<Longrightarrow> je_owner_agent_id e = j_owner_agent_id job \<and> je_job_id e = j_id job"
  by (auto simp: job_envelope_of_def validate_attempt_budget_def bindE_eq_Inr)

subsection \<open>Settling a claimed job\<close>

lemma try_execute_cases:
  assumes "try_execute env i job (d, s) = Inr (outcome, (d', s'))" and job: "get_job d (j_id job) = Some job"
    and "registry_consistent (rn_registry (wk_runner env))"
  obtains (unimplemented) v where "agent_map (j_owner_agent_id job) = None" and "outcome = None" and "s' = s"
      and "wrote_row (j_id job) d (job\<lparr>j_status := J_FAILED, j_updated_at := it_now i, j_version := v\<rparr>) d'"
    | (ran) result run v where "agent_map (j_owner_agent_id job) \<noteq> None" and "outcome = Some result"
      and "rs_status result \<in> {R_SUCCESS, R_FAILURE}"
      and "s' = s\<lparr>agent_runs := agent_runs s @ [run]\<rparr>" and "ag_job_id run = j_id job"
      and "ag_status run = rs_status result"
      and "wrote_row (j_id job) d (job\<lparr>j_status := final_status_of (rs_status result), j_lease_owner := None,
        j_lease_expires_at := None, j_heartbeat_at := None, j_updated_at := it_now i, j_version := v\<rparr>) d'"
proof -
  let ?w = "wk_worker_id env" and ?now = "it_now i"
  from assms(1) obtain e a where e: "job_envelope_of job = Inr e"
    and a: "get_definition (rn_registry (wk_runner env)) (je_owner_agent_id e) = Inr a"
    and rest: "(case agent_map (ad_agent_id a) of
       None \<Rightarrow> bindE (fail_unimplemented ?now job d) (\<lambda>(_, d). Inr (None, (d, s)))
     | Some agent \<Rightarrow>
         bindE (execute (wk_str_error env) (wk_runner env) d e (run_implementation agent) True
            (Some ?now) ?now (it_after i) (it_run_id i) s) (\<lambda>(result, receipt, s).
         bindE (heartbeat (j_id job) ?w ?now None d) (\<lambda>(_, d).
         bindE (release_lease (j_id job) ?w ?now (final_status_of (rs_status result)) d) (\<lambda>(_, d).
         bindE (emit_events env i job result d) (\<lambda>d. Inr (Some result, (d, s))))))) = Inr (outcome, (d', s'))"
    by (auto simp: try_execute_def bindE_eq_Inr)
  have owner: "ad_agent_id a = j_owner_agent_id job" "je_job_id e = j_id job"
    using a assms(3) envelope_owner [OF e] by (auto simp: get_definition_def registry_consistent_def)
  show thesis
  proof (cases "agent_map (ad_agent_id a)")
    case None
    with rest have "flush_job (job\<lparr>j_status := J_FAILED, j_updated_at := ?now\<rparr>) d = Inr d'" "outcome = None" "s' = s"
      by (auto simp: bindE_eq_Inr fail_unimplemented_def)
    with flush_wrote [OF this(1)] None owner show thesis using unimplemented by auto
  next
    case (Some agent)
    with rest obtain result receipt d1 d2 where
      ex: "execute (wk_str_error env) (wk_runner env) d e (run_implementation agent) True
            (Some ?now) ?now (it_after i) (it_run_id i) s = Inr (result, receipt, s')"
      and hb: "heartbeat (j_id job) ?w ?now None d = Inr ((), d1)"
      and rel: "release_lease (j_id job) ?w ?now (final_status_of (rs_status result)) d1 = Inr ((), d2)"
      and ev: "emit_events env i job result d2 = Inr d'" and out: "outcome = Some result"
      by (auto simp: bindE_eq_Inr)
    note quiet = execute_quiet [OF ex]
    have d': "d' = d2" using ev quiet by (simp add: emit_events_def)
    obtain v1 where w1: "wrote_row (j_id job) d
        (job\<lparr>j_heartbeat_at := Some ?now, j_updated_at := ?now, j_version := v1\<rparr>) d1"
      using heartbeat_wrote [OF hb job] by blast
    then have "get_job d1 (j_id job) = Some (job\<lparr>j_heartbeat_at := Some ?now, j_updated_at := ?now, j_version := v1\<rparr>)"
      by (simp add: wrote_row_def)
    from release_wrote [OF rel this] obtain v2 where w2: "wrote_row (j_id job) d1
        (job\<lparr>j_status := final_status_of (rs_status result), j_lease_owner := None,
          j_lease_expires_at := None, j_heartbeat_at := None, j_updated_at := ?now, j_version := v2\<rparr>) d2"
      by auto
    from ex obtain run where "s' = s\<lparr>agent_runs := agent_runs s @ [run]\<rparr>" "ag_job_id run = je_job_id e"
      "ag_status run = rs_status result"
      by (rule execute_cases) blast
    with ran [of result run v2] out quiet wrote_trans [OF w1 w2] Some owner d' show thesis by simp
  qed
qed

lemma job_envelope_error: "job_envelope_of job \<noteq> Inl AgentNotCommissionedError"
proof -
  have "input_of_json v \<noteq> Inl AgentNotCommissionedError" for v
    by (cases v) (auto simp: input_of_json_def)
  moreover have "success_contract_of_json v \<noteq> Inl AgentNotCommissionedError" for v
    by (auto simp: success_contract_of_json_def validate_success_contract_def bindE_eq_Inl split: json.split option.split)
  ultimately show ?thesis
    by (auto simp: job_envelope_of_def validate_attempt_budget_def bindE_eq_Inl)
qed

lemma flush_job_error: "flush_job k d \<noteq> Inl AgentNotCommissionedError"
  by (auto simp: flush_job_def check_job_def bindE_eq_Inl requireE_def split: option.split)

lemma uncommissioned_implemented:
  assumes "try_execute env i job (d, s) = Inl AgentNotCommissionedError"
    and "registry_consistent (rn_registry (wk_runner env))"
  shows "agent_map (j_owner_agent_id job) \<noteq> None"
proof
  assume none: "agent_map (j_owner_agent_id job) = None"
  from assms(1) job_envelope_error obtain e where e: "job_envelope_of job = Inr e"
    by (cases "job_envelope_of job") (auto simp: try_execute_def)
  with assms(1) obtain a where a: "get_definition (rn_registry (wk_runner env)) (je_owner_agent_id e) = Inr a"
    by (cases "get_definition (rn_registry (wk_runner env)) (je_owner_agent_id e)")
      (auto simp: try_execute_def get_definition_def requireE_def split: option.splits)
  then have "ad_agent_id a = j_owner_agent_id job"
    using assms(2) envelope_owner [OF e] by (auto simp: get_definition_def registry_consistent_def)
  with assms(1) e a none flush_job_error show False
    by (auto simp: try_execute_def fail_unimplemented_def bindE_eq_Inl)
qed

lemma execute_job_cases:
  assumes "execute_job_with_runner env i committed job (d, s) = Inr (outcome, (d', s'))"
  obtains (finished) "try_execute env i job (d, s) = Inr (outcome, (d', s'))"
    | (uncommissioned) u where "try_execute env i job (d, s) = Inl AgentNotCommissionedError"
      and "release_lease (j_id job) (wk_worker_id env) (it_now i) J_FAILED d = Inr (u, d')"
      and "outcome = None" and "s' = s"
    | (rolled_back) "outcome = None" and "(d', s') = committed"
proof (cases "try_execute env i job (d, s)")
  case (Inr r)
  then show thesis using assms by (intro finished) (simp add: execute_job_with_runner_def)
next
  case (Inl err)
  show thesis
  proof (cases "err = AgentNotCommissionedError")
    case True
    with Inl assms obtain u where
      "release_lease (j_id job) (wk_worker_id env) (it_now i) J_FAILED d = Inr (u, d')" "outcome = None" "s' = s"
      by (auto simp: execute_job_with_runner_def bindE_eq_Inr)
    with Inl True show thesis by (intro uncommissioned) simp_all
  next
    case False
    with Inl assms have "outcome = None \<and> (d', s') = committed"
      by (cases err) (auto simp: execute_job_with_runner_def)
    then show thesis by (intro rolled_back) simp_all
  qed
qed

lemma execute_settles:
  assumes run: "execute_job_with_runner env i committed job (e, s) = Inr (outcome, (d', s'))"
    and get: "get_job e (j_id job) = Some job" and lease: "j_lease_owner job = Some (wk_worker_id env)"
    and reg: "registry_consistent (rn_registry (wk_runner env))"
  shows "(d', s') = committed \<or>
    (\<exists>k. wrote_row (j_id job) e k d' \<and> j_status k \<in> {J_SUCCEEDED, J_FAILED} \<and>
       (if outcome = None \<and> agent_map (j_owner_agent_id job) = None
        then j_lease_owner k = Some (wk_worker_id env) else lease_fields_clear k) \<and>
       (case outcome of
          None \<Rightarrow> s' = s \<and> j_status k = J_FAILED
        | Some r \<Rightarrow> (j_status k = J_SUCCEEDED \<longleftrightarrow> rs_status r = R_SUCCESS) \<and>
            (\<exists>run. s' = s\<lparr>agent_runs := agent_runs s @ [run]\<rparr> \<and> ag_job_id run = j_id job \<and>
               ag_status run = rs_status r)))"
  using run
proof (cases rule: execute_job_cases)
  case finished
  from finished get reg show ?thesis
  proof (cases rule: try_execute_cases)
    case (unimplemented v)
    with lease show ?thesis
      by (intro disjI2 exI [of _ "job\<lparr>j_status := J_FAILED, j_updated_at := it_now i, j_version := v\<rparr>"]) auto
  next
    case (ran result run v)
    then show ?thesis by (intro disjI2 exI [of _ "job\<lparr>j_status := final_status_of (rs_status result),
        j_lease_owner := None, j_lease_expires_at := None, j_heartbeat_at := None, j_updated_at := it_now i,
        j_version := v\<rparr>"]) (auto simp: lease_fields_clear_def)
  qed
next
  case (uncommissioned u)
  from release_wrote [OF uncommissioned(2) get] obtain v where
    "wrote_row (j_id job) e (job\<lparr>j_status := J_FAILED, j_lease_owner := None, j_lease_expires_at := None,
      j_heartbeat_at := None, j_updated_at := it_now i, j_version := v\<rparr>) d'" by blast
  then show ?thesis
    using uncommissioned(3,4) uncommissioned_implemented [OF uncommissioned(1) reg]
    by (intro disjI2 exI [of _ "job\<lparr>j_status := J_FAILED, j_lease_owner := None, j_lease_expires_at := None,
      j_heartbeat_at := None, j_updated_at := it_now i, j_version := v\<rparr>"]) (auto simp: lease_fields_clear_def)
next
  case rolled_back
  then show ?thesis by simp
qed

lemma worker_iteration_cases:
  assumes "worker_iteration env i (d, s) = Inr (outcome, (d', s'))"
  obtains (idle) "outcome = None" and "(d', s') = (d, s)" and "\<forall>j \<in> set (jobs d). \<not> claimable (it_locked i) (it_now i) j"
    | (claimed) job e where
      "claim_ready_job (it_locked i) (wk_worker_id env) (it_now i) LEASE_DURATION 1 d = Inr (Some job, e)"
      and "execute_job_with_runner env i (d, s) job (e, s) = Inr (outcome, (d', s'))"
proof -
  from assms obtain claimed e where
    claim: "claim_ready_job (it_locked i) (wk_worker_id env) (it_now i) LEASE_DURATION 1 d = Inr (claimed, e)"
    and rest: "(case claimed of None \<Rightarrow> Inr (None, (d, s))
        | Some job \<Rightarrow> execute_job_with_runner env i (d, s) job (e, s)) = Inr (outcome, (d', s'))"
    by (auto simp: worker_iteration_def bindE_eq_Inr cong: option.case_cong)
  show thesis
  proof (cases claimed)
    case None
    have "\<forall>j \<in> set (jobs d). \<not> claimable (it_locked i) (it_now i) j"
      using claim
    proof (cases rule: claim_ready_job_cases)
      case none
      then show ?thesis by simp
    next
      case (claimed j r k)
      then show ?thesis using None flush_job_get [OF claimed(3)] by auto
    qed
    with idle rest None show thesis by simp
  next
    case (Some job)
    with that(2) claim rest show thesis by simp
  qed
qed

text \<open>
  C11: what one worker iteration can do. Either it leaves the committed state as it was, or it
  settles exactly one job, the oldest one that was due and ready: that job is then SUCCEEDED or
  FAILED, with its lease given back when its owner has an implementation; no other job and no
  workflow changes, and no event is recorded, not even for a job whose owner is not commissioned
  (the two implemented agents emit none). A result goes with exactly one stored run of the same status, and the job is
  SUCCEEDED exactly when that status is SUCCESS. A job whose owner has no implementation becomes
  FAILED but keeps the worker's lease.
\<close>

theorem worker_settles_claimed_job:
  assumes ok: "jobs_ok d" and config: "registry_from_config config = Inr (rn_registry (wk_runner env))"
    and run: "worker_iteration env i (d, s) = Inr (outcome, (d', s'))"
  shows "(d', s') = (d, s) \<or>
    (\<exists>j k. j \<in> set (jobs d) \<and> claimable (it_locked i) (it_now i) j \<and>
       (\<forall>x \<in> set (jobs d). claimable (it_locked i) (it_now i) x \<longrightarrow> j_scheduled_at j \<le> j_scheduled_at x) \<and>
       get_job d' (j_id j) = Some k \<and> (\<forall>x. x \<noteq> j_id j \<longrightarrow> get_job d' x = get_job d x) \<and>
       events d' = events d \<and> workflow_runs d' = workflow_runs d \<and>
       j_status k \<in> {J_SUCCEEDED, J_FAILED} \<and>
       (if outcome = None \<and> agent_map (j_owner_agent_id j) = None
        then j_lease_owner k = Some (wk_worker_id env) else lease_fields_clear k) \<and>
       (case outcome of
          None \<Rightarrow> s' = s \<and> j_status k = J_FAILED
        | Some r \<Rightarrow> (j_status k = J_SUCCEEDED \<longleftrightarrow> rs_status r = R_SUCCESS) \<and>
            (\<exists>run. s' = s\<lparr>agent_runs := agent_runs s @ [run]\<rparr> \<and> ag_job_id run = j_id j \<and>
               ag_status run = rs_status r)))"
  using run
proof (cases rule: worker_iteration_cases)
  case idle
  then show ?thesis by simp
next
  case (claimed job e)
  from claimed(1) obtain j v where j: "j \<in> set (jobs d)" "claimable (it_locked i) (it_now i) j"
      "\<And>x. x \<in> set (jobs d) \<Longrightarrow> claimable (it_locked i) (it_now i) x \<Longrightarrow> j_scheduled_at j \<le> j_scheduled_at x"
    and job: "job = j\<lparr>j_status := J_RUNNING, j_lease_owner := Some (wk_worker_id env),
      j_lease_expires_at := Some (it_now i + LEASE_DURATION), j_heartbeat_at := Some (it_now i),
      j_updated_at := it_now i, j_version := v\<rparr>"
    and w: "wrote_row (j_id j) d job e" by (rule claim_wrote) blast
  have ids: "j_id job = j_id j" "j_owner_agent_id job = j_owner_agent_id j"
    and get: "get_job e (j_id job) = Some job" and lease: "j_lease_owner job = Some (wk_worker_id env)"
    using w job by (auto simp: wrote_row_def)
  note settled = execute_settles [OF claimed(2) get lease registry_from_config_consistent [OF config], unfolded ids]
  show ?thesis
  proof (cases "(d', s') = (d, s)")
    case True
    then show ?thesis by simp
  next
    case False
    with settled obtain k where k: "wrote_row (j_id j) e k d'" "j_status k \<in> {J_SUCCEEDED, J_FAILED}"
      "if outcome = None \<and> agent_map (j_owner_agent_id j) = None
        then j_lease_owner k = Some (wk_worker_id env) else lease_fields_clear k"
      "case outcome of None \<Rightarrow> s' = s \<and> j_status k = J_FAILED
        | Some r \<Rightarrow> (j_status k = J_SUCCEEDED \<longleftrightarrow> rs_status r = R_SUCCESS) \<and>
            (\<exists>run. s' = s\<lparr>agent_runs := agent_runs s @ [run]\<rparr> \<and> ag_job_id run = j_id j \<and>
               ag_status run = rs_status r)" by blast
    note all = wrote_trans [OF w k(1)]
    then show ?thesis
      by (intro disjI2 exI [of _ j] exI [of _ k] conjI) (use j k all in \<open>auto simp: wrote_row_def\<close>)
  qed
qed

subsection \<open>A claim succeeds\<close>

definition claimed_row :: "string \<Rightarrow> time \<Rightarrow> duration \<Rightarrow> job \<Rightarrow> int \<Rightarrow> job" where
  "claimed_row w now dur j v = j\<lparr>j_status := J_RUNNING, j_lease_owner := Some w,
     j_lease_expires_at := Some (now + dur), j_heartbeat_at := Some now, j_updated_at := now, j_version := v\<rparr>"

lemma claim_succeeds:
  assumes ok: "jobs_ok d" and w: "fits 100 w" and cand: "claim_candidates locked now d = [j]"
  shows "\<exists>v e. claim_ready_job locked w now dur n d = Inr (Some (claimed_row w now dur j v), e) \<and>
    jobs_ok e \<and> lease_held e (j_id j) w (now + dur) \<and> get_job e (j_id j) = Some (claimed_row w now dur j v)"
proof -
  note c = claim_candidates_Cons [OF cand]
  let ?k = "j\<lparr>j_status := J_RUNNING, j_lease_owner := Some w,
    j_lease_expires_at := Some (now + dur), j_heartbeat_at := Some now, j_updated_at := now\<rparr>"
  have get: "get_job d (j_id j) = Some j" using jobs_ok_member_get [OF ok c(1)] .
  have "check_job ?k = Inr ()"
    using jobs_ok_get [OF ok get] w by (simp add: job_inv_def check_job_def fits_opt_def bindE_eq_Inr)
  with get flush_checked [of d ?k j] obtain e v where e: "flush_job ?k d = Inr e"
    and k: "get_job e (j_id j) = Some (?k\<lparr>j_version := v\<rparr>)" by auto
  have run: "claim_ready_job locked w now dur n d = Inr (Some (?k\<lparr>j_version := v\<rparr>), e)"
    using cand e k c(2) by (simp add: claim_ready_job_def require_job_transition_def claimable_def)
  have "jobs_ok e" by (rule claim_op.keeps_jobs_ok [OF ok run])
  with run k show ?thesis by (auto simp: lease_held_def claimed_row_def)
qed

subsection \<open>A job that starves the others\<close>

text \<open>A row whose stored success contract is no valid contract has no envelope.\<close>

lemma malformed_iteration:
  assumes ok: "jobs_ok d" and "fits 100 (wk_worker_id env)" and "claim_candidates (it_locked i) (it_now i) d = [j]"
    and bad: "success_contract_of_json (j_success_contract j) = Inl err"
  shows "worker_iteration env i (d, s) = Inr (None, (d, s))"
proof -
  from claim_succeeds [OF assms(1-3)] obtain v e where
    claim: "claim_ready_job (it_locked i) (wk_worker_id env) (it_now i) LEASE_DURATION 1 d =
      Inr (Some (claimed_row (wk_worker_id env) (it_now i) LEASE_DURATION j v), e)" by blast
  let ?k = "claimed_row (wk_worker_id env) (it_now i) LEASE_DURATION j v"
  obtain err' where "try_execute env i ?k (e, s) = Inl err'" and "err' \<noteq> AgentNotCommissionedError"
    using bad job_envelope_error [of ?k]
    by (cases "input_of_json (j_input j)") (auto simp: try_execute_def job_envelope_of_def claimed_row_def)
  with claim show ?thesis
    by (cases err') (simp_all add: worker_iteration_def execute_job_with_runner_def)
qed

lemma oldest_is_claimed:
  assumes "j \<in> set (jobs d)" and "claimable locked now j"
    and "\<forall>x \<in> set (jobs d). j_status x = J_READY \<and> x \<noteq> j \<longrightarrow> j_scheduled_at j < j_scheduled_at x"
  shows "claim_candidates locked now d = [j]"
proof (cases "claim_candidates locked now d")
  case Nil
  then show ?thesis using assms(1,2) claim_candidates_Nil [of locked now d] by blast
next
  case (Cons h r)
  note c = claim_candidates_Cons [OF Cons]
  have "h = j" using c(1,2) c(3) [OF assms(1,2)] assms(3) by (force simp: claimable_def)
  moreover have "length (claim_candidates locked now d) \<le> 1" by (simp add: claim_candidates_def)
  ultimately show ?thesis using Cons by simp
qed

text \<open>
  C12: one malformed job stops the worker for good. When the oldest ready job has a stored success
  contract that does not validate, every iteration claims it, fails to build its envelope and rolls
  the claim back: however often and whenever the worker runs, the store stays as it is and no
  other ready job is ever reached.
\<close>

theorem malformed_job_starves_worker:
  assumes "jobs_ok d" and "fits 100 (wk_worker_id env)" and "j \<in> set (jobs d)" and "j_status j = J_READY"
    and "\<forall>x \<in> set (jobs d). j_status x = J_READY \<and> x \<noteq> j \<longrightarrow> j_scheduled_at j < j_scheduled_at x"
    and "success_contract_of_json (j_success_contract j) = Inl err"
    and "\<forall>i \<in> set inputs. j_scheduled_at j \<le> it_now i \<and> \<not> it_locked i (j_id j)"
  shows "worker_loop env inputs (d, s) = Inr (d, s)"
  using assms(7)
proof (induction inputs)
  case Nil
  then show ?case by (simp add: worker_loop_def)
next
  case (Cons i inputs)
  then have "claimable (it_locked i) (it_now i) j" using assms(4) by (simp add: claimable_def)
  then have "claim_candidates (it_locked i) (it_now i) d = [j]"
    using oldest_is_claimed assms(3,5) by blast
  then have "worker_iteration env i (d, s) = Inr (None, (d, s))"
    using malformed_iteration assms(1,2,6) by blast
  with Cons show ?case by (simp add: worker_loop_def)
qed

definition example_env :: worker_env where
  "example_env = \<lparr>wk_runner = example_runner, wk_str_error = (\<lambda>_. ''error''), wk_digest = (\<lambda>_. 50),
     wk_workflows = example_workflows, wk_worker_id = ''worker-1''\<rparr>"

definition example_input :: "time \<Rightarrow> iteration_input" where
  "example_input now = \<lparr>it_locked = (\<lambda>_. False), it_now = now, it_after = now + 1, it_run_id = 5, it_event_id = (\<lambda>_. 6)\<rparr>"

theorem malformed_job_starves_worker_witness:
  "worker_loop example_env (map example_input [5, 6, 7])
     (example_db [example_job 2 ''k'' J_READY, (example_job 3 ''l'' J_READY)\<lparr>j_scheduled_at := 1\<rparr>], example_store) =
   Inr (example_db [example_job 2 ''k'' J_READY, (example_job 3 ''l'' J_READY)\<lparr>j_scheduled_at := 1\<rparr>], example_store)"
proof -
  let ?j = "example_job 2 ''k'' J_READY"
  let ?d = "example_db [?j, (example_job 3 ''l'' J_READY)\<lparr>j_scheduled_at := 1\<rparr>]"
  have h: "jobs_ok ?d" "fits 100 (wk_worker_id example_env)" "?j \<in> set (jobs ?d)" "j_status ?j = J_READY"
    "\<forall>x \<in> set (jobs ?d). j_status x = J_READY \<and> x \<noteq> ?j \<longrightarrow> j_scheduled_at ?j < j_scheduled_at x"
    "success_contract_of_json (j_success_contract ?j) = Inl (ValueError ''success_contract'')"
    "\<forall>i \<in> set (map example_input [5, 6, 7]). j_scheduled_at ?j \<le> it_now i \<and> \<not> it_locked i (j_id ?j)"
    by (simp_all add: example_defs example_inv_defs example_env_def example_input_def success_contract_of_json_def)
  show ?thesis by (rule malformed_job_starves_worker [OF h])
qed

subsection \<open>A job that runs\<close>

lemma implementation_lineage:
  "run_implementation a c = Inr r \<Longrightarrow> rs_agent_run_id r = cx_run_id c \<and> rs_job_id r = je_job_id (cx_job c) \<and> rs_error r = None"
proof -
  have "success_result i c out = Inr r \<Longrightarrow>
      rs_agent_run_id r = cx_run_id c \<and> rs_job_id r = je_job_id (cx_job c) \<and> rs_error r = None" for i out
    by (auto simp: success_result_def validate_terminal_result_def bindE_eq_Inr)
  then show "run_implementation a c = Inr r \<Longrightarrow> ?thesis"
    by (cases a) (auto simp: shop_orchestrator_def account_integration_def Let_def bindE_eq_Inr)
qed

lemma implementation_error: "run_implementation a c \<noteq> Inl AgentNotCommissionedError"
proof -
  have tool: "invoke_tool c t kw \<noteq> Inl AgentNotCommissionedError" for t kw
    by (auto simp: invoke_tool_def invoke_def get_tool_def bindE_eq_Inl requireE_def split: option.split)
  have result: "success_result i c out \<noteq> Inl AgentNotCommissionedError" for i out
    by (simp add: success_result_def validate_terminal_result_def bindE_eq_Inl)
  show ?thesis
    by (cases a) (auto simp: shop_orchestrator_def account_integration_def Let_def bindE_eq_Inl tool result)
qed

lemma execute_implementation_ok:
  assumes p: "prepare runner s job production = Inr p" and ok: "run_storable runner d s job p fresh"
    and texts: "\<And>err. strip_str (str_error err) \<noteq> []"
  shows "\<exists>result receipt s'. execute str_error runner d job (run_implementation a) production run_at t0 t1 fresh s =
     Inr (result, receipt, s')"
proof (cases "run_implementation a (context_for runner job p fresh (started run_at t0))")
  case (Inl err)
  then have "err \<noteq> AgentNotCommissionedError" using implementation_error by auto
  from execute_raised_ok [where agent = "run_implementation a" and str_error = str_error, OF p ok this Inl texts]
  show ?thesis by blast
next
  case (Inr r)
  note r = implementation_lineage [OF Inr] implementation_result [OF Inr]
  obtain run where "finalize_run d (observe runner s job p fresh (started run_at t0)) (rs_status r) (rs_output r)
      (rs_error r) (max t1 (started run_at t0)) s = Inr (run, s\<lparr>agent_runs := agent_runs s @ [run]\<rparr>)"
    using finalize_run_ok [OF p ok] r by (metis max.cobounded2)
  then show ?thesis
    unfolding execute_returned [where agent = "run_implementation a", OF p Inr]
    using r by (simp add: context_for_def)
qed

lemma settle_succeeds:
  assumes ok: "jobs_ok e" and held: "lease_held e i w (now + dur)" and "0 \<le> dur"
    and final: "st \<in> {J_SUCCEEDED, J_FAILED}"
  shows "\<exists>d1 d2 k. heartbeat i w now None e = Inr ((), d1) \<and> release_lease i w now st d1 = Inr ((), d2) \<and>
    get_job d2 i = Some k \<and> j_status k = st \<and> lease_fields_clear k"
proof -
  from held obtain j where j: "get_job e i = Some j" "j_lease_owner j = Some w" "j_lease_expires_at j = Some (now + dur)"
    by (auto simp: lease_held_def)
  obtain d1 where hb: "heartbeat i w now None e = Inr ((), d1)"
    using heartbeat_outcome [OF ok, of i w now None] held assms(3) j(3)
    by (auto simp: lease_held_def)
  from heartbeat_wrote [OF hb j(1)] j(2,3) have "lease_held d1 i w (now + dur)"
    by (auto simp: wrote_row_def lease_held_def)
  moreover have "jobs_ok d1" by (rule heartbeat_op.keeps_jobs_ok [OF ok hb])
  moreover have "st \<in> JOB_TRANSITIONS J_RUNNING" using final by auto
  ultimately show ?thesis using hb release_outcome [of d1 st i w now] by blast
qed

text \<open>
  C10: a runnable job is settled in one iteration. When the oldest due job has a valid envelope, its
  owner one of the two implemented agents, and the runner's checks pass, the next iteration ends
  with a result, a stored run and the job SUCCEEDED or FAILED with its lease given back, whatever
  the agent does: an agent that raises leaves a FAILED job, never a stuck one.
\<close>

theorem worker_completes_runnable_jobs:
  assumes ok: "jobs_ok d" and "fits 100 (wk_worker_id env)"
    and config: "registry_from_config config = Inr (rn_registry (wk_runner env))"
    and cand: "claim_candidates (it_locked i) (it_now i) d = [j]"
    and env: "job_envelope_of (j\<lparr>j_status := J_RUNNING\<rparr>) = Inr e"
    and impl: "agent_map (j_owner_agent_id j) = Some a"
    and p: "prepare (wk_runner env) s e True = Inr p"
    and storable: "run_storable (wk_runner env) d s e p (it_run_id i)"
    and texts: "\<And>err. strip_str (wk_str_error env err) \<noteq> []"
  shows "\<exists>result d' s' k. worker_iteration env i (d, s) = Inr (Some result, (d', s')) \<and>
     get_job d' (j_id j) = Some k \<and> j_status k = final_status_of (rs_status result) \<and>
     j_status k \<in> {J_SUCCEEDED, J_FAILED} \<and> lease_fields_clear k"
proof -
  let ?w = "wk_worker_id env" and ?now = "it_now i"
  from claim_succeeds [OF ok assms(2) cand] obtain v f where
    claim: "claim_ready_job (it_locked i) ?w ?now LEASE_DURATION 1 d =
      Inr (Some (claimed_row ?w ?now LEASE_DURATION j v), f)"
    and f: "jobs_ok f" "lease_held f (j_id j) ?w (?now + LEASE_DURATION)"
      "get_job f (j_id j) = Some (claimed_row ?w ?now LEASE_DURATION j v)" by blast
  let ?job = "claimed_row ?w ?now LEASE_DURATION j v"
  have e: "job_envelope_of ?job = Inr e" using env by (simp add: job_envelope_of_def claimed_row_def)
  have def: "get_definition (rn_registry (wk_runner env)) (je_owner_agent_id e) = Inr (pr_definition p)"
    using p by (rule prepare_cases)
  then have owner: "ad_agent_id (pr_definition p) = j_owner_agent_id j"
    using registry_from_config_consistent [OF config] envelope_owner [OF e]
    by (auto simp: get_definition_def registry_consistent_def claimed_row_def)
  have "run_storable (wk_runner env) f s e p (it_run_id i)"
    using storable f(3) envelope_owner [OF e] by (auto simp: run_storable_def has_job_get claimed_row_def)
  from execute_implementation_ok [where str_error = "wk_str_error env", OF p this texts] obtain result receipt s' where
    ex: "execute (wk_str_error env) (wk_runner env) f e (run_implementation a) True (Some ?now) ?now (it_after i)
      (it_run_id i) s = Inr (result, receipt, s')" by blast
  note quiet = execute_quiet [OF ex]
  then have final: "final_status_of (rs_status result) \<in> {J_SUCCEEDED, J_FAILED}" by auto
  from settle_succeeds [OF f(1,2) _ this] obtain d1 d2 k where
    steps: "heartbeat (j_id j) ?w ?now None f = Inr ((), d1)"
      "release_lease (j_id j) ?w ?now (final_status_of (rs_status result)) d1 = Inr ((), d2)"
    and k: "get_job d2 (j_id j) = Some k" "j_status k = final_status_of (rs_status result)" "lease_fields_clear k"
    by (auto simp: LEASE_DURATION_def)
  have "try_execute env i ?job (f, s) = Inr (Some result, (d2, s'))"
    using e def owner impl ex steps quiet by (simp add: try_execute_def emit_events_def claimed_row_def)
  then have "worker_iteration env i (d, s) = Inr (Some result, (d2, s'))"
    using claim by (simp add: worker_iteration_def execute_job_with_runner_def)
  with k final show ?thesis by auto
qed

subsection \<open>The gates and the runner\<close>

text \<open>
  C39: An agent that passed the startup gates can run. Once the gates have passed, every job of a
  TESTED or COMMISSIONED agent gets through all of the runner's checks, as soon as the tables hold
  its definition in the configured version and, for its prompt reference, the hash of the prompt
  file.
\<close>

theorem gated_agents_are_runnable:
  assumes gates: "check_commissioning_gates (rn_digest runner) (rn_prompts runner) settings_valid yaml"
    and reg: "registry_from_yaml yaml = Inr (rn_registry runner)"
    and a: "get_definition (rn_registry runner) (je_owner_agent_id job) = Inr a"
    and state: "ad_commissioning_state a \<in> {C_TESTED, C_COMMISSIONED}"
    and row: "by_agent_id s (ad_agent_id a) = Some row" "dr_contract_version row = ad_contract_version a"
    and prompt: "by_reference s (ad_system_prompt_reference a) = Some pv"
    and recorded: "\<And>version stored. ad_system_prompt_reference a = ''agent://'' @ ad_agent_id a @ ''/system/'' @ version \<Longrightarrow>
      rn_prompts runner (ad_agent_id a) version = PromptFile stored \<Longrightarrow> pv_sha256 pv = rn_digest runner stored"
  shows "\<exists>p. prepare runner s job True = Inr p \<and> pr_definition p = a \<and> pr_prompt_version p = pv"
proof -
  have "a \<in> set (roster (rn_registry runner))"
    using a by (force simp: get_definition_def roster_def dest: map_of_SomeD)
  with gates reg state have "prompt_gate (rn_digest runner) (rn_prompts runner) a"
    by (auto simp: check_commissioning_gates_def tested_or_commissioned_def list_all_iff)
  then obtain version where parse: "parse_system_prompt_reference (ad_system_prompt_reference a) =
      Inr (ad_agent_id a, version)"
    and accepted: "case rn_prompts runner (ad_agent_id a) version of
      PromptFile stored \<Rightarrow> \<not> isl (load_prompt (rn_digest runner) (rn_prompts runner) (ad_agent_id a) version
        (rn_digest runner stored))
    | _ \<Rightarrow> False"
    by (cases "parse_system_prompt_reference (ad_system_prompt_reference a)") (auto simp: prompt_gate_def)
  from accepted obtain stored where found: "rn_prompts runner (ad_agent_id a) version = PromptFile stored"
    and load: "\<not> isl (load_prompt (rn_digest runner) (rn_prompts runner) (ad_agent_id a) version (rn_digest runner stored))"
    by (cases "rn_prompts runner (ad_agent_id a) version") auto
  have "pv_sha256 pv = rn_digest runner stored" using recorded parsed_reference [OF parse] found by blast
  with load obtain content where "load_prompt (rn_digest runner) (rn_prompts runner) (ad_agent_id a) version
      (pv_sha256 pv) = Inr content" by (metis not_isl_Inr)
  then show ?thesis
    using a state row prompt parse
    by (simp add: prepare_def assert_production_executable_def allows_production_execution_def
        EXECUTABLE_COMMISSIONING_STATES_def load_database_definition_def load_prompt_version_def)
qed

subsection \<open>A worker at work\<close>

lemma example_registry_config: "registry_from_config example_agents = Inr (rn_registry (wk_runner example_env))"
  by code_simp

definition example_claimable :: "string \<Rightarrow> job" where
  "example_claimable owner = (example_job 2 ''k'' J_READY)\<lparr>j_owner_agent_id := owner,
     j_success_contract := JObj [(''output_model'', JStr ''AgentResult'')]\<rparr>"

lemma example_claimable_ok:
  "agent_id_format owner \<Longrightarrow> jobs_ok (example_db [example_claimable owner])"
  "claim_candidates (it_locked (example_input 5)) (it_now (example_input 5)) (example_db [example_claimable owner]) =
     [example_claimable owner]"
  "fits 100 (wk_worker_id example_env)"
  by (auto simp: example_claimable_def example_defs example_inv_defs example_input_def example_env_def
      claim_candidates_def claimable_def)

lemma example_envelope_built:
  "job_envelope_of ((example_claimable ''A01'')\<lparr>j_status := J_RUNNING\<rparr>) = Inr example_envelope"
  by code_simp

theorem worker_completes_runnable_jobs_witness:
  "\<exists>result d' s' k. worker_iteration example_env (example_input 5)
       (example_db [example_claimable ''A01''], example_store) = Inr (Some result, (d', s')) \<and>
     get_job d' 2 = Some k \<and> j_status k \<in> {J_SUCCEEDED, J_FAILED}"
proof -
  have impl: "agent_map (j_owner_agent_id (example_claimable ''A01'')) = Some ShopOrchestratorAgent"
    and id: "j_id (example_claimable ''A01'') = 2"
    by (simp_all add: agent_map_def example_claimable_def example_job_def)
  have p: "prepare (wk_runner example_env) example_store example_envelope True = Inr example_prepared"
    using example_prepares by (simp add: example_env_def)
  have storable: "run_storable (wk_runner example_env) (example_db [example_claimable ''A01'']) example_store example_envelope
      example_prepared (it_run_id (example_input 5))"
    using example_storable by (simp add: run_storable_def example_env_def example_input_def has_job_def
        example_claimable_def example_defs)
  have texts: "strip_str (wk_str_error example_env err) \<noteq> []" for err
    by (simp add: example_env_def strip_str_Nil is_white_def)
  from worker_completes_runnable_jobs [OF example_claimable_ok(1) example_claimable_ok(3) example_registry_config
      example_claimable_ok(2) example_envelope_built impl p storable texts]
  show ?thesis unfolding id by (fastforce simp: agent_id_format_def)
qed

theorem worker_settles_claimed_job_witness:
  "\<exists>d' k. worker_iteration example_env (example_input 5) (example_db [example_claimable ''A07''], example_store) =
     Inr (None, (d', example_store)) \<and> get_job d' 2 = Some k \<and> j_status k = J_FAILED \<and> j_lease_owner k = Some ''worker-1''"
proof -
  let ?d = "example_db [example_claimable ''A07'']"
  have "case worker_iteration example_env (example_input 5) (?d, example_store) of
      Inr (None, (d', s')) \<Rightarrow> map j_status (jobs d') = [J_FAILED] | _ \<Rightarrow> False" by code_simp
  then obtain d' s' where r: "worker_iteration example_env (example_input 5) (?d, example_store) = Inr (None, (d', s'))"
    and failed: "map j_status (jobs d') = [J_FAILED]"
    by (auto split: sum.splits prod.splits option.splits)
  have "(d', s') \<noteq> (?d, example_store)" using failed by (auto simp: example_claimable_def example_defs)
  moreover have "jobs_ok ?d" by (rule example_claimable_ok) (simp add: agent_id_format_def)
  ultimately obtain j k where "j \<in> set (jobs ?d)" "get_job d' (j_id j) = Some k" "s' = example_store" "j_status k = J_FAILED"
      "agent_map (j_owner_agent_id j) = None \<Longrightarrow> j_lease_owner k = Some (wk_worker_id example_env)"
    using worker_settles_claimed_job [OF _ example_registry_config r] by auto
  moreover from this(1) have "j = example_claimable ''A07''" by (simp add: example_db_def)
  ultimately have "get_job d' 2 = Some k \<and> j_lease_owner k = Some ''worker-1'' \<and> s' = example_store \<and> j_status k = J_FAILED"
    by (simp add: example_claimable_def example_job_def agent_map_def example_env_def)
  with r show ?thesis by blast
qed

lemma example_registry_yaml: "registry_from_yaml (Some example_agents) = Inr (rn_registry example_runner)"
  by code_simp

lemma example_gate:
  assumes "i \<in> set expected_roster"
  shows "prompt_gate (rn_digest example_runner) (rn_prompts example_runner) (definition_from_config (example_agent i) None)"
proof -
  have "list_all (\<lambda>i. i \<noteq> [] \<and> CHR ''/'' \<notin> set i \<and> validate_path_component i = Inr ()) expected_roster"
    by code_simp
  with assms have i: "i \<noteq> []" "CHR ''/'' \<notin> set i" "safe_component i"
    by (auto simp: list_all_iff validate_path_component_iff)
  have "parse_system_prompt_reference (''agent://'' @ i @ ''/system/'' @ ''v1'') = Inr (i, ''v1'')"
    using i by (intro parse_written) auto
  moreover have "load_prompt (rn_digest example_runner) (rn_prompts example_runner) i ''v1''
      (rn_digest example_runner example_prompt) = Inr example_prompt"
    using example_prompt_loads [OF i(3), of "rn_digest example_runner"] by (simp add: example_runner_def)
  ultimately show ?thesis
    by (simp add: prompt_gate_def definition_from_config_def example_agent_def)
      (simp add: example_runner_def)
qed

lemma example_gates:
  "check_commissioning_gates (rn_digest example_runner) (rn_prompts example_runner) True (Some example_agents)"
proof -
  have members: "set (roster (rn_registry example_runner)) =
      (\<lambda>i. definition_from_config (example_agent i) None) ` set expected_roster"
    by (auto simp: roster_def example_runner_def image_image)
  have "''A01'' \<in> set expected_roster" by code_simp
  then have "set (tested_or_commissioned (rn_registry example_runner)) \<noteq> {}"
    by (auto simp: tested_or_commissioned_def members definition_from_config_def example_agent_def)
  moreover have "list_all (prompt_gate (rn_digest example_runner) (rn_prompts example_runner))
      (tested_or_commissioned (rn_registry example_runner))"
    using example_gate by (auto simp: list_all_iff tested_or_commissioned_def members)
  ultimately show ?thesis by (auto simp: check_commissioning_gates_def example_registry_yaml)
qed

theorem gated_agents_are_runnable_witness:
  "\<exists>p. prepare example_runner example_store example_envelope True = Inr p"
proof -
  let ?a = "definition_from_config (example_agent ''A01'') None"
  have h: "get_definition (rn_registry example_runner) (je_owner_agent_id example_envelope) = Inr ?a"
    "ad_commissioning_state ?a \<in> {C_TESTED, C_COMMISSIONED}"
    "by_agent_id example_store (ad_agent_id ?a) = Some (hd (agent_definitions example_store))"
    "dr_contract_version (hd (agent_definitions example_store)) = ad_contract_version ?a"
    "by_reference example_store (ad_system_prompt_reference ?a) = Some (hd (prompt_versions example_store))"
    using example_registry
    by (simp_all add: example_envelope_def definition_from_config_def example_agent_def example_store_def
        by_agent_id_def by_reference_def)
  have recorded: "pv_sha256 (hd (prompt_versions example_store)) = rn_digest example_runner stored" for stored
    by (simp add: example_store_def example_runner_def)
  show ?thesis
    using gated_agents_are_runnable [OF example_gates example_registry_yaml h recorded] by blast
qed

end
