(* ===== verification/System.thy ===== *)
theory System
  imports Engine Worker
begin

section \<open>The orchestrator as a transition system\<close>

text \<open>
  The operations of the components as one step relation on the database: whatever the scheduler,
  the workers, the dispatcher and the operator do, in any order and with any interleaving of
  transactions, is a sequence of these steps. An operation that fails is rolled back and is no
  step. Every rule names the operation it stands for; the clock rule moves the database's own
  transaction time. The job contract of each operation is its interpretation of
  \<open>job_operation\<close>, its effect on the event log its interpretation of \<open>log_operation\<close> below.

  The steps are the writes of the \<^verbatim>\<open>orchestration\<close> package. Two of them are not functions of
  their own there: the worker's commit of a job whose owner has no implementation, and a release,
  which its callers only use on a job they are running (\<^verbatim>\<open>release_lease\<close> itself looks at the
  owner of the lease and not at the status of the row, so the rule asks for the status). The
  command line of the real draft and the fixture run write job rows of their own and are no steps.
\<close>

subsection \<open>The interface of an operation on the event log\<close>

definition log_evolves :: "db \<Rightarrow> db \<Rightarrow> bool" where
  "log_evolves d e \<longleftrightarrow> prefix (events d) (events e) \<and> (event_keys_unique d \<longrightarrow> event_keys_unique e)"

lemma log_evolves_refl [simp]: "log_evolves d d"
  by (simp add: log_evolves_def)

lemma log_evolves_trans: "log_evolves a b \<Longrightarrow> log_evolves b c \<Longrightarrow> log_evolves a c"
  by (auto simp: log_evolves_def intro: prefix_order.trans)

lemma log_evolves_same: "events e = events d \<Longrightarrow> log_evolves d e"
  by (simp add: log_evolves_def event_keys_unique_def)

lemma insert_event_log: "insert_event ev d = Inr e \<Longrightarrow> log_evolves d e"
  by (auto simp: insert_event_def bindE_eq_Inr log_evolves_def event_keys_unique_def)

lemma record_event_log:
  assumes "record_event ev d = Inr (n, e)"
  shows "log_evolves d e"
  using assms
proof (cases rule: record_event_cases)
  case old
  then show ?thesis by simp
next
  case new
  then have "append_event ev d = Inr e"
    using assms by (auto simp: record_once_def bindE_eq_Inr split: sum.splits if_splits)
  then show ?thesis by (elim append_event_cases) (rule insert_event_log)
qed

lemma flush_job_log: "flush_job k d = Inr e \<Longrightarrow> log_evolves d e"
  using flush_job_same_keys by (auto intro: log_evolves_same)

lemma flush_workflow_log: "flush_workflow k d = Inr e \<Longrightarrow> log_evolves d e"
  using flush_workflow_jobs by (fastforce intro: log_evolves_same)

lemma insert_job_log: "insert_job k d = Inr e \<Longrightarrow> log_evolves d e"
  using insert_job_eq by (fastforce intro: log_evolves_same)

lemma insert_workflow_log: "insert_workflow k d = Inr e \<Longrightarrow> log_evolves d e"
  using insert_workflow_cases(1) by (fastforce intro: log_evolves_same)

lemmas log_steps = log_evolves_refl insert_event_log record_event_log flush_job_log
  flush_workflow_log insert_job_log insert_workflow_log

text \<open>A fold of steps that extend the log extends the log.\<close>

lemma foldE_log:
  assumes "foldE f xs d = Inr e" and "\<And>x a b. x \<in> set xs \<Longrightarrow> f x a = Inr b \<Longrightarrow> log_evolves a b"
  shows "log_evolves d e"
  using assms(1) by (rule foldE_induct) (auto intro: log_evolves_trans assms(2))

locale log_operation =
  fixes operation :: "db \<Rightarrow> error + ('r \<times> db)"
  assumes extends_log: "operation d = Inr (r, e) \<Longrightarrow> log_evolves d e"
begin

lemma keeps_events: "operation d = Inr (r, e) \<Longrightarrow> ev \<in> set (events d) \<Longrightarrow> ev \<in> set (events e)"
  using extends_log [of d r e] set_mono_prefix [of "events d" "events e"] by (auto simp: log_evolves_def)

lemma keeps_event_keys: "operation d = Inr (r, e) \<Longrightarrow> event_keys_unique d \<Longrightarrow> event_keys_unique e"
  using extends_log by (auto simp: log_evolves_def)

end

subsubsection \<open>Every operation extends the log\<close>

interpretation claim_log: log_operation "claim_ready_job locked w now dur lim" for locked w now dur lim
  by unfold_locales (auto simp: claim_ready_job_def bindE_eq_Inr split: list.splits intro: log_steps)

interpretation heartbeat_log: log_operation "heartbeat i w now ext" for i w now ext
  by unfold_locales (auto simp: heartbeat_def bindE_eq_Inr Let_def intro: log_steps)

interpretation unimplemented_log: log_operation "fail_unimplemented now job" for now job
  by unfold_locales (auto simp: fail_unimplemented_def bindE_eq_Inr intro: log_steps)

interpretation release_log: log_operation "release_lease i w now s" for i w now s
  by unfold_locales (auto simp: release_lease_def bindE_eq_Inr intro: log_steps)

interpretation reclaim_log: log_operation "reclaim_expired_leases locked now limit" for locked now limit
  by unfold_locales (auto dest!: reclaim_same_keys intro: log_evolves_same)

interpretation promote_log: log_operation "promote_pending_to_ready i now" for i now
  by unfold_locales (auto elim!: promote_cases intro: log_steps)

interpretation propagate_log: log_operation "propagate_dependency_failure i now" for i now
proof unfold_locales
  fix d r e
  assume "propagate_dependency_failure i now d = Inr (r, e)"
  then have "foldE (\<lambda>job e. bindE (require_job_transition J_PENDING J_BLOCKED) (\<lambda>_.
      flush_job (job\<lparr>j_status := J_BLOCKED, j_updated_at := now\<rparr>) e)) (dependents i d) d = Inr e"
    by (auto simp: propagate_dependency_failure_def bindE_eq_Inr Let_def)
  then show "log_evolves d e" by (rule foldE_log) (auto simp: bindE_eq_Inr intro: log_steps)
qed

interpretation satisfy_log: log_operation "satisfy_dependency i now" for i now
  by unfold_locales (auto simp: satisfy_dependency_def intro: log_evolves_same)

interpretation reserve_log: log_operation "reserve_idempotency_key f k i op sc now" for f k i op sc now
  by unfold_locales (auto elim!: reserve_cases intro: log_evolves_same)

interpretation complete_log: log_operation "mark_idempotency_completed k now" for k now
  by unfold_locales (auto simp: mark_idempotency_completed_def bindE_eq_Inr intro: log_evolves_same)

interpretation attempt_log: log_operation "record_effect_attempt f k i run pv op s obj n now"
  for f k i run pv op s obj n now
  by unfold_locales (auto simp: record_effect_attempt_def bindE_eq_Inr Let_def
      dest!: insert_effect_attempt_eq intro: log_evolves_same)

interpretation receipt_log: log_operation "record_receipt f i k pv op sc mode s obj amount cur det now"
  for f i k pv op sc mode s obj amount cur det now
  by unfold_locales (auto simp: record_receipt_def insert_receipt_def bindE_eq_Inr Let_def
      intro: log_evolves_same)

interpretation reconcile_log: log_operation "reconcile_and_apply f i query m now" for f i query m now
proof unfold_locales
  fix d r e
  assume "reconcile_and_apply f i query m now d = Inr (r, e)"
  then obtain d1 u where d1: "reconcile_uncertain_effect f i query m now d = Inr (r, d1)"
    and e: "apply_reconciliation_result i r now d1 = Inr (u, e)"
    by (auto simp: reconcile_and_apply_def bindE_eq_Inr)
  have "log_evolves d d1"
    using d1 by (auto elim!: reconcile_cases dest!: insert_effect_attempt_eq intro: log_evolves_same)
  moreover have "log_evolves d1 e"
    using e by (auto simp: apply_reconciliation_result_def bindE_eq_Inr split: if_splits intro: log_steps)
  ultimately show "log_evolves d e" by (rule log_evolves_trans)
qed

lemma promote_each_log: "promote_each now xs d = Inr (r, e) \<Longrightarrow> log_evolves d e"
proof (induction now xs d arbitrary: r rule: promote_each.induct)
  case (1 now d)
  then show ?case by simp
next
  case (2 now job pending d)
  show ?case
  proof (cases "promote_pending_to_ready (j_id job) now d")
    case (Inl err)
    with 2 show ?thesis by (auto split: if_splits)
  next
    case (Inr p)
    obtain k d1 where p: "p = (k, d1)" by (cases p)
    with Inr 2(3) obtain r1 where "promote_each now pending d1 = Inr (r1, e)"
      by (auto simp: bindE_eq_Inr)
    with 2(1,2) Inr p have "log_evolves d1 e" by blast
    with promote_log.extends_log Inr p show ?thesis by (blast intro: log_evolves_trans)
  qed
qed

interpretation promote_due_log: log_operation "promote_due_jobs now limit" for now limit
  by unfold_locales (auto simp: promote_due_jobs_def intro: promote_each_log)

interpretation detect_log: log_operation "detect_stalled_jobs locked event_id now th limit"
  for locked event_id now th limit
proof unfold_locales
  fix d r e
  assume "detect_stalled_jobs locked event_id now th limit d = Inr (r, e)"
  then have "foldE (stall_job event_id now th) (stalled_candidates locked now th limit d) d = Inr e"
    by (auto simp: detect_stalled_jobs_def bindE_eq_Inr Let_def)
  then show "log_evolves d e"
    by (rule foldE_log) (auto simp: stall_job_def bindE_eq_Inr
        intro: log_evolves_trans flush_job_log insert_event_log)
qed

interpretation cycle_log: log_operation "run_scheduler_cycle locked event_id now pl rl sl"
  for locked event_id now pl rl sl
  by unfold_locales (auto simp: run_scheduler_cycle_def bindE_eq_Inr
      dest!: reclaim_log.extends_log detect_log.extends_log promote_due_log.extends_log
      intro: log_evolves_trans)

interpretation maturity_log: log_operation "schedule_maturity_timer fresh w t now" for fresh w t now
  by unfold_locales (auto simp: schedule_maturity_timer_def bindE_eq_Inr Let_def split: if_splits
      intro: log_steps)

interpretation weekly_log: log_operation "schedule_weekly_timer fresh shop key nxt cron now"
  for fresh shop key nxt cron now
  by unfold_locales (auto simp: schedule_weekly_timer_def insert_scheduled_trigger_def bindE_eq_Inr
      split: option.splits intro: log_evolves_same)

interpretation dispatch_log: log_operation "dispatch digest cfg fresh ev agt agg w j payload t"
  for digest cfg fresh ev agt agg w j payload t
proof unfold_locales
  fix d r e
  assume "dispatch digest cfg fresh ev agt agg w j payload t d = Inr (r, e)"
  then show "log_evolves d e"
  proof (cases rule: dispatch_cases)
    case (1 key existed new d1 ns)
    then have "log_evolves d d1" by (cases existed) (auto intro: record_event_log)
    moreover have "log_evolves d1 e" using 1(3) by (auto intro: log_evolves_same)
    ultimately show ?thesis by (rule log_evolves_trans)
  qed
qed

lemma multiply_log: "create_multiply_successor digest wall p t d = Inr (ids, e) \<Longrightarrow> log_evolves d e"
  by (auto simp: create_multiply_successor_def create_successor_workflow_def
      create_successor_entry_job_def bindE_eq_Inr Let_def split: if_splits option.splits
      dest!: flush_workflow_log insert_workflow_log insert_job_log intro: log_evolves_trans)

interpretation decision_log: log_operation "dispatch_decision digest f f' wall p pj t"
  for digest f f' wall p pj t
proof unfold_locales
  fix d r e
  assume "dispatch_decision digest f f' wall p pj t d = Inr (r, e)"
  then show "log_evolves d e"
  proof (cases rule: dispatch_decision_cases)
    case repeated
    then show ?thesis by simp
  next
    case (first d1 n ev d2 n')
    have "log_evolves d2 e" using first(4)
      by (cases rule: emit_successor_created_cases) (auto intro: record_event_log)
    with multiply_log [OF first(1)] record_event_log [OF first(3)] show ?thesis
      by (blast intro: log_evolves_trans)
  qed
qed

interpretation start_log: log_operation "start_workflow digest cfg fresh wt ps shop now"
  for digest cfg fresh wt ps shop now
proof unfold_locales
  fix d r e
  assume "start_workflow digest cfg fresh wt ps shop now d = Inr (r, e)"
  then show "log_evolves d e"
  proof (cases rule: start_workflow_cases)
    case (1 wd d1 ids)
    have "log_evolves d1 e" using spawn_jobs [OF 1(7)] by (auto intro: log_evolves_same)
    with insert_workflow_log [OF 1(6)] show ?thesis by (rule log_evolves_trans)
  qed
qed

interpretation retry_log: log_operation "retry_failed_job i now" for i now
  by unfold_locales (auto elim!: retry_cases intro: log_steps)

interpretation cancel_log: log_operation "cancel_workflow w now" for w now
proof unfold_locales
  fix d r e
  assume c: "cancel_workflow w now d = Inr (r, e)"
  obtain res n where "cancel_workflow w now d = Inr ((res, n), e)" using c by (cases r) auto
  then show "log_evolves d e"
  proof (cases rule: cancel_cases)
    case (1 wf d1)
    have "log_evolves d1 e" using 1(4) by (rule foldE_log) (rule flush_job_log)
    with flush_workflow_log [OF 1(2)] show ?thesis by (rule log_evolves_trans)
  qed
qed

interpretation engine_reconcile_log: log_operation "engine_reconcile_uncertain_effect i s obj now"
  for i s obj now
proof unfold_locales
  fix d r e
  assume "engine_reconcile_uncertain_effect i s obj now d = Inr (r, e)"
  then show "log_evolves d e"
  proof (cases rule: engine_reconcile_cases)
    case (1 j x d1)
    have "log_evolves d d1"
      using 1(6) by (auto simp: flush_effect_attempt_def bindE_eq_Inr intro: log_evolves_same)
    then show ?thesis using flush_job_log [OF 1(7)] by (rule log_evolves_trans)
  qed
qed

subsection \<open>Steps\<close>

inductive system_step :: "db \<Rightarrow> db \<Rightarrow> bool" where
  claim: "claim_ready_job locked worker now dur count d = Inr (r0, e) \<Longrightarrow> system_step d e"
| beat: "heartbeat i worker now ext d = Inr (r1, e) \<Longrightarrow> system_step d e"
| release: "running i d \<Longrightarrow> release_lease i worker now s d = Inr (r1, e) \<Longrightarrow> system_step d e"
| unimplemented: "get_job d (j_id job) = Some job \<Longrightarrow> j_status job = J_RUNNING \<Longrightarrow>
    agent_map (j_owner_agent_id job) = None \<Longrightarrow> fail_unimplemented now job d = Inr (r1, e) \<Longrightarrow> system_step d e"
| reclaim: "reclaim_expired_leases locked now limit d = Inr (r2, e) \<Longrightarrow> system_step d e"
| promote: "promote_pending_to_ready i now d = Inr (r0, e) \<Longrightarrow> system_step d e"
| propagate: "propagate_dependency_failure i now d = Inr (r3, e) \<Longrightarrow> system_step d e"
| satisfy: "satisfy_dependency i now d = Inr (r4, e) \<Longrightarrow> system_step d e"
| reserve: "reserve_idempotency_key f k i op sc now d = Inr (r5, e) \<Longrightarrow> system_step d e"
| complete: "mark_idempotency_completed k now d = Inr (r1, e) \<Longrightarrow> system_step d e"
| attempt: "record_effect_attempt f k i run pv op xs obj n now d = Inr (r6, e) \<Longrightarrow> system_step d e"
| receipt: "record_receipt f i k pv op sc mode xs obj amount cur det now d = Inr (r7, e) \<Longrightarrow>
    system_step d e"
| reconcile: "reconcile_and_apply f i query m now d = Inr (r8, e) \<Longrightarrow> system_step d e"
| promote_due: "promote_due_jobs now limit d = Inr (r2, e) \<Longrightarrow> system_step d e"
| detect: "detect_stalled_jobs locked event_id now th limit d = Inr (r2, e) \<Longrightarrow> system_step d e"
| cycle: "run_scheduler_cycle locked event_id now pl rl sl d = Inr (r9, e) \<Longrightarrow> system_step d e"
| maturity: "schedule_maturity_timer f w t now d = Inr (r0, e) \<Longrightarrow> system_step d e"
| weekly: "schedule_weekly_timer f shop key nxt cron now d = Inr (r1, e) \<Longrightarrow> system_step d e"
| dispatched: "dispatch digest cfg f ev agt agg wo jo payload t d = Inr (r3, e) \<Longrightarrow> system_step d e"
| decided: "dispatch_decision digest f f' wall p pj t d = Inr (r3, e) \<Longrightarrow> system_step d e"
| start: "start_workflow digest cfg f wt ps shop now d = Inr (r10, e) \<Longrightarrow> system_step d e"
| retry: "retry_failed_job i now d = Inr (r0, e) \<Longrightarrow> system_step d e"
| cancel: "cancel_workflow w now d = Inr (r11, e) \<Longrightarrow> system_step d e"
| settle: "engine_reconcile_uncertain_effect i xs obj now d = Inr (r6, e) \<Longrightarrow> system_step d e"
| clock: "system_step d (d\<lparr>server_now := t\<rparr>)"

text \<open>A run, and the states reachable from an empty store.\<close>

definition system_run :: "db \<Rightarrow> db \<Rightarrow> bool" where
  "system_run = system_step\<^sup>*\<^sup>*"

inductive reachable :: "uuid list \<Rightarrow> db \<Rightarrow> bool" for shops where
  initial: "reachable shops (empty_db shops t)"
| extended: "reachable shops d \<Longrightarrow> system_step d e \<Longrightarrow> reachable shops e"

inductive_cases system_stepE: "system_step d e"

text \<open>Operations on the tables beside the jobs leave the jobs alone.\<close>

lemma side_table_jobs:
  "satisfy_dependency i now d = Inr (a, e) \<Longrightarrow> jobs e = jobs d"
  "reserve_idempotency_key f k i op sc now d = Inr (b, e) \<Longrightarrow> jobs e = jobs d"
  "mark_idempotency_completed k now d = Inr (c, e) \<Longrightarrow> jobs e = jobs d"
  "record_effect_attempt f k i run pv op s obj n now d = Inr (x, e) \<Longrightarrow> jobs e = jobs d"
  "record_receipt f i k pv op sc mode s obj amount cur det now d = Inr (y, e) \<Longrightarrow> jobs e = jobs d"
  by (auto simp: satisfy_dependency_def mark_idempotency_completed_def record_effect_attempt_def
      record_receipt_def insert_receipt_def bindE_eq_Inr Let_def elim!: reserve_cases
      dest!: insert_effect_attempt_eq)

text \<open>The worker's own commit leaves a FAILED job with its lease.\<close>

lemma unimplemented_evolves:
  assumes "jobs_ok d" and "get_job d (j_id job) = Some job" and "j_status job = J_RUNNING"
    and "agent_map (j_owner_agent_id job) = None" and "fail_unimplemented now job d = Inr (r, e)"
  shows "db_evolves d e"
proof -
  have flush: "flush_job (job\<lparr>j_status := J_FAILED, j_updated_at := now\<rparr>) d = Inr e"
    using assms(5) by (auto simp: fail_unimplemented_def bindE_eq_Inr)
  show ?thesis
    using assms(2-4) by (intro flush_job_step [OF flush assms(1), of job])
      (auto simp: job_frame_def job_inv_def lease_fields_set_def lease_abandoned_def live_status_def
        agent_map_implemented intro!: status_path_step)
qed

lemma step_evolves:
  assumes "system_step d e" and "jobs_ok d"
  shows "db_evolves d e"
  using assms
proof (induction rule: system_step.induct)
  case (clock d t)
  then show ?case by (simp add: db_evolves_same_jobs)
next
  case (release i d worker now s r1 e)
  then show ?case using release_op.evolves [of d i worker now s r1 e] by simp
next
  case (unimplemented d job now r1 e)
  then show ?case by (blast intro: unimplemented_evolves)
qed (erule (1) claim_op.evolves heartbeat_op.evolves reclaim_op.evolves
    promote_op.evolves propagate_op.evolves reconcile_op.evolves promote_due_op.evolves
    detect_op.evolves cycle_op.evolves maturity_op.evolves weekly_op.evolves dispatch_op.evolves
    decision_op.evolves start_op.evolves retry_op.evolves cancel_op.evolves
    engine_reconcile_op.evolves
  | rule db_evolves_same_jobs, erule side_table_jobs)+

lemma step_log:
  assumes "system_step d e"
  shows "log_evolves d e"
  using assms
proof (induction rule: system_step.induct)
  case (clock d t)
  then show ?case by (simp add: log_evolves_same)
qed (erule claim_log.extends_log heartbeat_log.extends_log release_log.extends_log unimplemented_log.extends_log
    reclaim_log.extends_log promote_log.extends_log propagate_log.extends_log
    satisfy_log.extends_log reserve_log.extends_log complete_log.extends_log
    attempt_log.extends_log receipt_log.extends_log reconcile_log.extends_log
    promote_due_log.extends_log detect_log.extends_log cycle_log.extends_log
    maturity_log.extends_log weekly_log.extends_log dispatch_log.extends_log
    decision_log.extends_log start_log.extends_log retry_log.extends_log cancel_log.extends_log
    engine_reconcile_log.extends_log)+

lemma run_evolves:
  assumes "system_run d e" and "jobs_ok d"
  shows "db_evolves d e \<and> jobs_ok e \<and> log_evolves d e"
  using assms(1) unfolding system_run_def
proof (induction rule: rtranclp_induct)
  case base
  then show ?case using assms(2) by simp
next
  case (step y z)
  then show ?case
    using step_evolves step_log db_evolves_trans db_evolves_ok log_evolves_trans by blast
qed

lemma empty_db_ok: "jobs_ok (empty_db shops t)" "event_keys_unique (empty_db shops t)"
  by (simp_all add: empty_db_def jobs_ok_def job_keys_unique_def event_keys_unique_def)

lemma reachable_ok: "reachable shops d \<Longrightarrow> jobs_ok d \<and> event_keys_unique d"
proof (induction rule: reachable.induct)
  case (initial t)
  then show ?case by (simp add: empty_db_ok)
next
  case (extended d e)
  then show ?case using step_evolves db_evolves_ok step_log by (auto simp: log_evolves_def)
qed

text \<open>What the invariant of a row says of its budget and of its lease.\<close>

lemma job_inv_budget:
  "job_inv j \<Longrightarrow> 0 < j_max_attempts j \<and> j_attempt j \<le> j_max_attempts j \<and>
     (live_status (j_status j) \<longrightarrow> j_attempt j < j_max_attempts j)"
  by (auto simp: job_inv_def check_job_def bindE_eq_Inr)

lemma job_inv_lease:
  assumes "job_inv j"
  shows "(j_lease_owner j = None \<longleftrightarrow> j_lease_expires_at j = None) \<and>
     (j_lease_owner j = None \<longleftrightarrow> j_heartbeat_at j = None) \<and>
     (j_status j = J_RUNNING \<longrightarrow> j_lease_owner j \<noteq> None) \<and>
     (j_lease_owner j \<noteq> None \<and> j_status j \<noteq> J_RUNNING \<longrightarrow>
        agent_map (j_owner_agent_id j) = None \<and> j_status j \<in> {J_FAILED, J_READY, J_CANCELLED})"
  using assms
  by (cases "j_status j = J_RUNNING")
    (auto simp: job_inv_def lease_abandoned_def lease_fields_set_def lease_fields_clear_def agent_map_implemented)

subsection \<open>The worker refines the step relation\<close>

lemma run_refl: "system_run d d"
  by (simp add: system_run_def)

lemma run_step: "system_step d e \<Longrightarrow> system_run d e"
  by (simp add: system_run_def)

lemma run_trans: "system_run d e \<Longrightarrow> system_run e f \<Longrightarrow> system_run d f"
  unfolding system_run_def by (rule rtranclp_trans)

lemma emit_events_run:
  assumes "emit_events env i job result d = Inr e"
  shows "system_run d e"
  using assms unfolding emit_events_def
proof (rule foldE_induct)
  show "system_run d d" for d by (rule run_refl)
  show "system_run a b \<Longrightarrow> system_run b c \<Longrightarrow> system_run a c" for a b c by (rule run_trans)
qed (auto simp: bindE_eq_Inr intro: run_step [OF system_step.dispatched])

lemma try_execute_run:
  assumes "try_execute env i job (d, s) = Inr (outcome, (d', s'))"
    and "registry_consistent (rn_registry (wk_runner env))"
    and job: "get_job d (j_id job) = Some job" "j_status job = J_RUNNING"
  shows "system_run d d'"
proof -
  from assms(1) obtain e a where e: "job_envelope_of job = Inr e"
    and a: "get_definition (rn_registry (wk_runner env)) (je_owner_agent_id e) = Inr a"
    by (auto simp: try_execute_def bindE_eq_Inr)
  have owner: "ad_agent_id a = j_owner_agent_id job"
    using a assms(2) envelope_owner [OF e] by (auto simp: get_definition_def registry_consistent_def)
  show ?thesis
  proof (cases "agent_map (ad_agent_id a)")
    case None
    with assms(1) e a have "fail_unimplemented (it_now i) job d = Inr ((), d')"
      by (auto simp: try_execute_def bindE_eq_Inr)
    with job None owner show ?thesis by (auto intro: run_step system_step.unimplemented)
  next
    case (Some agent)
    with assms(1) e a obtain result d1 d2 where
      steps: "heartbeat (j_id job) (wk_worker_id env) (it_now i) None d = Inr ((), d1)"
        "release_lease (j_id job) (wk_worker_id env) (it_now i) (final_status_of (rs_status result)) d1 = Inr ((), d2)"
      and ev: "emit_events env i job result d2 = Inr d'"
      by (auto simp: try_execute_def bindE_eq_Inr)
    have "running (j_id job) d1"
      using heartbeat_wrote [OF steps(1) job(1)] job(2) by (auto simp: running_def wrote_row_def)
    from system_step.beat [OF steps(1)] system_step.release [OF this steps(2)] emit_events_run [OF ev]
    show ?thesis using run_step run_trans by blast
  qed
qed

lemma worker_iteration_run:
  assumes "worker_iteration env i (d, s) = Inr (outcome, (d', s'))"
    and reg: "registry_consistent (rn_registry (wk_runner env))"
  shows "system_run d d'"
  using assms(1)
proof (cases rule: worker_iteration_cases)
  case idle
  then show ?thesis by (simp add: run_refl)
next
  case (claimed job e)
  note first = run_step [OF system_step.claim [OF claimed(1)]]
  from claimed(1) have job: "get_job e (j_id job) = Some job" "j_status job = J_RUNNING"
    by (rule claim_wrote, simp add: wrote_row_def)+
  from claimed(2) show ?thesis
  proof (cases rule: execute_job_cases)
    case finished
    from try_execute_run [OF finished reg job] show ?thesis using first run_trans by blast
  next
    case (uncommissioned u)
    have "running (j_id job) e" using job by (simp add: running_def)
    from run_step [OF system_step.release [OF this uncommissioned(2)]] show ?thesis using first run_trans by blast
  next
    case rolled_back
    then show ?thesis by (simp add: run_refl)
  qed
qed

end
