(* ===== verification/Product_Contracts.thy ===== *)
theory Product_Contracts
  imports Config
begin

section \<open>Product, build and listing contracts\<close>

text \<open>
  \<^verbatim>\<open>domain/models/products.py\<close> and \<^verbatim>\<open>domain/models/listings.py\<close>: specifications, research and
  teardown reports, dedupe, build, QA and preflight results, and the listing package. As in
  \<open>Contracts\<close> a model is a record and its \<open>validate_\<close> function checks the field constraints and
  then the model validators in the order the class declares them. Decimals are rationals, strings
  are stripped. A character stands for the code point below 256 of its number.
\<close>

text \<open>
  \<^verbatim>\<open>str.casefold\<close> on these characters: the capital letters have small ones, the sharp s becomes two
  letters, and the micro sign becomes the Greek letter mu. That letter is the only result outside
  the range; as no folded text has a micro sign left, its character stands for the letter.
\<close>

definition casefold_char :: "char \<Rightarrow> string" where
  "casefold_char c = (let n = (of_char c :: nat) in
     if 65 \<le> n \<and> n \<le> 90 \<or> 192 \<le> n \<and> n \<le> 222 \<and> n \<noteq> 215 then [char_of (n + 32)]
     else if n = 223 then ''ss'' else [c])"

definition casefold :: "string \<Rightarrow> string" where
  "casefold s = concat (map casefold_char s)"

definition non_empty :: "string \<Rightarrow> bool" where
  "non_empty s \<longleftrightarrow> s \<noteq> []"

definition non_empty_tuple :: "string list \<Rightarrow> bool" where
  "non_empty_tuple ss \<longleftrightarrow> ss \<noteq> [] \<and> list_all non_empty ss"

subsection \<open>Research and teardown\<close>

record research_observation =
  ro_observation_id :: uuid
  ro_source_reference :: string
  ro_observed_at :: time
  ro_title :: string
  ro_shop_reference :: "string option"
  ro_facts :: "(string \<times> json) list"
  ro_evidence :: "evidence_reference list"

definition research_observation_fields :: "research_observation \<Rightarrow> bool" where
  "research_observation_fields o' \<longleftrightarrow> non_empty (ro_source_reference o') \<and> non_empty (ro_title o') \<and>
     opt_non_empty (ro_shop_reference o') \<and> ro_evidence o' \<noteq> []"

record research_report =
  rr_report_id :: uuid
  rr_workflow_id :: uuid
  rr_source_policy_version :: string
  rr_query_terms :: "string list"
  rr_observations :: "research_observation list"
  rr_summary_facts :: "(string \<times> json) list"
  rr_completed_at :: time

definition validate_research_report :: "research_report \<Rightarrow> error + research_report" where
  "validate_research_report r =
     bindE (guardE (non_empty (rr_source_policy_version r) \<and> non_empty_tuple (rr_query_terms r) \<and>
        rr_observations r \<noteq> [] \<and> list_all research_observation_fields (rr_observations r))
        (ValueError ''field'')) (\<lambda>_. Inr r)"

record teardown_report =
  tr_report_id :: uuid
  tr_workflow_id :: uuid
  tr_competitor_reference :: string
  tr_purchase_receipt_reference :: "string option"
  tr_structure_components :: "string list"
  tr_buyer_journey :: "string list"
  tr_mechanics :: "string list"
  tr_copied_protected_content :: bool
  tr_source_evidence :: "evidence_reference list"
  tr_completed_at :: time

definition validate_teardown_report :: "teardown_report \<Rightarrow> error + teardown_report" where
  "validate_teardown_report r =
     bindE (guardE (non_empty (tr_competitor_reference r) \<and> opt_non_empty (tr_purchase_receipt_reference r) \<and>
        non_empty_tuple (tr_structure_components r) \<and> non_empty_tuple (tr_buyer_journey r) \<and>
        non_empty_tuple (tr_mechanics r) \<and> \<not> tr_copied_protected_content r \<and> tr_source_evidence r \<noteq> [])
        (ValueError ''field'')) (\<lambda>_. Inr r)"

subsection \<open>Product specification\<close>

datatype lineage_kind = ORIGINAL | RECONCEPT | SUCCESSOR

record product_spec =
  sp_spec_id :: uuid
  sp_workflow_id :: uuid
  sp_product_id :: uuid
  sp_version :: int
  sp_lineage_kind :: lineage_kind
  sp_parent_spec_id :: "uuid option"
  sp_parent_product_id :: "uuid option"
  sp_parent_decision_id :: "uuid option"
  sp_parent_workflow_id :: "uuid option"
  sp_shape_rules :: product_shape_rules
  sp_identity :: string
  sp_base_category :: string
  sp_buyer_problem :: string
  sp_title :: string
  sp_tier :: string
  sp_real_price :: rat
  sp_anchor_price :: rat
  sp_currency :: string
  sp_hubs :: "string list"
  sp_colour_variants :: "string list"
  sp_features :: "string list"
  sp_experiment_plan :: string
  sp_concept_fingerprint :: string
  sp_source_evidence :: "evidence_reference list"
  sp_created_at :: time

definition product_spec_fields :: "product_spec \<Rightarrow> bool" where
  "product_spec_fields p \<longleftrightarrow> 0 < sp_version p \<and> non_empty (sp_identity p) \<and> non_empty (sp_base_category p) \<and>
     non_empty (sp_buyer_problem p) \<and> non_empty (sp_title p) \<and> non_empty (sp_tier p) \<and>
     0 < sp_real_price p \<and> 0 < sp_anchor_price p \<and> currency_is_iso4217 (sp_currency p) \<and>
     non_empty_tuple (sp_hubs p) \<and> non_empty_tuple (sp_colour_variants p) \<and> non_empty_tuple (sp_features p) \<and>
     non_empty (sp_experiment_plan p) \<and> sha256_hex (sp_concept_fingerprint p) \<and> sp_source_evidence p \<noteq> []"

definition validate_prices_and_lineage :: "product_spec \<Rightarrow> error + product_spec" where
  "validate_prices_and_lineage p =
     bindE (guardE (\<not> sp_anchor_price p < sp_real_price p)
        (ValueError ''anchor_price must be at least real_price'')) (\<lambda>_.
     bindE (guardE (sp_parent_spec_id p \<noteq> Some (sp_spec_id p))
        (ValueError ''parent_spec_id cannot equal spec_id'')) (\<lambda>_.
     let parent_fields = [sp_parent_spec_id p, sp_parent_product_id p, sp_parent_decision_id p,
        sp_parent_workflow_id p] in
     bindE (guardE (\<not> (sp_lineage_kind p = ORIGINAL \<and> list_ex (\<lambda>v. v \<noteq> None) parent_fields))
        (ValueError ''ORIGINAL ProductSpec forbids parent lineage'')) (\<lambda>_.
     bindE (guardE (\<not> (sp_lineage_kind p = RECONCEPT \<and> sp_parent_spec_id p = None))
        (ValueError ''RECONCEPT ProductSpec requires parent_spec_id'')) (\<lambda>_.
     bindE (if sp_lineage_kind p = SUCCESSOR
        then bindE (guardE (\<not> list_ex (\<lambda>v. v = None) parent_fields)
            (ValueError ''SUCCESSOR ProductSpec requires complete parent lineage'')) (\<lambda>_.
          guardE (sp_parent_workflow_id p \<noteq> Some (sp_workflow_id p))
            (ValueError ''successor workflow must differ from parent workflow''))
        else Inr ()) (\<lambda>_. Inr p)))))"

definition validate_product_shape :: "product_spec \<Rightarrow> error + product_spec" where
  "validate_product_shape p = (let rules = sp_shape_rules p;
      hubs = map casefold (sp_hubs p); variants = map casefold (sp_colour_variants p) in
     bindE (guardE (distinct hubs) (ValueError ''hubs must be unique'')) (\<lambda>_.
     bindE (guardE (ps_hubs_minimum rules \<le> int (length hubs) \<and> int (length hubs) \<le> ps_hubs_maximum rules)
        (ValueError ''hubs'')) (\<lambda>_.
     bindE (guardE (distinct variants) (ValueError ''colour variants must be unique'')) (\<lambda>_.
     bindE (guardE (ps_colour_variants_minimum rules \<le> int (length variants) \<and>
          int (length variants) \<le> ps_colour_variants_maximum rules) (ValueError ''colour variants'')) (\<lambda>_.
     Inr p)))))"

definition validate_product_spec :: "product_spec \<Rightarrow> error + product_spec" where
  "validate_product_spec p = bindE (guardE (product_spec_fields p) (ValueError ''field'')) (\<lambda>_.
     bindE (validate_prices_and_lineage p) validate_product_shape)"

subsection \<open>Dedupe results\<close>

datatype collision_reason = EXACT_IDENTITY_CATEGORY | TITLE_SIMILARITY | CONCEPT_FINGERPRINT

record dedupe_collision =
  dc_other_spec_id :: uuid
  dc_reason :: collision_reason
  dc_similarity :: rat
  dc_evidence :: "evidence_reference list"

definition validate_dedupe_collision :: "dedupe_collision \<Rightarrow> error + dedupe_collision" where
  "validate_dedupe_collision c =
     bindE (guardE (0 \<le> dc_similarity c \<and> dc_similarity c \<le> 1 \<and> dc_evidence c \<noteq> []) (ValueError ''field'')) (\<lambda>_.
     Inr c)"

record dedupe_result =
  dd_result_id :: uuid
  dd_workflow_id :: uuid
  dd_spec_id :: uuid
  dd_outcome :: branch_outcome
  dd_rule_version :: string
  dd_normalized_title :: string
  dd_concept_fingerprint :: string
  dd_title_similarity_threshold :: rat
  dd_compared_spec_ids :: "uuid list"
  dd_collisions :: "dedupe_collision list"
  dd_differentiation_evidence :: "string list"
  dd_completed_at :: time

definition validate_dedupe_outcome :: "dedupe_result \<Rightarrow> error + dedupe_result" where
  "validate_dedupe_outcome r =
     bindE (guardE (non_empty (dd_rule_version r) \<and> non_empty (dd_normalized_title r) \<and>
        sha256_hex (dd_concept_fingerprint r) \<and> 0 \<le> dd_title_similarity_threshold r \<and>
        dd_title_similarity_threshold r \<le> 1 \<and> list_all non_empty (dd_differentiation_evidence r))
        (ValueError ''field'')) (\<lambda>_.
     bindE (guardE (dd_outcome r \<in> {PASS, TOO_CLOSE})
        (ValueError ''DedupeResult outcome must be PASS or TOO_CLOSE'')) (\<lambda>_.
     bindE (guardE (\<not> dd_title_similarity_threshold r \<le> 0)
        (ValueError ''title_similarity_threshold must be positive'')) (\<lambda>_.
     bindE (guardE (distinct (dd_compared_spec_ids r)) (ValueError ''compared_spec_ids must be unique'')) (\<lambda>_.
     bindE (guardE (dd_spec_id r \<notin> set (dd_compared_spec_ids r))
        (ValueError ''a spec is not compared with itself'')) (\<lambda>_.
     bindE (foldE (\<lambda>c _.
         bindE (guardE (dc_other_spec_id c \<in> set (dd_compared_spec_ids r))
           (ValueError ''every collision must cite a compared spec'')) (\<lambda>_.
         guardE (\<not> (dc_reason c = TITLE_SIMILARITY \<and> dc_similarity c < dd_title_similarity_threshold r))
           (ValueError ''a TITLE_SIMILARITY collision must meet the configured threshold'')))
         (dd_collisions r) ()) (\<lambda>_.
     bindE (if dd_outcome r = PASS
        then bindE (guardE (dd_collisions r = []) (ValueError ''PASS forbids collisions'')) (\<lambda>_.
          guardE (\<not> (dd_compared_spec_ids r \<noteq> [] \<and> dd_differentiation_evidence r = []))
            (ValueError ''PASS against an existing catalogue requires differentiation''))
        else bindE (guardE (dd_collisions r \<noteq> []) (ValueError ''TOO_CLOSE requires collision evidence'')) (\<lambda>_.
          guardE (dd_differentiation_evidence r = [])
            (ValueError ''TOO_CLOSE cannot claim differentiation; reconcept instead''))) (\<lambda>_.
     Inr r)))))))"

subsection \<open>Build and QA results\<close>

datatype build_kind = K_PRIMARY | K_VARIANT | K_REPAIR | K_ASSET | K_DELIVERY

record build_outcome =
  bo_result_id :: uuid
  bo_workflow_id :: uuid
  bo_product_id :: uuid
  bo_spec_id :: uuid
  bo_build_version :: int
  bo_build_kind :: build_kind
  bo_artifacts :: "artifact_reference list"
  bo_checkpoint_names :: "string list"
  bo_provider_object_references :: "(string \<times> string) list"
  bo_completed_at :: time

definition validate_unique_outputs :: "build_outcome \<Rightarrow> error + build_outcome" where
  "validate_unique_outputs r =
     bindE (guardE (0 < bo_build_version r \<and> bo_artifacts r \<noteq> [] \<and> non_empty_tuple (bo_checkpoint_names r) \<and>
        list_all (non_empty \<circ> snd) (bo_provider_object_references r)) (ValueError ''field'')) (\<lambda>_.
     bindE (guardE (distinct (map ar_artifact_id (bo_artifacts r)))
        (ValueError ''build artifacts must be unique'')) (\<lambda>_.
     bindE (guardE (distinct (bo_checkpoint_names r)) (ValueError ''checkpoint names must be unique'')) (\<lambda>_.
     Inr r)))"

record product_qa_result =
  qa_result_id :: uuid
  qa_build_result_id :: uuid
  qa_checked_artifact_ids :: "uuid list"
  qa_outcome :: branch_outcome
  qa_checks :: "check_result list"
  qa_defect_codes :: "string list"
  qa_evidence :: "evidence_reference list"
  qa_completed_at :: time

definition validate_qa_outcome :: "product_qa_result \<Rightarrow> error + product_qa_result" where
  "validate_qa_outcome r =
     bindE (guardE (qa_checked_artifact_ids r \<noteq> [] \<and> qa_checks r \<noteq> [] \<and> list_all non_empty (qa_defect_codes r) \<and>
        qa_evidence r \<noteq> []) (ValueError ''field'')) (\<lambda>_.
     let failed_checks = filter (\<lambda>c. \<not> cr_passed c) (qa_checks r) in
     bindE (guardE (distinct (qa_checked_artifact_ids r)) (ValueError ''checked artifact IDs must be unique'')) (\<lambda>_.
     bindE (guardE (qa_outcome r \<in> {PASS, FAIL})
        (ValueError ''ProductQAResult outcome must be PASS or FAIL'')) (\<lambda>_.
     bindE (guardE (\<not> (qa_outcome r = PASS \<and> failed_checks \<noteq> []))
        (ValueError ''PASS requires every check to pass'')) (\<lambda>_.
     bindE (guardE (\<not> (qa_outcome r = PASS \<and> qa_defect_codes r \<noteq> []))
        (ValueError ''PASS forbids defect codes'')) (\<lambda>_.
     bindE (guardE (\<not> (qa_outcome r = FAIL \<and> failed_checks = []))
        (ValueError ''FAIL requires a failed check'')) (\<lambda>_.
     bindE (guardE (\<not> (qa_outcome r = FAIL \<and> qa_defect_codes r = []))
        (ValueError ''FAIL requires defect codes'')) (\<lambda>_. Inr r)))))))"

subsection \<open>Listing package and preflight\<close>

record listing_package =
  lp_package_id :: uuid
  lp_workflow_id :: uuid
  lp_product_id :: uuid
  lp_spec_id :: uuid
  lp_listing_version :: int
  lp_rules :: listing_rules
  lp_title :: string
  lp_description_sections :: "string list"
  lp_tags :: "string list"
  lp_currency :: string
  lp_price :: rat
  lp_anchor_price :: rat
  lp_quantity :: int
  lp_digital_product :: bool
  lp_media_artifacts :: "artifact_reference list"
  lp_delivery_artifacts :: "artifact_reference list"
  lp_claim_evidence :: "evidence_reference list"
  lp_package_sha256 :: string
  lp_created_at :: time

definition listing_description :: "listing_package \<Rightarrow> string" where
  "listing_description p = join_with [CHR 0x0A, CHR 0x0A] (lp_description_sections p)"

definition listing_package_fields :: "listing_package \<Rightarrow> bool" where
  "listing_package_fields p \<longleftrightarrow> 0 < lp_listing_version p \<and> non_empty (lp_title p) \<and>
     non_empty_tuple (lp_description_sections p) \<and> non_empty_tuple (lp_tags p) \<and>
     currency_is_iso4217 (lp_currency p) \<and> 0 < lp_price p \<and> 0 < lp_anchor_price p \<and> 0 < lp_quantity p \<and>
     lp_digital_product p \<and> lp_media_artifacts p \<noteq> [] \<and> lp_delivery_artifacts p \<noteq> [] \<and>
     lp_claim_evidence p \<noteq> [] \<and> sha256_hex (lp_package_sha256 p)"

definition validate_unique_components :: "listing_package \<Rightarrow> error + listing_package" where
  "validate_unique_components p =
     bindE (guardE (distinct (map casefold (lp_tags p))) (ValueError ''listing tags must be unique'')) (\<lambda>_.
     bindE (guardE (distinct (map ar_artifact_id (lp_media_artifacts p @ lp_delivery_artifacts p)))
        (ValueError ''listing artifacts must be unique'')) (\<lambda>_. Inr p))"

definition role_count :: "string \<Rightarrow> artifact_reference list \<Rightarrow> int" where
  "role_count role items = int (length (filter (\<lambda>item. ar_logical_role item = role) items))"

definition validate_listing_shape :: "listing_package \<Rightarrow> error + listing_package" where
  "validate_listing_shape p = (let rules = lp_rules p in
     bindE (guardE (int (length (lp_tags p)) = lr_tags rules) (ValueError ''tags'')) (\<lambda>_.
     bindE (guardE (int (length (lp_description_sections p)) = lr_description_sections rules)
        (ValueError ''sections'')) (\<lambda>_.
     let images = role_count (lr_image_role rules) (lp_media_artifacts p);
         videos = role_count (lr_video_role rules) (lp_media_artifacts p) in
     bindE (guardE (images = lr_images rules) (ValueError ''images'')) (\<lambda>_.
     bindE (guardE (videos = lr_videos rules) (ValueError ''videos'')) (\<lambda>_.
     bindE (guardE (images + videos = int (length (lp_media_artifacts p)))
        (ValueError ''listing media artifacts must all be listing images or videos'')) (\<lambda>_.
     bindE (guardE (lp_quantity p = lr_quantity rules) (ValueError ''quantity'')) (\<lambda>_.
     bindE (guardE (\<not> lp_anchor_price p < lp_price p)
        (ValueError ''anchor_price must be at least the listing price'')) (\<lambda>_. Inr p))))))))"

definition validate_listing_package :: "listing_package \<Rightarrow> error + listing_package" where
  "validate_listing_package p = bindE (guardE (listing_package_fields p) (ValueError ''field'')) (\<lambda>_.
     bindE (validate_unique_components p) validate_listing_shape)"

record preflight_result =
  pr_result_id :: uuid
  pr_listing_package_id :: uuid
  pr_listing_package_sha256 :: string
  pr_outcome :: branch_outcome
  pr_checks :: "check_result list"
  pr_repair_job_types :: "string list"
  pr_evidence :: "evidence_reference list"
  pr_completed_at :: time

definition validate_preflight_outcome :: "preflight_result \<Rightarrow> error + preflight_result" where
  "validate_preflight_outcome r =
     bindE (guardE (sha256_hex (pr_listing_package_sha256 r) \<and> pr_checks r \<noteq> [] \<and>
        list_all non_empty (pr_repair_job_types r) \<and> pr_evidence r \<noteq> []) (ValueError ''field'')) (\<lambda>_.
     let failed_checks = filter (\<lambda>c. \<not> cr_passed c) (pr_checks r) in
     bindE (guardE (pr_outcome r \<in> {PASS, FAIL})
        (ValueError ''PreflightResult outcome must be PASS or FAIL'')) (\<lambda>_.
     bindE (guardE (\<not> (pr_outcome r = PASS \<and> failed_checks \<noteq> []))
        (ValueError ''PASS requires every check to pass'')) (\<lambda>_.
     bindE (guardE (\<not> (pr_outcome r = PASS \<and> pr_repair_job_types r \<noteq> []))
        (ValueError ''PASS forbids repair jobs'')) (\<lambda>_.
     bindE (guardE (\<not> (pr_outcome r = FAIL \<and> failed_checks = []))
        (ValueError ''FAIL requires a failed check'')) (\<lambda>_.
     bindE (guardE (\<not> (pr_outcome r = FAIL \<and> pr_repair_job_types r = []))
        (ValueError ''FAIL requires a repair job'')) (\<lambda>_. Inr r))))))"

subsection \<open>What an accepted contract guarantees\<close>

lemma both_roles:
  assumes "r \<noteq> r'" and "role_count r items + role_count r' items = int (length items)"
  shows "\<forall>a \<in> set items. ar_logical_role a = r \<or> ar_logical_role a = r'"
proof -
  have le: "role_count r xs + role_count r' xs \<le> int (length xs)" for xs
    using assms(1) by (induction xs) (auto simp: role_count_def)
  show ?thesis using assms(2)
  proof (induction items)
    case Nil
    then show ?case by simp
  next
    case (Cons a items)
    then show ?case using assms(1) le [of items] by (auto simp: role_count_def split: if_splits)
  qed
qed

text \<open>
  An accepted listing package under accepted rules holds exactly the configured number of images
  and videos and no other medium, shares no artifact between media and delivery, and is priced at
  or below its anchor.
\<close>

theorem accepted_listing_is_complete:
  assumes "validate_roles (lp_rules p) = Inr rules" and "validate_listing_package p = Inr q"
  shows "q = p \<and> rules = lp_rules p \<and>
    (\<forall>a \<in> set (lp_media_artifacts p). ar_logical_role a \<in> {lr_image_role rules, lr_video_role rules}) \<and>
    length (lp_media_artifacts p) = nat (lr_images rules) + nat (lr_videos rules) \<and>
    role_count (lr_image_role rules) (lp_media_artifacts p) = lr_images rules \<and>
    distinct (map ar_artifact_id (lp_media_artifacts p @ lp_delivery_artifacts p)) \<and>
    distinct (map casefold (lp_tags p)) \<and> 0 < lp_price p \<and> lp_price p \<le> lp_anchor_price p"
proof -
  have r: "rules = lp_rules p" "lr_image_role rules \<noteq> lr_video_role rules" "0 < lr_images rules" "0 < lr_videos rules"
    using assms(1) by (auto simp: validate_roles_def resolve)
  let ?i = "role_count (lr_image_role rules) (lp_media_artifacts p)"
  let ?v = "role_count (lr_video_role rules) (lp_media_artifacts p)"
  have v: "q = p" "?i = lr_images rules" "?v = lr_videos rules" "?i + ?v = int (length (lp_media_artifacts p))"
    "distinct (map ar_artifact_id (lp_media_artifacts p @ lp_delivery_artifacts p))"
    "distinct (map casefold (lp_tags p))" "0 < lp_price p" "lp_price p \<le> lp_anchor_price p"
    using assms(2) unfolding r(1)
    by (auto simp: validate_listing_package_def validate_unique_components_def validate_listing_shape_def
      listing_package_fields_def resolve Let_def)
  have "length (lp_media_artifacts p) = nat (lr_images rules) + nat (lr_videos rules)"
    using v(2-4) r(3,4) by linarith
  then show ?thesis using v r both_roles [OF r(2) v(4)] by auto
qed

text \<open>
  The verdict of an accepted QA or preflight result is PASS exactly when every check passed, and
  FAIL exactly when there is a defect code, respectively a repair job.
\<close>

theorem verdicts_follow_checks:
  "(validate_qa_outcome r = Inr r' \<longrightarrow> r' = r \<and>
      (qa_outcome r = PASS \<longleftrightarrow> list_all cr_passed (qa_checks r)) \<and>
      (qa_outcome r = FAIL \<longleftrightarrow> qa_defect_codes r \<noteq> [])) \<and>
   (validate_preflight_outcome p = Inr p' \<longrightarrow> p' = p \<and>
      (pr_outcome p = PASS \<longleftrightarrow> list_all cr_passed (pr_checks p)) \<and>
      (pr_outcome p = FAIL \<longleftrightarrow> pr_repair_job_types p \<noteq> []))"
  by (auto simp: validate_qa_outcome_def validate_preflight_outcome_def resolve Let_def
    filter_empty_conv list_all_iff)

definition example_artifact :: "uuid \<Rightarrow> string \<Rightarrow> artifact_reference" where
  "example_artifact i role = \<lparr>ar_artifact_id = i, ar_logical_role = role, ar_media_type = ''image/png'',
     ar_sha256 = replicate 64 CHR ''0'', ar_byte_size = 1, ar_storage_reference = ''x'',
     ar_producing_job_id = 1, ar_producing_agent_run_id = 1, ar_created_at = 0, ar_sensitivity = PUBLIC,
     ar_retention_class = ''x'', ar_parent_artifact_ids = []\<rparr>"

definition example_package :: listing_package where
  "example_package = \<lparr>lp_package_id = 1, lp_workflow_id = 1, lp_product_id = 1, lp_spec_id = 1,
     lp_listing_version = 1, lp_rules = \<lparr>lr_rule_version = ''1'', lr_tags = 1, lr_images = 1, lr_videos = 1,
       lr_description_sections = 1, lr_quantity = 5, lr_image_role = ''image'', lr_video_role = ''video''\<rparr>,
     lp_title = ''t'', lp_description_sections = [''d''], lp_tags = [''tag''], lp_currency = ''GBP'',
     lp_price = 9, lp_anchor_price = 20, lp_quantity = 5, lp_digital_product = True,
     lp_media_artifacts = [example_artifact 1 ''image'', example_artifact 2 ''video''],
     lp_delivery_artifacts = [example_artifact 3 ''pdf''],
     lp_claim_evidence = [\<lparr>er_evidence_id = 1, er_evidence_type = ''x'', er_source_reference = ''x'',
       er_observed_at = 0, er_sha256 = None, er_artifact_id = None, er_producing_job_id = None,
       er_safe_summary = ''x''\<rparr>],
     lp_package_sha256 = replicate 64 CHR ''0'', lp_created_at = 0\<rparr>"

theorem accepted_listing_is_complete_witness:
  "length (lp_media_artifacts example_package) = 2 \<and> lp_price example_package \<le> lp_anchor_price example_package"
proof -
  have v: "validate_roles (lp_rules example_package) = Inr (lp_rules example_package)"
    "validate_listing_package example_package = Inr example_package" by code_simp+
  have n: "nat (lr_images (lp_rules example_package)) + nat (lr_videos (lp_rules example_package)) = 2" by code_simp
  show ?thesis using accepted_listing_is_complete [OF v] n by simp
qed

end
