(* ===== verification/Dedupe.thy ===== *)
theory Dedupe
  imports Product_Contracts Calendar
begin

section \<open>Catalogue dedupe\<close>

text \<open>
  \<^verbatim>\<open>domain/services/dedupe.py\<close>. A character of the model is a code point below 256; on these the
  Unicode tables are written out, so accented letters, superscripts and fractions are normalised
  as the code does it. A similarity is the exact ratio: the double nearest to a ratio of two
  set sizes below \<open>2 ^ 50\<close> is at least 0.70 exactly when the ratio is at least 7/10, and its
  decimal rendering keeps that order. The clock of the evidence and the rendering of a similarity
  with three decimals are arguments.
\<close>

subsection \<open>Title normalisation\<close>

text \<open>
  \<^verbatim>\<open>unicodedata.normalize("NFKD", s)\<close> on the code points below 256: the compatibility decompositions
  of the Unicode character database, into letters, digits, spaces, the Greek letter mu (956), the
  fraction slash (8260) and combining marks (768 and above). No two marks meet, so there is nothing
  to reorder.
\<close>

definition decompositions :: "(int \<times> int list) list" where
  "decompositions = [
     (160, [32]), (168, [32, 776]), (170, [97]), (175, [32, 772]), (178, [50]), (179, [51]),
     (180, [32, 769]), (181, [956]), (184, [32, 807]), (185, [49]), (186, [111]), (188, [49, 8260, 52]),
     (189, [49, 8260, 50]), (190, [51, 8260, 52]), (192, [65, 768]), (193, [65, 769]), (194, [65, 770]),
     (195, [65, 771]), (196, [65, 776]), (197, [65, 778]), (199, [67, 807]), (200, [69, 768]),
     (201, [69, 769]), (202, [69, 770]), (203, [69, 776]), (204, [73, 768]), (205, [73, 769]),
     (206, [73, 770]), (207, [73, 776]), (209, [78, 771]), (210, [79, 768]), (211, [79, 769]),
     (212, [79, 770]), (213, [79, 771]), (214, [79, 776]), (217, [85, 768]), (218, [85, 769]),
     (219, [85, 770]), (220, [85, 776]), (221, [89, 769]), (224, [97, 768]), (225, [97, 769]),
     (226, [97, 770]), (227, [97, 771]), (228, [97, 776]), (229, [97, 778]), (231, [99, 807]),
     (232, [101, 768]), (233, [101, 769]), (234, [101, 770]), (235, [101, 776]), (236, [105, 768]),
     (237, [105, 769]), (238, [105, 770]), (239, [105, 776]), (241, [110, 771]), (242, [111, 768]),
     (243, [111, 769]), (244, [111, 770]), (245, [111, 771]), (246, [111, 776]), (249, [117, 768]),
     (250, [117, 769]), (251, [117, 770]), (252, [117, 776]), (253, [121, 769]), (255, [121, 776])]"

definition nfkd_point :: "int \<Rightarrow> int list" where
  "nfkd_point n = (case map_of decompositions n of Some ps \<Rightarrow> ps | None \<Rightarrow> [n])"

text \<open>\<^verbatim>\<open>str.casefold\<close> on the decomposed code points.\<close>

definition casefold_point :: "int \<Rightarrow> int list" where
  "casefold_point n = (if 65 \<le> n \<and> n \<le> 90 \<or> 192 \<le> n \<and> n \<le> 222 \<and> n \<noteq> 215 then [n + 32]
     else if n = 223 then [115, 115] else if n = 181 then [956] else [n])"

text \<open>\<^verbatim>\<open>\\w\<close> and \<^verbatim>\<open>\\s\<close> of the \<^verbatim>\<open>re\<close> module on these code points.\<close>

definition is_word_point :: "int \<Rightarrow> bool" where
  "is_word_point n \<longleftrightarrow> 48 \<le> n \<and> n \<le> 57 \<or> 65 \<le> n \<and> n \<le> 90 \<or> n = 95 \<or> 97 \<le> n \<and> n \<le> 122 \<or>
     n \<in> {170, 178, 179, 181, 185, 186, 188, 189, 190} \<or>
     192 \<le> n \<and> n \<le> 255 \<and> n \<noteq> 215 \<and> n \<noteq> 247 \<or> n = 956"

definition is_space_point :: "int \<Rightarrow> bool" where
  "is_space_point n \<longleftrightarrow> 9 \<le> n \<and> n \<le> 13 \<or> 28 \<le> n \<and> n \<le> 32 \<or> n = 133 \<or> n = 160"

definition is_space :: "char \<Rightarrow> bool" where
  "is_space c \<longleftrightarrow> is_space_point (of_char c)"

text \<open>Mu is written with the character of the micro sign, which no decomposed text contains.\<close>

definition point_char :: "int \<Rightarrow> char" where
  "point_char n = (if n = 956 then char_of (181 :: int) else char_of n)"

text \<open>\<^verbatim>\<open>re.sub(r"\\s+", " ", s)\<close>\<close>

declare length_dropWhile_le [termination_simp]

fun collapse :: "string \<Rightarrow> string" where
  "collapse [] = []"
| "collapse (c # cs) = (if is_space c then CHR '' '' # collapse (dropWhile is_space cs)
     else c # collapse cs)"

definition strip_space :: "string \<Rightarrow> string" where
  "strip_space s = rev (dropWhile is_space (rev (dropWhile is_space s)))"

definition normalize_title :: "string \<Rightarrow> string" where
  "normalize_title title =
     (let normalized = concat (map nfkd_point (map of_char title));
          normalized = concat (map casefold_point normalized);
          normalized = filter (\<lambda>n. is_word_point n \<or> is_space_point n) normalized
      in strip_space (collapse (map point_char normalized)))"

text \<open>\<^verbatim>\<open>str.split()\<close>: the maximal runs of characters that are not space.\<close>

function split_words :: "string \<Rightarrow> string list" where
  "split_words s = (case dropWhile is_space s of
     [] \<Rightarrow> []
   | c # cs \<Rightarrow> (c # takeWhile (\<lambda>c. \<not> is_space c) cs) # split_words (dropWhile (\<lambda>c. \<not> is_space c) cs))"
  by pat_completeness auto

termination
proof (relation "measure length")
  fix s c cs
  assume d: "dropWhile is_space s = c # cs"
  have "length (dropWhile is_space s) \<le> length s" by (rule length_dropWhile_le)
  then have "length cs < length s" by (simp add: d)
  then show "(dropWhile (\<lambda>c. \<not> is_space c) cs, s) \<in> measure length"
    using length_dropWhile_le [of "\<lambda>c. \<not> is_space c" cs] by simp
qed simp

declare split_words.simps [simp del]

definition tokenize_title :: "string \<Rightarrow> string set" where
  "tokenize_title normalized = (if normalized = [] then {} else set (split_words normalized))"

definition calculate_jaccard_similarity :: "string set \<Rightarrow> string set \<Rightarrow> rat" where
  "calculate_jaccard_similarity a b =
     (if a = {} \<and> b = {} then 1
      else if a = {} \<or> b = {} then 0
      else if a \<union> b = {} then 0
      else of_nat (card (a \<inter> b)) / of_nat (card (a \<union> b)))"

subsection \<open>The check\<close>

definition JACCARD_THRESHOLD :: rat where "JACCARD_THRESHOLD = 7 / 10"

text \<open>\<^verbatim>\<open>EvidenceReference\<close> of the dedupe check; its summary is a non-empty stripped string.\<close>

definition dedupe_evidence :: "product_spec \<Rightarrow> string \<Rightarrow> time \<Rightarrow> string \<Rightarrow> error + evidence_reference" where
  "dedupe_evidence candidate source now summary =
     bindE (guardE (strip_str summary \<noteq> []) (ValueError ''field'')) (\<lambda>_.
     Inr \<lparr>er_evidence_id = sp_spec_id candidate, er_evidence_type = ''DEDUPE_CHECK'',
       er_source_reference = source, er_observed_at = now, er_sha256 = None, er_artifact_id = None,
       er_producing_job_id = None, er_safe_summary = strip_str summary\<rparr>)"

definition make_collision ::
  "product_spec \<Rightarrow> product_spec \<Rightarrow> collision_reason \<Rightarrow> rat \<Rightarrow> string \<Rightarrow> time \<Rightarrow> string \<Rightarrow> error + dedupe_collision" where
  "make_collision candidate existing reason similarity source now summary =
     bindE (dedupe_evidence candidate source now summary) (\<lambda>e.
     validate_dedupe_collision \<lparr>dc_other_spec_id = sp_spec_id existing, dc_reason = reason,
       dc_similarity = similarity, dc_evidence = [e]\<rparr>)"

definition normal_form :: "string \<Rightarrow> string" where
  "normal_form s = strip_space (casefold s)"

text \<open>
  One turn of the loop over the catalogue. The clock is read once per collision, so the reading
  is indexed by the number of collisions so far.
\<close>

definition compare_spec ::
  "(rat \<Rightarrow> string) \<Rightarrow> (nat \<Rightarrow> time) \<Rightarrow> product_spec \<Rightarrow> product_spec \<Rightarrow>
   uuid list \<times> dedupe_collision list \<Rightarrow> error + (uuid list \<times> dedupe_collision list)" where
  "compare_spec fmt3 clock candidate existing acc = (case acc of (compared, collisions) \<Rightarrow>
     if sp_spec_id existing = sp_spec_id candidate then Inr (compared, collisions)
     else let compared = compared @ [sp_spec_id existing] in
     bindE (if normal_form (sp_identity candidate) = normal_form (sp_identity existing) \<and>
            normal_form (sp_base_category candidate) = normal_form (sp_base_category existing)
        then bindE (make_collision candidate existing EXACT_IDENTITY_CATEGORY 1 ''SPEC_IDENTITY_CATEGORY''
            (clock (length collisions))
            (''identity='' @ sp_identity candidate @ '', category='' @ sp_base_category candidate))
            (\<lambda>c. Inr (collisions @ [c]))
        else Inr collisions) (\<lambda>collisions.
     let candidate_title = normalize_title (sp_title candidate);
         existing_title = normalize_title (sp_title existing);
         similarity = calculate_jaccard_similarity (tokenize_title candidate_title) (tokenize_title existing_title) in
     bindE (if JACCARD_THRESHOLD \<le> similarity
        then bindE (make_collision candidate existing TITLE_SIMILARITY similarity ''TITLE_TOKENS''
            (clock (length collisions))
            (''candidate='' @ candidate_title @ '', existing='' @ existing_title @ '', jaccard='' @ fmt3 similarity))
            (\<lambda>c. Inr (collisions @ [c]))
        else Inr collisions) (\<lambda>collisions.
     bindE (if sp_concept_fingerprint candidate = sp_concept_fingerprint existing
        then bindE (make_collision candidate existing CONCEPT_FINGERPRINT 1 ''CONCEPT_FINGERPRINT''
            (clock (length collisions)) (''fingerprint='' @ sp_concept_fingerprint candidate))
            (\<lambda>c. Inr (collisions @ [c]))
        else Inr collisions) (\<lambda>collisions.
     Inr (compared, collisions)))))"

definition differentiation :: "product_spec \<Rightarrow> string list" where
  "differentiation c = map strip_str
     [''Identity: '' @ sp_identity c, ''Category: '' @ sp_base_category c,
      ''Buyer problem: '' @ sp_buyer_problem c,
      ''Features: '' @ str_nat (length (sp_features c)) @ '' unique features'',
      ''Hubs: '' @ str_nat (length (sp_hubs c)) @ '' unique hubs'']"

definition check_dedupe ::
  "(rat \<Rightarrow> string) \<Rightarrow> (nat \<Rightarrow> time) \<Rightarrow> product_spec \<Rightarrow> product_spec list \<Rightarrow> string \<Rightarrow> error + dedupe_result" where
  "check_dedupe fmt3 clock candidate existing_specs version =
     bindE (foldE (compare_spec fmt3 clock candidate) existing_specs ([], [])) (\<lambda>(compared, collisions).
     let outcome = (if collisions \<noteq> [] then TOO_CLOSE else PASS);
         evidence = (if collisions \<noteq> [] then []
           else if existing_specs \<noteq> [] then differentiation candidate else []) in
     validate_dedupe_outcome \<lparr>dd_result_id = sp_spec_id candidate, dd_workflow_id = sp_workflow_id candidate,
       dd_spec_id = sp_spec_id candidate, dd_outcome = outcome, dd_rule_version = strip_str version,
       dd_normalized_title = strip_str (normalize_title (sp_title candidate)),
       dd_concept_fingerprint = sp_concept_fingerprint candidate,
       dd_title_similarity_threshold = JACCARD_THRESHOLD, dd_compared_spec_ids = compared,
       dd_collisions = collisions, dd_differentiation_evidence = evidence,
       dd_completed_at = sp_created_at candidate\<rparr>)"

subsection \<open>What normalisation computes\<close>

definition kept_text :: "string \<Rightarrow> string" where
  "kept_text title = map point_char (filter (\<lambda>n. is_word_point n \<or> is_space_point n)
     (concat (map casefold_point (concat (map nfkd_point (map of_char title))))))"

definition rstrip :: "string \<Rightarrow> string" where
  "rstrip s = rev (dropWhile is_space (rev s))"

lemma space_is_space [simp]: "is_space (CHR '' '')"
  by (simp add: is_space_def is_space_point_def)

lemma rstrip_append: "rstrip (a @ b) = (if rstrip b = [] then rstrip a else a @ rstrip b)"
  by (auto simp: rstrip_def dropWhile_append)

lemma rstrip_word: "\<forall>c \<in> set w. \<not> is_space c \<Longrightarrow> rstrip w = w"
  by (cases "rev w") (auto simp: rstrip_def rev_swap)

lemma rstrip_space: "rstrip (CHR '' '' # s) = (if rstrip s = [] then [] else CHR '' '' # rstrip s)"
  using rstrip_append [of "'' ''" s] by (auto simp: rstrip_def)

lemma collapse_word: "\<forall>c \<in> set w. \<not> is_space c \<Longrightarrow> collapse (w @ s) = w @ collapse s"
  by (induction w) auto

lemma dropWhile_idem: "dropWhile P (dropWhile P s) = dropWhile P s"
  by (induction s) auto

lemma split_words_lstrip: "split_words (dropWhile is_space s) = split_words s"
  by (subst (1 2) split_words.simps) (simp add: dropWhile_idem)

lemma split_words_Nil [simp]: "split_words [] = []"
  by (subst split_words.simps) simp

lemma split_words_Cons:
  "\<not> is_space c \<Longrightarrow> split_words (c # s) =
     (c # takeWhile (\<lambda>c. \<not> is_space c) s) # split_words (dropWhile (\<lambda>c. \<not> is_space c) s)"
  by (subst split_words.simps) simp

lemma join_nonempty: "ws \<noteq> [] \<Longrightarrow> list_all (\<lambda>w. w \<noteq> []) ws \<Longrightarrow> join_with sep ws \<noteq> []"
  by (induction sep ws rule: join_with.induct) auto

definition is_word :: "string \<Rightarrow> bool" where
  "is_word w \<longleftrightarrow> w \<noteq> [] \<and> (\<forall>c \<in> set w. \<not> is_space c)"

lemma split_words_words: "list_all is_word (split_words s)"
proof (induction s rule: split_words.induct)
  case (1 s)
  show ?case
  proof (cases "dropWhile is_space s")
    case Nil
    show ?thesis by (subst split_words.simps, simp only: Nil list.case) simp
  next
    case (Cons c cs)
    then have "\<not> is_space c" by (metis dropWhile_eq_Cons_conv)
    moreover have "\<not> is_space x" if "x \<in> set (takeWhile (\<lambda>c. \<not> is_space c) cs)" for x
      using that by (auto dest: set_takeWhileD)
    ultimately have "is_word (c # takeWhile (\<lambda>c. \<not> is_space c) cs)" by (auto simp: is_word_def)
    then show ?thesis using 1 [OF Cons] by (subst split_words.simps) (simp add: Cons)
  qed
qed

lemma words_nonempty: "list_all (\<lambda>w. w \<noteq> []) (split_words s)"
  using split_words_words [of s] by (auto simp: list_all_iff is_word_def)

text \<open>Collapsing and stripping is joining the words with single spaces.\<close>

lemma rstrip_collapse:
  "s = [] \<or> \<not> is_space (hd s) \<Longrightarrow> rstrip (collapse s) = join_with '' '' (split_words s)"
proof (induction "length s" arbitrary: s rule: less_induct)
  case less
  show ?case
  proof (cases s)
    case Nil
    then show ?thesis by (simp add: rstrip_def)
  next
    case (Cons c cs)
    let ?w = "c # takeWhile (\<lambda>c. \<not> is_space c) cs"
    let ?r = "dropWhile (\<lambda>c. \<not> is_space c) cs"
    have c: "\<not> is_space c" using less.prems Cons by simp
    have w: "\<forall>x \<in> set ?w. \<not> is_space x" using c by (auto dest: set_takeWhileD)
    have s: "s = ?w @ ?r" by (simp add: Cons)
    have col: "collapse s = ?w @ collapse ?r" by (subst s) (rule collapse_word [OF w])
    have sw: "split_words s = ?w # split_words ?r" using c by (simp add: Cons split_words_Cons)
    show ?thesis
    proof (cases ?r)
      case Nil
      show ?thesis using rstrip_word [OF w] by (simp only: col sw Nil) simp
    next
      case r: (Cons d ds)
      let ?u = "dropWhile is_space ds"
      have d: "is_space d" using r by (metis (no_types, lifting) dropWhile_eq_Cons_conv)
      have len: "length ?u < length s"
      proof -
        have "length ?r \<le> length cs" by (rule length_dropWhile_le)
        then have "length ds < length cs" by (simp add: r)
        then show ?thesis using length_dropWhile_le [of is_space ds] by (simp add: Cons)
      qed
      have "?u = [] \<or> \<not> is_space (hd ?u)" by (metis hd_dropWhile)
      from less.hyps [OF len this] have ih: "rstrip (collapse ?u) = join_with '' '' (split_words ?u)" .
      have swr: "split_words ?r = split_words ?u"
        using split_words_lstrip [of "d # ds"] d by (simp add: r)
      have "rstrip (collapse s) = (if rstrip (collapse ?u) = [] then ?w else ?w @ '' '' @ rstrip (collapse ?u))"
        using d rstrip_word [OF w] by (simp add: col r rstrip_append rstrip_space del: append_Cons) 
      also have "\<dots> = join_with '' '' (?w # split_words ?u)"
        using join_nonempty [OF _ words_nonempty, of ?u] unfolding ih
        by (cases "split_words ?u") auto
      finally show ?thesis by (simp only: sw swr)
    qed
  qed
qed

lemma collapse_lstrip: "dropWhile is_space (collapse s) = collapse (dropWhile is_space s)"
proof (cases s)
  case (Cons c cs)
  have "dropWhile is_space (collapse u) = collapse u" if "u = [] \<or> \<not> is_space (hd u)" for u
    using that by (cases u) auto
  moreover have "dropWhile is_space cs = [] \<or> \<not> is_space (hd (dropWhile is_space cs))" by (metis hd_dropWhile)
  ultimately show ?thesis by (auto simp: Cons)
qed simp

lemma normalize_title_words: "normalize_title t = join_with '' '' (split_words (kept_text t))"
proof -
  have h: "dropWhile is_space (kept_text t) = [] \<or> \<not> is_space (hd (dropWhile is_space (kept_text t)))"
    by (metis hd_dropWhile)
  have "normalize_title t = rstrip (collapse (dropWhile is_space (kept_text t)))"
    by (simp add: normalize_title_def Let_def strip_space_def rstrip_def kept_text_def collapse_lstrip)
  also have "\<dots> = join_with '' '' (split_words (kept_text t))"
    unfolding rstrip_collapse [OF h] split_words_lstrip ..
  finally show ?thesis .
qed

lemma split_join: "list_all is_word ws \<Longrightarrow> split_words (join_with '' '' ws) = ws"
proof (induction "'' ''" ws rule: join_with.induct)
  case 1
  then show ?case by simp
next
  case (2 w)
  then obtain c cs where "w = c # cs" by (cases w) (auto simp: is_word_def)
  then have w: "w = c # cs" "\<not> is_space c" "\<forall>x \<in> set cs. \<not> is_space x" using 2 by (auto simp: is_word_def)
  then have t: "takeWhile (\<lambda>c. \<not> is_space c) cs = cs" "dropWhile (\<lambda>c. \<not> is_space c) cs = []"
    by (simp_all add: takeWhile_eq_all_conv)
  show ?case unfolding w(1) join_with.simps split_words_Cons [OF w(2)] t by simp
next
  case (3 w v vs)
  obtain c cs where w: "w = c # cs" using 3 by (cases w) (auto simp: is_word_def)
  have n: "\<not> is_space c" "\<forall>x \<in> set cs. \<not> is_space x" using 3 w by (auto simp: is_word_def)
  let ?j = "join_with '' '' (v # vs)"
  have t: "takeWhile (\<lambda>c. \<not> is_space c) (cs @ CHR '' '' # ?j) = cs"
    "dropWhile (\<lambda>c. \<not> is_space c) (cs @ CHR '' '' # ?j) = CHR '' '' # ?j"
    using n(2) by (simp_all add: takeWhile_append2 dropWhile_append2)
  have "split_words (join_with '' '' (w # v # vs)) = w # split_words (CHR '' '' # ?j)"
    unfolding w join_with.simps append_Cons append_Nil split_words_Cons [OF n(1)] t ..
  also have "split_words (CHR '' '' # ?j) = split_words ?j"
    using split_words_lstrip [of "CHR '' '' # ?j"] split_words_lstrip [of ?j] by simp
  finally show ?case using 3 by simp
qed

lemma kept_text_chars: "kept_text t = concat (map (\<lambda>c. kept_text [c]) t)"
  by (induction t) (simp_all add: kept_text_def)

lemma kept_char_fixed: "d \<in> set (kept_text [c]) \<Longrightarrow> kept_text [d] = [d]"
proof -
  have "list_all (\<lambda>c. list_all (\<lambda>d. kept_text [d] = [d]) (kept_text [c])) (Enum.enum :: char list)" by code_simp
  then show "d \<in> set (kept_text [c]) \<Longrightarrow> kept_text [d] = [d]" by (auto simp: list_all_iff enum_UNIV)
qed

lemma kept_normalized: "kept_text (normalize_title t) = normalize_title t"
proof -
  have chars: "kept_text [c] = [c]" if "c \<in> set (kept_text t)" for c
    using that kept_char_fixed by (subst (asm) kept_text_chars) auto
  have sub: "set (split_words s) \<subseteq> {w. set w \<subseteq> set s}" for s
  proof (induction s rule: split_words.induct)
    case (1 s)
    show ?case
    proof (cases "dropWhile is_space s")
      case Nil
      show ?thesis by (subst split_words.simps, simp only: Nil list.case) simp
    next
      case (Cons c cs)
      have cs: "set (c # cs) \<subseteq> set s" using Cons by (metis set_dropWhileD subsetI)
      have "set (dropWhile (\<lambda>c. \<not> is_space c) cs) \<subseteq> set s" "set (takeWhile (\<lambda>c. \<not> is_space c) cs) \<subseteq> set s"
        using cs by (auto dest: set_dropWhileD set_takeWhileD)
      then show ?thesis using 1 [OF Cons] cs by (subst split_words.simps) (auto simp: Cons)
    qed
  qed
  have j: "set (join_with '' '' ws) \<subseteq> insert (CHR '' '') (\<Union> (set ` set ws))" for ws
    by (induction "'' ''" ws rule: join_with.induct) auto
  have "set (normalize_title t) \<subseteq> insert (CHR '' '') (set (kept_text t))"
    unfolding normalize_title_words using j [of "split_words (kept_text t)"] sub [of "kept_text t"] by blast
  moreover have "kept_text '' '' = '' ''" by code_simp
  ultimately have "kept_text [c] = [c]" if "c \<in> set (normalize_title t)" for c using that chars by auto
  then have "map (\<lambda>c. kept_text [c]) (normalize_title t) = map (\<lambda>c. [c]) (normalize_title t)" by simp
  then show ?thesis unfolding kept_text_chars [of "normalize_title t"] by (simp only: concat_map_singleton) simp
qed


subsection \<open>What the check reports\<close>

definition similarity_of :: "product_spec \<Rightarrow> product_spec \<Rightarrow> rat" where
  "similarity_of c e = calculate_jaccard_similarity (tokenize_title (normalize_title (sp_title c)))
     (tokenize_title (normalize_title (sp_title e)))"

fun rule_fires :: "product_spec \<Rightarrow> product_spec \<Rightarrow> collision_reason \<Rightarrow> bool" where
  "rule_fires c e EXACT_IDENTITY_CATEGORY \<longleftrightarrow> normal_form (sp_identity c) = normal_form (sp_identity e) \<and>
     normal_form (sp_base_category c) = normal_form (sp_base_category e)"
| "rule_fires c e TITLE_SIMILARITY \<longleftrightarrow> 7 / 10 \<le> similarity_of c e"
| "rule_fires c e CONCEPT_FINGERPRINT \<longleftrightarrow> sp_concept_fingerprint c = sp_concept_fingerprint e"

definition findings_of :: "product_spec \<Rightarrow> product_spec list \<Rightarrow> (uuid \<times> collision_reason) list" where
  "findings_of c es = concat (map (\<lambda>e. map (Pair (sp_spec_id e)) (filter (rule_fires c e)
     [EXACT_IDENTITY_CATEGORY, TITLE_SIMILARITY, CONCEPT_FINGERPRINT])) es)"

definition others :: "product_spec \<Rightarrow> product_spec list \<Rightarrow> product_spec list" where
  "others c es = filter (\<lambda>e. sp_spec_id e \<noteq> sp_spec_id c) es"

lemma finite_tokens [simp]: "finite (tokenize_title s)"
  by (simp add: tokenize_title_def)

lemma jaccard_unit:
  assumes "finite a" and "finite b"
  shows "0 \<le> calculate_jaccard_similarity a b" "calculate_jaccard_similarity a b \<le> 1"
proof -
  have "card (a \<inter> b) \<le> card (a \<union> b)" using assms by (intro card_mono) auto
  then have "(of_nat (card (a \<inter> b)) :: rat) \<le> of_nat (card (a \<union> b))" by (rule of_nat_mono)
  then show "0 \<le> calculate_jaccard_similarity a b" "calculate_jaccard_similarity a b \<le> 1"
    using assms by (auto simp: calculate_jaccard_similarity_def divide_le_eq_1 card_gt_0_iff)
qed

lemma strip_str_visible: "\<not> is_white c \<Longrightarrow> strip_str (c # s) \<noteq> []"
  by (simp add: strip_str_Nil)

text \<open>A reported collision cites the compared spec, and a similar title meets the threshold.\<close>

definition cited :: "product_spec \<Rightarrow> dedupe_collision \<Rightarrow> bool" where
  "cited e k \<longleftrightarrow> dc_other_spec_id k = sp_spec_id e \<and>
     (dc_reason k = TITLE_SIMILARITY \<longrightarrow> JACCARD_THRESHOLD \<le> dc_similarity k)"

definition pair_of :: "dedupe_collision \<Rightarrow> uuid \<times> collision_reason" where
  "pair_of k = (dc_other_spec_id k, dc_reason k)"

lemma make_collision_ok:
  assumes "0 \<le> similarity" and "similarity \<le> 1" and "\<not> is_white (hd summary)" and "summary \<noteq> []"
    and "reason = TITLE_SIMILARITY \<longrightarrow> JACCARD_THRESHOLD \<le> similarity"
  shows "\<exists>k. make_collision c e reason similarity source now summary = Inr k \<and>
    cited e k \<and> pair_of k = (sp_spec_id e, reason)"
  using assms by (cases summary) (auto simp: make_collision_def dedupe_evidence_def strip_str_visible
    validate_dedupe_collision_def cited_def pair_of_def)

lemma compare_spec_ok:
  assumes "sp_spec_id e \<noteq> sp_spec_id c"
  shows "\<exists>new. compare_spec fmt3 clock c e (cs, ks) = Inr (cs @ [sp_spec_id e], ks @ new) \<and>
    list_all (cited e) new \<and> map pair_of new = findings_of c [e]"
proof -
  have u: "0 \<le> similarity_of c e" "similarity_of c e \<le> 1"
    unfolding similarity_of_def by (rule jaccard_unit, simp_all)+
  obtain k1 where k1: "make_collision c e EXACT_IDENTITY_CATEGORY 1 ''SPEC_IDENTITY_CATEGORY'' (clock (length ks))
      (''identity='' @ sp_identity c @ '', category='' @ sp_base_category c) = Inr k1"
    "cited e k1" "pair_of k1 = (sp_spec_id e, EXACT_IDENTITY_CATEGORY)"
    using make_collision_ok [of 1 "''identity='' @ sp_identity c @ '', category='' @ sp_base_category c"
      EXACT_IDENTITY_CATEGORY c e "''SPEC_IDENTITY_CATEGORY''" "clock (length ks)"] by (auto simp: is_white_def)
  let ?ks1 = "if rule_fires c e EXACT_IDENTITY_CATEGORY then ks @ [k1] else ks"
  let ?t = "''candidate='' @ normalize_title (sp_title c) @ '', existing='' @ normalize_title (sp_title e) @
      '', jaccard='' @ fmt3 (similarity_of c e)"
  obtain k2 where k2: "rule_fires c e TITLE_SIMILARITY \<longrightarrow> make_collision c e TITLE_SIMILARITY (similarity_of c e)
      ''TITLE_TOKENS'' (clock (length ?ks1)) ?t = Inr k2 \<and> cited e k2 \<and>
      pair_of k2 = (sp_spec_id e, TITLE_SIMILARITY)"
    using make_collision_ok [OF u, of ?t TITLE_SIMILARITY c e "''TITLE_TOKENS''" "clock (length ?ks1)"]
    by (auto simp: is_white_def JACCARD_THRESHOLD_def)
  let ?ks2 = "if rule_fires c e TITLE_SIMILARITY then ?ks1 @ [k2] else ?ks1"
  obtain k3 where k3: "make_collision c e CONCEPT_FINGERPRINT 1 ''CONCEPT_FINGERPRINT'' (clock (length ?ks2))
      (''fingerprint='' @ sp_concept_fingerprint c) = Inr k3"
    "cited e k3" "pair_of k3 = (sp_spec_id e, CONCEPT_FINGERPRINT)"
    using make_collision_ok [of 1 "''fingerprint='' @ sp_concept_fingerprint c" CONCEPT_FINGERPRINT c e
      "''CONCEPT_FINGERPRINT''" "clock (length ?ks2)"] by (auto simp: is_white_def)
  define new where "new = (if rule_fires c e EXACT_IDENTITY_CATEGORY then [k1] else []) @
    (if rule_fires c e TITLE_SIMILARITY then [k2] else []) @
    (if rule_fires c e CONCEPT_FINGERPRINT then [k3] else [])"
  have "compare_spec fmt3 clock c e (cs, ks) = Inr (cs @ [sp_spec_id e], ks @ new)"
    using assms k1(1) k2 k3(1)
    unfolding compare_spec_def new_def similarity_of_def [symmetric] Let_def JACCARD_THRESHOLD_def
    by (cases "normal_form (sp_identity c) = normal_form (sp_identity e)";
        cases "normal_form (sp_base_category c) = normal_form (sp_base_category e)";
        cases "7 / 10 \<le> similarity_of c e"; cases "sp_concept_fingerprint c = sp_concept_fingerprint e")
      simp_all
  moreover have "list_all (cited e) new" "map pair_of new = findings_of c [e]"
    using k1 k2 k3 by (auto simp: new_def findings_of_def)
  ultimately show ?thesis by blast
qed

lemma compare_all:
  "\<exists>new. foldE (compare_spec fmt3 clock c) es (cs, ks) =
      Inr (cs @ map sp_spec_id (others c es), ks @ new) \<and>
    list_all (\<lambda>k. \<exists>e \<in> set (others c es). cited e k) new \<and> map pair_of new = findings_of c (others c es)"
proof (induction es arbitrary: cs ks)
  case Nil
  then show ?case by (simp add: others_def findings_of_def)
next
  case (Cons e es)
  show ?case
  proof (cases "sp_spec_id e = sp_spec_id c")
    case True
    then show ?thesis using Cons [of cs ks] by (simp add: compare_spec_def others_def)
  next
    case False
    obtain new1 where 1: "compare_spec fmt3 clock c e (cs, ks) = Inr (cs @ [sp_spec_id e], ks @ new1)"
      "list_all (cited e) new1" "map pair_of new1 = findings_of c [e]"
      using compare_spec_ok [OF False] by blast
    obtain new2 where 2: "foldE (compare_spec fmt3 clock c) es (cs @ [sp_spec_id e], ks @ new1) =
        Inr ((cs @ [sp_spec_id e]) @ map sp_spec_id (others c es), (ks @ new1) @ new2)"
      "list_all (\<lambda>k. \<exists>e \<in> set (others c es). cited e k) new2"
      "map pair_of new2 = findings_of c (others c es)"
      using Cons [of "cs @ [sp_spec_id e]" "ks @ new1"] by blast
    have "others c (e # es) = e # others c es" using False by (simp add: others_def)
    moreover have "findings_of c (e # others c es) = findings_of c [e] @ findings_of c (others c es)"
      by (simp add: findings_of_def)
    ultimately show ?thesis using 1 2
      by (intro exI [of _ "new1 @ new2"]) (auto simp: list_all_iff)
  qed
qed

lemma normalized_visible: "normalize_title t \<noteq> [] \<Longrightarrow> strip_str (normalize_title t) \<noteq> []"
proof -
  assume n: "normalize_title t \<noteq> []"
  have "split_words (kept_text t) \<noteq> []" using n by (auto simp: normalize_title_words)
  then obtain v vs where v: "split_words (kept_text t) = v # vs" by (cases "split_words (kept_text t)") auto
  then have "is_word v" using split_words_words [of "kept_text t"] by simp
  then obtain c cs where c: "v = c # cs" "\<not> is_space c" by (cases v) (auto simp: is_word_def)
  have "c \<in> set (normalize_title t)" unfolding normalize_title_words v c(1) by (cases vs) auto
  moreover have "\<not> is_white c"
    using c(2) of_nat_of_char [of c, where 'a = int, symmetric] by (auto simp: is_space_def is_space_point_def is_white_def Let_def)
  ultimately show ?thesis by (auto simp: strip_str_Nil list_all_iff)
qed

text \<open>
  C25: For a valid candidate the check returns a result exactly when its normalised title and the rule
  version are not blank and the catalogue lists no other spec twice; then it reports exactly the
  rules that fire, in the order of the catalogue, and the outcome is TOO_CLOSE exactly when one of
  them does.
\<close>

theorem dedupe_reports_every_collision:
  assumes "product_spec_fields candidate"
  shows "(\<not> isl (check_dedupe fmt3 clock candidate existing version) \<longleftrightarrow>
      normalize_title (sp_title candidate) \<noteq> [] \<and> strip_str version \<noteq> [] \<and>
      distinct (map sp_spec_id (others candidate existing))) \<and>
    (\<forall>r. check_dedupe fmt3 clock candidate existing version = Inr r \<longrightarrow>
      map (\<lambda>k. (dc_other_spec_id k, dc_reason k)) (dd_collisions r) = findings_of candidate (others candidate existing) \<and>
      dd_compared_spec_ids r = map sp_spec_id (others candidate existing) \<and>
      dd_outcome r = (if \<exists>e \<in> set existing. sp_spec_id e \<noteq> sp_spec_id candidate \<and> (\<exists>reason. rule_fires candidate e reason)
        then TOO_CLOSE else PASS))"
proof -
  let ?o = "others candidate existing"
  obtain ks where f: "foldE (compare_spec fmt3 clock candidate) existing ([], []) = Inr (map sp_spec_id ?o, ks)"
    and cite: "list_all (\<lambda>k. \<exists>e \<in> set ?o. cited e k) ks" and pairs: "map pair_of ks = findings_of candidate ?o"
    using compare_all [of fmt3 clock candidate existing "[]" "[]"] by auto
  define r where "r = \<lparr>dd_result_id = sp_spec_id candidate, dd_workflow_id = sp_workflow_id candidate,
       dd_spec_id = sp_spec_id candidate, dd_outcome = (if ks \<noteq> [] then TOO_CLOSE else PASS),
       dd_rule_version = strip_str version,
       dd_normalized_title = strip_str (normalize_title (sp_title candidate)),
       dd_concept_fingerprint = sp_concept_fingerprint candidate,
       dd_title_similarity_threshold = JACCARD_THRESHOLD, dd_compared_spec_ids = map sp_spec_id ?o,
       dd_collisions = ks, dd_differentiation_evidence = (if ks \<noteq> [] then []
           else if existing \<noteq> [] then differentiation candidate else []),
       dd_completed_at = sp_created_at candidate\<rparr>"
  have run: "check_dedupe fmt3 clock candidate existing version = validate_dedupe_outcome r"
    unfolding check_dedupe_def f r_def Let_def by simp
  have d: "differentiation candidate \<noteq> []" "list_all non_empty (differentiation candidate)"
    by (simp_all add: differentiation_def non_empty_def strip_str_visible is_white_def)
  have oe: "existing \<noteq> []" if "?o \<noteq> []" using that by (auto simp: others_def)
  have fine: "foldE (\<lambda>c _.
         bindE (guardE (dc_other_spec_id c \<in> set (dd_compared_spec_ids r))
           (ValueError ''every collision must cite a compared spec'')) (\<lambda>_.
         guardE (\<not> (dc_reason c = TITLE_SIMILARITY \<and> dc_similarity c < dd_title_similarity_threshold r))
           (ValueError ''a TITLE_SIMILARITY collision must meet the configured threshold'')))
         (dd_collisions r) () = Inr ()"
    unfolding foldE_checks using cite by (force simp: r_def list_all_iff cited_def)
  have fp: "sha256_hex (sp_concept_fingerprint candidate)" using assms by (simp add: product_spec_fields_def)
  have self: "sp_spec_id candidate \<notin> set (map sp_spec_id ?o)" by (auto simp: others_def)
  have title: "strip_str (normalize_title (sp_title candidate)) \<noteq> [] \<longleftrightarrow> normalize_title (sp_title candidate) \<noteq> []"
    using normalized_visible [of "sp_title candidate"] by (auto simp: strip_str_def)
  have ok: "validate_dedupe_outcome r = Inr r' \<longleftrightarrow> r' = r \<and>
      normalize_title (sp_title candidate) \<noteq> [] \<and> strip_str version \<noteq> [] \<and> distinct (map sp_spec_id ?o)" for r'
    unfolding validate_dedupe_outcome_def fine using d oe fp self title
    by (auto simp: resolve r_def JACCARD_THRESHOLD_def non_empty_def)
  have "ks = [] \<longleftrightarrow> findings_of candidate ?o = []" using pairs by auto
  also have "\<dots> \<longleftrightarrow> \<not> (\<exists>e \<in> set ?o. \<exists>reason. rule_fires candidate e reason)"
  proof -
    have "(\<exists>reason. rule_fires candidate e reason) \<longleftrightarrow> filter (rule_fires candidate e)
        [EXACT_IDENTITY_CATEGORY, TITLE_SIMILARITY, CONCEPT_FINGERPRINT] \<noteq> []" for e
      by (auto simp del: rule_fires.simps) (metis collision_reason.exhaust)
    then show ?thesis by (auto simp: findings_of_def simp del: filter.simps)
  qed
  finally have empty: "ks = [] \<longleftrightarrow> \<not> (\<exists>e \<in> set existing. sp_spec_id e \<noteq> sp_spec_id candidate \<and>
      (\<exists>reason. rule_fires candidate e reason))" by (auto simp: others_def)
  have "\<not> isl (validate_dedupe_outcome r) \<longleftrightarrow> (\<exists>r'. validate_dedupe_outcome r = Inr r')"
    by (cases "validate_dedupe_outcome r") auto
  also have "\<dots> \<longleftrightarrow> normalize_title (sp_title candidate) \<noteq> [] \<and> strip_str version \<noteq> [] \<and>
      distinct (map sp_spec_id ?o)" using ok by blast
  finally have returns: "\<not> isl (validate_dedupe_outcome r) \<longleftrightarrow> normalize_title (sp_title candidate) \<noteq> [] \<and>
      strip_str version \<noteq> [] \<and> distinct (map sp_spec_id ?o)" .
  have fields: "map (\<lambda>k. (dc_other_spec_id k, dc_reason k)) (dd_collisions r) = findings_of candidate ?o"
    "dd_compared_spec_ids r = map sp_spec_id ?o" "dd_outcome r = (if ks = [] then PASS else TOO_CLOSE)"
    using pairs by (simp_all add: r_def pair_of_def [abs_def])
  show ?thesis unfolding run
  proof (intro conjI allI impI)
    show "\<not> isl (validate_dedupe_outcome r) \<longleftrightarrow> normalize_title (sp_title candidate) \<noteq> [] \<and>
      strip_str version \<noteq> [] \<and> distinct (map sp_spec_id ?o)" by (rule returns)
    fix r' assume "validate_dedupe_outcome r = Inr r'"
    then have "r' = r" using ok by blast
    then show "map (\<lambda>k. (dc_other_spec_id k, dc_reason k)) (dd_collisions r') = findings_of candidate ?o"
      "dd_compared_spec_ids r' = map sp_spec_id ?o"
      "dd_outcome r' = (if \<exists>e \<in> set existing. sp_spec_id e \<noteq> sp_spec_id candidate \<and>
        (\<exists>reason. rule_fires candidate e reason) then TOO_CLOSE else PASS)"
      using fields empty by simp_all
  qed
qed

definition example_spec :: "uuid \<Rightarrow> string \<Rightarrow> string \<Rightarrow> product_spec" where
  "example_spec i title fingerprint = \<lparr>sp_spec_id = i, sp_workflow_id = 1, sp_product_id = i, sp_version = 1,
     sp_lineage_kind = ORIGINAL, sp_parent_spec_id = None, sp_parent_product_id = None,
     sp_parent_decision_id = None, sp_parent_workflow_id = None,
     sp_shape_rules = \<lparr>ps_rule_version = ''1'', ps_hubs_minimum = 1, ps_hubs_maximum = 8,
       ps_colour_variants_minimum = 1, ps_colour_variants_maximum = 4\<rparr>,
     sp_identity = ''nurse '' @ fingerprint, sp_base_category = ''planner'', sp_buyer_problem = ''time'',
     sp_title = title, sp_tier = ''core'', sp_real_price = 9, sp_anchor_price = 20, sp_currency = ''GBP'',
     sp_hubs = [''home''], sp_colour_variants = [''sage''], sp_features = [''calendar''],
     sp_experiment_plan = ''plan'', sp_concept_fingerprint = concat (replicate 64 fingerprint),
     sp_source_evidence = [\<lparr>er_evidence_id = 1, er_evidence_type = ''x'', er_source_reference = ''x'',
       er_observed_at = 0, er_sha256 = None, er_artifact_id = None, er_producing_job_id = None,
       er_safe_summary = ''x''\<rparr>], sp_created_at = 0\<rparr>"

theorem dedupe_reports_every_collision_witness:
  "\<exists>r. check_dedupe (\<lambda>_. ''1.000'') (\<lambda>_. 0) (example_spec 1 (''Caf'' @ [CHR 0xE9] @ '' Planner!'') ''a'')
      [example_spec 2 ''CAFE  planner'' ''b''] ''1'' = Inr r \<and>
    dd_outcome r = TOO_CLOSE \<and> dc_reason (hd (dd_collisions r)) = TITLE_SIMILARITY"
proof -
  let ?c = "example_spec 1 (''Caf'' @ [CHR 0xE9] @ '' Planner!'') ''a''" and ?e = "[example_spec 2 ''CAFE  planner'' ''b'']"
  have f: "product_spec_fields ?c" by code_simp
  have p: "normalize_title (sp_title ?c) \<noteq> [] \<and> strip_str ''1'' \<noteq> [] \<and> distinct (map sp_spec_id (others ?c ?e))"
    "findings_of ?c (others ?c ?e) = [(2, TITLE_SIMILARITY)]" by code_simp+
  have fires: "\<exists>e \<in> set ?e. sp_spec_id e \<noteq> sp_spec_id ?c \<and> (\<exists>reason. rule_fires ?c e reason)"
  proof -
    have "sp_spec_id (hd ?e) \<noteq> sp_spec_id ?c \<and> rule_fires ?c (hd ?e) TITLE_SIMILARITY" by code_simp
    then show ?thesis by (auto simp del: rule_fires.simps)
  qed
  note t = dedupe_reports_every_collision [OF f, of "\<lambda>_. ''1.000''" "\<lambda>_. 0" ?e "''1''"]
  obtain r where r: "check_dedupe (\<lambda>_. ''1.000'') (\<lambda>_. 0) ?c ?e ''1'' = Inr r"
    using t [THEN conjunct1] p(1) by (cases "check_dedupe (\<lambda>_. ''1.000'') (\<lambda>_. 0) ?c ?e ''1''") auto
  have o: "map (\<lambda>k. (dc_other_spec_id k, dc_reason k)) (dd_collisions r) = [(2, TITLE_SIMILARITY)]"
    "dd_outcome r = TOO_CLOSE"
    using t [THEN conjunct2, rule_format, OF r] p(2) fires by (simp_all only: if_True)
  from o(1) have "dc_reason (hd (dd_collisions r)) = TITLE_SIMILARITY" by (cases "dd_collisions r") auto
  with r o(2) show ?thesis by blast
qed

end
