(* ===== verification/Asset_Lineage.thy ===== *)
theory Asset_Lineage
  imports Calendar
begin

section \<open>Asset lineage and staleness\<close>

text \<open>
  \<^verbatim>\<open>assets/asset_lineage.py\<close>: the projection of the four renderers' records into one lineage shape,
  and the split of a product's assets into current and stale ones by a loop that repeats until no
  more asset becomes stale. The loop is a \<open>function\<close> that terminates because every repetition
  removes an asset; the lemmas show that it computes the least set closed under the staleness
  rules, whatever the order of the assets.
\<close>

subsection \<open>Records\<close>

datatype asset_kind = K_screenshot | K_listing_image | K_walkthrough | K_delivery_pdf

text \<open>The lineage records of the renderers; the status a renderer writes is always \<^verbatim>\<open>passed\<close>.\<close>

datatype qa_status = Q_passed | Q_stale

record screenshot_lineage =
  sh_product_id :: uuid
  sh_spec_version :: int
  sh_build_version :: int
  sh_screenshot_sha256 :: string
  sh_variant :: string
  sh_template_version :: string
  sh_viewport_width :: int
  sh_viewport_height :: int
  sh_crop_x :: int
  sh_crop_y :: int
  sh_crop_width :: int
  sh_crop_height :: int
  sh_qa_status :: qa_status
  sh_source :: string

record listing_image_lineage =
  im_product_id :: uuid
  im_spec_version :: int
  im_build_version :: int
  im_source_screenshot_sha256 :: "string list"
  im_merchandising_version :: string
  im_template_version :: string
  im_output_sha256 :: string
  im_width_px :: int
  im_height_px :: int
  im_qa_status :: qa_status
  im_role :: string

record walkthrough_lineage =
  wt_product_id :: uuid
  wt_spec_version :: int
  wt_build_version :: int
  wt_source_screenshot_sha256 :: "string list"
  wt_merchandising_version :: string
  wt_template_version :: string
  wt_output_sha256 :: string
  wt_width_px :: int
  wt_height_px :: int
  wt_fps :: int
  wt_scene_order :: "string list"
  wt_scene_frames :: "int list"
  wt_qa_status :: qa_status

record delivery_pdf_lineage =
  dp_product_id :: uuid
  dp_spec_version :: int
  dp_build_version :: int
  dp_merchandising_version :: string
  dp_template_version :: string
  dp_output_sha256 :: string
  dp_page_count :: int
  dp_qa_status :: qa_status
  dp_role :: string

datatype rendered_lineage =
    Screenshot screenshot_lineage
  | Listing_Image listing_image_lineage
  | Walkthrough walkthrough_lineage
  | Delivery_Pdf delivery_pdf_lineage

record bound_asset =
  ba_product_id :: uuid
  ba_spec_version :: int
  ba_build_version :: int
  ba_source_screenshot_sha256 :: "string list"
  ba_merchandising_version :: string
  ba_template_version :: string
  ba_output_sha256 :: string
  ba_width_px :: "int option"
  ba_height_px :: "int option"
  ba_page_count :: "int option"
  ba_qa_status :: qa_status
  ba_storage_uri :: string
  ba_kind :: asset_kind

definition fixture_storage_uri :: "uuid \<Rightarrow> int \<Rightarrow> string \<Rightarrow> string" where
  "fixture_storage_uri product_id spec_version output_sha256 =
     ''fixture://'' @ str_uuid product_id @ ''/'' @ str_int spec_version @ ''/'' @ output_sha256"

definition bound ::
  "asset_kind \<Rightarrow> uuid \<Rightarrow> int \<Rightarrow> int \<Rightarrow> string list \<Rightarrow> string \<Rightarrow> string \<Rightarrow> string \<Rightarrow>
   int option \<Rightarrow> int option \<Rightarrow> int option \<Rightarrow> qa_status \<Rightarrow> bound_asset" where
  "bound kind product_id spec_version build_version sources merchandising template output width height pages qa =
     \<lparr>ba_product_id = product_id, ba_spec_version = spec_version, ba_build_version = build_version,
      ba_source_screenshot_sha256 = sources, ba_merchandising_version = merchandising,
      ba_template_version = template, ba_output_sha256 = output, ba_width_px = width,
      ba_height_px = height, ba_page_count = pages, ba_qa_status = qa,
      ba_storage_uri = fixture_storage_uri product_id spec_version output, ba_kind = kind\<rparr>"

fun bind_asset :: "rendered_lineage \<Rightarrow> bound_asset" where
  "bind_asset (Screenshot l) = bound K_screenshot (sh_product_id l) (sh_spec_version l) (sh_build_version l)
     [] [] (sh_template_version l) (sh_screenshot_sha256 l) (Some (sh_crop_width l)) (Some (sh_crop_height l))
     None (sh_qa_status l)"
| "bind_asset (Listing_Image l) = bound K_listing_image (im_product_id l) (im_spec_version l) (im_build_version l)
     (im_source_screenshot_sha256 l) (im_merchandising_version l) (im_template_version l) (im_output_sha256 l)
     (Some (im_width_px l)) (Some (im_height_px l)) None (im_qa_status l)"
| "bind_asset (Walkthrough l) = bound K_walkthrough (wt_product_id l) (wt_spec_version l) (wt_build_version l)
     (wt_source_screenshot_sha256 l) (wt_merchandising_version l) (wt_template_version l) (wt_output_sha256 l)
     (Some (wt_width_px l)) (Some (wt_height_px l)) None (wt_qa_status l)"
| "bind_asset (Delivery_Pdf l) = bound K_delivery_pdf (dp_product_id l) (dp_spec_version l) (dp_build_version l)
     [] (dp_merchandising_version l) (dp_template_version l) (dp_output_sha256 l)
     None None (Some (dp_page_count l)) (dp_qa_status l)"

subsection \<open>Staleness of one asset\<close>

type_synonym asset_key = "int \<times> string"

definition asset_id :: "bound_asset \<Rightarrow> asset_key" where
  "asset_id a = (ba_spec_version a, ba_output_sha256 a)"

text \<open>The first screenshot with this identity, or else the first asset with it.\<close>

fun resolve_from :: "bound_asset option \<Rightarrow> bound_asset list \<Rightarrow> int \<Rightarrow> string \<Rightarrow> bound_asset option" where
  "resolve_from found [] spec_version src = found"
| "resolve_from found (candidate # rest) spec_version src =
     (if ba_spec_version candidate \<noteq> spec_version \<or> ba_output_sha256 candidate \<noteq> src
      then resolve_from found rest spec_version src
      else if ba_kind candidate = K_screenshot then Some candidate
      else resolve_from (case found of None \<Rightarrow> Some candidate | Some f \<Rightarrow> Some f) rest spec_version src)"

definition resolve_source :: "bound_asset list \<Rightarrow> int \<Rightarrow> string \<Rightarrow> bound_asset option" where
  "resolve_source owned spec_version src = resolve_from None owned spec_version src"

definition source_blocked :: "string \<Rightarrow> int \<Rightarrow> bound_asset list \<Rightarrow> bool" where
  "source_blocked src spec_version owned = (case resolve_source owned spec_version src of
     None \<Rightarrow> False | Some resolved \<Rightarrow> ba_kind resolved \<noteq> K_screenshot)"

definition source_stale :: "string \<Rightarrow> int \<Rightarrow> asset_key set \<Rightarrow> asset_key set \<Rightarrow> bool" where
  "source_stale src spec_version stale_ids known =
     (let identity = (spec_version, src) in if identity \<notin> known then True else identity \<in> stale_ids)"

definition is_stale :: "bound_asset \<Rightarrow> int \<Rightarrow> asset_key set \<Rightarrow> asset_key set \<Rightarrow> bound_asset list \<Rightarrow> bool" where
  "is_stale asset spec_version stale_ids known owned =
     (if ba_spec_version asset \<noteq> spec_version then True
      else if ba_qa_status asset \<noteq> Q_passed then True
      else if list_ex (\<lambda>src. source_blocked src (ba_spec_version asset) owned) (ba_source_screenshot_sha256 asset) then True
      else list_ex (\<lambda>src. source_stale src (ba_spec_version asset) stale_ids known) (ba_source_screenshot_sha256 asset))"

subsection \<open>The split\<close>

text \<open>One pass over the pending assets: the assets left, the stale ids, and whether it progressed.\<close>

fun pass :: "int \<Rightarrow> asset_key set \<Rightarrow> bound_asset list \<Rightarrow> bound_asset list \<Rightarrow> asset_key set \<Rightarrow>
    bound_asset list \<times> asset_key set \<times> bool" where
  "pass spec_version known owned [] stale_ids = ([], stale_ids, False)"
| "pass spec_version known owned (asset # pending) stale_ids =
     (if is_stale asset spec_version stale_ids known owned
      then (case pass spec_version known owned pending (insert (asset_id asset) stale_ids) of
        (rest, ids, _) \<Rightarrow> (rest, ids, True))
      else (case pass spec_version known owned pending stale_ids of
        (rest, ids, progressed) \<Rightarrow> (asset # rest, ids, progressed)))"

lemma pass_length:
  "pass v known owned pending ids = (rest, ids', progressed) \<Longrightarrow>
     length rest \<le> length pending \<and> (progressed \<longrightarrow> length rest < length pending)"
  by (induction v known owned pending ids arbitrary: rest ids' progressed rule: pass.induct)
    (fastforce split: if_splits prod.splits)+

text \<open>\<^verbatim>\<open>while progressed\<close>, entered with the flag set.\<close>

function spread :: "int \<Rightarrow> asset_key set \<Rightarrow> bound_asset list \<Rightarrow> bound_asset list \<Rightarrow> asset_key set \<Rightarrow> asset_key set" where
  "spread spec_version known owned pending stale_ids =
     (case pass spec_version known owned pending stale_ids of
        (rest, ids, progressed) \<Rightarrow> if progressed then spread spec_version known owned rest ids else ids)"
  by pat_completeness auto

termination
  by (relation "measure (\<lambda>(_, _, _, pending, _). length pending)") (auto dest!: pass_length [OF sym])

declare spread.simps [simp del]

definition split_current :: "bound_asset list \<Rightarrow> uuid \<Rightarrow> int \<Rightarrow> bound_asset list \<times> bound_asset list" where
  "split_current assets product_id spec_version =
     (let owned = filter (\<lambda>a. ba_product_id a = product_id) assets;
          known = asset_id ` set owned;
          stale_ids = spread spec_version known owned owned {}
      in (filter (\<lambda>a. asset_id a \<notin> stale_ids) owned,
          map (\<lambda>a. a\<lparr>ba_qa_status := Q_stale\<rparr>) (filter (\<lambda>a. asset_id a \<in> stale_ids) owned)))"

subsection \<open>The least set of stale identities\<close>

text \<open>The rules of the module's documentation, as an inductive predicate on identities.\<close>

inductive stale_in :: "bound_asset list \<Rightarrow> int \<Rightarrow> asset_key \<Rightarrow> bool" for owned :: "bound_asset list" and v :: int where
  other_spec: "a \<in> set owned \<Longrightarrow> ba_spec_version a \<noteq> v \<Longrightarrow> stale_in owned v (asset_id a)"
| not_passed: "a \<in> set owned \<Longrightarrow> ba_qa_status a \<noteq> Q_passed \<Longrightarrow> stale_in owned v (asset_id a)"
| unknown_source: "a \<in> set owned \<Longrightarrow> src \<in> set (ba_source_screenshot_sha256 a) \<Longrightarrow>
    (ba_spec_version a, src) \<notin> asset_id ` set owned \<Longrightarrow> stale_in owned v (asset_id a)"
| no_screenshot: "a \<in> set owned \<Longrightarrow> src \<in> set (ba_source_screenshot_sha256 a) \<Longrightarrow>
    \<forall>b \<in> set owned. asset_id b = (ba_spec_version a, src) \<longrightarrow> ba_kind b \<noteq> K_screenshot \<Longrightarrow>
    stale_in owned v (asset_id a)"
| stale_source: "a \<in> set owned \<Longrightarrow> src \<in> set (ba_source_screenshot_sha256 a) \<Longrightarrow>
    stale_in owned v (ba_spec_version a, src) \<Longrightarrow> stale_in owned v (asset_id a)"

lemma resolve_from_found:
  "resolve_from found owned v src = Some b \<Longrightarrow>
     (b \<in> set owned \<and> asset_id b = (v, src)) \<or> found = Some b"
  by (induction found owned v src rule: resolve_from.induct)
    (auto simp: asset_id_def split: if_splits option.splits)

lemma resolve_from_screenshot:
  assumes "\<exists>b \<in> set owned. asset_id b = (v, src) \<and> ba_kind b = K_screenshot"
  shows "\<exists>b. resolve_from found owned v src = Some b \<and> ba_kind b = K_screenshot"
  using assms
proof (induction found owned v src rule: resolve_from.induct)
  case (1 found v src)
  then show ?case by simp
next
  case (2 found c rest v src)
  show ?case
  proof (cases "asset_id c = (v, src) \<and> ba_kind c = K_screenshot")
    case True
    then show ?thesis by (simp add: asset_id_def)
  next
    case False
    then have "\<exists>b \<in> set rest. asset_id b = (v, src) \<and> ba_kind b = K_screenshot" using 2(3) by auto
    then show ?thesis using 2(1,2) False by (simp add: asset_id_def)
  qed
qed

lemma resolve_from_Some: "resolve_from (Some f) owned v src \<noteq> None"
  by (induction owned arbitrary: f) simp_all

lemma resolve_from_None: "resolve_from None owned v src = None \<Longrightarrow> \<forall>b \<in> set owned. asset_id b \<noteq> (v, src)"
proof (induction owned)
  case Nil
  then show ?case by simp
next
  case (Cons c rest)
  have "ba_spec_version c \<noteq> v \<or> ba_output_sha256 c \<noteq> src"
    using Cons.prems resolve_from_Some [of c rest v src] by (auto split: if_splits)
  then show ?case using Cons by (simp add: asset_id_def)
qed

lemma source_rule:
  "source_blocked src v owned \<or> source_stale src v ids (asset_id ` set owned) \<longleftrightarrow>
     (v, src) \<notin> asset_id ` set owned \<or> (v, src) \<in> ids \<or>
     (\<forall>b \<in> set owned. asset_id b = (v, src) \<longrightarrow> ba_kind b \<noteq> K_screenshot)"
proof (cases "resolve_source owned v src")
  case None
  then have "(v, src) \<notin> asset_id ` set owned"
    using resolve_from_None [of owned v src] by (auto simp: resolve_source_def)
  then show ?thesis by (auto simp: source_blocked_def source_stale_def None)
next
  case (Some b)
  then have b: "b \<in> set owned" "asset_id b = (v, src)"
    using resolve_from_found [of None owned v src b] by (auto simp: resolve_source_def)
  have "ba_kind b = K_screenshot \<longleftrightarrow> (\<exists>b \<in> set owned. asset_id b = (v, src) \<and> ba_kind b = K_screenshot)"
    using b resolve_from_screenshot [of owned v src None] Some by (auto simp: resolve_source_def)
  then show ?thesis using b by (force simp: source_blocked_def source_stale_def Some)
qed

lemma is_stale_rule:
  "is_stale a v ids (asset_id ` set owned) owned \<longleftrightarrow> ba_spec_version a \<noteq> v \<or> ba_qa_status a \<noteq> Q_passed \<or>
     (\<exists>src \<in> set (ba_source_screenshot_sha256 a). (ba_spec_version a, src) \<notin> asset_id ` set owned \<or>
       (ba_spec_version a, src) \<in> ids \<or>
       (\<forall>b \<in> set owned. asset_id b = (ba_spec_version a, src) \<longrightarrow> ba_kind b \<noteq> K_screenshot))"
  unfolding source_rule [symmetric] by (auto simp: is_stale_def list_ex_iff)

lemma is_stale_sound:
  assumes "a \<in> set owned" and "is_stale a v ids (asset_id ` set owned) owned" and "\<forall>i \<in> ids. stale_in owned v i"
  shows "stale_in owned v (asset_id a)"
  using assms(2) unfolding is_stale_rule using assms(1,3) by (auto intro: stale_in.intros)

lemma pass_sound:
  assumes "pass v (asset_id ` set owned) owned pending ids = (rest, ids', progressed)"
    and "set pending \<subseteq> set owned" and "\<forall>i \<in> ids. stale_in owned v i"
  shows "set rest \<subseteq> set pending \<and> (\<forall>i \<in> ids'. stale_in owned v i) \<and> ids \<subseteq> ids' \<and>
    (\<forall>a \<in> set pending. a \<in> set rest \<or> asset_id a \<in> ids') \<and>
    (\<not> progressed \<longrightarrow> rest = pending \<and> ids' = ids \<and>
       (\<forall>a \<in> set pending. \<not> is_stale a v ids (asset_id ` set owned) owned))"
  using assms
proof (induction v "asset_id ` set owned" owned pending ids arbitrary: rest ids' progressed rule: pass.induct)
  case (1 v owned ids)
  then show ?case by simp
next
  case (2 v owned a pending ids)
  show ?case
  proof (cases "is_stale a v ids (asset_id ` set owned) owned")
    case True
    then have s: "stale_in owned v (asset_id a)" using is_stale_sound 2(4,5) by auto
    obtain r i p where p: "pass v (asset_id ` set owned) owned pending (insert (asset_id a) ids) = (r, i, p)"
      by (metis prod_cases3)
    have "rest = r" "ids' = i" "progressed" using 2(3) True p by auto
    then show ?thesis using 2(1) [OF True p] 2(4,5) s by auto
  next
    case False
    obtain r i p where p: "pass v (asset_id ` set owned) owned pending ids = (r, i, p)" by (metis prod_cases3)
    have "rest = a # r" "ids' = i" "progressed = p" using 2(3) False p by auto
    then show ?thesis using 2(2) [OF False p] 2(4,5) False by auto
  qed
qed

lemma spread_sound:
  assumes "set pending \<subseteq> set owned" and "\<forall>i \<in> ids. stale_in owned v i"
    and "\<forall>a \<in> set owned. a \<in> set pending \<or> asset_id a \<in> ids"
    and "final = spread v (asset_id ` set owned) owned pending ids"
  shows "(\<forall>i \<in> final. stale_in owned v i) \<and>
    (\<forall>a \<in> set owned. is_stale a v final (asset_id ` set owned) owned \<longrightarrow> asset_id a \<in> final)"
  using assms
proof (induction v "asset_id ` set owned" owned pending ids rule: spread.induct)
  case (1 v owned pending ids)
  obtain rest ids' progressed where p: "pass v (asset_id ` set owned) owned pending ids = (rest, ids', progressed)"
    by (metis prod_cases3)
  note q = pass_sound [OF p 1(2,3)]
  show ?case
  proof (cases progressed)
    case True
    have "final = spread v (asset_id ` set owned) owned rest ids'"
      using 1(5) by (simp add: p True spread.simps [of _ _ _ pending])
    moreover have "set rest \<subseteq> set owned" "\<forall>a \<in> set owned. a \<in> set rest \<or> asset_id a \<in> ids'"
      using q 1(2,4) by auto
    ultimately show ?thesis using 1(1) [OF p [symmetric] refl True] q by blast
  next
    case False
    have "final = ids" using 1(5) q False by (simp add: p spread.simps [of _ _ _ pending])
    then show ?thesis using q False 1(3,4) by auto
  qed
qed

lemma spread_least:
  "spread v (asset_id ` set owned) owned owned {} = {i. stale_in owned v i}" (is "?final = _")
proof -
  have s: "\<forall>i \<in> ?final. stale_in owned v i"
    and closed: "\<forall>a \<in> set owned. is_stale a v ?final (asset_id ` set owned) owned \<longrightarrow> asset_id a \<in> ?final"
    using spread_sound [of owned owned "{}" v ?final] by auto
  have "i \<in> ?final" if "stale_in owned v i" for i
    using that by induction (use closed [unfolded is_stale_rule] in blast)+
  with s show ?thesis by auto
qed

lemma split_current_eq:
  "split_current assets product_id v =
     (let owned = filter (\<lambda>a. ba_product_id a = product_id) assets in
      (filter (\<lambda>a. \<not> stale_in owned v (asset_id a)) owned,
       map (\<lambda>a. a\<lparr>ba_qa_status := Q_stale\<rparr>) (filter (\<lambda>a. stale_in owned v (asset_id a)) owned)))"
  by (simp add: split_current_def Let_def spread_least)

text \<open>
  C24: Whatever the order of the assets, the split of a product's assets at a spec version returns as
  stale exactly those whose identity is stale by the documented rules, marked stale, and as
  current the others unchanged; assets of other products are in neither part.
\<close>

theorem staleness_spreads_completely:
  "split_current assets product_id v =
     (let owned = filter (\<lambda>a. ba_product_id a = product_id) assets in
      (filter (\<lambda>a. \<not> stale_in owned v (asset_id a)) owned,
       map (\<lambda>a. a\<lparr>ba_qa_status := Q_stale\<rparr>) (filter (\<lambda>a. stale_in owned v (asset_id a)) owned)))"
  by (rule split_current_eq)

text \<open>
  Every current asset was rendered for the asked spec version, passed its checks, and names only
  screenshots that are current themselves.
\<close>

theorem current_assets_are_grounded:
  assumes "split_current assets product_id v = (current, stale)" and "a \<in> set current"
  shows "ba_product_id a = product_id \<and> ba_spec_version a = v \<and> ba_qa_status a = Q_passed \<and>
    (\<forall>src \<in> set (ba_source_screenshot_sha256 a).
      \<exists>b \<in> set current. ba_kind b = K_screenshot \<and> ba_output_sha256 b = src \<and> ba_spec_version b = v)"
proof -
  let ?o = "filter (\<lambda>a. ba_product_id a = product_id) assets"
  have c: "current = filter (\<lambda>a. \<not> stale_in ?o v (asset_id a)) ?o"
    using assms(1) by (simp add: split_current_eq Let_def)
  then have a: "a \<in> set ?o" "\<not> stale_in ?o v (asset_id a)" using assms(2) by auto
  have v: "ba_spec_version a = v" and q: "ba_qa_status a = Q_passed"
    using a stale_in.other_spec [of a ?o v] stale_in.not_passed [of a ?o v] by blast+
  have "\<exists>b \<in> set current. ba_kind b = K_screenshot \<and> ba_output_sha256 b = src \<and> ba_spec_version b = v"
    if src: "src \<in> set (ba_source_screenshot_sha256 a)" for src
  proof -
    obtain b where b: "b \<in> set ?o" "asset_id b = (ba_spec_version a, src)" "ba_kind b = K_screenshot"
      using stale_in.no_screenshot [OF a(1) src, of v] a(2) by blast
    have "\<not> stale_in ?o v (asset_id b)" using stale_in.stale_source [OF a(1) src, of v] a(2) b(2) by auto
    then have "b \<in> set current" unfolding c using b(1) by auto
    then show ?thesis using b v by (auto simp: asset_id_def)
  qed
  then show ?thesis using a(1) v q by auto
qed

definition example_screenshot :: "int \<Rightarrow> string \<Rightarrow> bound_asset" where
  "example_screenshot v h = bound K_screenshot 1 v 1 [] [] ''t'' h (Some 10) (Some 10) None Q_passed"

definition example_image :: "int \<Rightarrow> string \<Rightarrow> string \<Rightarrow> bound_asset" where
  "example_image v h src = bound K_listing_image 1 v 1 [src] ''m'' ''t'' h (Some 10) (Some 10) None Q_passed"

definition example_assets :: "bound_asset list" where
  "example_assets = [example_image 2 ''b'' ''a'', example_image 2 ''c'' ''x'', example_screenshot 2 ''a'',
     example_image 1 ''d'' ''a'']"

theorem current_assets_are_grounded_witness:
  "\<exists>current stale. split_current example_assets 1 2 = (current, stale) \<and>
     map ba_output_sha256 current = [''b'', ''a''] \<and> map ba_output_sha256 stale = [''c'', ''d''] \<and>
     (\<forall>a \<in> set current. ba_spec_version a = 2)"
proof -
  define r where "r = split_current example_assets 1 2"
  have s: "split_current example_assets 1 2 = (fst r, snd r)" by (simp add: r_def)
  have "map ba_output_sha256 (fst r) = [''b'', ''a'']" "map ba_output_sha256 (snd r) = [''c'', ''d'']"
    unfolding r_def by code_simp+
  moreover have "\<forall>a \<in> set (fst r). ba_spec_version a = 2" using current_assets_are_grounded [OF s] by blast
  ultimately show ?thesis using s by (intro exI [of _ "fst r"] exI [of _ "snd r"]) simp
qed

end
