(* ===== verification/Maturity.thy ===== *)
theory Maturity
  imports Calendar
begin

section \<open>The publishing ramp and the maturity clock\<close>

text \<open>
  \<^verbatim>\<open>assets/publishing_ramp_decision.py\<close> and \<^verbatim>\<open>assets/maturity_clock.py\<close>. Both check that the
  datetimes they get are aware, so here a datetime is its wall clock in microseconds with the
  offset of its time zone, if it has one; the zones are fixed offsets, as \<^verbatim>\<open>datetime.timezone\<close>
  has them. \<^verbatim>\<open>uuid5\<close> over the URL namespace is an argument of the operations that use it.
\<close>

subsection \<open>Aware and naive datetimes\<close>

record py_datetime =
  wall :: int \<comment> \<open>microseconds since 1970-01-01 00:00 on the wall clock\<close>
  utcoffset :: "duration option" \<comment> \<open>\<open>None\<close> when \<^verbatim>\<open>tzinfo\<close> is None\<close>

text \<open>The years 1 to 9999.\<close>

definition datetime_in_range :: "int \<Rightarrow> bool" where
  "datetime_in_range t \<longleftrightarrow> - 719162 * day_microseconds \<le> t \<and> t < 2932897 * day_microseconds"

definition add_days :: "py_datetime \<Rightarrow> int \<Rightarrow> error + py_datetime" where
  "add_days d n = (let t = wall d + n * day_microseconds in
     if datetime_in_range t then Inr (d\<lparr>wall := t\<rparr>) else Inl OverflowError)"

definition as_utc :: "string \<Rightarrow> py_datetime \<Rightarrow> error + time" where
  "as_utc label value = (case utcoffset value of
       None \<Rightarrow> Inl (ValueError label)
     | Some off \<Rightarrow> let t = wall value - off in
         if datetime_in_range t then Inr t else Inl OverflowError)"

subsection \<open>The publishing ramp\<close>

record ramp_decision =
  may_publish :: bool
  next_permissible_at :: "py_datetime option"

record ramp_input =
  ri_publishing_enabled :: bool
  ri_initial_weekly_cap :: int
  ri_hard_weekly_cap :: int
  ri_rolling_window_days :: int
  ri_reconciled_count :: int
  ri_oldest_reconciled_at :: "py_datetime option"
  ri_unreconciled_count :: int

definition LAUNCH_DEFAULT_WEEKLY_CAP :: int where "LAUNCH_DEFAULT_WEEKLY_CAP = 2"

definition ramp_validate :: "ramp_input \<Rightarrow> error + unit" where
  "ramp_validate i =
     bindE (guardE (1 \<le> ri_initial_weekly_cap i) (ValueError ''initial weekly cap must be positive'')) (\<lambda>_.
     bindE (guardE (1 \<le> ri_hard_weekly_cap i) (ValueError ''hard weekly cap must be positive'')) (\<lambda>_.
     bindE (guardE (1 \<le> ri_rolling_window_days i) (ValueError ''rolling window must be positive'')) (\<lambda>_.
     bindE (guardE (0 \<le> ri_reconciled_count i) (ValueError ''reconciled count cannot be negative'')) (\<lambda>_.
     bindE (guardE (0 \<le> ri_unreconciled_count i) (ValueError ''unreconciled count cannot be negative'')) (\<lambda>_.
     bindE (guardE (\<not> (ri_reconciled_count i = 0 \<and> ri_oldest_reconciled_at i \<noteq> None))
        (ValueError ''an empty reconciled window has no oldest publication'')) (\<lambda>_.
     bindE (guardE (\<not> (0 < ri_reconciled_count i \<and> ri_oldest_reconciled_at i = None))
        (ValueError ''oldest reconciled publication is required'')) (\<lambda>_.
     case ri_oldest_reconciled_at i of
       Some d \<Rightarrow> guardE (utcoffset d \<noteq> None) (ValueError ''oldest reconciled publication must be timezone-aware'')
     | None \<Rightarrow> Inr ())))))))"

definition cap_from_caller :: "int \<Rightarrow> int" where
  "cap_from_caller initial_weekly_cap = initial_weekly_cap"

definition ramp_open :: ramp_decision where
  "ramp_open = \<lparr>may_publish = True, next_permissible_at = None\<rparr>"

definition ramp_closed :: ramp_decision where
  "ramp_closed = \<lparr>may_publish = False, next_permissible_at = None\<rparr>"

definition ramp_closed_until :: "py_datetime option \<Rightarrow> int \<Rightarrow> error + ramp_decision" where
  "ramp_closed_until oldest days = (case oldest of
       None \<Rightarrow> Inl (ValueError ''oldest reconciled publication is required'')
     | Some d \<Rightarrow> bindE (add_days d days) (\<lambda>opened.
         Inr \<lparr>may_publish = False, next_permissible_at = Some opened\<rparr>))"

definition wait_when_publishing_disabled :: "bool \<Rightarrow> ramp_decision option" where
  "wait_when_publishing_disabled enabled = (if \<not> enabled then Some ramp_closed else None)"

definition wait_when_hard_cap_reached ::
  "int \<Rightarrow> int \<Rightarrow> py_datetime option \<Rightarrow> int \<Rightarrow> error + ramp_decision option" where
  "wait_when_hard_cap_reached counted hard oldest days =
     (if hard \<le> counted then bindE (ramp_closed_until oldest days) (\<lambda>d. Inr (Some d)) else Inr None)"

definition wait_when_reconciled_reaches_cap ::
  "int \<Rightarrow> int \<Rightarrow> py_datetime option \<Rightarrow> int \<Rightarrow> error + ramp_decision option" where
  "wait_when_reconciled_reaches_cap counted cap oldest days =
     (if cap \<le> counted then bindE (ramp_closed_until oldest days) (\<lambda>d. Inr (Some d)) else Inr None)"

definition allow_unreconciled_remainder :: "int \<Rightarrow> int \<Rightarrow> int \<Rightarrow> ramp_decision option" where
  "allow_unreconciled_remainder counted cap unreconciled =
     (if 0 < unreconciled \<and> counted < cap then Some ramp_open else None)"

definition allow_one_below_cap :: "int \<Rightarrow> int \<Rightarrow> int \<Rightarrow> ramp_decision option" where
  "allow_one_below_cap counted cap unreconciled =
     (if counted < cap \<and> cap = LAUNCH_DEFAULT_WEEKLY_CAP \<and> unreconciled = 0 then Some ramp_open else None)"

definition allow_under_supplied_cap :: "int \<Rightarrow> int \<Rightarrow> ramp_decision option" where
  "allow_under_supplied_cap counted cap =
     (if counted < cap \<and> cap \<noteq> LAUNCH_DEFAULT_WEEKLY_CAP then Some ramp_open else None)"

definition decide_publishing_ramp :: "ramp_input \<Rightarrow> error + ramp_decision" where
  "decide_publishing_ramp i = bindE (ramp_validate i) (\<lambda>_.
     let counted = ri_reconciled_count i; cap = cap_from_caller (ri_initial_weekly_cap i) in
     case wait_when_publishing_disabled (ri_publishing_enabled i) of Some d \<Rightarrow> Inr d | None \<Rightarrow>
     bindE (wait_when_hard_cap_reached counted (ri_hard_weekly_cap i)
        (ri_oldest_reconciled_at i) (ri_rolling_window_days i)) (\<lambda>hard_cap.
     case hard_cap of Some d \<Rightarrow> Inr d | None \<Rightarrow>
     bindE (wait_when_reconciled_reaches_cap counted cap
        (ri_oldest_reconciled_at i) (ri_rolling_window_days i)) (\<lambda>at_cap.
     case at_cap of Some d \<Rightarrow> Inr d | None \<Rightarrow>
     case allow_unreconciled_remainder counted cap (ri_unreconciled_count i) of Some d \<Rightarrow> Inr d | None \<Rightarrow>
     case allow_one_below_cap counted cap (ri_unreconciled_count i) of Some d \<Rightarrow> Inr d | None \<Rightarrow>
     case allow_under_supplied_cap counted cap of Some d \<Rightarrow> Inr d | None \<Rightarrow> Inr ramp_closed)))"

subsection \<open>The maturity clock\<close>

definition ACCUMULATED_LIVE_RULE :: string where
  "ACCUMULATED_LIVE_RULE = ''accumulated-live-periods''"

definition MATURITY_LIVE_DAYS :: int where "MATURITY_LIVE_DAYS = 30"

definition PERIOD_SECONDS :: int where "PERIOD_SECONDS = 24 * 60 * 60"

record live_interval =
  li_status :: string
  li_started_at :: py_datetime
  li_ended_at :: py_datetime

record listing_defect =
  ld_code :: string
  ld_detected_at :: py_datetime

record repair_work =
  rw_repair_job_id :: uuid
  rw_listing_id :: uuid
  rw_defect_code :: string
  rw_detected_at :: time

record maturity_evaluation =
  me_accumulated_live_periods :: int
  me_mature :: bool
  me_portfolio_decision_due :: bool
  me_repair :: "repair_work option"
  me_idempotency_key :: "string option"

definition repair_work_id :: "(string \<Rightarrow> uuid) \<Rightarrow> uuid \<Rightarrow> string \<Rightarrow> uuid" where
  "repair_work_id uuid5_url listing_id defect_code =
     uuid5_url (''money-machine:repair-work:'' @ str_uuid listing_id @ '':'' @ defect_code)"

text \<open>One turn of the loop that collects the clipped active ranges.\<close>

definition clip_interval ::
  "time \<Rightarrow> time \<Rightarrow> live_interval \<Rightarrow> (time \<times> time) list \<Rightarrow> error + (time \<times> time) list" where
  "clip_interval published_at evaluated_at interval ranges =
     bindE (as_utc ''interval.started_at'' (li_started_at interval)) (\<lambda>start.
     bindE (as_utc ''interval.ended_at'' (li_ended_at interval)) (\<lambda>stop.
     bindE (guardE (\<not> stop < start) (ValueError ''interval ends before it starts'')) (\<lambda>_.
     if li_status interval = ''INACTIVE'' then Inr ranges
     else bindE (guardE (li_status interval = ''ACTIVE'') (ValueError ''unknown interval status'')) (\<lambda>_.
       let clipped_start = max start published_at; clipped_end = min stop evaluated_at in
       Inr (if clipped_start < clipped_end then ranges @ [(clipped_start, clipped_end)] else ranges)))))"

text \<open>
  One turn of the summing loop: \<^verbatim>\<open>delta.days * _PERIOD_SECONDS + delta.seconds\<close> is the length in
  whole seconds.
\<close>

definition add_range ::
  "time \<times> time \<Rightarrow> int \<times> time option \<Rightarrow> error + (int \<times> time option)" where
  "add_range r acc = (case (r, acc) of ((start, stop), (total_seconds, previous_end)) \<Rightarrow>
     bindE (guardE (case previous_end of None \<Rightarrow> True | Some p \<Rightarrow> \<not> start < p)
        (ValueError ''active intervals overlap'')) (\<lambda>_.
     let delta = stop - start;
         days = delta div day_microseconds;
         seconds = delta mod day_microseconds div 1000000
     in Inr (total_seconds + (days * PERIOD_SECONDS + seconds), Some stop)))"

definition accumulated_live_periods ::
  "time \<Rightarrow> live_interval list \<Rightarrow> time \<Rightarrow> error + int" where
  "accumulated_live_periods published_at intervals evaluated_at =
     bindE (foldE (clip_interval published_at evaluated_at) intervals []) (\<lambda>ranges.
     bindE (foldE add_range (sort_key fst ranges) (0, None)) (\<lambda>(total_seconds, _).
     Inr (total_seconds div PERIOD_SECONDS)))"

definition repair_of ::
  "(string \<Rightarrow> uuid) \<Rightarrow> uuid \<Rightarrow> listing_defect option \<Rightarrow> time \<Rightarrow> time \<Rightarrow> error + repair_work option" where
  "repair_of uuid5_url listing_id defect published_at evaluated_at = (case defect of
       None \<Rightarrow> Inr None
     | Some d \<Rightarrow> bindE (as_utc ''defect.detected_at'' (ld_detected_at d)) (\<lambda>detected_at.
         if detected_at < published_at \<or> evaluated_at < detected_at then Inr None
         else Inr (Some \<lparr>rw_repair_job_id = repair_work_id uuid5_url listing_id (ld_code d),
           rw_listing_id = listing_id, rw_defect_code = ld_code d, rw_detected_at = detected_at\<rparr>)))"

definition evaluate_maturity ::
  "(string \<Rightarrow> uuid) \<Rightarrow> uuid \<Rightarrow> py_datetime \<Rightarrow> live_interval list \<Rightarrow> py_datetime \<Rightarrow>
   int option \<Rightarrow> listing_defect option \<Rightarrow> error + maturity_evaluation" where
  "evaluate_maturity uuid5_url listing_id published_at intervals evaluated_at live_days defect =
     bindE (as_utc ''published_at'' published_at) (\<lambda>published.
     bindE (as_utc ''evaluated_at'' evaluated_at) (\<lambda>evaluated.
     bindE (accumulated_live_periods published intervals evaluated) (\<lambda>periods.
     bindE (repair_of uuid5_url listing_id defect published evaluated) (\<lambda>repair.
     let mature = (MATURITY_LIVE_DAYS \<le> periods); decision_due = (mature \<and> repair = None) in
     Inr \<lparr>me_accumulated_live_periods = periods, me_mature = mature,
       me_portfolio_decision_due = decision_due, me_repair = repair,
       me_idempotency_key = (if decision_due
         then Some (str_uuid listing_id @ '':'' @ ACCUMULATED_LIVE_RULE @ '':'' @ str_int MATURITY_LIVE_DAYS)
         else None)\<rparr>))))"

subsection \<open>The ramp rule\<close>

text \<open>
  The cascade of waiting and allowing steps is equivalent to one rule: a disabled ramp is
  closed; an enabled one is open exactly while the reconciled count is below both caps, and
  otherwise closed until the oldest counted publication leaves the window. Unreconciled
  publications do not enter the decision.
\<close>

theorem publishing_ramp_rule:
  "decide_publishing_ramp i = bindE (ramp_validate i) (\<lambda>_.
     if \<not> ri_publishing_enabled i then Inr \<lparr>may_publish = False, next_permissible_at = None\<rparr>
     else if ri_reconciled_count i < min (ri_initial_weekly_cap i) (ri_hard_weekly_cap i)
       then Inr \<lparr>may_publish = True, next_permissible_at = None\<rparr>
     else bindE (add_days (the (ri_oldest_reconciled_at i)) (ri_rolling_window_days i)) (\<lambda>opened.
       Inr \<lparr>may_publish = False, next_permissible_at = Some opened\<rparr>))"
proof (cases "ramp_validate i")
  case (Inl e)
  then show ?thesis by (simp add: decide_publishing_ramp_def)
next
  case (Inr u)
  then have v: "1 \<le> ri_initial_weekly_cap i" "1 \<le> ri_hard_weekly_cap i" "0 \<le> ri_unreconciled_count i"
    "0 < ri_reconciled_count i \<longrightarrow> ri_oldest_reconciled_at i \<noteq> None"
    by (auto simp: ramp_validate_def resolve)
  have closed: "ramp_closed_until (ri_oldest_reconciled_at i) n =
      bindE (add_days (the (ri_oldest_reconciled_at i)) n) (\<lambda>opened.
        Inr \<lparr>may_publish = False, next_permissible_at = Some opened\<rparr>)"
    if "min (ri_initial_weekly_cap i) (ri_hard_weekly_cap i) \<le> ri_reconciled_count i" for n
    using v that by (auto simp: ramp_closed_until_def)
  note steps = decide_publishing_ramp_def wait_when_publishing_disabled_def
    wait_when_hard_cap_reached_def wait_when_reconciled_reaches_cap_def
    allow_unreconciled_remainder_def allow_one_below_cap_def allow_under_supplied_cap_def
    cap_from_caller_def ramp_open_def ramp_closed_def Let_def
  show ?thesis
  proof (cases "ri_reconciled_count i < min (ri_initial_weekly_cap i) (ri_hard_weekly_cap i)")
    case True
    then show ?thesis using Inr v by (auto simp: steps)
  next
    case False
    then have "ri_hard_weekly_cap i \<le> ri_reconciled_count i \<or>
        \<not> ri_hard_weekly_cap i \<le> ri_reconciled_count i \<and> ri_initial_weekly_cap i \<le> ri_reconciled_count i"
      by auto
    then show ?thesis using Inr False closed [of "ri_rolling_window_days i"]
      by (cases "add_days (the (ri_oldest_reconciled_at i)) (ri_rolling_window_days i)")
        (auto simp: steps)
  qed
qed

subsection \<open>What the clock measures\<close>

definition instant :: "py_datetime \<Rightarrow> time" where
  "instant d = wall d - the (utcoffset d)"

text \<open>The microseconds between publication and evaluation in which the listing was active.\<close>

definition active_instants :: "time \<Rightarrow> live_interval list \<Rightarrow> time \<Rightarrow> time set" where
  "active_instants published_at intervals evaluated_at =
     {t. published_at \<le> t \<and> t < evaluated_at \<and> (\<exists>i \<in> set intervals. li_status i = ''ACTIVE'' \<and>
        instant (li_started_at i) \<le> t \<and> t < instant (li_ended_at i))}"

definition clipped :: "time \<Rightarrow> time \<Rightarrow> live_interval \<Rightarrow> (time \<times> time) list" where
  "clipped p e i = (let s = max (instant (li_started_at i)) p; t = min (instant (li_ended_at i)) e in
     if li_status i = ''ACTIVE'' \<and> s < t then [(s, t)] else [])"

lemma as_utc_instant: "as_utc label d = Inr t \<Longrightarrow> t = instant d"
  by (auto simp: as_utc_def instant_def Let_def split: option.splits if_splits)

lemma clip_interval_eq:
  assumes "clip_interval p e i rs = Inr rs'"
  shows "rs' = rs @ clipped p e i"
  using assms by (auto simp: clip_interval_def clipped_def resolve Let_def
    dest!: as_utc_instant split: if_splits)

lemma clip_fold_eq:
  "foldE (clip_interval p e) is rs = Inr rs' \<Longrightarrow> rs' = rs @ concat (map (clipped p e) is)"
  by (induction "is" arbitrary: rs) (fastforce simp: resolve dest!: clip_interval_eq)+

lemma whole_seconds:
  "delta div day_microseconds * PERIOD_SECONDS + delta mod day_microseconds div 1000000 = delta div 1000000"
proof -
  have d: "day_microseconds = 1000000 * PERIOD_SECONDS" and p: "0 \<le> PERIOD_SECONDS"
    by (simp_all add: day_microseconds_def PERIOD_SECONDS_def)
  have "delta mod day_microseconds div 1000000 = delta div 1000000 mod PERIOD_SECONDS"
    unfolding d zmod_zmult2_eq [OF p] by simp
  moreover have "delta div day_microseconds = delta div 1000000 div PERIOD_SECONDS"
    unfolding d zdiv_zmult2_eq [OF p] ..
  ultimately show ?thesis by simp
qed

lemma add_range_eq:
  "add_range (s, t) (tot, prev) = Inr (tot', prev') \<longleftrightarrow>
     (\<forall>p. prev = Some p \<longrightarrow> p \<le> s) \<and> tot' = tot + (t - s) div 1000000 \<and> prev' = Some t"
  by (auto simp: add_range_def resolve Let_def whole_seconds split: option.splits)

definition ranges_cover :: "(time \<times> time) list \<Rightarrow> time set" where
  "ranges_cover rs = (\<Union>(s, t) \<in> set rs. {s ..< t})"

lemma ranges_cover_simps [simp]:
  "ranges_cover [] = {}"
  "ranges_cover ((s, t) # rs) = {s ..< t} \<union> ranges_cover rs"
  by (auto simp: ranges_cover_def)

lemma finite_ranges_cover [simp]: "finite (ranges_cover rs)"
  by (auto simp: ranges_cover_def)

text \<open>
  When the summing loop accepts the sorted ranges they are disjoint, so their lengths add up
  to the time they cover; each range loses less than a second to rounding.
\<close>

lemma add_ranges_measure:
  assumes "foldE add_range rs (tot, prev) = Inr (tot', prev')"
    and "sorted (map fst rs)" and "\<forall>(s, t) \<in> set rs. s < t"
  shows "(\<forall>p. prev = Some p \<longrightarrow> (\<forall>x \<in> ranges_cover rs. p \<le> x)) \<and>
    (tot' - tot) * 1000000 \<le> int (card (ranges_cover rs)) \<and>
    int (card (ranges_cover rs)) \<le> (tot' - tot) * 1000000 + 999999 * int (length rs)"
  using assms
proof (induction rs arbitrary: tot prev)
  case Nil
  then show ?case by simp
next
  case (Cons r rs)
  obtain s t where r: "r = (s, t)" by force
  from Cons.prems(1) obtain mid where m: "add_range (s, t) (tot, prev) = Inr mid"
    and f: "foldE add_range rs mid = Inr (tot', prev')" by (auto simp: r resolve)
  from m have mid: "mid = (tot + (t - s) div 1000000, Some t)" and p: "\<forall>p. prev = Some p \<longrightarrow> p \<le> s"
    by (cases mid; simp add: add_range_eq)+
  have st: "s < t" and ss: "\<forall>(a, b) \<in> set rs. s \<le> a" using Cons.prems(2,3) by (auto simp: r)
  note IH = Cons.IH [OF f [unfolded mid]]
  have ih: "\<forall>x \<in> ranges_cover rs. t \<le> x"
    "(tot' - (tot + (t - s) div 1000000)) * 1000000 \<le> int (card (ranges_cover rs))"
    "int (card (ranges_cover rs)) \<le>
       (tot' - (tot + (t - s) div 1000000)) * 1000000 + 999999 * int (length rs)"
    using IH Cons.prems(2,3) by auto
  have "{s ..< t} \<inter> ranges_cover rs = {}" using ih(1) by fastforce
  then have c: "int (card (ranges_cover (r # rs))) = (t - s) + int (card (ranges_cover rs))"
    using st by (simp add: r card_Un_disjoint)
  have q: "(t - s) div 1000000 * 1000000 \<le> t - s" "t - s \<le> (t - s) div 1000000 * 1000000 + 999999"
    using pos_mod_bound [of "1000000 :: int" "t - s"] pos_mod_sign [of "1000000 :: int" "t - s"]
      div_mult_mod_eq [of "t - s" 1000000] by linarith+
  have "\<forall>p. prev = Some p \<longrightarrow> (\<forall>x \<in> ranges_cover (r # rs). p \<le> x)"
    using p ss by (force simp: ranges_cover_def r)
  then show ?case unfolding c using ih(2,3) q by (auto simp: algebra_simps)
qed

lemma cover_sorted: "ranges_cover (sort_key f rs) = ranges_cover rs"
  by (simp add: ranges_cover_def)

lemma cover_clipped: "ranges_cover (concat (map (clipped p e) is)) = active_instants p is e"
  by (force simp: ranges_cover_def clipped_def active_instants_def Let_def split: if_splits)

lemma length_clipped: "length (concat (map (clipped p e) is)) \<le> length is"
  by (induction "is") (auto simp: clipped_def Let_def)

lemma accumulated_bounds:
  assumes "accumulated_live_periods p is e = Inr n"
  shows "n * day_microseconds \<le> int (card (active_instants p is e))"
    "int (card (active_instants p is e)) < (n + 1) * day_microseconds + 1000000 * int (length is)"
proof -
  define rs where "rs = concat (map (clipped p e) is)"
  from assms obtain tot prev where
    f: "foldE add_range (sort_key fst rs) (0, None) = Inr (tot, prev)" and n: "n = tot div PERIOD_SECONDS"
    by (auto simp: accumulated_live_periods_def resolve rs_def dest!: clip_fold_eq)
  have "\<forall>(s, t) \<in> set rs. s < t" by (auto simp: rs_def clipped_def Let_def split: if_splits)
  then have b: "tot * 1000000 \<le> int (card (active_instants p is e))"
    "int (card (active_instants p is e)) \<le> tot * 1000000 + 999999 * int (length rs)"
    using add_ranges_measure [OF f] by (simp_all add: cover_sorted rs_def cover_clipped)
  have "n * 86400 \<le> tot" "tot < (n + 1) * 86400" unfolding n PERIOD_SECONDS_def
    by (simp_all add: minus_mod_eq_div_mult [symmetric] algebra_simps)
  then show "n * day_microseconds \<le> int (card (active_instants p is e))"
    "int (card (active_instants p is e)) < (n + 1) * day_microseconds + 1000000 * int (length is)"
    using b length_clipped [of p e "is"] by (simp_all add: day_microseconds_def flip: rs_def)
qed

text \<open>The evidence is accepted exactly when it is well formed and never counts an instant twice.\<close>

definition active_at :: "time \<Rightarrow> live_interval \<Rightarrow> bool" where
  "active_at t i \<longleftrightarrow> li_status i = ''ACTIVE'' \<and> instant (li_started_at i) \<le> t \<and> t < instant (li_ended_at i)"

definition interval_ok :: "live_interval \<Rightarrow> bool" where
  "interval_ok i \<longleftrightarrow> \<not> isl (as_utc [] (li_started_at i)) \<and> \<not> isl (as_utc [] (li_ended_at i)) \<and>
     instant (li_started_at i) \<le> instant (li_ended_at i) \<and> li_status i \<in> {''ACTIVE'', ''INACTIVE''}"

definition covers :: "time \<Rightarrow> time \<times> time \<Rightarrow> bool" where
  "covers x r \<longleftrightarrow> fst r \<le> x \<and> x < snd r"

lemma as_utc_ok: "\<not> isl (as_utc [] d) \<longleftrightarrow> as_utc label d = Inr (instant d)"
  by (auto simp: as_utc_def instant_def Let_def split: option.splits)

lemma clip_interval_ok: "(\<exists>rs'. clip_interval p e i rs = Inr rs') \<longleftrightarrow> interval_ok i"
proof -
  let ?s = "li_started_at i" and ?t = "li_ended_at i"
  note s = as_utc_ok [of ?s "''interval.started_at''"] and t = as_utc_ok [of ?t "''interval.ended_at''"]
  show ?thesis
  proof (cases "\<not> isl (as_utc [] ?s) \<and> \<not> isl (as_utc [] ?t)")
    case True
    then show ?thesis using s t by (auto simp: interval_ok_def clip_interval_def resolve Let_def)
  next
    case False
    then show ?thesis using s t
      by (auto simp: interval_ok_def clip_interval_def resolve dest: as_utc_instant)
  qed
qed

lemma clip_fold_ok: "(\<exists>rs'. foldE (clip_interval p e) is rs = Inr rs') \<longleftrightarrow> list_all interval_ok is"
proof (induction "is" arbitrary: rs)
  case Nil
  then show ?case by simp
next
  case (Cons i "is")
  have "(\<exists>rs'. foldE (clip_interval p e) (i # is) rs = Inr rs') \<longleftrightarrow>
    (\<exists>u. clip_interval p e i rs = Inr u \<and> (\<exists>rs'. foldE (clip_interval p e) is u = Inr rs'))"
    by (auto simp: resolve)
  also have "\<dots> \<longleftrightarrow> interval_ok i \<and> list_all interval_ok is"
    unfolding Cons.IH using clip_interval_ok by auto
  finally show ?case by simp
qed

lemma add_ranges_ok:
  assumes "sorted (map fst rs)" and "\<forall>(s, t) \<in> set rs. s < t"
  shows "(\<exists>r. foldE add_range rs (tot, prev) = Inr r) \<longleftrightarrow>
    (\<forall>x. length (filter (covers x) rs) \<le> 1) \<and> (\<forall>p. prev = Some p \<longrightarrow> (\<forall>r \<in> set rs. p \<le> fst r))"
  using assms
proof (induction rs arbitrary: tot prev)
  case Nil
  then show ?case by simp
next
  case (Cons r rs)
  obtain s t where r: "r = (s, t)" by force
  have st: "s < t" and later: "\<forall>q \<in> set rs. s \<le> fst q" and ne: "\<forall>q \<in> set rs. fst q < snd q"
    and hyps: "sorted (map fst rs)" "\<forall>(s, t) \<in> set rs. s < t"
    using Cons.prems by (auto simp: r)
  have "(\<exists>m. foldE add_range (r # rs) (tot, prev) = Inr m) \<longleftrightarrow>
    (\<forall>p. prev = Some p \<longrightarrow> p \<le> s) \<and>
    (\<exists>m. foldE add_range rs (tot + (t - s) div 1000000, Some t) = Inr m)"
    by (simp add: r bindE_eq_Inr split_paired_Ex add_range_eq)
  also have "\<dots> \<longleftrightarrow> (\<forall>p. prev = Some p \<longrightarrow> p \<le> s) \<and>
    (\<forall>x. length (filter (covers x) rs) \<le> 1) \<and> (\<forall>q \<in> set rs. t \<le> fst q)"
    using Cons.IH [OF hyps] by simp
  also have "(\<forall>x. length (filter (covers x) rs) \<le> 1) \<and> (\<forall>q \<in> set rs. t \<le> fst q) \<longleftrightarrow>
    (\<forall>x. length (filter (covers x) (r # rs)) \<le> 1)" (is "?l \<longleftrightarrow> ?r")
  proof
    assume l: ?l
    show ?r
    proof
      fix x
      show "length (filter (covers x) (r # rs)) \<le> 1"
      proof (cases "covers x r")
        case True
        then have "filter (covers x) rs = []" using l by (fastforce simp: r covers_def filter_empty_conv)
        then show ?thesis using True by simp
      next
        case False
        then show ?thesis using l by simp
      qed
    qed
  next
    assume c: ?r
    have "t \<le> fst q" if q: "q \<in> set rs" for q
    proof (rule ccontr)
      assume "\<not> t \<le> fst q"
      then have "covers (fst q) r" "q \<in> set (filter (covers (fst q)) rs)"
        using later ne q by (auto simp: r covers_def)
      then show False using c [rule_format, of "fst q"] by (auto simp: filter_empty_conv)
    qed
    moreover have "length (filter (covers x) rs) \<le> 1" for x
      using c [rule_format, of x] by (auto split: if_splits)
    ultimately show ?l by blast
  qed
  finally show ?case using later by (force simp: r)
qed

lemma covers_clipped:
  "length (filter (covers x) (concat (map (clipped p e) is))) =
     (if p \<le> x \<and> x < e then length (filter (active_at x) is) else 0)"
proof -
  have "length (filter (covers x) (clipped p e i)) = (if p \<le> x \<and> x < e \<and> active_at x i then 1 else 0)" for i
    by (auto simp: clipped_def covers_def active_at_def Let_def)
  then show ?thesis by (induction "is") simp_all
qed

lemma accumulated_ok:
  "(\<exists>n. accumulated_live_periods p is e = Inr n) \<longleftrightarrow>
     list_all interval_ok is \<and> (\<forall>x. p \<le> x \<longrightarrow> x < e \<longrightarrow> length (filter (active_at x) is) \<le> 1)"
proof (cases "foldE (clip_interval p e) is []")
  case (Inl err)
  then have "\<not> list_all interval_ok is" using clip_fold_ok [of p e "is" "[]"] by auto
  then show ?thesis using Inl by (simp add: accumulated_live_periods_def)
next
  case (Inr rs)
  then have rs: "rs = concat (map (clipped p e) is)" by (auto dest: clip_fold_eq)
  have ok: "list_all interval_ok is" using Inr clip_fold_ok [of p e "is" "[]"] by auto
  have "\<forall>(s, t) \<in> set (sort_key fst rs). s < t" by (auto simp: rs clipped_def Let_def split: if_splits)
  from add_ranges_ok [OF _ this, of 0 None]
  have "(\<exists>r. foldE add_range (sort_key fst rs) (0, None) = Inr r) \<longleftrightarrow>
      (\<forall>x. length (filter (covers x) rs) \<le> 1)"
    by (simp add: filter_sort)
  also have "\<dots> \<longleftrightarrow> (\<forall>x. p \<le> x \<longrightarrow> x < e \<longrightarrow> length (filter (active_at x) is) \<le> 1)"
    by (auto simp: rs covers_clipped)
  finally show ?thesis using Inr ok by (auto simp: accumulated_live_periods_def resolve)
qed

text \<open>
  C26: The clock accepts the evidence exactly when every interval is well formed and at no instant of
  the window two active intervals overlap; the result then counts the whole days of active time
  inside the window (each interval is cut to whole seconds first), whatever the order of the
  intervals and whatever the stored day count says. The portfolio decision is due exactly at
  thirty such days without an observed defect.
\<close>

theorem maturity_counts_active_time:
  assumes "as_utc ''published_at'' published = Inr p" and "as_utc ''evaluated_at'' evaluated = Inr e"
    and "\<forall>d. defect = Some d \<longrightarrow> \<not> isl (as_utc ''defect.detected_at'' (ld_detected_at d))"
  shows "(\<not> isl (evaluate_maturity uuid5 listing published intervals evaluated live_days defect) \<longleftrightarrow>
      list_all interval_ok intervals \<and>
      (\<forall>x. p \<le> x \<longrightarrow> x < e \<longrightarrow> length (filter (active_at x) intervals) \<le> 1)) \<and>
    (\<forall>m. evaluate_maturity uuid5 listing published intervals evaluated live_days defect = Inr m \<longrightarrow>
      (let active = int (card (active_instants p intervals e)); n = me_accumulated_live_periods m in
       n * day_microseconds \<le> active \<and>
       active < (n + 1) * day_microseconds + 1000000 * int (length intervals) \<and>
       me_mature m = (30 \<le> n) \<and>
       me_portfolio_decision_due m = (30 \<le> n \<and>
         \<not> (\<exists>d. defect = Some d \<and> p \<le> instant (ld_detected_at d) \<and> instant (ld_detected_at d) \<le> e)) \<and>
       (me_idempotency_key m \<noteq> None) = me_portfolio_decision_due m))"
proof -
  obtain r where r: "repair_of uuid5 listing defect p e = Inr r"
    and rn: "r = None \<longleftrightarrow>
      \<not> (\<exists>d. defect = Some d \<and> p \<le> instant (ld_detected_at d) \<and> instant (ld_detected_at d) \<le> e)"
  proof (cases defect)
    case None
    then show ?thesis using that by (simp add: repair_of_def)
  next
    case (Some d)
    then obtain t where t: "as_utc ''defect.detected_at'' (ld_detected_at d) = Inr t"
      using assms(3) by (cases "as_utc ''defect.detected_at'' (ld_detected_at d)") auto
    show ?thesis using as_utc_instant [OF t]
      by (intro that [of "if t < p \<or> e < t then None else Some \<lparr>rw_repair_job_id =
        repair_work_id uuid5 listing (ld_code d), rw_listing_id = listing,
        rw_defect_code = ld_code d, rw_detected_at = t\<rparr>"]) (auto simp: repair_of_def Some t)
  qed
  note run = evaluate_maturity_def assms(1,2) r
  have "\<not> isl (evaluate_maturity uuid5 listing published intervals evaluated live_days defect) \<longleftrightarrow>
      list_all interval_ok intervals \<and>
      (\<forall>x. p \<le> x \<longrightarrow> x < e \<longrightarrow> length (filter (active_at x) intervals) \<le> 1)"
    unfolding accumulated_ok [symmetric]
    by (cases "accumulated_live_periods p intervals e") (simp_all add: run Let_def)
  moreover have "let active = int (card (active_instants p intervals e)); n = me_accumulated_live_periods m in
       n * day_microseconds \<le> active \<and>
       active < (n + 1) * day_microseconds + 1000000 * int (length intervals) \<and>
       me_mature m = (30 \<le> n) \<and>
       me_portfolio_decision_due m = (30 \<le> n \<and>
         \<not> (\<exists>d. defect = Some d \<and> p \<le> instant (ld_detected_at d) \<and> instant (ld_detected_at d) \<le> e)) \<and>
       (me_idempotency_key m \<noteq> None) = me_portfolio_decision_due m"
    if m: "evaluate_maturity uuid5 listing published intervals evaluated live_days defect = Inr m" for m
  proof -
    from m obtain n where n: "accumulated_live_periods p intervals e = Inr n"
      by (auto simp: run resolve)
    show ?thesis using m n accumulated_bounds [OF n] rn
      by (auto simp: run Let_def MATURITY_LIVE_DAYS_def split: if_splits)
  qed
  ultimately show ?thesis by blast
qed

definition example_day :: "int \<Rightarrow> py_datetime" where
  "example_day n = \<lparr>wall = n * 86400000000, utcoffset = Some 0\<rparr>"

definition example_intervals :: "live_interval list" where
  "example_intervals =
     [\<lparr>li_status = ''ACTIVE'', li_started_at = example_day 20, li_ended_at = example_day 40\<rparr>,
      \<lparr>li_status = ''INACTIVE'', li_started_at = example_day 10, li_ended_at = example_day 20\<rparr>,
      \<lparr>li_status = ''ACTIVE'', li_started_at = example_day 0, li_ended_at = example_day 10\<rparr>]"

theorem maturity_counts_active_time_witness:
  "(let m = projr (evaluate_maturity (\<lambda>_. 0) 1 (example_day 0) example_intervals (example_day 50) None None) in
    me_accumulated_live_periods m = 30 \<and>
    30 * day_microseconds \<le> int (card (active_instants 0 example_intervals (50 * 86400000000))) \<and>
    me_portfolio_decision_due m) \<and>
    \<not> isl (evaluate_maturity (\<lambda>_. 0) 1 (example_day 0) example_intervals (example_day 50) None None)"
proof -
  let ?r = "evaluate_maturity (\<lambda>_. 0) 1 (example_day 0) example_intervals (example_day 50) None None"
  have h: "as_utc ''published_at'' (example_day 0) = Inr 0"
    "as_utc ''evaluated_at'' (example_day 50) = Inr (50 * 86400000000)" by code_simp+
  have r: "?r = Inr (projr ?r)" "me_accumulated_live_periods (projr ?r) = 30" by code_simp+
  note t = maturity_counts_active_time [OF h, of None "\<lambda>_. 0" 1 example_intervals None]
  have "\<not> isl ?r" using r(1) by (metis sum.disc(2))
  moreover have "let m = projr ?r in 30 * day_microseconds \<le>
      int (card (active_instants 0 example_intervals (50 * 86400000000))) \<and> me_portfolio_decision_due m"
    using t [THEN conjunct2, rule_format, OF _ r(1)] r(2) by (simp add: Let_def)
  ultimately show ?thesis using r(2) by (simp add: Let_def)
qed

end
