(* ===== verification/Portfolio.thy ===== *)
theory Portfolio
  imports Maturity Config "HOL-Library.Product_Lexorder"
begin

section \<open>Portfolio eligibility\<close>

text \<open>
  \<^verbatim>\<open>assets/portfolio_eligibility.py\<close>: which listings are held, repaired, culled or multiplied, and
  which queued experiment gets a new-front slot. A dict keyed by shop is an association list in
  insertion order, a frozenset of ids a set; \<^verbatim>\<open>uuid5\<close> in the module's namespace is an argument.
  Scores compare as Python tuples do, by the lexicographic order of products.

  The lemmas relate the sorted list and its cutoff to a rank, so that \<open>portfolio_rule\<close> states the
  decision of a listing without sorting; \<open>portfolio_decisions_exact\<close> says the code decides by it.
\<close>

subsection \<open>\<^verbatim>\<open>int(text)\<close>\<close>

definition digit_value :: "char \<Rightarrow> int option" where
  "digit_value c = (let n = (of_char c :: nat) in if 48 \<le> n \<and> n \<le> 57 then Some (int n - 48) else None)"

text \<open>Digits with single underscores between them; the flag says that the last character was a digit.\<close>

fun scan_digits :: "int \<Rightarrow> bool \<Rightarrow> string \<Rightarrow> int option" where
  "scan_digits acc after_digit [] = (if after_digit then Some acc else None)"
| "scan_digits acc after_digit (c # cs) = (case digit_value c of
     Some v \<Rightarrow> scan_digits (10 * acc + v) True cs
   | None \<Rightarrow> if c = CHR ''_'' \<and> after_digit then scan_digits acc False cs else None)"

definition py_int :: "string \<Rightarrow> error + int" where
  "py_int s = (let t = py_strip s; bad = ValueError ''invalid literal for int()'';
      digits = (\<lambda>u. if 4300 < length (filter (\<lambda>c. c \<noteq> CHR ''_'') u) then None else scan_digits 0 False u) in
     case t of
       [] \<Rightarrow> Inl bad
     | c # cs \<Rightarrow>
         (case (if c = CHR ''-'' then map_option uminus (digits cs)
                else if c = CHR ''+'' then digits cs else digits t) of
            None \<Rightarrow> Inl bad | Some n \<Rightarrow> Inr n))"

subsection \<open>Data\<close>

definition PORTFOLIO_MATURITY_LIVE_DAYS :: int where "PORTFOLIO_MATURITY_LIVE_DAYS = 30"
definition MIN_COHORT :: nat where "MIN_COHORT = 5"
definition COLLECTION_GAP_DAYS :: int where "COLLECTION_GAP_DAYS = 7"
definition NOT_JOB_TYPES :: "string set" where
  "NOT_JOB_TYPES = {''CREATE_SUCCESSOR_SPEC'', ''CHECK_DEDUPE'', ''BUILD_NOTION_TEMPLATE''}"

type_synonym score = "int \<times> int \<times> int \<times> int"

record snapshot_view =
  sv_snapshot_id :: uuid
  sv_views :: int
  sv_favourites :: int
  sv_orders :: int
  sv_gross_revenue :: int
  sv_reconciled :: bool

record listing_candidate =
  lc_listing_id :: uuid
  lc_product_id :: uuid
  lc_spec_id :: uuid
  lc_workflow_id :: uuid
  lc_shop_id :: uuid
  lc_live_days :: int
  lc_in_window :: bool
  lc_has_defect :: bool
  lc_snapshot :: "snapshot_view option"

record portfolio_result =
  pf_listing_id :: uuid
  pf_decision_id :: uuid
  pf_decision :: decision_type
  pf_decided_at :: py_datetime
  pf_snapshot_id :: uuid
  pf_event_names :: "event_name list"
  pf_deactivation_job_id :: "uuid option"
  pf_deactivation_executed :: bool
  pf_repair_job_id :: "uuid option"
  pf_next_collection_at :: "py_datetime option"
  pf_successor_spec_id :: "uuid option"
  pf_lineage_kind :: "string option"
  pf_successor_workflow_id :: "uuid option"
  pf_parent_spec_id :: "uuid option"
  pf_parent_product_id :: "uuid option"
  pf_parent_decision_id :: "uuid option"
  pf_parent_workflow_id :: "uuid option"
  pf_build_step :: "unit option"
  pf_stops_at :: "string option"
  pf_job_types :: "string list"

datatype experiment_state = X_QUEUED | X_SCHEDULED | X_RUNNING | X_CONCLUDED | X_ABANDONED

record queued_experiment =
  qe_experiment_id :: uuid
  qe_product_id :: uuid
  qe_state :: experiment_state
  qe_blocked :: bool
  qe_variant_of_winner :: bool

record experiment_batch =
  eb_batch_id :: uuid
  eb_winner_product_id :: uuid
  eb_experiments :: "queued_experiment list"
  eb_publishing_enabled :: bool

record experiment_outcome =
  eo_experiment_id :: uuid
  eo_state :: experiment_state
  eo_delivered :: bool

record slot_result =
  sl_scheduled_experiment_ids :: "uuid list"
  sl_outcomes :: "experiment_outcome list"
  sl_publication_ids :: "uuid list"
  sl_delivered_experiment_ids :: "uuid list"

subsection \<open>Labels and results\<close>

definition is_portfolio_decision :: "string \<Rightarrow> bool" where
  "is_portfolio_decision label \<longleftrightarrow> label \<in> set (map decision_value [HOLD, REPAIR, CULL, MULTIPLY])"

definition is_job_type :: "string \<Rightarrow> bool" where
  "is_job_type label \<longleftrightarrow> label \<notin> NOT_JOB_TYPES \<and> label \<in> {}"

definition counts_as_cull :: "decision_type \<Rightarrow> uuid option \<Rightarrow> bool" where
  "counts_as_cull decision deactivation_job_id \<longleftrightarrow> decision = CULL \<and> deactivation_job_id \<noteq> None"

text \<open>The argument of \<open>is_successful_result\<close> is a result or a tuple of labels.\<close>

definition is_successful_result :: "portfolio_result + string list \<Rightarrow> bool" where
  "is_successful_result v = (case v of Inr _ \<Rightarrow> False | Inl r \<Rightarrow>
     pf_decision r = MULTIPLY \<and> pf_successor_spec_id r \<noteq> None \<and> pf_lineage_kind r = Some ''SUCCESSOR'' \<and>
     pf_successor_workflow_id r \<noteq> None \<and> pf_parent_workflow_id r \<noteq> None \<and>
     pf_successor_workflow_id r \<noteq> pf_parent_workflow_id r \<and> pf_build_step r = None \<and>
     pf_stops_at r = Some ''DEDUPE_CHECK'')"

definition derive :: "(string \<Rightarrow> uuid) \<Rightarrow> string \<Rightarrow> uuid list \<Rightarrow> uuid" where
  "derive uuid5 kind parts = uuid5 (join_with '':'' (kind # map str_uuid parts))"

subsection \<open>Cohorts\<close>

definition in_percentile_cohort :: "listing_candidate \<Rightarrow> bool" where
  "in_percentile_cohort l = (case lc_snapshot l of None \<Rightarrow> False | Some s \<Rightarrow>
     if \<not> sv_reconciled s then False
     else if \<not> lc_in_window l \<or> lc_has_defect l \<or> lc_live_days l < PORTFOLIO_MATURITY_LIVE_DAYS then False
     else \<not> (0 < sv_views s \<and> sv_orders s = 0))"

definition score_of :: "listing_candidate \<Rightarrow> score" where
  "score_of l = (case lc_snapshot l of None \<Rightarrow> (0, 0, 0, 0)
     | Some s \<Rightarrow> (sv_orders s, sv_gross_revenue s, sv_favourites s, sv_views s))"

definition rank_key :: "listing_candidate \<Rightarrow> score \<times> uuid" where
  "rank_key l = (score_of l, lc_listing_id l)"

text \<open>\<^verbatim>\<open>grouped.setdefault(k, []).append(v)\<close>\<close>

fun setdefault_append :: "'k \<Rightarrow> 'v \<Rightarrow> ('k \<times> 'v list) list \<Rightarrow> ('k \<times> 'v list) list" where
  "setdefault_append k v [] = [(k, [v])]"
| "setdefault_append k v ((k', vs) # g) =
     (if k = k' then (k', vs @ [v]) # g else (k', vs) # setdefault_append k v g)"

definition grouped :: "listing_candidate list \<Rightarrow> (uuid \<times> listing_candidate list) list" where
  "grouped listings = fold (\<lambda>l g. if in_percentile_cohort l then setdefault_append (lc_shop_id l) l g else g)
     listings []"

definition cull_group :: "int \<Rightarrow> listing_candidate list \<Rightarrow> uuid set \<Rightarrow> error + uuid set" where
  "cull_group percent members chosen =
     (if length members < MIN_COHORT then Inr chosen
      else let ordered = sort_key rank_key members; pool = (int (length ordered) * percent) div 100 in
        if pool \<le> 0 then Inr chosen
        else if int (length ordered) < pool then Inl LookupError
        else let cutoff = score_of (ordered ! (nat pool - 1)) in
          Inr (chosen \<union> lc_listing_id ` set (filter (\<lambda>item. score_of item < cutoff) ordered)))"

definition cull_ids :: "listing_candidate list \<Rightarrow> string \<Rightarrow> error + uuid set" where
  "cull_ids listings cull_bottom_percent = bindE (py_int cull_bottom_percent) (\<lambda>percent.
     foldE (cull_group percent) (map snd (grouped listings)) {})"

definition unique_winner :: "listing_candidate list \<Rightarrow> uuid option" where
  "unique_winner members = (let ranked = rev (sort_key rank_key (rev members)) in
     case ranked of [] \<Rightarrow> None
     | best # rest \<Rightarrow> (case lc_snapshot best of None \<Rightarrow> None
       | Some s \<Rightarrow> if sv_orders s \<le> 0 then None
           else if rest \<noteq> [] \<and> score_of (hd rest) = score_of best then None
           else Some (lc_listing_id best)))"

definition multiply_ids :: "listing_candidate list \<Rightarrow> uuid set \<Rightarrow> uuid set" where
  "multiply_ids listings culled = fold (\<lambda>(_, members) chosen.
     (case unique_winner members of Some winner \<Rightarrow> if winner \<notin> culled then insert winner chosen else chosen
      | None \<Rightarrow> chosen)) (grouped listings) {}"

subsection \<open>Decisions\<close>

definition classify :: "listing_candidate \<Rightarrow> snapshot_view \<Rightarrow> uuid set \<Rightarrow> uuid set \<Rightarrow> decision_type option" where
  "classify l s culled multiply =
     (if lc_has_defect l then Some REPAIR
      else if lc_live_days l < PORTFOLIO_MATURITY_LIVE_DAYS then None
      else if 0 < sv_views s \<and> sv_orders s = 0 then Some REPAIR
      else if lc_listing_id l \<in> culled then Some CULL
      else if lc_listing_id l \<in> multiply then Some MULTIPLY
      else if lc_in_window l then Some HOLD
      else None)"

text \<open>Comparing an aware with a naive datetime raises \<^verbatim>\<open>TypeError\<close>.\<close>

definition datetime_less :: "py_datetime \<Rightarrow> py_datetime \<Rightarrow> error + bool" where
  "datetime_less a b = (case (utcoffset a, utcoffset b) of
       (Some p, Some q) \<Rightarrow> Inr (wall a - p < wall b - q)
     | (None, None) \<Rightarrow> Inr (wall a < wall b)
     | _ \<Rightarrow> Inl OtherException)"

definition suppressed :: "listing_candidate \<Rightarrow> portfolio_result option \<Rightarrow> py_datetime \<Rightarrow> error + bool" where
  "suppressed l prior decided_at = (case prior of None \<Rightarrow> Inr False | Some p \<Rightarrow>
     (case pf_decision p of
        HOLD \<Rightarrow> (case pf_next_collection_at p of None \<Rightarrow> Inr False
          | Some next_collection \<Rightarrow> datetime_less decided_at next_collection)
      | REPAIR \<Rightarrow> Inr (case lc_snapshot l of None \<Rightarrow> False | Some s \<Rightarrow> sv_snapshot_id s = pf_snapshot_id p)
      | _ \<Rightarrow> Inr False))"

text \<open>\<^verbatim>\<open>_record\<close> with every keyword at its default.\<close>

definition record_result ::
  "listing_candidate \<Rightarrow> snapshot_view \<Rightarrow> decision_type \<Rightarrow> py_datetime \<Rightarrow> uuid \<Rightarrow> event_name list \<Rightarrow> portfolio_result" where
  "record_result l s decision decided_at decision_id event_names =
     \<lparr>pf_listing_id = lc_listing_id l, pf_decision_id = decision_id, pf_decision = decision,
      pf_decided_at = decided_at, pf_snapshot_id = sv_snapshot_id s, pf_event_names = event_names,
      pf_deactivation_job_id = None, pf_deactivation_executed = False, pf_repair_job_id = None,
      pf_next_collection_at = None, pf_successor_spec_id = None, pf_lineage_kind = None,
      pf_successor_workflow_id = None, pf_parent_spec_id = None, pf_parent_product_id = None,
      pf_parent_decision_id = None, pf_parent_workflow_id = None, pf_build_step = None,
      pf_stops_at = None, pf_job_types = []\<rparr>"

definition build_result ::
  "(string \<Rightarrow> uuid) \<Rightarrow> listing_candidate \<Rightarrow> snapshot_view \<Rightarrow> decision_type \<Rightarrow> py_datetime \<Rightarrow> error + portfolio_result" where
  "build_result uuid5 l s decision decided_at =
     (let decision_id = derive uuid5 (decision_value decision) [lc_listing_id l, sv_snapshot_id s];
          base = record_result l s decision decided_at decision_id in
      case decision of
        HOLD \<Rightarrow> bindE (add_days decided_at COLLECTION_GAP_DAYS) (\<lambda>next_at.
          Inr ((base [EV_LISTING_HELD])\<lparr>pf_next_collection_at := Some next_at\<rparr>))
      | REPAIR \<Rightarrow> Inr ((base [EV_LISTING_REPAIR_REQUESTED])\<lparr>pf_repair_job_id :=
          Some (derive uuid5 ''repair'' [lc_listing_id l, sv_snapshot_id s])\<rparr>)
      | CULL \<Rightarrow> Inr ((base [EV_LISTING_CULL_REQUESTED])\<lparr>pf_deactivation_job_id :=
          Some (derive uuid5 ''deactivation'' [lc_listing_id l, sv_snapshot_id s]),
          pf_deactivation_executed := False\<rparr>)
      | MULTIPLY \<Rightarrow> Inr ((base [EV_WINNER_DETECTED])
          \<lparr>pf_successor_spec_id := Some (derive uuid5 ''successor-spec'' [lc_spec_id l, lc_listing_id l]),
           pf_lineage_kind := Some ''SUCCESSOR'',
           pf_successor_workflow_id :=
             Some (derive uuid5 ''successor-workflow'' [lc_workflow_id l, lc_listing_id l]),
           pf_parent_spec_id := Some (lc_spec_id l), pf_parent_product_id := Some (lc_product_id l),
           pf_parent_decision_id := Some decision_id, pf_parent_workflow_id := Some (lc_workflow_id l),
           pf_stops_at := Some ''DEDUPE_CHECK''\<rparr>))"

text \<open>One turn of the loop of \<^verbatim>\<open>evaluate_portfolio\<close>.\<close>

definition evaluate_listing ::
  "(string \<Rightarrow> uuid) \<Rightarrow> py_datetime \<Rightarrow> (uuid \<rightharpoonup> portfolio_result) \<Rightarrow> uuid set \<Rightarrow> uuid set \<Rightarrow>
   listing_candidate \<Rightarrow> portfolio_result list \<Rightarrow> error + portfolio_result list" where
  "evaluate_listing uuid5 decided_at priors_by_listing culled multiply l results =
     (case lc_snapshot l of None \<Rightarrow> Inr results | Some s \<Rightarrow>
      if \<not> sv_reconciled s then Inr results
      else bindE (suppressed l (priors_by_listing (lc_listing_id l)) decided_at) (\<lambda>skip.
        if skip then Inr results
        else case classify l s culled multiply of None \<Rightarrow> Inr results
          | Some decision \<Rightarrow> bindE (build_result uuid5 l s decision decided_at) (\<lambda>r. Inr (results @ [r]))))"

definition evaluate_portfolio ::
  "(string \<Rightarrow> uuid) \<Rightarrow> listing_candidate list \<Rightarrow> py_datetime \<Rightarrow> portfolio_result list \<Rightarrow> string \<Rightarrow>
   error + portfolio_result list" where
  "evaluate_portfolio uuid5 listings decided_at priors cull_bottom_percent =
     bindE (guardE (utcoffset decided_at \<noteq> None) (ValueError ''decided_at must be timezone-aware'')) (\<lambda>_.
     let priors_by_listing = map_of (rev (map (\<lambda>p. (pf_listing_id p, p)) priors)) in
     bindE (cull_ids listings cull_bottom_percent) (\<lambda>culled.
     let multiply = multiply_ids listings culled in
     foldE (evaluate_listing uuid5 decided_at priors_by_listing culled multiply) listings []))"

subsection \<open>The new-front slot\<close>

definition eligible_experiment :: "queued_experiment \<Rightarrow> uuid \<Rightarrow> bool" where
  "eligible_experiment x winner_product_id \<longleftrightarrow> qe_state x = X_QUEUED \<and> \<not> qe_blocked x \<and>
     \<not> qe_variant_of_winner x \<and> qe_product_id x \<noteq> winner_product_id"

definition slot_step :: "uuid \<Rightarrow> queued_experiment \<Rightarrow> uuid list \<times> experiment_outcome list \<Rightarrow>
    uuid list \<times> experiment_outcome list" where
  "slot_step winner x acc = (case acc of (scheduled, outcomes) \<Rightarrow>
     if eligible_experiment x winner \<and> scheduled = []
     then (scheduled @ [qe_experiment_id x], outcomes @ [\<lparr>eo_experiment_id = qe_experiment_id x,
        eo_state = X_SCHEDULED, eo_delivered = True\<rparr>])
     else (scheduled, outcomes @ [\<lparr>eo_experiment_id = qe_experiment_id x,
        eo_state = qe_state x, eo_delivered = False\<rparr>]))"

definition schedule_new_front :: "(string \<Rightarrow> uuid) \<Rightarrow> experiment_batch \<Rightarrow> slot_result" where
  "schedule_new_front uuid5 batch =
     (case fold (slot_step (eb_winner_product_id batch)) (eb_experiments batch) ([], []) of
       (scheduled_ids, outcomes) \<Rightarrow>
         \<lparr>sl_scheduled_experiment_ids = scheduled_ids, sl_outcomes = outcomes,
          sl_publication_ids = (if eb_publishing_enabled batch
            then map (\<lambda>x. derive uuid5 ''publication'' [x]) scheduled_ids else []),
          sl_delivered_experiment_ids = scheduled_ids\<rparr>)"

subsection \<open>Cohorts by shop\<close>

definition cohort :: "listing_candidate list \<Rightarrow> uuid \<Rightarrow> listing_candidate list" where
  "cohort listings shop = filter (\<lambda>l. in_percentile_cohort l \<and> lc_shop_id l = shop) listings"

lemma setdefault_append_get:
  "map_of (setdefault_append k v g) k' =
     (if k' = k then Some ((case map_of g k of None \<Rightarrow> [] | Some vs \<Rightarrow> vs) @ [v]) else map_of g k')"
  by (induction k v g rule: setdefault_append.induct) auto

lemma setdefault_append_keys:
  "fst ` set (setdefault_append k v g) = insert k (fst ` set g)"
  "distinct (map fst g) \<Longrightarrow> distinct (map fst (setdefault_append k v g))"
  by (induction k v g rule: setdefault_append.induct) auto

lemma grouped_append:
  "grouped (ls @ [l]) = (if in_percentile_cohort l then setdefault_append (lc_shop_id l) l (grouped ls) else grouped ls)"
  by (simp add: grouped_def)

lemma grouped_get:
  "map_of (grouped ls) shop = (if cohort ls shop = [] then None else Some (cohort ls shop))"
proof (induction ls rule: rev_induct)
  case Nil
  then show ?case by (simp add: grouped_def cohort_def)
next
  case (snoc l ls)
  then show ?case by (auto simp: grouped_append setdefault_append_get cohort_def)
qed

lemma grouped_distinct: "distinct (map fst (grouped ls))"
  by (induction ls rule: rev_induct) (auto simp: grouped_append setdefault_append_keys, simp add: grouped_def)

lemma grouped_members:
  "(shop, g) \<in> set (grouped ls) \<longleftrightarrow> g = cohort ls shop \<and> cohort ls shop \<noteq> []"
  using map_of_eq_Some_iff [OF grouped_distinct, of ls shop g] by (auto simp: grouped_get split: if_splits)

lemma groups_of: "set (map snd (grouped ls)) = {cohort ls shop | shop. cohort ls shop \<noteq> []}"
  by (auto simp: grouped_members image_iff) (metis grouped_members snd_conv)+

subsection \<open>Cutoffs and ranks\<close>

text \<open>In a sorted list, being below the element at index \<open>k\<close> means that at most \<open>k\<close> elements are not above.\<close>

lemma sorted_cutoff_rank:
  assumes "sorted (map f xs)" and "k < length xs"
  shows "a < f (xs ! k) \<longleftrightarrow> length (filter (\<lambda>y. f y \<le> a) xs) \<le> k"
proof
  assume a: "a < f (xs ! k)"
  have "\<not> f y \<le> a" if "y \<in> set (drop k xs)" for y
  proof -
    from that obtain j where "j < length xs - k" "y = xs ! (k + j)" by (auto simp: in_set_conv_nth)
    then have "f (xs ! k) \<le> f y" using sorted_nth_mono [OF assms(1), of k "k + j"] by simp
    with a show ?thesis by simp
  qed
  then have "filter (\<lambda>y. f y \<le> a) (drop k xs) = []" by (simp add: filter_empty_conv)
  then have "filter (\<lambda>y. f y \<le> a) xs = filter (\<lambda>y. f y \<le> a) (take k xs)"
    by (metis append_Nil2 append_take_drop_id filter_append)
  then show "length (filter (\<lambda>y. f y \<le> a) xs) \<le> k"
    by (metis length_filter_le length_take min.bounded_iff)
next
  assume r: "length (filter (\<lambda>y. f y \<le> a) xs) \<le> k"
  show "a < f (xs ! k)"
  proof (rule ccontr)
    assume na: "\<not> a < f (xs ! k)"
    have "f y \<le> a" if "y \<in> set (take (Suc k) xs)" for y
    proof -
      from that obtain j where "j \<le> k" "y = xs ! j" by (auto simp: in_set_conv_nth less_Suc_eq_le)
      then have "f y \<le> f (xs ! k)" using sorted_nth_mono [OF assms(1), of j k] assms(2) by simp
      with na show ?thesis by simp
    qed
    then have "filter (\<lambda>y. f y \<le> a) (take (Suc k) xs) = take (Suc k) xs" by (simp add: filter_id_conv)
    moreover have "length (filter P (take (Suc k) xs)) \<le> length (filter P xs)" for P
      by (metis append_take_drop_id filter_append le_add1 length_append)
    ultimately show False using r assms(2) by (metis Suc_leI Suc_n_not_le_n le_trans length_take min.absorb2)
  qed
qed

lemma sorted_by_score: "sorted (map score_of (sort_key rank_key g))"
proof -
  have "sorted (map rank_key (sort_key rank_key g))" by simp
  then have "sorted_wrt (\<lambda>x y. rank_key x \<le> rank_key y) (sort_key rank_key g)"
    by (simp add: sorted_wrt_map)
  then have "sorted_wrt (\<lambda>x y. score_of x \<le> score_of y) (sort_key rank_key g)"
    by (rule sorted_wrt_mono_rel [rotated]) (auto simp: rank_key_def)
  then show ?thesis by (simp add: sorted_wrt_map)
qed

lemma length_filter_sort: "length (filter P (sort_key f xs)) = length (filter P xs)"
  by (simp add: filter_sort)

definition rank_in :: "listing_candidate list \<Rightarrow> score \<Rightarrow> nat" where
  "rank_in g a = length (filter (\<lambda>m. score_of m \<le> a) g)"

definition culled_in :: "int \<Rightarrow> listing_candidate list \<Rightarrow> listing_candidate \<Rightarrow> bool" where
  "culled_in percent g l \<longleftrightarrow> l \<in> set g \<and> MIN_COHORT \<le> length g \<and>
     int (rank_in g (score_of l)) < (int (length g) * percent) div 100"

lemma pool_le:
  assumes "percent \<le> 100"
  shows "(int n * percent) div 100 \<le> int n"
proof -
  have "int n * percent \<le> int n * 100" using assms by (intro mult_left_mono) auto
  then have "(int n * percent) div 100 \<le> (int n * 100) div 100" by (rule zdiv_mono1) simp
  then show ?thesis by simp
qed

lemma rank_pos: "l \<in> set g \<Longrightarrow> 0 < rank_in g (score_of l)"
  by (auto simp: rank_in_def filter_empty_conv)

lemma cull_group_eq:
  assumes "percent \<le> 100"
  shows "cull_group percent g chosen = Inr (chosen \<union> lc_listing_id ` {l. culled_in percent g l})"
proof -
  let ?pool = "(int (length g) * percent) div 100"
  let ?o = "sort_key rank_key g"
  consider "length g < MIN_COHORT \<or> ?pool \<le> 0" | "MIN_COHORT \<le> length g" "0 < ?pool" by linarith
  then show ?thesis
  proof cases
    case 1
    then have "{l. culled_in percent g l} = {}"
      by (auto simp: culled_in_def dest: rank_pos)
    then show ?thesis using 1 by (auto simp: cull_group_def Let_def)
  next
    case 2
    have le: "?pool \<le> int (length g)" by (rule pool_le [OF assms])
    have "score_of l < score_of (?o ! (nat ?pool - 1)) \<longleftrightarrow> int (rank_in g (score_of l)) < ?pool" for l
      using sorted_cutoff_rank [OF sorted_by_score, of "nat ?pool - 1" g "score_of l"] 2 le
      by (auto simp: length_filter_sort rank_in_def)
    then have "{x. x \<in> set g \<and> score_of x < score_of (?o ! (nat ?pool - 1))} = {l. culled_in percent g l}"
      using 2 by (auto simp: culled_in_def)
    then show ?thesis using 2 le by (simp add: cull_group_def Let_def)
  qed
qed

lemma cull_fold_eq:
  assumes "percent \<le> 100"
  shows "foldE (cull_group percent) gs chosen =
    Inr (chosen \<union> (\<Union>g \<in> set gs. lc_listing_id ` {l. culled_in percent g l}))"
  by (induction gs arbitrary: chosen) (auto simp: cull_group_eq [OF assms] Un_assoc)

definition is_culled :: "int \<Rightarrow> listing_candidate list \<Rightarrow> listing_candidate \<Rightarrow> bool" where
  "is_culled percent listings l \<longleftrightarrow> culled_in percent (cohort listings (lc_shop_id l)) l"

lemma culled_cohort:
  "culled_in percent (cohort ls shop) l \<longleftrightarrow> is_culled percent ls l \<and> lc_shop_id l = shop"
  by (auto simp: is_culled_def culled_in_def cohort_def)

lemma cull_ids_eq:
  assumes "py_int text = Inr percent" and "percent \<le> 100"
  shows "cull_ids ls text = Inr (lc_listing_id ` {l. is_culled percent ls l})"
proof -
  have "(\<Union>g \<in> set (map snd (grouped ls)). lc_listing_id ` {l. culled_in percent g l}) =
      lc_listing_id ` {l. is_culled percent ls l}" (is "?a = ?b")
  proof
    show "?a \<subseteq> ?b" unfolding groups_of by (auto simp: culled_cohort)
    show "?b \<subseteq> ?a"
    proof
      fix i assume "i \<in> ?b"
      then obtain l where l: "i = lc_listing_id l" "is_culled percent ls l" by auto
      then have "cohort ls (lc_shop_id l) \<noteq> []" by (auto simp: is_culled_def culled_in_def)
      then show "i \<in> ?a" unfolding groups_of using l by (auto simp: culled_cohort)
    qed
  qed
  then show ?thesis by (simp add: cull_ids_def assms cull_fold_eq)
qed

subsection \<open>The unique winner\<close>

definition wins_in :: "listing_candidate list \<Rightarrow> listing_candidate \<Rightarrow> bool" where
  "wins_in g l \<longleftrightarrow> l \<in> set g \<and> (case lc_snapshot l of None \<Rightarrow> False | Some s \<Rightarrow> 0 < sv_orders s) \<and>
     length (filter (\<lambda>m. score_of l \<le> score_of m) g) = 1"

lemma wins_in_nonempty: "wins_in g l \<Longrightarrow> g \<noteq> []"
  by (auto simp: wins_in_def)

lemma ranked_props:
  assumes "rev (sort_key rank_key (rev g)) = best # rest"
  shows "best \<in> set g" "\<And>m. m \<in> set g \<Longrightarrow> score_of m \<le> score_of best"
    "length (filter (\<lambda>m. score_of best \<le> score_of m) g) = 1 \<longleftrightarrow>
       \<not> (rest \<noteq> [] \<and> score_of (hd rest) = score_of best)"
proof -
  have s: "sort_key rank_key (rev g) = rev rest @ [best]" using assms by (simp add: rev_swap)
  then have g: "set g = insert best (set rest)"
    by (metis Un_insert_right list.simps(15) set_append set_rev set_sort sup_bot_right empty_set)
  have sd: "sorted (map score_of (rev rest @ [best]))" using sorted_by_score [of "rev g"] by (simp add: s)
  have below: "score_of m \<le> score_of best" if "m \<in> set rest" for m
    using sd that by (auto simp: sorted_append)
  have hdmax: "score_of m \<le> score_of (hd rest)" if "m \<in> set rest" for m
    using sd that by (cases rest) (auto simp: sorted_append)
  show "best \<in> set g" by (simp add: g)
  show "score_of m \<le> score_of best" if "m \<in> set g" for m using that below by (auto simp: g)
  have "length (filter (\<lambda>m. score_of best \<le> score_of m) g) =
      length (filter (\<lambda>m. score_of best \<le> score_of m) (rev rest @ [best]))"
    using length_filter_sort [of _ rank_key "rev g"] by (simp add: s [symmetric] rev_filter [symmetric] del: filter_append)
  also have "\<dots> = Suc (length (filter (\<lambda>m. score_of best \<le> score_of m) rest))"
    by (simp add: rev_filter [symmetric])
  finally have c: "length (filter (\<lambda>m. score_of best \<le> score_of m) g) =
      Suc (length (filter (\<lambda>m. score_of best \<le> score_of m) rest))" .
  have "filter (\<lambda>m. score_of best \<le> score_of m) rest = [] \<longleftrightarrow>
      \<not> (rest \<noteq> [] \<and> score_of (hd rest) = score_of best)"
  proof (cases rest)
    case Nil
    then show ?thesis by simp
  next
    case (Cons q qs)
    have q: "score_of q \<le> score_of best" using below [of q] Cons by simp
    have "score_of m \<le> score_of q" if "m \<in> set rest" for m using hdmax [OF that] Cons by simp
    then have "(\<exists>m \<in> set rest. score_of best \<le> score_of m) \<longleftrightarrow> score_of best \<le> score_of q"
      using Cons by (meson list.set_intros(1) order_trans)
    also have "\<dots> \<longleftrightarrow> score_of q = score_of best" using q by (metis order.antisym order_refl)
    finally show ?thesis using Cons by (metis filter_empty_conv list.discI list.sel(1))
  qed
  then show "length (filter (\<lambda>m. score_of best \<le> score_of m) g) = 1 \<longleftrightarrow>
       \<not> (rest \<noteq> [] \<and> score_of (hd rest) = score_of best)"
    unfolding c by simp
qed

lemma wins_in_unique:
  assumes "wins_in g l" and "m \<in> set g" and "score_of l \<le> score_of m"
  shows "m = l"
proof -
  have one: "length (filter (\<lambda>m. score_of l \<le> score_of m) g) = 1" and l: "l \<in> set g"
    using assms(1) by (simp_all add: wins_in_def)
  then obtain x where "filter (\<lambda>m. score_of l \<le> score_of m) g = [x]" by (auto simp: length_Suc_conv)
  then have "{m \<in> set g. score_of l \<le> score_of m} = {x}" by (metis empty_set list.simps(15) set_filter)
  moreover have "l \<in> {m \<in> set g. score_of l \<le> score_of m}" "m \<in> {m \<in> set g. score_of l \<le> score_of m}"
    using l assms(2,3) by simp_all
  ultimately show ?thesis by (metis singletonD)
qed

lemma unique_winner_iff: "unique_winner g = Some w \<longleftrightarrow> (\<exists>l. wins_in g l \<and> w = lc_listing_id l)"
proof (cases "rev (sort_key rank_key (rev g))")
  case Nil
  then have "g = []" by (metis length_0_conv length_rev length_sort)
  then show ?thesis by (simp add: unique_winner_def wins_in_def)
next
  case (Cons best rest)
  note p = ranked_props [OF Cons]
  have "unique_winner g = Some w \<longleftrightarrow> wins_in g best \<and> w = lc_listing_id best"
    using p(1,3) by (auto simp: unique_winner_def wins_in_def Cons split: option.splits)
  moreover have "best = l" if "wins_in g l" for l
    using wins_in_unique [OF that p(1)] p(2) [of l] that by (simp add: wins_in_def)
  ultimately show ?thesis by blast
qed

definition is_winner :: "listing_candidate list \<Rightarrow> listing_candidate \<Rightarrow> bool" where
  "is_winner listings l \<longleftrightarrow> wins_in (cohort listings (lc_shop_id l)) l"

lemma wins_cohort: "wins_in (cohort ls shop) l \<longleftrightarrow> is_winner ls l \<and> lc_shop_id l = shop"
  by (auto simp: is_winner_def wins_in_def cohort_def)

lemma multiply_fold_mem:
  "w \<in> fold (\<lambda>(_, g) chosen. (case unique_winner g of
       Some w \<Rightarrow> if w \<notin> culled then insert w chosen else chosen | None \<Rightarrow> chosen)) gs chosen \<longleftrightarrow>
     w \<in> chosen \<or> w \<notin> culled \<and> (\<exists>g \<in> snd ` set gs. unique_winner g = Some w)"
proof (induction gs arbitrary: chosen)
  case Nil
  then show ?case by simp
next
  case (Cons kg gs)
  obtain k g where kg: "kg = (k, g)" by force
  show ?case
  proof (cases "unique_winner g")
    case None
    then show ?thesis by (simp add: kg Cons.IH)
  next
    case (Some v)
    then show ?thesis by (cases "v \<in> culled") (auto simp: kg Cons.IH)
  qed
qed

lemma multiply_ids_eq: "multiply_ids ls culled = lc_listing_id ` {l. is_winner ls l} - culled"
proof -
  have "w \<in> multiply_ids ls culled \<longleftrightarrow> w \<notin> culled \<and> (\<exists>l. is_winner ls l \<and> w = lc_listing_id l)" for w
  proof -
    have "w \<in> multiply_ids ls culled \<longleftrightarrow>
        w \<notin> culled \<and> (\<exists>g \<in> set (map snd (grouped ls)). \<exists>l. wins_in g l \<and> w = lc_listing_id l)"
      unfolding multiply_ids_def multiply_fold_mem unique_winner_iff by auto
    also have "\<dots> \<longleftrightarrow> w \<notin> culled \<and> (\<exists>l. is_winner ls l \<and> w = lc_listing_id l)"
    proof -
      have "(\<exists>g \<in> set (map snd (grouped ls)). \<exists>l. wins_in g l \<and> w = lc_listing_id l) \<longleftrightarrow>
          (\<exists>shop l. wins_in (cohort ls shop) l \<and> w = lc_listing_id l)"
        unfolding groups_of using wins_in_nonempty by blast
      then show ?thesis by (auto simp: wins_cohort)
    qed
    finally show ?thesis .
  qed
  then show ?thesis by auto
qed

lemma winner_not_culled:
  assumes "is_winner ls l" and "percent \<le> 100"
  shows "\<not> is_culled percent ls l"
proof -
  let ?g = "cohort ls (lc_shop_id l)"
  have "score_of m \<le> score_of l" if "m \<in> set ?g" for m
    using wins_in_unique [of ?g l m] assms(1) that by (force simp: is_winner_def)
  then have "rank_in ?g (score_of l) = length ?g" by (simp add: rank_in_def)
  then show ?thesis using pool_le [OF assms(2), of "length ?g"] by (simp add: is_culled_def culled_in_def)
qed

subsection \<open>The decision of one listing\<close>

text \<open>The rule that the code implements, without sorting or sets of ids.\<close>

definition portfolio_rule :: "int \<Rightarrow> listing_candidate list \<Rightarrow> listing_candidate \<Rightarrow> decision_type option" where
  "portfolio_rule percent listings l = (case lc_snapshot l of None \<Rightarrow> None | Some s \<Rightarrow>
     if \<not> sv_reconciled s then None
     else if lc_has_defect l then Some REPAIR
     else if lc_live_days l < 30 then None
     else if 0 < sv_views s \<and> sv_orders s = 0 then Some REPAIR
     else if is_culled percent listings l then Some CULL
     else if is_winner listings l then Some MULTIPLY
     else if lc_in_window l then Some HOLD
     else None)"

lemma id_mem:
  assumes "distinct (map lc_listing_id ls)" and "l \<in> set ls" and "\<And>m. P m \<Longrightarrow> m \<in> set ls"
  shows "lc_listing_id l \<in> lc_listing_id ` {m. P m} \<longleftrightarrow> P l"
  using assms by (auto simp: distinct_map inj_on_def)

lemma culled_listed: "is_culled percent ls l \<Longrightarrow> l \<in> set ls"
  by (auto simp: is_culled_def culled_in_def cohort_def)

lemma winner_listed: "is_winner ls l \<Longrightarrow> l \<in> set ls"
  by (auto simp: is_winner_def wins_in_def cohort_def)

lemma classify_rule:
  assumes "distinct (map lc_listing_id ls)" and "l \<in> set ls" and "percent \<le> 100"
    and "lc_snapshot l = Some s" and "sv_reconciled s"
    and "culled = lc_listing_id ` {l. is_culled percent ls l}"
  shows "classify l s culled (multiply_ids ls culled) = portfolio_rule percent ls l"
proof -
  have "lc_listing_id l \<in> culled \<longleftrightarrow> is_culled percent ls l"
    unfolding assms(6) by (rule id_mem [OF assms(1,2) culled_listed])
  moreover have "lc_listing_id l \<in> multiply_ids ls culled \<longleftrightarrow> is_winner ls l \<and> lc_listing_id l \<notin> culled"
    using id_mem [OF assms(1,2), of "is_winner ls"] winner_listed by (auto simp: multiply_ids_eq)
  ultimately show ?thesis using assms(4,5)
    by (auto simp: classify_def portfolio_rule_def PORTFOLIO_MATURITY_LIVE_DAYS_def)
qed

subsection \<open>The evaluation as a whole\<close>

text \<open>The time of an evaluation is aware and leaves room for the next collection.\<close>

definition time_ok :: "py_datetime \<Rightarrow> bool" where
  "time_ok t \<longleftrightarrow> utcoffset t \<noteq> None \<and> datetime_in_range (wall t + 7 * day_microseconds)"

definition priors_ok :: "portfolio_result list \<Rightarrow> bool" where
  "priors_ok priors \<longleftrightarrow> list_all (\<lambda>p. case pf_next_collection_at p of
     None \<Rightarrow> True | Some t \<Rightarrow> utcoffset t \<noteq> None) priors"

definition prior_of :: "portfolio_result list \<Rightarrow> listing_candidate \<Rightarrow> portfolio_result option" where
  "prior_of priors l = map_of (rev (map (\<lambda>p. (pf_listing_id p, p)) priors)) (lc_listing_id l)"

definition decided ::
  "(string \<Rightarrow> uuid) \<Rightarrow> int \<Rightarrow> listing_candidate list \<Rightarrow> py_datetime \<Rightarrow> portfolio_result list \<Rightarrow>
   listing_candidate \<Rightarrow> portfolio_result list" where
  "decided uuid5 percent listings t priors l = (case portfolio_rule percent listings l of
       None \<Rightarrow> []
     | Some d \<Rightarrow> if suppressed l (prior_of priors l) t = Inr True then []
         else [projr (build_result uuid5 l (the (lc_snapshot l)) d t)])"

lemma prior_of_mem: "prior_of priors l = Some p \<Longrightarrow> p \<in> set priors \<and> pf_listing_id p = lc_listing_id l"
  by (auto simp: prior_of_def dest!: map_of_SomeD)

lemma suppressed_ok:
  assumes "time_ok t" and "priors_ok priors"
  shows "suppressed l (prior_of priors l) t = Inr (suppressed l (prior_of priors l) t = Inr True)"
proof (cases "prior_of priors l")
  case None
  then show ?thesis by (simp add: suppressed_def)
next
  case (Some p)
  then have "\<forall>n. pf_next_collection_at p = Some n \<longrightarrow> utcoffset n \<noteq> None"
    using prior_of_mem assms(2) by (fastforce simp: priors_ok_def list_all_iff)
  then show ?thesis using assms(1)
    by (auto simp: suppressed_def Some datetime_less_def time_ok_def split: decision_type.splits option.splits)
qed

lemma build_result_ok:
  assumes "time_ok t"
  shows "build_result uuid5 l s d t = Inr (projr (build_result uuid5 l s d t))"
  using assms by (cases d) (auto simp: build_result_def Let_def add_days_def time_ok_def COLLECTION_GAP_DAYS_def)

lemma evaluate_listing_eq:
  assumes "distinct (map lc_listing_id ls)" and "l \<in> set ls" and "percent \<le> 100"
    and "time_ok t" and "priors_ok priors"
    and "culled = lc_listing_id ` {l. is_culled percent ls l}"
  shows "evaluate_listing uuid5 t (map_of (rev (map (\<lambda>p. (pf_listing_id p, p)) priors))) culled
      (multiply_ids ls culled) l rs = Inr (rs @ decided uuid5 percent ls t priors l)"
proof (cases "\<exists>s. lc_snapshot l = Some s \<and> sv_reconciled s")
  case False
  then have "portfolio_rule percent ls l = None" by (auto simp: portfolio_rule_def split: option.splits)
  then show ?thesis using False by (auto simp: evaluate_listing_def decided_def split: option.splits)
next
  case True
  then obtain s where s: "lc_snapshot l = Some s" "sv_reconciled s" by auto
  note c = classify_rule [OF assms(1,2,3) s assms(6)]
  note u = suppressed_ok [OF assms(4,5), of l]
  have "evaluate_listing uuid5 t (map_of (rev (map (\<lambda>p. (pf_listing_id p, p)) priors))) culled
      (multiply_ids ls culled) l rs = bindE (suppressed l (prior_of priors l) t) (\<lambda>skip.
        if skip then Inr rs else case portfolio_rule percent ls l of None \<Rightarrow> Inr rs
          | Some d \<Rightarrow> bindE (build_result uuid5 l s d t) (\<lambda>r. Inr (rs @ [r])))"
    using s c by (simp add: evaluate_listing_def prior_of_def cong: if_cong)
  also have "\<dots> = Inr (rs @ decided uuid5 percent ls t priors l)"
  proof -
    have b: "bindE (build_result uuid5 l s d t) (\<lambda>r. Inr (rs @ [r])) =
        Inr (rs @ [projr (build_result uuid5 l s d t)])" for d
      by (subst build_result_ok [OF assms(4)]) simp
    show ?thesis using u
      by (cases "suppressed l (prior_of priors l) t"; cases "portfolio_rule percent ls l")
        (auto simp: decided_def s b)
  qed
  finally show ?thesis .
qed

lemma evaluate_portfolio_eq:
  assumes "distinct (map lc_listing_id ls)" and "py_int text = Inr percent" and "percent \<le> 100"
    and "time_ok t" and "priors_ok priors"
  shows "evaluate_portfolio uuid5 ls t priors text = Inr (concat (map (decided uuid5 percent ls t priors) ls))"
proof -
  define culled where "culled = lc_listing_id ` {l. is_culled percent ls l}"
  have "foldE (evaluate_listing uuid5 t (map_of (rev (map (\<lambda>p. (pf_listing_id p, p)) priors))) culled
      (multiply_ids ls culled)) xs rs = Inr (rs @ concat (map (decided uuid5 percent ls t priors) xs))"
    if "set xs \<subseteq> set ls" for xs rs
    using that
    by (induction xs arbitrary: rs)
      (auto simp: evaluate_listing_eq [OF assms(1) _ assms(3,4,5) culled_def])
  then show ?thesis using assms(4)
    by (simp add: evaluate_portfolio_def cull_ids_eq [OF assms(2,3)] time_ok_def flip: culled_def)
qed

text \<open>What a built result says, per decision.\<close>

definition result_of :: "(string \<Rightarrow> uuid) \<Rightarrow> listing_candidate \<Rightarrow> decision_type \<Rightarrow> portfolio_result \<Rightarrow> bool" where
  "result_of uuid5 l d r \<longleftrightarrow> pf_listing_id r = lc_listing_id l \<and> pf_decision r = d \<and>
     pf_decision_id r = derive uuid5 (decision_value d) [lc_listing_id l, sv_snapshot_id (the (lc_snapshot l))] \<and>
     pf_snapshot_id r = sv_snapshot_id (the (lc_snapshot l)) \<and>
     \<not> pf_deactivation_executed r \<and> pf_job_types r = [] \<and> pf_build_step r = None \<and>
     pf_event_names r = [case d of HOLD \<Rightarrow> EV_LISTING_HELD | REPAIR \<Rightarrow> EV_LISTING_REPAIR_REQUESTED
       | CULL \<Rightarrow> EV_LISTING_CULL_REQUESTED | MULTIPLY \<Rightarrow> EV_WINNER_DETECTED] \<and>
     counts_as_cull (pf_decision r) (pf_deactivation_job_id r) = (d = CULL) \<and>
     (pf_repair_job_id r \<noteq> None) = (d = REPAIR) \<and> (pf_next_collection_at r \<noteq> None) = (d = HOLD) \<and>
     is_successful_result (Inl r) = (d = MULTIPLY \<and>
       derive uuid5 ''successor-workflow'' [lc_workflow_id l, lc_listing_id l] \<noteq> lc_workflow_id l) \<and>
     (d = MULTIPLY \<longrightarrow> pf_parent_workflow_id r = Some (lc_workflow_id l) \<and>
        pf_parent_spec_id r = Some (lc_spec_id l) \<and> pf_parent_product_id r = Some (lc_product_id l) \<and>
        pf_parent_decision_id r = Some (pf_decision_id r))"

lemma build_result_of:
  assumes "time_ok t"
  shows "result_of uuid5 l d (projr (build_result uuid5 l (the (lc_snapshot l)) d t))"
  using assms by (cases d) (auto simp: result_of_def build_result_def Let_def record_result_def
    add_days_def time_ok_def COLLECTION_GAP_DAYS_def counts_as_cull_def is_successful_result_def)

text \<open>
  C20: On listings with distinct ids and a percentage of at most 100 the evaluation never fails and
  decides every listing by the rule: a defect or views without orders is repaired, a listing is
  culled exactly when its shop has five comparable listings and fewer of them than the pool
  are no better than it, and multiplied exactly when no other comparable listing of its shop
  reaches its score and it has orders; suppressed listings get no decision. Each result names
  its unexecuted follow-up and a successor stops at dedupe.
\<close>

theorem portfolio_decisions_exact:
  assumes "distinct (map lc_listing_id listings)" and "py_int text = Inr percent" and "percent \<le> 100"
    and "time_ok t" and "priors_ok priors"
  shows "\<exists>results. evaluate_portfolio uuid5 listings t priors text = Inr results \<and>
    list_all2 (\<lambda>(l, d) r. result_of uuid5 l d r)
      (concat (map (\<lambda>l. case portfolio_rule percent listings l of None \<Rightarrow> []
         | Some d \<Rightarrow> if suppressed l (prior_of priors l) t = Inr True then [] else [(l, d)]) listings))
      results"
proof -
  have "list_all2 (\<lambda>(l, d) r. result_of uuid5 l d r)
      (concat (map (\<lambda>l. case portfolio_rule percent listings l of None \<Rightarrow> []
         | Some d \<Rightarrow> if suppressed l (prior_of priors l) t = Inr True then [] else [(l, d)]) ls))
      (concat (map (decided uuid5 percent listings t priors) ls))" for ls
  proof (induction ls)
    case Nil
    then show ?case by simp
  next
    case (Cons l ls)
    then show ?case
      by (auto simp: decided_def build_result_of [OF assms(4)] split: option.splits
        intro!: list_all2_appendI)
  qed
  then show ?thesis using evaluate_portfolio_eq [OF assms] by blast
qed

definition example_listing :: "uuid \<Rightarrow> int \<Rightarrow> listing_candidate" where
  "example_listing i orders = \<lparr>lc_listing_id = i, lc_product_id = i, lc_spec_id = i, lc_workflow_id = i,
     lc_shop_id = 1, lc_live_days = 40, lc_in_window = True, lc_has_defect = False,
     lc_snapshot = Some \<lparr>sv_snapshot_id = i, sv_views = 100, sv_favourites = 3, sv_orders = orders,
       sv_gross_revenue = 500 * orders, sv_reconciled = True\<rparr>\<rparr>"

definition example_listings :: "listing_candidate list" where
  "example_listings = [example_listing 1 1, example_listing 2 2, example_listing 3 3,
     example_listing 4 4, example_listing 5 9]"

lemma example_evaluation:
  "distinct (map lc_listing_id example_listings)" "py_int ''80'' = Inr 80"
  "time_ok (example_day 0)" "time_ok (example_day 3)" "priors_ok []"
  "map (portfolio_rule 80 example_listings) example_listings =
     [Some CULL, Some CULL, Some CULL, Some HOLD, Some MULTIPLY]"
  by code_simp+

theorem portfolio_decisions_exact_witness:
  "\<exists>results. evaluate_portfolio (\<lambda>_. 7) example_listings (example_day 0) [] ''80'' = Inr results \<and>
     map pf_decision results = [CULL, CULL, CULL, HOLD, MULTIPLY]"
proof -
  obtain results where "evaluate_portfolio (\<lambda>_. 7) example_listings (example_day 0) [] ''80'' = Inr results"
    using portfolio_decisions_exact [OF example_evaluation(1,2) _ example_evaluation(3,5), of "\<lambda>_. 7"] by auto
  moreover have "map pf_decision (projr (evaluate_portfolio (\<lambda>_. 7) example_listings (example_day 0) [] ''80'')) =
      [CULL, CULL, CULL, HOLD, MULTIPLY]" by code_simp
  ultimately show ?thesis by auto
qed

subsection \<open>Bounds on what a run decides\<close>

text \<open>Fewer than the pool are culled: the best culled listing already has all others below it.\<close>

lemma culled_below_pool:
  assumes "\<exists>l \<in> set g. culled_in percent g l"
  shows "int (length (filter (culled_in percent g) g)) < (int (length g) * percent) div 100"
proof -
  let ?c = "filter (culled_in percent g) g"
  have ne: "score_of ` set ?c \<noteq> {}" using assms by auto
  have "Max (score_of ` set ?c) \<in> score_of ` set ?c" by (rule Max_in) (use ne in simp_all)
  then obtain l where l: "l \<in> set ?c" "Max (score_of ` set ?c) = score_of l" by (rule imageE) simp
  have "score_of m \<le> score_of l" if "m \<in> set ?c" for m
    unfolding l(2) [symmetric] using that by (intro Max_ge) simp_all
  then have "filter (culled_in percent g) g = filter (\<lambda>m. culled_in percent g m \<and> score_of m \<le> score_of l) g"
    by (intro filter_cong) auto
  also have "\<dots> = filter (culled_in percent g) (filter (\<lambda>m. score_of m \<le> score_of l) g)"
    by (simp add: conj_commute)
  also have "length \<dots> \<le> rank_in g (score_of l)" unfolding rank_in_def by (rule length_filter_le)
  finally show ?thesis using l(1) by (auto simp: culled_in_def)
qed

lemma filter_decided:
  "length (filter (\<lambda>r. pf_decision r = d \<and> pf_listing_id r \<in> ids) (concat (map (decided uuid5 percent ls t priors) xs)))
     \<le> length (filter (\<lambda>l. portfolio_rule percent ls l = Some d \<and> lc_listing_id l \<in> ids) xs)"
  if "time_ok t"
proof (induction xs)
  case Nil
  then show ?case by simp
next
  case (Cons l xs)
  have r: "pf_decision (projr (build_result uuid5 l (the (lc_snapshot l)) e t)) = e"
    "pf_listing_id (projr (build_result uuid5 l (the (lc_snapshot l)) e t)) = lc_listing_id l" for e
    using build_result_of [OF that, of uuid5 l e] by (auto simp: result_of_def)
  show ?case using Cons by (auto simp: decided_def r split: option.splits)
qed

lemma shop_ids:
  assumes "distinct (map lc_listing_id ls)" and "l \<in> set ls"
  shows "lc_listing_id l \<in> lc_listing_id ` {m \<in> set ls. lc_shop_id m = shop} \<longleftrightarrow> lc_shop_id l = shop"
  using assms by (auto simp: distinct_map inj_on_def)

lemma rule_cull: "portfolio_rule percent ls l = Some CULL \<Longrightarrow> is_culled percent ls l"
  by (auto simp: portfolio_rule_def split: option.splits if_splits)

lemma rule_multiply: "portfolio_rule percent ls l = Some MULTIPLY \<Longrightarrow> is_winner ls l"
  by (auto simp: portfolio_rule_def split: option.splits if_splits)

lemma one_winner:
  assumes "distinct ls"
  shows "length (filter (\<lambda>l. is_winner ls l \<and> lc_shop_id l = shop) ls) \<le> 1"
proof -
  have "a = b" if "is_winner ls a" "is_winner ls b" "lc_shop_id a = shop" "lc_shop_id b = shop" for a b
  proof -
    have w: "wins_in (cohort ls shop) a" "wins_in (cohort ls shop) b" using that by (simp_all add: wins_cohort)
    then have "a \<in> set (cohort ls shop)" "b \<in> set (cohort ls shop)" by (simp_all add: wins_in_def)
    then show ?thesis using wins_in_unique [OF w(1)] wins_in_unique [OF w(2)] by (metis linear)
  qed
  then have "\<forall>a \<in> {l \<in> set ls. is_winner ls l \<and> lc_shop_id l = shop}.
      \<forall>b \<in> {l \<in> set ls. is_winner ls l \<and> lc_shop_id l = shop}. a = b" by blast
  then have "card {l \<in> set ls. is_winner ls l \<and> lc_shop_id l = shop} \<le> Suc 0"
    by (subst card_le_Suc0_iff_eq) simp_all
  moreover have "card (set (filter (\<lambda>l. is_winner ls l \<and> lc_shop_id l = shop) ls)) =
      length (filter (\<lambda>l. is_winner ls l \<and> lc_shop_id l = shop) ls)"
    by (rule distinct_card) (simp add: assms)
  ultimately show ?thesis by simp
qed

text \<open>
  C21: The percentage is an upper bound and not a quota: in one run fewer listings of a shop are
  culled than the percentage of its comparable listings, and none in a shop with fewer than
  five; at most one listing of a shop is multiplied.
\<close>

theorem portfolio_run_is_bounded:
  assumes "distinct (map lc_listing_id listings)" and "py_int text = Inr percent" and "percent \<le> 100"
    and "time_ok t" and "priors_ok priors"
    and "evaluate_portfolio uuid5 listings t priors text = Inr results"
    and "ids = lc_listing_id ` {l \<in> set listings. lc_shop_id l = shop}"
  shows "length (filter (\<lambda>r. pf_decision r = MULTIPLY \<and> pf_listing_id r \<in> ids) results) \<le> 1 \<and>
    (let culls = length (filter (\<lambda>r. pf_decision r = CULL \<and> pf_listing_id r \<in> ids) results);
         n = length (cohort listings shop) in
     culls = 0 \<or> 5 \<le> n \<and> int culls < (int n * percent) div 100)"
proof -
  let ?g = "cohort listings shop"
  have rs: "results = concat (map (decided uuid5 percent listings t priors) listings)"
    using assms(6) evaluate_portfolio_eq [OF assms(1,2,3,4,5), of uuid5] by simp
  have bound: "length (filter (\<lambda>r. pf_decision r = d \<and> pf_listing_id r \<in> ids) results)
      \<le> length (filter (\<lambda>l. portfolio_rule percent listings l = Some d \<and> lc_listing_id l \<in> ids) listings)" for d
    unfolding rs by (rule filter_decided [OF assms(4)])
  have mono: "length (filter P xs) \<le> length (filter Q xs)" if "\<And>x. x \<in> set xs \<Longrightarrow> P x \<Longrightarrow> Q x"
    for P Q and xs :: "listing_candidate list" using that by (induction xs) (auto simp: le_SucI)
  have "length (filter (\<lambda>r. pf_decision r = MULTIPLY \<and> pf_listing_id r \<in> ids) results) \<le>
      length (filter (\<lambda>l. is_winner listings l \<and> lc_shop_id l = shop) listings)"
    by (rule order_trans [OF bound mono]) (auto simp: assms(7) shop_ids [OF assms(1)] dest: rule_multiply)
  then have m: "length (filter (\<lambda>r. pf_decision r = MULTIPLY \<and> pf_listing_id r \<in> ids) results) \<le> 1"
    using one_winner [of listings shop] assms(1) [unfolded distinct_map, THEN conjunct1] by linarith
  have "length (filter (\<lambda>r. pf_decision r = CULL \<and> pf_listing_id r \<in> ids) results) \<le>
      length (filter (\<lambda>l. culled_in percent ?g l) listings)"
    by (rule order_trans [OF bound mono])
      (auto simp: assms(7) shop_ids [OF assms(1)] culled_cohort dest: rule_cull)
  also have "\<dots> = length (filter (culled_in percent ?g) ?g)"
    by (auto simp: cohort_def culled_in_def intro!: arg_cong [of _ _ length] filter_cong)
  finally have c: "length (filter (\<lambda>r. pf_decision r = CULL \<and> pf_listing_id r \<in> ids) results) \<le>
      length (filter (culled_in percent ?g) ?g)" .
  show ?thesis
  proof (cases "\<exists>l \<in> set ?g. culled_in percent ?g l")
    case True
    then have "5 \<le> length ?g" by (auto simp: culled_in_def MIN_COHORT_def)
    with True show ?thesis using c m culled_below_pool [OF True] by (auto simp: Let_def)
  next
    case False
    then have "filter (culled_in percent ?g) ?g = []" by (simp add: filter_empty_conv)
    then show ?thesis using c m by (simp add: Let_def)
  qed
qed

theorem portfolio_run_is_bounded_witness:
  "\<exists>results. evaluate_portfolio (\<lambda>_. 7) example_listings (example_day 0) [] ''80'' = Inr results \<and>
     length (filter (\<lambda>r. pf_decision r = CULL \<and>
       pf_listing_id r \<in> lc_listing_id ` {l \<in> set example_listings. lc_shop_id l = 1}) results) < 4"
proof -
  obtain results where r: "evaluate_portfolio (\<lambda>_. 7) example_listings (example_day 0) [] ''80'' = Inr results"
    using evaluate_portfolio_eq [OF example_evaluation(1,2) _ example_evaluation(3,5), of "\<lambda>_. 7"] by auto
  have n: "length (cohort example_listings 1) = 5" by code_simp
  show ?thesis
    using portfolio_run_is_bounded [OF example_evaluation(1,2) _ example_evaluation(3,5) r refl, of 1] n r
    by (auto simp: Let_def)
qed

subsection \<open>Evaluating again\<close>

lemma prior_of_no_priors: "decided uuid5 percent ls t [] l = (case portfolio_rule percent ls l of None \<Rightarrow> []
    | Some d \<Rightarrow> [projr (build_result uuid5 l (the (lc_snapshot l)) d t)])"
  by (simp add: decided_def prior_of_def suppressed_def split: option.splits)

lemma decided_ids:
  assumes "time_ok t"
  shows "map pf_listing_id (concat (map (decided uuid5 percent ls t []) xs)) =
    map lc_listing_id (filter (\<lambda>l. portfolio_rule percent ls l \<noteq> None) xs)"
proof (induction xs)
  case Nil
  then show ?case by simp
next
  case (Cons l xs)
  have "pf_listing_id (projr (build_result uuid5 l (the (lc_snapshot l)) d t)) = lc_listing_id l" for d
    using build_result_of [OF assms, of uuid5 l d] by (simp add: result_of_def)
  then show ?case using Cons by (simp add: prior_of_no_priors split: option.splits)
qed

text \<open>The prior of a listing in the next run is the result of this one.\<close>

lemma prior_of_results:
  assumes "distinct (map lc_listing_id ls)" and "l \<in> set ls" and "time_ok t"
    and "portfolio_rule percent ls l = Some d"
  shows "prior_of (concat (map (decided uuid5 percent ls t []) ls)) l =
    Some (projr (build_result uuid5 l (the (lc_snapshot l)) d t))"
proof -
  let ?rs = "concat (map (decided uuid5 percent ls t []) ls)"
  let ?r = "projr (build_result uuid5 l (the (lc_snapshot l)) d t)"
  have k: "map fst (rev (map (\<lambda>p. (pf_listing_id p, p)) ?rs)) = rev (map pf_listing_id ?rs)"
    by (simp add: rev_map comp_def)
  have "distinct (map lc_listing_id (filter (\<lambda>l. portfolio_rule percent ls l \<noteq> None) ls))"
    using assms(1) by (rule distinct_map_filter)
  then have dist: "distinct (map fst (rev (map (\<lambda>p. (pf_listing_id p, p)) ?rs)))"
    unfolding k decided_ids [OF assms(3)] by simp
  have mem: "?r \<in> set ?rs" using assms(2,4) by (auto simp: prior_of_no_priors intro!: bexI [of _ l])
  have "pf_listing_id ?r = lc_listing_id l"
    using build_result_of [OF assms(3), of uuid5 l d] by (simp add: result_of_def)
  then have "(lc_listing_id l, ?r) \<in> set (rev (map (\<lambda>p. (pf_listing_id p, p)) ?rs))"
    using mem by (force simp del: set_concat)
  then show ?thesis unfolding prior_of_def by (rule map_of_is_SomeI [OF dist])
qed

lemma suppressed_again:
  assumes "time_ok t" and "time_ok t'" and "instant t' < instant t + 7 * day_microseconds"
    and "lc_snapshot l \<noteq> None"
  shows "suppressed l (Some (projr (build_result uuid5 l (the (lc_snapshot l)) d t))) t' =
    Inr (d \<in> {HOLD, REPAIR})"
  using assms by (cases d) (auto simp: suppressed_def build_result_def Let_def record_result_def add_days_def
    time_ok_def COLLECTION_GAP_DAYS_def datetime_less_def instant_def)

lemma results_priors_ok:
  assumes "time_ok t"
  shows "priors_ok (concat (map (decided uuid5 percent ls t []) xs))"
proof -
  have "utcoffset u \<noteq> None"
    if "pf_next_collection_at (projr (build_result uuid5 l (the (lc_snapshot l)) d t)) = Some u" for l d u
    using assms that by (cases d) (auto simp: build_result_def Let_def record_result_def add_days_def
      time_ok_def COLLECTION_GAP_DAYS_def)
  then show ?thesis by (fastforce simp: priors_ok_def list_all_iff prior_of_no_priors split: option.splits)
qed

lemma rule_snapshot: "portfolio_rule percent ls l = Some d \<Longrightarrow> lc_snapshot l \<noteq> None"
  by (auto simp: portfolio_rule_def split: option.splits)

text \<open>
  C22: Evaluating the same listings again before the collection gap is over, with the first run's
  results as priors, repeats no hold and no repair, and names the culls and the successor by
  the same decision ids.
\<close>

theorem portfolio_rerun_is_stable:
  assumes "distinct (map lc_listing_id listings)" and "py_int text = Inr percent" and "percent \<le> 100"
    and "time_ok t" and "time_ok t'" and "instant t' < instant t + 7 * day_microseconds"
    and "evaluate_portfolio uuid5 listings t [] text = Inr results"
  shows "\<exists>again. evaluate_portfolio uuid5 listings t' results text = Inr again \<and>
    map (\<lambda>r. (pf_listing_id r, pf_decision_id r, pf_decision r)) again =
    map (\<lambda>r. (pf_listing_id r, pf_decision_id r, pf_decision r))
      (filter (\<lambda>r. pf_decision r \<in> {CULL, MULTIPLY}) results)"
proof -
  let ?key = "\<lambda>r. (pf_listing_id r, pf_decision_id r, pf_decision r)"
  have empty: "priors_ok []" by (simp add: priors_ok_def)
  have rs: "results = concat (map (decided uuid5 percent listings t []) listings)"
    using assms(7) evaluate_portfolio_eq [OF assms(1-4) empty, of uuid5] by simp
  have step: "map ?key (decided uuid5 percent listings t' results l) =
      map ?key (filter (\<lambda>r. pf_decision r \<in> {CULL, MULTIPLY}) (decided uuid5 percent listings t [] l))"
    if l: "l \<in> set listings" for l
  proof (cases "portfolio_rule percent listings l")
    case None
    then show ?thesis by (simp add: decided_def)
  next
    case (Some d)
    note p = prior_of_results [OF assms(1) l assms(4) Some, of uuid5, folded rs]
    have "suppressed l (prior_of results l) t' = Inr (d \<in> {HOLD, REPAIR})"
      unfolding p by (rule suppressed_again [OF assms(4-6) rule_snapshot [OF Some]])
    then show ?thesis
      using build_result_of [OF assms(4), of uuid5 l d] build_result_of [OF assms(5), of uuid5 l d]
      by (cases d) (simp_all add: Some decided_def [of _ _ _ _ results] prior_of_no_priors result_of_def)
  qed
  have "map ?key (concat (map (decided uuid5 percent listings t' results) xs)) =
      map ?key (filter (\<lambda>r. pf_decision r \<in> {CULL, MULTIPLY}) (concat (map (decided uuid5 percent listings t []) xs)))"
    if "set xs \<subseteq> set listings" for xs
    using that by (induction xs) (simp_all add: step)
  then show ?thesis
    using evaluate_portfolio_eq [OF assms(1-3,5) results_priors_ok [OF assms(4), of uuid5 percent listings listings,
      folded rs], of uuid5] rs by blast
qed

theorem portfolio_rerun_is_stable_witness:
  "\<exists>results again. evaluate_portfolio (\<lambda>_. 7) example_listings (example_day 0) [] ''80'' = Inr results \<and>
     evaluate_portfolio (\<lambda>_. 7) example_listings (example_day 3) results ''80'' = Inr again \<and>
     map pf_listing_id again = map pf_listing_id (filter (\<lambda>r. pf_decision r \<in> {CULL, MULTIPLY}) results)"
proof -
  obtain results where r: "evaluate_portfolio (\<lambda>_. 7) example_listings (example_day 0) [] ''80'' = Inr results"
    using evaluate_portfolio_eq [OF example_evaluation(1,2) _ example_evaluation(3,5), of "\<lambda>_. 7"] by auto
  have i: "instant (example_day 3) < instant (example_day 0) + 7 * day_microseconds" by code_simp
  obtain again where a: "evaluate_portfolio (\<lambda>_. 7) example_listings (example_day 3) results ''80'' = Inr again"
    "map (\<lambda>r. (pf_listing_id r, pf_decision_id r, pf_decision r)) again =
     map (\<lambda>r. (pf_listing_id r, pf_decision_id r, pf_decision r))
      (filter (\<lambda>r. pf_decision r \<in> {CULL, MULTIPLY}) results)"
    using portfolio_rerun_is_stable [OF example_evaluation(1,2) _ example_evaluation(3,4) i r] by auto
  from arg_cong [OF a(2), of "map fst"]
  have "map pf_listing_id again = map pf_listing_id (filter (\<lambda>r. pf_decision r \<in> {CULL, MULTIPLY}) results)"
    by (simp add: comp_def)
  with r a(1) show ?thesis by blast
qed

subsection \<open>The slot\<close>

definition kept :: "queued_experiment \<Rightarrow> experiment_outcome" where
  "kept x = \<lparr>eo_experiment_id = qe_experiment_id x, eo_state = qe_state x, eo_delivered = False\<rparr>"

definition delivered :: "queued_experiment \<Rightarrow> experiment_outcome" where
  "delivered x = \<lparr>eo_experiment_id = qe_experiment_id x, eo_state = X_SCHEDULED, eo_delivered = True\<rparr>"

lemma slot_taken: "fold (slot_step w) xs ([i], outcomes) = ([i], outcomes @ map kept xs)"
  by (induction xs arbitrary: outcomes) (simp_all add: slot_step_def kept_def)

lemma slot_skip:
  "\<forall>x \<in> set xs. \<not> eligible_experiment x w \<Longrightarrow> fold (slot_step w) xs ([], outcomes) = ([], outcomes @ map kept xs)"
  by (induction xs arbitrary: outcomes) (simp_all add: slot_step_def kept_def)

text \<open>
  A slot schedules the first eligible experiment of the batch and only that one: blocked
  experiments, variants of the winner and everything after it keep their state. With
  publishing disabled nothing is published.
\<close>

theorem new_front_schedules_one:
  "schedule_new_front uuid5 batch =
     (let waits = (\<lambda>x. \<not> eligible_experiment x (eb_winner_product_id batch)) in
      case dropWhile waits (eb_experiments batch) of
        [] \<Rightarrow> \<lparr>sl_scheduled_experiment_ids = [], sl_outcomes = map kept (eb_experiments batch),
          sl_publication_ids = [], sl_delivered_experiment_ids = []\<rparr>
      | x # later \<Rightarrow> \<lparr>sl_scheduled_experiment_ids = [qe_experiment_id x],
          sl_outcomes = map kept (takeWhile waits (eb_experiments batch)) @ delivered x # map kept later,
          sl_publication_ids = (if eb_publishing_enabled batch
            then [derive uuid5 ''publication'' [qe_experiment_id x]] else []),
          sl_delivered_experiment_ids = [qe_experiment_id x]\<rparr>)"
proof -
  let ?w = "eb_winner_product_id batch" and ?xs = "eb_experiments batch"
  let ?waits = "\<lambda>x. \<not> eligible_experiment x ?w"
  have pre: "\<forall>x \<in> set (takeWhile ?waits ?xs). \<not> eligible_experiment x ?w" by (auto dest: set_takeWhileD)
  show ?thesis
  proof (cases "dropWhile ?waits ?xs")
    case Nil
    then have "fold (slot_step ?w) ?xs ([], []) = ([], map kept ?xs)" by (subst slot_skip) auto
    then show ?thesis by (simp add: schedule_new_front_def Nil)
  next
    case (Cons x later)
    then have x: "eligible_experiment x ?w" by (metis (no_types, lifting) dropWhile_eq_Cons_conv)
    have "fold (slot_step ?w) ?xs ([], []) = fold (slot_step ?w) (takeWhile ?waits ?xs @ x # later) ([], [])"
      unfolding Cons [symmetric] by simp
    also have "\<dots> = ([qe_experiment_id x], map kept (takeWhile ?waits ?xs) @ delivered x # map kept later)"
      using x by (simp add: slot_skip [OF pre] slot_step_def slot_taken delivered_def)
    finally show ?thesis by (simp add: schedule_new_front_def Cons)
  qed
qed

end
