(* ===== verification/Ledgers.thy ===== *)
theory Ledgers
  imports MM_Prelude "HOL-Library.AList"
begin

section \<open>Keyed ledgers\<close>

text \<open>
  The interface shared by the in-process ledgers of the closed loop: a lookup by key, a store under
  a key, and the invariant of the representation. Its clients store only what is absent, so the
  first write of a key wins; \<open>first_write_wins\<close> says so once for all of them. A Python dict is an
  association list updated in place, which interprets the interface.
\<close>

locale keyed_ledger =
  fixes lookup :: "'l \<Rightarrow> 'k \<Rightarrow> 'v option"
    and store :: "'k \<Rightarrow> 'v \<Rightarrow> 'l \<Rightarrow> 'l"
    and ok :: "'l \<Rightarrow> bool"
  assumes ok_store: "ok l \<Longrightarrow> ok (store k v l)"
    and lookup_store: "ok l \<Longrightarrow> lookup (store k v l) k' = (if k' = k then Some v else lookup l k')"
begin

lemma first_write_wins:
  assumes "ok l" and "l' = (case lookup l k of Some w \<Rightarrow> l | None \<Rightarrow> store k v l)"
  shows "ok l' \<and> lookup l' k = Some (case lookup l k of Some w \<Rightarrow> w | None \<Rightarrow> v) \<and>
    (\<forall>k'. k' \<noteq> k \<longrightarrow> lookup l' k' = lookup l k') \<and>
    (\<forall>v'. (case lookup l' k of Some w \<Rightarrow> l' | None \<Rightarrow> store k v' l') = l')"
  using assms ok_store lookup_store by (auto split: option.splits)

lemma stored_stays:
  assumes "ok l" and "lookup l k = Some w" and "l' = (case lookup l k' of Some u \<Rightarrow> l | None \<Rightarrow> store k' v l)"
  shows "lookup l' k = Some w"
  using assms first_write_wins [OF assms(1), of l' k' v] by (cases "k' = k") auto

end

definition dict_ok :: "('k \<times> 'v) list \<Rightarrow> bool" where
  "dict_ok d \<longleftrightarrow> distinct (map fst d)"

interpretation dict: keyed_ledger map_of AList.update dict_ok
  by unfold_locales (simp_all add: dict_ok_def distinct_update update_conv')

end
