(* ===== verification/Listing_Effects.thy ===== *)
theory Listing_Effects
  imports Portfolio Product_Contracts Ledgers
begin

section \<open>Listing mutations and preflight\<close>

text \<open>
  \<^verbatim>\<open>assets/mutation_receipt.py\<close> and \<^verbatim>\<open>assets/etsy_preflight.py\<close>. The fixture the mutation talks to is a
  protocol the code only calls: it is a record of two state transformers on an arbitrary fixture
  state, a write that times out returning no id. The receipt book is the dict in insertion order;
  an operation returns its outcome with the book and the fixture it leaves, also when it raises.
  \<^verbatim>\<open>sha256\<close> and \<^verbatim>\<open>uuid5\<close> are arguments.
\<close>

subsection \<open>Receipts\<close>

datatype effect_error =
    Receipt_Rejected string
  | Reconciliation_Error string
  | Write_Timeout string
  | Invalid_Model error

record read_observation =
  rd_observed :: bool
  rd_provider_id :: "string option"
  rd_unknown :: bool

record listing_mutation =
  lm_operation :: string
  lm_listing_target :: string
  lm_pre_state :: string
  lm_expected_post_state :: string
  lm_idempotency_key :: string

record mutation_receipt =
  mr_operation :: string
  mr_listing_target :: string
  mr_pre_state :: string
  mr_expected_post_state :: string
  mr_provider_id :: "string option"
  mr_response_hash :: string
  mr_idempotency_key :: string
  mr_effect_state :: effect_state
  mr_effect :: effect_reference

record 'f listing_fixture =
  lf_create :: "string \<Rightarrow> 'f \<Rightarrow> string option \<times> 'f" \<comment> \<open>\<open>None\<close> is \<^verbatim>\<open>WriteTimeout\<close>\<close>
  lf_read :: "string \<Rightarrow> 'f \<Rightarrow> read_observation \<times> 'f"

type_synonym receipt_book = "(string \<times> mutation_receipt) list"

definition get_receipt :: "receipt_book \<Rightarrow> string \<Rightarrow> mutation_receipt option" where
  "get_receipt book key = find (\<lambda>r. mr_idempotency_key r = key) (map snd book)"

definition put_receipt :: "mutation_receipt \<Rightarrow> receipt_book \<Rightarrow> receipt_book" where
  "put_receipt r book = AList.update (mr_idempotency_key r) r book"

definition RAW_BODY_FIELDS :: "string set" where
  "RAW_BODY_FIELDS = {''body'', ''provider_response'', ''raw_body'', ''raw_response'', ''response'', ''response_body''}"

fun reject_forbidden :: "string list \<Rightarrow> effect_error + unit" where
  "reject_forbidden [] = Inr ()"
| "reject_forbidden (key # keys) =
     (if key \<in> RAW_BODY_FIELDS then Inl (Receipt_Rejected ''raw response body'')
      else if contains_str ''screenshot'' key then Inl (Receipt_Rejected ''screenshot'')
      else reject_forbidden keys)"

definition OBSERVED_AT :: time where "OBSERVED_AT = 20742 * day_microseconds" \<comment> \<open>2026-10-16\<close>

definition lift_error :: "error + 'a \<Rightarrow> effect_error + 'a" where
  "lift_error m = (case m of Inl e \<Rightarrow> Inl (Invalid_Model e) | Inr x \<Rightarrow> Inr x)"

definition build_receipt ::
  "string \<Rightarrow> string \<Rightarrow> string \<Rightarrow> string \<Rightarrow> string option \<Rightarrow> string option \<Rightarrow> string \<Rightarrow> effect_state \<Rightarrow>
   string list \<Rightarrow> effect_error + mutation_receipt" where
  "build_receipt operation target pre post provider_id response_hash key state forbidden =
     bindE (reject_forbidden forbidden) (\<lambda>_.
     case response_hash of
       None \<Rightarrow> Inl (Receipt_Rejected ''response hash is required'')
     | Some h \<Rightarrow>
       bindE (guardE (py_strip h \<noteq> []) (Receipt_Rejected ''response hash is required'')) (\<lambda>_.
       bindE (guardE (\<not> (state = X_CONFIRMED \<and> provider_id = None))
          (Receipt_Rejected ''confirmed effect requires a provider id'')) (\<lambda>_.
       bindE (lift_error (validate_effect_state \<lparr>ef_idempotency_key = strip_str key, ef_provider = ''etsy'',
          ef_operation = strip_str operation, ef_provider_object_id = map_option strip_str provider_id,
          ef_effect_state = state, ef_observed_at = OBSERVED_AT, ef_reconciliation_attempt = 0\<rparr>)) (\<lambda>effect.
       Inr \<lparr>mr_operation = operation, mr_listing_target = target, mr_pre_state = pre,
         mr_expected_post_state = post, mr_provider_id = ef_provider_object_id effect,
         mr_response_hash = h, mr_idempotency_key = ef_idempotency_key effect,
         mr_effect_state = ef_effect_state effect, mr_effect = effect\<rparr>))))"

fun effect_state_text :: "effect_state \<Rightarrow> string" where
  "effect_state_text X_CONFIRMED = ''CONFIRMED''"
| "effect_state_text X_ABSENT = ''ABSENT''"
| "effect_state_text X_UNKNOWN = ''UNKNOWN''"

definition redacted_hash ::
  "(string \<Rightarrow> string) \<Rightarrow> listing_mutation \<Rightarrow> string option \<Rightarrow> effect_state \<Rightarrow> string" where
  "redacted_hash sha256 m provider_id state = sha256 (join_with ''|''
     [lm_operation m, lm_listing_target m, lm_pre_state m, lm_expected_post_state m, lm_idempotency_key m,
      effect_state_text state, case provider_id of None \<Rightarrow> [] | Some p \<Rightarrow> p])"

definition remember ::
  "(string \<Rightarrow> string) \<Rightarrow> receipt_book \<Rightarrow> listing_mutation \<Rightarrow> string option \<Rightarrow> effect_state \<Rightarrow>
   (effect_error + mutation_receipt) \<times> receipt_book" where
  "remember sha256 book m provider_id state =
     (case build_receipt (lm_operation m) (lm_listing_target m) (lm_pre_state m) (lm_expected_post_state m)
        provider_id (Some (redacted_hash sha256 m provider_id state)) (lm_idempotency_key m) state [] of
       Inl e \<Rightarrow> (Inl e, book)
     | Inr r \<Rightarrow> (Inr r, put_receipt r book))"

definition reconcile_timeout ::
  "(string \<Rightarrow> string) \<Rightarrow> 'f listing_fixture \<Rightarrow> listing_mutation \<Rightarrow> receipt_book \<Rightarrow> 'f \<Rightarrow>
   (effect_error + mutation_receipt) \<times> receipt_book \<times> 'f" where
  "reconcile_timeout sha256 fx m book f = (case lf_read fx (lm_idempotency_key m) f of (obs, f) \<Rightarrow>
     if \<not> rd_observed obs then (Inl (Reconciliation_Error ''reconciled status requires a read''), book, f)
     else if rd_unknown obs then (case remember sha256 book m None X_UNKNOWN of (r, book) \<Rightarrow> (r, book, f))
     else case rd_provider_id obs of
       Some pid \<Rightarrow> (case remember sha256 book m (Some pid) X_CONFIRMED of (r, book) \<Rightarrow> (r, book, f))
     | None \<Rightarrow> (case lf_create fx (lm_idempotency_key m) f of
         (None, f) \<Rightarrow> (Inl (Write_Timeout (lm_idempotency_key m)), book, f)
       | (Some pid, f) \<Rightarrow> (case remember sha256 book m (Some pid) X_CONFIRMED of (r, book) \<Rightarrow> (r, book, f))))"

definition commit_listing_mutation ::
  "(string \<Rightarrow> string) \<Rightarrow> 'f listing_fixture \<Rightarrow> listing_mutation \<Rightarrow> receipt_book \<times> 'f \<Rightarrow>
   (effect_error + mutation_receipt) \<times> receipt_book \<times> 'f" where
  "commit_listing_mutation sha256 fx m s = (case s of (book, f) \<Rightarrow>
     let existing = get_receipt book (lm_idempotency_key m) in
     if \<exists>r \<in> set_option existing. mr_effect_state r = X_UNKNOWN then (Inr (the existing), book, f)
     else if \<exists>r \<in> set_option existing. mr_effect_state r = X_CONFIRMED then (Inr (the existing), book, f)
     else case lf_create fx (lm_idempotency_key m) f of
       (None, f) \<Rightarrow> reconcile_timeout sha256 fx m book f
     | (Some pid, f) \<Rightarrow> (case remember sha256 book m (Some pid) X_CONFIRMED of (r, book) \<Rightarrow> (r, book, f)))"

text \<open>Several commits one after the other, each seeing what the last one left.\<close>

fun commit_all ::
  "(string \<Rightarrow> string) \<Rightarrow> 'f listing_fixture \<Rightarrow> listing_mutation list \<Rightarrow> receipt_book \<times> 'f \<Rightarrow>
   (effect_error + mutation_receipt) list \<times> receipt_book \<times> 'f" where
  "commit_all sha256 fx [] s = ([], s)"
| "commit_all sha256 fx (m # ms) s = (case commit_listing_mutation sha256 fx m s of (r, s) \<Rightarrow>
     (case commit_all sha256 fx ms s of (rs, s) \<Rightarrow> (r # rs, s)))"

subsection \<open>The calls of a commit\<close>

text \<open>
  A provider that keeps a record of the calls made to it, so that what a commit does to the provider
  can be stated without assuming anything of how the provider behaves.
\<close>

datatype provider_call =
    Create_Call (call_key: string) "string option"
  | Read_Call (call_key: string) read_observation

definition recorded :: "'f listing_fixture \<Rightarrow> ('f \<times> provider_call list) listing_fixture" where
  "recorded fx =
     \<lparr>lf_create = (\<lambda>k (f, calls). case lf_create fx k f of (answer, f) \<Rightarrow> (answer, f, calls @ [Create_Call k answer])),
      lf_read = (\<lambda>k (f, calls). case lf_read fx k f of (obs, f) \<Rightarrow> (obs, f, calls @ [Read_Call k obs]))\<rparr>"

text \<open>A book stores every receipt under its own key.\<close>

definition book_ok :: "receipt_book \<Rightarrow> bool" where
  "book_ok book \<longleftrightarrow> list_all (\<lambda>(k, r). k = mr_idempotency_key r) book \<and> distinct (map fst book)"

lemma book_ok_put: "book_ok book \<Longrightarrow> book_ok (put_receipt r book)"
proof -
  assume b: "book_ok book"
  have "set (AList.update k v xs) \<subseteq> insert (k, v) (set xs)" for k :: string and v :: mutation_receipt and xs
    by (induction xs) (auto split: if_splits)
  then show ?thesis using b distinct_update [of book "mr_idempotency_key r" r]
    by (fastforce simp: book_ok_def put_receipt_def list_all_iff)
qed

lemma get_receipt_map_of:
  assumes "book_ok book"
  shows "get_receipt book key = map_of book key"
  using assms
  by (induction book) (auto simp: get_receipt_def book_ok_def)

lemma get_receipt_put:
  assumes "book_ok book"
  shows "get_receipt (put_receipt r book) key = (if key = mr_idempotency_key r then Some r else get_receipt book key)"
  by (simp add: get_receipt_map_of book_ok_put assms) (simp add: put_receipt_def update_conv')

lemma get_receipt_key: "get_receipt book key = Some r \<Longrightarrow> mr_idempotency_key r = key"
  by (auto simp: get_receipt_def find_Some_iff)

definition settled :: "mutation_receipt \<Rightarrow> bool" where
  "settled r \<longleftrightarrow> mr_effect_state r \<in> {X_CONFIRMED, X_UNKNOWN}"

definition confirms :: "mutation_receipt \<Rightarrow> string \<Rightarrow> bool" where
  "confirms r pid \<longleftrightarrow> mr_effect_state r = X_CONFIRMED \<and> mr_provider_id r = Some (strip_str pid)"

lemma remember_put:
  assumes "remember sha256 book m pid st = (Inr r, book')"
  shows "book' = put_receipt r book \<and> mr_idempotency_key r = strip_str (lm_idempotency_key m) \<and>
    mr_effect_state r = st \<and> mr_provider_id r = map_option strip_str pid"
  using assms
  by (auto simp: remember_def build_receipt_def lift_error_def validate_effect_state_def resolve
    split: sum.splits if_splits)

lemma remember_keeps: "remember sha256 book m pid st = (Inl err, book') \<Longrightarrow> book' = book"
  by (auto simp: remember_def split: sum.splits)

text \<open>
  The calls behind a receipt the commit made: a write that returned; a write that timed out and a
  read that found the listing or could not tell; or a read that found nothing and a second write.
\<close>

definition made_by :: "string \<Rightarrow> mutation_receipt \<Rightarrow> provider_call list \<Rightarrow> bool" where
  "made_by k r calls \<longleftrightarrow> mr_idempotency_key r = strip_str k \<and>
     ((\<exists>pid. calls = [Create_Call k (Some pid)] \<and> confirms r pid) \<or>
      (\<exists>obs. calls = [Create_Call k None, Read_Call k obs] \<and> rd_observed obs \<and> rd_unknown obs \<and>
         mr_effect_state r = X_UNKNOWN \<and> mr_provider_id r = None) \<or>
      (\<exists>obs pid. calls = [Create_Call k None, Read_Call k obs] \<and> rd_observed obs \<and> \<not> rd_unknown obs \<and>
         rd_provider_id obs = Some pid \<and> confirms r pid) \<or>
      (\<exists>obs pid. calls = [Create_Call k None, Read_Call k obs, Create_Call k (Some pid)] \<and> rd_observed obs \<and>
         \<not> rd_unknown obs \<and> rd_provider_id obs = None \<and> confirms r pid))"

lemma made_by_settled: "made_by k r calls \<Longrightarrow> settled r \<and> (\<forall>c \<in> set calls. call_key c = k)"
  by (auto simp: made_by_def settled_def confirms_def)

lemma settled_again:
  assumes "get_receipt book (lm_idempotency_key m) = Some r" and "settled r"
  shows "commit_listing_mutation sha256 fx m (book, f) = (Inr r, book, f)"
  using assms by (auto simp: commit_listing_mutation_def settled_def)

lemma reconcile_calls:
  assumes "reconcile_timeout sha256 (recorded fx) m book (f, calls) = (x, book', f', calls')"
  shows "\<exists>new. calls' = calls @ new \<and> (\<forall>c \<in> set new. call_key c = lm_idempotency_key m) \<and>
    (case x of Inl _ \<Rightarrow> book' = book
     | Inr r \<Rightarrow> book' = put_receipt r book \<and>
         made_by (lm_idempotency_key m) r (Create_Call (lm_idempotency_key m) None # new))"
proof -
  let ?k = "lm_idempotency_key m"
  obtain obs f1 where rd: "lf_read fx ?k f = (obs, f1)" by force
  obtain answer f2 where cr: "lf_create fx ?k f1 = (answer, f2)" by force
  note run = assms [unfolded reconcile_timeout_def recorded_def, simplified, unfolded rd cr, simplified]
  show ?thesis
  proof (cases "rd_observed obs \<and> \<not> rd_unknown obs \<and> rd_provider_id obs = None")
    case True
    show ?thesis
    proof (cases answer)
      case None
      then show ?thesis using run True by (auto simp: cr)
    next
      case (Some pid)
      then have c: "calls' = calls @ [Read_Call ?k obs, Create_Call ?k (Some pid)]"
        and rem: "remember sha256 book m (Some pid) X_CONFIRMED = (x, book')"
        using run True by (auto simp: cr split: prod.splits)
      show ?thesis
      proof (cases x)
        case (Inr r)
        then show ?thesis using remember_put [OF rem [unfolded Inr]] c True
          by (intro exI [of _ "[Read_Call ?k obs, Create_Call ?k (Some pid)]"]) (auto simp: made_by_def confirms_def)
      qed (use rem remember_keeps c in auto)
    qed
  next
    case False
    show ?thesis
    proof (cases "rd_observed obs")
      case True
      let ?pid = "if rd_unknown obs then None else rd_provider_id obs"
      let ?st = "if rd_unknown obs then X_UNKNOWN else X_CONFIRMED"
      have c: "calls' = calls @ [Read_Call ?k obs]" and rem: "remember sha256 book m ?pid ?st = (x, book')"
        using run True False by (auto split: prod.splits if_splits)
      show ?thesis
      proof (cases x)
        case (Inr r)
        have "made_by ?k r [Create_Call ?k None, Read_Call ?k obs]"
          using remember_put [OF rem [unfolded Inr]] True False by (auto simp: made_by_def confirms_def split: if_splits)
        then show ?thesis using remember_put [OF rem [unfolded Inr]] c Inr by auto
      qed (use rem remember_keeps c in auto)
    next
      case False
      then show ?thesis using run by auto
    qed
  qed
qed

lemma commit_calls:
  assumes "commit_listing_mutation sha256 (recorded fx) m (book, f, calls) = (x, book', f', calls')"
  shows "\<exists>new. calls' = calls @ new \<and> (\<forall>c \<in> set new. call_key c = lm_idempotency_key m) \<and>
    (case x of Inl _ \<Rightarrow> book' = book
     | Inr r \<Rightarrow> (new = [] \<and> book' = book \<and> get_receipt book (lm_idempotency_key m) = Some r \<and> settled r) \<or>
         (book' = put_receipt r book \<and> made_by (lm_idempotency_key m) r new))"
proof (cases "\<exists>r. get_receipt book (lm_idempotency_key m) = Some r \<and> settled r")
  case True
  then obtain r where r: "get_receipt book (lm_idempotency_key m) = Some r" "settled r" by blast
  from settled_again [OF r, of sha256 "recorded fx" "(f, calls)"] assms r show ?thesis by auto
next
  case False
  let ?k = "lm_idempotency_key m"
  obtain answer f1 where cr: "lf_create fx ?k f = (answer, f1)" by force
  have run: "(case answer of None \<Rightarrow> reconcile_timeout sha256 (recorded fx) m book (f1, calls @ [Create_Call ?k None])
      | Some pid \<Rightarrow> (case remember sha256 book m (Some pid) X_CONFIRMED of
          (r, book) \<Rightarrow> (r, book, f1, calls @ [Create_Call ?k (Some pid)]))) = (x, book', f', calls')"
    using assms False
    by (cases "get_receipt book ?k"; cases answer)
      (auto simp: commit_listing_mutation_def recorded_def cr settled_def split: if_splits)
  show ?thesis
  proof (cases answer)
    case None
    then have "reconcile_timeout sha256 (recorded fx) m book (f1, calls @ [Create_Call ?k None]) = (x, book', f', calls')"
      using run by simp
    from reconcile_calls [OF this] obtain new where "calls' = calls @ Create_Call ?k None # new"
      "\<forall>c \<in> set new. call_key c = ?k" "case x of Inl _ \<Rightarrow> book' = book
       | Inr r \<Rightarrow> book' = put_receipt r book \<and> made_by ?k r (Create_Call ?k None # new)" by auto
    then show ?thesis by (cases x) (auto intro!: exI [of _ "Create_Call ?k None # new"])
  next
    case (Some pid)
    then have c: "calls' = calls @ [Create_Call ?k (Some pid)]"
      and rem: "remember sha256 book m (Some pid) X_CONFIRMED = (x, book')"
      using run by (auto split: prod.splits)
    show ?thesis
    proof (cases x)
      case (Inr r)
      then show ?thesis using remember_put [OF rem [unfolded Inr]] c
        by (intro exI [of _ "[Create_Call ?k (Some pid)]"]) (auto simp: made_by_def confirms_def)
    qed (use rem remember_keeps c in auto)
  qed
qed

subsection \<open>A receipt ends the writes under its key\<close>

lemma commit_book_ok:
  assumes "commit_listing_mutation sha256 (recorded fx) m (book, f, calls) = (x, book', f', calls')" and "book_ok book"
  shows "book_ok book'"
  using commit_calls [OF assms(1)] assms(2) by (cases x) (auto intro: book_ok_put)

lemma commit_all_book_ok:
  "commit_all sha256 (recorded fx) ms (book, f, calls) = (rs, book', f', calls') \<Longrightarrow> book_ok book \<Longrightarrow> book_ok book'"
proof (induction ms arbitrary: book f calls rs)
  case Nil
  then show ?case by simp
next
  case (Cons m ms)
  obtain x b g cs where c: "commit_listing_mutation sha256 (recorded fx) m (book, f, calls) = (x, b, g, cs)"
    by (metis prod.exhaust)
  then obtain rs' where "commit_all sha256 (recorded fx) ms (b, g, cs) = (rs', book', f', calls')"
    using Cons.prems(1) by (auto split: prod.splits)
  then show ?case using Cons.IH commit_book_ok [OF c Cons.prems(2)] by blast
qed

text \<open>What a commit does to a settled receipt under another or under its own key.\<close>

lemma commit_keeps_settled:
  assumes "commit_listing_mutation sha256 (recorded fx) m (book, f, calls) = (x, book', f', calls')" and "book_ok book"
    and "get_receipt book k = Some q" and "settled q"
  shows "\<exists>new q'. calls' = calls @ new \<and> (\<forall>c \<in> set new. call_key c \<noteq> k) \<and> get_receipt book' k = Some q' \<and> settled q' \<and>
    (lm_idempotency_key m = k \<longrightarrow> x = Inr q) \<and>
    (strip_str (lm_idempotency_key m) \<noteq> k \<or> lm_idempotency_key m = k \<longrightarrow> q' = q)"
proof (cases "lm_idempotency_key m = k")
  case True
  then have "commit_listing_mutation sha256 (recorded fx) m (book, f, calls) = (Inr q, book, f, calls)"
    using assms(3) by (intro settled_again assms(4)) simp
  then show ?thesis using assms True by auto
next
  case False
  from commit_calls [OF assms(1)] obtain new where new: "calls' = calls @ new"
    "\<forall>c \<in> set new. call_key c = lm_idempotency_key m"
    and book: "case x of Inl _ \<Rightarrow> book' = book
     | Inr r \<Rightarrow> (new = [] \<and> book' = book \<and> get_receipt book (lm_idempotency_key m) = Some r \<and> settled r) \<or>
         (book' = put_receipt r book \<and> made_by (lm_idempotency_key m) r new)" by blast
  from book consider "book' = book" | r where "book' = put_receipt r book" "made_by (lm_idempotency_key m) r new"
    by (cases x) auto
  then show ?thesis
  proof cases
    case 1
    then show ?thesis using new assms(3,4) False by auto
  next
    case 2
    then have "mr_idempotency_key r = strip_str (lm_idempotency_key m)" "settled r"
      using made_by_settled [OF 2(2)] unfolding made_by_def by blast+
    then show ?thesis using new 2 False get_receipt_put [OF assms(2), of r k] assms(3,4) by auto
  qed
qed

lemma commit_all_keeps_settled:
  assumes "commit_all sha256 (recorded fx) ms (book, f, calls) = (rs, book', f', calls')" and "book_ok book"
    and "get_receipt book k = Some q" and "settled q"
  shows "\<exists>more. calls' = calls @ more \<and> (\<forall>c \<in> set more. call_key c \<noteq> k) \<and> length rs = length ms \<and>
    (\<forall>i < length ms. lm_idempotency_key (ms ! i) = k \<longrightarrow> (\<exists>q'. rs ! i = Inr q' \<and> mr_idempotency_key q' = k \<and>
       ((\<forall>m \<in> set ms. strip_str (lm_idempotency_key m) = k \<longrightarrow> lm_idempotency_key m = k) \<longrightarrow> q' = q)))"
  using assms
proof (induction ms arbitrary: book f calls rs q)
  case Nil
  then show ?case by simp
next
  case (Cons m ms)
  obtain x b g cs where c: "commit_listing_mutation sha256 (recorded fx) m (book, f, calls) = (x, b, g, cs)"
    by (metis prod.exhaust)
  then obtain rs' where rest: "commit_all sha256 (recorded fx) ms (b, g, cs) = (rs', book', f', calls')" and rs: "rs = x # rs'"
    using Cons.prems(1) by (auto split: prod.splits)
  from commit_keeps_settled [OF c Cons.prems(2-4)] obtain new q1 where new: "cs = calls @ new" "\<forall>c \<in> set new. call_key c \<noteq> k"
    and q1: "get_receipt b k = Some q1" "settled q1" and same: "lm_idempotency_key m = k \<longrightarrow> x = Inr q"
      "strip_str (lm_idempotency_key m) \<noteq> k \<or> lm_idempotency_key m = k \<longrightarrow> q1 = q" by blast
  from Cons.IH [OF rest commit_book_ok [OF c Cons.prems(2)] q1] obtain more where
    more: "calls' = cs @ more" "\<forall>c \<in> set more. call_key c \<noteq> k" "length rs' = length ms"
    and later: "\<forall>i < length ms. lm_idempotency_key (ms ! i) = k \<longrightarrow> (\<exists>q'. rs' ! i = Inr q' \<and> mr_idempotency_key q' = k \<and>
       ((\<forall>m \<in> set ms. strip_str (lm_idempotency_key m) = k \<longrightarrow> lm_idempotency_key m = k) \<longrightarrow> q' = q1))" by blast
  have "\<exists>q'. rs ! i = Inr q' \<and> mr_idempotency_key q' = k \<and>
      ((\<forall>m \<in> set (m # ms). strip_str (lm_idempotency_key m) = k \<longrightarrow> lm_idempotency_key m = k) \<longrightarrow> q' = q)"
    if i: "i < length (m # ms)" "lm_idempotency_key ((m # ms) ! i) = k" for i
  proof (cases i)
    case 0
    then show ?thesis using i same(1) rs get_receipt_key [OF Cons.prems(3)] by simp
  next
    case (Suc n)
    then show ?thesis using i later [rule_format, of n] same(2) rs by auto
  qed
  with new more rs show ?case by (intro exI [of _ "new @ more"]) auto
qed


text \<open>
  An example provider that counts its listings: the first write times out after making one, and its
  reads work or do not.
\<close>

definition example_provider :: "bool \<Rightarrow> (nat \<times> nat) listing_fixture" where
  "example_provider reads = \<lparr>lf_create = (\<lambda>k (n, calls). if calls = 0 then (None, (Suc n, 1)) else (Some ''17'', (Suc n, Suc calls))),
     lf_read = (\<lambda>k (n, calls). (\<lparr>rd_observed = reads, rd_provider_id = (if 0 < n then Some ''17'' else None),
       rd_unknown = False\<rparr>, (n, calls)))\<rparr>"

definition example_mutation :: listing_mutation where
  "example_mutation = \<lparr>lm_operation = ''createDraftListing'', lm_listing_target = ''shop'', lm_pre_state = ''none'',
     lm_expected_post_state = ''draft'', lm_idempotency_key = ''k1''\<rparr>"


text \<open>
  Without a receipt nothing is remembered: when the write timed out after reaching the provider and
  the read that follows observes nothing, the error leaves the book empty, and the next commit under
  the same key writes again and makes a second listing.
\<close>

theorem unobserved_timeout_duplicates:
  "case commit_listing_mutation (\<lambda>_. ''h'') (example_provider False) example_mutation ([], (0, 0)) of
     (r1, book1, f1) \<Rightarrow> r1 = Inl (Reconciliation_Error ''reconciled status requires a read'') \<and> book1 = [] \<and>
       fst f1 = 1 \<and>
       (case commit_listing_mutation (\<lambda>_. ''h'') (example_provider False) example_mutation (book1, f1) of
          (r2, book2, f2) \<Rightarrow> \<not> isl r2 \<and> fst f2 = 2)"
  by code_simp

subsection \<open>Etsy preflight\<close>

record preflight_claim =
  cl_text :: string
  cl_fact_ref :: "string option"

record etsy_preflight_draft =
  pd_quantity :: int
  pd_tags :: "string list"
  pd_images :: "string list"
  pd_videos :: int
  pd_claims :: "preflight_claim list"

record preflight_blocked =
  pb_blocked :: bool
  pb_repair_job_types :: "string list"

definition REQUIRED_QUANTITY :: int where "REQUIRED_QUANTITY = 999"
definition REQUIRED_TAGS :: nat where "REQUIRED_TAGS = 13"
definition REQUIRED_IMAGES :: nat where "REQUIRED_IMAGES = 10"
definition REQUIRED_VIDEOS :: int where "REQUIRED_VIDEOS = 1"

definition preflight_evidence :: "(string \<Rightarrow> uuid) \<Rightarrow> (string \<Rightarrow> string) \<Rightarrow> string \<Rightarrow> int \<Rightarrow> evidence_reference" where
  "preflight_evidence uuid5 sha256 name observed = (let summary = name @ ''='' @ str_int observed in
     \<lparr>er_evidence_id = uuid5 summary, er_evidence_type = ''preflight-check'',
      er_source_reference = ''memory://etsy-preflight/'' @ name, er_observed_at = OBSERVED_AT,
      er_sha256 = Some (sha256 summary), er_artifact_id = None, er_producing_job_id = None,
      er_safe_summary = summary\<rparr>)"

definition preflight_check ::
  "(string \<Rightarrow> uuid) \<Rightarrow> (string \<Rightarrow> string) \<Rightarrow> string \<Rightarrow> bool \<Rightarrow> string option \<Rightarrow> int \<Rightarrow> error + check_result" where
  "preflight_check uuid5 sha256 name passed defect_code observed =
     validate_defect_code \<lparr>cr_name = name, cr_passed = passed, cr_defect_code = defect_code,
       cr_evidence = [preflight_evidence uuid5 sha256 name observed], cr_observed_value = JInt observed\<rparr>"

type_synonym checklist = "check_result list \<times> string list"

definition check_ok ::
  "(string \<Rightarrow> uuid) \<Rightarrow> (string \<Rightarrow> string) \<Rightarrow> string \<Rightarrow> int \<Rightarrow> checklist \<Rightarrow> error + checklist" where
  "check_ok uuid5 sha256 name observed acc = (case acc of (checks, repairs) \<Rightarrow>
     bindE (preflight_check uuid5 sha256 name True None observed) (\<lambda>c. Inr (checks @ [c], repairs)))"

definition check_fail ::
  "(string \<Rightarrow> uuid) \<Rightarrow> (string \<Rightarrow> string) \<Rightarrow> string \<Rightarrow> string \<Rightarrow> string \<Rightarrow> int \<Rightarrow> checklist \<Rightarrow> error + checklist" where
  "check_fail uuid5 sha256 name defect_code job observed acc = (case acc of (checks, repairs) \<Rightarrow>
     bindE (preflight_check uuid5 sha256 name False (Some defect_code) observed) (\<lambda>c.
     Inr (checks @ [c], repairs @ [job])))"

definition pin_quantity :: "(string \<Rightarrow> uuid) \<Rightarrow> (string \<Rightarrow> string) \<Rightarrow> etsy_preflight_draft \<Rightarrow> checklist \<Rightarrow> error + checklist" where
  "pin_quantity uuid5 sha256 d = (if pd_quantity d \<noteq> REQUIRED_QUANTITY
     then check_fail uuid5 sha256 ''quantity'' ''quantity_not_999'' ''repair_quantity'' (pd_quantity d)
     else check_ok uuid5 sha256 ''quantity'' (pd_quantity d))"

definition pin_tags :: "(string \<Rightarrow> uuid) \<Rightarrow> (string \<Rightarrow> string) \<Rightarrow> etsy_preflight_draft \<Rightarrow> checklist \<Rightarrow> error + checklist" where
  "pin_tags uuid5 sha256 d = (let count = length (pd_tags d) in if count \<noteq> REQUIRED_TAGS
     then check_fail uuid5 sha256 ''tags'' ''tag_count'' ''repair_tags'' (int count)
     else check_ok uuid5 sha256 ''tags'' (int count))"

definition pin_images :: "(string \<Rightarrow> uuid) \<Rightarrow> (string \<Rightarrow> string) \<Rightarrow> etsy_preflight_draft \<Rightarrow> checklist \<Rightarrow> error + checklist" where
  "pin_images uuid5 sha256 d = (let count = length (pd_images d) in if count \<noteq> REQUIRED_IMAGES
     then check_fail uuid5 sha256 ''images'' ''image_count'' ''repair_images'' (int count)
     else check_ok uuid5 sha256 ''images'' (int count))"

definition pin_video :: "(string \<Rightarrow> uuid) \<Rightarrow> (string \<Rightarrow> string) \<Rightarrow> etsy_preflight_draft \<Rightarrow> checklist \<Rightarrow> error + checklist" where
  "pin_video uuid5 sha256 d = (if pd_videos d \<noteq> REQUIRED_VIDEOS
     then check_fail uuid5 sha256 ''video'' ''video_count'' ''repair_video'' (pd_videos d)
     else check_ok uuid5 sha256 ''video'' (pd_videos d))"

definition repairable :: "(string \<Rightarrow> uuid) \<Rightarrow> (string \<Rightarrow> string) \<Rightarrow> etsy_preflight_draft \<Rightarrow> error + checklist" where
  "repairable uuid5 sha256 d = bindE (pin_quantity uuid5 sha256 d ([], [])) (\<lambda>acc.
     bindE (pin_tags uuid5 sha256 d acc) (\<lambda>acc.
     bindE (pin_images uuid5 sha256 d acc) (pin_video uuid5 sha256 d)))"

text \<open>The digest of a draft, SHA-256 of the \<^verbatim>\<open>repr\<close> of its fields, is an argument.\<close>

definition preflight_result_of ::
  "(string \<Rightarrow> uuid) \<Rightarrow> (etsy_preflight_draft \<Rightarrow> string) \<Rightarrow> etsy_preflight_draft \<Rightarrow> checklist \<Rightarrow> error + preflight_result" where
  "preflight_result_of uuid5 digest_of d acc = (case acc of (checks, repairs) \<Rightarrow>
     let digest = digest_of d; failed = list_ex (\<lambda>c. \<not> cr_passed c) checks in
     validate_preflight_outcome \<lparr>pr_result_id = uuid5 (''result:'' @ digest),
       pr_listing_package_id = uuid5 (''package:'' @ digest), pr_listing_package_sha256 = digest,
       pr_outcome = (if failed then FAIL else PASS), pr_checks = checks, pr_repair_job_types = repairs,
       pr_evidence = concat (map cr_evidence checks), pr_completed_at = OBSERVED_AT\<rparr>)"

definition run_etsy_preflight ::
  "(string \<Rightarrow> uuid) \<Rightarrow> (string \<Rightarrow> string) \<Rightarrow> (etsy_preflight_draft \<Rightarrow> string) \<Rightarrow> etsy_preflight_draft \<Rightarrow>
   error + (preflight_blocked + preflight_result)" where
  "run_etsy_preflight uuid5 sha256 digest_of d =
     (if list_ex (\<lambda>c. cl_fact_ref c = None) (pd_claims d)
      then Inr (Inl \<lparr>pb_blocked = True, pb_repair_job_types = []\<rparr>)
      else bindE (repairable uuid5 sha256 d) (\<lambda>acc.
        bindE (preflight_result_of uuid5 digest_of d acc) (\<lambda>r. Inr (Inr r))))"

text \<open>
  A draft with an unbacked claim is blocked and names no repair. Any other draft gets a valid
  result: it passes exactly with 999 pieces, 13 tags, 10 images and one video, and otherwise asks
  for exactly the repairs of the requirements it misses, in the order of the checklist.
\<close>

theorem preflight_verdict:
  assumes "sha256_hex (digest_of d)"
  shows "run_etsy_preflight uuid5 sha256 digest_of d =
      Inr (Inl \<lparr>pb_blocked = True, pb_repair_job_types = []\<rparr>) \<and> (\<exists>c \<in> set (pd_claims d). cl_fact_ref c = None) \<or>
    (\<forall>c \<in> set (pd_claims d). cl_fact_ref c \<noteq> None) \<and>
    (\<exists>r. run_etsy_preflight uuid5 sha256 digest_of d = Inr (Inr r) \<and>
      pr_outcome r = (if pd_quantity d = 999 \<and> length (pd_tags d) = 13 \<and> length (pd_images d) = 10 \<and> pd_videos d = 1
        then PASS else FAIL) \<and>
      pr_repair_job_types r = map snd (filter fst
        [(pd_quantity d \<noteq> 999, ''repair_quantity''), (length (pd_tags d) \<noteq> 13, ''repair_tags''),
         (length (pd_images d) \<noteq> 10, ''repair_images''), (pd_videos d \<noteq> 1, ''repair_video'')]))"
proof (cases "\<exists>c \<in> set (pd_claims d). cl_fact_ref c = None")
  case True
  then show ?thesis by (simp add: run_etsy_preflight_def list_ex_iff)
next
  case False
  define chk where "chk = (\<lambda>name passed code observed. \<lparr>cr_name = name, cr_passed = passed, cr_defect_code = code,
    cr_evidence = [preflight_evidence uuid5 sha256 name observed], cr_observed_value = JInt observed\<rparr>)"
  have ok: "check_ok uuid5 sha256 name n (cs, js) = Inr (cs @ [chk name True None n], js)" if "name \<noteq> []" for name n cs js
    using that by (simp add: check_ok_def preflight_check_def validate_defect_code_def opt_non_empty_def chk_def)
  have fail: "check_fail uuid5 sha256 name code job n (cs, js) = Inr (cs @ [chk name False (Some code) n], js @ [job])"
    if "name \<noteq> []" "code \<noteq> []" for name code job n cs js
    using that by (simp add: check_fail_def preflight_check_def validate_defect_code_def opt_non_empty_def chk_def)
  have p: "cr_passed (chk a b c e) = b" "cr_evidence (chk a b c e) = [preflight_evidence uuid5 sha256 a e]" for a b c e
    by (simp_all add: chk_def)
  have nb: "\<not> list_ex (\<lambda>c. cl_fact_ref c = None) (pd_claims d)" using False by (auto simp: list_ex_iff)
  note pins = pin_quantity_def pin_tags_def pin_images_def pin_video_def REQUIRED_QUANTITY_def REQUIRED_TAGS_def
    REQUIRED_IMAGES_def REQUIRED_VIDEOS_def Let_def
  show ?thesis using False assms
    by (cases "pd_quantity d = 999"; cases "length (pd_tags d) = 13"; cases "length (pd_images d) = 10";
        cases "pd_videos d = 1")
      (simp_all add: run_etsy_preflight_def nb repairable_def pins ok fail preflight_result_of_def p
        validate_preflight_outcome_def non_empty_def)
qed

definition example_draft :: etsy_preflight_draft where
  "example_draft = \<lparr>pd_quantity = 999, pd_tags = replicate 12 ''t'', pd_images = replicate 10 ''i'', pd_videos = 1,
     pd_claims = [\<lparr>cl_text = ''undated'', cl_fact_ref = Some ''f1''\<rparr>]\<rparr>"

theorem preflight_verdict_witness:
  "\<exists>r. run_etsy_preflight (\<lambda>_. 0) (\<lambda>_. ''h'') (\<lambda>_. replicate 64 CHR ''0'') example_draft = Inr (Inr r) \<and>
     pr_outcome r = FAIL \<and> pr_repair_job_types r = [''repair_tags'']"
proof -
  have h: "sha256_hex ((\<lambda>_. replicate 64 CHR ''0'') example_draft)" by code_simp
  have c: "\<not> (\<exists>c \<in> set (pd_claims example_draft). cl_fact_ref c = None)" by (simp add: example_draft_def)
  show ?thesis
    using preflight_verdict [where d = example_draft and digest_of = "\<lambda>_. replicate 64 CHR ''0''", OF h,
      of "\<lambda>_. 0" "\<lambda>_. ''h''"] c
    by (auto simp: example_draft_def)
qed

end
