(* ===== verification/Closed_Loop.thy ===== *)
theory Closed_Loop
  imports Portfolio Product_Contracts Ledgers
begin

section \<open>Metrics, loop plans and loop triggers\<close>

text \<open>
  \<^verbatim>\<open>assets/metrics_fixture.py\<close> and \<^verbatim>\<open>assets/closed_loop_store.py\<close>, with \<^verbatim>\<open>MetricsSnapshot\<close> of
  \<^verbatim>\<open>domain/models/portfolio.py\<close>. A fixture row is a dict of arbitrary objects, so its values carry
  their type. The windows of a plan are UTC instants. A refusal is \<open>ValueError\<close> with its code.
\<close>

subsection \<open>Snapshots from a fixture\<close>

record metrics_snapshot =
  ms_snapshot_id :: uuid
  ms_listing_id :: uuid
  ms_listing_version :: int
  ms_provider :: string
  ms_observed_at :: time
  ms_views :: int
  ms_favourites :: int
  ms_orders :: int
  ms_gross_revenue :: rat
  ms_currency :: string
  ms_reconciled :: bool
  ms_source_evidence :: "evidence_reference list"

definition validate_metrics_snapshot :: "metrics_snapshot \<Rightarrow> error + metrics_snapshot" where
  "validate_metrics_snapshot s =
     bindE (guardE (0 < ms_listing_version s \<and> ms_provider s \<noteq> [] \<and> 0 \<le> ms_views s \<and> 0 \<le> ms_favourites s \<and>
        0 \<le> ms_orders s \<and> 0 \<le> ms_gross_revenue s \<and> currency_is_iso4217 (ms_currency s) \<and>
        ms_source_evidence s \<noteq> []) (ValueError ''field'')) (\<lambda>_. Inr s)"

datatype fixture_value =
    V_Uuid uuid
  | V_Int int
  | V_Bool bool
  | V_Str string
  | V_Datetime py_datetime
  | V_Decimal rat
  | V_Evidence evidence_reference
  | V_Other

type_synonym fixture_row = "(string \<times> fixture_value) list"

definition ROW_FIELDS :: "string set" where
  "ROW_FIELDS = set [''snapshot_id'', ''listing_id'', ''listing_version'', ''provider'', ''observed_at'',
     ''views'', ''favourites'', ''orders'', ''gross_revenue'', ''currency'', ''reconciled'',
     ''window_start'', ''window_end'', ''evidence'']"

definition CUMULATIVE_FIELDS :: "string set" where
  "CUMULATIVE_FIELDS = set [''cumulative_views'', ''cumulative_favourites'', ''cumulative_orders'', ''cumulative_sales'']"

record fixture_observation =
  fo_window_start :: time
  fo_window_end :: time
  fo_snapshot :: metrics_snapshot

definition require_window :: "time \<Rightarrow> time \<Rightarrow> error + (time \<times> time)" where
  "require_window start stop = bindE (guardE (\<not> stop \<le> start) (ValueError ''window'')) (\<lambda>_. Inr (start, stop))"

definition moment_of :: "string \<Rightarrow> fixture_value option \<Rightarrow> error + time" where
  "moment_of code v = (case v of Some (V_Datetime d) \<Rightarrow>
      bindE (guardE (utcoffset d \<noteq> None) (ValueError code)) (\<lambda>_. as_utc code d)
    | _ \<Rightarrow> Inl (ValueError code))"

definition uuid_of :: "string \<Rightarrow> fixture_value option \<Rightarrow> error + uuid" where
  "uuid_of code v = (case v of Some (V_Uuid u) \<Rightarrow> Inr u | _ \<Rightarrow> Inl (ValueError code))"

definition text_of :: "string \<Rightarrow> fixture_value option \<Rightarrow> error + string" where
  "text_of code v = (case v of Some (V_Str s) \<Rightarrow> Inr s | _ \<Rightarrow> Inl (ValueError code))"

definition count_of :: "string \<Rightarrow> fixture_value option \<Rightarrow> error + int" where
  "count_of code v = (case v of Some (V_Int n) \<Rightarrow> Inr n | _ \<Rightarrow> Inl (ValueError code))"

definition flag_of :: "string \<Rightarrow> fixture_value option \<Rightarrow> error + bool" where
  "flag_of code v = (case v of Some (V_Bool b) \<Rightarrow> Inr b | _ \<Rightarrow> Inl (ValueError code))"

definition money_of :: "fixture_value option \<Rightarrow> error + rat" where
  "money_of v = (case v of Some (V_Decimal q) \<Rightarrow> Inr q | _ \<Rightarrow> Inl (ValueError ''gross_revenue''))"

definition evidence_of :: "fixture_value option \<Rightarrow> error + evidence_reference" where
  "evidence_of v = (case v of Some (V_Evidence e) \<Rightarrow> Inr e | _ \<Rightarrow> Inl (ValueError ''evidence''))"

definition snapshot_of :: "(string \<rightharpoonup> fixture_value) \<Rightarrow> evidence_reference \<Rightarrow> error + metrics_snapshot" where
  "snapshot_of get evidence =
     bindE (uuid_of ''snapshot_id'' (get ''snapshot_id'')) (\<lambda>snapshot_id.
     bindE (uuid_of ''listing_id'' (get ''listing_id'')) (\<lambda>listing_id.
     bindE (count_of ''listing_version'' (get ''listing_version'')) (\<lambda>listing_version.
     bindE (text_of ''provider'' (get ''provider'')) (\<lambda>provider.
     bindE (moment_of ''observed_at'' (get ''observed_at'')) (\<lambda>observed_at.
     bindE (count_of ''views'' (get ''views'')) (\<lambda>views.
     bindE (count_of ''favourites'' (get ''favourites'')) (\<lambda>favourites.
     bindE (count_of ''orders'' (get ''orders'')) (\<lambda>orders.
     bindE (money_of (get ''gross_revenue'')) (\<lambda>gross_revenue.
     bindE (text_of ''currency'' (get ''currency'')) (\<lambda>currency.
     bindE (flag_of ''reconciled'' (get ''reconciled'')) (\<lambda>reconciled.
     validate_metrics_snapshot \<lparr>ms_snapshot_id = snapshot_id, ms_listing_id = listing_id,
        ms_listing_version = listing_version, ms_provider = strip_str provider, ms_observed_at = observed_at,
        ms_views = views, ms_favourites = favourites, ms_orders = orders, ms_gross_revenue = gross_revenue,
        ms_currency = currency, ms_reconciled = reconciled, ms_source_evidence = [evidence]\<rparr>)))))))))))"

definition observation_of :: "fixture_row \<Rightarrow> error + fixture_observation" where
  "observation_of row = (let keys = fst ` set row; extra = keys - ROW_FIELDS; get = map_of row in
     bindE (guardE (extra \<inter> CUMULATIVE_FIELDS = {}) (ValueError ''cumulative_not_writable'')) (\<lambda>_.
     bindE (guardE (extra = {}) (ValueError ''extra_provider_stat'')) (\<lambda>_.
     bindE (guardE (ROW_FIELDS - keys = {}) (ValueError ''missing_field'')) (\<lambda>_.
     bindE (moment_of ''window'' (get ''window_start'')) (\<lambda>ws.
     bindE (moment_of ''window'' (get ''window_end'')) (\<lambda>we.
     bindE (require_window ws we) (\<lambda>(start, stop).
     bindE (evidence_of (get ''evidence'')) (\<lambda>evidence.
     bindE (snapshot_of get evidence) (\<lambda>snapshot.
     Inr \<lparr>fo_window_start = start, fo_window_end = stop, fo_snapshot = snapshot\<rparr>)))))))))"

type_synonym window_id = "uuid \<times> int \<times> time \<times> time"

definition window_key :: "fixture_observation \<Rightarrow> window_id" where
  "window_key ob = (ms_listing_id (fo_snapshot ob), ms_listing_version (fo_snapshot ob), fo_window_start ob, fo_window_end ob)"

definition load_row :: "fixture_row \<Rightarrow> window_id set \<times> fixture_observation list \<Rightarrow>
    error + (window_id set \<times> fixture_observation list)" where
  "load_row row acc = (case acc of (seen, loaded) \<Rightarrow>
     bindE (observation_of row) (\<lambda>ob.
     bindE (guardE (window_key ob \<notin> seen) (ValueError ''duplicate_listing_window'')) (\<lambda>_.
     Inr (insert (window_key ob) seen, loaded @ [ob]))))"

definition snapshots_from_fixture :: "fixture_row list \<Rightarrow> error + fixture_observation list" where
  "snapshots_from_fixture rows = bindE (foldE load_row rows ({}, [])) (\<lambda>(_, loaded). Inr loaded)"

record cumulative_totals =
  ct_views :: int
  ct_orders :: int

definition cumulative_totals_of :: "metrics_snapshot list \<Rightarrow> cumulative_totals" where
  "cumulative_totals_of snapshots = \<lparr>ct_views = sum_list (map ms_views snapshots), ct_orders = sum_list (map ms_orders snapshots)\<rparr>"

subsection \<open>Plans\<close>

record active_listing =
  al_listing_id :: uuid
  al_listing_version :: int
  al_active :: bool

datatype record_kind = R_collection | R_shop_review

record collection_record =
  cc_kind :: record_kind
  cc_window_start :: time
  cc_window_end :: time
  cc_listing_id :: "uuid option"
  cc_listing_version :: "int option"

record weekly_plan =
  wp_records :: "collection_record list"
  wp_prior_snapshots :: "metrics_snapshot list"

definition plan_weekly ::
  "active_listing list \<Rightarrow> time \<Rightarrow> time \<Rightarrow> metrics_snapshot list \<Rightarrow> collection_record list \<Rightarrow> error + weekly_plan" where
  "plan_weekly listings window_start window_end prior_snapshots existing_records =
     bindE (require_window window_start window_end) (\<lambda>(start, stop).
     if list_ex (\<lambda>r. cc_window_start r = start \<and> cc_window_end r = stop) existing_records
     then Inr \<lparr>wp_records = [], wp_prior_snapshots = prior_snapshots\<rparr>
     else Inr \<lparr>wp_records = map (\<lambda>l. \<lparr>cc_kind = R_collection, cc_window_start = start, cc_window_end = stop,
           cc_listing_id = Some (al_listing_id l), cc_listing_version = Some (al_listing_version l)\<rparr>)
         (filter al_active listings) @
         [\<lparr>cc_kind = R_shop_review, cc_window_start = start, cc_window_end = stop,
           cc_listing_id = None, cc_listing_version = None\<rparr>],
       wp_prior_snapshots = prior_snapshots\<rparr>)"

datatype job_role = JR_research | JR_build_slot | JR_scale

record planned_job =
  pj_job_type :: string
  pj_role :: job_role
  pj_shop_id :: uuid
  pj_window_start :: time
  pj_window_end :: time
  pj_admitted_event :: event_name

record monthly_record =
  mo_cadence :: string
  mo_window_start :: time
  mo_window_end :: time
  mo_jobs :: "planned_job list"

definition MONTHLY_JOBS :: "(string \<times> job_role) list" where
  "MONTHLY_JOBS = [(''ResearchCollectionJob'', JR_research), (''BuildSlotJob'', JR_build_slot),
     (''ScaleEvaluationJob'', JR_scale)]"

definition plan_monthly ::
  "string \<Rightarrow> int \<Rightarrow> bool \<Rightarrow> time \<Rightarrow> time \<Rightarrow> uuid \<Rightarrow> error + monthly_record option" where
  "plan_monthly cadence weekly_fire_count month_due window_start window_end shop_id =
     bindE (guardE (\<not> weekly_fire_count < 0) (ValueError ''weekly_fire_count'')) (\<lambda>_.
     bindE (guardE (cadence = ''monthly'') (ValueError ''cadence'')) (\<lambda>_.
     if \<not> month_due then Inr None
     else bindE (require_window window_start window_end) (\<lambda>(start, stop).
       Inr (Some \<lparr>mo_cadence = ''monthly'', mo_window_start = start, mo_window_end = stop,
         mo_jobs = map (\<lambda>(job_type, role). \<lparr>pj_job_type = job_type, pj_role = role, pj_shop_id = shop_id,
           pj_window_start = start, pj_window_end = stop,
           pj_admitted_event = EV_MONTHLY_REVIEW_COMPLETED\<rparr>) MONTHLY_JOBS\<rparr>))))"

record milestone_input =
  mi_effects :: "effect_reference list"
  mi_successor_spec_id :: "uuid option"
  mi_measured :: bool
  mi_operator_minutes :: "int option"

record milestone_report =
  mp_first_cull :: "effect_reference option"
  mp_first_multiplied_winner :: "uuid option"
  mp_operator_minutes :: "int option"

definition derive_milestones :: "milestone_input \<Rightarrow> error + milestone_report" where
  "derive_milestones i =
     bindE (if mi_measured i
       then (case mi_operator_minutes i of None \<Rightarrow> Inl (ValueError ''operator_minutes'')
         | Some n \<Rightarrow> bindE (guardE (\<not> n < 0) (ValueError ''operator_minutes'')) (\<lambda>_. Inr (Some n)))
       else bindE (guardE (mi_operator_minutes i = None) (ValueError ''unmeasured_operator_minutes'')) (\<lambda>_. Inr None))
     (\<lambda>minutes. Inr \<lparr>mp_first_cull = find (\<lambda>f. ef_operation f = ''CULL'' \<and> ef_effect_state f = X_CONFIRMED) (mi_effects i),
       mp_first_multiplied_winner = mi_successor_spec_id i, mp_operator_minutes = minutes\<rparr>)"

subsection \<open>The trigger ledger\<close>

datatype trigger_kind = WEEKLY_REVIEW | MONTHLY_DEEP_PASS | BUILD_SLOT

record stored_trigger =
  st_shop_id :: uuid
  st_trigger_kind :: trigger_kind
  st_trigger_key :: string
  st_cron_expression :: string
  st_next_fire_at :: time
  st_active :: bool

type_synonym trigger_ledger = "(string \<times> stored_trigger) list"

definition ledger_rows :: "trigger_ledger \<Rightarrow> stored_trigger list" where
  "ledger_rows ledger = map snd ledger"

definition ledger_insert :: "stored_trigger \<Rightarrow> trigger_ledger \<Rightarrow> stored_trigger option \<times> trigger_ledger" where
  "ledger_insert row ledger = (case map_of ledger (st_trigger_key row) of
     Some _ \<Rightarrow> (None, ledger)
   | None \<Rightarrow> (Some row, AList.update (st_trigger_key row) row ledger))"

definition weekly_key :: "uuid \<Rightarrow> collection_record \<Rightarrow> error + string" where
  "weekly_key shop_id r = (case cc_kind r of
     R_collection \<Rightarrow> (case cc_listing_id r of None \<Rightarrow> Inl (ValueError ''collection_listing'')
       | Some l \<Rightarrow> Inr (''weekly:'' @ str_uuid shop_id @ '':collection:'' @ str_uuid l @ '':'' @ isoformat (cc_window_start r)))
   | R_shop_review \<Rightarrow> Inr (''weekly:'' @ str_uuid shop_id @ '':shop-review:'' @ isoformat (cc_window_start r)))"

definition weekly_trigger :: "uuid \<Rightarrow> time \<Rightarrow> string \<Rightarrow> stored_trigger" where
  "weekly_trigger shop_id next_fire_at key = \<lparr>st_shop_id = shop_id, st_trigger_kind = WEEKLY_REVIEW,
     st_trigger_key = key, st_cron_expression = ''0 9 * * 1'', st_next_fire_at = next_fire_at, st_active = True\<rparr>"

definition persist_record :: "uuid \<Rightarrow> time \<Rightarrow> collection_record \<Rightarrow>
    stored_trigger list \<times> trigger_ledger \<Rightarrow> error + (stored_trigger list \<times> trigger_ledger)" where
  "persist_record shop_id next_fire_at r acc = (case acc of (inserted, ledger) \<Rightarrow>
     bindE (weekly_key shop_id r) (\<lambda>key.
     case ledger_insert (weekly_trigger shop_id next_fire_at key) ledger of
       (None, ledger) \<Rightarrow> Inr (inserted, ledger)
     | (Some row, ledger) \<Rightarrow> Inr (inserted @ [row], ledger)))"

definition persist_weekly_plan ::
  "trigger_ledger \<Rightarrow> uuid \<Rightarrow> weekly_plan \<Rightarrow> time \<Rightarrow> error + (stored_trigger list \<times> trigger_ledger)" where
  "persist_weekly_plan ledger shop_id plan next_fire_at =
     foldE (persist_record shop_id next_fire_at) (wp_records plan) ([], ledger)"

definition persist_monthly_record ::
  "trigger_ledger \<Rightarrow> monthly_record option \<Rightarrow> error + (stored_trigger option \<times> trigger_ledger)" where
  "persist_monthly_record ledger rec = (case rec of None \<Rightarrow> Inr (None, ledger) | Some r \<Rightarrow>
     (case mo_jobs r of [] \<Rightarrow> Inl (ValueError ''monthly_jobs'') | job # _ \<Rightarrow>
       let shop_id = pj_shop_id job in
       bindE (guardE (\<not> list_ex (\<lambda>j. pj_shop_id j \<noteq> shop_id) (mo_jobs r)) (ValueError ''monthly_shop'')) (\<lambda>_.
       Inr (ledger_insert \<lparr>st_shop_id = shop_id, st_trigger_kind = MONTHLY_DEEP_PASS,
         st_trigger_key = ''monthly:'' @ str_uuid shop_id @ '':'' @ isoformat (mo_window_start r),
         st_cron_expression = ''0 9 1 * *'', st_next_fire_at = mo_window_end r, st_active = True\<rparr> ledger))))"

subsection \<open>Confirming a cull\<close>

datatype fixture_status = F_CONFIRMED | F_UNKNOWN | F_FAILED

record lesson_row =
  ls_listing_id :: uuid
  ls_deactivation_job_id :: uuid
  ls_lesson :: string
  ls_retained :: bool

record cull_confirmation =
  cf_event_names :: "event_name list"
  cf_lesson :: "lesson_row option"
  cf_retained_artifact_ids :: "uuid list"
  cf_deactivation_executed :: bool

definition no_cull :: cull_confirmation where
  "no_cull = \<lparr>cf_event_names = [], cf_lesson = None, cf_retained_artifact_ids = [], cf_deactivation_executed = False\<rparr>"

definition confirm_fixture_cull ::
  "portfolio_result \<Rightarrow> fixture_status \<Rightarrow> string \<Rightarrow> uuid list \<Rightarrow> error + cull_confirmation" where
  "confirm_fixture_cull result status lesson artifact_ids =
     bindE (guardE (EV_LISTING_CULLED \<notin> set (pf_event_names result)) (ValueError ''listing_culled'')) (\<lambda>_.
     if pf_decision result \<noteq> CULL then Inr no_cull
     else case pf_deactivation_job_id result of None \<Rightarrow> Inl (ValueError ''deactivation_job'') | Some job \<Rightarrow>
       if status \<noteq> F_CONFIRMED then Inr no_cull
       else bindE (guardE (py_strip lesson \<noteq> []) (ValueError ''lesson'')) (\<lambda>_.
         Inr \<lparr>cf_event_names = [EV_LISTING_CULLED], cf_lesson = Some \<lparr>ls_listing_id = pf_listing_id result,
           ls_deactivation_job_id = job, ls_lesson = py_strip lesson, ls_retained = True\<rparr>,
           cf_retained_artifact_ids = artifact_ids, cf_deactivation_executed = False\<rparr>))"

subsection \<open>Snapshots\<close>

lemma bindE_InrE: "bindE m f = Inr y \<Longrightarrow> (\<And>x. m = Inr x \<Longrightarrow> f x = Inr y \<Longrightarrow> thesis) \<Longrightarrow> thesis"
  by (auto simp: bindE_eq_Inr)

lemma load_row_eq:
  "load_row row (seen, loaded) = Inr r \<longleftrightarrow> (\<exists>ob. observation_of row = Inr ob \<and> window_key ob \<notin> seen \<and>
     r = (insert (window_key ob) seen, loaded @ [ob]))"
  by (auto simp: load_row_def bindE_eq_Inr)

lemma snapshot_of_valid: "snapshot_of get e = Inr s \<Longrightarrow> validate_metrics_snapshot s = Inr s"
proof -
  have v: "validate_metrics_snapshot x = Inr y \<Longrightarrow> validate_metrics_snapshot y = Inr y" for x y
    by (auto simp: validate_metrics_snapshot_def bindE_eq_Inr)
  assume "snapshot_of get e = Inr s"
  then show ?thesis unfolding snapshot_of_def by (elim bindE_InrE) (rule v)
qed

lemma observation_ok:
  assumes "observation_of row = Inr ob"
  shows "fo_window_start ob < fo_window_end ob \<and>
    validate_metrics_snapshot (fo_snapshot ob) = Inr (fo_snapshot ob)"
proof -
  obtain ws we start stop e snap where "require_window ws we = Inr (start, stop)"
    "snapshot_of (map_of row) e = Inr snap"
    "ob = \<lparr>fo_window_start = start, fo_window_end = stop, fo_snapshot = snap\<rparr>"
    using assms unfolding observation_of_def Let_def by (fastforce elim!: bindE_InrE)
  then show ?thesis using snapshot_of_valid by (auto simp: require_window_def bindE_eq_Inr)
qed

lemma load_rows:
  assumes "foldE load_row rows (seen, loaded) = Inr (seen', loaded')"
  shows "\<exists>new. loaded' = loaded @ new \<and> list_all2 (\<lambda>row ob. observation_of row = Inr ob) rows new \<and>
    distinct (map window_key new) \<and> window_key ` set new \<inter> seen = {}"
  using assms
proof (induction rows arbitrary: seen loaded)
  case Nil
  then show ?case by simp
next
  case (Cons row rows)
  then obtain ob where ob: "observation_of row = Inr ob" "window_key ob \<notin> seen"
    and f: "foldE load_row rows (insert (window_key ob) seen, loaded @ [ob]) = Inr (seen', loaded')"
    by (auto simp: bindE_eq_Inr load_row_eq)
  obtain new where n: "loaded' = (loaded @ [ob]) @ new" "list_all2 (\<lambda>row ob. observation_of row = Inr ob) rows new"
    "distinct (map window_key new)" "window_key ` set new \<inter> insert (window_key ob) seen = {}"
    using Cons.IH [OF f] by blast
  then show ?case using ob by (intro exI [of _ "ob # new"]) auto
qed

text \<open>
  Loading a fixture keeps every row as one valid snapshot, in order, and never two for the same
  listing version and window; the totals of the loaded weeks are never negative.
\<close>

theorem fixture_rows_become_snapshots:
  assumes "snapshots_from_fixture rows = Inr obs"
  shows "list_all2 (\<lambda>row ob. observation_of row = Inr ob) rows obs \<and> distinct (map window_key obs) \<and>
    (\<forall>ob \<in> set obs. fo_window_start ob < fo_window_end ob \<and>
      validate_metrics_snapshot (fo_snapshot ob) = Inr (fo_snapshot ob)) \<and>
    0 \<le> ct_views (cumulative_totals_of (map fo_snapshot obs)) \<and>
    0 \<le> ct_orders (cumulative_totals_of (map fo_snapshot obs))"
proof -
  have l: "list_all2 (\<lambda>row ob. observation_of row = Inr ob) rows obs" "distinct (map window_key obs)"
    using assms load_rows [of rows "{}" "[]"] by (auto simp: snapshots_from_fixture_def resolve)
  have all: "\<forall>ob \<in> set obs. fo_window_start ob < fo_window_end ob \<and>
      validate_metrics_snapshot (fo_snapshot ob) = Inr (fo_snapshot ob)"
  proof
    fix ob assume "ob \<in> set obs"
    then obtain i where "i < length obs" "ob = obs ! i" by (auto simp: in_set_conv_nth)
    then have "observation_of (rows ! i) = Inr ob" using list_all2_nthD2 [OF l(1)] by simp
    then show "fo_window_start ob < fo_window_end ob \<and>
      validate_metrics_snapshot (fo_snapshot ob) = Inr (fo_snapshot ob)" by (rule observation_ok)
  qed
  then have "\<forall>ob \<in> set obs. 0 \<le> ms_views (fo_snapshot ob) \<and> 0 \<le> ms_orders (fo_snapshot ob)"
    by (auto simp: validate_metrics_snapshot_def resolve)
  then have "0 \<le> ct_views (cumulative_totals_of (map fo_snapshot obs))"
    "0 \<le> ct_orders (cumulative_totals_of (map fo_snapshot obs))"
    by (auto simp: cumulative_totals_of_def intro!: sum_list_nonneg)
  then show ?thesis using l all by blast
qed

subsection \<open>Triggers are stored once\<close>

text \<open>Inserting a row is a first write of its key.\<close>

lemma ledger_insert_cases:
  assumes "dict_ok ledger" and "ledger_insert row ledger = (r, ledger')"
  shows "dict_ok ledger'"
    "map_of ledger' = (case map_of ledger (st_trigger_key row) of Some _ \<Rightarrow> map_of ledger
       | None \<Rightarrow> (map_of ledger)(st_trigger_key row \<mapsto> row))"
    "r = (case map_of ledger (st_trigger_key row) of Some _ \<Rightarrow> None | None \<Rightarrow> Some row)"
    "r = None \<Longrightarrow> ledger' = ledger"
  using assms dict.ok_store [of ledger "st_trigger_key row" row] dict.lookup_store [of ledger "st_trigger_key row" row]
  by (auto simp: ledger_insert_def fun_eq_iff split: option.splits)

definition stored_row :: "uuid \<Rightarrow> time \<Rightarrow> trigger_ledger \<Rightarrow> string list \<Rightarrow> string \<Rightarrow> stored_trigger option" where
  "stored_row shop t ledger new k = (case map_of ledger k of Some v \<Rightarrow> Some v
     | None \<Rightarrow> if k \<in> set new then Some (weekly_trigger shop t k) else None)"

lemma persist_fold:
  assumes "dict_ok ledger" and "\<forall>r \<in> set rs. weekly_key shop r = Inr (key r)"
  shows "\<exists>new ledger'. foldE (persist_record shop t) rs (ins, ledger) =
      Inr (ins @ map (weekly_trigger shop t) new, ledger') \<and> dict_ok ledger' \<and> distinct new \<and>
    set new = key ` set rs - dom (map_of ledger) \<and> map_of ledger' = stored_row shop t ledger new"
  using assms
proof (induction rs arbitrary: ins ledger)
  case Nil
  then show ?case by (auto simp: stored_row_def fun_eq_iff split: option.splits)
next
  case (Cons r rs)
  obtain o' ledger1 where i: "ledger_insert (weekly_trigger shop t (key r)) ledger = (o', ledger1)" by force
  note c = ledger_insert_cases [OF Cons.prems(1) i]
  have k: "st_trigger_key (weekly_trigger shop t x) = x" for x by (simp add: weekly_trigger_def)
  have p: "persist_record shop t r (ins, ledger) =
      Inr (ins @ (case o' of None \<Rightarrow> [] | Some row \<Rightarrow> [row]), ledger1)"
    using Cons.prems(2) i by (auto simp: persist_record_def split: option.splits)
  obtain new ledger2 where n: "foldE (persist_record shop t) rs (ins @ (case o' of None \<Rightarrow> [] | Some row \<Rightarrow> [row]), ledger1) =
      Inr ((ins @ (case o' of None \<Rightarrow> [] | Some row \<Rightarrow> [row])) @ map (weekly_trigger shop t) new, ledger2)"
    "dict_ok ledger2" "distinct new" "set new = key ` set rs - dom (map_of ledger1)"
    "map_of ledger2 = stored_row shop t ledger1 new"
    using Cons.IH [OF c(1)] Cons.prems(2) by (metis list.set_intros(2))
  show ?case
  proof (cases "map_of ledger (key r)")
    case (Some v)
    then have "o' = None" "ledger1 = ledger" using c(3,4) k by auto
    then show ?thesis using n p Some by (intro exI [of _ new] exI [of _ ledger2]) auto
  next
    case None
    then have o: "o' = Some (weekly_trigger shop t (key r))"
      and m: "map_of ledger1 = (map_of ledger)(key r \<mapsto> weekly_trigger shop t (key r))" using c(2,3) k by auto
    have "map_of ledger2 = stored_row shop t ledger (key r # new)"
      unfolding n(5) by (auto simp: stored_row_def m None fun_eq_iff split: option.splits)
    moreover have "set (key r # new) = key ` set (r # rs) - dom (map_of ledger)" "distinct (key r # new)"
      using n(3,4) None m by auto
    ultimately show ?thesis using n(1,2) p o by (intro exI [of _ "key r # new"] exI [of _ ledger2]) simp
  qed
qed

lemma persist_known:
  assumes "\<forall>r \<in> set rs. weekly_key shop r = Inr (key r) \<and> key r \<in> dom (map_of ledger)"
  shows "foldE (persist_record shop t) rs (ins, ledger) = Inr (ins, ledger)"
  using assms
  by (induction rs) (auto simp: persist_record_def ledger_insert_def weekly_trigger_def)

definition key_of :: "uuid \<Rightarrow> time \<Rightarrow> uuid option \<Rightarrow> string" where
  "key_of shop start l = (case l of
     None \<Rightarrow> ''weekly:'' @ str_uuid shop @ '':shop-review:'' @ isoformat start
   | Some l \<Rightarrow> ''weekly:'' @ str_uuid shop @ '':collection:'' @ str_uuid l @ '':'' @ isoformat start)"

lemma key_of_inj: "inj (key_of shop start)"
proof (rule injI)
  fix a b
  assume e: "key_of shop start a = key_of shop start b"
  show "a = b"
  proof (cases a; cases b)
    fix x y assume "a = Some x" "b = Some y"
    then have "str_uuid x @ '':'' @ isoformat start = str_uuid y @ '':'' @ isoformat start"
      using e by (simp add: key_of_def)
    then have "str_uuid x = str_uuid y" by simp
    then show ?thesis using str_uuid_inj \<open>a = Some x\<close> \<open>b = Some y\<close> by blast
  qed (use e in \<open>auto simp: key_of_def\<close>)
qed

text \<open>
  Planning a fresh week and storing the plan always succeeds, adds exactly one trigger per active
  listing id and one for the shop review to what the ledger has, and changes no stored row.
  Storing the plan again, even with another fire time, and planning the same window again add
  nothing.
\<close>

theorem weekly_plan_is_stored_once:
  assumes "dict_ok ledger" and "start < stop"
    and "\<forall>r \<in> set existing. cc_window_start r \<noteq> start \<or> cc_window_end r \<noteq> stop"
  shows "\<exists>plan inserted ledger'. plan_weekly listings start stop prior existing = Inr plan \<and>
    persist_weekly_plan ledger shop plan fire = Inr (inserted, ledger') \<and>
    distinct (map st_trigger_key inserted) \<and>
    st_trigger_key ` set inserted =
      key_of shop start ` insert None (Some ` al_listing_id ` {l \<in> set listings. al_active l}) - dom (map_of ledger) \<and>
    (ledger = [] \<longrightarrow> length inserted = card (al_listing_id ` {l \<in> set listings. al_active l}) + 1) \<and>
    (\<forall>k row. map_of ledger k = Some row \<longrightarrow> map_of ledger' k = Some row) \<and>
    persist_weekly_plan ledger' shop plan fire' = Inr ([], ledger') \<and>
    plan_weekly listings start stop prior (existing @ wp_records plan) = Inr \<lparr>wp_records = [], wp_prior_snapshots = prior\<rparr>"
proof -
  define col where "col = (\<lambda>l :: active_listing. \<lparr>cc_kind = R_collection, cc_window_start = start, cc_window_end = stop,
    cc_listing_id = Some (al_listing_id l), cc_listing_version = Some (al_listing_version l)\<rparr>)"
  define rev' :: collection_record where "rev' = \<lparr>cc_kind = R_shop_review, cc_window_start = start, cc_window_end = stop,
    cc_listing_id = None, cc_listing_version = None\<rparr>"
  define rs where "rs = map col (filter al_active listings) @ [rev']"
  let ?ids = "al_listing_id ` {l \<in> set listings. al_active l}"
  let ?plan = "\<lparr>wp_records = rs, wp_prior_snapshots = prior\<rparr>"
  have plan: "plan_weekly listings start stop prior existing = Inr ?plan"
    using assms(2,3) by (auto simp: plan_weekly_def require_window_def rs_def col_def rev'_def list_ex_iff)
  have keys: "\<forall>r \<in> set rs. weekly_key shop r = Inr (key_of shop start (cc_listing_id r))"
    by (auto simp: rs_def col_def rev'_def weekly_key_def key_of_def)
  have ids: "(\<lambda>r. key_of shop start (cc_listing_id r)) ` set rs = key_of shop start ` insert None (Some ` ?ids)"
    by (auto simp: rs_def col_def rev'_def image_iff)
  obtain new ledger' where p: "foldE (persist_record shop fire) rs ([], ledger) =
      Inr (map (weekly_trigger shop fire) new, ledger')" "distinct new"
    "set new = key_of shop start ` insert None (Some ` ?ids) - dom (map_of ledger)"
    "map_of ledger' = stored_row shop fire ledger new"
    using persist_fold [OF assms(1) keys, of fire "[]"] unfolding ids by auto
  have tk: "map st_trigger_key (map (weekly_trigger shop fire) new) = new"
    by (simp add: comp_def weekly_trigger_def)
  have dom': "key_of shop start ` insert None (Some ` ?ids) \<subseteq> dom (map_of ledger')"
    using p(3) by (auto simp: p(4) stored_row_def dom_def split: option.splits)
  have again: "foldE (persist_record shop fire') rs ([], ledger') = Inr ([], ledger')"
  proof (rule persist_known [where key = "\<lambda>r. key_of shop start (cc_listing_id r)"], intro ballI conjI)
    fix r assume r: "r \<in> set rs"
    then show "weekly_key shop r = Inr (key_of shop start (cc_listing_id r))" using keys by blast
    have "key_of shop start (cc_listing_id r) \<in> key_of shop start ` insert None (Some ` ?ids)"
      unfolding ids [symmetric] using r by (rule imageI)
    then show "key_of shop start (cc_listing_id r) \<in> dom (map_of ledger')" using dom' by (rule subsetD [rotated])
  qed
  have replan: "plan_weekly listings start stop prior (existing @ rs) = Inr \<lparr>wp_records = [], wp_prior_snapshots = prior\<rparr>"
    using assms(2) by (simp add: plan_weekly_def require_window_def rs_def rev'_def)
  have len: "length new = card ?ids + 1" if "ledger = []"
  proof -
    have "length new = card (key_of shop start ` insert None (Some ` ?ids))"
      using p(2,3) that by (simp add: distinct_card [symmetric])
    also have "\<dots> = card (insert None (Some ` ?ids))" by (rule card_image) (rule inj_on_subset [OF key_of_inj], simp)
    also have "\<dots> = card ?ids + 1" by (simp add: card_image)
    finally show ?thesis .
  qed
  have keep: "\<forall>k row. map_of ledger k = Some row \<longrightarrow> map_of ledger' k = Some row"
    by (simp add: p(4) stored_row_def)
  have sk: "st_trigger_key ` set (map (weekly_trigger shop fire) new) = set new"
    using arg_cong [OF tk, of set] by (simp only: set_map)
  show ?thesis
    using plan p(1,2) tk sk p(3) len keep again replan
    by (intro exI [of _ ?plan] exI [of _ "map (weekly_trigger shop fire) new"] exI [of _ ledger'])
      (simp add: persist_weekly_plan_def)
qed

theorem weekly_plan_is_stored_once_witness:
  "\<exists>plan inserted ledger'. plan_weekly [\<lparr>al_listing_id = 1, al_listing_version = 1, al_active = True\<rparr>,
      \<lparr>al_listing_id = 1, al_listing_version = 2, al_active = True\<rparr>] 0 7 [] [] = Inr plan \<and>
    length (wp_records plan) = 3 \<and>
    persist_weekly_plan [] 5 plan 9 = Inr (inserted, ledger') \<and> length inserted = 2 \<and>
    persist_weekly_plan ledger' 5 plan 10 = Inr ([], ledger')"
proof -
  let ?ls = "[\<lparr>al_listing_id = 1, al_listing_version = 1, al_active = True\<rparr>,
      \<lparr>al_listing_id = 1, al_listing_version = 2, al_active = True\<rparr>]"
  obtain plan inserted ledger' where p: "plan_weekly ?ls 0 7 [] [] = Inr plan"
    "persist_weekly_plan [] 5 plan 9 = Inr (inserted, ledger')"
    "([] :: trigger_ledger) = [] \<longrightarrow> length inserted = card (al_listing_id ` {l \<in> set ?ls. al_active l}) + 1"
    "persist_weekly_plan ledger' 5 plan 10 = Inr ([], ledger')"
    using weekly_plan_is_stored_once [of "[]" 0 7 "[]" ?ls "[]" 5 9 10] by (auto simp: dict_ok_def)
  have "{l \<in> set ?ls. al_active l} = set ?ls" by auto
  then have "al_listing_id ` {l \<in> set ?ls. al_active l} = {1}" by simp
  then have "length inserted = 2" using p(3) by simp
  moreover have "length (wp_records (projr (plan_weekly ?ls 0 7 [] []))) = 3" by code_simp
  ultimately show ?thesis using p by auto
qed

subsection \<open>A cull is confirmed only by the fixture\<close>

text \<open>
  On the results of a portfolio evaluation the confirmation never refuses except for a blank
  lesson of a confirmed cull, and it announces a culled listing exactly for a cull decision that
  the fixture confirmed, with the lesson kept and nothing executed.
\<close>

theorem culls_are_announced_after_confirmation:
  assumes "distinct (map lc_listing_id listings)" and "py_int text = Inr percent" and "percent \<le> 100"
    and "time_ok t" and "priors_ok priors"
    and "evaluate_portfolio uuid5 listings t priors text = Inr results" and "r \<in> set results"
    and "py_strip lesson \<noteq> []"
  shows "\<exists>c. confirm_fixture_cull r status lesson artifacts = Inr c \<and> \<not> cf_deactivation_executed c \<and>
    (EV_LISTING_CULLED \<in> set (cf_event_names c) \<longleftrightarrow> pf_decision r = CULL \<and> status = F_CONFIRMED) \<and>
    (cf_lesson c \<noteq> None \<longleftrightarrow> pf_decision r = CULL \<and> status = F_CONFIRMED)"
proof -
  have "results = concat (map (decided uuid5 percent listings t priors) listings)"
    using assms(6) evaluate_portfolio_eq [OF assms(1-5), of uuid5] by simp
  then obtain l where "r \<in> set (decided uuid5 percent listings t priors l)" using assms(7) by auto
  then obtain d where "r = projr (build_result uuid5 l (the (lc_snapshot l)) d t)"
    by (auto simp: decided_def split: option.splits if_splits)
  then have o: "result_of uuid5 l d r" using build_result_of [OF assms(4)] by simp
  then have e: "EV_LISTING_CULLED \<notin> set (pf_event_names r)" "pf_decision r = d"
    "d = CULL \<Longrightarrow> \<exists>job. pf_deactivation_job_id r = Some job"
    by (auto simp: result_of_def counts_as_cull_def split: decision_type.splits)
  show ?thesis
  proof (cases "d = CULL")
    case True
    then show ?thesis using e assms(8) by (auto simp: confirm_fixture_cull_def no_cull_def)
  next
    case False
    then show ?thesis using e by (auto simp: confirm_fixture_cull_def no_cull_def)
  qed
qed

theorem culls_are_announced_after_confirmation_witness:
  "\<exists>results. evaluate_portfolio (\<lambda>_. 7) example_listings (example_day 0) [] ''80'' = Inr results \<and>
     (\<exists>c. confirm_fixture_cull (hd results) F_CONFIRMED ''priced too high'' [] = Inr c \<and>
        EV_LISTING_CULLED \<in> set (cf_event_names c))"
proof -
  obtain results where r: "evaluate_portfolio (\<lambda>_. 7) example_listings (example_day 0) [] ''80'' = Inr results"
    using evaluate_portfolio_eq [OF example_evaluation(1,2) _ example_evaluation(3,5), of "\<lambda>_. 7"] by auto
  have "map pf_decision (projr (evaluate_portfolio (\<lambda>_. 7) example_listings (example_day 0) [] ''80'')) =
      [CULL, CULL, CULL, HOLD, MULTIPLY]" by code_simp
  then have d: "map pf_decision results = [CULL, CULL, CULL, HOLD, MULTIPLY]" using r by simp
  then have h: "hd results \<in> set results" "pf_decision (hd results) = CULL" by (cases results; simp)+
  have l: "py_strip ''priced too high'' \<noteq> []" by code_simp
  show ?thesis
    using culls_are_announced_after_confirmation [OF example_evaluation(1,2) _ example_evaluation(3,5) r h(1) l, of F_CONFIRMED "[]"]
      r h(2) by auto
qed

end
