(* ===== verification/Support_Intake.thy ===== *)
theory Support_Intake
  imports Maturity Contracts Config Ledgers
begin

section \<open>Support intake\<close>

text \<open>
  \<^verbatim>\<open>assets/support_intake.py\<close>: opening an incident, keeping one repair version per key, closing after a
  fresh read and drafting a reply. The two indexes of the ledger are dicts, so they interpret
  \<open>keyed_ledger\<close>. Text is ASCII, on which \<^verbatim>\<open>casefold\<close> is \<open>lower_str\<close>; instants are UTC; \<^verbatim>\<open>uuid5\<close> is an
  argument and a refusal is \<open>ValueError\<close> with its code.
\<close>

subsection \<open>Data\<close>

datatype intake_status = S_OPEN | S_BLOCKED | S_RESOLVED
datatype reply_mode = draft | auto

record plan_step =
  pn_job_type :: string
  pn_day_offset :: int
  pn_inserted :: bool

record intake_record =
  in_id :: uuid
  in_shop_id :: uuid
  in_buyer_reference :: string
  in_listing_id :: "uuid option"
  in_product_id :: uuid
  in_variant_id :: "uuid option"
  in_issue_code :: string
  in_type :: incident_type
  in_safe_summary :: string
  in_attachment_sha256 :: string
  in_attachment_content_type :: string
  in_received_at :: time
  in_urgency :: string
  in_intake_status :: intake_status
  in_plan :: "plan_step list"
  in_preempts_routine :: bool
  in_cited_product_id :: "uuid option"
  in_new_product_ids :: "uuid list"
  in_resume_job_id :: "uuid option"
  in_resume_phase :: "int option"
  in_notice_sha256 :: "string option"
  in_reactivation_executed :: bool
  in_send_count :: int
  in_provider_writes :: int
  in_jobs_inserted :: int

record repair_version =
  rv_version_id :: uuid
  rv_incident_id :: uuid
  rv_idempotency_key :: string
  rv_artifact_hash :: string

record resolution =
  rz_status :: intake_status
  rz_repair_job_id :: uuid
  rz_verification_job_id :: "uuid option"
  rz_resolution_reference :: "string option"
  rz_resolved_at :: "time option"
  rz_send_count :: int

record verification_read =
  vr_repair_job_id :: uuid
  vr_verification_job_id :: uuid
  vr_repaired_hash :: string
  vr_fresh_hash :: string
  vr_repaired_at :: time
  vr_read_at :: time
  vr_fix :: string
  vr_access_path :: string

record support_reply =
  sy_body :: "string option"
  sy_send_count :: int

record issue_spec =
  is_incident_type :: incident_type
  is_plan :: "plan_step list"
  is_preempts_routine :: bool
  is_status :: intake_status

definition plan_step_of :: "string \<Rightarrow> int \<Rightarrow> plan_step" where
  "plan_step_of job_type day_offset = \<lparr>pn_job_type = job_type, pn_day_offset = day_offset, pn_inserted = False\<rparr>"

definition spec_of :: "incident_type \<Rightarrow> (string \<times> int) list \<Rightarrow> bool \<Rightarrow> intake_status \<Rightarrow> issue_spec" where
  "spec_of t steps preempts status = \<lparr>is_incident_type = t, is_plan = map (\<lambda>(j, d). plan_step_of j d) steps,
     is_preempts_routine = preempts, is_status = status\<rparr>"

definition SPECS :: "(string \<times> issue_spec) list" where
  "SPECS =
     [(''BROKEN_DELIVERY_LINK'', spec_of I_BROKEN_LINK
         [(''IncidentRepairJob'', 0), (''NotionRepairJob'', 0), (''LinkVerificationJob'', 0)] True S_OPEN),
      (''NOTION_PAGE_UNPUBLISHED'', spec_of I_BUILD_DEFECT [(''IncidentRepairJob'', 0), (''NotionRepairJob'', 0)] True S_OPEN),
      (''WRONG_VARIANT_LINK'', spec_of I_LISTING_DEFECT [(''IncidentRepairJob'', 0), (''ListingRepairJob'', 0)] True S_OPEN),
      (''NO_ACCESS_BLOCK'', spec_of I_BROKEN_LINK [(''IncidentRepairJob'', 0), (''NotionRepairJob'', 0)] True S_OPEN),
      (''LINKED_VIEW_BROKEN'', spec_of I_BUILD_DEFECT [(''IncidentRepairJob'', 0), (''NotionRepairJob'', 0)] True S_OPEN),
      (''FORMULA_ERROR'', spec_of I_BUILD_DEFECT [(''IncidentRepairJob'', 0), (''NotionRepairJob'', 0)] True S_OPEN),
      (''DOWNLOAD_FILE_MISSING'', spec_of I_LISTING_DEFECT [(''IncidentRepairJob'', 0), (''ListingRepairJob'', 0)] True S_OPEN),
      (''LISTING_DEACTIVATED'', spec_of I_LISTING_DEFECT [(''ListingRepairJob'', 0)] False S_OPEN),
      (''ACCOUNT_VERIFICATION'', spec_of I_CREDENTIAL_FAILURE [] False S_BLOCKED),
      (''DEDUPE_REJECTION'', spec_of I_CUSTOMER_ISSUE [(''ReconceptProductJob'', 0)] False S_OPEN),
      (''AGENT_RUN_INTERRUPTED'', spec_of I_TERMINAL_JOB_FAILURE [(''IncidentRepairJob'', 0)] False S_OPEN),
      (''NO_SALES_DIAGNOSIS'', spec_of I_LISTING_DEFECT [(''ListingRepairJob'', 0), (''ResearchCollectionJob'', 14)] False S_OPEN),
      (''OTHER_PRODUCT_DEFECT'', spec_of I_BUILD_DEFECT [(''IncidentRepairJob'', 0)] False S_OPEN)]"

type_synonym issue_key = "uuid \<times> string \<times> time"

record intake_ledger =
  lg_issues :: "(issue_key \<times> intake_record) list"
  lg_repairs :: "((uuid \<times> string) \<times> repair_version) list"
  lg_sends :: int

subsection \<open>Operations\<close>

definition get_issue :: "intake_ledger \<Rightarrow> issue_key \<Rightarrow> intake_record option" where
  "get_issue l key = map_of (lg_issues l) key"

definition put_issue :: "issue_key \<Rightarrow> intake_record \<Rightarrow> intake_ledger \<Rightarrow> intake_ledger" where
  "put_issue key r l = l\<lparr>lg_issues := AList.update key r (lg_issues l)\<rparr>"

definition get_repair :: "intake_ledger \<Rightarrow> uuid \<times> string \<Rightarrow> repair_version option" where
  "get_repair l key = map_of (lg_repairs l) key"

definition put_repair :: "uuid \<times> string \<Rightarrow> repair_version \<Rightarrow> intake_ledger \<Rightarrow> intake_ledger" where
  "put_repair key v l = l\<lparr>lg_repairs := AList.update key v (lg_repairs l)\<rparr>"

definition repair_count :: "intake_ledger \<Rightarrow> uuid \<Rightarrow> nat" where
  "repair_count l incident_id = length (filter (\<lambda>((i, _), _). i = incident_id) (lg_repairs l))"

definition SECRET_MARKS :: "string list" where
  "SECRET_MARKS = [''@'', ''://'', ''bearer'', ''sk_'']"

definition marked :: "string \<Rightarrow> bool" where
  "marked text \<longleftrightarrow> list_ex (\<lambda>mark. contains_str mark (lower_str text)) SECRET_MARKS"

definition clean_reference :: "string \<Rightarrow> string \<Rightarrow> error + string" where
  "clean_reference value code = (let text = py_strip value in
     bindE (guardE (\<not> (text = [] \<or> marked text)) (ValueError code)) (\<lambda>_. Inr text))"

definition require_sha256 :: "string \<Rightarrow> string \<Rightarrow> error + string" where
  "require_sha256 value code = bindE (guardE (sha256_hex value) (ValueError code)) (\<lambda>_. Inr value)"

record issue_report =
  ip_shop_id :: uuid
  ip_buyer_reference :: string
  ip_listing_id :: "uuid option"
  ip_product_id :: uuid
  ip_variant_id :: "uuid option"
  ip_issue_code :: string
  ip_safe_summary :: string
  ip_attachment_sha256 :: string
  ip_attachment_content_type :: string
  ip_received_at :: time
  ip_urgency :: string
  ip_notice_sha256 :: "string option"
  ip_resume_job_id :: "uuid option"
  ip_resume_phase :: "int option"
  ip_caller_priority :: "int option"

text \<open>The checks of \<^verbatim>\<open>open_issue\<close>, and the record they lead to.\<close>

definition notice_of :: "issue_report \<Rightarrow> error + string option" where
  "notice_of p = (if ip_issue_code p = ''LISTING_DEACTIVATED''
     then (case ip_notice_sha256 p of None \<Rightarrow> Inl (ValueError ''notice'')
       | Some n \<Rightarrow> bindE (require_sha256 n ''notice'') (\<lambda>n. Inr (Some n)))
     else Inr None)"

definition resume_of :: "issue_report \<Rightarrow> error + (uuid option \<times> int option)" where
  "resume_of p = (if ip_issue_code p = ''AGENT_RUN_INTERRUPTED''
     then (case (ip_resume_job_id p, ip_resume_phase p) of
         (Some job, Some phase) \<Rightarrow> bindE (guardE (\<not> phase < 1) (ValueError ''resume_phase'')) (\<lambda>_. Inr (Some job, Some phase))
       | _ \<Rightarrow> Inl (ValueError ''resume_phase''))
     else Inr (None, None))"

definition intake_of :: "(string \<Rightarrow> uuid) \<Rightarrow> issue_report \<Rightarrow> error + intake_record" where
  "intake_of uuid5 p =
     bindE (clean_reference (ip_buyer_reference p) ''buyer_reference'') (\<lambda>reference.
     bindE (clean_reference (ip_safe_summary p) ''unsafe_summary'') (\<lambda>summary.
     bindE (require_sha256 (ip_attachment_sha256 p) ''attachment_sha256'') (\<lambda>digest.
     bindE (clean_reference (ip_attachment_content_type p) ''content_type'') (\<lambda>content_type.
     bindE (guardE (ip_urgency p \<in> {''low'', ''normal'', ''high''}) (ValueError ''urgency'')) (\<lambda>_.
     case map_of SPECS (ip_issue_code p) of None \<Rightarrow> Inl (ValueError ''issue_code'') | Some spec \<Rightarrow>
     bindE (notice_of p) (\<lambda>notice. bindE (resume_of p) (\<lambda>(resumed, phase).
     Inr \<lparr>in_id = uuid5 (str_uuid (ip_shop_id p) @ '':'' @ reference @ '':'' @ isoformat (ip_received_at p)),
       in_shop_id = ip_shop_id p, in_buyer_reference = reference, in_listing_id = ip_listing_id p,
       in_product_id = ip_product_id p, in_variant_id = ip_variant_id p, in_issue_code = ip_issue_code p,
       in_type = is_incident_type spec, in_safe_summary = summary, in_attachment_sha256 = digest,
       in_attachment_content_type = content_type, in_received_at = ip_received_at p,
       in_urgency = ip_urgency p, in_intake_status = is_status spec, in_plan = is_plan spec,
       in_preempts_routine = is_preempts_routine spec,
       in_cited_product_id = (if ip_issue_code p = ''DEDUPE_REJECTION'' then Some (ip_product_id p) else None),
       in_new_product_ids = [], in_resume_job_id = resumed, in_resume_phase = phase, in_notice_sha256 = notice,
       in_reactivation_executed = False, in_send_count = 0, in_provider_writes = 0, in_jobs_inserted = 0\<rparr>)))))))"

definition open_issue :: "(string \<Rightarrow> uuid) \<Rightarrow> issue_report \<Rightarrow> intake_ledger \<Rightarrow> error + (intake_record \<times> intake_ledger)" where
  "open_issue uuid5 p l = bindE (intake_of uuid5 p) (\<lambda>r.
     let key = (ip_shop_id p, in_buyer_reference r, ip_received_at p) in
     case get_issue l key of Some existing \<Rightarrow> Inr (existing, l) | None \<Rightarrow> Inr (r, put_issue key r l))"

definition record_repair :: "(string \<Rightarrow> uuid) \<Rightarrow> uuid \<Rightarrow> string \<Rightarrow> string \<Rightarrow> intake_ledger \<Rightarrow>
    error + (repair_version \<times> intake_ledger)" where
  "record_repair uuid5 incident_id idempotency_key artifact_hash l =
     (let key_text = py_strip idempotency_key in
      bindE (guardE (key_text \<noteq> []) (ValueError ''idempotency_key'')) (\<lambda>_.
      bindE (require_sha256 artifact_hash ''artifact_hash'') (\<lambda>digest.
      case get_repair l (incident_id, key_text) of Some existing \<Rightarrow> Inr (existing, l) | None \<Rightarrow>
        let version = \<lparr>rv_version_id = uuid5 (str_uuid incident_id @ '':'' @ key_text @ '':'' @ digest),
          rv_incident_id = incident_id, rv_idempotency_key = key_text, rv_artifact_hash = digest\<rparr>
        in Inr (version, put_repair (incident_id, key_text) version l))))"

definition verified :: "verification_read \<Rightarrow> bool" where
  "verified r \<longleftrightarrow> vr_verification_job_id r \<noteq> vr_repair_job_id r \<and> vr_fresh_hash r = vr_repaired_hash r \<and>
     vr_repaired_at r < vr_read_at r"

definition resolve_issue :: "verification_read \<Rightarrow> resolution" where
  "resolve_issue r = (if \<not> verified r
     then \<lparr>rz_status = S_OPEN, rz_repair_job_id = vr_repair_job_id r, rz_verification_job_id = None,
       rz_resolution_reference = None, rz_resolved_at = None, rz_send_count = 0\<rparr>
     else \<lparr>rz_status = S_RESOLVED, rz_repair_job_id = vr_repair_job_id r,
       rz_verification_job_id = Some (vr_verification_job_id r), rz_resolution_reference = Some (vr_fresh_hash r),
       rz_resolved_at = Some (vr_read_at r), rz_send_count = 0\<rparr>)"

definition ACK :: string where "ACK = ''We received this once.''"
definition INVITE :: string where "INVITE = ''Reply if the issue remains.''"

definition draft_reply :: "intake_ledger \<Rightarrow> verification_read \<Rightarrow> reply_mode \<Rightarrow> error + support_reply" where
  "draft_reply l r mode =
     bindE (if mode = auto \<or> \<not> verified r then Inr \<lparr>sy_body = None, sy_send_count = 0\<rparr>
       else let fix' = py_strip (vr_fix r); path = py_strip (vr_access_path r) in
         bindE (guardE (\<not> (fix' = [] \<or> path = [] \<or> marked (fix' @ '' '' @ path))) (ValueError ''reply'')) (\<lambda>_.
         Inr \<lparr>sy_body = Some (ACK @ '' '' @ fix' @ '' '' @ path @ '' '' @ INVITE), sy_send_count = 0\<rparr>)) (\<lambda>reply.
     bindE (guardE (lg_sends l = 0) (ValueError ''sends'')) (\<lambda>_. Inr reply))"

definition no_sales_span :: "intake_record \<Rightarrow> int option" where
  "no_sales_span r = (if in_issue_code r \<noteq> ''NO_SALES_DIAGNOSIS'' \<or> length (in_plan r) \<noteq> 2 then None
     else Some (pn_day_offset (in_plan r ! 1) - pn_day_offset (in_plan r ! 0)))"

subsection \<open>First reports win\<close>

interpretation issues: keyed_ledger get_issue put_issue "\<lambda>l. dict_ok (lg_issues l)"
  by unfold_locales (simp_all add: get_issue_def put_issue_def dict.ok_store dict.lookup_store)

interpretation repairs: keyed_ledger get_repair put_repair "\<lambda>l. dict_ok (lg_repairs l)"
  by unfold_locales (simp_all add: get_repair_def put_repair_def dict.ok_store dict.lookup_store)

definition issue_key_of :: "issue_report \<Rightarrow> issue_key" where
  "issue_key_of p = (ip_shop_id p, py_strip (ip_buyer_reference p), ip_received_at p)"

lemma clean_reference_Inr: "clean_reference v c = Inr t \<longleftrightarrow> t = py_strip v \<and> t \<noteq> [] \<and> \<not> marked t"
  by (auto simp: clean_reference_def Let_def bindE_eq_Inr)

lemma require_sha256_Inr: "require_sha256 v c = Inr t \<longleftrightarrow> t = v \<and> sha256_hex v"
  by (auto simp: require_sha256_def bindE_eq_Inr)

lemma notice_of_Inr: "notice_of p = Inr n \<Longrightarrow> ip_issue_code p = ''LISTING_DEACTIVATED'' \<Longrightarrow> n \<noteq> None"
  by (auto simp: notice_of_def bindE_eq_Inr split: option.splits)

lemma resume_of_Inr:
  "resume_of p = Inr (j, i) \<Longrightarrow> ip_issue_code p = ''AGENT_RUN_INTERRUPTED'' \<Longrightarrow> j \<noteq> None \<and> i \<noteq> None"
  by (cases "ip_resume_job_id p"; cases "ip_resume_phase p") (simp_all add: resume_of_def bindE_eq_Inr, blast)

lemma intake_ofE:
  assumes "intake_of uuid5 p = Inr r"
  obtains spec n j i where "map_of SPECS (ip_issue_code p) = Some spec" "notice_of p = Inr n" "resume_of p = Inr (j, i)"
    "sha256_hex (in_attachment_sha256 r)"
    "in_buyer_reference r = py_strip (ip_buyer_reference p)" "in_buyer_reference r \<noteq> []" "\<not> marked (in_buyer_reference r)"
    "\<not> marked (in_safe_summary r)" "\<not> marked (in_attachment_content_type r)"
    "in_issue_code r = ip_issue_code p" "in_plan r = is_plan spec" "in_notice_sha256 r = n" "in_resume_job_id r = j"
    "in_resume_phase r = i" "in_new_product_ids r = []" "\<not> in_reactivation_executed r" "in_send_count r = 0"
    "in_provider_writes r = 0" "in_jobs_inserted r = 0"
proof -
  have acc: "clean_reference (ip_buyer_reference p) ''buyer_reference'' = Inr t \<Longrightarrow> \<not> marked t \<and> t \<noteq> [] \<and> t = py_strip (ip_buyer_reference p)"
    "clean_reference (ip_safe_summary p) ''unsafe_summary'' = Inr t \<Longrightarrow> \<not> marked t"
    "clean_reference (ip_attachment_content_type p) ''content_type'' = Inr t \<Longrightarrow> \<not> marked t"
    "require_sha256 (ip_attachment_sha256 p) ''attachment_sha256'' = Inr t \<Longrightarrow> sha256_hex t" for t
    unfolding clean_reference_Inr require_sha256_Inr by blast+
  obtain spec where spec: "map_of SPECS (ip_issue_code p) = Some spec"
    using assms unfolding intake_of_def by (cases "map_of SPECS (ip_issue_code p)") (auto simp: bindE_eq_Inr)
  show thesis
    using assms unfolding intake_of_def
    apply (simp only: bindE_eq_Inr spec option.case)
    apply (elim exE conjE)
    subgoal for reference summary digest content_type u notice res
      apply (cases res)
      apply (rule that [OF spec])
      apply (auto dest: acc)
      done
    done
qed

lemma intake_key: "intake_of uuid5 p = Inr r \<Longrightarrow> in_buyer_reference r = py_strip (ip_buyer_reference p)"
  by (elim intake_ofE)

lemma open_issue_cases:
  assumes "open_issue uuid5 p l = Inr (r, l')"
  obtains r0 where "intake_of uuid5 p = Inr r0"
    "r = (case get_issue l (issue_key_of p) of Some w \<Rightarrow> w | None \<Rightarrow> r0)"
    "l' = (case get_issue l (issue_key_of p) of Some w \<Rightarrow> l | None \<Rightarrow> put_issue (issue_key_of p) r0 l)"
proof -
  obtain r0 where r0: "intake_of uuid5 p = Inr r0" using assms by (auto simp: open_issue_def bindE_eq_Inr)
  have k: "(ip_shop_id p, in_buyer_reference r0, ip_received_at p) = issue_key_of p"
    using intake_key [OF r0] by (simp add: issue_key_of_def)
  have "open_issue uuid5 p l = (case get_issue l (issue_key_of p) of
      Some w \<Rightarrow> Inr (w, l) | None \<Rightarrow> Inr (r0, put_issue (issue_key_of p) r0 l))"
    unfolding open_issue_def r0 bindE_simps Let_def k ..
  then show thesis using assms r0 by (intro that [OF r0]) (auto split: option.splits)
qed

text \<open>What the intake never stores: a reference or summary with a secret mark, or any executed work.\<close>

definition record_clean :: "intake_record \<Rightarrow> bool" where
  "record_clean r \<longleftrightarrow> \<not> marked (in_buyer_reference r) \<and> in_buyer_reference r \<noteq> [] \<and> \<not> marked (in_safe_summary r) \<and>
     \<not> marked (in_attachment_content_type r) \<and> sha256_hex (in_attachment_sha256 r) \<and>
     in_new_product_ids r = [] \<and> \<not> in_reactivation_executed r \<and> in_send_count r = 0 \<and>
     in_provider_writes r = 0 \<and> in_jobs_inserted r = 0 \<and> list_all (\<lambda>s. \<not> pn_inserted s) (in_plan r) \<and>
     (in_issue_code r = ''LISTING_DEACTIVATED'' \<longrightarrow> in_notice_sha256 r \<noteq> None) \<and>
     (in_issue_code r = ''AGENT_RUN_INTERRUPTED'' \<longrightarrow> in_resume_job_id r \<noteq> None \<and> in_resume_phase r \<noteq> None)"

lemma SPECS_plans: "map_of SPECS code = Some spec \<Longrightarrow> list_all (\<lambda>s. \<not> pn_inserted s) (is_plan spec)"
proof -
  assume "map_of SPECS code = Some spec"
  then have "spec \<in> snd ` set SPECS" by (metis map_of_SomeD image_eqI snd_conv)
  moreover have "\<forall>spec \<in> snd ` set SPECS. list_all (\<lambda>s. \<not> pn_inserted s) (is_plan spec)" by code_simp
  ultimately show ?thesis by blast
qed

lemma intake_clean: "intake_of uuid5 p = Inr r \<Longrightarrow> record_clean r"
  by (erule intake_ofE) (simp add: record_clean_def SPECS_plans notice_of_Inr resume_of_Inr)

definition ledger_clean :: "intake_ledger \<Rightarrow> bool" where
  "ledger_clean l \<longleftrightarrow> dict_ok (lg_issues l) \<and> dict_ok (lg_repairs l) \<and> (\<forall>k r. get_issue l k = Some r \<longrightarrow> record_clean r)"

text \<open>
  C27: Opening an issue keeps the ledger clean, stores the first report of its shop, buyer reference and
  time, and changes no other record; every later accepted report with that key, whatever else it
  says, returns the first record and leaves the ledger as it is.
\<close>

theorem first_report_wins:
  assumes "ledger_clean l" and "open_issue uuid5 p l = Inr (r, l')"
  shows "ledger_clean l' \<and> record_clean r \<and> get_issue l' (issue_key_of p) = Some r \<and>
    (\<forall>k w. get_issue l k = Some w \<longrightarrow> get_issue l' k = Some w) \<and>
    (\<forall>q r'. issue_key_of q = issue_key_of p \<longrightarrow> intake_of uuid5 q = Inr r' \<longrightarrow> open_issue uuid5 q l' = Inr (r, l'))"
proof -
  have d: "dict_ok (lg_issues l)" "dict_ok (lg_repairs l)" using assms(1) by (simp_all add: ledger_clean_def)
  obtain r0 where o: "intake_of uuid5 p = Inr r0"
    "r = (case get_issue l (issue_key_of p) of Some w \<Rightarrow> w | None \<Rightarrow> r0)"
    "l' = (case get_issue l (issue_key_of p) of Some w \<Rightarrow> l | None \<Rightarrow> put_issue (issue_key_of p) r0 l)"
    using open_issue_cases [OF assms(2)] by blast
  note w = issues.first_write_wins [OF d(1) o(3)]
  have get: "get_issue l' (issue_key_of p) = Some r" using w o(2) by simp
  have keep: "\<forall>k w. get_issue l k = Some w \<longrightarrow> get_issue l' k = Some w"
    using issues.stored_stays [OF d(1) _ o(3)] by blast
  have clean: "record_clean r"
  proof (cases "get_issue l (issue_key_of p)")
    case None then show ?thesis using o(2) intake_clean [OF o(1)] by simp
  next
    case (Some w) then show ?thesis using o(2) assms(1) unfolding ledger_clean_def by (metis option.case(2))
  qed
  have "record_clean q" if "get_issue l' k = Some q" for k q
  proof (cases "k = issue_key_of p")
    case True then show ?thesis using that get clean by simp
  next
    case False then have "get_issue l k = Some q" using that w by simp
    then show ?thesis using assms(1) unfolding ledger_clean_def by blast
  qed
  moreover have "dict_ok (lg_repairs l')" using o(3) d(2) by (auto simp: put_issue_def split: option.splits)
  ultimately have lc: "ledger_clean l'" using w unfolding ledger_clean_def by blast
  have "open_issue uuid5 q l' = Inr (r, l')" if "issue_key_of q = issue_key_of p" "intake_of uuid5 q = Inr r'" for q r'
    using that get intake_key [OF that(2)] by (simp add: open_issue_def issue_key_of_def)
  then show ?thesis using lc clean get keep by blast
qed

definition example_report :: "string \<Rightarrow> issue_report" where
  "example_report summary = \<lparr>ip_shop_id = 1, ip_buyer_reference = '' buyer-7 '', ip_listing_id = None, ip_product_id = 2,
     ip_variant_id = None, ip_issue_code = ''BROKEN_DELIVERY_LINK'', ip_safe_summary = summary,
     ip_attachment_sha256 = replicate 64 CHR ''0'', ip_attachment_content_type = ''image/png'', ip_received_at = 0,
     ip_urgency = ''high'', ip_notice_sha256 = None, ip_resume_job_id = None, ip_resume_phase = None,
     ip_caller_priority = None\<rparr>"

definition empty_ledger :: intake_ledger where
  "empty_ledger = \<lparr>lg_issues = [], lg_repairs = [], lg_sends = 0\<rparr>"

theorem first_report_wins_witness:
  "\<exists>r l'. open_issue (\<lambda>_. 9) (example_report ''link is dead'') empty_ledger = Inr (r, l') \<and>
     in_safe_summary r = ''link is dead'' \<and>
     open_issue (\<lambda>_. 9) (example_report ''another text'') l' = Inr (r, l')"
proof -
  define x where "x = open_issue (\<lambda>_. 9) (example_report ''link is dead'') empty_ledger"
  have x: "open_issue (\<lambda>_. 9) (example_report ''link is dead'') empty_ledger = Inr (fst (projr x), snd (projr x))"
    unfolding x_def by code_simp
  have s: "in_safe_summary (fst (projr x)) = ''link is dead''" unfolding x_def by code_simp
  have c: "ledger_clean empty_ledger" by (simp add: ledger_clean_def empty_ledger_def dict_ok_def get_issue_def)
  have q: "issue_key_of (example_report ''another text'') = issue_key_of (example_report ''link is dead'')"
    by (simp add: issue_key_of_def example_report_def)
  have i: "intake_of (\<lambda>_. 9) (example_report ''another text'') =
      Inr (projr (intake_of (\<lambda>_. 9) (example_report ''another text'')))" by code_simp
  have "open_issue (\<lambda>_. 9) (example_report ''another text'') (snd (projr x)) = Inr (fst (projr x), snd (projr x))"
    using first_report_wins [OF c x] q i by blast
  then show ?thesis using x s by blast
qed

subsection \<open>Repairs and resolution\<close>

lemma record_repair_once:
  assumes "dict_ok (lg_repairs l)" and "record_repair uuid5 i key h l = Inr (v, l')"
    and "py_strip key' = py_strip key" and "sha256_hex h'"
  shows "record_repair uuid5 i key' h' l' = Inr (v, l')"
proof -
  let ?v = "\<lparr>rv_version_id = uuid5 (str_uuid i @ '':'' @ py_strip key @ '':'' @ h),
          rv_incident_id = i, rv_idempotency_key = py_strip key, rv_artifact_hash = h\<rparr>"
  have k: "py_strip key \<noteq> []"
    and v: "v = (case get_repair l (i, py_strip key) of Some w \<Rightarrow> w | None \<Rightarrow> ?v)"
    and l': "l' = (case get_repair l (i, py_strip key) of Some w \<Rightarrow> l | None \<Rightarrow> put_repair (i, py_strip key) ?v l)"
    using assms(2) by (auto simp: record_repair_def require_sha256_def bindE_eq_Inr Let_def split: option.splits)
  have "get_repair l' (i, py_strip key) = Some v"
    using repairs.first_write_wins [OF assms(1) l'] v by simp
  then show ?thesis using k assms(3,4) by (simp add: record_repair_def require_sha256_def)
qed

text \<open>
  An incident is closed exactly by a later read, by another job, that matches the repaired bytes;
  a reply has a body only then and only in draft mode, carries no secret mark in its variable part,
  and nothing is ever sent.
\<close>

theorem resolution_needs_a_fresh_read:
  "(rz_status (resolve_issue r) = S_RESOLVED \<longleftrightarrow> vr_verification_job_id r \<noteq> vr_repair_job_id r \<and>
      vr_fresh_hash r = vr_repaired_hash r \<and> vr_repaired_at r < vr_read_at r) \<and>
   (rz_resolved_at (resolve_issue r) \<noteq> None \<longleftrightarrow> rz_status (resolve_issue r) = S_RESOLVED) \<and>
   rz_send_count (resolve_issue r) = 0 \<and>
   (case draft_reply l r mode of Inl _ \<Rightarrow> True | Inr reply \<Rightarrow> sy_send_count reply = 0 \<and>
      (case sy_body reply of None \<Rightarrow> mode = auto \<or> rz_status (resolve_issue r) = S_OPEN
       | Some body \<Rightarrow> mode = draft \<and> rz_status (resolve_issue r) = S_RESOLVED \<and>
           \<not> marked (py_strip (vr_fix r) @ '' '' @ py_strip (vr_access_path r))))"
  by (cases mode)
    (auto simp: resolve_issue_def verified_def draft_reply_def bindE_eq_Inr bindE_def guardE_def Let_def split: sum.splits option.splits if_splits)

end
