(* ===== verification/Effect_Steps.thy ===== *)
theory Effect_Steps
  imports MM_Prelude
begin

section \<open>Steps with effects\<close>

text \<open>
  A step maps a state to a result or an error and the state it leaves: what it did to the outside
  world before an error stays done. \<open>bindS\<close> sequences steps and \<open>liftS\<close> embeds a pure check.

  \<open>keeps R m\<close> says that the step \<open>m\<close>, whether it returns or raises, relates its states by \<open>R\<close>. The
  locale \<open>kept\<close> holds the rules for a reflexive and transitive \<open>R\<close>, so that a relation kept by the
  single operations is kept by the code composed of them.
\<close>

type_synonym ('e, 'a, 's) step = "'s \<Rightarrow> ('e + 'a) \<times> 's"

definition returnS :: "'a \<Rightarrow> ('e, 'a, 's) step" where
  "returnS x s = (Inr x, s)"

definition raiseS :: "'e \<Rightarrow> ('e, 'a, 's) step" where
  "raiseS e s = (Inl e, s)"

definition liftS :: "'e + 'a \<Rightarrow> ('e, 'a, 's) step" where
  "liftS m s = (m, s)"

definition bindS :: "('e, 'a, 's) step \<Rightarrow> ('a \<Rightarrow> ('e, 'b, 's) step) \<Rightarrow> ('e, 'b, 's) step" where
  "bindS m f s = (case m s of (Inl e, t) \<Rightarrow> (Inl e, t) | (Inr x, t) \<Rightarrow> f x t)"

lemma bindS_simps [simp]:
  "m s = (Inl e, t) \<Longrightarrow> bindS m f s = (Inl e, t)"
  "m s = (Inr x, t) \<Longrightarrow> bindS m f s = f x t"
  "bindS (returnS x) f s = f x s"
  "bindS (raiseS e) f s = (Inl e, s)"
  "bindS (liftS (Inl e)) f s = (Inl e, s)"
  "bindS (liftS (Inr x)) f s = f x s"
  by (simp_all add: bindS_def returnS_def raiseS_def liftS_def)

lemma bindS_cases:
  assumes "bindS m f s = (r, t)"
  obtains e where "m s = (Inl e, t)" "r = Inl e"
  | x u where "m s = (Inr x, u)" "f x u = (r, t)"
proof (cases "m s")
  case (Pair a u)
  then show thesis using assms that by (cases a) (auto simp: bindS_def)
qed

definition keeps :: "('s \<Rightarrow> 's \<Rightarrow> bool) \<Rightarrow> ('e, 'a, 's) step \<Rightarrow> bool" where
  "keeps R m \<longleftrightarrow> (\<forall>s. R s (snd (m s)))"

lemma keepsD: "keeps R m \<Longrightarrow> m s = (r, t) \<Longrightarrow> R s t"
  by (metis keeps_def snd_conv)

lemma keepsI: "(\<And>s r t. m s = (r, t) \<Longrightarrow> R s t) \<Longrightarrow> keeps R m"
  by (simp add: keeps_def) (metis prod.collapse)

locale kept =
  fixes R :: "'s \<Rightarrow> 's \<Rightarrow> bool"
  assumes kept_refl: "R s s"
    and kept_trans: "R s t \<Longrightarrow> R t u \<Longrightarrow> R s u"
begin

lemma keeps_pure: "keeps R (returnS x)" "keeps R (raiseS e)" "keeps R (liftS m)"
  by (simp_all add: keeps_def returnS_def raiseS_def liftS_def kept_refl)

lemma keeps_bind:
  assumes "keeps R m" and "\<And>x. keeps R (f x)"
  shows "keeps R (bindS m f)"
proof (rule keepsI)
  fix s r t
  assume "bindS m f s = (r, t)"
  then show "R s t"
  proof (cases rule: bindS_cases)
    case (1 e)
    then show ?thesis using assms(1) by (blast dest: keepsD)
  next
    case (2 x u)
    have "R s u" "R u t" using keepsD [OF assms(1) 2(1)] keepsD [OF assms(2) 2(2)] by blast+
    then show ?thesis by (rule kept_trans)
  qed
qed

lemma keeps_if: "keeps R m \<Longrightarrow> keeps R n \<Longrightarrow> keeps R (if b then m else n)"
  by simp

lemma keeps_option: "keeps R m \<Longrightarrow> (\<And>x. keeps R (f x)) \<Longrightarrow> keeps R (case z of None \<Rightarrow> m | Some x \<Rightarrow> f x)"
  by (cases z) auto

lemmas keeps_rules = keeps_pure keeps_bind keeps_if keeps_option

end

end
