(* ===== verification/Draft_Client.thy ===== *)
theory Draft_Client
  imports Effect_Steps Calendar Config "HOL-Library.List_Lexorder" "HOL-Library.Char_ord"
begin

section \<open>The Etsy draft client\<close>

text \<open>
  \<^verbatim>\<open>integrations/etsy/draft_client.py\<close>: the durable ledger of drafts, the guarded exchange with the
  fixture transport, the double walk over the pages of a shop's drafts and the creation of a draft.

  The ledger is a directory. A name leads to an inode or is a symbolic link; a system call changes
  what processes see, \<^verbatim>\<open>fsync\<close> of a file fixes its text and \<^verbatim>\<open>fsync\<close> of the directory its names. Every
  system call and every exchange is one tick: with a finite \<open>cs_power\<close> the process dies there, and
  \<open>power_loss\<close> says what a later process can find. The transport is an argument, a function from the
  call and its own state to an exception or a payload; \<open>cs_sent\<close> records the calls it has seen.
  Text is ASCII, a payload is a JSON object, \<^verbatim>\<open>sha256\<close> is an argument.
\<close>

subsection \<open>Data\<close>

record draft_spec =
  df_product_id :: uuid
  df_spec_version :: int
  df_shop_id :: int
  df_title :: string
  df_description :: string
  df_price :: string
  df_quantity :: int
  df_who_made :: string
  df_when_made :: string
  df_taxonomy_id :: int

record draft_receipt =
  dr_listing_id :: int
  dr_spec_version :: int
  dr_fixture_hash :: string
  dr_marker :: string
  dr_state :: string
  dr_ready :: bool

record fixture_call =
  fc_method :: string
  fc_path :: string
  fc_query :: "(string \<times> string) list"
  fc_body :: "(string \<times> string) list option"

datatype ledger_status = L_pending | L_recorded

record ledger_entry =
  le_spec_version :: int
  le_fixture_hash :: string
  le_status :: ledger_status
  le_listing_id :: "int option"

datatype draft_error = Refused string | Os_Error | Transport_Error | Assertion_Error | Power_Lost

datatype fs_node = Inode nat | Symlink

record filesystem =
  fs_names :: "string \<rightharpoonup> fs_node"
  fs_synced_names :: "string \<rightharpoonup> fs_node"
  fs_texts :: "nat \<Rightarrow> string"
  fs_synced_texts :: "nat \<Rightarrow> string"
  fs_next :: nat

type_synonym payload = "(string \<times> json) list"

record 'w client_state =
  cs_fs :: filesystem
  cs_world :: 'w
  cs_sent :: "fixture_call list"
  cs_power :: "nat option"

type_synonym ('a, 'w) client = "(draft_error, 'a, 'w client_state) step"
type_synonym 'w transport = "fixture_call \<Rightarrow> 'w \<Rightarrow> (unit + payload) \<times> 'w"

subsection \<open>The file system\<close>

definition tick :: "(unit, 'w) client" where
  "tick st = (case cs_power st of
     None \<Rightarrow> (Inr (), st)
   | Some 0 \<Rightarrow> (Inl Power_Lost, st)
   | Some (Suc n) \<Rightarrow> (Inr (), st\<lparr>cs_power := Some n\<rparr>))"

definition on_fs :: "(filesystem \<Rightarrow> (draft_error + 'a) \<times> filesystem) \<Rightarrow> ('a, 'w) client" where
  "on_fs f = bindS tick (\<lambda>_ st. case f (cs_fs st) of (r, fs) \<Rightarrow> (r, st\<lparr>cs_fs := fs\<rparr>))"

definition fs_lookup :: "string \<Rightarrow> (fs_node option, 'w) client" where
  "fs_lookup name = on_fs (\<lambda>fs. (Inr (fs_names fs name), fs))"

definition fs_read :: "nat \<Rightarrow> (string, 'w) client" where
  "fs_read i = on_fs (\<lambda>fs. (Inr (take 4096 (fs_texts fs i)), fs))"

definition fs_create :: "string \<Rightarrow> (nat, 'w) client" where
  "fs_create name = on_fs (\<lambda>fs. case fs_names fs name of Some _ \<Rightarrow> (Inl Os_Error, fs)
     | None \<Rightarrow> (Inr (fs_next fs), fs\<lparr>fs_names := (fs_names fs)(name \<mapsto> Inode (fs_next fs)),
         fs_texts := (fs_texts fs)(fs_next fs := []), fs_synced_texts := (fs_synced_texts fs)(fs_next fs := []),
         fs_next := Suc (fs_next fs)\<rparr>))"

definition fs_write :: "nat \<Rightarrow> string \<Rightarrow> (unit, 'w) client" where
  "fs_write i text = on_fs (\<lambda>fs. (Inr (), fs\<lparr>fs_texts := (fs_texts fs)(i := text)\<rparr>))"

definition fsync_file :: "nat \<Rightarrow> (unit, 'w) client" where
  "fsync_file i = on_fs (\<lambda>fs. (Inr (), fs\<lparr>fs_synced_texts := (fs_synced_texts fs)(i := fs_texts fs i)\<rparr>))"

definition fsync_dir :: "(unit, 'w) client" where
  "fsync_dir = on_fs (\<lambda>fs. (Inr (), fs\<lparr>fs_synced_names := fs_names fs\<rparr>))"

definition fs_unlink :: "string \<Rightarrow> (unit, 'w) client" where
  "fs_unlink name = on_fs (\<lambda>fs. (Inr (), fs\<lparr>fs_names := (fs_names fs)(name := None)\<rparr>))"

definition fs_replace :: "string \<Rightarrow> string \<Rightarrow> (unit, 'w) client" where
  "fs_replace src dst = on_fs (\<lambda>fs. case fs_names fs src of None \<Rightarrow> (Inl Os_Error, fs)
     | Some n \<Rightarrow> (Inr (), fs\<lparr>fs_names := (fs_names fs)(dst \<mapsto> n, src := None)\<rparr>))"

text \<open>
  What a process finds after a loss of power: each name as it was last seen or last synced, each
  text as last written or last synced.
\<close>

definition power_loss :: "filesystem \<Rightarrow> filesystem \<Rightarrow> bool" where
  "power_loss fs fs' \<longleftrightarrow> (\<forall>name. fs_names fs' name \<in> {fs_names fs name, fs_synced_names fs name}) \<and>
     (\<forall>i. fs_texts fs' i \<in> {fs_texts fs i, fs_synced_texts fs i}) \<and>
     fs_synced_names fs' = fs_names fs' \<and> fs_synced_texts fs' = fs_texts fs' \<and> fs_next fs' = fs_next fs"

subsection \<open>The ledger\<close>

definition ledger_path :: "int \<Rightarrow> string \<Rightarrow> string" where
  "ledger_path spec_version fixture_hash = str_int spec_version @ ''-'' @ fixture_hash"

definition NL :: char where "NL = CHR 0x0A"
definition CR :: char where "CR = CHR 0x0D"

definition all_digits :: "string \<Rightarrow> bool" where
  "all_digits s \<longleftrightarrow> s \<noteq> [] \<and> list_all is_digit s"

definition digits_value :: "string \<Rightarrow> int" where
  "digits_value s = foldl (\<lambda>n c. 10 * n + (int (of_char c) - 48)) 0 s"

definition parse_entry :: "int \<Rightarrow> string \<Rightarrow> string \<Rightarrow> draft_error + ledger_entry" where
  "parse_entry spec_version fixture_hash text =
     (let entry = \<lambda>status listing. \<lparr>le_spec_version = spec_version, le_fixture_hash = fixture_hash,
        le_status = status, le_listing_id = listing\<rparr>; lines = split_on NL text in
      if text = ''pending'' @ [NL] then Inr (entry L_pending None)
      else if prefix (''recorded'' @ [NL]) text \<and> 2 \<le> length lines \<and> all_digits (lines ! 1) \<and> 1 \<le> digits_value (lines ! 1)
      then Inr (entry L_recorded (Some (digits_value (lines ! 1))))
      else Inl (Refused ''ledger_corrupt''))"

definition ledger_get :: "int \<Rightarrow> string \<Rightarrow> (ledger_entry option, 'w) client" where
  "ledger_get spec_version fixture_hash = bindS (fs_lookup (ledger_path spec_version fixture_hash)) (\<lambda>node.
     case node of
       None \<Rightarrow> returnS None
     | Some Symlink \<Rightarrow> raiseS (Refused ''ledger'')
     | Some (Inode i) \<Rightarrow> bindS (fs_read i) (\<lambda>text.
         bindS (liftS (parse_entry spec_version fixture_hash text)) (\<lambda>e. returnS (Some e))))"

definition create_exclusive :: "string \<Rightarrow> string \<Rightarrow> (unit, 'w) client" where
  "create_exclusive path text = bindS (fs_create path) (\<lambda>descriptor.
     bindS (fs_write descriptor text) (\<lambda>_. bindS (fsync_file descriptor) (\<lambda>_. fsync_dir)))"

definition put_pending :: "int \<Rightarrow> string \<Rightarrow> (unit, 'w) client" where
  "put_pending spec_version fixture_hash = bindS (ledger_get spec_version fixture_hash) (\<lambda>current.
     case current of Some _ \<Rightarrow> returnS ()
     | None \<Rightarrow> create_exclusive (ledger_path spec_version fixture_hash) (''pending'' @ [NL]))"

definition ledger_record :: "int \<Rightarrow> string \<Rightarrow> int \<Rightarrow> (unit, 'w) client" where
  "ledger_record spec_version fixture_hash listing_id =
     (let path = ledger_path spec_version fixture_hash; temporary = path @ ''.next'' in
      bindS (fs_unlink temporary) (\<lambda>_.
      bindS (create_exclusive temporary (''recorded'' @ [NL] @ str_int listing_id @ [NL])) (\<lambda>_.
      bindS (fs_replace temporary path) (\<lambda>_. fsync_dir))))"

subsection \<open>Markers\<close>

definition MARK :: string where "MARK = ''mm-draft:''"

definition fixture_hash :: "(string \<Rightarrow> string) \<Rightarrow> draft_spec \<Rightarrow> string" where
  "fixture_hash sha256 s = sha256 (join_with [NL]
     [''product_id='' @ str_uuid (df_product_id s), ''spec_version='' @ str_int (df_spec_version s),
      ''shop_id='' @ str_int (df_shop_id s), ''title='' @ df_title s, ''description='' @ df_description s,
      ''price='' @ df_price s, ''quantity='' @ str_int (df_quantity s), ''who_made='' @ df_who_made s,
      ''when_made='' @ df_when_made s, ''taxonomy_id='' @ str_int (df_taxonomy_id s)])"

definition draft_marker :: "int \<Rightarrow> string \<Rightarrow> string" where
  "draft_marker spec_version fixture_hash_hex = MARK @ str_int spec_version @ '':'' @ fixture_hash_hex"

fun fold_crlf :: "string \<Rightarrow> string" where
  "fold_crlf [] = []"
| "fold_crlf [c] = [c]"
| "fold_crlf (c # d # s) = (if c = CR \<and> d = NL then NL # fold_crlf s else c # fold_crlf (d # s))"

definition fold_breaks :: "string \<Rightarrow> string" where
  "fold_breaks s = map (\<lambda>c. if c = CR then NL else c) (fold_crlf s)"

definition rstrip_blank :: "string \<Rightarrow> string" where
  "rstrip_blank s = rev (dropWhile (\<lambda>c. c \<in> {CHR '' '', CHR 0x09}) (rev s))"

definition description_lines :: "string \<Rightarrow> string list" where
  "description_lines description = map rstrip_blank (split_on NL (fold_breaks description))"

definition marker_lines :: "string \<Rightarrow> string list" where
  "marker_lines description = filter (prefix MARK) (description_lines description)"

definition row_text :: "json option \<Rightarrow> string" where
  "row_text description = (case description of Some (JStr s) \<Rightarrow> fold_breaks s | _ \<Rightarrow> [])"

definition line_marker :: "json option \<Rightarrow> string \<Rightarrow> draft_error + bool" where
  "line_marker description marker = (case description of
     Some (JStr s) \<Rightarrow> (let lines = marker_lines s in
       if marker \<in> set lines \<and> 1 < length lines then Inl (Refused ''duplicate_marker'') else Inr (lines = [marker]))
   | _ \<Rightarrow> Inr False)"

definition with_marker :: "string \<Rightarrow> string \<Rightarrow> string" where
  "with_marker description marker = (if description = [] then marker
     else if suffix [NL] description then description @ marker else description @ [NL] @ marker)"

definition draft_listing_id :: "payload \<Rightarrow> string option \<Rightarrow> draft_error + int" where
  "draft_listing_id row marker =
     bindE (guardE (map_of row ''state'' = Some (JStr ''draft'')) (Refused ''active'')) (\<lambda>_.
     bindE (case marker of None \<Rightarrow> Inr True | Some m \<Rightarrow> line_marker (map_of row ''description'') m) (\<lambda>ok.
     bindE (guardE ok (Refused ''marker'')) (\<lambda>_.
     case map_of row ''listing_id'' of
       Some (JInt n) \<Rightarrow> (if n < 1 then Inl (Refused ''malformed'') else Inr n)
     | _ \<Rightarrow> Inl (Refused ''malformed''))))"

definition require_spec :: "draft_spec \<Rightarrow> draft_error + unit" where
  "require_spec s =
     bindE (guardE (\<not> df_spec_version s < 1) (Refused ''spec_version'')) (\<lambda>_.
     bindE (guardE (\<not> df_shop_id s < 1) (Refused ''shop_id'')) (\<lambda>_.
     bindE (guardE (\<not> df_quantity s < 1) (Refused ''quantity'')) (\<lambda>_.
     bindE (guardE (\<not> df_taxonomy_id s < 1) (Refused ''taxonomy_id'')) (\<lambda>_.
     bindE (guardE (\<not> (df_title s = [] \<or> NL \<in> set (df_title s) \<or> CR \<in> set (df_title s))) (Refused ''title'')) (\<lambda>_.
     bindE (guardE (df_price s \<noteq> []) (Refused ''price'')) (\<lambda>_.
     guardE (\<not> list_ex (prefix MARK) (description_lines (df_description s))) (Refused ''marker_injection'')))))))"

subsection \<open>The guarded exchange\<close>

definition PAGE_LIMIT :: nat where "PAGE_LIMIT = 100"
definition PAGE_CAP :: nat where "PAGE_CAP = 10"

definition LISTINGS_PATH :: string where "LISTINGS_PATH = ''/v3/application/shops/{shop_id}/listings''"

definition MEASURED_ALLOWLIST :: "(string \<times> string) set" where
  "MEASURED_ALLOWLIST = {(''GET'', LISTINGS_PATH), (''POST'', LISTINGS_PATH)}"

definition GET_KEYS :: "string set" where "GET_KEYS = {''state'', ''limit'', ''offset''}"

definition BODY_KEYS :: "string set" where
  "BODY_KEYS = {''quantity'', ''title'', ''description'', ''price'', ''who_made'', ''when_made'', ''taxonomy_id'', ''type''}"

text \<open>\<^verbatim>\<open>^/v3/application/shops/([1-9][0-9]*)/listings$\<close>\<close>

definition listings_match :: "string \<Rightarrow> bool" where
  "listings_match path = (let front = ''/v3/application/shops/''; back = ''/listings'';
      shop = take (length path - length front - length back) (drop (length front) path) in
    path = front @ shop @ back \<and> all_digits shop \<and> hd shop \<noteq> CHR ''0'')"

definition measured_pair :: "string \<Rightarrow> string \<Rightarrow> draft_error + (string \<times> string)" where
  "measured_pair meth path = bindE (guardE (listings_match path) (Refused ''off_list'')) (\<lambda>_. Inr (meth, LISTINGS_PATH))"

definition add_key :: "string \<Rightarrow> string \<times> string \<Rightarrow> (string \<times> string) list \<Rightarrow> draft_error + (string \<times> string) list" where
  "add_key kind pair normalized = (case pair of (raw, value) \<Rightarrow>
     bindE (guardE (raw = lower_str raw) (Refused (kind @ ''_case''))) (\<lambda>_.
     bindE (guardE (lower_str raw = py_strip (lower_str raw)) (Refused (kind @ ''_space''))) (\<lambda>_.
     let key = py_strip (lower_str raw) in
     bindE (guardE (key \<notin> fst ` set normalized) (Refused (kind @ ''_duplicate''))) (\<lambda>_.
     Inr (normalized @ [(key, value)])))))"

definition fold_keys :: "string \<Rightarrow> (string \<times> string) list \<Rightarrow> draft_error + (string \<times> string) list" where
  "fold_keys kind pairs = foldE (add_key kind) pairs []"

definition canonical_int :: "string \<Rightarrow> int \<Rightarrow> int option \<Rightarrow> bool" where
  "canonical_int value low high = (if \<not> all_digits value then False
     else if value \<noteq> ''0'' \<and> prefix ''0'' value then False
     else let number = digits_value value in
       if number < low then False else (case high of None \<Rightarrow> True | Some h \<Rightarrow> number \<le> h))"

definition refuse_get :: "(string \<times> string) list \<Rightarrow> (string \<times> string) list option \<Rightarrow> draft_error + unit" where
  "refuse_get query body =
     bindE (guardE (body = None) (Refused ''query_key'')) (\<lambda>_.
     bindE (fold_keys ''query'' query) (\<lambda>fields.
     bindE (guardE (fst ` set fields - GET_KEYS = {}) (Refused ''query_key'')) (\<lambda>_.
     bindE (guardE (''state'' \<in> fst ` set fields) (Refused ''lookup_state'')) (\<lambda>_.
     bindE (guardE (map_of fields ''state'' = Some ''draft'') (Refused ''lookup_state'')) (\<lambda>_.
     bindE (guardE (case map_of fields ''limit'' of None \<Rightarrow> True
        | Some v \<Rightarrow> canonical_int v 1 (Some (int PAGE_LIMIT))) (Refused ''query_limit'')) (\<lambda>_.
     guardE (case map_of fields ''offset'' of None \<Rightarrow> True
        | Some v \<Rightarrow> canonical_int v 0 None) (Refused ''query_offset'')))))))"

definition refuse_post :: "(string \<times> string) list \<Rightarrow> (string \<times> string) list option \<Rightarrow> draft_error + unit" where
  "refuse_post query body =
     bindE (fold_keys ''query'' query) (\<lambda>_.
     bindE (guardE (query = []) (Refused ''post_query'')) (\<lambda>_.
     bindE (requireE body (Refused ''body_missing'')) (\<lambda>pairs.
     bindE (fold_keys ''body'' pairs) (\<lambda>fields.
     bindE (guardE (fst ` set fields - BODY_KEYS = {}) (Refused ''body_extra'')) (\<lambda>_.
     guardE (BODY_KEYS - fst ` set fields = {}) (Refused ''body_missing''))))))"

definition send :: "'w transport \<Rightarrow> fixture_call \<Rightarrow> (payload, 'w) client" where
  "send transport call = bindS tick (\<lambda>_ st. case transport call (cs_world st) of
     (r, w) \<Rightarrow> (case r of Inl _ \<Rightarrow> Inl Transport_Error | Inr p \<Rightarrow> Inr p,
       st\<lparr>cs_world := w, cs_sent := cs_sent st @ [call]\<rparr>))"

definition exchange :: "'w transport option \<Rightarrow> string \<Rightarrow> string \<Rightarrow> (string \<times> string) list \<Rightarrow>
    (string \<times> string) list option \<Rightarrow> (payload, 'w) client" where
  "exchange transport meth path query body =
     bindS (liftS (requireE transport (Refused ''fixture_transport''))) (\<lambda>tr.
     bindS (liftS (measured_pair meth path)) (\<lambda>pair.
     bindS (liftS (guardE (pair \<in> MEASURED_ALLOWLIST) (Refused ''off_list''))) (\<lambda>_.
     bindS (liftS (if meth = ''GET'' then refuse_get query body
        else if meth = ''POST'' then refuse_post query body else Inr ())) (\<lambda>_.
     send tr \<lparr>fc_method = meth, fc_path = path, fc_query = query, fc_body = body\<rparr>))))"

subsection \<open>Walking the pages\<close>

definition listings_path :: "int \<Rightarrow> string" where
  "listings_path shop_id = ''/v3/application/shops/'' @ str_int shop_id @ ''/listings''"

definition draft_query :: "nat \<Rightarrow> (string \<times> string) list" where
  "draft_query offset = [(''state'', ''draft''), (''limit'', str_nat PAGE_LIMIT), (''offset'', str_nat offset)]"

record walk_state =
  wk_found :: "int option"
  wk_ids :: "int list"
  wk_texts :: "string list"

definition read_row :: "string \<Rightarrow> json \<Rightarrow> walk_state \<Rightarrow> draft_error + walk_state" where
  "read_row marker row acc = (case row of JObj cells \<Rightarrow>
     (case map_of cells ''listing_id'' of Some (JInt listing_raw) \<Rightarrow>
        bindE (guardE (listing_raw \<notin> set (wk_ids acc)) (Refused ''count'')) (\<lambda>_.
        let acc = acc\<lparr>wk_ids := wk_ids acc @ [listing_raw],
          wk_texts := wk_texts acc @ [row_text (map_of cells ''description'')]\<rparr> in
        bindE (line_marker (map_of cells ''description'') marker) (\<lambda>ours.
        if \<not> ours then Inr acc
        else bindE (draft_listing_id cells None) (\<lambda>listing_id.
          bindE (guardE (wk_found acc = None) (Refused ''duplicate_marker'')) (\<lambda>_.
          Inr (acc\<lparr>wk_found := Some listing_id\<rparr>)))))
      | _ \<Rightarrow> Inl (Refused ''malformed''))
   | _ \<Rightarrow> Inl (Refused ''malformed''))"

definition page_of :: "payload \<Rightarrow> draft_error + (json list \<times> int)" where
  "page_of payload = (case (map_of payload ''results'', map_of payload ''count'') of
     (Some (JList results), Some (JInt count)) \<Rightarrow>
       (if count < 0 then Inl (Refused ''malformed'') else Inr (results, count))
   | _ \<Rightarrow> Inl (Refused ''malformed''))"

definition as_refusal :: "('a, 'w) client \<Rightarrow> ('a, 'w) client" where
  "as_refusal m st = (case m st of (Inl Transport_Error, st) \<Rightarrow> (Inl (Refused ''transport''), st) | r \<Rightarrow> r)"

text \<open>The loop over the pages left; the ids read so far also are the seen ones.\<close>

fun walk_pages :: "'w transport option \<Rightarrow> draft_spec \<Rightarrow> string \<Rightarrow> nat \<Rightarrow> nat \<Rightarrow> int option \<Rightarrow> walk_state \<Rightarrow>
    (walk_state, 'w) client" where
  "walk_pages tr s marker 0 offset expected acc = raiseS (Refused ''page_cap'')"
| "walk_pages tr s marker (Suc pages) offset expected acc =
     bindS (as_refusal (exchange tr ''GET'' (listings_path (df_shop_id s)) (draft_query offset) None)) (\<lambda>payload.
     bindS (liftS (page_of payload)) (\<lambda>(results, count).
     bindS (liftS (guardE (expected = None \<or> expected = Some count) (Refused ''count''))) (\<lambda>_.
     bindS (liftS (guardE (length results \<le> PAGE_LIMIT) (Refused ''malformed''))) (\<lambda>_.
     bindS (liftS (foldE (read_row marker) results acc)) (\<lambda>acc.
     if length results < PAGE_LIMIT
     then bindS (liftS (guardE (int (length (wk_ids acc)) = count) (Refused ''count''))) (\<lambda>_.
       returnS (acc\<lparr>wk_ids := sort (wk_ids acc), wk_texts := sort (wk_texts acc)\<rparr>))
     else walk_pages tr s marker pages (offset + PAGE_LIMIT) (Some count) acc)))))"

definition read_pages :: "'w transport option \<Rightarrow> draft_spec \<Rightarrow> string \<Rightarrow> (walk_state, 'w) client" where
  "read_pages tr s marker = walk_pages tr s marker PAGE_CAP 0 None \<lparr>wk_found = None, wk_ids = [], wk_texts = []\<rparr>"

definition adopt :: "'w transport option \<Rightarrow> draft_spec \<Rightarrow> string \<Rightarrow> (int option, 'w) client" where
  "adopt tr s marker = bindS (read_pages tr s marker) (\<lambda>walk. bindS (read_pages tr s marker) (\<lambda>confirm.
     bindS (liftS (guardE (\<not> (wk_ids walk \<noteq> wk_ids confirm \<or> wk_found walk \<noteq> wk_found confirm \<or>
       wk_texts walk \<noteq> wk_texts confirm)) (Refused ''count''))) (\<lambda>_. returnS (wk_found walk))))"

subsection \<open>Creating a draft\<close>

definition create_body :: "draft_spec \<Rightarrow> string \<Rightarrow> (string \<times> string) list" where
  "create_body s marker = [(''quantity'', str_int (df_quantity s)), (''title'', df_title s),
     (''description'', with_marker (df_description s) marker), (''price'', df_price s), (''who_made'', df_who_made s),
     (''when_made'', df_when_made s), (''taxonomy_id'', str_int (df_taxonomy_id s)), (''type'', ''download'')]"

definition create_listing :: "'w transport option \<Rightarrow> draft_spec \<Rightarrow> string \<Rightarrow> (int, 'w) client" where
  "create_listing tr s marker =
     bindS (exchange tr ''POST'' (listings_path (df_shop_id s)) [] (Some (create_body s marker))) (\<lambda>payload.
     liftS (draft_listing_id payload (Some marker)))"

definition receipt_of :: "draft_spec \<Rightarrow> string \<Rightarrow> string \<Rightarrow> int \<Rightarrow> draft_receipt" where
  "receipt_of s digest marker listing_id = \<lparr>dr_listing_id = listing_id, dr_spec_version = df_spec_version s,
     dr_fixture_hash = digest, dr_marker = marker, dr_state = ''draft'', dr_ready = True\<rparr>"

text \<open>
  \<^verbatim>\<open>create_draft\<close> in its two halves: up to the decision that nothing exists yet, which returns a
  receipt when there is one, and the post. Two processes can interleave between them.
\<close>

definition find_draft :: "(string \<Rightarrow> string) \<Rightarrow> 'w transport option \<Rightarrow> draft_spec \<Rightarrow> (draft_receipt option, 'w) client" where
  "find_draft sha256 tr s =
     bindS (liftS (require_spec s)) (\<lambda>_.
     let digest = fixture_hash sha256 s; marker = draft_marker (df_spec_version s) digest in
     bindS (ledger_get (df_spec_version s) digest) (\<lambda>existing.
     case existing of
       Some e \<Rightarrow> (if le_status e = L_recorded
         then (case le_listing_id e of None \<Rightarrow> raiseS Assertion_Error
           | Some listing_id \<Rightarrow> returnS (Some (receipt_of s digest marker listing_id)))
         else bindS (adopt tr s marker) (\<lambda>adopted. case adopted of
             Some listing_id \<Rightarrow> bindS (ledger_record (df_spec_version s) digest listing_id) (\<lambda>_.
               returnS (Some (receipt_of s digest marker listing_id)))
           | None \<Rightarrow> raiseS (Refused ''pending'')))
     | None \<Rightarrow> bindS (adopt tr s marker) (\<lambda>adopted. case adopted of
             Some listing_id \<Rightarrow> bindS (ledger_record (df_spec_version s) digest listing_id) (\<lambda>_.
               returnS (Some (receipt_of s digest marker listing_id)))
           | None \<Rightarrow> returnS None)))"

definition post_draft :: "(string \<Rightarrow> string) \<Rightarrow> 'w transport option \<Rightarrow> draft_spec \<Rightarrow> (draft_receipt, 'w) client" where
  "post_draft sha256 tr s =
     (let digest = fixture_hash sha256 s; marker = draft_marker (df_spec_version s) digest in
      bindS (put_pending (df_spec_version s) digest) (\<lambda>_.
      bindS (create_listing tr s marker) (\<lambda>created.
      bindS (ledger_record (df_spec_version s) digest created) (\<lambda>_.
      returnS (receipt_of s digest marker created)))))"

definition create_draft :: "(string \<Rightarrow> string) \<Rightarrow> 'w transport option \<Rightarrow> draft_spec \<Rightarrow> (draft_receipt, 'w) client" where
  "create_draft sha256 tr s = bindS (find_draft sha256 tr s) (\<lambda>found. case found of
     Some r \<Rightarrow> returnS r | None \<Rightarrow> post_draft sha256 tr s)"

subsection \<open>Marker lines\<close>

lemma fold_crlf_append: "\<not> (xs \<noteq> [] \<and> last xs = CR \<and> y = NL) \<Longrightarrow> fold_crlf (xs @ y # ys) = fold_crlf xs @ fold_crlf (y # ys)"
  by (induction xs rule: fold_crlf.induct) (auto split: if_splits)

lemma fold_crlf_plain: "CR \<notin> set s \<Longrightarrow> fold_crlf s = s"
  by (induction s rule: fold_crlf.induct) auto

lemma breaks_plain: "CR \<notin> set s \<Longrightarrow> map (\<lambda>c. if c = CR then NL else c) s = s"
  by (intro map_idI) auto

lemma fold_breaks_plain: "CR \<notin> set s \<Longrightarrow> fold_breaks s = s"
  by (simp add: fold_breaks_def fold_crlf_plain breaks_plain)

definition plain_line :: "string \<Rightarrow> bool" where
  "plain_line m \<longleftrightarrow> NL \<notin> set m \<and> CR \<notin> set m \<and> rstrip_blank m = m"

lemma plain_line_lines: "plain_line m \<Longrightarrow> description_lines m = [m]"
  by (simp add: description_lines_def fold_breaks_plain split_on_plain plain_line_def)

text \<open>A line break before a plain line starts a new line; a carriage return before the break belongs to it.\<close>

lemma break_lines:
  assumes "plain_line m"
  shows "marker_lines (d @ NL # m) = marker_lines d @ filter (prefix MARK) [m]"
proof -
  have CN: "CR \<noteq> NL" by (simp add: CR_def NL_def)
  have m: "CR \<notin> set m" "fold_crlf m = m" using assms by (simp_all add: plain_line_def fold_crlf_plain)
  have nm: "fold_crlf (NL # m) = NL # m" using m CN by (cases m) auto
  note tail = breaks_plain [OF m(1)]
  have lm: "map rstrip_blank (split_on NL m) = [m]"
    using plain_line_lines [OF assms] m by (simp add: description_lines_def fold_breaks_def tail)
  have empty: "rstrip_blank [] = []" "\<not> prefix MARK []" "MARK \<noteq> []" by (simp_all add: rstrip_blank_def MARK_def)
  show ?thesis
  proof (cases "d \<noteq> [] \<and> last d = CR")
    case False
    then have "fold_breaks (d @ NL # m) = fold_breaks d @ NL # m"
      using fold_crlf_append [of d NL m] nm tail CN by (auto simp: fold_breaks_def)
    then show ?thesis by (simp add: marker_lines_def description_lines_def split_on_append lm)
  next
    case True
    then obtain e where d: "d = e @ [CR]" by (metis append_butlast_last_id)
    have e: "fold_crlf (e @ CR # ys) = fold_crlf e @ fold_crlf (CR # ys)" for ys
      using fold_crlf_append [of e CR ys] CN by auto
    have "fold_breaks (d @ NL # m) = fold_breaks e @ NL # m" "fold_breaks d = fold_breaks e @ [NL]"
      using e [of "NL # m"] e [of "[]"] d m tail CN by (simp_all add: fold_breaks_def)
    then show ?thesis
      by (simp add: marker_lines_def description_lines_def split_on_append lm empty)
  qed
qed

lemma with_marker_lines:
  assumes "plain_line m" and "prefix MARK m"
  shows "marker_lines (with_marker d m) = marker_lines d @ [m]"
proof -
  have none: "marker_lines [] = []"
    by (simp add: marker_lines_def description_lines_def fold_breaks_def rstrip_blank_def MARK_def)
  show ?thesis
  proof (cases "suffix [NL] d")
    case True
    then obtain e where d: "d = e @ [NL]" by (auto simp: suffix_def)
    have "plain_line []" by (simp add: plain_line_def rstrip_blank_def)
    then have "marker_lines (e @ [NL]) = marker_lines e" using break_lines [of "[]" e] by (simp add: MARK_def)
    then show ?thesis using break_lines [OF assms(1), of e] assms(2) d by (simp add: with_marker_def)
  next
    case False
    then show ?thesis
      using break_lines [OF assms(1), of d] assms none plain_line_lines [OF assms(1)]
      by (simp add: with_marker_def marker_lines_def)
  qed
qed

text \<open>The documented form of a digest, and what it gives for markers and file names.\<close>

definition digests :: "(string \<Rightarrow> string) \<Rightarrow> bool" where
  "digests sha256 \<longleftrightarrow> (\<forall>text. sha256_hex (sha256 text))"

definition hex_chars :: "char set" where "hex_chars = set ''0123456789abcdef''"

lemma hex_chars_free: "NL \<notin> hex_chars" "CR \<notin> hex_chars" "CHR '' '' \<notin> hex_chars" "CHR 0x09 \<notin> hex_chars" "CHR ''t'' \<notin> hex_chars"
  by (simp_all add: hex_chars_def NL_def CR_def)

lemma marker_chars_free: "NL \<notin> set MARK \<union> decimal_chars" "CR \<notin> set MARK \<union> decimal_chars" "CHR '':'' \<notin> decimal_chars"
  by (simp_all add: MARK_def decimal_chars_def NL_def CR_def)

lemma hex_set: "sha256_hex h \<Longrightarrow> set h \<subseteq> hex_chars \<and> h \<noteq> []"
proof -
  assume h: "sha256_hex h"
  then have "h \<noteq> []" by (metis list.size(3) sha256_hex_def zero_neq_numeral)
  moreover have "set h \<subseteq> hex_chars" using h unfolding sha256_hex_def hex_chars_def list_all_iff by blast
  ultimately show ?thesis by blast
qed

lemma hex_last: "sha256_hex h \<Longrightarrow> last h \<in> hex_chars"
  using hex_set [of h] last_in_set [of h] by blast

lemma marker_plain: "sha256_hex h \<Longrightarrow> 1 \<le> v \<Longrightarrow> plain_line (draft_marker v h) \<and> prefix MARK (draft_marker v h)"
proof -
  assume h: "sha256_hex h" and v: "1 \<le> v"
  have "set (draft_marker v h) \<subseteq> set MARK \<union> decimal_chars \<union> insert (CHR '':'') hex_chars"
    using str_int_chars [of v] v hex_set [OF h] by (auto simp: draft_marker_def)
  moreover have "NL \<noteq> CHR '':''" "CR \<noteq> CHR '':''" by (simp_all add: NL_def CR_def)
  ultimately have "NL \<notin> set (draft_marker v h)" "CR \<notin> set (draft_marker v h)"
    using marker_chars_free hex_chars_free by blast+
  moreover have "rstrip_blank (draft_marker v h) = draft_marker v h"
  proof -
    obtain g c where g: "h = g @ [c]" using hex_set [OF h] by (metis rev_exhaust)
    then have "c \<in> hex_chars" using hex_last [OF h] by simp
    then have "c \<notin> {CHR '' '', CHR 0x09}" using hex_chars_free by blast
    then show ?thesis by (simp add: g draft_marker_def rstrip_blank_def)
  qed
  ultimately show ?thesis by (simp add: plain_line_def draft_marker_def)
qed

lemma colon_free: "1 \<le> v \<Longrightarrow> CHR '':'' \<notin> set (str_int v)"
  using str_int_chars [of v] marker_chars_free(3) by (meson in_mono order_trans zero_le_one)

lemma marker_inj:
  assumes "draft_marker v h = draft_marker v' h'" and "1 \<le> v" "1 \<le> v'"
  shows "v = v' \<and> h = h'"
proof -
  have "str_int v @ CHR '':'' # h = str_int v' @ CHR '':'' # h'" using assms(1) by (simp add: draft_marker_def)
  from append_sep_inj [OF this colon_free [OF assms(2)] colon_free [OF assms(3)]]
  have "str_int v = str_int v'" "h = h'" by blast+
  then show ?thesis using str_int_inj assms(2,3) by simp
qed

lemma path_not_temporary: "sha256_hex h \<Longrightarrow> ledger_path v h \<noteq> q @ ''.next''"
proof
  assume h: "sha256_hex h" and e: "ledger_path v h = q @ ''.next''"
  have "last (ledger_path v h) = CHR ''t''" by (simp add: e)
  then show False using hex_last [OF h] hex_set [OF h] hex_chars_free by (simp add: ledger_path_def)
qed

lemma accepted_spec: "require_spec s = Inr u \<longleftrightarrow> 1 \<le> df_spec_version s \<and> 1 \<le> df_shop_id s \<and> 1 \<le> df_quantity s \<and>
    1 \<le> df_taxonomy_id s \<and> df_title s \<noteq> [] \<and> NL \<notin> set (df_title s) \<and> CR \<notin> set (df_title s) \<and> df_price s \<noteq> [] \<and>
    marker_lines (df_description s) = []"
  by (auto simp: require_spec_def bindE_eq_Inr marker_lines_def list_ex_iff filter_empty_conv)

subsection \<open>What the single operations keep\<close>

definition present :: "string \<Rightarrow> 'w client_state \<Rightarrow> bool" where
  "present p st \<longleftrightarrow> fs_names (cs_fs st) p \<noteq> None \<and> fs_synced_names (cs_fs st) p \<noteq> None"

definition carries :: "string \<Rightarrow> fixture_call \<Rightarrow> bool" where
  "carries marker call \<longleftrightarrow> fc_method call = ''POST'' \<and>
     (case Option.bind (fc_body call) (\<lambda>b. map_of b ''description'') of None \<Rightarrow> False | Some d \<Rightarrow> marker \<in> set (marker_lines d))"

definition posts :: "string \<Rightarrow> 'w client_state \<Rightarrow> nat" where
  "posts marker st = length (filter (carries marker) (cs_sent st))"

definition quiet :: "string \<Rightarrow> string \<Rightarrow> 'w client_state \<Rightarrow> 'w client_state \<Rightarrow> bool" where
  "quiet p marker st st' \<longleftrightarrow> (present p st \<longrightarrow> present p st') \<and> posts marker st' = posts marker st"

definition same_fs :: "'w client_state \<Rightarrow> 'w client_state \<Rightarrow> bool" where
  "same_fs st st' \<longleftrightarrow> cs_fs st' = cs_fs st"

interpretation quiet: kept "quiet p marker"
  by unfold_locales (auto simp: quiet_def)

interpretation same_fs: kept same_fs
  by unfold_locales (auto simp: same_fs_def)

lemma keeps_tick: "keeps (quiet p marker) tick" "keeps same_fs tick"
  by (auto simp: keeps_def tick_def quiet_def same_fs_def present_def posts_def split: option.splits nat.splits)

lemma quiet_on_fs:
  assumes "\<And>fs. fs_names fs p \<noteq> None \<Longrightarrow> fs_synced_names fs p \<noteq> None \<Longrightarrow>
    fs_names (snd (f fs)) p \<noteq> None \<and> fs_synced_names (snd (f fs)) p \<noteq> None"
  shows "keeps (quiet p marker) (on_fs f)"
  unfolding on_fs_def
  by (rule quiet.keeps_bind [OF keeps_tick(1)])
    (use assms in \<open>simp add: keeps_def quiet_def present_def posts_def split_beta del: not_None_eq\<close>)

lemma quiet_fs:
  "keeps (quiet p marker) (fs_lookup name)" "keeps (quiet p marker) (fs_read i)" "keeps (quiet p marker) (fs_create name)"
  "keeps (quiet p marker) (fs_write i text)" "keeps (quiet p marker) (fsync_file i)" "keeps (quiet p marker) fsync_dir"
  "name \<noteq> p \<Longrightarrow> keeps (quiet p marker) (fs_unlink name)" "src \<noteq> p \<Longrightarrow> keeps (quiet p marker) (fs_replace src dst)"
  unfolding fs_lookup_def fs_read_def fs_create_def fs_write_def fsync_file_def fsync_dir_def fs_unlink_def fs_replace_def
  by (rule quiet_on_fs; simp split: option.splits)+

lemma quiet_ledger:
  "keeps (quiet p marker) (ledger_get v h)" "keeps (quiet p marker) (create_exclusive name content)"
  "keeps (quiet p marker) (put_pending v h)"
  "\<forall>q. p \<noteq> q @ ''.next'' \<Longrightarrow> keeps (quiet p marker) (ledger_record v h i)"
proof -
  show g: "keeps (quiet p marker) (ledger_get v h)"
    unfolding ledger_get_def
    by (intro quiet.keeps_bind quiet_fs) (auto intro!: quiet.keeps_rules quiet_fs split: option.split fs_node.split)
  show c: "keeps (quiet p marker) (create_exclusive name content)" for name content
    unfolding create_exclusive_def by (intro quiet.keeps_bind quiet_fs)
  show "keeps (quiet p marker) (put_pending v h)"
    unfolding put_pending_def by (intro quiet.keeps_rules g c)
  show "keeps (quiet p marker) (ledger_record v h i)" if "\<forall>q. p \<noteq> q @ ''.next''"
    using that unfolding ledger_record_def Let_def by (intro quiet.keeps_bind quiet_fs c) metis+
qed

lemma quiet_send: "\<not> carries marker call \<Longrightarrow> keeps (quiet p marker) (send tr call)"
  unfolding send_def
  by (rule quiet.keeps_bind [OF keeps_tick(1)]) (simp add: keeps_def quiet_def present_def posts_def split_beta)

lemma same_fs_send: "keeps same_fs (send tr call)"
  unfolding send_def by (rule same_fs.keeps_bind [OF keeps_tick(2)]) (simp add: keeps_def same_fs_def split_beta)

lemma quiet_exchange:
  "\<not> carries marker \<lparr>fc_method = meth, fc_path = path, fc_query = query, fc_body = body\<rparr> \<Longrightarrow>
     keeps (quiet p marker) (exchange tr meth path query body)"
  unfolding exchange_def by (intro quiet.keeps_rules quiet_send)

lemma same_fs_exchange: "keeps same_fs (exchange tr meth path query body)"
  unfolding exchange_def by (intro same_fs.keeps_rules same_fs_send)

lemma keeps_as_refusal: "keeps R m \<Longrightarrow> keeps R (as_refusal m)"
  by (rule keepsI) (auto simp: as_refusal_def dest: keepsD split: prod.splits sum.splits draft_error.splits)

lemma get_carries_nothing: "\<not> carries marker \<lparr>fc_method = ''GET'', fc_path = path, fc_query = query, fc_body = body\<rparr>"
  by (simp add: carries_def)

lemma walk_keeps: "keeps (quiet p marker) (walk_pages tr s m pages offset expected acc)"
  "keeps same_fs (walk_pages tr s m pages offset expected acc)"
proof (induction pages arbitrary: offset expected acc)
  case 0
  { case 1 show ?case by (simp add: quiet.keeps_pure) }
  { case 2 show ?case by (simp add: same_fs.keeps_pure) }
next
  case (Suc pages)
  { case 1 show ?case
      unfolding walk_pages.simps
      by (intro quiet.keeps_bind keeps_as_refusal quiet_exchange get_carries_nothing quiet.keeps_pure)
        (auto intro!: quiet.keeps_rules Suc split: prod.split) }
  { case 2 show ?case
      unfolding walk_pages.simps
      by (intro same_fs.keeps_bind keeps_as_refusal same_fs_exchange same_fs.keeps_pure)
        (auto intro!: same_fs.keeps_rules Suc split: prod.split) }
qed

lemma adopt_keeps: "keeps (quiet p marker) (adopt tr s m)" "keeps same_fs (adopt tr s m)"
  unfolding adopt_def read_pages_def
  by (intro quiet.keeps_rules walk_keeps, intro same_fs.keeps_rules walk_keeps)

lemma find_draft_quiet: "\<forall>q. p \<noteq> q @ ''.next'' \<Longrightarrow> keeps (quiet p marker) (find_draft sha256 tr s)"
  unfolding find_draft_def Let_def
  by (intro quiet.keeps_bind quiet.keeps_option quiet.keeps_if quiet.keeps_pure quiet_ledger adopt_keeps)

subsection \<open>At most one post\<close>

lemma find_draft_None:
  assumes "find_draft sha256 tr s st = (Inr None, st')"
  shows "fs_names (cs_fs st') (ledger_path (df_spec_version s) (fixture_hash sha256 s)) = None \<and> require_spec s = Inr ()"
proof -
  let ?h = "fixture_hash sha256 s" let ?v = "df_spec_version s"
  have spec: "require_spec s = Inr ()" using assms by (cases "require_spec s") (auto simp: find_draft_def)
  obtain u where g: "ledger_get ?v ?h st = (Inr None, u)" and a: "adopt tr s (draft_marker ?v ?h) u = (Inr None, st')"
    using assms unfolding find_draft_def spec Let_def
    by (auto elim!: bindS_cases simp: returnS_def raiseS_def split: option.splits if_splits)
  have "fs_names (cs_fs u) (ledger_path ?v ?h) = None"
    using g unfolding ledger_get_def
    by (auto elim!: bindS_cases simp: fs_lookup_def on_fs_def returnS_def raiseS_def liftS_def split: option.splits fs_node.splits)
  moreover have "cs_fs st' = cs_fs u" using keepsD [OF adopt_keeps(2) a] by (simp add: same_fs_def)
  ultimately show ?thesis using spec by simp
qed

lemma tick_same: "tick st = (r, st') \<Longrightarrow> cs_fs st' = cs_fs st \<and> cs_sent st' = cs_sent st \<and> cs_world st' = cs_world st"
  by (auto simp: tick_def split: option.splits nat.splits)

lemma on_fs_Inr: "on_fs f st = (Inr x, st') \<Longrightarrow> cs_fs st' = snd (f (cs_fs st)) \<and> fst (f (cs_fs st)) = Inr x"
  unfolding on_fs_def by (auto elim!: bindS_cases dest!: tick_same split: prod.splits)

lemma fs_results:
  "fs_lookup name st = (Inr n, st') \<Longrightarrow> n = fs_names (cs_fs st) name \<and> cs_fs st' = cs_fs st"
  "fs_read i st = (Inr t, st') \<Longrightarrow> t = take 4096 (fs_texts (cs_fs st) i) \<and> cs_fs st' = cs_fs st"
  "fs_create name st = (Inr i, st') \<Longrightarrow> fs_names (cs_fs st') = (fs_names (cs_fs st))(name \<mapsto> Inode i)"
  "fs_write i b st = (Inr v, st') \<Longrightarrow> fs_names (cs_fs st') = fs_names (cs_fs st)"
  "fsync_file i st = (Inr v, st') \<Longrightarrow> fs_names (cs_fs st') = fs_names (cs_fs st)"
  "fsync_dir st = (Inr v, st') \<Longrightarrow> fs_names (cs_fs st') = fs_names (cs_fs st) \<and> fs_synced_names (cs_fs st') = fs_names (cs_fs st)"
  unfolding fs_lookup_def fs_read_def fs_create_def fs_write_def fsync_file_def fsync_dir_def
  by (drule on_fs_Inr, auto split: option.splits)+

lemma create_exclusive_present:
  "create_exclusive path body st = (Inr u, st') \<Longrightarrow> present path st'"
  unfolding create_exclusive_def by (auto elim!: bindS_cases dest!: fs_results simp: present_def)

lemma put_pending_present:
  assumes "fs_names (cs_fs st) (ledger_path v h) = None" and "put_pending v h st = (Inr u, st')"
  shows "present (ledger_path v h) st'"
proof -
  obtain c t where g: "ledger_get v h st = (Inr c, t)"
    and r: "(case c of Some _ \<Rightarrow> returnS () | None \<Rightarrow> create_exclusive (ledger_path v h) (''pending'' @ [NL])) t = (Inr u, st')"
    using assms(2) unfolding put_pending_def by (elim bindS_cases) auto
  have "c = None"
    using g assms(1) unfolding ledger_get_def
    by (auto elim!: bindS_cases dest!: fs_results simp: returnS_def raiseS_def)
  then show ?thesis using r create_exclusive_present by simp
qed

lemma create_carries:
  assumes "require_spec s = Inr ()" and "digests sha256" and "sha256_hex h" and "1 \<le> v"
  shows "carries (draft_marker v h) \<lparr>fc_method = ''POST'', fc_path = path, fc_query = [],
      fc_body = Some (create_body s (draft_marker (df_spec_version s) (fixture_hash sha256 s)))\<rparr> \<longleftrightarrow>
    v = df_spec_version s \<and> h = fixture_hash sha256 s"
proof -
  let ?m = "draft_marker (df_spec_version s) (fixture_hash sha256 s)"
  have s: "1 \<le> df_spec_version s" "marker_lines (df_description s) = []" using assms(1) by (simp_all add: accepted_spec)
  have "sha256_hex (fixture_hash sha256 s)" using assms(2) by (simp add: digests_def fixture_hash_def)
  then have "marker_lines (with_marker (df_description s) ?m) = [?m]"
    using with_marker_lines marker_plain s by simp
  then show ?thesis using marker_inj [OF _ assms(4) s(1)] by (auto simp: carries_def create_body_def)
qed

lemma exchange_posts:
  assumes "exchange tr meth path query body st = (z, u)"
  shows "posts m u \<le> Suc (posts m st) \<and> cs_fs u = cs_fs st"
proof -
  have "posts m u \<le> Suc (posts m v)" if "send t call v = (z, u)" for t call v
    using that unfolding send_def
    by (auto elim!: bindS_cases dest!: tick_same simp: posts_def split: prod.splits)
  then show ?thesis using assms keepsD [OF same_fs_exchange assms] unfolding exchange_def
    by (auto elim!: bindS_cases simp: liftS_def same_fs_def)
qed

lemma post_draft_step:
  assumes "require_spec s = Inr ()" and "digests sha256" and "sha256_hex h" and "1 \<le> v"
    and "fs_names (cs_fs st) (ledger_path (df_spec_version s) (fixture_hash sha256 s)) = None"
    and "post_draft sha256 tr s st = (r, st')"
  shows "quiet (ledger_path v h) (draft_marker v h) st st' \<or>
    \<not> present (ledger_path v h) st \<and> present (ledger_path v h) st' \<and>
    posts (draft_marker v h) st' \<le> Suc (posts (draft_marker v h) st)"
proof -
  let ?h = "fixture_hash sha256 s" let ?v = "df_spec_version s"
  let ?p = "ledger_path v h" let ?m = "draft_marker v h"
  have next': "\<forall>q. ?p \<noteq> q @ ''.next''" using path_not_temporary assms(3) by blast
  have after: "keeps (quiet ?p ?m) (bindS (liftS c) (\<lambda>created. bindS (ledger_record ?v ?h created) (\<lambda>_.
      returnS (receipt_of s ?h (draft_marker ?v ?h) created))))" for c
    by (intro quiet.keeps_rules quiet_ledger next')
  show ?thesis
  proof (cases "v = ?v \<and> h = ?h")
    case False
    then have k: "keeps (quiet ?p ?m) (post_draft sha256 tr s)"
      unfolding post_draft_def create_listing_def Let_def
      by (intro quiet.keeps_rules quiet_ledger next' quiet_exchange) (simp add: create_carries assms)
    show ?thesis using keepsD [OF k] assms(6) by (intro disjI1)
  next
    case True
    then have gone: "\<not> present ?p st" using assms(5) by (simp add: present_def)
    show ?thesis
      using assms(6) unfolding post_draft_def Let_def
    proof (cases rule: bindS_cases)
      case (1 e)
      then have "quiet ?p ?m st st'" by (intro keepsD [OF quiet_ledger(3)])
      then show ?thesis ..
    next
      case (2 x t)
      have t: "present ?p t" "posts ?m t = posts ?m st"
        using put_pending_present [OF assms(5) 2(1)] True keepsD [OF quiet_ledger(3) 2(1)] by (auto simp: quiet_def)
      have "present ?p st' \<and> posts ?m st' \<le> Suc (posts ?m t)" using 2(2)
      proof (cases rule: bindS_cases)
        case (1 e)
        then have "\<exists>z. exchange tr ''POST'' (listings_path (df_shop_id s)) [] (Some (create_body s (draft_marker ?v ?h))) t = (z, st')"
          unfolding create_listing_def by (auto elim!: bindS_cases simp: liftS_def)
        then show ?thesis using exchange_posts t(1) unfolding present_def by metis
      next
        case (2 y u)
        then have "\<exists>z. exchange tr ''POST'' (listings_path (df_shop_id s)) [] (Some (create_body s (draft_marker ?v ?h))) t = (z, u)"
          unfolding create_listing_def by (auto elim!: bindS_cases simp: liftS_def)
        then have "present ?p u \<and> posts ?m u \<le> Suc (posts ?m t)"
          using exchange_posts t(1) unfolding present_def by metis
        moreover have "quiet ?p ?m u st'" using keepsD [OF after [of "Inr y"]] 2(2) by simp
        ultimately show ?thesis by (simp add: quiet_def)
      qed
      then show ?thesis using gone t(2) by simp
    qed
  qed
qed

text \<open>
  The life of a ledger directory: processes run \<open>create_draft\<close> one after another, each until it
  returns, raises or dies at one of its system calls; the machine may lose power between them; the
  shop changes as it likes.
\<close>

inductive draft_life :: "(string \<Rightarrow> string) \<Rightarrow> 'w transport option \<Rightarrow> 'w client_state \<Rightarrow> 'w client_state \<Rightarrow> bool"
  for sha256 :: "string \<Rightarrow> string" and tr :: "'w transport option" where
  start: "draft_life sha256 tr st st"
| run: "draft_life sha256 tr st t \<Longrightarrow> create_draft sha256 tr s (t\<lparr>cs_power := budget\<rparr>) = (r, u) \<Longrightarrow> draft_life sha256 tr st u"
| power_loss: "draft_life sha256 tr st t \<Longrightarrow> power_loss (cs_fs t) fs \<Longrightarrow> draft_life sha256 tr st (t\<lparr>cs_fs := fs\<rparr>)"
| outside: "draft_life sha256 tr st t \<Longrightarrow> draft_life sha256 tr st (t\<lparr>cs_world := w\<rparr>)"

definition posted_once :: "string \<Rightarrow> string \<Rightarrow> 'w client_state \<Rightarrow> bool" where
  "posted_once p m st \<longleftrightarrow> posts m st = 0 \<or> posts m st = 1 \<and> present p st"

lemma create_draft_step:
  assumes "digests sha256" and "sha256_hex h" and "1 \<le> v" and "create_draft sha256 tr s st = (r, st')"
  shows "quiet (ledger_path v h) (draft_marker v h) st st' \<or>
    \<not> present (ledger_path v h) st \<and> present (ledger_path v h) st' \<and>
    posts (draft_marker v h) st' \<le> Suc (posts (draft_marker v h) st)"
proof -
  let ?p = "ledger_path v h" let ?m = "draft_marker v h"
  have f: "keeps (quiet ?p ?m) (find_draft sha256 tr s)"
    by (rule find_draft_quiet) (use path_not_temporary assms(2) in blast)
  show ?thesis using assms(4) unfolding create_draft_def
  proof (cases rule: bindS_cases)
    case (1 e)
    then show ?thesis using keepsD [OF f] by blast
  next
    case (2 x u)
    have q: "quiet ?p ?m st u" using keepsD [OF f 2(1)] .
    show ?thesis
    proof (cases x)
      case None
      have n: "fs_names (cs_fs u) (ledger_path (df_spec_version s) (fixture_hash sha256 s)) = None" "require_spec s = Inr ()"
        using find_draft_None [of sha256 tr s st u] 2(1) None by auto
      show ?thesis
        using post_draft_step [OF n(2) assms(1-3) n(1), of tr r st'] 2(2) None q
        by (auto simp: quiet_def)
    next
      case (Some y)
      then show ?thesis using 2(2) q by (simp add: returnS_def)
    qed
  qed
qed

text \<open>
  C28: Whatever the transport answers, over the whole life of a ledger directory at most one post
  carries the marker of a spec version and hash: retries, refusals, lost responses, dying
  processes and losses of power never make a second one, and after the first the ledger knows the
  draft for good.
\<close>

theorem draft_is_posted_at_most_once:
  assumes "draft_life sha256 tr st st'" and "digests sha256" and "sha256_hex h" and "1 \<le> v"
    and "posts (draft_marker v h) st = 0"
  shows "posts (draft_marker v h) st' \<le> 1 \<and>
    (posts (draft_marker v h) st' = 1 \<longrightarrow> fs_names (cs_fs st') (ledger_path v h) \<noteq> None)"
proof -
  have "posted_once (ledger_path v h) (draft_marker v h) st'"
    using assms(1,5)
  proof (induction rule: draft_life.induct)
    case (start st)
    then show ?case by (simp add: posted_once_def)
  next
    case (run st t s budget r u)
    have "posted_once (ledger_path v h) (draft_marker v h) (t\<lparr>cs_power := budget\<rparr>)"
      using run by (simp add: posted_once_def posts_def present_def)
    then show ?case
      using create_draft_step [OF assms(2,3,4) run(2)] by (auto simp: posted_once_def quiet_def)
  next
    case (power_loss st t fs)
    have "fs_names fs p \<noteq> None \<and> fs_synced_names fs p \<noteq> None" if "present p t" for p
      using that power_loss(2) unfolding power_loss_def present_def by (metis empty_iff insert_iff)
    then show ?case using power_loss by (auto simp: posted_once_def posts_def present_def)
  next
    case (outside st t w)
    then show ?case by (simp add: posted_once_def posts_def present_def)
  qed
  then show ?thesis by (auto simp: posted_once_def present_def)
qed

subsection \<open>Round trips\<close>

lemma hex_digit_decimal: "n < 10 \<Longrightarrow> is_digit (hex_digit n) \<and> int (of_char (hex_digit n)) - 48 = int n"
proof -
  assume "n < 10"
  then have "n \<in> {0, 1, 2, 3, 4, 5, 6, 7, 8, 9}" by auto
  then show ?thesis by (auto simp: hex_digit_def is_digit_def)
qed

lemma str_nat_digits: "all_digits (str_nat n)"
proof (induction n rule: str_nat.induct)
  case (1 n)
  then show ?case
    by (subst str_nat.simps) (auto simp: all_digits_def hex_digit_decimal)
qed

lemma digits_value_str_nat: "digits_value (str_nat n) = int n"
proof (induction n rule: str_nat.induct)
  case (1 n)
  have d: "int (of_char (hex_digit (n mod 10))) - 48 = int (n mod 10)" using hex_digit_decimal [of "n mod 10"] by simp
  show ?case
  proof (cases "n < 10")
    case True
    then show ?thesis by (subst str_nat.simps) (simp add: digits_value_def hex_digit_decimal)
  next
    case False
    then have "digits_value (str_nat n) = 10 * digits_value (str_nat (n div 10)) + int (n mod 10)"
      by (subst str_nat.simps) (simp add: digits_value_def d)
    then show ?thesis using 1 False by (simp add: zdiv_int zmod_int)
  qed
qed

lemma canonical_str_nat: "canonical_int (str_nat n) 0 None"
proof (cases n)
  case 0
  then show ?thesis by (simp add: canonical_int_def str_nat.simps hex_digit_def all_digits_def is_digit_def digits_value_def)
next
  case (Suc k)
  then have "\<not> prefix ''0'' (str_nat n)" using str_nat_leading [of n] by (cases "str_nat n") auto
  then show ?thesis by (simp add: canonical_int_def str_nat_digits digits_value_str_nat)
qed

lemma NL_no_digit: "all_digits s \<Longrightarrow> NL \<notin> set s"
proof
  assume "all_digits s" "NL \<in> set s"
  then have "is_digit NL" by (simp add: all_digits_def list_all_iff)
  then show False by (simp add: is_digit_def NL_def)
qed

definition recorded_text :: "int \<Rightarrow> string" where
  "recorded_text i = ''recorded'' @ [NL] @ str_int i @ [NL]"

lemma parse_recorded:
  assumes "1 \<le> i"
  shows "parse_entry v h (recorded_text i) = Inr \<lparr>le_spec_version = v, le_fixture_hash = h, le_status = L_recorded, le_listing_id = Some i\<rparr>"
proof -
  have d: "str_int i = str_nat (nat i)" using assms by (simp add: str_int_def)
  have "split_on NL (''recorded'' @ NL # str_nat (nat i) @ NL # []) = [''recorded'', str_nat (nat i), []]"
    using NL_no_digit [OF str_nat_digits] by (simp add: split_on_append split_on_plain) (simp add: NL_def)
  then show ?thesis
    using assms by (simp add: parse_entry_def recorded_text_def d str_nat_digits digits_value_str_nat prefix_def)
qed

subsection \<open>Recovery from a lost response\<close>

text \<open>
  What the listing endpoint documents: a read of the drafts of a shop changes nothing and returns
  the page at the offset, of at most a hundred rows, with the number of all drafts.
\<close>

definition pages_law :: "'w transport \<Rightarrow> (int \<Rightarrow> 'w \<Rightarrow> payload list) \<Rightarrow> bool" where
  "pages_law tr rows \<longleftrightarrow> (\<forall>shop offset w. \<exists>p.
     tr \<lparr>fc_method = ''GET'', fc_path = listings_path shop, fc_query = draft_query offset, fc_body = None\<rparr> w = (Inr p, w) \<and>
     page_of p = Inr (map JObj (take PAGE_LIMIT (drop offset (rows shop w))), int (length (rows shop w))))"

lemma listings_path_matches: "1 \<le> shop \<Longrightarrow> listings_match (listings_path shop)"
proof -
  assume "1 \<le> shop"
  then have "str_int shop = str_nat (nat shop)" "0 < nat shop" by (simp_all add: str_int_def)
  then show ?thesis using str_nat_digits str_nat_leading by (simp add: listings_match_def listings_path_def)
qed

lemma draft_query_accepted: "refuse_get (draft_query offset) None = Inr ()"
proof -
  have keys: "fold_keys ''query'' (draft_query offset) = Inr (draft_query offset)"
    by (simp add: fold_keys_def draft_query_def add_key_def lower_str_def lower_char_def py_strip_def python_white_def
      is_white_def Let_def)
  have limit: "canonical_int (str_nat PAGE_LIMIT) 1 (Some (int PAGE_LIMIT))"
    using canonical_str_nat [of PAGE_LIMIT] by (simp add: canonical_int_def digits_value_str_nat PAGE_LIMIT_def Let_def all_digits_def is_digit_def split: if_splits)
  show ?thesis using limit canonical_str_nat
    by (simp add: refuse_get_def keys) (simp add: draft_query_def GET_KEYS_def)
qed

lemma exchange_page:
  assumes "pages_law tr rows" and "1 \<le> shop" and "cs_power st = None"
  shows "\<exists>p. exchange (Some tr) ''GET'' (listings_path shop) (draft_query offset) None st =
      (Inr p, st\<lparr>cs_sent := cs_sent st @ [\<lparr>fc_method = ''GET'', fc_path = listings_path shop,
        fc_query = draft_query offset, fc_body = None\<rparr>]\<rparr>) \<and>
    page_of p = Inr (map JObj (take PAGE_LIMIT (drop offset (rows shop (cs_world st)))), int (length (rows shop (cs_world st))))"
proof -
  obtain p where p: "tr \<lparr>fc_method = ''GET'', fc_path = listings_path shop, fc_query = draft_query offset, fc_body = None\<rparr> (cs_world st) =
      (Inr p, cs_world st)"
    "page_of p = Inr (map JObj (take PAGE_LIMIT (drop offset (rows shop (cs_world st)))), int (length (rows shop (cs_world st))))"
    using assms(1) unfolding pages_law_def by meson
  have "tick st = (Inr (), st)" using assms(3) by (simp add: tick_def)
  then have "exchange (Some tr) ''GET'' (listings_path shop) (draft_query offset) None st =
      (Inr p, st\<lparr>cs_sent := cs_sent st @ [\<lparr>fc_method = ''GET'', fc_path = listings_path shop,
        fc_query = draft_query offset, fc_body = None\<rparr>]\<rparr>)"
    using p(1) listings_path_matches [OF assms(2)]
    by (simp add: exchange_def measured_pair_def MEASURED_ALLOWLIST_def draft_query_accepted send_def)
  then show ?thesis using p(2) by blast
qed

definition reads_only :: "fixture_call list \<Rightarrow> bool" where
  "reads_only calls \<longleftrightarrow> (\<forall>c \<in> set calls. fc_method c = ''GET'')"

definition settled_walk :: "walk_state \<Rightarrow> walk_state" where
  "settled_walk acc = acc\<lparr>wk_ids := sort (wk_ids acc), wk_texts := sort (wk_texts acc)\<rparr>"

lemma read_row_ids: "read_row m row acc = Inr acc' \<Longrightarrow> length (wk_ids acc') = Suc (length (wk_ids acc))"
  by (auto simp: read_row_def bindE_eq_Inr Let_def split: json.splits option.splits if_splits)

lemma read_rows_ids: "foldE (read_row m) rows acc = Inr acc' \<Longrightarrow> length (wk_ids acc') = length (wk_ids acc) + length rows"
  by (induction rows arbitrary: acc) (auto simp: bindE_eq_Inr dest!: read_row_ids)

lemma walk_honest:
  assumes "pages_law tr rows" and "1 \<le> df_shop_id s"
    and "cs_power st = None" and "R = rows (df_shop_id s) (cs_world st)"
    and "offset \<le> length R" and "length R < offset + PAGE_LIMIT * pages" and "length (wk_ids acc) = offset"
    and "expected = None \<or> expected = Some (int (length R))"
    and "foldE (read_row m) (map JObj (drop offset R)) acc = Inr acc'"
  shows "\<exists>calls. reads_only calls \<and>
    walk_pages (Some tr) s m pages offset expected acc st = (Inr (settled_walk acc'), st\<lparr>cs_sent := cs_sent st @ calls\<rparr>)"
  using assms(3-)
proof (induction pages arbitrary: offset expected acc st)
  case 0
  then show ?case by simp
next
  case (Suc pages)
  let ?call = "\<lparr>fc_method = ''GET'', fc_path = listings_path (df_shop_id s), fc_query = draft_query offset, fc_body = None\<rparr>"
  let ?page = "take PAGE_LIMIT (drop offset R)"
  let ?u = "st\<lparr>cs_sent := cs_sent st @ [?call]\<rparr>"
  obtain p where p: "exchange (Some tr) ''GET'' (listings_path (df_shop_id s)) (draft_query offset) None st = (Inr p, ?u)"
    "page_of p = Inr (map JObj ?page, int (length R))"
    using exchange_page [OF assms(1,2) Suc.prems(1), of offset] Suc.prems(2) by blast
  have split: "map JObj (drop offset R) = map JObj ?page @ map JObj (drop PAGE_LIMIT (drop offset R))"
    by (metis append_take_drop_id map_append)
  obtain mid where mid: "foldE (read_row m) (map JObj ?page) acc = Inr mid"
    "foldE (read_row m) (map JObj (drop PAGE_LIMIT (drop offset R))) mid = Inr acc'"
    using Suc.prems(7) unfolding split foldE_append bindE_eq_Inr by blast
  have ids: "length (wk_ids mid) = offset + length ?page" using read_rows_ids [OF mid(1)] Suc.prems(5) by simp
  have walk: "walk_pages (Some tr) s m (Suc pages) offset expected acc st =
     (if length ?page < PAGE_LIMIT
      then bindS (liftS (guardE (int (length (wk_ids mid)) = int (length R)) (Refused ''count''))) (\<lambda>_. returnS (settled_walk mid)) ?u
      else walk_pages (Some tr) s m pages (offset + PAGE_LIMIT) (Some (int (length R))) mid ?u)"
    using p Suc.prems(6) mid(1) by (simp add: as_refusal_def settled_walk_def)
  show ?case
  proof (cases "length ?page < PAGE_LIMIT")
    case True
    then have l: "length (drop offset R) < PAGE_LIMIT" by simp
    then have "mid = acc'" using mid(2) by simp
    moreover have "length (wk_ids mid) = length R" using ids l Suc.prems(3) by simp
    ultimately show ?thesis using True l unfolding walk
      by (intro exI [of _ "[?call]"]) (simp add: reads_only_def returnS_def)
  next
    case False
    then have o: "offset + PAGE_LIMIT \<le> length R" "length ?page = PAGE_LIMIT" by (simp_all add: PAGE_LIMIT_def)
    have "\<exists>calls. reads_only calls \<and> walk_pages (Some tr) s m pages (offset + PAGE_LIMIT) (Some (int (length R))) mid ?u =
        (Inr (settled_walk acc'), ?u\<lparr>cs_sent := cs_sent ?u @ calls\<rparr>)"
      using Suc.prems o ids mid(2) by (intro Suc.IH) (simp_all add: add.commute)
    then obtain calls where c: "reads_only calls" "walk_pages (Some tr) s m pages (offset + PAGE_LIMIT) (Some (int (length R))) mid ?u =
        (Inr (settled_walk acc'), ?u\<lparr>cs_sent := cs_sent ?u @ calls\<rparr>)" by blast
    then show ?thesis using False unfolding walk by (intro exI [of _ "?call # calls"]) (simp add: reads_only_def)
  qed
qed

text \<open>The rows of a shop in which exactly one draft is ours.\<close>

definition our_row :: "string \<Rightarrow> payload \<Rightarrow> bool" where
  "our_row m row \<longleftrightarrow> line_marker (map_of row ''description'') m = Inr True"

definition readable_rows :: "string \<Rightarrow> payload list \<Rightarrow> bool" where
  "readable_rows m R \<longleftrightarrow> (\<forall>row \<in> set R. (\<exists>n. map_of row ''listing_id'' = Some (JInt n)) \<and>
     \<not> isl (line_marker (map_of row ''description'') m)) \<and> distinct (map (\<lambda>row. map_of row ''listing_id'') R)"

lemma read_rows_honest:
  assumes "readable_rows m R"
    and "\<forall>row \<in> set R. our_row m row \<longrightarrow> draft_listing_id row None = Inr i"
    and "length (filter (our_row m) R) + (if wk_found acc = None then 0 else 1) \<le> 1"
    and "\<forall>n \<in> set (wk_ids acc). Some (JInt n) \<notin> (\<lambda>row. map_of row ''listing_id'') ` set R"
  shows "\<exists>acc'. foldE (read_row m) (map JObj R) acc = Inr acc' \<and>
    wk_found acc' = (if \<exists>row \<in> set R. our_row m row then Some i else wk_found acc)"
  using assms
proof (induction R arbitrary: acc)
  case Nil
  then show ?case by simp
next
  case (Cons row R)
  obtain n where n: "map_of row ''listing_id'' = Some (JInt n)" using Cons.prems(1) by (auto simp: readable_rows_def)
  obtain b where b: "line_marker (map_of row ''description'') m = Inr b"
    using Cons.prems(1) by (cases "line_marker (map_of row ''description'') m") (auto simp: readable_rows_def)
  let ?acc = "acc\<lparr>wk_ids := wk_ids acc @ [n], wk_texts := wk_texts acc @ [row_text (map_of row ''description'')],
    wk_found := if b then Some i else wk_found acc\<rparr>"
  have fresh: "n \<notin> set (wk_ids acc)" using Cons.prems(4) n by auto
  have rest: "readable_rows m R" "Some (JInt n) \<notin> (\<lambda>row. map_of row ''listing_id'') ` set R"
    using Cons.prems(1) n by (auto simp: readable_rows_def)
  have step: "read_row m (JObj row) acc = Inr ?acc"
    using n b fresh Cons.prems(2,3) by (auto simp: read_row_def our_row_def split: if_splits)
  have "\<exists>acc'. foldE (read_row m) (map JObj R) ?acc = Inr acc' \<and>
      wk_found acc' = (if \<exists>row \<in> set R. our_row m row then Some i else wk_found ?acc)"
    by (rule Cons.IH) (use Cons.prems rest b in \<open>auto simp: our_row_def\<close>)
  then show ?case using step b by (auto simp: our_row_def)
qed

lemma adopt_honest:
  assumes "pages_law tr rows" and "1 \<le> df_shop_id s" and "cs_power st = None"
    and "R = rows (df_shop_id s) (cs_world st)" and "length R < PAGE_LIMIT * PAGE_CAP" and "readable_rows m R"
    and "length (filter (our_row m) R) \<le> 1" and "\<forall>row \<in> set R. our_row m row \<longrightarrow> draft_listing_id row None = Inr i"
  shows "\<exists>calls. reads_only calls \<and> adopt (Some tr) s m st =
    (Inr (if \<exists>row \<in> set R. our_row m row then Some i else None), st\<lparr>cs_sent := cs_sent st @ calls\<rparr>)"
proof -
  let ?acc = "\<lparr>wk_found = None, wk_ids = [], wk_texts = []\<rparr> :: walk_state"
  obtain acc' where acc': "foldE (read_row m) (map JObj R) ?acc = Inr acc'"
    "wk_found acc' = (if \<exists>row \<in> set R. our_row m row then Some i else None)"
    using read_rows_honest [OF assms(6,8), of ?acc] assms(7) by auto
  have walk: "\<exists>calls. reads_only calls \<and> read_pages (Some tr) s m st' = (Inr (settled_walk acc'), st'\<lparr>cs_sent := cs_sent st' @ calls\<rparr>)"
    if "cs_power st' = None" "cs_world st' = cs_world st" for st'
    unfolding read_pages_def using that acc'(1) assms(4,5) by (intro walk_honest [OF assms(1,2), of st' R]) auto
  obtain c1 where c1: "reads_only c1" "read_pages (Some tr) s m st = (Inr (settled_walk acc'), st\<lparr>cs_sent := cs_sent st @ c1\<rparr>)"
    using walk [of st] assms(3) by blast
  obtain c2 where c2: "reads_only c2" "read_pages (Some tr) s m (st\<lparr>cs_sent := cs_sent st @ c1\<rparr>) =
      (Inr (settled_walk acc'), st\<lparr>cs_sent := (cs_sent st @ c1) @ c2\<rparr>)"
    using walk [of "st\<lparr>cs_sent := cs_sent st @ c1\<rparr>"] assms(3) by auto
  show ?thesis
    using c1 c2 acc'(2) by (intro exI [of _ "c1 @ c2"]) (auto simp: adopt_def reads_only_def returnS_def settled_walk_def)
qed

lemma on_fs_powered: "cs_power st = None \<Longrightarrow> on_fs f st = (case f (cs_fs st) of (r, fs) \<Rightarrow> (r, st\<lparr>cs_fs := fs\<rparr>))"
  by (simp add: on_fs_def tick_def bindS_def)

lemmas fs_powered = on_fs_powered fs_lookup_def fs_read_def fs_create_def fs_write_def fsync_file_def fsync_dir_def
  fs_unlink_def fs_replace_def

lemma ledger_record_ok:
  assumes "cs_power st = None"
  shows "\<exists>fs k. ledger_record v h i st = (Inr (), st\<lparr>cs_fs := fs\<rparr>) \<and>
    fs_names fs (ledger_path v h) = Some (Inode k) \<and> fs_synced_names fs (ledger_path v h) = Some (Inode k) \<and>
    fs_texts fs k = recorded_text i \<and> fs_synced_texts fs k = recorded_text i"
  using assms
  by (simp add: ledger_record_def create_exclusive_def Let_def bindS_def fs_powered recorded_text_def)
    (intro exI conjI, rule refl, simp_all, simp_all)

lemma ledger_get_node:
  assumes "cs_power st = None" and "fs_names (cs_fs st) (ledger_path v h) = Some (Inode k)"
    and "parse_entry v h (take 4096 (fs_texts (cs_fs st) k)) = Inr e"
  shows "ledger_get v h st = (Inr (Some e), st)"
  using assms by (simp add: ledger_get_def bindS_def fs_powered returnS_def liftS_def)

lemma parse_pending: "parse_entry v h (take 4096 (''pending'' @ [NL])) =
    Inr \<lparr>le_spec_version = v, le_fixture_hash = h, le_status = L_pending, le_listing_id = None\<rparr>"
  by (simp add: parse_entry_def)

lemma recorded_again:
  assumes "require_spec s = Inr ()" and "cs_power st = None" and "1 \<le> i" and "length (str_int i) \<le> 4086"
    and "fs_names (cs_fs st) (ledger_path (df_spec_version s) (fixture_hash sha256 s)) = Some (Inode k)"
    and "fs_texts (cs_fs st) k = recorded_text i"
  shows "create_draft sha256 tr s st = (Inr (receipt_of s (fixture_hash sha256 s)
    (draft_marker (df_spec_version s) (fixture_hash sha256 s)) i), st)"
proof -
  have "take 4096 (fs_texts (cs_fs st) k) = recorded_text i" using assms(4,6) by (simp add: recorded_text_def)
  then have "ledger_get (df_spec_version s) (fixture_hash sha256 s) st = (Inr (Some \<lparr>le_spec_version = df_spec_version s,
      le_fixture_hash = fixture_hash sha256 s, le_status = L_recorded, le_listing_id = Some i\<rparr>), st)"
    using ledger_get_node [OF assms(2,5)] parse_recorded [OF assms(3)] by simp
  then show ?thesis by (simp add: create_draft_def find_draft_def assms(1) Let_def returnS_def)
qed

text \<open>
  C29: When a post was made and its response or the recording of it was lost, a retry finds the draft:
  at a shop that pages as documented, with fewer than a thousand drafts of which exactly one
  carries the marker, and with no or a pending ledger row, the client returns the receipt of that
  draft having made reads only; and from then on, even after a loss of power, it returns this
  receipt without asking the shop.
\<close>

theorem lost_response_is_adopted:
  assumes "pages_law tr rows" and "require_spec s = Inr ()" and "cs_power st = None"
    and "h = fixture_hash sha256 s" and "m = draft_marker (df_spec_version s) h"
    and "R = rows (df_shop_id s) (cs_world st)" and "length R < 1000" and "readable_rows m R"
    and "filter (our_row m) R = [row]" and "draft_listing_id row None = Inr i" and "length (str_int i) \<le> 4086"
    and "fs_names (cs_fs st) (ledger_path (df_spec_version s) h) = None \<or>
      (\<exists>k. fs_names (cs_fs st) (ledger_path (df_spec_version s) h) = Some (Inode k) \<and>
        fs_texts (cs_fs st) k = ''pending'' @ [NL])"
  shows "\<exists>calls st'. create_draft sha256 (Some tr) s st = (Inr (receipt_of s h m i), st') \<and>
    cs_sent st' = cs_sent st @ calls \<and> reads_only calls \<and>
    (\<forall>fs w tr'. power_loss (cs_fs st') fs \<longrightarrow> create_draft sha256 tr' s (st'\<lparr>cs_fs := fs, cs_world := w\<rparr>) =
      (Inr (receipt_of s h m i), st'\<lparr>cs_fs := fs, cs_world := w\<rparr>))"
proof -
  have i: "1 \<le> i" using assms(10) by (auto simp: draft_listing_id_def bindE_eq_Inr split: option.splits json.splits if_splits)
  have "r = row" if "r \<in> set R" "our_row m r" for r
  proof -
    have "r \<in> set (filter (our_row m) R)" using that by simp
    then show ?thesis using assms(9) by simp
  qed
  moreover have "\<exists>r \<in> set R. our_row m r" using assms(9) by (metis filter_empty_conv list.discI)
  ultimately obtain calls where c: "reads_only calls" and a: "adopt (Some tr) s m st = (Inr (Some i), st\<lparr>cs_sent := cs_sent st @ calls\<rparr>)"
    using adopt_honest [OF assms(1) _ assms(3,6) _ assms(8), of i] assms(2,7,9,10)
    by (auto simp: accepted_spec PAGE_LIMIT_def PAGE_CAP_def)
  obtain fs k where f: "ledger_record (df_spec_version s) h i (st\<lparr>cs_sent := cs_sent st @ calls\<rparr>) =
      (Inr (), st\<lparr>cs_sent := cs_sent st @ calls, cs_fs := fs\<rparr>)"
    "fs_names fs (ledger_path (df_spec_version s) h) = Some (Inode k)"
    "fs_synced_names fs (ledger_path (df_spec_version s) h) = Some (Inode k)"
    "fs_texts fs k = recorded_text i" "fs_synced_texts fs k = recorded_text i"
    using ledger_record_ok [of "st\<lparr>cs_sent := cs_sent st @ calls\<rparr>" "df_spec_version s" h i] assms(3) by auto
  have g: "ledger_get (df_spec_version s) h st = (Inr None, st) \<or>
      ledger_get (df_spec_version s) h st = (Inr (Some \<lparr>le_spec_version = df_spec_version s, le_fixture_hash = h,
        le_status = L_pending, le_listing_id = None\<rparr>), st)"
    using assms(12)
  proof
    assume "fs_names (cs_fs st) (ledger_path (df_spec_version s) h) = None"
    then show ?thesis using assms(3) by (simp add: ledger_get_def bindS_def fs_powered returnS_def)
  next
    assume "\<exists>k. fs_names (cs_fs st) (ledger_path (df_spec_version s) h) = Some (Inode k) \<and> fs_texts (cs_fs st) k = ''pending'' @ [NL]"
    then show ?thesis using ledger_get_node [OF assms(3)] parse_pending by metis
  qed
  let ?t = "st\<lparr>cs_sent := cs_sent st @ calls, cs_fs := fs\<rparr>"
  have "create_draft sha256 (Some tr) s st = (Inr (receipt_of s h m i), ?t)"
    using g a f(1) assms(2,4,5) by (auto simp: create_draft_def find_draft_def Let_def returnS_def)
  moreover have "create_draft sha256 tr' s (?t\<lparr>cs_fs := fs', cs_world := w\<rparr>) = (Inr (receipt_of s h m i), ?t\<lparr>cs_fs := fs', cs_world := w\<rparr>)"
    if "power_loss fs fs'" for fs' w tr'
  proof -
    have "fs_names fs' (ledger_path (df_spec_version s) h) = Some (Inode k)" "fs_texts fs' k = recorded_text i"
      using that f(2-5) unfolding power_loss_def by (metis empty_iff insert_iff)+
    then show ?thesis
      using recorded_again [OF assms(2) _ i assms(11), of "?t\<lparr>cs_fs := fs', cs_world := w\<rparr>"] assms(3,4,5) by simp
  qed
  ultimately show ?thesis using c by (intro exI [of _ calls] exI [of _ ?t]) simp
qed

subsection \<open>An example shop\<close>

text \<open>A shop that stores what is posted; with \<open>lose\<close> the response of a post is lost.\<close>

definition example_shop :: "bool \<Rightarrow> payload list transport" where
  "example_shop lose call rows = (if fc_method call = ''GET''
     then (let offset = (case map_of (fc_query call) ''offset'' of None \<Rightarrow> 0 | Some v \<Rightarrow> nat (digits_value v)) in
       (Inr [(''results'', JList (map JObj (take PAGE_LIMIT (drop offset rows)))), (''count'', JInt (int (length rows)))], rows))
     else (let d = (case Option.bind (fc_body call) (\<lambda>b. map_of b ''description'') of None \<Rightarrow> [] | Some d \<Rightarrow> d);
         row = [(''listing_id'', JInt (100 + int (length rows))), (''state'', JStr ''draft''), (''description'', JStr d)] in
       (if lose then Inl () else Inr row, rows @ [row])))"

lemma example_shop_pages: "pages_law (example_shop lose) (\<lambda>shop rows. rows)"
  by (simp add: pages_law_def example_shop_def draft_query_def digits_value_str_nat page_of_def)

definition example_digest :: "string \<Rightarrow> string" where
  "example_digest text = replicate 64 (CHR ''a'')"

definition example_draft_spec :: draft_spec where
  "example_draft_spec = \<lparr>df_product_id = 1, df_spec_version = 1, df_shop_id = 7, df_title = ''Planner'', df_description = ''Text'',
     df_price = ''5'', df_quantity = 999, df_who_made = ''i_did'', df_when_made = ''made_to_order'', df_taxonomy_id = 3\<rparr>"

definition example_directory :: filesystem where
  "example_directory = \<lparr>fs_names = (\<lambda>_. None), fs_synced_names = (\<lambda>_. None), fs_texts = (\<lambda>_. []), fs_synced_texts = (\<lambda>_. []), fs_next = 0\<rparr>"

definition example_client :: "payload list client_state" where
  "example_client = \<lparr>cs_fs = example_directory, cs_world = [], cs_sent = [], cs_power = None\<rparr>"

definition example_marker :: string where
  "example_marker = draft_marker 1 (fixture_hash example_digest example_draft_spec)"

lemma example_digests: "digests example_digest"
  by (simp add: digests_def example_digest_def sha256_hex_def list_all_iff)

text \<open>What the run left: the call has failed, the shop has the draft, the ledger row is pending.\<close>

definition example_run_left :: "(draft_error + draft_receipt) \<times> payload list client_state \<Rightarrow> bool" where
  "example_run_left run = (case run of (r, st) \<Rightarrow> r = Inl Transport_Error \<and> posts example_marker st = 1 \<and> cs_power st = None \<and>
     list_all (\<lambda>row. our_row example_marker row \<and> draft_listing_id row None = Inr 100) (cs_world st) \<and> length (cs_world st) = 1 \<and>
     (case fs_names (cs_fs st) (ledger_path 1 (fixture_hash example_digest example_draft_spec)) of
        Some (Inode k) \<Rightarrow> fs_texts (cs_fs st) k = ''pending'' @ [NL] | _ \<Rightarrow> False))"

lemma example_lost_left:
  "example_run_left (create_draft example_digest (Some (example_shop True)) example_draft_spec example_client)"
  by code_simp

definition example_lost :: "payload list client_state" where
  "example_lost = snd (create_draft example_digest (Some (example_shop True)) example_draft_spec example_client)"

lemma example_lost_state:
  shows "create_draft example_digest (Some (example_shop True)) example_draft_spec example_client = (Inl Transport_Error, example_lost)"
    and "posts example_marker example_lost = 1" and "cs_power example_lost = None"
    and "\<exists>row. cs_world example_lost = [row] \<and> our_row example_marker row \<and> draft_listing_id row None = Inr 100"
    and "\<exists>k. fs_names (cs_fs example_lost) (ledger_path 1 (fixture_hash example_digest example_draft_spec)) = Some (Inode k) \<and>
      fs_texts (cs_fs example_lost) k = ''pending'' @ [NL]"
  using example_lost_left unfolding example_lost_def example_run_left_def
  by (auto simp: split_beta prod_eq_iff length_Suc_conv split: option.splits fs_node.splits)

theorem draft_is_posted_at_most_once_witness:
  "posts example_marker example_lost = 1 \<and>
   fs_names (cs_fs example_lost) (ledger_path 1 (fixture_hash example_digest example_draft_spec)) \<noteq> None"
proof -
  have p: "example_client\<lparr>cs_power := None\<rparr> = example_client" by (simp add: example_client_def)
  have l: "draft_life example_digest (Some (example_shop True)) example_client example_lost"
    by (rule draft_life.run [OF draft_life.start, where budget = None]) (unfold p, rule example_lost_state(1))
  have h: "sha256_hex (fixture_hash example_digest example_draft_spec)"
    using example_digests by (simp add: digests_def fixture_hash_def)
  have z: "posts example_marker example_client = 0" by (simp add: posts_def example_client_def)
  show ?thesis
    using draft_is_posted_at_most_once [OF l example_digests h, of 1] z example_lost_state(2)
    by (simp add: example_marker_def)
qed

theorem lost_response_is_adopted_witness:
  "\<exists>st'. create_draft example_digest (Some (example_shop False)) example_draft_spec example_lost =
      (Inr (receipt_of example_draft_spec (fixture_hash example_digest example_draft_spec) example_marker 100), st') \<and>
    posts example_marker st' = 1"
proof -
  obtain row where r: "cs_world example_lost = [row]" "our_row example_marker row" "draft_listing_id row None = Inr 100"
    using example_lost_state(4) by blast
  have spec: "require_spec example_draft_spec = Inr ()" by code_simp
  have v: "df_spec_version example_draft_spec = 1" by (simp add: example_draft_spec_def)
  obtain n where n: "map_of row ''listing_id'' = Some (JInt n)"
    using r(3) by (auto simp: draft_listing_id_def bindE_eq_Inr split: option.splits json.splits)
  have "readable_rows example_marker [row]" using n r(2) by (simp add: readable_rows_def our_row_def)
  then obtain calls st' where c: "create_draft example_digest (Some (example_shop False)) example_draft_spec example_lost =
      (Inr (receipt_of example_draft_spec (fixture_hash example_digest example_draft_spec) example_marker 100), st')"
    "cs_sent st' = cs_sent example_lost @ calls" "reads_only calls"
    using lost_response_is_adopted [OF example_shop_pages spec example_lost_state(3) refl refl refl,
        of example_digest row 100 False] r example_lost_state(5) v
    by (auto simp: example_marker_def str_int_def str_nat.simps)
  have "filter (carries example_marker) calls = []"
    using c(3) by (auto simp: reads_only_def carries_def filter_empty_conv)
  then have "posts example_marker st' = 1" using c(2) example_lost_state(2) by (simp add: posts_def)
  then show ?thesis using c(1) by blast
qed

text \<open>
  Two processes that both looked before either wrote: the second finds the row of the first, which
  \<^verbatim>\<open>put_pending\<close> accepts silently although it creates with \<^verbatim>\<open>O_EXCL\<close>, and posts the same draft again.
\<close>

theorem interleaved_clients_post_twice:
  "case find_draft example_digest (Some (example_shop False)) example_draft_spec example_client of (r1, st1) \<Rightarrow>
   case find_draft example_digest (Some (example_shop False)) example_draft_spec st1 of (r2, st2) \<Rightarrow>
   case post_draft example_digest (Some (example_shop False)) example_draft_spec st2 of (r3, st3) \<Rightarrow>
   case post_draft example_digest (Some (example_shop False)) example_draft_spec st3 of (r4, st4) \<Rightarrow>
     r1 = Inr None \<and> r2 = Inr None \<and> \<not> isl r3 \<and> \<not> isl r4 \<and> posts example_marker st4 = 2 \<and> length (cs_world st4) = 2"
  by code_simp

end
