(* ===== verification/Draft_Effects.thy ===== *)
theory Draft_Effects
  imports Idempotency Maturity Contracts Workflow_Config "HOL-Library.Multiset"
begin

section \<open>Effects of the one-product draft run\<close>

text \<open>
  \<^verbatim>\<open>application/real_draft_authority.py\<close> and \<^verbatim>\<open>application/real_draft_effects.py\<close>: the fixed authority
  of a run, and the execution of one external effect over the canonical reservations, attempts and
  receipts.

  Each database transaction of \<^verbatim>\<open>execute\<close> is a definition from the database to an error, which rolls
  back, or a result with the new database. Between them the coroutine waits for the provider, so
  \<open>advance\<close> runs a process from one transaction or provider call to the next and \<open>effect_step\<close>
  interleaves any number of processes, crashes and foreign changes. \<open>execute\<close> is one process run to
  its end. The adapter is an argument with its \<^verbatim>\<open>create\<close> and \<^verbatim>\<open>reconcile\<close>; \<open>pr_creates\<close> records for
  each call of \<^verbatim>\<open>create\<close> its key and whether it was refused. Shop names are an argument, a lookup by
  shop id, and so are the clock, the row ids and Python's text of a JSON container.
\<close>

subsection \<open>Authority\<close>

datatype draft_failure =
    Run_Refused string
  | Effect_Uncertain string
  | Db_Error error
  | Provider_Error

text \<open>A finite \<^verbatim>\<open>Decimal\<close> is a coefficient and an exponent.\<close>

datatype draft_amount = Decimal int int | Not_Finite

datatype readback_source = Real_Api | Real_Browser | Fixture_Source

record draft_readback_proof =
  rp_run_id :: string
  rp_product_id :: uuid
  rp_shop_name :: string
  rp_shop_id :: int
  rp_listing_id :: int
  rp_state :: string
  rp_source :: readback_source
  rp_verified :: bool
  rp_observed_at :: py_datetime
  rp_copy_sha256 :: string
  rp_image_ids :: "int list"
  rp_video_ids :: "int list"
  rp_file_ids :: "int list"

definition validate_readback_proof :: "draft_readback_proof \<Rightarrow> error + draft_readback_proof" where
  "validate_readback_proof p =
     bindE (guardE (rp_run_id p \<noteq> [] \<and> length (rp_run_id p) \<le> 128 \<and> rp_shop_name p \<noteq> [] \<and> length (rp_shop_name p) \<le> 64 \<and>
       0 < rp_shop_id p \<and> 0 < rp_listing_id p \<and> rp_state p \<noteq> [] \<and> length (rp_state p) \<le> 32 \<and> sha256_hex (rp_copy_sha256 p) \<and>
       list_all (\<lambda>i. 0 < i) (rp_image_ids p @ rp_video_ids p @ rp_file_ids p)) (ValueError ''field'')) (\<lambda>_.
     bindE (guardE (utcoffset (rp_observed_at p) \<noteq> None) (ValueError ''readback timestamp must be timezone-aware'')) (\<lambda>_.
     bindE (guardE (list_all distinct [rp_image_ids p, rp_video_ids p, rp_file_ids p])
       (ValueError ''duplicate attachment identifiers'')) (\<lambda>_. Inr p)))"

record draft_run_authority =
  da_run_id :: string
  da_product_id :: uuid
  da_shop_name :: string
  da_verified_shop_id :: "int option"
  da_verified_notion_parent_id :: "uuid option"

definition SHOP_NAME :: string where "SHOP_NAME = ''QuietlyBuiltStudio''"

definition run_id_ok :: "string \<Rightarrow> bool" where
  "run_id_ok s = (case s of [] \<Rightarrow> False | c # cs \<Rightarrow>
     (is_upper c \<or> is_lower c \<or> is_digit c) \<and> length cs \<le> 127 \<and>
     list_all (\<lambda>c. is_upper c \<or> is_lower c \<or> is_digit c \<or> c \<in> set ''_.-'') cs)"

definition validate_authority_scope :: "draft_run_authority \<Rightarrow> error + draft_run_authority" where
  "validate_authority_scope a =
     bindE (guardE (run_id_ok (da_run_id a) \<and> da_shop_name a = SHOP_NAME \<and>
       (case da_verified_shop_id a of None \<Rightarrow> True | Some i \<Rightarrow> 0 < i)) (ValueError ''field'')) (\<lambda>_. Inr a)"

definition ALLOWED_OPERATIONS :: "string set" where
  "ALLOWED_OPERATIONS = {''local.render'', ''local.qa'', ''notion.private_product.read'', ''notion.private_product.write'',
     ''notion.private_variant.read'', ''notion.private_variant.write'', ''etsy.create_draft'', ''etsy.upload_image'',
     ''etsy.upload_video'', ''etsy.upload_file'', ''etsy.read_draft''}"

definition MAX_READBACK_AGE :: duration where "MAX_READBACK_AGE = 5 * 60 * 1000000"

record authority_request =
  aq_run_id :: string
  aq_product_id :: uuid
  aq_shop_name :: "string option"
  aq_shop_id :: "int option"
  aq_notion_parent_id :: "uuid option"
  aq_listing_state :: string
  aq_cost :: draft_amount
  aq_price :: "draft_amount option"

definition zero_amount :: "draft_amount \<Rightarrow> bool" where
  "zero_amount x = (case x of Not_Finite \<Rightarrow> False | Decimal coefficient _ \<Rightarrow> coefficient = 0)"

definition positive_amount :: "draft_amount \<Rightarrow> bool" where
  "positive_amount x = (case x of Not_Finite \<Rightarrow> False | Decimal coefficient _ \<Rightarrow> 0 < coefficient)"

definition authorize :: "draft_run_authority \<Rightarrow> string \<Rightarrow> authority_request \<Rightarrow> draft_failure + unit" where
  "authorize a operation q =
     bindE (guardE (operation \<in> ALLOWED_OPERATIONS) (Run_Refused ''operation_not_authorized'')) (\<lambda>_.
     bindE (guardE (\<not> (aq_run_id q \<noteq> da_run_id a \<or> aq_product_id q \<noteq> da_product_id a)) (Run_Refused ''run_product_scope'')) (\<lambda>_.
     bindE (guardE (zero_amount (aq_cost q)) (Run_Refused ''zero_spend_required'')) (\<lambda>_.
     bindE (guardE (case aq_price q of None \<Rightarrow> True | Some p \<Rightarrow> positive_amount p)
       (Run_Refused ''positive_listing_price_required'')) (\<lambda>_.
     bindE (guardE (case aq_shop_name q of None \<Rightarrow> True | Some n \<Rightarrow> n = da_shop_name a) (Run_Refused ''shop_scope'')) (\<lambda>_.
     bindE (guardE (case aq_shop_id q of None \<Rightarrow> True | Some i \<Rightarrow> Some i = da_verified_shop_id a) (Run_Refused ''shop_scope'')) (\<lambda>_.
     bindE (guardE (aq_listing_state q = ''draft'') (Run_Refused ''draft_state_required'')) (\<lambda>_.
     bindE (guardE (\<not> (prefix ''notion.'' operation \<and> (da_verified_notion_parent_id a = None \<or>
         aq_notion_parent_id q \<noteq> da_verified_notion_parent_id a))) (Run_Refused ''verified_notion_parent_required'')) (\<lambda>_.
     guardE (\<not> (prefix ''etsy.'' operation \<and> (da_verified_shop_id a = None \<or> aq_shop_id q \<noteq> da_verified_shop_id a \<or>
         aq_shop_name q \<noteq> Some (da_shop_name a)))) (Run_Refused ''verified_shop_required'')))))))))"

definition attachments_match :: "int list \<Rightarrow> int \<Rightarrow> bool" where
  "attachments_match actual expected \<longleftrightarrow> \<not> (expected < 1 \<or> int (length actual) \<noteq> expected)"

definition verify_readback :: "draft_run_authority \<Rightarrow> draft_readback_proof \<Rightarrow> int \<Rightarrow> string \<Rightarrow> py_datetime \<Rightarrow> int \<Rightarrow> int \<Rightarrow> int \<Rightarrow>
    draft_failure + unit" where
  "verify_readback a p expected_listing_id expected_copy_sha256 now images videos files =
     bindE (authorize a ''etsy.read_draft'' \<lparr>aq_run_id = rp_run_id p, aq_product_id = rp_product_id p,
       aq_shop_name = Some (rp_shop_name p), aq_shop_id = Some (rp_shop_id p), aq_notion_parent_id = None,
       aq_listing_state = rp_state p, aq_cost = Decimal 0 0, aq_price = None\<rparr>) (\<lambda>_.
     bindE (guardE (\<not> (rp_source p = Fixture_Source \<or> \<not> rp_verified p)) (Run_Refused ''real_verified_readback_required'')) (\<lambda>_.
     bindE (guardE (\<not> (expected_listing_id \<le> 0 \<or> rp_listing_id p \<noteq> expected_listing_id \<or>
       rp_copy_sha256 p \<noteq> expected_copy_sha256)) (Run_Refused ''listing_copy_mismatch'')) (\<lambda>_.
     bindE (guardE (utcoffset now \<noteq> None) (Run_Refused ''trusted_clock_required'')) (\<lambda>_.
     let age = instant now - instant (rp_observed_at p) in
     bindE (guardE (\<not> (age < 0 \<or> MAX_READBACK_AGE < age)) (Run_Refused ''fresh_readback_required'')) (\<lambda>_.
     guardE (attachments_match (rp_image_ids p) images \<and> attachments_match (rp_video_ids p) videos \<and>
       attachments_match (rp_file_ids p) files) (Run_Refused ''attachment_count_mismatch''))))))"

subsection \<open>Transactions\<close>

record effect_call =
  ec_authority :: draft_run_authority
  ec_job_id :: uuid
  ec_lease_owner :: string
  ec_operation_key :: string
  ec_provider :: string
  ec_operation :: string
  ec_notion_parent_id :: "uuid option"
  ec_shop_id :: "int option"

definition json_get :: "json \<Rightarrow> string \<Rightarrow> json option" where
  "json_get v key = (case v of JObj cells \<Rightarrow> map_of cells key | _ \<Rightarrow> None)"

definition scoped_job :: "(uuid \<Rightarrow> string option) \<Rightarrow> effect_call \<Rightarrow> db \<Rightarrow> draft_failure + job" where
  "scoped_job shop_names c d =
     bindE (requireE (get_job d (ec_job_id c)) (Run_Refused ''durable_job_scope_or_lease'')) (\<lambda>job.
     bindE (guardE (\<not> (j_object_id job \<noteq> da_product_id (ec_authority c) \<or>
       json_get (j_input job) ''run_id'' \<noteq> Some (JStr (da_run_id (ec_authority c))) \<or>
       j_allowed_mode job \<noteq> DRAFT \<or> j_side_effect_class job \<noteq> EXTERNAL_WRITE))
       (Run_Refused ''durable_job_scope_or_lease'')) (\<lambda>_.
     let shop_name = Option.bind (get_workflow d (j_workflow_id job)) (\<lambda>w. shop_names (w_shop_id w)) in
     bindE (guardE (shop_name = Some (da_shop_name (ec_authority c))) (Run_Refused ''durable_workflow_shop_scope'')) (\<lambda>_.
     Inr job)))"

definition leased_job :: "(uuid \<Rightarrow> string option) \<Rightarrow> effect_call \<Rightarrow> time \<Rightarrow> db \<Rightarrow> draft_failure + job" where
  "leased_job shop_names c now d = bindE (scoped_job shop_names c d) (\<lambda>job.
     bindE (guardE (\<not> (j_status job \<noteq> J_RUNNING \<or> j_lease_owner job \<noteq> Some (ec_lease_owner c) \<or>
       (case j_lease_expires_at job of None \<Rightarrow> True | Some t \<Rightarrow> t \<le> now)))
       (Run_Refused ''durable_job_scope_or_lease'')) (\<lambda>_. Inr job))"

definition on_db :: "error + 'a \<Rightarrow> draft_failure + 'a" where
  "on_db m = (case m of Inl e \<Rightarrow> Inl (Db_Error e) | Inr x \<Rightarrow> Inr x)"

text \<open>\<^verbatim>\<open>assert_lease\<close>, which an adapter calls while \<open>key\<close> is the active effect.\<close>

definition assert_lease :: "(uuid \<Rightarrow> string option) \<Rightarrow> effect_call \<Rightarrow> string option \<Rightarrow> time \<Rightarrow> db \<Rightarrow> draft_failure + unit" where
  "assert_lease shop_names c key now d = (case key of None \<Rightarrow> Inl (Run_Refused ''active_effect_reservation_required'')
   | Some k \<Rightarrow> bindE (leased_job shop_names c now d) (\<lambda>_.
       bindE (on_db (get_idempotency_record k d)) (\<lambda>reservation. case reservation of
         None \<Rightarrow> Inl (Run_Refused ''active_effect_reservation_required'')
       | Some r \<Rightarrow> guardE (\<not> (ir_job_id r \<noteq> ec_job_id c \<or> ir_completed_at r \<noteq> None))
           (Run_Refused ''active_effect_reservation_required''))))"

definition following_attempt :: "effect_attempt option \<Rightarrow> int" where
  "following_attempt prior = (case prior of None \<Rightarrow> 0 | Some a \<Rightarrow> ea_reconciliation_attempt a + 1)"

definition record_state :: "effect_call \<Rightarrow> uuid \<Rightarrow> string \<Rightarrow> effect_state \<Rightarrow> string option \<Rightarrow> time \<Rightarrow> db \<Rightarrow> draft_failure + db" where
  "record_state c fresh key state object_id now d =
     on_db (bindE (record_effect_attempt fresh key (ec_job_id c) None (ec_provider c) (ec_operation c) state object_id
       (following_attempt (get_latest_effect_attempt key d)) now d) (\<lambda>(_, d). Inr d))"

text \<open>The first transaction: the key, the known object and whether this process may create.\<close>

definition reserve_effect :: "effect_call \<Rightarrow> uuid \<Rightarrow> string \<Rightarrow> idempotency_record option \<Rightarrow> time \<Rightarrow> db \<Rightarrow> draft_failure + db" where
  "reserve_effect c fresh key existing now d = (case existing of
     Some r \<Rightarrow> bindE (guardE (\<not> (ir_job_id r \<noteq> ec_job_id c \<or> ir_operation r \<noteq> ec_operation c))
       (Run_Refused ''reservation_scope'')) (\<lambda>_. Inr d)
   | None \<Rightarrow> on_db (bindE (reserve_idempotency_key fresh key (ec_job_id c) (ec_operation c) EXTERNAL_WRITE now d)
       (\<lambda>(_, d). Inr d)))"

definition may_create :: "idempotency_record option \<Rightarrow> effect_attempt option \<Rightarrow> bool" where
  "may_create existing latest = (case existing of None \<Rightarrow> True | Some r \<Rightarrow>
     (case latest of None \<Rightarrow> False | Some a \<Rightarrow> ea_effect_state a = X_ABSENT \<and> ir_completed_at r = None))"

definition claim_effect :: "(uuid \<Rightarrow> string option) \<Rightarrow> effect_call \<Rightarrow> uuid \<Rightarrow> uuid \<Rightarrow> time \<Rightarrow> db \<Rightarrow>
    draft_failure + (string \<times> string option \<times> bool) \<times> db" where
  "claim_effect shop_names c fresh fresh' now d =
     bindE (leased_job shop_names c now d) (\<lambda>job.
     let key = derive_idempotency_key (j_job_type job) (j_workflow_id job) (j_object_id job) (ec_operation_key c) in
     bindE (guardE (\<not> 200 < length key) (Run_Refused ''effect_key_too_long'')) (\<lambda>_.
     bindE (on_db (get_idempotency_record key d)) (\<lambda>existing.
     bindE (reserve_effect c fresh key existing now d) (\<lambda>d.
     let latest = get_latest_effect_attempt key d; known_id = Option.bind latest ea_provider_object_id in
     bindE (if may_create existing latest then record_state c fresh' key X_UNKNOWN known_id now d else Inr d) (\<lambda>d.
     Inr ((key, known_id, may_create existing latest), d))))))"

text \<open>The check before the write.\<close>

definition recheck_effect :: "(uuid \<Rightarrow> string option) \<Rightarrow> effect_call \<Rightarrow> string \<Rightarrow> time \<Rightarrow> db \<Rightarrow> draft_failure + unit" where
  "recheck_effect shop_names c key now d = bindE (leased_job shop_names c now d) (\<lambda>_.
     bindE (on_db (get_idempotency_record key d)) (\<lambda>reservation.
     guardE (case reservation of None \<Rightarrow> False | Some r \<Rightarrow> ir_completed_at r = None)
       (Effect_Uncertain ''effect_already_reconciled_before_write'')))"

text \<open>The identity of an accepted object is kept before its readback.\<close>

definition keep_created :: "(uuid \<Rightarrow> string option) \<Rightarrow> effect_call \<Rightarrow> string \<Rightarrow> string \<Rightarrow> uuid \<Rightarrow> time \<Rightarrow> db \<Rightarrow> draft_failure + db" where
  "keep_created shop_names c key created_id fresh now d = bindE (scoped_job shop_names c d) (\<lambda>_.
     let prior = get_latest_effect_attempt key d in
     bindE (on_db (get_idempotency_record key d)) (\<lambda>reservation.
     case reservation of None \<Rightarrow> Inl (Effect_Uncertain ''accepted_effect_reservation_missing'') | Some r \<Rightarrow>
     bindE (guardE (\<not> (ir_job_id r \<noteq> ec_job_id c \<or> ir_operation r \<noteq> ec_operation c))
       (Effect_Uncertain ''accepted_effect_reservation_missing'')) (\<lambda>_.
     if ir_completed_at r \<noteq> None
     then bindE (guardE (case prior of None \<Rightarrow> False | Some a \<Rightarrow> ea_effect_state a = X_CONFIRMED \<and>
         ea_provider_object_id a = Some created_id) (Effect_Uncertain ''concurrent_confirmation_identity_mismatch'')) (\<lambda>_. Inr d)
     else record_state c fresh key X_UNKNOWN (Some created_id) now d)))"

text \<open>The handler of a failure.\<close>

definition record_failure :: "(uuid \<Rightarrow> string option) \<Rightarrow> effect_call \<Rightarrow> string \<Rightarrow> bool \<Rightarrow> string option \<Rightarrow> uuid \<Rightarrow> time \<Rightarrow> db \<Rightarrow>
    draft_failure + db" where
  "record_failure shop_names c key definite_absence known_id fresh now d = bindE (leased_job shop_names c now d) (\<lambda>_.
     bindE (on_db (get_idempotency_record key d)) (\<lambda>reservation.
     if (case reservation of None \<Rightarrow> False | Some r \<Rightarrow> ir_completed_at r = None)
     then record_state c fresh key (if definite_absence then X_ABSENT else X_UNKNOWN)
       (if definite_absence then None else known_id) now d
     else Inr d))"

definition safe_detail_of :: "effect_call \<Rightarrow> json" where
  "safe_detail_of c = JObj [(''run_id'', JStr (da_run_id (ec_authority c))),
     (''product_id'', JStr (str_uuid (da_product_id (ec_authority c)))),
     (''provenance'', JStr ''real_provider_readback''), (''scope'', JStr ''one_private_product_etsy_draft'')]"

definition confirm_effect :: "(uuid \<Rightarrow> string option) \<Rightarrow> effect_call \<Rightarrow> string \<Rightarrow> string \<Rightarrow> uuid \<Rightarrow> uuid \<Rightarrow> time \<Rightarrow> db \<Rightarrow>
    draft_failure + db" where
  "confirm_effect shop_names c key object_id fresh fresh' now d = bindE (leased_job shop_names c now d) (\<lambda>_.
     bindE (on_db (get_idempotency_record key d)) (\<lambda>reservation.
     case reservation of None \<Rightarrow> Inl (Run_Refused ''reservation_missing'') | Some r \<Rightarrow>
     if ir_completed_at r \<noteq> None then Inr d
     else bindE (record_state c fresh key X_CONFIRMED (Some object_id) now d) (\<lambda>d.
       bindE (on_db (record_receipt fresh' (ec_job_id c) key (ec_provider c) (ec_operation c) EXTERNAL_WRITE DRAFT
         X_CONFIRMED (Some object_id) None None (Some (safe_detail_of c)) now d)) (\<lambda>(_, d).
       bindE (on_db (mark_idempotency_completed key now d)) (\<lambda>(_, d). Inr d)))))"

subsection \<open>Processes\<close>

type_synonym provider_object = "(string \<times> json) list"

record 'w effect_adapter =
  ad_create :: "'w \<Rightarrow> (draft_failure + provider_object) \<times> 'w"
  ad_reconcile :: "string option \<Rightarrow> 'w \<Rightarrow> (draft_failure + provider_object option) \<times> 'w"

text \<open>\<^verbatim>\<open>str(value.get("id", ""))\<close>; \<open>repr\<close> is Python's text of a container.\<close>

fun py_str :: "(json \<Rightarrow> string) \<Rightarrow> json \<Rightarrow> string" where
  "py_str repr JNull = ''None''"
| "py_str repr (JBool b) = (if b then ''True'' else ''False'')"
| "py_str repr (JInt n) = str_int n"
| "py_str repr (JStr s) = s"
| "py_str repr v = repr v"

definition object_id :: "(json \<Rightarrow> string) \<Rightarrow> provider_object \<Rightarrow> string" where
  "object_id repr obj = (case map_of obj ''id'' of None \<Rightarrow> [] | Some v \<Rightarrow> py_str repr v)"

text \<open>Where a process is, with the variables that are live there.\<close>

datatype effect_pc =
    At_Start
  | At_Reconcile string "string option" bool
  | At_Recheck string "string option"
  | At_Create string "string option"
  | At_Keep string string
  | At_Lease string string
  | At_Readback string string
  | At_Confirm string string provider_object
  | At_Failure string draft_failure bool "string option"
  | At_End "draft_failure + provider_object"

record 'w effect_shared =
  pr_db :: db
  pr_world :: 'w
  pr_creates :: "(string \<times> bool) list"

text \<open>The end of the \<^verbatim>\<open>try\<close> block: the observed object must have an id, and the known one if there is one.\<close>

definition observed_pc :: "(json \<Rightarrow> string) \<Rightarrow> string \<Rightarrow> string option \<Rightarrow> bool \<Rightarrow> provider_object \<Rightarrow> effect_pc" where
  "observed_pc repr key known_id definite_absence observed = (let oid = object_id repr observed in
     if oid = [] \<or> (known_id \<noteq> None \<and> known_id \<noteq> Some oid)
     then At_Failure key (Effect_Uncertain ''provider_object_identity_mismatch'') definite_absence known_id
     else At_Confirm key oid observed)"

definition failure_of :: "draft_failure \<Rightarrow> draft_failure" where
  "failure_of e = (case e of Run_Refused _ \<Rightarrow> e | Effect_Uncertain _ \<Rightarrow> e
     | _ \<Rightarrow> Effect_Uncertain ''provider_effect_requires_read_reconciliation'')"

definition request_of :: "effect_call \<Rightarrow> authority_request" where
  "request_of c = \<lparr>aq_run_id = da_run_id (ec_authority c), aq_product_id = da_product_id (ec_authority c),
     aq_shop_name = (if ec_provider c = ''etsy'' then Some (da_shop_name (ec_authority c)) else None),
     aq_shop_id = ec_shop_id c, aq_notion_parent_id = ec_notion_parent_id c, aq_listing_state = ''draft'',
     aq_cost = Decimal 0 0, aq_price = None\<rparr>"

definition admit_call :: "effect_call \<Rightarrow> draft_failure + unit" where
  "admit_call c = bindE (guardE (\<not> (ec_provider c \<notin> {''notion'', ''etsy''} \<or> \<not> prefix (ec_provider c @ ''.'') (ec_operation c)))
     (Run_Refused ''provider_scope'')) (\<lambda>_. authorize (ec_authority c) (ec_operation c) (request_of c))"

text \<open>What each step does: the next point of the process and the shared state.\<close>

definition in_transaction :: "draft_failure + 'a \<times> db \<Rightarrow> (draft_failure \<Rightarrow> effect_pc) \<Rightarrow> ('a \<Rightarrow> effect_pc) \<Rightarrow> 'w effect_shared \<Rightarrow>
    effect_pc \<times> 'w effect_shared" where
  "in_transaction m failed next s = (case m of Inl e \<Rightarrow> (failed e, s) | Inr (x, d) \<Rightarrow> (next x, s\<lparr>pr_db := d\<rparr>))"

definition is_refusal :: "draft_failure + 'a \<Rightarrow> bool" where
  "is_refusal r = (case r of Inl (Run_Refused _) \<Rightarrow> True | _ \<Rightarrow> False)"

fun advance :: "(uuid \<Rightarrow> string option) \<Rightarrow> (json \<Rightarrow> string) \<Rightarrow> 'w effect_adapter \<Rightarrow> effect_call \<Rightarrow> uuid \<Rightarrow> uuid \<Rightarrow> time \<Rightarrow>
    effect_pc \<Rightarrow> 'w effect_shared \<Rightarrow> effect_pc \<times> 'w effect_shared" where
  "advance shops repr ad c f1 f2 now At_Start s =
     in_transaction (bindE (admit_call c) (\<lambda>_. claim_effect shops c f1 f2 now (pr_db s)))
       (\<lambda>e. At_End (Inl e)) (\<lambda>(key, known_id, may). At_Reconcile key known_id may) s"
| "advance shops repr ad c f1 f2 now (At_Reconcile key known_id may) s =
     (case ad_reconcile ad known_id (pr_world s) of (r, w) \<Rightarrow>
       (case r of
          Inl e \<Rightarrow> At_Failure key e may known_id
        | Inr (Some observed) \<Rightarrow> observed_pc repr key known_id may observed
        | Inr None \<Rightarrow> (if may then At_Recheck key known_id
            else At_Failure key (Effect_Uncertain ''pending_effect_not_yet_reconciled'') False known_id),
        s\<lparr>pr_world := w\<rparr>))"
| "advance shops repr ad c f1 f2 now (At_Recheck key known_id) s =
     in_transaction (bindE (recheck_effect shops c key now (pr_db s)) (\<lambda>_. Inr ((), pr_db s)))
       (\<lambda>e. At_Failure key e True known_id) (\<lambda>_. At_Create key known_id) s"
| "advance shops repr ad c f1 f2 now (At_Create key known_id) s =
     (case ad_create ad (pr_world s) of (r, w) \<Rightarrow>
       (case r of
          Inl e \<Rightarrow> At_Failure key e (is_refusal r) known_id
        | Inr created \<Rightarrow> (if object_id repr created = []
            then At_Failure key (Effect_Uncertain ''provider_object_id_missing'') False known_id
            else At_Keep key (object_id repr created)),
        s\<lparr>pr_world := w, pr_creates := pr_creates s @ [(key, is_refusal r)]\<rparr>))"
| "advance shops repr ad c f1 f2 now (At_Keep key created_id) s =
     in_transaction (bindE (keep_created shops c key created_id f1 now (pr_db s)) (\<lambda>d. Inr ((), d)))
       (\<lambda>e. At_Failure key e False (Some created_id)) (\<lambda>_. At_Lease key created_id) s"
| "advance shops repr ad c f1 f2 now (At_Lease key created_id) s =
     in_transaction (bindE (leased_job shops c now (pr_db s)) (\<lambda>_. Inr ((), pr_db s)))
       (\<lambda>e. At_Failure key e False (Some created_id)) (\<lambda>_. At_Readback key created_id) s"
| "advance shops repr ad c f1 f2 now (At_Readback key created_id) s =
     (case ad_reconcile ad (Some created_id) (pr_world s) of (r, w) \<Rightarrow>
       (case r of
          Inl e \<Rightarrow> At_Failure key e False (Some created_id)
        | Inr None \<Rightarrow> At_Failure key (Effect_Uncertain ''fresh_provider_readback_missing'') False (Some created_id)
        | Inr (Some observed) \<Rightarrow> (if object_id repr observed \<noteq> created_id
            then At_Failure key (Effect_Uncertain ''fresh_provider_readback_missing'') False (Some created_id)
            else observed_pc repr key (Some created_id) False observed),
        s\<lparr>pr_world := w\<rparr>))"
| "advance shops repr ad c f1 f2 now (At_Confirm key oid observed) s =
     in_transaction (bindE (confirm_effect shops c key oid f1 f2 now (pr_db s)) (\<lambda>d. Inr ((), d)))
       (\<lambda>e. At_End (Inl e)) (\<lambda>_. At_End (Inr observed)) s"
| "advance shops repr ad c f1 f2 now (At_Failure key e definite_absence known_id) s =
     in_transaction (bindE (record_failure shops c key definite_absence known_id f1 now (pr_db s)) (\<lambda>d. Inr ((), d)))
       (\<lambda>e. At_End (Inl e)) (\<lambda>_. At_End (Inl (failure_of e))) s"
| "advance shops repr ad c f1 f2 now (At_End r) s = (At_End r, s)"

text \<open>
  \<^verbatim>\<open>execute\<close>: one process run to its end, with the instants and row ids of its steps; it has at most
  ten of them.
\<close>

fun execute_effect :: "(uuid \<Rightarrow> string option) \<Rightarrow> (json \<Rightarrow> string) \<Rightarrow> 'w effect_adapter \<Rightarrow> effect_call \<Rightarrow>
    (uuid \<times> uuid \<times> time) list \<Rightarrow> effect_pc \<Rightarrow> 'w effect_shared \<Rightarrow> effect_pc \<times> 'w effect_shared" where
  "execute_effect shops repr ad c [] pc s = (pc, s)"
| "execute_effect shops repr ad c ((f1, f2, now) # ticks) pc s =
     (case advance shops repr ad c f1 f2 now pc s of (pc, s) \<Rightarrow> execute_effect shops repr ad c ticks pc s)"

subsection \<open>What a transaction does to the state of a key\<close>

definition reserved :: "string \<Rightarrow> db \<Rightarrow> bool" where
  "reserved key d \<longleftrightarrow> key \<in> ir_idempotency_key ` set (idempotency_records d)"

definition absent :: "string \<Rightarrow> db \<Rightarrow> bool" where
  "absent key d \<longleftrightarrow> (\<exists>a. get_latest_effect_attempt key d = Some a \<and> ea_effect_state a = X_ABSENT)"

definition calm :: "string \<Rightarrow> db \<Rightarrow> db \<Rightarrow> bool" where
  "calm key d d' \<longleftrightarrow> reserved key d' = reserved key d \<and> (absent key d' \<longrightarrow> absent key d)"

lemma calm_refl [simp]: "calm key d d"
  by (simp add: calm_def)

lemma on_db_simps [simp]: "on_db (Inr x) = Inr x" "on_db (Inl e) = Inl (Db_Error e)"
  by (simp_all add: on_db_def)

lemma on_db_Inr [simp]: "on_db m = Inr x \<longleftrightarrow> m = Inr x"
  by (cases m) (simp_all add: on_db_def)

lemma latest_other_key: "effect_attempts d' = effect_attempts d @ [a] \<Longrightarrow> ea_idempotency_key a \<noteq> key \<Longrightarrow>
    get_latest_effect_attempt key d' = get_latest_effect_attempt key d"
  by (simp add: get_latest_effect_attempt_def)

lemma record_state_view:
  assumes "record_state c fresh key st oid now d = Inr d'"
  shows "idempotency_records d' = idempotency_records d"
    and "absent key' d' \<longleftrightarrow> (if key' = key then st = X_ABSENT else absent key' d)"
    and "receipts d' = receipts d"
    and "\<exists>a. get_latest_effect_attempt key d' = Some a \<and> ea_effect_state a = st \<and> ea_provider_object_id a = oid"
proof -
  define a where "a = \<lparr>ea_id = fresh, ea_idempotency_key = key, ea_job_id = ec_job_id c, ea_agent_run_id = None,
    ea_provider = ec_provider c, ea_operation = ec_operation c, ea_effect_state = st, ea_provider_object_id = oid,
    ea_reconciliation_attempt = following_attempt (get_latest_effect_attempt key d), ea_observed_at = now, ea_recorded_at = now\<rparr>"
  have a: "ea_idempotency_key a = key" "ea_effect_state a = st" "ea_provider_object_id a = oid"
    "ea_reconciliation_attempt a = following_attempt (get_latest_effect_attempt key d)" by (simp_all add: a_def)
  have d': "d' = d\<lparr>effect_attempts := effect_attempts d @ [a]\<rparr>"
    using assms unfolding record_state_def record_effect_attempt_def insert_effect_attempt_def Let_def a_def [symmetric]
    by (auto simp: bindE_eq_Inr)
  have "ea_reconciliation_attempt b < ea_reconciliation_attempt a"
    if "b \<in> set (effect_attempts d)" "ea_idempotency_key b = ea_idempotency_key a" for b
  proof (cases "get_latest_effect_attempt key d")
    case None
    then show ?thesis using that a(1) by (simp add: latest_attempt_None)
  next
    case (Some l)
    then show ?thesis using latest_attempt_Some(3) [OF Some that(1)] that(2) a(1,4) by (simp add: following_attempt_def)
  qed
  then have l: "get_latest_effect_attempt key d' = Some a"
    using latest_attempt_append [of d a] a(1) d' by simp
  show "idempotency_records d' = idempotency_records d" "receipts d' = receipts d" by (simp_all add: d')
  show "absent key' d' \<longleftrightarrow> (if key' = key then st = X_ABSENT else absent key' d)"
    using l a latest_other_key [of d' d a key'] d' by (auto simp: absent_def)
  show "\<exists>a. get_latest_effect_attempt key d' = Some a \<and> ea_effect_state a = st \<and> ea_provider_object_id a = oid"
    using l a by blast
qed

lemma reserved_iff: "reserved key d \<longleftrightarrow> filter (\<lambda>r. ir_idempotency_key r = key) (idempotency_records d) \<noteq> []"
  by (auto simp: reserved_def filter_empty_conv)

lemma get_record_None: "get_idempotency_record key d = Inr None \<longleftrightarrow> \<not> reserved key d"
proof -
  show ?thesis by (auto simp: get_idempotency_record_def one_or_none_def reserved_iff split: list.splits)
qed

lemma absent_same: "effect_attempts d' = effect_attempts d \<Longrightarrow> absent key d' = absent key d"
  by (simp add: absent_def get_latest_effect_attempt_def)

lemma claim_effect_view:
  assumes "claim_effect shops c f1 f2 now d = Inr ((k, known_id, may), d')"
  shows "if may \<and> key = k then (\<not> reserved key d \<or> absent key d) \<and> reserved key d' \<and> \<not> absent key d' else calm key d d'"
proof -
  obtain existing e where g: "get_idempotency_record k d = Inr existing" and e: "reserve_effect c f1 k existing now d = Inr e"
    and m: "may = may_create existing (get_latest_effect_attempt k e)"
    and d': "(if may then record_state c f2 k X_UNKNOWN known_id now e else Inr e) = Inr d'"
    using assms unfolding claim_effect_def Let_def bindE_eq_Inr by auto
  show ?thesis
  proof (cases existing)
    case None
    have r: "idempotency_records e = idempotency_records d @ [\<lparr>ir_id = f1, ir_idempotency_key = k, ir_job_id = ec_job_id c,
        ir_operation = ec_operation c, ir_side_effect_class = EXTERNAL_WRITE, ir_reserved_at = now, ir_completed_at = None\<rparr>]"
      "effect_attempts e = effect_attempts d"
      using e None unfolding reserve_effect_def by (auto simp: bindE_eq_Inr elim!: reserve_cases)
    have "may" using m None by (simp add: may_create_def)
    then have "record_state c f2 k X_UNKNOWN known_id now e = Inr d'" using d' by simp
    note v = record_state_view(1,2) [OF this]
    show ?thesis
      using \<open>may\<close> v(1) v(2) [of key] r absent_same [OF r(2), of key] g None get_record_None [of k d]
      by (auto simp: calm_def reserved_def)
  next
    case (Some r)
    then have e': "e = d" using e by (auto simp: reserve_effect_def bindE_eq_Inr)
    show ?thesis
    proof (cases may)
      case True
      then have "record_state c f2 k X_UNKNOWN known_id now e = Inr d'" using d' by simp
      note v = record_state_view(1,2) [OF this]
      have "absent k d" using m True Some e' by (auto simp: may_create_def absent_def split: option.splits)
      moreover have "reserved k d" using g Some get_record_None [of k d] by auto
      ultimately show ?thesis using True v(1) v(2) [of key] e' by (auto simp: calm_def reserved_def)
    next
      case False
      then show ?thesis using d' e' by simp
    qed
  qed
qed

lemma get_record_mem: "get_idempotency_record key d = Inr (Some r) \<Longrightarrow> r \<in> set (idempotency_records d) \<and> ir_idempotency_key r = key"
proof -
  assume "get_idempotency_record key d = Inr (Some r)"
  then have "filter (\<lambda>r. ir_idempotency_key r = key) (idempotency_records d) = [r]"
    by (auto simp: get_idempotency_record_def one_or_none_def split: list.splits)
  then have "r \<in> set (filter (\<lambda>r. ir_idempotency_key r = key) (idempotency_records d))" by simp
  then show ?thesis by simp
qed

lemma record_state_calm: "record_state c f k st oid now d = Inr d' \<Longrightarrow> st \<noteq> X_ABSENT \<or> key \<noteq> k \<Longrightarrow> calm key d d'"
  using record_state_view(1,2) [of c f k st oid now d d'] by (auto simp: calm_def reserved_def)

lemma keep_created_calm: "keep_created shops c k oid f now d = Inr d' \<Longrightarrow> calm key d d'"
  unfolding keep_created_def Let_def
  by (auto simp: bindE_eq_Inr intro: record_state_calm split: option.splits if_splits)

lemma record_failure_calm:
  "record_failure shops c k definite known_id f now d = Inr d' \<Longrightarrow> \<not> definite \<or> key \<noteq> k \<Longrightarrow> calm key d d'"
  "record_failure shops c k definite known_id f now d = Inr d' \<Longrightarrow> reserved key d' = reserved key d"
proof -
  assume a: "record_failure shops c k definite known_id f now d = Inr d'"
  then have s: "d' = d \<or> record_state c f k (if definite then X_ABSENT else X_UNKNOWN) (if definite then None else known_id) now d = Inr d'"
    unfolding record_failure_def by (auto simp: bindE_eq_Inr split: if_splits)
  then show "reserved key d' = reserved key d" using record_state_view(1) by (auto simp: reserved_def)
  show "\<not> definite \<or> key \<noteq> k \<Longrightarrow> calm key d d'" using s record_state_calm by (auto split: if_splits)
qed

lemma confirm_effect_calm: "confirm_effect shops c k oid f f' now d = Inr d' \<Longrightarrow> calm key d d'"
proof -
  assume "confirm_effect shops c k oid f f' now d = Inr d'"
  then consider "d' = d" | e rc g u where "record_state c f k X_CONFIRMED (Some oid) now d = Inr e"
      "record_receipt f' (ec_job_id c) k (ec_provider c) (ec_operation c) EXTERNAL_WRITE DRAFT
         X_CONFIRMED (Some oid) None None (Some (safe_detail_of c)) now e = Inr (rc, g)"
      "mark_idempotency_completed k now g = Inr (u, d')"
    unfolding confirm_effect_def by (auto simp: bindE_eq_Inr split: option.splits if_splits)
  then show ?thesis
  proof cases
    case 1
    then show ?thesis by simp
  next
    case (2 e rc g u)
    have g: "idempotency_records g = idempotency_records e" "effect_attempts g = effect_attempts e"
      using 2(2) by (auto simp: record_receipt_def insert_receipt_def bindE_eq_Inr Let_def)
    have m: "map ir_idempotency_key (idempotency_records d') = map ir_idempotency_key (idempotency_records g)"
      "effect_attempts d' = effect_attempts g"
      using mark_completed_keys [OF 2(3)] 2(3) by (auto simp: mark_idempotency_completed_def bindE_eq_Inr)
    have "ir_idempotency_key ` set (idempotency_records d') = ir_idempotency_key ` set (idempotency_records e)"
      using arg_cong [OF m(1), of set] g(1) by simp
    then have "reserved key d' = reserved key e" by (simp add: reserved_def)
    moreover have "absent key d' = absent key e" using absent_same [of d' e key] m(2) g(2) by simp
    ultimately show ?thesis using record_state_calm [OF 2(1), of key] by (simp add: calm_def)
  qed
qed

subsection \<open>Interleaved processes\<close>

text \<open>
  Processes start, take a step or die at any time; outside of them the database may change
  everywhere except in the rows of the key, and the provider may change freely.
\<close>

type_synonym 'w effect_process = "effect_call \<times> 'w effect_adapter \<times> effect_pc"

definition key_rows :: "string \<Rightarrow> db \<Rightarrow> idempotency_record list \<times> effect_attempt list" where
  "key_rows key d = (filter (\<lambda>r. ir_idempotency_key r = key) (idempotency_records d),
     filter (\<lambda>a. ea_idempotency_key a = key) (effect_attempts d))"

inductive effect_run :: "string \<Rightarrow> (uuid \<Rightarrow> string option) \<Rightarrow> (json \<Rightarrow> string) \<Rightarrow> 'w effect_shared \<Rightarrow>
    'w effect_shared \<Rightarrow> 'w effect_process multiset \<Rightarrow> bool"
  for key :: string and shops :: "uuid \<Rightarrow> string option" and repr :: "json \<Rightarrow> string" and s0 :: "'w effect_shared" where
  begin': "effect_run key shops repr s0 s0 {#}"
| spawn: "effect_run key shops repr s0 s M \<Longrightarrow> effect_run key shops repr s0 s (add_mset (c, ad, At_Start) M)"
| step: "effect_run key shops repr s0 s (add_mset (c, ad, pc) M) \<Longrightarrow> advance shops repr ad c f1 f2 now pc s = (pc', s') \<Longrightarrow>
    effect_run key shops repr s0 s' (add_mset (c, ad, pc') M)"
| crash: "effect_run key shops repr s0 s (add_mset p M) \<Longrightarrow> effect_run key shops repr s0 s M"
| outside: "effect_run key shops repr s0 s M \<Longrightarrow> key_rows key d = key_rows key (pr_db s) \<Longrightarrow>
    effect_run key shops repr s0 (s\<lparr>pr_db := d, pr_world := w\<rparr>) M"

text \<open>A process holds the claim of a key while it may still write or still record that it did not.\<close>

fun holds :: "string \<Rightarrow> effect_pc \<Rightarrow> bool" where
  "holds key (At_Reconcile k _ may) = (k = key \<and> may)"
| "holds key (At_Recheck k _) = (k = key)"
| "holds key (At_Create k _) = (k = key)"
| "holds key (At_Failure k _ definite _) = (k = key \<and> definite)"
| "holds key _ = False"

definition claims :: "string \<Rightarrow> 'w effect_process multiset \<Rightarrow> nat" where
  "claims key M = size (filter_mset (\<lambda>(_, _, pc). holds key pc) M)"

definition writes :: "string \<Rightarrow> 'w effect_shared \<Rightarrow> nat" where
  "writes key s = length (filter (\<lambda>(k, refused). k = key \<and> \<not> refused) (pr_creates s))"

definition one_writer :: "string \<Rightarrow> 'w effect_shared \<Rightarrow> 'w effect_process multiset \<Rightarrow> bool" where
  "one_writer key s M \<longleftrightarrow> claims key M + writes key s \<le> 1 \<and>
     (\<not> reserved key (pr_db s) \<or> absent key (pr_db s) \<longrightarrow> claims key M + writes key s = 0)"

lemma claims_add: "claims key (add_mset (c, ad, pc) M) = (if holds key pc then 1 else 0) + claims key M"
  by (simp add: claims_def)

lemma one_writer_less:
  assumes "one_writer key s M" and "claims key M' + writes key s' \<le> claims key M + writes key s" and "calm key (pr_db s) (pr_db s')"
  shows "one_writer key s' M'"
  using assms by (auto simp: one_writer_def calm_def)

lemma observed_pc_holds: "holds key (observed_pc repr k known_id definite obj) \<Longrightarrow> k = key \<and> definite"
  by (auto simp: observed_pc_def Let_def split: if_splits)

text \<open>A step keeps or gives up a claim, unless it makes one in a transaction that finds none.\<close>

definition claim_step :: "string \<Rightarrow> effect_pc \<Rightarrow> 'w effect_shared \<Rightarrow> effect_pc \<Rightarrow> 'w effect_shared \<Rightarrow> bool" where
  "claim_step key pc s pc' s' \<longleftrightarrow>
     of_bool (holds key pc') + writes key s' \<le> of_bool (holds key pc) + writes key s \<and> calm key (pr_db s) (pr_db s') \<or>
     (\<not> reserved key (pr_db s) \<or> absent key (pr_db s)) \<and> reserved key (pr_db s') \<and> \<not> absent key (pr_db s') \<and>
       writes key s' = writes key s \<or>
     holds key pc \<and> \<not> holds key pc' \<and> writes key s' = writes key s \<and> reserved key (pr_db s') = reserved key (pr_db s)"

lemma claim_stepI:
  "of_bool (holds key pc') + writes key s' \<le> of_bool (holds key pc) + writes key s \<Longrightarrow> calm key (pr_db s) (pr_db s') \<Longrightarrow>
    claim_step key pc s pc' s'"
  by (simp add: claim_step_def)

lemma advance_step:
  assumes "advance shops repr ad c f1 f2 now pc s = (pc', s')"
  shows "claim_step key pc s pc' s'"
proof (cases pc)
  case At_Start
  show ?thesis
  proof (cases "bindE (admit_call c) (\<lambda>_. claim_effect shops c f1 f2 now (pr_db s))")
    case (Inl e)
    then show ?thesis using assms At_Start by (auto simp: in_transaction_def intro: claim_stepI)
  next
    case (Inr x)
    then obtain k known may d where x: "x = ((k, known, may), d)" "claim_effect shops c f1 f2 now (pr_db s) = Inr ((k, known, may), d)"
      by (metis bindE_eq_Inr prod.collapse)
    then have a: "pc' = At_Reconcile k known may" "s' = s\<lparr>pr_db := d\<rparr>"
      using assms At_Start Inr by (auto simp: in_transaction_def)
    show ?thesis using claim_effect_view [OF x(2), of key] a At_Start
      by (auto simp: claim_step_def writes_def split: if_splits)
  qed
next
  case (At_Reconcile k known may)
  then show ?thesis using assms
    by (auto intro!: claim_stepI dest: observed_pc_holds simp: writes_def split: prod.splits sum.splits option.splits if_splits)
next
  case (At_Recheck k known)
  then show ?thesis using assms
    by (auto intro!: claim_stepI simp: in_transaction_def writes_def bindE_eq_Inr split: sum.splits)
next
  case (At_Create k known)
  then show ?thesis using assms
    by (auto intro!: claim_stepI simp: writes_def is_refusal_def split: prod.splits sum.splits draft_failure.splits if_splits)
next
  case (At_Keep k oid)
  then show ?thesis using assms
    by (auto intro!: claim_stepI simp: in_transaction_def writes_def bindE_eq_Inr keep_created_calm split: sum.splits)
next
  case (At_Lease k oid)
  then show ?thesis using assms
    by (auto intro!: claim_stepI simp: in_transaction_def writes_def bindE_eq_Inr split: sum.splits)
next
  case (At_Readback k oid)
  then show ?thesis using assms
    by (auto intro!: claim_stepI dest: observed_pc_holds simp: writes_def split: prod.splits sum.splits option.splits if_splits)
next
  case (At_Confirm k oid obj)
  then show ?thesis using assms
    by (auto intro!: claim_stepI simp: in_transaction_def writes_def bindE_eq_Inr confirm_effect_calm split: sum.splits)
next
  case (At_Failure k e definite known)
  show ?thesis
  proof (cases "record_failure shops c k definite known f1 now (pr_db s)")
    case (Inl e')
    then show ?thesis using assms At_Failure by (auto intro!: claim_stepI simp: in_transaction_def writes_def)
  next
    case (Inr d)
    then have a: "pc' = At_End (Inl (failure_of e))" "s' = s\<lparr>pr_db := d\<rparr>"
      using assms At_Failure by (auto simp: in_transaction_def)
    show ?thesis
      using record_failure_calm [OF Inr, of key] a At_Failure by (auto simp: claim_step_def writes_def)
  qed
next
  case (At_End r)
  then show ?thesis using assms by (auto intro!: claim_stepI)
qed

text \<open>
  C30: However processes of any calls and adapters are interleaved, killed and restarted, at most one
  call of \<^verbatim>\<open>create\<close> for an idempotency key is not refused: after a lost response, a timeout or a crash
  nothing is written again under the key.
\<close>

theorem effect_is_written_at_most_once:
  assumes "effect_run key shops repr s0 s M" and "key_rows key (pr_db s0) = ([], [])" and "writes key s0 = 0"
  shows "writes key s \<le> 1"
proof -
  have "one_writer key s M"
    using assms
  proof (induction rule: effect_run.induct)
    case begin'
    then show ?case by (simp add: one_writer_def claims_def)
  next
    case (spawn s M c ad)
    then show ?case by (simp add: one_writer_def claims_add)
  next
    case (step s c ad pc M f1 f2 now pc' s')
    show ?case
      using step advance_step [OF step(2), of key]
      by (auto simp: one_writer_def claims_add claim_step_def calm_def split: if_splits)
  next
    case (crash s p M)
    then show ?case by (cases p) (auto simp: one_writer_def claims_add split: if_splits)
  next
    case (outside s M d w)
    have "reserved key d = reserved key (pr_db s)" "absent key d = absent key (pr_db s)"
      using outside(2) by (simp_all add: key_rows_def reserved_iff absent_def get_latest_effect_attempt_def)
    then show ?case using outside by (simp add: one_writer_def writes_def)
  qed
  then show ?thesis by (simp add: one_writer_def)
qed

text \<open>A process run on its own is a run of the interleaved system.\<close>

lemma execute_is_run:
  "effect_run key shops repr s0 s (add_mset (c, ad, pc) M) \<Longrightarrow> execute_effect shops repr ad c ticks pc s = (pc', s') \<Longrightarrow>
    effect_run key shops repr s0 s' (add_mset (c, ad, pc') M)"
proof (induction ticks arbitrary: pc s)
  case Nil
  then show ?case by simp
next
  case (Cons t ticks)
  obtain f1 f2 now where t: "t = (f1, f2, now)" by (cases t)
  obtain pc1 s1 where a: "advance shops repr ad c f1 f2 now pc s = (pc1, s1)" by fastforce
  show ?case
    by (rule Cons.IH [OF effect_run.step [OF Cons.prems(1) a]]) (use Cons.prems(2) a t in simp)
qed

subsection \<open>Authority of a running effect\<close>

lemma admitted_call:
  assumes "admit_call c = Inr ()"
  shows "ec_operation c \<in> ALLOWED_OPERATIONS \<and>
    (ec_provider c = ''etsy'' \<and> ec_shop_id c = da_verified_shop_id (ec_authority c) \<and> ec_shop_id c \<noteq> None \<or>
     ec_provider c = ''notion'' \<and> ec_notion_parent_id c = da_verified_notion_parent_id (ec_authority c) \<and> ec_notion_parent_id c \<noteq> None)"
proof -
  have p: "ec_provider c \<in> {''notion'', ''etsy''}" "prefix (ec_provider c @ ''.'') (ec_operation c)"
    "authorize (ec_authority c) (ec_operation c) (request_of c) = Inr ()"
    using assms by (auto simp: admit_call_def bindE_eq_Inr)
  have a: "ec_operation c \<in> ALLOWED_OPERATIONS"
    "\<not> (prefix ''notion.'' (ec_operation c) \<and> (da_verified_notion_parent_id (ec_authority c) = None \<or>
       ec_notion_parent_id c \<noteq> da_verified_notion_parent_id (ec_authority c)))"
    "\<not> (prefix ''etsy.'' (ec_operation c) \<and> (da_verified_shop_id (ec_authority c) = None \<or>
       ec_shop_id c \<noteq> da_verified_shop_id (ec_authority c)))"
    using p(3) by (simp_all add: authorize_def bindE_eq_Inr request_of_def)
  consider "ec_provider c = ''notion''" | "ec_provider c = ''etsy''" using p(1) by blast
  then show ?thesis
  proof cases
    case 1
    then show ?thesis using a p(2) by auto
  next
    case 2
    then show ?thesis using a p(2) by auto
  qed
qed

fun under_way :: "effect_pc \<Rightarrow> bool" where
  "under_way At_Start = False"
| "under_way (At_End (Inl _)) = False"
| "under_way _ = True"

lemma advance_admitted: "advance shops repr ad c f1 f2 now pc s = (pc', s') \<Longrightarrow> under_way pc' \<Longrightarrow> under_way pc \<or> admit_call c = Inr ()"
  by (cases pc) (auto simp: in_transaction_def bindE_eq_Inr split: sum.splits)

text \<open>
  In every interleaving, a process that has come past its first transaction, and so every process
  that writes, runs an operation of the fixed list, at the verified shop or below the verified
  Notion parent of its authority.
\<close>

theorem running_effects_are_authorised:
  assumes "effect_run key shops repr s0 s M" and "(c, ad, pc) \<in># M" and "under_way pc"
  shows "ec_operation c \<in> ALLOWED_OPERATIONS \<and>
    (ec_provider c = ''etsy'' \<and> ec_shop_id c = da_verified_shop_id (ec_authority c) \<and> ec_shop_id c \<noteq> None \<or>
     ec_provider c = ''notion'' \<and> ec_notion_parent_id c = da_verified_notion_parent_id (ec_authority c) \<and> ec_notion_parent_id c \<noteq> None)"
proof -
  have "\<forall>(c, ad, pc) \<in># M. under_way pc \<longrightarrow> admit_call c = Inr ()"
    using assms(1)
  proof (induction rule: effect_run.induct)
    case (step s c ad pc M f1 f2 now pc' s')
    then show ?case using advance_admitted [OF step(2)] by auto
  qed auto
  then show ?thesis using assms(2,3) admitted_call by fastforce
qed

subsection \<open>Recovery\<close>

lemma leased_job_get: "leased_job shops c now d = Inr job \<Longrightarrow> get_job d (ec_job_id c) = Some job"
  by (auto simp: leased_job_def scoped_job_def bindE_eq_Inr Let_def)

lemma record_state_ok:
  assumes "has_job d (ec_job_id c)" and "fresh \<notin> ea_id ` set (effect_attempts d)"
    and "length key \<le> 200" and "length (ec_provider c) \<le> 64" and "length (ec_operation c) \<le> 100" and "length oid \<le> 200"
    and "\<forall>a \<in> set (effect_attempts d). 0 \<le> ea_reconciliation_attempt a"
  shows "\<exists>d'. record_state c fresh key X_CONFIRMED (Some oid) now d = Inr d' \<and> jobs d' = jobs d \<and>
    idempotency_records d' = idempotency_records d \<and> receipts d' = receipts d"
proof -
  let ?n = "following_attempt (get_latest_effect_attempt key d)"
  have n: "0 \<le> ?n \<and> (\<forall>a \<in> set (effect_attempts d). ea_idempotency_key a = key \<longrightarrow> ea_reconciliation_attempt a < ?n)"
  proof (cases "get_latest_effect_attempt key d")
    case None
    then show ?thesis using latest_attempt_None [of key d] by (auto simp: following_attempt_def)
  next
    case (Some l)
    have "0 \<le> ea_reconciliation_attempt l" using assms(7) latest_attempt_Some(1) [OF Some] by blast
    moreover have "\<forall>a \<in> set (effect_attempts d). ea_idempotency_key a = key \<longrightarrow> ea_reconciliation_attempt a \<le> ea_reconciliation_attempt l"
      using latest_attempt_Some(3) [OF Some] by blast
    ultimately show ?thesis using Some by (simp add: following_attempt_def)
  qed
  then have "(key, ?n) \<notin> (\<lambda>x. (ea_idempotency_key x, ea_reconciliation_attempt x)) ` set (effect_attempts d)" by auto
  then show ?thesis using assms n
    by (simp add: record_state_def record_effect_attempt_def insert_effect_attempt_def check_effect_attempt_def
        effect_state_evidence_def fits_def fits_opt_def Let_def)
qed

text \<open>
  C31: An effect whose write was lost is settled by the next run of it while the job is leased: when the
  provider shows the object, with the known identity if one is stored, the run returns it without
  writing, and the key is completed with a confirmed attempt and a receipt that name the object.
\<close>

theorem uncertain_effect_is_recovered:
  assumes "admit_call c = Inr ()"
    and "\<forall>t \<in> {t1, t3}. leased_job shops c t (pr_db s) = Inr job"
    and "key = derive_idempotency_key (j_job_type job) (j_workflow_id job) (j_object_id job) (ec_operation_key c)"
    and "length key \<le> 200" and "length (ec_operation c) \<le> 100" and "ec_provider c \<in> {''notion'', ''etsy''}"
    and "filter (\<lambda>r. ir_idempotency_key r = key) (idempotency_records (pr_db s)) = [r]"
    and "ir_job_id r = ec_job_id c" and "ir_operation r = ec_operation c" and "ir_completed_at r = None"
    and "get_latest_effect_attempt key (pr_db s) = Some a" and "ea_effect_state a = X_UNKNOWN"
    and "ad_reconcile ad (ea_provider_object_id a) (pr_world s) = (Inr (Some obj), w)"
    and "object_id repr obj \<noteq> []" and "length (object_id repr obj) \<le> 200"
    and "ea_provider_object_id a = None \<or> ea_provider_object_id a = Some (object_id repr obj)"
    and "\<forall>x \<in> set (effect_attempts (pr_db s)). 0 \<le> ea_reconciliation_attempt x \<and> ea_id x \<noteq> f"
    and "\<forall>x \<in> set (receipts (pr_db s)). r_id x \<noteq> f' \<and> r_idempotency_key x \<noteq> key"
  shows "\<exists>s'. execute_effect shops repr ad c [(x, y, t1), (x, y, t2), (f, f', t3)] At_Start s = (At_End (Inr obj), s') \<and>
    pr_creates s' = pr_creates s \<and>
    (\<exists>r. get_idempotency_record key (pr_db s') = Inr (Some r) \<and> ir_completed_at r = Some t3) \<and>
    (\<exists>a. get_latest_effect_attempt key (pr_db s') = Some a \<and> ea_effect_state a = X_CONFIRMED \<and>
      ea_provider_object_id a = Some (object_id repr obj)) \<and>
    (\<exists>p \<in> set (receipts (pr_db s')). r_idempotency_key p = key \<and> r_provider_object_id p = Some (object_id repr obj))"
proof -
  let ?d = "pr_db s" and ?oid = "object_id repr obj"
  have g: "get_idempotency_record key ?d = Inr (Some r)" using assms(7) by (simp add: get_idempotency_record_def one_or_none_def)
  have "claim_effect shops c x y t1 ?d = Inr ((key, ea_provider_object_id a, False), ?d)"
    using assms(2-4,8-12) g by (simp add: claim_effect_def Let_def reserve_effect_def may_create_def)
  then have one: "advance shops repr ad c x y t1 At_Start s = (At_Reconcile key (ea_provider_object_id a) False, s)"
    using assms(1) by (simp add: in_transaction_def)
  have two: "advance shops repr ad c x y t2 (At_Reconcile key (ea_provider_object_id a) False) s =
      (At_Confirm key ?oid obj, s\<lparr>pr_world := w\<rparr>)"
    using assms(13,14,16) by (auto simp: observed_pc_def Let_def)
  have job: "get_job ?d (ec_job_id c) = Some job" using leased_job_get assms(2) by blast
  have p: "length (ec_provider c) \<le> 64" using assms(6) by auto
  obtain e where e: "record_state c f key X_CONFIRMED (Some ?oid) t3 ?d = Inr e" "jobs e = jobs ?d"
    "idempotency_records e = idempotency_records ?d" "receipts e = receipts ?d"
    using record_state_ok [of ?d c f key ?oid t3] job assms(4,5,15,17) p by (auto simp: has_job_get)
  define rc where "rc = \<lparr>r_id = f', r_job_id = ec_job_id c, r_idempotency_key = key, r_provider = ec_provider c,
    r_operation = ec_operation c, r_side_effect_class = EXTERNAL_WRITE, r_autonomy_mode = DRAFT, r_effect_state = X_CONFIRMED,
    r_provider_object_id = Some ?oid, r_amount = None, r_currency = None, r_safe_detail = safe_detail_of c, r_recorded_at = t3\<rparr>"
  define h where "h = e\<lparr>receipts := receipts e @ [rc]\<rparr>"
  have "has_job e (ec_job_id c)" using job e(2) by (simp add: has_job_get get_job_def)
  then have h: "record_receipt f' (ec_job_id c) key (ec_provider c) (ec_operation c) EXTERNAL_WRITE DRAFT
      X_CONFIRMED (Some ?oid) None None (Some (safe_detail_of c)) t3 e = Inr (rc, h)"
    using assms(4,5,15,18) p e(4)
    by (auto simp: record_receipt_def insert_receipt_def check_receipt_def fits_def fits_opt_def rc_def h_def Let_def bindE_eq_Inr)
  define d' where "d' = h\<lparr>idempotency_records := map (\<lambda>x. if ir_id x = ir_id r then x\<lparr>ir_completed_at := Some t3\<rparr> else x)
    (idempotency_records h)\<rparr>"
  have "get_idempotency_record key h = Inr (Some r)" using g e(3) by (simp add: h_def get_idempotency_record_def)
  then have m: "mark_idempotency_completed key t3 h = Inr ((), d')" by (simp add: mark_idempotency_completed_def d'_def)
  have three: "advance shops repr ad c f f' t3 (At_Confirm key ?oid obj) (s\<lparr>pr_world := w\<rparr>) =
      (At_End (Inr obj), s\<lparr>pr_world := w, pr_db := d'\<rparr>)"
    using assms(2,10) g e(1) h m by (simp add: confirm_effect_def in_transaction_def)
  have "filter (\<lambda>x. ir_idempotency_key x = key) (idempotency_records d') =
      map (\<lambda>x. if ir_id x = ir_id r then x\<lparr>ir_completed_at := Some t3\<rparr> else x) [r]"
    using assms(7) e(3) unfolding d'_def h_def by (simp add: filter_map o_def if_distrib cong: if_cong)
  then have "get_idempotency_record key d' = Inr (Some (r\<lparr>ir_completed_at := Some t3\<rparr>))"
    by (simp add: get_idempotency_record_def one_or_none_def)
  moreover have "effect_attempts d' = effect_attempts e" by (simp add: d'_def h_def)
  then have "get_latest_effect_attempt key d' = get_latest_effect_attempt key e" by (simp add: get_latest_effect_attempt_def)
  moreover have "rc \<in> set (receipts d')" "r_idempotency_key rc = key" "r_provider_object_id rc = Some ?oid"
    by (simp_all add: d'_def h_def rc_def)
  ultimately show ?thesis
    using one two three record_state_view(4) [OF e(1)]
    by (intro exI [of _ "s\<lparr>pr_world := w, pr_db := d'\<rparr>"]) auto
qed

subsection \<open>An example\<close>

text \<open>A provider that stores the object and loses the response.\<close>

definition example_object :: provider_object where
  "example_object = [(''id'', JStr ''obj-1'')]"

definition example_adapter :: "bool effect_adapter" where
  "example_adapter = \<lparr>ad_create = (\<lambda>_. (Inl Provider_Error, True)),
     ad_reconcile = (\<lambda>_ stored. (Inr (if stored then Some example_object else None), stored))\<rparr>"

definition example_call :: effect_call where
  "example_call = \<lparr>ec_authority = \<lparr>da_run_id = ''run-1'', da_product_id = 9, da_shop_name = SHOP_NAME, da_verified_shop_id = Some 5,
       da_verified_notion_parent_id = None\<rparr>, ec_job_id = 3, ec_lease_owner = ''w1'', ec_operation_key = ''draft'',
     ec_provider = ''etsy'', ec_operation = ''etsy.create_draft'', ec_notion_parent_id = None, ec_shop_id = Some 5\<rparr>"

definition example_effect_db :: db where
  "example_effect_db = example_db [(example_leased_job 3 ''k'' ''w1'')\<lparr>j_input := JObj [(''run_id'', JStr ''run-1'')],
     j_allowed_mode := DRAFT, j_side_effect_class := EXTERNAL_WRITE\<rparr>]"

definition example_shared :: "bool effect_shared" where
  "example_shared = \<lparr>pr_db = example_effect_db, pr_world = False, pr_creates = []\<rparr>"

definition example_shops :: "uuid \<Rightarrow> string option" where
  "example_shops i = (if i = 1 then Some SHOP_NAME else None)"

definition example_key :: string where
  "example_key = derive_idempotency_key ''research'' 7 9 ''draft''"

definition example_first :: "effect_pc \<times> bool effect_shared" where
  "example_first = execute_effect example_shops (\<lambda>_. []) example_adapter example_call
     [(20, 21, 10), (0, 0, 11), (0, 0, 12), (0, 0, 13), (22, 0, 14)] At_Start example_shared"

lemma example_key_length: "\<not> 200 < length example_key"
  by (simp add: example_key_def derive_idempotency_key_def length_str_uuid)

lemma example_job_lease:
  assumes "jobs d = jobs example_effect_db" and "workflow_runs d = workflow_runs example_effect_db" and "now < 100"
  shows "leased_job example_shops example_call now d = Inr (hd (jobs example_effect_db))"
  using assms by (simp add: leased_job_def scoped_job_def example_call_def example_effect_db_def example_defs get_job_def
    get_workflow_def json_get_def example_shops_def SHOP_NAME_def Let_def)

lemma example_call_fields: "ec_job_id example_call = 3" "ec_operation example_call = ''etsy.create_draft''" "ec_provider example_call = ''etsy''"
  by (simp_all add: example_call_def)

lemma example_admitted: "admit_call example_call = Inr ()"
  by code_simp

definition example_record :: idempotency_record where
  "example_record = \<lparr>ir_id = 20, ir_idempotency_key = example_key, ir_job_id = 3, ir_operation = ''etsy.create_draft'',
     ir_side_effect_class = EXTERNAL_WRITE, ir_reserved_at = 10, ir_completed_at = None\<rparr>"

definition example_attempt :: "uuid \<Rightarrow> int \<Rightarrow> time \<Rightarrow> effect_attempt" where
  "example_attempt i n t = \<lparr>ea_id = i, ea_idempotency_key = example_key, ea_job_id = 3, ea_agent_run_id = None,
     ea_provider = ''etsy'', ea_operation = ''etsy.create_draft'', ea_effect_state = X_UNKNOWN, ea_provider_object_id = None,
     ea_reconciliation_attempt = n, ea_observed_at = t, ea_recorded_at = t\<rparr>"

definition example_claimed :: "effect_attempt list \<Rightarrow> db" where
  "example_claimed as = example_effect_db\<lparr>idempotency_records := [example_record], effect_attempts := as\<rparr>"

lemma example_claim: "claim_effect example_shops example_call 20 21 10 example_effect_db =
    Inr ((example_key, None, True), example_claimed [example_attempt 21 0 10])"
proof -
  have k: "derive_idempotency_key (j_job_type (hd (jobs example_effect_db))) (j_workflow_id (hd (jobs example_effect_db)))
      (j_object_id (hd (jobs example_effect_db))) (ec_operation_key example_call) = example_key"
    by (simp add: example_key_def example_effect_db_def example_defs example_call_def)
  have e: "idempotency_records example_effect_db = []" "effect_attempts example_effect_db = []" "has_job example_effect_db 3"
    by (simp_all add: example_effect_db_def example_defs has_job_def)
  have h: "has_job (example_effect_db\<lparr>idempotency_records := rs\<rparr>) 3" for rs using e(3) by (simp add: has_job_def)
  show ?thesis
    using example_job_lease [of example_effect_db 10] example_key_length e h
    by (simp add: claim_effect_def Let_def k reserve_effect_def get_idempotency_record_def one_or_none_def may_create_def
      reserve_idempotency_key_def insert_idempotency_record_def check_idempotency_record_def fits_def example_call_fields
      get_latest_effect_attempt_def record_state_def record_effect_attempt_def insert_effect_attempt_def check_effect_attempt_def
      effect_state_evidence_def fits_opt_def following_attempt_def example_claimed_def example_record_def example_attempt_def)
qed

lemma example_first_run: "example_first =
    (At_End (Inl (Effect_Uncertain ''provider_effect_requires_read_reconciliation'')),
     \<lparr>pr_db = example_claimed [example_attempt 21 0 10, example_attempt 22 1 14], pr_world = True,
       pr_creates = [(example_key, False)]\<rparr>)"
proof -
  let ?d = "example_claimed [example_attempt 21 0 10]"
  have d: "jobs (example_claimed as) = jobs example_effect_db" "workflow_runs (example_claimed as) = workflow_runs example_effect_db"
    "get_idempotency_record example_key (example_claimed as) = Inr (Some example_record)" "effect_attempts (example_claimed as) = as" for as
    by (simp_all add: example_claimed_def get_idempotency_record_def one_or_none_def example_record_def)
  have l: "leased_job example_shops example_call now ?d = Inr (hd (jobs example_effect_db))" if "now < 100" for now
    using example_job_lease d that by blast
  have j: "has_job ?d 3" by (simp add: has_job_def d example_effect_db_def example_defs)
  have g: "get_latest_effect_attempt example_key ?d = Some (example_attempt 21 0 10)"
    by (simp add: get_latest_effect_attempt_def d) (simp add: example_attempt_def)
  have "record_state example_call 22 example_key X_UNKNOWN None 14 ?d = Inr (example_claimed [example_attempt 21 0 10, example_attempt 22 1 14])"
    using j g example_key_length
    by (simp add: record_state_def record_effect_attempt_def insert_effect_attempt_def check_effect_attempt_def example_call_fields
      effect_state_evidence_def fits_def fits_opt_def following_attempt_def d) (simp add: example_claimed_def example_attempt_def Let_def)
  then have "record_failure example_shops example_call example_key False None 22 14 ?d =
      Inr (example_claimed [example_attempt 21 0 10, example_attempt 22 1 14])"
    using l d by (simp add: record_failure_def example_record_def)
  moreover have "recheck_effect example_shops example_call example_key 12 ?d = Inr ()"
    using l d by (simp add: recheck_effect_def example_record_def)
  ultimately show ?thesis
    by (simp add: example_first_def example_shared_def example_admitted example_claim in_transaction_def example_adapter_def
      is_refusal_def failure_of_def)
qed

theorem effect_is_written_at_most_once_witness: "writes example_key (snd example_first) = 1"
proof -
  have r: "effect_run example_key example_shops (\<lambda>_. []) example_shared (snd example_first)
      (add_mset (example_call, example_adapter, fst example_first) {#})"
    by (rule execute_is_run [OF effect_run.spawn [OF effect_run.begin']]) (unfold prod.collapse, rule example_first_def [symmetric])
  have "key_rows example_key (pr_db example_shared) = ([], [])" "writes example_key example_shared = 0"
    by (simp_all add: key_rows_def writes_def example_shared_def example_effect_db_def example_defs)
  then have "writes example_key (snd example_first) \<le> 1" using effect_is_written_at_most_once [OF r] by blast
  moreover have "writes example_key (snd example_first) = 1" by (simp add: example_first_run writes_def)
  ultimately show ?thesis by simp
qed

lemma example_fields: "ir_job_id example_record = 3" "ir_operation example_record = ''etsy.create_draft''"
  "ir_completed_at example_record = None" "ea_effect_state (example_attempt i n t) = X_UNKNOWN"
  "ea_provider_object_id (example_attempt i n t) = None" "ea_id (example_attempt i n t) = i"
  "ea_reconciliation_attempt (example_attempt i n t) = n"
  "ad_reconcile example_adapter known True = (Inr (Some example_object), True)"
  by (simp_all add: example_record_def example_attempt_def example_adapter_def)

theorem uncertain_effect_is_recovered_witness:
  "\<exists>s'. execute_effect example_shops (\<lambda>_. []) example_adapter example_call [(0, 0, 15), (0, 0, 16), (30, 31, 17)] At_Start
      (snd example_first) = (At_End (Inr example_object), s') \<and> pr_creates s' = [(example_key, False)]"
proof -
  let ?as = "[example_attempt 21 0 10, example_attempt 22 1 14]"
  have s: "pr_db (snd example_first) = example_claimed ?as" "pr_world (snd example_first)" "pr_creates (snd example_first) = [(example_key, False)]"
    by (simp_all add: example_first_run)
  have l: "\<forall>t \<in> {15, 17}. leased_job example_shops example_call t (example_claimed ?as) = Inr (hd (jobs example_effect_db))"
    using example_job_lease [of "example_claimed ?as"] by (simp add: example_claimed_def)
  have k: "example_key = derive_idempotency_key (j_job_type (hd (jobs example_effect_db))) (j_workflow_id (hd (jobs example_effect_db)))
      (j_object_id (hd (jobs example_effect_db))) (ec_operation_key example_call)"
    by (simp add: example_key_def example_effect_db_def example_defs example_call_def)
  have f: "filter (\<lambda>r. ir_idempotency_key r = example_key) (idempotency_records (example_claimed ?as)) = [example_record]"
    "effect_attempts (example_claimed ?as) = ?as" "receipts (example_claimed ?as) = []"
    by (simp_all add: example_claimed_def example_record_def example_effect_db_def example_defs)
  have g: "get_latest_effect_attempt example_key (example_claimed ?as) = Some (example_attempt 22 1 14)"
    by (simp add: get_latest_effect_attempt_def f) (simp add: example_attempt_def)
  have o: "object_id (\<lambda>_. []) example_object = ''obj-1''" by (simp add: object_id_def example_object_def)
  show ?thesis
    using uncertain_effect_is_recovered [OF example_admitted, of 15 17 example_shops "snd example_first" "hd (jobs example_effect_db)"
        example_key example_record "example_attempt 22 1 14" example_adapter example_object True "\<lambda>_. []" 30 31 0 0 16]
      s l k f g o example_key_length
    by (auto simp: example_call_fields example_fields simp del: execute_effect.simps)
qed

theorem running_effects_are_authorised_witness:
  "\<exists>s M. effect_run example_key example_shops (\<lambda>_. []) example_shared s M \<and>
     (example_call, example_adapter, At_Reconcile example_key None True) \<in># M \<and>
     ec_operation example_call \<in> ALLOWED_OPERATIONS"
proof -
  have "advance example_shops (\<lambda>_. []) example_adapter example_call 20 21 10 At_Start example_shared =
      (At_Reconcile example_key None True, example_shared\<lparr>pr_db := example_claimed [example_attempt 21 0 10]\<rparr>)"
    by (simp add: example_shared_def example_admitted example_claim in_transaction_def)
  from effect_run.step [OF effect_run.spawn [OF effect_run.begin'] this]
  have r: "effect_run example_key example_shops (\<lambda>_. []) example_shared
      (example_shared\<lparr>pr_db := example_claimed [example_attempt 21 0 10]\<rparr>)
      {#(example_call, example_adapter, At_Reconcile example_key None True)#}" .
  show ?thesis using running_effects_are_authorised [OF r, of example_call example_adapter] r by fastforce
qed

end
