(* ===== verification/Storage_Keys.thy ===== *)
theory Storage_Keys
  imports Effect_Steps Calendar Contracts Patterns "HOL-Library.List_Lexorder" "HOL-Library.Char_ord"
begin

section \<open>Keys of stored assets\<close>

text \<open>
  \<^verbatim>\<open>integrations/storage/interface.py\<close> and the URI reader of \<^verbatim>\<open>integrations/storage/local.py\<close>:
  the refusals every store shares, the versioned URI of an object, the local signature, and the
  check that turns a URI back into a role and three path components. The digest functions of
  \<^verbatim>\<open>hashlib\<close> and \<^verbatim>\<open>hmac\<close> are arguments.

  The locale \<open>object_store\<close> is what the two stores promise their clients; it is interpreted in
  \<open>Sim_S3_Store\<close> and \<open>Local_Store\<close>.
\<close>

type_synonym bytes = "8 word list"

datatype storage_role = temporary | published

record stored_object =
  so_storage_uri :: string
  so_sha256 :: string
  so_byte_count :: nat
  so_role :: storage_role

text \<open>A caller may pass \<^verbatim>\<open>True\<close> where an \<^verbatim>\<open>int\<close> is expected; \<^verbatim>\<open>refuse_spec\<close> looks for it.\<close>

datatype spec_arg = Spec_int int | Spec_bool bool

datatype errno = ENOENT | EEXIST | ELOOP | ENOTDIR | EISDIR | EIO | EACCES | ENOSPC

datatype store_error = Storage string | Os errno

text \<open>\<^verbatim>\<open>str(spec_version)\<close>.\<close>

definition str_spec :: "spec_arg \<Rightarrow> string" where
  "str_spec v = (case v of Spec_int n \<Rightarrow> str_int n | Spec_bool b \<Rightarrow> if b then ''True'' else ''False'')"

definition refuse_mode :: "string \<Rightarrow> store_error + unit" where
  "refuse_mode mode =
    (if mode = ''draft'' then Inl (Storage ''storage live'')
     else if mode = ''live'' then Inl (Storage ''storage live'')
     else if mode = ''simulation'' then Inr ()
     else Inl (Storage ''storage mode''))"

definition refuse_spec :: "spec_arg \<Rightarrow> store_error + int" where
  "refuse_spec spec_version = (case spec_version of
     Spec_bool b \<Rightarrow> Inl (Storage ''storage spec'')
   | Spec_int n \<Rightarrow> if n < 1 then Inl (Storage ''storage spec'') else Inr n)"

definition require_digest :: "(bytes \<Rightarrow> string) \<Rightarrow> bytes \<Rightarrow> string \<Rightarrow> store_error + unit" where
  "require_digest hash data sha256 =
    (if length sha256 \<noteq> 64 then Inl (Storage ''storage hash'')
     else if list_ex (\<lambda>c. c \<notin> set ''0123456789abcdef'') sha256 then Inl (Storage ''storage hash'')
     else if hash data \<noteq> sha256 then Inl (Storage ''storage digest'')
     else Inr ())"

definition refuse_collision :: "bytes \<Rightarrow> bytes \<Rightarrow> store_error + unit" where
  "refuse_collision existing data = (if existing \<noteq> data then Inl (Storage ''storage collision'') else Inr ())"

definition scheme_prefix :: "string \<Rightarrow> store_error + string" where
  "scheme_prefix scheme =
    (if scheme = ''fixture'' then Inr ''fixture://''
     else if scheme = ''temp'' then Inr ''temp://''
     else if scheme = ''s3'' then Inr ''s3://simulation/''
     else if scheme = ''s3temp'' then Inr ''s3://temporary/''
     else Inl (Storage ''storage scheme''))"

definition object_uri :: "string \<Rightarrow> uuid \<Rightarrow> spec_arg \<Rightarrow> string \<Rightarrow> store_error + string" where
  "object_uri scheme product_id spec_version sha256 =
     bindE (refuse_spec spec_version) (\<lambda>n.
     bindE (scheme_prefix scheme) (\<lambda>pre.
     Inr (pre @ str_uuid product_id @ ''/'' @ str_int n @ ''/'' @ sha256)))"

definition signature :: "(string \<Rightarrow> string \<Rightarrow> string) \<Rightarrow> string \<Rightarrow> string" where
  "signature hmac uri = ''sim-signed:'' @ hmac ''simulation'' uri"

definition refuse_signature :: "(string \<Rightarrow> string \<Rightarrow> string) \<Rightarrow> string \<Rightarrow> string \<Rightarrow> store_error + unit" where
  "refuse_signature hmac token uri = (if token \<noteq> signature hmac uri then Inl (Storage ''storage signature'') else Inr ())"

definition refuse_published :: "string \<Rightarrow> store_error + unit" where
  "refuse_published uri =
    (if prefix ''fixture://'' uri then Inl (Storage ''storage published'')
     else if prefix ''s3://simulation/'' uri then Inl (Storage ''storage published'')
     else Inr ())"

subsection \<open>Reading a URI\<close>

fun exactly :: "nat \<Rightarrow> pattern \<Rightarrow> pattern" where
  "exactly 0 p = PEmpty"
| "exactly (Suc n) p = PSeq p (exactly n p)"

definition hex_class :: pattern where "hex_class = PClass (\<lambda>c. c \<in> set ''0123456789abcdef'')"

definition dash :: pattern where "dash = PClass (\<lambda>c. c = CHR ''-'')"

definition UUID_RE :: pattern where
  "UUID_RE = PSeq (exactly 8 hex_class) (PSeq dash (PSeq (exactly 4 hex_class) (PSeq dash
     (PSeq (exactly 4 hex_class) (PSeq dash (PSeq (exactly 4 hex_class) (PSeq dash (exactly 12 hex_class))))))))"

definition SPEC_RE :: pattern where
  "SPEC_RE = PSeq (PClass (\<lambda>c. c \<in> set ''123456789'')) (PStar (PClass (\<lambda>c. c \<in> set ''0123456789'')))"

definition HEX_RE :: pattern where "HEX_RE = exactly 64 hex_class"

definition DOTS :: "string list" where "DOTS = ['''', ''.'', ''..'']"

definition split_uri :: "string \<Rightarrow> store_error + (storage_role \<times> string)" where
  "split_uri uri =
    (if prefix ''fixture://'' uri then Inr (published, drop (length ''fixture://'') uri)
     else if prefix ''temp://'' uri then Inr (temporary, drop (length ''temp://'') uri)
     else Inl (Storage ''storage role''))"

definition path_parts :: "string \<Rightarrow> store_error + (string \<times> string \<times> string)" where
  "path_parts rest =
    (if prefix ''/'' rest then Inl (Storage ''storage path slash'')
     else if CHR 0x5C \<in> set rest then Inl (Storage ''storage path backslash'')
     else (case split_on CHR ''/'' rest of
       [product, spec, digest] \<Rightarrow>
         if list_ex (\<lambda>part. part \<in> set DOTS) [product, spec, digest] then Inl (Storage ''storage path dots'')
         else if \<not> fullmatch UUID_RE product then Inl (Storage ''storage path'')
         else if \<not> fullmatch SPEC_RE spec then Inl (Storage ''storage path'')
         else if \<not> fullmatch HEX_RE digest then Inl (Storage ''storage path'')
         else Inr (product, spec, digest)
     | _ \<Rightarrow> Inl (Storage ''storage path length'')))"

definition uri_key :: "string \<Rightarrow> store_error + (storage_role \<times> string \<times> string \<times> string)" where
  "uri_key uri = bindE (split_uri uri) (\<lambda>(role, rest).
     bindE (path_parts rest) (\<lambda>(product, spec, digest). Inr (role, product, spec, digest)))"

subsection \<open>The patterns\<close>

lemma lang_exactly_class [simp]: "lang (exactly n (PClass f)) = {w. length w = n \<and> list_all f w}"
proof (induction n)
  case 0
  then show ?case by auto
next
  case (Suc n)
  have "lang (exactly (Suc n) (PClass f)) = {x # v | x v. f x \<and> length v = n \<and> list_all f v}"
    unfolding exactly.simps lang_class_seq Suc by simp
  also have "\<dots> = {w. length w = Suc n \<and> list_all f w}" by (auto simp: length_Suc_conv)
  finally show ?case .
qed

lemma fullmatch_HEX: "fullmatch HEX_RE s \<longleftrightarrow> sha256_hex s"
  by (simp add: fullmatch_iff HEX_RE_def hex_class_def sha256_hex_def)

lemma fullmatch_SPEC: "fullmatch SPEC_RE s \<longleftrightarrow> (\<exists>c w. s = c # w \<and> c \<in> set ''123456789'' \<and> set w \<subseteq> decimal_chars)"
  unfolding fullmatch_iff SPEC_RE_def lang_class_seq lang_star_class list_all_iff decimal_chars_def subset_iff mem_Collect_eq by blast


lemma hex_chunk: "length w = n \<Longrightarrow> set w \<subseteq> set ''0123456789abcdef'' \<Longrightarrow> w \<in> lang (exactly n hex_class)"
  unfolding hex_class_def lang_exactly_class mem_Collect_eq list_all_iff by blast

lemma hex_string_hex: "set (hex_string k n) \<subseteq> set ''0123456789abcdef''"
proof (induction k arbitrary: n)
  case 0
  then show ?case by simp
next
  case (Suc k)
  have "''0123456789abcdef'' ! (n mod 16) \<in> set ''0123456789abcdef''" by (rule nth_mem) simp
  then show ?case using Suc by (simp add: hex_digit_def del: nth_Cons_numeral)
qed

lemma lang_seqI: "u \<in> lang p \<Longrightarrow> v \<in> lang q \<Longrightarrow> u @ v \<in> lang (PSeq p q)"
  by auto

lemma str_uuid_fullmatch [simp]: "fullmatch UUID_RE (str_uuid u)"
proof -
  let ?h = "hex_string 32 (unat u)"
  have h: "set (take a (drop b ?h)) \<subseteq> set ''0123456789abcdef''" for a b
    using hex_string_hex [of 32 "unat u"] by (meson order_trans set_drop_subset set_take_subset)
  have c: "take a (drop b ?h) \<in> lang (exactly a hex_class)" if "a + b \<le> 32" for a b
    using that by (intro hex_chunk h) simp
  have d: "''-'' \<in> lang dash" by (simp add: dash_def)
  have "take 8 (drop 0 ?h) @ ''-'' @ take 4 (drop 8 ?h) @ ''-'' @ take 4 (drop 12 ?h) @ ''-'' @ take 4 (drop 16 ?h) @ ''-'' @
      take 12 (drop 20 ?h) \<in> lang UUID_RE"
    unfolding UUID_RE_def by (intro lang_seqI c d) simp_all
  moreover have "take 12 (drop 20 ?h) = drop 20 ?h" by simp
  ultimately show ?thesis by (simp add: fullmatch_iff str_uuid_def Let_def)
qed

lemma str_int_fullmatch [simp]: "1 \<le> n \<Longrightarrow> fullmatch SPEC_RE (str_int n)"
proof -
  assume n: "1 \<le> n"
  obtain c w where cw: "str_nat (nat n) = c # w" by (metis neq_Nil_conv str_nat_nonempty(1))
  have "set (c # w) \<subseteq> decimal_chars" using str_nat_chars [of "nat n"] cw by simp
  moreover have "c \<noteq> CHR ''0''" using str_nat_leading [of "nat n"] n cw by simp
  ultimately have "c \<in> set ''123456789'' \<and> set w \<subseteq> decimal_chars" by (auto simp: decimal_chars_def)
  then show ?thesis using n cw by (simp add: fullmatch_SPEC str_int_def del: fullmatch.simps)
qed

subsection \<open>A URI leads back to its key\<close>

definition role_scheme :: "storage_role \<Rightarrow> string" where
  "role_scheme r = (case r of published \<Rightarrow> ''fixture'' | temporary \<Rightarrow> ''temp'')"

lemma slash_free [simp]:
  "CHR ''/'' \<notin> set (str_uuid u)" "1 \<le> n \<Longrightarrow> CHR ''/'' \<notin> set (str_int n)" "sha256_hex h \<Longrightarrow> CHR ''/'' \<notin> set h"
  "CHR 0x5C \<notin> set (str_uuid u)" "1 \<le> n \<Longrightarrow> CHR 0x5C \<notin> set (str_int n)" "sha256_hex h \<Longrightarrow> CHR 0x5C \<notin> set h"
proof -
  have u: "c \<notin> set (str_uuid u)" if "c \<notin> uuid_chars" for c using that str_uuid_chars by blast
  have n: "c \<notin> set (str_int n)" if "c \<notin> decimal_chars" "1 \<le> n" for c
    using that str_int_chars [of n] by (meson in_mono order_trans zero_le_one)
  have h: "c \<notin> set h" if "c \<notin> set ''0123456789abcdef''" "sha256_hex h" for c
    using that unfolding sha256_hex_def list_all_iff by blast
  show "CHR ''/'' \<notin> set (str_uuid u)" "CHR 0x5C \<notin> set (str_uuid u)" by (rule u; simp add: uuid_chars_def)+
  show "1 \<le> n \<Longrightarrow> CHR ''/'' \<notin> set (str_int n)" "1 \<le> n \<Longrightarrow> CHR 0x5C \<notin> set (str_int n)"
    by (rule n; simp add: decimal_chars_def)+
  show "sha256_hex h \<Longrightarrow> CHR ''/'' \<notin> set h" "sha256_hex h \<Longrightarrow> CHR 0x5C \<notin> set h" by (rule h; simp)+
qed

lemma not_dots:
  "fullmatch UUID_RE s \<Longrightarrow> s \<notin> set DOTS" "fullmatch SPEC_RE s \<Longrightarrow> s \<notin> set DOTS" "sha256_hex s \<Longrightarrow> s \<notin> set DOTS"
  by (auto simp: DOTS_def UUID_RE_def SPEC_RE_def hex_class_def sha256_hex_def numeral_eq_Suc)

lemma split_three: "CHR ''/'' \<notin> set a \<Longrightarrow> CHR ''/'' \<notin> set b \<Longrightarrow> CHR ''/'' \<notin> set c \<Longrightarrow>
    split_on CHR ''/'' (a @ CHR ''/'' # b @ CHR ''/'' # c) = [a, b, c]"
  by (simp add: split_on_append split_on_plain)

lemma object_uri_Inr: "object_uri scheme p v h = Inr uri \<longleftrightarrow> (\<exists>n pre. v = Spec_int n \<and> 1 \<le> n \<and>
    scheme_prefix scheme = Inr pre \<and> uri = pre @ str_uuid p @ ''/'' @ str_int n @ ''/'' @ h)"
  by (cases v) (auto simp: object_uri_def refuse_spec_def bindE_eq_Inr)

lemma uri_key_object_uri:
  assumes "sha256_hex h" and "object_uri (role_scheme r) p v h = Inr uri"
  shows "\<exists>n. v = Spec_int n \<and> 1 \<le> n \<and> uri_key uri = Inr (r, str_uuid p, str_int n, h)"
proof -
  from assms(2) obtain n pre where n: "v = Spec_int n" "1 \<le> n" and pre: "scheme_prefix (role_scheme r) = Inr pre"
    and uri: "uri = pre @ str_uuid p @ ''/'' @ str_int n @ ''/'' @ h" by (auto simp: object_uri_Inr)
  let ?rest = "str_uuid p @ ''/'' @ str_int n @ ''/'' @ h"
  have "split_uri uri = Inr (r, ?rest)"
    using pre uri by (cases r) (auto simp: split_uri_def role_scheme_def scheme_prefix_def)
  moreover have "\<not> prefix ''/'' ?rest"
  proof -
    have "str_uuid p \<noteq> []" by (metis length_0_conv length_str_uuid zero_neq_numeral)
    then show ?thesis using slash_free(1) [of p] by (cases "str_uuid p") auto
  qed
  ultimately show ?thesis using n assms(1) not_dots(1) [of "str_uuid p"] not_dots(2) [of "str_int n"] not_dots(3) [of h]
    split_three [of "str_uuid p" "str_int n" h]
    by (simp add: uri_key_def path_parts_def fullmatch_HEX)
qed

lemma path_parts_Inr: "path_parts rest = Inr (p, v, h) \<Longrightarrow>
    fullmatch UUID_RE p \<and> fullmatch SPEC_RE v \<and> sha256_hex h \<and> {p, v, h} \<inter> set DOTS = {}"
  unfolding path_parts_def
  by (auto simp: fullmatch_HEX simp del: fullmatch.simps split: if_split_asm list.split_asm)

lemma uri_key_Inr: "uri_key uri = Inr (r, p, v, h) \<longleftrightarrow> (\<exists>rest. split_uri uri = Inr (r, rest) \<and> path_parts rest = Inr (p, v, h))"
  by (auto simp: uri_key_def bindE_eq_Inr)

lemma uri_key_parts: "uri_key uri = Inr (r, p, v, h) \<Longrightarrow>
    fullmatch UUID_RE p \<and> fullmatch SPEC_RE v \<and> sha256_hex h \<and> {p, v, h} \<inter> set DOTS = {}"
  using path_parts_Inr unfolding uri_key_Inr by blast

lemma uri_key_role: "uri_key uri = Inr (r, p, v, h) \<Longrightarrow> r = published \<longleftrightarrow> refuse_published uri \<noteq> Inr ()"
  by (auto simp: uri_key_Inr split_uri_def refuse_published_def prefix_def split: if_splits)

lemma require_digest_Inr: "require_digest hash data h = Inr u \<longleftrightarrow> sha256_hex h \<and> hash data = h"
  by (auto simp: require_digest_def sha256_hex_def list_all_iff list_ex_iff)

text \<open>C34: A URI that a store builds for an object leads back to the role, product, version and digest it
  was built from, so different objects have different URIs; and a URI that the reader accepts from
  anyone has a component of each form and no component that is empty, a dot or two dots.\<close>

theorem object_uri_round_trip:
  "(sha256_hex h \<and> object_uri (role_scheme r) p v h = Inr uri \<longrightarrow>
      (\<exists>n. v = Spec_int n \<and> 1 \<le> n \<and> uri_key uri = Inr (r, str_uuid p, str_int n, h)) \<and>
      (\<forall>r' p' v' h'. sha256_hex h' \<and> object_uri (role_scheme r') p' v' h' = Inr uri \<longrightarrow> (r, p, v, h) = (r', p', v', h'))) \<and>
    (uri_key uri = Inr (role, product, spec, digest) \<longrightarrow>
      fullmatch UUID_RE product \<and> fullmatch SPEC_RE spec \<and> sha256_hex digest \<and> {product, spec, digest} \<inter> set DOTS = {})"
proof -
  have "(r, p, v, h) = (r', p', v', h')"
    if k: "sha256_hex h" "object_uri (role_scheme r) p v h = Inr uri" "sha256_hex h'" "object_uri (role_scheme r') p' v' h' = Inr uri"
    for r' p' v' h'
  proof -
    obtain n n' where n: "v = Spec_int n" "1 \<le> n" "uri_key uri = Inr (r, str_uuid p, str_int n, h)"
      and n': "v' = Spec_int n'" "1 \<le> n'" "uri_key uri = Inr (r', str_uuid p', str_int n', h')"
      using uri_key_object_uri [OF k(1,2)] uri_key_object_uri [OF k(3,4)] by blast
    have "str_int n = str_int n'" using n(3) n'(3) by simp
    then have "n = n'" using str_int_inj n(2) n'(2) by simp
    then show ?thesis using n n' by simp
  qed
  then show ?thesis using uri_key_object_uri [of h r p v uri] uri_key_parts by blast
qed

definition example_bytes_digest :: "bytes \<Rightarrow> string" where
  "example_bytes_digest d = replicate 63 CHR ''0'' @ [hex_digit (length d)]"

theorem object_uri_round_trip_witness:
  "\<exists>uri. object_uri (role_scheme published) 7 (Spec_int 1) (example_bytes_digest [1]) = Inr uri \<and>
     uri_key uri = Inr (published, str_uuid 7, ''1'', example_bytes_digest [1])"
proof -
  have hex: "sha256_hex (example_bytes_digest [1])" by code_simp
  have one: "str_int 1 = ''1''" by code_simp
  obtain uri where "object_uri (role_scheme published) 7 (Spec_int 1) (example_bytes_digest [1]) = Inr uri"
    by (simp add: object_uri_def refuse_spec_def scheme_prefix_def role_scheme_def)
  then show ?thesis using object_uri_round_trip [of "example_bytes_digest [1]" published 7 "Spec_int 1" uri] hex one by (metis spec_arg.inject(1))
qed

subsection \<open>What a store promises\<close>

datatype store_op =
    Publish uuid spec_arg string bytes
  | Put_temporary uuid spec_arg string bytes
  | Read_object string
  | Discard string
  | Cleanup_temporary uuid spec_arg string

locale object_store =
  fixes run :: "'env \<Rightarrow> store_op \<Rightarrow> 'st \<Rightarrow> 'st"
    and publish :: "'env \<Rightarrow> uuid \<Rightarrow> spec_arg \<Rightarrow> string \<Rightarrow> bytes \<Rightarrow> 'st \<Rightarrow> (store_error + stored_object) \<times> 'st"
    and content :: "'st \<Rightarrow> string \<Rightarrow> bytes option"
    and permanent :: "string \<Rightarrow> bool"
    and ok :: "'st \<Rightarrow> bool"
  assumes run_ok: "ok s \<Longrightarrow> ok (run env op s)"
    and publish_ok: "ok s \<Longrightarrow> publish env p v h d s = (r, t) \<Longrightarrow> ok t"
    and published_stored: "ok s \<Longrightarrow> publish env p v h d s = (Inr obj, t) \<Longrightarrow>
      permanent (so_storage_uri obj) \<and> content t (so_storage_uri obj) = Some d"
    and permanent_kept: "ok s \<Longrightarrow> permanent uri \<Longrightarrow> content s uri = Some d \<Longrightarrow> content (run env op s) uri = Some d"
begin

lemma kept_by_all:
  assumes "ok s" and "permanent uri" and "content s uri = Some d"
  shows "content (fold (\<lambda>(env, op). run env op) ops s) uri = Some d"
  using assms
proof (induction ops arbitrary: s)
  case Nil
  then show ?case by simp
next
  case (Cons e ops)
  then show ?case using run_ok permanent_kept by (auto simp: case_prod_beta)
qed

lemma published_for_good:
  assumes "ok s" and "publish env p v h d s = (Inr obj, t)"
  shows "content (fold (\<lambda>(env, op). run env op) ops t) (so_storage_uri obj) = Some d"
  using published_stored [OF assms] publish_ok [OF assms] kept_by_all by blast

end

end
