(* ===== verification/Sim_S3_Store.thy ===== *)
theory Sim_S3_Store
  imports Storage_Keys "HOL-Library.AList"
begin

section \<open>The simulated S3 store\<close>

text \<open>
  \<^verbatim>\<open>integrations/storage/s3.py\<close>: objects and roles as two dicts under the same URI, the signed
  retrieval token, and the removal of superseded temporaries, which goes through \<^verbatim>\<open>discard\<close> for
  each of them. The two dicts keep the same keys, and the role of a key is the one its prefix says.
\<close>

record s3_store =
  s3_objects :: "(string \<times> bytes) list"
  s3_roles :: "(string \<times> storage_role) list"

type_synonym 'a s3_io = "(store_error, 'a, s3_store) step"

definition s3_init :: "string \<Rightarrow> store_error + s3_store" where
  "s3_init mode = bindE (refuse_mode mode) (\<lambda>_. Inr \<lparr>s3_objects = [], s3_roles = []\<rparr>)"

definition s3_set :: "string \<Rightarrow> bytes \<Rightarrow> storage_role \<Rightarrow> s3_store \<Rightarrow> s3_store" where
  "s3_set uri data role s = s\<lparr>s3_objects := AList.update uri data (s3_objects s), s3_roles := AList.update uri role (s3_roles s)\<rparr>"

definition s3_del :: "string \<Rightarrow> s3_store \<Rightarrow> s3_store" where
  "s3_del uri s = s\<lparr>s3_objects := AList.delete uri (s3_objects s), s3_roles := AList.delete uri (s3_roles s)\<rparr>"

definition s3_put :: "(bytes \<Rightarrow> string) \<Rightarrow> storage_role \<Rightarrow> string \<Rightarrow> uuid \<Rightarrow> spec_arg \<Rightarrow> string \<Rightarrow> bytes \<Rightarrow> stored_object s3_io" where
  "s3_put hash role scheme product_id spec_version sha256 data =
     bindS (liftS (require_digest hash data sha256)) (\<lambda>_.
     bindS (liftS (object_uri scheme product_id spec_version sha256)) (\<lambda>uri s.
       let obj = \<lparr>so_storage_uri = uri, so_sha256 = sha256, so_byte_count = length data, so_role = role\<rparr>;
           store = (\<lambda>s. (Inr obj, s3_set uri data role s)) in
       (case map_of (s3_objects s) uri of
         Some existing \<Rightarrow> if existing = data then (Inr obj, s)
           else bindS (liftS (refuse_collision existing data)) (\<lambda>_. store) s
       | None \<Rightarrow> store s)))"

definition s3_publish :: "(bytes \<Rightarrow> string) \<Rightarrow> uuid \<Rightarrow> spec_arg \<Rightarrow> string \<Rightarrow> bytes \<Rightarrow> stored_object s3_io" where
  "s3_publish hash = s3_put hash published ''s3''"

definition s3_put_temporary :: "(bytes \<Rightarrow> string) \<Rightarrow> uuid \<Rightarrow> spec_arg \<Rightarrow> string \<Rightarrow> bytes \<Rightarrow> stored_object s3_io" where
  "s3_put_temporary hash = s3_put hash temporary ''s3temp''"

definition s3_read :: "string \<Rightarrow> bytes s3_io" where
  "s3_read uri s = (case map_of (s3_objects s) uri of None \<Rightarrow> Inl (Storage ''storage missing'') | Some data \<Rightarrow> Inr data, s)"

definition s3_signed_retrieval :: "(string \<Rightarrow> string \<Rightarrow> string) \<Rightarrow> string \<Rightarrow> string s3_io" where
  "s3_signed_retrieval hmac uri s =
    (if map_of (s3_objects s) uri = None then Inl (Storage ''storage missing'')
     else if map_of (s3_roles s) uri \<noteq> Some published then Inl (Storage ''storage role'')
     else Inr (signature hmac uri), s)"

definition s3_read_signed :: "(string \<Rightarrow> string \<Rightarrow> string) \<Rightarrow> string \<Rightarrow> string \<Rightarrow> bytes s3_io" where
  "s3_read_signed hmac token uri = bindS (liftS (refuse_signature hmac token uri)) (\<lambda>_. s3_read uri)"

definition s3_internal_retrieval :: "string \<Rightarrow> string s3_io" where
  "s3_internal_retrieval uri = raiseS (Storage ''storage internal'')"

definition s3_discard :: "string \<Rightarrow> unit s3_io" where
  "s3_discard uri = bindS (liftS (refuse_published uri)) (\<lambda>_ s.
     if \<not> prefix ''s3://temporary/'' uri then (Inl (Storage ''storage role''), s)
     else if map_of (s3_objects s) uri = None then (Inl (Storage ''storage missing''), s)
     else (Inr (), s3_del uri s))"

fun s3_remove :: "string \<Rightarrow> string \<Rightarrow> string list \<Rightarrow> string list \<Rightarrow> string list s3_io" where
  "s3_remove pre keep [] removed = returnS removed"
| "s3_remove pre keep (uri # uris) removed =
    (if \<not> prefix pre uri then s3_remove pre keep uris removed
     else let digest = last (split_on CHR ''/'' uri) in
       if digest = keep then s3_remove pre keep uris removed
       else bindS (s3_discard uri) (\<lambda>_. s3_remove pre keep uris (removed @ [digest])))"

definition s3_cleanup_temporary :: "uuid \<Rightarrow> spec_arg \<Rightarrow> string \<Rightarrow> string list s3_io" where
  "s3_cleanup_temporary product_id spec_version keep_sha256 =
    (if length keep_sha256 \<noteq> 64 \<or> list_ex (\<lambda>c. c \<notin> set ''0123456789abcdef'') keep_sha256
     then raiseS (Storage ''storage hash'')
     else (\<lambda>s. s3_remove (''s3://temporary/'' @ str_uuid product_id @ ''/'' @ str_spec spec_version @ ''/'') keep_sha256
       (sort (map fst (s3_objects s))) [] s))"


subsection \<open>Invariant\<close>

definition s3_role_of :: "string \<Rightarrow> storage_role" where
  "s3_role_of uri = (if prefix ''s3://simulation/'' uri then published else temporary)"

definition s3_ok :: "s3_store \<Rightarrow> bool" where
  "s3_ok s \<longleftrightarrow> distinct (map fst (s3_objects s)) \<and>
     map_of (s3_roles s) = (\<lambda>uri. map_option (\<lambda>d. s3_role_of uri) (map_of (s3_objects s) uri)) \<and>
     (\<forall>uri \<in> fst ` set (s3_objects s). prefix ''s3://simulation/'' uri \<or> prefix ''s3://temporary/'' uri)"

definition s3_content :: "s3_store \<Rightarrow> string \<Rightarrow> bytes option" where
  "s3_content s = map_of (s3_objects s)"

lemma s3_content_set: "s3_content (s3_set uri d r s) = (s3_content s)(uri \<mapsto> d)"
  by (simp add: s3_content_def s3_set_def update_conv')

lemma s3_content_del: "s3_content (s3_del uri s) = (s3_content s)(uri := None)"
  by (simp add: s3_content_def s3_del_def delete_conv')

lemma s3_ok_set:
  assumes "s3_ok s" and "r = s3_role_of uri" and "prefix ''s3://simulation/'' uri \<or> prefix ''s3://temporary/'' uri"
  shows "s3_ok (s3_set uri d r s)"
  using assms by (auto simp: s3_ok_def s3_set_def update_conv' distinct_update dom_update simp flip: dom_map_of_conv_image_fst)

lemma s3_ok_del: "s3_ok s \<Longrightarrow> s3_ok (s3_del uri s)"
  by (auto simp: s3_ok_def s3_del_def delete_conv' distinct_delete fun_eq_iff simp flip: dom_map_of_conv_image_fst)

lemma s3_scheme:
  assumes "object_uri scheme p v h = Inr uri" and "scheme = (if r = published then ''s3'' else ''s3temp'')"
  shows "s3_role_of uri = r \<and> (prefix ''s3://simulation/'' uri \<or> prefix ''s3://temporary/'' uri)"
  using assms by (cases r) (auto simp: object_uri_Inr scheme_prefix_def s3_role_of_def split: if_splits)

text \<open>What the two writers do, in one rule: the object is there afterwards, and nothing else changes.\<close>

lemma s3_put_cases:
  assumes "s3_put hash r scheme p v h d s = (res, t)"
  shows "(\<exists>e. res = Inl e) \<and> t = s \<or>
    (\<exists>uri. object_uri scheme p v h = Inr uri \<and> hash d = h \<and>
      res = Inr \<lparr>so_storage_uri = uri, so_sha256 = h, so_byte_count = length d, so_role = r\<rparr> \<and>
      (s3_content s uri = Some d \<and> t = s \<or> s3_content s uri = None \<and> t = s3_set uri d r s))"
proof (cases "require_digest hash d h")
  case (Inl e)
  then show ?thesis using assms by (auto simp: s3_put_def)
next
  case (Inr u)
  note dg = this
  show ?thesis
  proof (cases "object_uri scheme p v h")
    case (Inl e)
    then show ?thesis using assms dg by (auto simp: s3_put_def)
  next
    case (Inr uri)
    then show ?thesis using assms dg require_digest_Inr [of hash d h u]
      by (auto simp: s3_put_def s3_content_def refuse_collision_def Let_def split: option.splits if_splits)
  qed
qed

lemma s3_discard_cases:
  assumes "s3_discard uri s = (res, t)"
  shows "(\<exists>e. res = Inl e) \<and> t = s \<or>
    res = Inr () \<and> t = s3_del uri s \<and> prefix ''s3://temporary/'' uri \<and> s3_content s uri \<noteq> None"
  using assms unfolding s3_discard_def s3_content_def
  by (cases rule: bindS_cases) (auto simp: liftS_def split: if_splits)

lemma s3_discardable: "prefix ''s3://temporary/'' uri \<Longrightarrow> s3_content s uri \<noteq> None \<Longrightarrow> s3_discard uri s = (Inr (), s3_del uri s)"
  by (auto simp: s3_discard_def refuse_published_def s3_content_def prefix_def)

subsection \<open>The store keeps its promises\<close>

definition s3_safe :: "s3_store \<Rightarrow> s3_store \<Rightarrow> bool" where
  "s3_safe s t \<longleftrightarrow> (s3_ok s \<longrightarrow> s3_ok t \<and>
     (\<forall>uri d. prefix ''s3://simulation/'' uri \<and> s3_content s uri = Some d \<longrightarrow> s3_content t uri = Some d))"

interpretation s3_kept: kept s3_safe
  by unfold_locales (auto simp: s3_safe_def)

lemma s3_put_safe:
  assumes "scheme = (if r = published then ''s3'' else ''s3temp'')"
  shows "keeps s3_safe (s3_put hash r scheme p v h d)"
proof (rule keepsI)
  fix s res t
  assume "s3_put hash r scheme p v h d s = (res, t)"
  from s3_put_cases [OF this] show "s3_safe s t"
  proof (elim disjE exE conjE)
    fix uri
    assume uri: "object_uri scheme p v h = Inr uri" and none: "s3_content s uri = None" and t: "t = s3_set uri d r s"
    show ?thesis using s3_ok_set [of s r uri d] s3_scheme [OF uri assms] none t
      by (auto simp: s3_safe_def s3_content_set)
  qed (simp_all add: s3_kept.kept_refl)
qed

lemma s3_discard_safe: "keeps s3_safe (s3_discard uri)"
proof (rule keepsI)
  fix s res t
  assume "s3_discard uri s = (res, t)"
  then show "s3_safe s t"
    using s3_discard_cases s3_ok_del by (fastforce simp: s3_safe_def s3_content_del prefix_def)
qed

lemma s3_remove_safe: "keeps s3_safe (s3_remove pre keep uris removed)"
  by (induction uris arbitrary: removed) (simp_all add: Let_def s3_kept.keeps_rules s3_discard_safe)

lemma s3_cleanup_safe: "keeps s3_safe (s3_cleanup_temporary p v keep)"
  using s3_remove_safe by (simp add: s3_cleanup_temporary_def s3_kept.keeps_pure) (simp add: keeps_def)

fun s3_run :: "(bytes \<Rightarrow> string) \<Rightarrow> store_op \<Rightarrow> s3_store \<Rightarrow> s3_store" where
  "s3_run hash (Publish p v h d) s = snd (s3_publish hash p v h d s)"
| "s3_run hash (Put_temporary p v h d) s = snd (s3_put_temporary hash p v h d s)"
| "s3_run hash (Read_object uri) s = snd (s3_read uri s)"
| "s3_run hash (Discard uri) s = snd (s3_discard uri s)"
| "s3_run hash (Cleanup_temporary p v keep) s = snd (s3_cleanup_temporary p v keep s)"

lemma s3_run_safe: "s3_safe s (s3_run hash op s)"
proof (cases op)
  case (Read_object uri)
  then show ?thesis by (simp add: s3_read_def s3_kept.kept_refl)
qed (use s3_put_safe [of "''s3''" published] s3_put_safe [of "''s3temp''" temporary] s3_discard_safe s3_cleanup_safe in
    \<open>simp_all add: s3_publish_def s3_put_temporary_def keeps_def\<close>)

interpretation s3: object_store s3_run s3_publish s3_content "prefix ''s3://simulation/''" s3_ok
proof unfold_locales
  fix s hash op uri d
  show "s3_ok s \<Longrightarrow> s3_ok (s3_run hash op s)" using s3_run_safe [of s hash op] by (simp add: s3_safe_def)
  show "s3_ok s \<Longrightarrow> prefix ''s3://simulation/'' uri \<Longrightarrow> s3_content s uri = Some d \<Longrightarrow> s3_content (s3_run hash op s) uri = Some d"
    using s3_run_safe [of s hash op] by (auto simp: s3_safe_def)
next
  fix s hash p v h d r t
  assume "s3_ok s" "s3_publish hash p v h d s = (r, t)"
  then show "s3_ok t" using s3_put_safe [THEN keepsD, of "''s3''" published hash p v h d s r t]
    by (simp add: s3_publish_def s3_safe_def)
next
  fix s hash p v h d obj t
  assume "s3_ok s" "s3_publish hash p v h d s = (Inr obj, t)"
  then show "prefix ''s3://simulation/'' (so_storage_uri obj) \<and> s3_content t (so_storage_uri obj) = Some d"
    using s3_put_cases [of hash published "''s3''" p v h d s "Inr obj" t]
    by (auto simp: s3_publish_def s3_content_set object_uri_Inr scheme_prefix_def)
qed


subsection \<open>Cleaning up\<close>

definition uri_name :: "string \<Rightarrow> string" where
  "uri_name uri = last (split_on CHR ''/'' uri)"

definition superseded :: "string \<Rightarrow> string \<Rightarrow> string \<Rightarrow> bool" where
  "superseded pre keep uri \<longleftrightarrow> prefix pre uri \<and> uri_name uri \<noteq> keep"

lemma s3_content_fold_del: "s3_content (fold s3_del uris s) uri = (if uri \<in> set uris then None else s3_content s uri)"
  by (induction uris arbitrary: s) (auto simp: s3_content_del)

lemma s3_remove_exact:
  assumes "distinct uris" and "\<forall>uri \<in> set uris. s3_content s uri \<noteq> None" and "prefix ''s3://temporary/'' pre"
  shows "s3_remove pre keep uris removed s =
    (Inr (removed @ map uri_name (filter (superseded pre keep) uris)), fold s3_del (filter (superseded pre keep) uris) s)"
  using assms(1,2)
proof (induction uris arbitrary: removed s)
  case Nil
  then show ?case by (simp add: returnS_def)
next
  case (Cons uri uris)
  show ?case
  proof (cases "superseded pre keep uri")
    case True
    then have "s3_discard uri s = (Inr (), s3_del uri s)"
      using Cons.prems(2) assms(3) by (intro s3_discardable) (auto simp: superseded_def prefix_order.order_trans)
    moreover have "\<forall>u \<in> set uris. s3_content (s3_del uri s) u \<noteq> None" using Cons.prems by (auto simp: s3_content_del)
    ultimately show ?thesis using True Cons by (simp add: superseded_def uri_name_def Let_def)
  next
    case False
    then show ?thesis using Cons by (auto simp: superseded_def uri_name_def Let_def)
  qed
qed

definition temporary_prefix :: "uuid \<Rightarrow> spec_arg \<Rightarrow> string" where
  "temporary_prefix p v = ''s3://temporary/'' @ str_uuid p @ ''/'' @ str_spec v @ ''/''"

lemma s3_cleanup_remove:
  assumes "sha256_hex keep"
  shows "s3_cleanup_temporary p v keep s = s3_remove (temporary_prefix p v) keep (sort (map fst (s3_objects s))) [] s"
proof -
  have "\<not> (length keep \<noteq> 64 \<or> list_ex (\<lambda>c. c \<notin> set ''0123456789abcdef'') keep)"
    using assms unfolding sha256_hex_def list_all_iff list_ex_iff by blast
  then show ?thesis unfolding s3_cleanup_temporary_def temporary_prefix_def by (simp only: if_False)
qed

text \<open>Cleaning up the temporary renders of one version never fails on a well-formed store: it
  returns the digests of exactly the superseded temporaries of that version, in the order of their
  keys, removes those and no other object, and keeps the digest it is told to keep.\<close>

theorem s3_cleanup_is_exact:
  assumes "s3_ok s" and "sha256_hex keep"
  shows "\<exists>t. s3_cleanup_temporary p v keep s =
      (Inr (map uri_name (filter (superseded (temporary_prefix p v) keep) (sort (map fst (s3_objects s))))), t) \<and> s3_ok t \<and>
    (\<forall>uri. s3_content t uri = (if superseded (temporary_prefix p v) keep uri then None else s3_content s uri))"
proof -
  let ?uris = "sort (map fst (s3_objects s))" and ?sel = "superseded (temporary_prefix p v) keep"
  have "distinct ?uris" "\<forall>uri \<in> set ?uris. s3_content s uri \<noteq> None"
    using assms(1) by (auto simp: s3_ok_def s3_content_def map_of_eq_None_iff)
  moreover have "prefix ''s3://temporary/'' (temporary_prefix p v)" by (simp add: temporary_prefix_def)
  ultimately have run: "s3_cleanup_temporary p v keep s =
      (Inr (map uri_name (filter ?sel ?uris)), fold s3_del (filter ?sel ?uris) s)"
    using s3_remove_exact [of ?uris s "temporary_prefix p v" keep "[]"] by (simp add: s3_cleanup_remove [OF assms(2)])
  moreover have "s3_ok (fold s3_del (filter ?sel ?uris) s)"
    using keepsD [OF s3_cleanup_safe run] assms(1) by (simp add: s3_safe_def)
  moreover have "s3_content (fold s3_del (filter ?sel ?uris) s) uri = (if ?sel uri then None else s3_content s uri)" for uri
  proof -
    have "s3_content s uri = None \<longleftrightarrow> uri \<notin> set ?uris" by (simp add: s3_content_def map_of_eq_None_iff)
    then show ?thesis by (auto simp: s3_content_fold_del)
  qed
  ultimately show ?thesis by blast
qed

definition example_temporary :: "bytes \<Rightarrow> string" where
  "example_temporary d = ''s3://temporary/'' @ str_uuid 7 @ ''/1/'' @ example_bytes_digest d"

definition example_s3 :: s3_store where
  "example_s3 = \<lparr>s3_objects = [(example_temporary [1], [1]), (example_temporary [1, 2], [1, 2])],
     s3_roles = [(example_temporary [1], temporary), (example_temporary [1, 2], temporary)]\<rparr>"

theorem s3_cleanup_is_exact_witness:
  "\<exists>t. s3_cleanup_temporary 7 (Spec_int 1) (example_bytes_digest [1]) example_s3 = (Inr [example_bytes_digest [1, 2]], t)"
proof -
  have ok: "s3_ok example_s3"
    by (auto simp: s3_ok_def example_s3_def example_temporary_def example_bytes_digest_def hex_digit_def s3_role_of_def fun_eq_iff)
  have hex: "sha256_hex (example_bytes_digest [1])" by code_simp
  have "map uri_name (filter (superseded (temporary_prefix 7 (Spec_int 1)) (example_bytes_digest [1])) (sort (map fst (s3_objects example_s3)))) =
      [example_bytes_digest [1, 2]]"
    by code_simp
  then show ?thesis using s3_cleanup_is_exact [OF ok hex, of 7 "Spec_int 1"] by auto
qed

end
