(* ===== verification/Local_Store.thy ===== *)
theory Local_Store
  imports Storage_Keys
begin

section \<open>The local asset store\<close>

text \<open>
  \<^verbatim>\<open>integrations/storage/local.py\<close>. The runtime directory is a map from paths below the root to
  directories, regular files (by inode) and symbolic links; what a link leads to is outside the map.
  A directory handle is the path it was opened at. Every system call first takes the next of a list
  of events, which may make it fail, cut a transfer short, or let another process link a complete
  file or remove an unpublished object just before it. An open file is read from the bytes it had
  when it was opened: a file gets its name after its last write. \<^verbatim>\<open>os.close\<close> has no effect here,
  \<^verbatim>\<open>os.fsync\<close> can only fail, and the hexadecimal name \<^verbatim>\<open>uuid4\<close> gives a temporary file is an argument.

  \<open>safe\<close> is what every operation keeps under every list of events: the tree stays well formed, so
  nothing is created under a link, and a published file keeps its inode and its bytes.
\<close>

datatype node = Directory | Regular nat | Link

type_synonym path = "string list"

datatype os_event = Fine | Fails errno | Short nat | Appears path bytes | Vanishes path

record disk =
  dk_nodes :: "(path \<times> node) list"
  dk_data :: "nat \<Rightarrow> bytes"
  dk_next :: nat
  dk_events :: "os_event list"

type_synonym 'a io = "(store_error, 'a, disk) step"

subsection \<open>System calls\<close>

definition node_at :: "disk \<Rightarrow> path \<Rightarrow> node option" where
  "node_at s p = map_of (dk_nodes s) p"

definition is_directory :: "disk \<Rightarrow> path \<Rightarrow> bool" where
  "is_directory s p \<longleftrightarrow> node_at s p = Some Directory"

definition is_regular :: "disk \<Rightarrow> path \<Rightarrow> bool" where
  "is_regular s p = (case node_at s p of Some (Regular i) \<Rightarrow> True | _ \<Rightarrow> False)"

definition published_path :: "path \<Rightarrow> bool" where
  "published_path p \<longleftrightarrow> p \<noteq> [] \<and> hd p = ''published'' \<and> sha256_hex (last p)"

text \<open>What \<^verbatim>\<open>discard\<close> and \<^verbatim>\<open>cleanup_temporary\<close> of another process may take away.\<close>

definition removable :: "path \<Rightarrow> bool" where
  "removable p \<longleftrightarrow> p \<noteq> [] \<and> hd p \<noteq> ''published'' \<and> sha256_hex (last p)"

definition add_node :: "path \<Rightarrow> node \<Rightarrow> disk \<Rightarrow> disk" where
  "add_node p n s = s\<lparr>dk_nodes := (p, n) # dk_nodes s\<rparr>"

definition drop_node :: "path \<Rightarrow> disk \<Rightarrow> disk" where
  "drop_node p s = s\<lparr>dk_nodes := filter (\<lambda>(q, n). q \<noteq> p) (dk_nodes s)\<rparr>"

definition new_file :: "path \<Rightarrow> bytes \<Rightarrow> disk \<Rightarrow> disk" where
  "new_file p d s = add_node p (Regular (dk_next s)) (s\<lparr>dk_data := (dk_data s)(dk_next s := d), dk_next := Suc (dk_next s)\<rparr>)"

definition creatable :: "disk \<Rightarrow> path \<Rightarrow> bool" where
  "creatable s p \<longleftrightarrow> p \<noteq> [] \<and> is_directory s (butlast p) \<and> node_at s p = None"

definition others :: "os_event \<Rightarrow> disk \<Rightarrow> disk" where
  "others e s = (case e of
     Appears p d \<Rightarrow> if creatable s p then new_file p d s else s
   | Vanishes p \<Rightarrow> if removable p \<and> is_regular s p then drop_node p s else s
   | _ \<Rightarrow> s)"

definition sys_call :: "(nat option \<Rightarrow> 'a io) \<Rightarrow> 'a io" where
  "sys_call f s = (case dk_events s of
     [] \<Rightarrow> f None s
   | e # es \<Rightarrow> (let t = others e (s\<lparr>dk_events := es\<rparr>) in
       case e of Fails n \<Rightarrow> (Inl (Os n), t) | Short n \<Rightarrow> f (Some n) t | _ \<Rightarrow> f None t))"

definition sys_open_dir :: "path \<Rightarrow> unit io" where
  "sys_open_dir p = sys_call (\<lambda>_ s. (case node_at s p of
     None \<Rightarrow> Inl (Os ENOENT) | Some Directory \<Rightarrow> Inr () | Some _ \<Rightarrow> Inl (Os ENOTDIR), s))"

definition sys_mkdir :: "path \<Rightarrow> unit io" where
  "sys_mkdir p = sys_call (\<lambda>_ s.
     if node_at s p \<noteq> None then (Inl (Os EEXIST), s)
     else if creatable s p then (Inr (), add_node p Directory s) else (Inl (Os ENOENT), s))"

text \<open>A directory can be opened for reading; \<^verbatim>\<open>os.read\<close> then fails. An open regular file is its remaining bytes.\<close>

definition sys_open_read :: "path \<Rightarrow> bytes option io" where
  "sys_open_read p = sys_call (\<lambda>_ s. (case node_at s p of
     None \<Rightarrow> Inl (Os ENOENT) | Some Directory \<Rightarrow> Inr None | Some (Regular i) \<Rightarrow> Inr (Some (dk_data s i))
   | Some Link \<Rightarrow> Inl (Os ELOOP), s))"

definition block_size :: "nat option \<Rightarrow> nat" where
  "block_size short = (case short of None \<Rightarrow> 2 ^ 20 | Some n \<Rightarrow> max 1 (min n (2 ^ 20)))"

definition sys_read :: "bytes option \<Rightarrow> bytes io" where
  "sys_read fl = sys_call (\<lambda>short s. (case fl of
     None \<Rightarrow> Inl (Os EISDIR)
   | Some rest \<Rightarrow> Inr (take (block_size short) rest), s))"

definition sys_create :: "path \<Rightarrow> nat io" where
  "sys_create p = sys_call (\<lambda>_ s.
     if node_at s p \<noteq> None then (Inl (Os EEXIST), s)
     else if creatable s p then (Inr (dk_next s), new_file p [] s) else (Inl (Os ENOENT), s))"

definition sys_write :: "nat \<Rightarrow> bytes \<Rightarrow> nat io" where
  "sys_write i view = sys_call (\<lambda>short s.
     let n = (case short of None \<Rightarrow> length view | Some k \<Rightarrow> min k (length view)) in
     (Inr n, s\<lparr>dk_data := (dk_data s)(i := dk_data s i @ take n view)\<rparr>))"

definition sys_fsync :: "unit io" where
  "sys_fsync = sys_call (\<lambda>_ s. (Inr (), s))"

definition sys_link :: "path \<Rightarrow> path \<Rightarrow> unit io" where
  "sys_link src dst = sys_call (\<lambda>_ s. case node_at s src of
     None \<Rightarrow> (Inl (Os ENOENT), s)
   | Some n \<Rightarrow> if node_at s dst \<noteq> None then (Inl (Os EEXIST), s)
       else if creatable s dst \<and> n \<noteq> Directory then (Inr (), add_node dst n s) else (Inl (Os ENOENT), s))"

definition sys_lstat :: "path \<Rightarrow> node io" where
  "sys_lstat p = sys_call (\<lambda>_ s. (case node_at s p of None \<Rightarrow> Inl (Os ENOENT) | Some n \<Rightarrow> Inr n, s))"

definition sys_unlink :: "path \<Rightarrow> unit io" where
  "sys_unlink p = sys_call (\<lambda>_ s. case node_at s p of
     None \<Rightarrow> (Inl (Os ENOENT), s) | Some Directory \<Rightarrow> (Inl (Os EISDIR), s) | Some _ \<Rightarrow> (Inr (), drop_node p s))"

definition sys_listdir :: "path \<Rightarrow> string list io" where
  "sys_listdir p = sys_call (\<lambda>_ s. (Inr (map last (filter (\<lambda>q. q \<noteq> [] \<and> butlast q = p) (map fst (dk_nodes s)))), s))"

text \<open>\<^verbatim>\<open>except OSError\<close> and \<^verbatim>\<open>finally\<close>.\<close>

definition on_os :: "(errno \<Rightarrow> 'a io) \<Rightarrow> 'a io \<Rightarrow> 'a io" where
  "on_os handler m s = (case m s of (Inl (Os e), t) \<Rightarrow> handler e t | r \<Rightarrow> r)"

definition finallyS :: "'a io \<Rightarrow> unit io \<Rightarrow> 'a io" where
  "finallyS m f s = (case m s of (r, t) \<Rightarrow> (case f t of (Inl e, u) \<Rightarrow> (Inl e, u) | (Inr _, u) \<Rightarrow> (r, u)))"

subsection \<open>Walking, reading and placing\<close>

definition mapped :: "errno \<Rightarrow> store_error" where
  "mapped e = (if e = ENOENT then Storage ''storage missing'' else Storage ''storage symlink'')"

definition or_mapped :: "'a io \<Rightarrow> 'a io" where
  "or_mapped = on_os (\<lambda>e. raiseS (mapped e))"

definition open_root :: "path io" where
  "open_root = on_os (\<lambda>e. raiseS (Storage ''storage root'')) (bindS (sys_open_dir []) (\<lambda>_. returnS []))"

fun walk_dir :: "path \<Rightarrow> string list \<Rightarrow> path io" where
  "walk_dir current [] = returnS current"
| "walk_dir current (name # parts) =
    (if name \<in> set DOTS then raiseS (Storage ''storage path'')
     else bindS (or_mapped (sys_open_dir (current @ [name]))) (\<lambda>_. walk_dir (current @ [name]) parts))"

definition open_dir :: "string list \<Rightarrow> path io" where
  "open_dir parts = bindS open_root (\<lambda>current. walk_dir current parts)"

fun make_dirs :: "path \<Rightarrow> string list \<Rightarrow> unit io" where
  "make_dirs current [] = returnS ()"
| "make_dirs current (name # parts) =
    (if name \<in> set DOTS then raiseS (Storage ''storage path'')
     else bindS (on_os (\<lambda>e. if e = EEXIST then returnS () else raiseS (Os e)) (sys_mkdir (current @ [name]))) (\<lambda>_.
       bindS (or_mapped (sys_open_dir (current @ [name]))) (\<lambda>_. make_dirs (current @ [name]) parts)))"

definition ensure_dirs :: "string list \<Rightarrow> unit io" where
  "ensure_dirs parts = bindS open_root (\<lambda>current. make_dirs current parts)"

text \<open>A system call fails, or runs in the state that the other processes left.\<close>

definition interfered :: "disk \<Rightarrow> disk \<Rightarrow> bool" where
  "interfered s u \<longleftrightarrow> (\<exists>e es. u = others e (s\<lparr>dk_events := es\<rparr>))"

lemma interfered_refl: "interfered s s"
  unfolding interfered_def by (rule exI [of _ Fine], rule exI [of _ "dk_events s"]) (simp add: others_def)

lemma sys_call_cases:
  assumes "sys_call f s = (r, t)"
  obtains e where "r = Inl (Os e)" "interfered s t" | k u where "interfered s u" "f k u = (r, t)"
proof (cases "dk_events s")
  case Nil
  then show thesis using assms interfered_refl [of s] that(2) [of s None] by (simp add: sys_call_def)
next
  case (Cons e es)
  have i: "interfered s (others e (s\<lparr>dk_events := es\<rparr>))" by (auto simp: interfered_def)
  from Cons assms show thesis
    by (cases e) (use that(1) that(2) [OF i] i in \<open>auto simp: sys_call_def Let_def\<close>)
qed

lemma sys_read_Inr: "sys_read fl s = (Inr block, t) \<Longrightarrow> \<exists>rest k. fl = Some rest \<and> 1 \<le> k \<and> block = take k rest"
proof -
  assume "sys_read fl s = (Inr block, t)"
  then obtain k rest where "fl = Some rest" "block = take (block_size k) rest"
    unfolding sys_read_def by (auto elim!: sys_call_cases split: option.splits)
  moreover have "1 \<le> block_size k" by (simp add: block_size_def split: option.split)
  ultimately show ?thesis by blast
qed

function read_all :: "bytes option \<Rightarrow> bytes \<Rightarrow> bytes io" where
  "read_all fl chunks s = (case sys_read fl s of
     (Inl e, t) \<Rightarrow> (Inl e, t)
   | (Inr block, t) \<Rightarrow> if block = [] then (Inr chunks, t)
       else read_all (map_option (drop (length block)) fl) (chunks @ block) t)"
  by pat_completeness auto

termination
proof (relation "measure (\<lambda>(fl, chunks, s). case fl of None \<Rightarrow> 0 | Some rest \<Rightarrow> length rest)")
  fix fl chunks s r t and block :: bytes
  assume "(r, t) = sys_read fl s" and "r = Inr block" and "block \<noteq> []"
  then obtain rest k where "fl = Some rest" "1 \<le> k" "block = take k rest" by (metis sys_read_Inr)
  then show "((map_option (drop (length block)) fl, chunks @ block, t), fl, chunks, s)
      \<in> measure (\<lambda>(fl, chunks, s). case fl of None \<Rightarrow> 0 | Some rest \<Rightarrow> length rest)"
    using \<open>block \<noteq> []\<close> by (auto simp: diff_less)
qed simp

declare read_all.simps [simp del]

definition read_optional :: "path \<Rightarrow> bytes option io" where
  "read_optional p s = (case sys_open_read p s of
     (Inl (Os e), t) \<Rightarrow> if e = ENOENT then (Inr None, t) else (Inl (mapped e), t)
   | (Inl e, t) \<Rightarrow> (Inl e, t)
   | (Inr fl, t) \<Rightarrow> bindS (read_all fl []) (\<lambda>d. returnS (Some d)) t)"

lemma sys_write_Inr: "sys_write i view s = (Inr n, t) \<Longrightarrow> n \<le> length view"
  unfolding sys_write_def by (erule sys_call_cases) (auto simp: Let_def split: option.splits)

function write_all :: "nat \<Rightarrow> bytes \<Rightarrow> unit io" where
  "write_all i view s = (if view = [] then (Inr (), s) else (case sys_write i view s of
     (Inl e, t) \<Rightarrow> (Inl e, t)
   | (Inr written, t) \<Rightarrow> if written = 0 then (Inl (Os EIO), t) else write_all i (drop written view) t))"
  by pat_completeness auto

termination
  by (relation "measure (\<lambda>(i, view, s). length view)") auto

declare write_all.simps [simp del]

definition stored :: "string \<Rightarrow> string \<Rightarrow> bytes \<Rightarrow> storage_role \<Rightarrow> stored_object" where
  "stored uri sha256 data role = \<lparr>so_storage_uri = uri, so_sha256 = sha256, so_byte_count = length data, so_role = role\<rparr>"

definition unlink_temp :: "path \<Rightarrow> unit io" where
  "unlink_temp p = on_os (\<lambda>e. if e = ENOENT then returnS () else raiseS (Os e)) (sys_unlink p)"

text \<open>\<^verbatim>\<open>uuid4().hex\<close> after a dot: the name of the temporary file.\<close>

definition temp_name :: "uuid \<Rightarrow> string" where
  "temp_name u = ''.'' @ hex_string 32 (unat u)"

definition link_or_existing :: "path \<Rightarrow> path \<Rightarrow> bytes \<Rightarrow> stored_object \<Rightarrow> stored_object option io" where
  "link_or_existing temp final data obj =
     on_os (\<lambda>e. if e = EEXIST then bindS (read_optional final) (\<lambda>current. case current of
         None \<Rightarrow> raiseS (Storage ''storage missing'')
       | Some c \<Rightarrow> if c = data then returnS (Some obj) else bindS (liftS (refuse_collision c data)) (\<lambda>_. returnS None))
       else raiseS (Os e))
     (bindS (sys_link temp final) (\<lambda>_. returnS None))"

definition fill_and_link :: "path \<Rightarrow> path \<Rightarrow> nat \<Rightarrow> bytes \<Rightarrow> stored_object \<Rightarrow> stored_object io" where
  "fill_and_link temp final i data obj =
     bindS (write_all i data) (\<lambda>_.
     bindS sys_fsync (\<lambda>_.
     bindS (link_or_existing temp final data obj) (\<lambda>found. case found of
       Some o' \<Rightarrow> returnS o'
     | None \<Rightarrow> bindS sys_fsync (\<lambda>_. returnS obj))))"

definition place_new :: "path \<Rightarrow> string \<Rightarrow> bytes \<Rightarrow> stored_object \<Rightarrow> uuid \<Rightarrow> stored_object io" where
  "place_new parent digest data obj u = (let temp = parent @ [temp_name u] in
     bindS (or_mapped (sys_create temp)) (\<lambda>i.
       finallyS (fill_and_link temp (parent @ [digest]) i data obj) (unlink_temp temp)))"

definition place_in :: "path \<Rightarrow> string \<Rightarrow> bytes \<Rightarrow> string \<Rightarrow> storage_role \<Rightarrow> uuid \<Rightarrow> stored_object io" where
  "place_in parent digest data uri role u = (let obj = stored uri digest data role in
     bindS (read_optional (parent @ [digest])) (\<lambda>existing. case existing of
       Some b \<Rightarrow> if b = data then returnS obj
         else bindS (liftS (refuse_collision b data)) (\<lambda>_. place_new parent digest data obj u)
     | None \<Rightarrow> place_new parent digest data obj u))"

definition unlink_object :: "path \<Rightarrow> string \<Rightarrow> unit io" where
  "unlink_object parent name =
    (if \<not> fullmatch HEX_RE name then raiseS (Storage ''storage path'')
     else bindS (or_mapped (sys_lstat (parent @ [name]))) (\<lambda>info. case info of
       Regular i \<Rightarrow> sys_unlink (parent @ [name])
     | _ \<Rightarrow> raiseS (Storage ''storage symlink'')))"

subsection \<open>The store\<close>

definition role_text :: "storage_role \<Rightarrow> string" where
  "role_text r = (case r of published \<Rightarrow> ''published'' | temporary \<Rightarrow> ''temporary'')"

definition require_root :: "bool \<Rightarrow> unit io" where
  "require_root absolute = (if \<not> absolute then raiseS (Storage ''storage root'') else bindS open_root (\<lambda>_. returnS ()))"

definition local_init :: "string \<Rightarrow> bool \<Rightarrow> unit io" where
  "local_init mode absolute = bindS (liftS (refuse_mode mode)) (\<lambda>_. require_root absolute)"

definition local_put :: "(bytes \<Rightarrow> string) \<Rightarrow> uuid \<Rightarrow> storage_role \<Rightarrow> string \<Rightarrow> uuid \<Rightarrow> spec_arg \<Rightarrow> string \<Rightarrow> bytes \<Rightarrow> stored_object io" where
  "local_put hash u role scheme product_id spec_version sha256 data =
     bindS (liftS (require_digest hash data sha256)) (\<lambda>_.
     bindS (liftS (object_uri scheme product_id spec_version sha256)) (\<lambda>uri.
     bindS (liftS (uri_key uri)) (\<lambda>(key_role, product, spec, digest).
     if key_role \<noteq> role then raiseS (Storage ''storage role'')
     else bindS (ensure_dirs [role_text role, product, spec]) (\<lambda>_.
       bindS (open_dir [role_text role, product, spec]) (\<lambda>parent.
       place_in parent digest data uri role u)))))"

definition local_publish :: "(bytes \<Rightarrow> string) \<Rightarrow> uuid \<Rightarrow> uuid \<Rightarrow> spec_arg \<Rightarrow> string \<Rightarrow> bytes \<Rightarrow> stored_object io" where
  "local_publish hash u = local_put hash u published ''fixture''"

definition local_put_temporary :: "(bytes \<Rightarrow> string) \<Rightarrow> uuid \<Rightarrow> uuid \<Rightarrow> spec_arg \<Rightarrow> string \<Rightarrow> bytes \<Rightarrow> stored_object io" where
  "local_put_temporary hash u = local_put hash u temporary ''temp''"

definition local_read :: "(bytes \<Rightarrow> string) \<Rightarrow> string \<Rightarrow> bytes io" where
  "local_read hash uri =
     bindS (liftS (uri_key uri)) (\<lambda>(role, product, spec, digest).
     bindS (open_dir [role_text role, product, spec]) (\<lambda>parent.
     bindS (read_optional (parent @ [digest])) (\<lambda>data. case data of
       None \<Rightarrow> raiseS (Storage ''storage missing'')
     | Some d \<Rightarrow> if hash d \<noteq> digest then raiseS (Storage ''storage bytes'') else returnS d)))"

definition local_internal_retrieval :: "(bytes \<Rightarrow> string) \<Rightarrow> string \<Rightarrow> string io" where
  "local_internal_retrieval hash uri = bindS (local_read hash uri) (\<lambda>_. returnS (''internal:'' @ uri))"

definition local_signed_retrieval :: "string \<Rightarrow> string io" where
  "local_signed_retrieval uri = raiseS (Storage ''storage signed'')"

definition local_discard :: "string \<Rightarrow> unit io" where
  "local_discard uri =
     bindS (liftS (refuse_published uri)) (\<lambda>_.
     bindS (liftS (uri_key uri)) (\<lambda>(role, product, spec, digest).
     bindS (open_dir [role_text role, product, spec]) (\<lambda>parent. unlink_object parent digest)))"

fun remove_superseded :: "path \<Rightarrow> string \<Rightarrow> string list \<Rightarrow> string list \<Rightarrow> string list io" where
  "remove_superseded parent keep [] removed = returnS removed"
| "remove_superseded parent keep (name # names) removed =
    (if name = keep \<or> \<not> fullmatch HEX_RE name then remove_superseded parent keep names removed
     else bindS (unlink_object parent name) (\<lambda>_. remove_superseded parent keep names (removed @ [name])))"

definition local_cleanup_temporary :: "uuid \<Rightarrow> spec_arg \<Rightarrow> string \<Rightarrow> string list io" where
  "local_cleanup_temporary product_id spec_version keep_sha256 =
    (if \<not> fullmatch HEX_RE keep_sha256 then raiseS (Storage ''storage hash'')
     else (\<lambda>s. case open_dir [''temporary'', str_uuid product_id, str_spec spec_version] s of
       (Inl e, t) \<Rightarrow> if e = Storage ''storage missing'' then (Inr [], t) else (Inl e, t)
     | (Inr parent, t) \<Rightarrow> bindS (sys_listdir parent) (\<lambda>names.
         remove_superseded parent keep_sha256 (sort names) []) t))"


subsection \<open>What every operation keeps\<close>

lemma node_at_simps [simp]:
  "node_at (add_node p n s) q = (if q = p then Some n else node_at s q)"
  "node_at (new_file p d s) q = (if q = p then Some (Regular (dk_next s)) else node_at s q)"
  "node_at (s\<lparr>dk_events := es\<rparr>) q = node_at s q" "node_at (s\<lparr>dk_data := f\<rparr>) q = node_at s q"
  by (simp_all add: node_at_def add_node_def new_file_def)

lemma node_at_drop [simp]: "node_at (drop_node p s) q = (if q = p then None else node_at s q)"
proof -
  have "map_of (filter (\<lambda>(q, n). q \<noteq> p) xs) q = (if q = p then None else map_of xs q)" for xs :: "(path \<times> node) list"
    by (induction xs) auto
  then show ?thesis by (simp add: node_at_def drop_node_def)
qed

lemma dk_simps [simp]:
  "dk_next (add_node p n s) = dk_next s" "dk_data (add_node p n s) = dk_data s"
  "dk_next (drop_node p s) = dk_next s" "dk_data (drop_node p s) = dk_data s"
  "dk_next (new_file p d s) = Suc (dk_next s)" "dk_data (new_file p d s) = (dk_data s)(dk_next s := d)"
  by (simp_all add: add_node_def drop_node_def new_file_def)

definition wf_disk :: "disk \<Rightarrow> bool" where
  "wf_disk s \<longleftrightarrow> distinct (map fst (dk_nodes s)) \<and>
     (\<forall>p i. node_at s p = Some (Regular i) \<longrightarrow> i < dk_next s) \<and>
     (\<forall>p. p \<noteq> [] \<and> node_at s p \<noteq> None \<longrightarrow> is_directory s (butlast p))"

definition safe :: "disk \<Rightarrow> disk \<Rightarrow> bool" where
  "safe s t \<longleftrightarrow> (wf_disk s \<longrightarrow> wf_disk t \<and> dk_next s \<le> dk_next t \<and>
     (\<forall>p. is_directory s p \<longrightarrow> is_directory t p) \<and>
     (\<forall>p i. published_path p \<and> node_at s p = Some (Regular i) \<longrightarrow>
        node_at t p = Some (Regular i) \<and> dk_data t i = dk_data s i))"

text \<open>While a temporary file is filled, its inode has no published name.\<close>

definition sole_name :: "path \<Rightarrow> nat \<Rightarrow> disk \<Rightarrow> bool" where
  "sole_name temp i s \<longleftrightarrow> node_at s temp = Some (Regular i) \<and>
     (\<forall>p. p \<noteq> temp \<longrightarrow> node_at s p \<noteq> Some (Regular i))"

interpretation safe: kept safe
proof unfold_locales
  fix s t u
  show "safe s s" by (simp add: safe_def)
  assume st: "safe s t" and tu: "safe t u"
  show "safe s u" unfolding safe_def
    by (intro impI) (use st tu in \<open>fastforce simp: safe_def\<close>)
qed

lemma wf_disk_simps [simp]:
  "wf_disk (s\<lparr>dk_events := es\<rparr>) = wf_disk s" "wf_disk (s\<lparr>dk_data := f\<rparr>) = wf_disk s"
  by (simp_all add: wf_disk_def is_directory_def)

lemma distinct_nodes: "node_at s p = None \<longleftrightarrow> p \<notin> fst ` set (dk_nodes s)"
  by (simp add: node_at_def map_of_eq_None_iff)

lemma wf_disk_add:
  assumes "wf_disk s" and "creatable s p" and "\<forall>i. n = Regular i \<longrightarrow> i < dk_next s"
  shows "wf_disk (add_node p n s)"
proof -
  have "distinct (map fst (dk_nodes (add_node p n s)))"
    using assms by (simp add: wf_disk_def creatable_def distinct_nodes add_node_def)
  moreover have "butlast p \<noteq> p" using assms(2) by (auto simp: creatable_def is_directory_def)
  ultimately show ?thesis using assms by (auto simp: wf_disk_def creatable_def is_directory_def)
qed

lemma wf_disk_new_file:
  assumes "wf_disk s" and "creatable s p"
  shows "wf_disk (new_file p d s)"
proof -
  let ?s = "s\<lparr>dk_data := (dk_data s)(dk_next s := d), dk_next := Suc (dk_next s)\<rparr>"
  have "node_at ?s = node_at s" by (simp add: node_at_def fun_eq_iff)
  then have "wf_disk ?s" using assms(1) by (simp add: wf_disk_def is_directory_def) (meson less_Suc_eq)
  moreover have "creatable ?s p" using assms(2) by (simp add: creatable_def is_directory_def node_at_def)
  ultimately show ?thesis unfolding new_file_def by (rule wf_disk_add) simp
qed

lemma wf_disk_drop:
  assumes "wf_disk s" and "\<not> is_directory s p"
  shows "wf_disk (drop_node p s)"
proof -
  have "distinct (map fst (dk_nodes (drop_node p s)))"
    using assms(1) by (simp add: wf_disk_def drop_node_def distinct_map_filter)
  then show ?thesis using assms by (auto simp: wf_disk_def is_directory_def)
qed

lemma safe_add: "creatable s p \<Longrightarrow> \<forall>i. n = Regular i \<longrightarrow> wf_disk s \<longrightarrow> i < dk_next s \<Longrightarrow> safe s (add_node p n s)"
  by (auto simp: safe_def wf_disk_add is_directory_def creatable_def)

lemma safe_new_file: "creatable s p \<Longrightarrow> safe s (new_file p d s)"
proof -
  assume c: "creatable s p"
  have "i < dk_next s" if "wf_disk s" "node_at s q = Some (Regular i)" for q i using that unfolding wf_disk_def by blast
  then show ?thesis using c by (fastforce simp: safe_def wf_disk_new_file is_directory_def creatable_def)
qed

lemma safe_drop: "\<not> is_directory s p \<Longrightarrow> \<not> published_path p \<Longrightarrow> safe s (drop_node p s)"
  by (auto simp: safe_def wf_disk_drop is_directory_def)

lemma safe_events: "safe s (s\<lparr>dk_events := es\<rparr>)"
  by (simp add: safe_def is_directory_def)


lemma not_removable: "removable p \<Longrightarrow> \<not> published_path p" "\<not> removable (q @ [temp_name u])" "\<not> published_path (q @ [temp_name u])"
proof -
  show "removable p \<Longrightarrow> \<not> published_path p" by (simp add: removable_def published_path_def)
  have "\<not> sha256_hex (temp_name u)"
  proof
    assume "sha256_hex (temp_name u)"
    then have "CHR ''.'' \<in> set ''0123456789abcdef''" unfolding sha256_hex_def temp_name_def by simp
    then show False by simp
  qed
  then show "\<not> removable (q @ [temp_name u])" "\<not> published_path (q @ [temp_name u])"
    by (simp_all add: removable_def published_path_def)
qed

lemma others_cases:
  obtains "others e s = s"
  | p d where "creatable s p" "others e s = new_file p d s"
  | p where "removable p" "is_regular s p" "others e s = drop_node p s"
proof -
  have "others e s = s \<or> (\<exists>p d. creatable s p \<and> others e s = new_file p d s) \<or>
      (\<exists>p. removable p \<and> is_regular s p \<and> others e s = drop_node p s)"
    by (cases e) (auto simp: others_def)
  then show thesis using that by blast
qed

lemma regular_node: "is_regular s p \<Longrightarrow> \<exists>i. node_at s p = Some (Regular i)"
  by (auto simp: is_regular_def split: option.splits node.splits)

lemma safe_others: "safe s (others e s)"
proof (cases rule: others_cases [of e s])
  case 1
  then show ?thesis by (simp add: safe.kept_refl)
next
  case (2 p d)
  then show ?thesis by (simp add: safe_new_file)
next
  case (3 p)
  then show ?thesis using regular_node not_removable(1) by (fastforce intro: safe_drop simp: is_directory_def)
qed

lemma safe_interfered: "interfered s u \<Longrightarrow> safe s u"
  unfolding interfered_def using safe_others safe_events safe.kept_trans by blast

lemma sole_name_others:
  assumes "wf_disk s" and "sole_name (q @ [temp_name v]) i s"
  shows "sole_name (q @ [temp_name v]) i (others e s) \<and> dk_data (others e s) i = dk_data s i"
proof -
  have "i < dk_next s" using assms unfolding wf_disk_def sole_name_def by blast
  then show ?thesis
  proof (cases rule: others_cases [of e s])
    case (2 p d)
    then have "p \<noteq> q @ [temp_name v]" using assms(2) by (auto simp: sole_name_def creatable_def)
    then show ?thesis using 2 assms(2) \<open>i < dk_next s\<close> by (simp add: sole_name_def)
  next
    case (3 p)
    then have "p \<noteq> q @ [temp_name v]" using not_removable(2) [of q v] by blast
    then show ?thesis using 3 assms by (simp add: sole_name_def)
  qed (use assms in simp)
qed

lemma sole_name_interfered:
  assumes "wf_disk s" and "sole_name (q @ [temp_name v]) i s" and "interfered s u"
  shows "sole_name (q @ [temp_name v]) i u \<and> dk_data u i = dk_data s i"
proof -
  obtain e es where u: "u = others e (s\<lparr>dk_events := es\<rparr>)" using assms(3) by (auto simp: interfered_def)
  show ?thesis unfolding u using sole_name_others [of "s\<lparr>dk_events := es\<rparr>" q v i e] assms by (simp add: sole_name_def)
qed

lemma sys_call_safe:
  assumes "\<And>k u. safe u (snd (f k u))"
  shows "keeps safe (sys_call f)"
proof (rule keepsI)
  fix s r t
  assume "sys_call f s = (r, t)"
  then show "safe s t"
  proof (cases rule: sys_call_cases)
    case (1 e)
    then show ?thesis by (simp add: safe_interfered)
  next
    case (2 k u)
    then show ?thesis using safe_interfered assms [of u k] safe.kept_trans by (metis snd_conv)
  qed
qed

lemma sys_safe:
  "keeps safe (sys_open_dir p)" "keeps safe (sys_mkdir p)" "keeps safe (sys_open_read p)" "keeps safe (sys_read fl)"
  "keeps safe (sys_create p)" "keeps safe sys_fsync" "keeps safe (sys_link src dst)" "keeps safe (sys_lstat p)"
  "keeps safe (sys_listdir p)" "\<not> published_path p \<Longrightarrow> keeps safe (sys_unlink p)"
proof -
  have reg: "i < dk_next u" if "wf_disk u" "node_at u q = Some (Regular i)" for u q i using that unfolding wf_disk_def by blast
  show "keeps safe (sys_link src dst)" unfolding sys_link_def
    by (intro sys_call_safe) (auto simp: safe.kept_refl intro!: safe_add dest: reg split: option.split)
  show "\<not> published_path p \<Longrightarrow> keeps safe (sys_unlink p)" unfolding sys_unlink_def
    by (intro sys_call_safe) (auto simp: safe.kept_refl is_directory_def intro!: safe_drop split: option.split node.split)
qed (unfold sys_open_dir_def sys_mkdir_def sys_open_read_def sys_read_def sys_create_def sys_fsync_def sys_lstat_def sys_listdir_def,
    (rule sys_call_safe, auto simp: safe.kept_refl intro!: safe_add safe_new_file)+)

lemma safe_on_os: "keeps safe m \<Longrightarrow> (\<And>e. keeps safe (h e)) \<Longrightarrow> keeps safe (on_os h m)"
proof (rule keepsI)
  fix s r t
  assume m: "keeps safe m" and h: "\<And>e. keeps safe (h e)" and run: "on_os h m s = (r, t)"
  obtain a u where a: "m s = (a, u)" by (cases "m s")
  then have "safe s u" using m keepsD by metis
  moreover have "t = u \<or> (\<exists>e. h e u = (r, t))" using run a by (auto simp: on_os_def split: sum.splits store_error.splits)
  ultimately show "safe s t" using h keepsD safe.kept_trans by metis
qed

lemma safe_finally: "keeps safe m \<Longrightarrow> keeps safe f \<Longrightarrow> keeps safe (finallyS m f)"
proof (rule keepsI)
  fix s r t
  assume m: "keeps safe m" and f: "keeps safe f" and run: "finallyS m f s = (r, t)"
  obtain a u where a: "m s = (a, u)" by (cases "m s")
  then have "\<exists>b. f u = (b, t)" using run by (auto simp: finallyS_def split: sum.splits prod.splits)
  then show "safe s t" using a m f keepsD safe.kept_trans by metis
qed

lemmas safe_rules = safe.keeps_rules safe_on_os sys_safe

lemma safe_walk: "keeps safe (walk_dir current parts)"
  by (induction current parts rule: walk_dir.induct) (auto simp: or_mapped_def intro!: safe_rules)

lemma safe_open_dir: "keeps safe (open_dir parts)"
  unfolding open_dir_def open_root_def by (intro safe_rules safe_walk)

lemma safe_make_dirs: "keeps safe (make_dirs current parts)"
  by (induction current parts rule: make_dirs.induct) (auto simp: or_mapped_def intro!: safe_rules)

lemma safe_ensure_dirs: "keeps safe (ensure_dirs parts)"
  unfolding ensure_dirs_def open_root_def by (intro safe_rules safe_make_dirs)


subsection \<open>Placing an object\<close>

definition holds :: "disk \<Rightarrow> path \<Rightarrow> bytes \<Rightarrow> bool" where
  "holds s p d \<longleftrightarrow> (\<exists>i. node_at s p = Some (Regular i) \<and> dk_data s i = d)"

lemma holds_safe: "safe s t \<Longrightarrow> wf_disk s \<Longrightarrow> published_path p \<Longrightarrow> holds s p d \<Longrightarrow> holds t p d"
  by (fastforce simp: safe_def holds_def)

lemma safe_wf: "safe s t \<Longrightarrow> wf_disk s \<Longrightarrow> wf_disk t"
  by (simp add: safe_def)

lemma read_all_Inr: "read_all fl chunks s = (r, t) \<Longrightarrow> safe s t \<and> (\<forall>d rest. r = Inr d \<and> fl = Some rest \<longrightarrow> d = chunks @ rest) \<and> (fl = None \<longrightarrow> (\<forall>d. r \<noteq> Inr d))"
proof (induction fl chunks s rule: read_all.induct)
  case (1 fl chunks s)
  obtain a u where a: "sys_read fl s = (a, u)" by (cases "sys_read fl s")
  then have su: "safe s u" using sys_safe(4) keepsD by metis
  show ?case
  proof (cases a)
    case (Inl e)
    then show ?thesis using 1(2) a su by (subst (asm) read_all.simps) auto
  next
    case (Inr block)
    then obtain rest k where fl: "fl = Some rest" "1 \<le> k" "block = take k rest" using sys_read_Inr a by metis
    show ?thesis
    proof (cases "block = []")
      case True
      then show ?thesis using 1(2) a Inr su fl by (subst (asm) read_all.simps) auto
    next
      case False
      have "rest = block @ drop (length block) rest" using fl(3) by (metis append_take_drop_id length_take min.cobounded2 append_eq_conv_conj)
      moreover have "read_all (Some (drop (length block) rest)) (chunks @ block) u = (r, t)"
        using 1(2) a Inr False fl by (subst (asm) read_all.simps) simp
      ultimately show ?thesis using 1(1) [OF a [symmetric] Inr False] su fl(1) safe.kept_trans by fastforce
    qed
  qed
qed

lemma read_optional_cases:
  assumes "read_optional p s = (r, t)"
  shows "safe s t" and "\<And>d. wf_disk s \<Longrightarrow> published_path p \<Longrightarrow> r = Inr (Some d) \<Longrightarrow> holds t p d"
proof -
  obtain a u where a: "sys_open_read p s = (a, u)" by (cases "sys_open_read p s")
  then have su: "safe s u" using sys_safe(3) keepsD by metis
  have opened: "rest = dk_data u i"
    if "a = Inr (Some rest)" "node_at u p = Some (Regular i)" for rest i
    using that a unfolding sys_open_read_def by (auto elim!: sys_call_cases split: option.splits node.splits)
  have is_file: "\<exists>i. node_at u p = Some (Regular i)" if "a = Inr (Some rest)" for rest
    using that a unfolding sys_open_read_def by (auto elim!: sys_call_cases split: option.splits node.splits)
  have "safe s t \<and> (\<forall>d. wf_disk s \<and> published_path p \<and> r = Inr (Some d) \<longrightarrow> holds t p d)"
  proof (cases a)
    case (Inl e)
    then show ?thesis using assms a su by (auto simp: read_optional_def split: store_error.splits if_splits)
  next
    case (Inr fl)
    obtain b w where b: "read_all fl [] u = (b, w)" by (cases "read_all fl [] u")
    have run: "t = w" "\<And>d. r = Inr (Some d) \<Longrightarrow> b = Inr d"
      using assms a Inr b by (cases b; simp add: read_optional_def returnS_def)+
    have uw: "safe u w" using read_all_Inr [OF b] by blast
    have "holds t p d" if "wf_disk s" "published_path p" "r = Inr (Some d)" for d
    proof -
      have "b = Inr d" using run(2) that(3) by simp
      then obtain rest where rest: "fl = Some rest" "d = rest" using read_all_Inr [OF b] by (cases fl) auto
      then have "holds u p d" using opened is_file Inr by (auto simp: holds_def)
      then show ?thesis using holds_safe [OF uw safe_wf [OF su that(1)] that(2)] run(1) by simp
    qed
    then show ?thesis using run(1) su uw safe.kept_trans by blast
  qed
  then show "safe s t" and "\<And>d. wf_disk s \<Longrightarrow> published_path p \<Longrightarrow> r = Inr (Some d) \<Longrightarrow> holds t p d" by blast+
qed

lemma safe_read_optional: "keeps safe (read_optional p)"
  using read_optional_cases(1) by (blast intro: keepsI)

lemma write_all_cases:
  assumes "write_all i view s = (r, t)" and "wf_disk s" and "sole_name (q @ [temp_name v]) i s"
  shows "safe s t \<and> sole_name (q @ [temp_name v]) i t \<and> (r = Inr () \<longrightarrow> dk_data t i = dk_data s i @ view)"
  using assms
proof (induction i view s rule: write_all.induct)
  case (1 i view s)
  let ?temp = "q @ [temp_name v]"
  show ?case
  proof (cases "view = []")
    case True
    then show ?thesis using 1 by (simp add: write_all.simps safe.kept_refl)
  next
    case False
    obtain a w where a: "sys_write i view s = (a, w)" by (cases "sys_write i view s")
    have w: "safe s w \<and> sole_name ?temp i w \<and> (\<forall>n. a = Inr n \<longrightarrow> dk_data w i = dk_data s i @ take n view)"
      using a unfolding sys_write_def
    proof (cases rule: sys_call_cases)
      case (1 e)
      then show ?thesis using sole_name_interfered [OF "1.prems"(2,3)] safe_interfered by simp
    next
      case (2 k u)
      have u: "sole_name ?temp i u" "dk_data u i = dk_data s i" "safe s u"
        using sole_name_interfered [OF "1.prems"(2,3) 2(1)] safe_interfered [OF 2(1)] by blast+
      have "safe u (u\<lparr>dk_data := (dk_data u)(i := x)\<rparr>)" for x
      proof -
        have "j \<noteq> i" if "published_path p" "node_at u p = Some (Regular j)" for p j
          using that u(1) not_removable(3) [of q v] unfolding sole_name_def by metis
        then show ?thesis by (auto simp: safe_def is_directory_def)
      qed
      then show ?thesis using 2(2) u safe.kept_trans by (auto simp: Let_def sole_name_def)
    qed
    show ?thesis
    proof (cases a)
      case (Inl e)
      then show ?thesis using 1 False a w by (auto simp: write_all.simps)
    next
      case (Inr n)
      show ?thesis
      proof (cases "n = 0")
        case True
        then show ?thesis using 1 False a w Inr by (auto simp: write_all.simps)
      next
        case n: False
        have "write_all i (drop n view) w = (r, t)" using 1(2) False a Inr n by (simp add: write_all.simps)
        moreover have "wf_disk w" using w safe_wf "1.prems"(2) by blast
        ultimately have "safe w t \<and> sole_name ?temp i t \<and> (r = Inr () \<longrightarrow> dk_data t i = dk_data w i @ drop n view)"
          using 1(1) [OF False a [symmetric] Inr n] w by blast
        then show ?thesis using w Inr safe.kept_trans [of s w t] by simp
      qed
    qed
  qed
qed


lemma sys_create_Inr:
  assumes "sys_create p s = (Inr i, t)" and "wf_disk s"
  shows "wf_disk t \<and> sole_name p i t \<and> dk_data t i = []"
  using assms(1) unfolding sys_create_def
proof (cases rule: sys_call_cases)
  case (2 k u)
  then have t: "creatable u p" "i = dk_next u" "t = new_file p [] u" by (auto split: if_splits)
  have "wf_disk u" using safe_wf safe_interfered 2(1) assms(2) by blast
  then have "node_at u q \<noteq> Some (Regular i)" for q unfolding wf_disk_def t(2) by blast
  then show ?thesis using t \<open>wf_disk u\<close> by (simp add: wf_disk_new_file sole_name_def)
qed simp

lemma sys_link_Inr:
  assumes "sys_link (q @ [temp_name v]) final s = (Inr (), t)" and "wf_disk s" and "sole_name (q @ [temp_name v]) i s"
  shows "holds t final (dk_data s i)"
  using assms(1) unfolding sys_link_def
proof (cases rule: sys_call_cases)
  case (2 k u)
  then show ?thesis using sole_name_interfered [OF assms(2,3) 2(1)]
    by (auto simp: sole_name_def holds_def split: option.splits if_splits)
qed simp

lemma safe_link_or_existing: "keeps safe (link_or_existing temp final data obj)"
  unfolding link_or_existing_def by (intro safe_rules safe_read_optional)

lemma link_or_existing_Inr:
  assumes "link_or_existing (q @ [temp_name v]) final data obj s = (Inr found, t)" and "wf_disk s"
    and "sole_name (q @ [temp_name v]) i s" and "dk_data s i = data" and "published_path final"
  shows "found \<in> {None, Some obj} \<and> holds t final data"
proof -
  obtain a u where a: "sys_link (q @ [temp_name v]) final s = (a, u)" by (cases "sys_link (q @ [temp_name v]) final s")
  show ?thesis
  proof (cases a)
    case (Inr x)
    then show ?thesis using a assms(1) sys_link_Inr [of q v final s u i] assms(2-4)
      by (auto simp: link_or_existing_def on_os_def returnS_def)
  next
    case (Inl e)
    then obtain c w where c: "read_optional final u = (Inr (Some c), w)" "c = data" "found = Some obj" "t = w"
      using a assms(1) by (cases e; cases "read_optional final u")
        (auto simp: link_or_existing_def on_os_def raiseS_def returnS_def bindS_def liftS_def refuse_collision_def
          split: if_splits sum.splits option.splits)
    have "wf_disk u" using safe_wf keepsD [OF sys_safe(7) a] assms(2) by blast
    then show ?thesis using read_optional_cases(2) [OF c(1)] c assms(5) by simp
  qed
qed

lemma fill_and_link_cases:
  assumes "fill_and_link (q @ [temp_name v]) final i data obj s = (r, t)" and "wf_disk s"
    and "sole_name (q @ [temp_name v]) i s" and "dk_data s i = []"
  shows "safe s t \<and> (\<forall>x. published_path final \<and> r = Inr x \<longrightarrow> x = obj \<and> holds t final data)"
proof -
  let ?temp = "q @ [temp_name v]"
  obtain a u where a: "write_all i data s = (a, u)" by (cases "write_all i data s")
  note u = write_all_cases [OF a assms(2,3)]
  let ?k1 = "\<lambda>found. case found of Some x \<Rightarrow> returnS x | None \<Rightarrow> bindS sys_fsync (\<lambda>_. returnS obj)"
  let ?k2 = "\<lambda>_. bindS (link_or_existing ?temp final data obj) ?k1"
  have k: "keeps safe (?k1 found)" "keeps safe (bindS sys_fsync ?k2)" for found
    by (intro safe_rules safe_link_or_existing)+
  show ?thesis
  proof (cases a)
    case (Inl e)
    then show ?thesis using assms(1) a u by (auto simp: fill_and_link_def)
  next
    case (Inr x)
    then have run: "bindS sys_fsync ?k2 u = (r, t)" using assms(1) a by (simp add: fill_and_link_def)
    have "safe s t" using keepsD [OF k(2) run] u safe.kept_trans by blast
    moreover have "y = obj \<and> holds t final data" if pub: "published_path final" and y: "r = Inr y" for y
      using run unfolding y
    proof (cases rule: bindS_cases)
      case (2 z w)
      have iw: "interfered u w" using 2(1) by (auto simp: sys_fsync_def elim!: sys_call_cases)
      have "wf_disk u" using u safe_wf assms(2) by blast
      then have w: "wf_disk w" "sole_name ?temp i w" "dk_data w i = data"
        using sole_name_interfered [OF _ _ iw, of q v i] safe_interfered [OF iw] safe_wf u Inr assms(4) by auto
      from 2(2) show ?thesis
      proof (cases rule: bindS_cases)
        case (2 found w')
        have f: "found \<in> {None, Some obj}" "holds w' final data"
          using link_or_existing_Inr [OF 2(1) w pub] by blast+
        have "wf_disk w'" using keepsD [OF safe_link_or_existing 2(1)] safe_wf w(1) by blast
        then have "holds t final data" using holds_safe keepsD [OF k(1) 2(2)] f(2) pub by blast
        then show ?thesis using 2(2) f(1) by (auto simp: returnS_def elim!: bindS_cases)
      qed simp
    qed simp
    ultimately show ?thesis by blast
  qed
qed


lemma finallyS_Inr: "finallyS m f s = (r, t) \<Longrightarrow> m s = (a, u) \<Longrightarrow>
    \<exists>b. f u = (b, t) \<and> (r = a \<or> (\<exists>e. r = Inl e))"
  by (auto simp: finallyS_def split: sum.splits prod.splits)

lemma safe_unlink_temp: "keeps safe (unlink_temp (q @ [temp_name v]))"
  unfolding unlink_temp_def by (intro safe_rules not_removable)

lemma or_mapped_Inr: "or_mapped m s = (Inr x, t) \<longleftrightarrow> m s = (Inr x, t)"
  by (auto simp: or_mapped_def on_os_def raiseS_def split: prod.splits sum.splits store_error.splits)

lemma safe_or_mapped: "keeps safe m \<Longrightarrow> keeps safe (or_mapped m)"
  unfolding or_mapped_def by (intro safe_rules)

lemma place_new_cases:
  assumes "place_new parent digest data obj v s = (r, t)" and wf: "wf_disk s"
  shows "safe s t \<and> (\<forall>x. published_path (parent @ [digest]) \<and> r = Inr x \<longrightarrow> x = obj \<and> holds t (parent @ [digest]) data)"
  using assms(1) unfolding place_new_def Let_def
proof (cases rule: bindS_cases)
  case (1 e)
  then show ?thesis using keepsD [OF safe_or_mapped [OF sys_safe(5)]] by auto
next
  case (2 i u)
  let ?temp = "parent @ [temp_name v]"
  have su: "safe s u" using keepsD [OF safe_or_mapped [OF sys_safe(5)]] 2(1) by blast
  have u: "wf_disk u" "sole_name ?temp i u" "dk_data u i = []"
    using sys_create_Inr [of ?temp s i u] 2(1) wf by (auto simp: or_mapped_Inr)
  obtain a w where a: "fill_and_link ?temp (parent @ [digest]) i data obj u = (a, w)"
    by (cases "fill_and_link ?temp (parent @ [digest]) i data obj u")
  note fl = fill_and_link_cases [OF a u]
  obtain b where b: "unlink_temp ?temp w = (b, t)" "r = a \<or> (\<exists>e. r = Inl e)" using finallyS_Inr [OF 2(2) a] by blast
  have wt: "safe w t" using keepsD [OF safe_unlink_temp b(1)] .
  have "wf_disk w" using fl safe_wf u(1) by blast
  then have "x = obj \<and> holds t (parent @ [digest]) data" if "published_path (parent @ [digest])" "r = Inr x" for x
    using that b(2) fl holds_safe [OF wt] by auto
  then show ?thesis using fl su wt safe.kept_trans by blast
qed

lemma place_in_cases:
  assumes "place_in parent digest data uri role v s = (r, t)" and wf: "wf_disk s"
  shows "safe s t \<and> (\<forall>x. published_path (parent @ [digest]) \<and> r = Inr x \<longrightarrow>
    x = stored uri digest data role \<and> holds t (parent @ [digest]) data)"
  using assms(1) unfolding place_in_def Let_def
proof (cases rule: bindS_cases)
  case (1 e)
  then show ?thesis using read_optional_cases(1) by auto
next
  case (2 existing u)
  have su: "safe s u" using read_optional_cases(1) [OF 2(1)] .
  show ?thesis
  proof (cases "existing = Some data")
    case True
    then show ?thesis using 2 su read_optional_cases(2) [OF 2(1) wf] by (auto simp: returnS_def)
  next
    case False
    then have "(\<exists>e. r = Inl e) \<and> t = u \<or> place_new parent digest data (stored uri digest data role) v u = (r, t)"
      using 2(2) by (auto simp: refuse_collision_def split: option.splits if_splits)
    then show ?thesis using place_new_cases [of parent digest data _ v u r t] safe_wf [OF su wf] su safe.kept_trans by blast
  qed
qed

subsection \<open>The store keeps its promises\<close>

lemma safe_place_in: "keeps safe (place_in parent digest data uri role v)"
proof (rule keepsI)
  fix s r t
  assume "place_in parent digest data uri role v s = (r, t)"
  then have "wf_disk s \<Longrightarrow> safe s t" using place_in_cases by blast
  then show "safe s t" by (auto simp: safe_def)
qed

lemma safe_case_prod: "(\<And>a b c d. keeps safe (f a b c d)) \<Longrightarrow> keeps safe (case x of (a, b, c, d) \<Rightarrow> f a b c d)"
  by (cases x) simp

lemma safe_put: "keeps safe (local_put hash u role scheme p v h d)"
  unfolding local_put_def by (intro safe_rules safe_case_prod safe_ensure_dirs safe_open_dir safe_place_in)

lemma safe_read: "keeps safe (local_read hash uri)"
  unfolding local_read_def by (intro safe_rules safe_case_prod safe_open_dir safe_read_optional)

text \<open>An object is unlinked below a directory that is not the published one.\<close>

lemma walk_dir_Inr: "walk_dir current parts s = (Inr parent, t) \<Longrightarrow> parent = current @ parts"
proof (induction current parts arbitrary: s rule: walk_dir.induct)
  case (2 current name parts)
  then show ?case by (auto split: if_splits simp: raiseS_def elim!: bindS_cases)
qed (simp add: returnS_def)

lemma open_dir_Inr: "open_dir parts s = (Inr parent, t) \<Longrightarrow> parent = parts"
proof -
  assume "open_dir parts s = (Inr parent, t)"
  then obtain current u where "open_root s = (Inr current, u)" "walk_dir current parts u = (Inr parent, t)"
    unfolding open_dir_def by (auto elim: bindS_cases)
  moreover have "current = []" using calculation(1)
    by (auto simp: open_root_def on_os_def raiseS_def bindS_def returnS_def split: prod.splits sum.splits store_error.splits)
  ultimately show ?thesis using walk_dir_Inr by fastforce
qed

lemma safe_unlink_object: "parent \<noteq> [] \<Longrightarrow> hd parent \<noteq> ''published'' \<Longrightarrow> keeps safe (unlink_object parent name)"
proof -
  assume "parent \<noteq> []" "hd parent \<noteq> ''published''"
  then have "\<not> published_path (parent @ [name])" by (simp add: published_path_def)
  then have "keeps safe (case info of Regular i \<Rightarrow> sys_unlink (parent @ [name]) | _ \<Rightarrow> raiseS (Storage ''storage symlink''))" for info
    by (cases info) (auto intro: safe_rules)
  then show ?thesis unfolding unlink_object_def by (intro safe_rules safe_or_mapped)
qed

lemma safe_discard: "keeps safe (local_discard uri)"
proof (cases "refuse_published uri")
  case (Inl e)
  then show ?thesis by (simp add: local_discard_def keeps_def safe.kept_refl)
next
  case (Inr x)
  have after: "keeps safe (bindS (open_dir [role_text r, p, v]) (\<lambda>parent. unlink_object parent h))"
    if "uri_key uri = Inr (r, p, v, h)" for r p v h
  proof (rule keepsI)
    fix s a t
    assume "bindS (open_dir [role_text r, p, v]) (\<lambda>parent. unlink_object parent h) s = (a, t)"
    then show "safe s t"
    proof (cases rule: bindS_cases)
      case (2 parent u)
      have "r = temporary" using uri_key_role [OF that] Inr by (cases r) auto
      then have "parent \<noteq> []" "hd parent \<noteq> ''published''" using open_dir_Inr [OF 2(1)] by (auto simp: role_text_def)
      then show ?thesis using keepsD [OF safe_unlink_object 2(2)] keepsD [OF safe_open_dir 2(1)] safe.kept_trans by blast
    qed (use keepsD [OF safe_open_dir] in blast)
  qed
  show ?thesis
  proof (cases "uri_key uri")
    case (Inl e)
    then show ?thesis using Inr by (simp add: local_discard_def keeps_def safe.kept_refl)
  next
    case (Inr k)
    obtain r p v h where "k = (r, p, v, h)" by (cases k) auto
    then show ?thesis using after [of r p v h] Inr \<open>refuse_published uri = Inr x\<close> by (simp add: local_discard_def keeps_def)
  qed
qed

lemma safe_remove_superseded: "parent \<noteq> [] \<Longrightarrow> hd parent \<noteq> ''published'' \<Longrightarrow> keeps safe (remove_superseded parent keep names removed)"
  by (induction names arbitrary: removed) (auto intro!: safe_rules safe_unlink_object)

lemma safe_cleanup: "keeps safe (local_cleanup_temporary p v keep)"
proof (rule keepsI)
  fix s r t
  assume run: "local_cleanup_temporary p v keep s = (r, t)"
  let ?parts = "[''temporary'', str_uuid p, str_spec v]"
  obtain a u where a: "open_dir ?parts s = (a, u)" by (cases "open_dir ?parts s")
  have su: "safe s u" using keepsD [OF safe_open_dir a] .
  have "keeps safe (bindS (sys_listdir ?parts) (\<lambda>names. remove_superseded ?parts keep (sort names) []))"
    by (intro safe_rules safe_remove_superseded) simp_all
  note swept = safe.kept_trans [OF su keepsD [OF this]]
  show "safe s t"
  proof (cases "fullmatch HEX_RE keep")
    case False
    then show ?thesis using run by (simp add: local_cleanup_temporary_def raiseS_def safe.kept_refl)
  next
    case True
    show ?thesis
    proof (cases a)
      case (Inl e)
      then show ?thesis using run a su True by (cases "e = Storage ''storage missing''") (simp_all add: local_cleanup_temporary_def)
    next
      case (Inr parent)
      then have "parent = ?parts" using open_dir_Inr a by blast
      then show ?thesis using run a True Inr swept by (simp add: local_cleanup_temporary_def)
    qed
  qed
qed


definition local_content :: "disk \<Rightarrow> string \<Rightarrow> bytes option" where
  "local_content s uri = (case uri_key uri of
     Inl e \<Rightarrow> None
   | Inr (r, p, v, h) \<Rightarrow> (case node_at s [role_text r, p, v, h] of Some (Regular i) \<Rightarrow> Some (dk_data s i) | _ \<Rightarrow> None))"

lemma local_content_events [simp]: "local_content (s\<lparr>dk_events := es\<rparr>) uri = local_content s uri"
  by (cases "uri_key uri") (auto simp: local_content_def split: option.split node.split)

lemma local_content_holds: "uri_key uri = Inr (r, p, v, h) \<Longrightarrow> local_content s uri = Some d \<longleftrightarrow> holds s [role_text r, p, v, h] d"
  by (auto simp: local_content_def holds_def split: option.splits node.splits)

lemma published_key: "uri_key uri = Inr (r, p, v, h) \<Longrightarrow> prefix ''fixture://'' uri \<Longrightarrow> r = published \<and> published_path [role_text r, p, v, h]"
  using uri_key_parts [of uri r p v h] by (auto simp: uri_key_Inr split_uri_def published_path_def role_text_def split: if_splits)

text \<open>A store call under an environment: the digest function, the name of a temporary file, and the
  events its system calls meet.\<close>

type_synonym local_env = "(bytes \<Rightarrow> string) \<times> uuid \<times> os_event list"

definition under :: "local_env \<Rightarrow> ((bytes \<Rightarrow> string) \<Rightarrow> uuid \<Rightarrow> 'a io) \<Rightarrow> 'a io" where
  "under env m s = (case env of (hash, u, evs) \<Rightarrow> m hash u (s\<lparr>dk_events := evs\<rparr>))"

fun local_run :: "local_env \<Rightarrow> store_op \<Rightarrow> disk \<Rightarrow> disk" where
  "local_run env (Publish p v h d) s = snd (under env (\<lambda>hash u. local_publish hash u p v h d) s)"
| "local_run env (Put_temporary p v h d) s = snd (under env (\<lambda>hash u. local_put_temporary hash u p v h d) s)"
| "local_run env (Read_object uri) s = snd (under env (\<lambda>hash u. local_read hash uri) s)"
| "local_run env (Discard uri) s = snd (under env (\<lambda>hash u. local_discard uri) s)"
| "local_run env (Cleanup_temporary p v keep) s = snd (under env (\<lambda>hash u. local_cleanup_temporary p v keep) s)"

definition local_publish_under :: "local_env \<Rightarrow> uuid \<Rightarrow> spec_arg \<Rightarrow> string \<Rightarrow> bytes \<Rightarrow> stored_object io" where
  "local_publish_under env p v h d = under env (\<lambda>hash u. local_publish hash u p v h d)"

lemma safe_under: "(\<And>hash u. keeps safe (m hash u)) \<Longrightarrow> keeps safe (under env m)"
  unfolding keeps_def under_def using safe_events safe.kept_trans by (cases env) (simp, blast)

lemma local_run_safe: "safe s (local_run env op s)"
proof -
  note k = safe_under [unfolded keeps_def, rule_format]
  show ?thesis
    by (cases op) (simp_all add: local_publish_def local_put_temporary_def k
      safe_put [unfolded keeps_def] safe_read [unfolded keeps_def] safe_discard [unfolded keeps_def] safe_cleanup [unfolded keeps_def])
qed

lemma local_put_Inr:
  assumes "local_put hash u published ''fixture'' p v h d s = (Inr obj, t)" and "wf_disk s"
  shows "\<exists>uri. object_uri ''fixture'' p v h = Inr uri \<and> obj = stored uri h d published \<and> hash d = h \<and> local_content t uri = Some d"
proof -
  from assms(1) obtain uri where dg: "require_digest hash d h = Inr ()" and uri: "object_uri ''fixture'' p v h = Inr uri"
    unfolding local_put_def by (auto simp: liftS_def elim!: bindS_cases)
  have h: "sha256_hex h" "hash d = h" using dg by (simp_all add: require_digest_Inr)
  obtain n where n: "uri_key uri = Inr (published, str_uuid p, str_int n, h)"
    using uri_key_object_uri [OF h(1), of published p v uri] uri by (auto simp: role_scheme_def)
  let ?parts = "[role_text published, str_uuid p, str_int n]"
  from assms(1) n dg uri obtain x w where x: "ensure_dirs ?parts s = (Inr x, w)"
    and run: "bindS (open_dir ?parts) (\<lambda>parent. place_in parent h d uri published u) w = (Inr obj, t)"
    unfolding local_put_def by (auto elim!: bindS_cases)
  from run obtain parent y where "open_dir ?parts w = (Inr parent, y)" "place_in parent h d uri published u y = (Inr obj, t)"
    by (auto elim!: bindS_cases)
  then have y: "open_dir ?parts w = (Inr ?parts, y)" "place_in ?parts h d uri published u y = (Inr obj, t)"
    using open_dir_Inr by blast+
  have "wf_disk y" using keepsD [OF safe_ensure_dirs x] keepsD [OF safe_open_dir y(1)] safe_wf assms(2) by blast
  then have "obj = stored uri h d published \<and> holds t (?parts @ [h]) d"
    using place_in_cases [OF y(2)] published_key [OF n] uri by (auto simp: object_uri_Inr scheme_prefix_def)
  then show ?thesis using uri h(2) local_content_holds [OF n] by auto
qed

interpretation local_store: object_store local_run local_publish_under local_content "prefix ''fixture://''" wf_disk
proof unfold_locales
  fix s env op uri d
  show "wf_disk s \<Longrightarrow> wf_disk (local_run env op s)" using local_run_safe safe_wf by blast
  assume wf: "wf_disk s" and pre: "prefix ''fixture://'' uri" and c: "local_content s uri = Some d"
  from c obtain r p v h where k: "uri_key uri = Inr (r, p, v, h)" by (auto simp: local_content_def split: sum.splits)
  have "published_path [role_text r, p, v, h]" using published_key [OF k pre] by blast
  then show "local_content (local_run env op s) uri = Some d"
    using holds_safe [OF local_run_safe wf] c unfolding local_content_holds [OF k] by blast
next
  fix s env p v h d r t
  assume "wf_disk s" "local_publish_under env p v h d s = (r, t)"
  moreover have k: "keeps safe (local_publish_under env p v h d)"
    unfolding local_publish_under_def local_publish_def by (rule safe_under) (rule safe_put)
  ultimately show "wf_disk t" using safe_wf [OF keepsD [OF k]] by blast
next
  fix s env p v h d obj t
  assume "wf_disk s" "local_publish_under env p v h d s = (Inr obj, t)"
  then show "prefix ''fixture://'' (so_storage_uri obj) \<and> local_content t (so_storage_uri obj) = Some d"
    using local_put_Inr [of _ _ p v h d "s\<lparr>dk_events := snd (snd env)\<rparr>" obj t]
    by (cases env) (fastforce simp: local_publish_under_def under_def local_publish_def stored_def object_uri_Inr scheme_prefix_def)
qed


subsection \<open>Without faults\<close>

lemma sys_call_calm [simp]: "dk_events s = [] \<Longrightarrow> sys_call f s = f None s"
  by (simp add: sys_call_def)

lemma calm_simps [simp]:
  "dk_events (add_node p n s) = dk_events s" "dk_events (drop_node p s) = dk_events s" "dk_events (new_file p d s) = dk_events s"
  by (simp_all add: add_node_def drop_node_def new_file_def)

lemma is_directory_simps [simp]:
  "is_directory (add_node p n s) q = (if q = p then n = Directory else is_directory s q)"
  "is_directory (s\<lparr>dk_data := f\<rparr>) q = is_directory s q"
  by (simp_all add: is_directory_def)

lemma ancestors: "wf_disk s \<Longrightarrow> node_at s (p @ q) \<noteq> None \<Longrightarrow> q \<noteq> [] \<Longrightarrow> is_directory s p"
proof (induction q rule: rev_induct)
  case (snoc x q)
  then have "is_directory s (p @ q)" using snoc.prems by (metis append_assoc append_is_Nil_conv butlast_snoc wf_disk_def)
  then show ?case using snoc by (cases "q = []") (auto simp: is_directory_def)
qed simp

lemma walk_calm:
  assumes "dk_events s = []" and "wf_disk s" and "is_directory s (current @ parts)" and "set parts \<inter> set DOTS = {}"
  shows "walk_dir current parts s = (Inr (current @ parts), s)"
  using assms
proof (induction current parts rule: walk_dir.induct)
  case (2 current name parts)
  have "is_directory s (current @ [name])"
    using 2(4) ancestors [OF 2(3), of "current @ [name]" parts] by (cases "parts = []") (auto simp: is_directory_def)
  then have "sys_open_dir (current @ [name]) s = (Inr (), s)" using 2(2) by (simp add: sys_open_dir_def is_directory_def)
  then show ?case using 2 by (simp add: or_mapped_def on_os_def)
qed (simp add: returnS_def)

lemma open_root_calm: "dk_events s = [] \<Longrightarrow> is_directory s [] \<Longrightarrow> open_root s = (Inr [], s)"
  by (simp add: open_root_def on_os_def sys_open_dir_def is_directory_def bindS_def returnS_def)

lemma open_dir_calm:
  assumes "dk_events s = []" and "wf_disk s" and "is_directory s parts" and "set parts \<inter> set DOTS = {}"
  shows "open_dir parts s = (Inr parts, s)"
proof -
  have "is_directory s []" using assms(3) ancestors [OF assms(2), of "[]" parts] by (cases "parts = []") (auto simp: is_directory_def)
  then show ?thesis using open_root_calm assms walk_calm [of s "[]" parts] by (simp add: open_dir_def)
qed

lemma read_all_calm: "dk_events s = [] \<Longrightarrow> read_all (Some rest) chunks s = (Inr (chunks @ rest), s)"
proof (induction "length rest" arbitrary: rest chunks rule: less_induct)
  case less
  have "sys_read (Some rest) s = (Inr (take (2 ^ 20) rest), s)" using less.prems by (simp add: sys_read_def block_size_def)
  then show ?case using less by (subst read_all.simps) (auto simp: min_def)
qed

lemma read_optional_calm:
  assumes "dk_events s = []"
  shows "node_at s p = None \<Longrightarrow> read_optional p s = (Inr None, s)"
    and "node_at s p = Some (Regular i) \<Longrightarrow> read_optional p s = (Inr (Some (dk_data s i)), s)"
    and "fst (read_optional p s) = Inr (Some d) \<Longrightarrow> holds s p d"
proof -
  show "node_at s p = None \<Longrightarrow> read_optional p s = (Inr None, s)"
    using assms by (simp add: read_optional_def sys_open_read_def)
  show "node_at s p = Some (Regular i) \<Longrightarrow> read_optional p s = (Inr (Some (dk_data s i)), s)" for i
    using assms read_all_calm by (simp add: read_optional_def sys_open_read_def returnS_def)
  then show "fst (read_optional p s) = Inr (Some d) \<Longrightarrow> holds s p d"
    using assms read_all_Inr [of None "[]" s] by (cases "read_all None [] s")
      (auto simp: read_optional_def sys_open_read_def holds_def bindS_def returnS_def split: option.splits node.splits sum.splits)
qed

lemma key_path: "uri_key uri = Inr (r, p, v, h) \<Longrightarrow> set [role_text r, p, v] \<inter> set DOTS = {}"
  using uri_key_parts [of uri r p v h] by (cases r) (auto simp: role_text_def DOTS_def)

lemma local_read_calm:
  assumes "wf_disk s" and "dk_events s = []" and "local_content s uri = Some d" and "uri_key uri = Inr (r, p, v, h)"
  shows "local_read hash uri s = (if hash d = h then Inr d else Inl (Storage ''storage bytes''), s)"
proof -
  obtain i where i: "node_at s [role_text r, p, v, h] = Some (Regular i)" "dk_data s i = d"
    using assms(3) local_content_holds [OF assms(4)] by (auto simp: holds_def)
  have "is_directory s [role_text r, p, v]" using ancestors [OF assms(1), of "[role_text r, p, v]" "[h]"] i by simp
  then have "open_dir [role_text r, p, v] s = (Inr [role_text r, p, v], s)"
    by (rule open_dir_calm [OF assms(2,1) _ key_path [OF assms(4)]])
  then show ?thesis using assms(4) read_optional_calm(2) [OF assms(2) i(1)] i(2)
    by (simp add: local_read_def raiseS_def returnS_def)
qed


text \<open>The directories a walk passes, and what making them changes.\<close>

fun below :: "path \<Rightarrow> string list \<Rightarrow> path \<Rightarrow> bool" where
  "below current [] q = False"
| "below current (name # parts) q = (q = current @ [name] \<or> below (current @ [name]) parts q)"

lemma make_dirs_calm:
  assumes "dk_events s = []" and "wf_disk s" and "is_directory s current" and "set parts \<inter> set DOTS = {}"
    and "\<forall>q. below current parts q \<longrightarrow> node_at s q \<in> {None, Some Directory}"
  shows "\<exists>t. make_dirs current parts s = (Inr (), t) \<and> dk_events t = [] \<and> wf_disk t \<and> dk_data t = dk_data s \<and>
    (\<forall>q. node_at t q = (if below current parts q then Some Directory else node_at s q))"
  using assms
proof (induction current parts arbitrary: s rule: make_dirs.induct)
  case (1 current)
  then show ?case by (simp add: returnS_def)
next
  case (2 current name parts)
  let ?p = "current @ [name]"
  define t where "t = (if node_at s ?p = None then add_node ?p Directory s else s)"
  have here: "node_at s ?p \<in> {None, Some Directory}" using 2(6) by simp
  have c: "creatable s ?p" if "node_at s ?p = None" using that 2(4) by (simp add: creatable_def)
  have t: "dk_events t = []" "wf_disk t" "dk_data t = dk_data s" "is_directory t ?p"
    "node_at t q = (if q = ?p then Some Directory else node_at s q)" for q
    using 2(2,3) here c wf_disk_add [of s ?p Directory] by (auto simp: t_def is_directory_def)
  have "sys_mkdir ?p s = (if node_at s ?p = None then Inr () else Inl (Os EEXIST), t)"
    using 2(2) c by (simp add: sys_mkdir_def t_def)
  moreover have "sys_open_dir ?p t = (Inr (), t)" using t(1,4) by (simp add: sys_open_dir_def is_directory_def)
  ultimately have run: "make_dirs current (name # parts) s = make_dirs ?p parts t"
    using 2(5) by (simp add: on_os_def or_mapped_def returnS_def bindS_def)
  have "\<forall>q. below ?p parts q \<longrightarrow> node_at t q \<in> {None, Some Directory}" using 2(6) t(5) by simp
  from 2(1) [OF _ t(1,2,4) _ this] 2(5) show ?case unfolding run using t(3,5) by auto
qed

lemma write_all_calm: "dk_events s = [] \<Longrightarrow> write_all i view s = (Inr (), s\<lparr>dk_data := (dk_data s)(i := dk_data s i @ view)\<rparr>)"
  by (subst write_all.simps) (auto simp: sys_write_def write_all.simps Let_def)

lemma place_in_calm:
  assumes "dk_events s = []" and "wf_disk s" and "is_directory s parent" and "digest \<noteq> temp_name u"
    and "node_at s (parent @ [temp_name u]) = None" and "node_at s (parent @ [digest]) = None \<or> holds s (parent @ [digest]) data"
  shows "\<exists>t. place_in parent digest data uri role u s = (Inr (stored uri digest data role), t) \<and> dk_events t = [] \<and>
    holds t (parent @ [digest]) data \<and> (\<forall>q. q \<noteq> parent @ [digest] \<longrightarrow> node_at t q = node_at s q)"
proof (cases "node_at s (parent @ [digest])")
  case (Some n)
  then obtain i where "node_at s (parent @ [digest]) = Some (Regular i)" "dk_data s i = data" using assms(6) by (auto simp: holds_def)
  then show ?thesis using read_optional_calm(2) [OF assms(1)] assms(1) by (simp add: place_in_def holds_def returnS_def Let_def)
next
  case None
  let ?temp = "parent @ [temp_name u]" and ?final = "parent @ [digest]" and ?i = "dk_next s"
  define a where "a = new_file ?temp [] s"
  define b where "b = a\<lparr>dk_data := (dk_data a)(?i := data)\<rparr>"
  define c where "c = add_node ?final (Regular ?i) b"
  have cr: "creatable s ?temp" using assms(3,5) by (simp add: creatable_def)
  have create: "sys_create ?temp s = (Inr ?i, a)" using assms(1) cr by (simp add: sys_create_def a_def creatable_def)
  have fill: "write_all ?i data a = (Inr (), b)" using write_all_calm [of a] assms(1) by (simp add: a_def b_def)
  have "?temp \<noteq> ?final" using assms(4) by simp
  then have "creatable b ?final" using None assms(3,5) by (auto simp: b_def a_def creatable_def is_directory_def)
  then have link: "sys_link ?temp ?final b = (Inr (), c)"
    using assms(1) by (simp add: sys_link_def c_def b_def a_def creatable_def)
  have calm: "dk_events b = []" "dk_events c = []" using assms(1) by (simp_all add: b_def c_def a_def)
  have unlink: "sys_unlink ?temp c = (Inr (), drop_node ?temp c)"
    using calm assms(4) by (simp add: sys_unlink_def c_def b_def a_def)
  have "place_in parent digest data uri role u s = (Inr (stored uri digest data role), drop_node ?temp c)"
    using read_optional_calm(1) [OF assms(1) None] create fill link unlink calm
    by (simp add: place_in_def place_new_def fill_and_link_def link_or_existing_def unlink_temp_def finallyS_def
        or_mapped_def on_os_def returnS_def bindS_def sys_fsync_def Let_def)
  moreover have "node_at (drop_node ?temp c) q = node_at s q" if "q \<noteq> ?final" for q
    using that assms(5) by (simp add: c_def b_def a_def)
  moreover have "holds (drop_node ?temp c) ?final data" using assms(4) by (simp add: holds_def c_def b_def)
  ultimately show ?thesis using calm(2) by (intro exI [of _ "drop_node ?temp c"]) simp
qed


subsection \<open>Properties\<close>

lemma publish_calm:
  assumes "wf_disk s" and "dk_events s = []" and "is_directory s []" and "sha256_hex (hash d)" and "1 \<le> n"
    and "\<forall>q. below [] [''published'', str_uuid p, str_int n] q \<longrightarrow> node_at s q \<in> {None, Some Directory}"
    and "node_at s [''published'', str_uuid p, str_int n, temp_name u] = None"
    and "node_at s [''published'', str_uuid p, str_int n, hash d] = None \<or> holds s [''published'', str_uuid p, str_int n, hash d] d"
  shows "\<exists>uri t. local_publish hash u p (Spec_int n) (hash d) d s = (Inr (stored uri (hash d) d published), t) \<and>
    local_read hash uri t = (Inr d, t) \<and>
    (\<forall>q. \<not> below [] [''published'', str_uuid p, str_int n] q \<and> q \<noteq> [''published'', str_uuid p, str_int n, hash d] \<longrightarrow>
      node_at t q = node_at s q)"
proof -
  let ?parts = "[''published'', str_uuid p, str_int n]" and ?h = "hash d"
  have dg: "require_digest hash d ?h = Inr ()" using assms(4) by (simp add: require_digest_Inr)
  obtain uri where uri: "object_uri ''fixture'' p (Spec_int n) ?h = Inr uri"
    using assms(5) by (simp add: object_uri_def refuse_spec_def scheme_prefix_def)
  then have key: "uri_key uri = Inr (published, str_uuid p, str_int n, ?h)"
    using uri_key_object_uri [OF assms(4), of published p "Spec_int n" uri] by (simp add: role_scheme_def)
  have dots: "set ?parts \<inter> set DOTS = {}" using key_path [OF key] by (simp add: role_text_def)
  from make_dirs_calm [OF assms(2,1,3) dots] assms(6) obtain w where w: "make_dirs [] ?parts s = (Inr (), w)" "dk_events w = []" "wf_disk w"
      "dk_data w = dk_data s" and wn: "\<And>q. node_at w q = (if below [] ?parts q then Some Directory else node_at s q)" by auto
  have dir: "is_directory w ?parts" by (simp add: is_directory_def wn)
  have "?h \<noteq> temp_name u" using assms(4) not_removable(2) [of "[''x'']" u] by (auto simp: removable_def)
  then obtain t where t: "place_in ?parts ?h d uri published u w = (Inr (stored uri ?h d published), t)" "dk_events t = []"
      "holds t (?parts @ [?h]) d" "\<And>q. q \<noteq> ?parts @ [?h] \<Longrightarrow> node_at t q = node_at w q"
    using place_in_calm [OF w(2,3) dir, of ?h u d uri published] assms(7,8) by (auto simp: wn w(4) holds_def)
  have run: "local_publish hash u p (Spec_int n) ?h d s = (Inr (stored uri ?h d published), t)"
    using dg uri key w(1) t(1) open_root_calm [OF assms(2,3)] open_dir_calm [OF w(2,3) dir dots]
    by (simp add: local_publish_def local_put_def ensure_dirs_def role_text_def)
  have "wf_disk t" using keepsD [OF safe_put] run safe_wf assms(1) by (metis local_publish_def)
  then have "local_read hash uri t = (Inr d, t)"
    using local_read_calm [OF _ t(2) _ key, of d hash] local_content_holds [OF key] t(3) by (simp add: role_text_def)
  moreover have "node_at t q = node_at s q" if "\<not> below [] ?parts q" "q \<noteq> ?parts @ [?h]" for q
    using that t(4) [of q] by (simp add: wn)
  ultimately show ?thesis using run by (intro exI [of _ uri] exI [of _ t]) auto
qed

text \<open>C33: Publishing works and leaves nothing behind: where no system call fails, the root is a directory,
  nothing but directories stands in the way, the temporary name is free and the object is absent or
  already has these bytes, publishing returns the object, reading its URI returns the bytes, and the
  only paths that changed are the directories on the way and the object, so that the temporary file is gone.\<close>

theorem publish_succeeds:
  assumes "wf_disk s" and "dk_events s = []" and "is_directory s []" and "sha256_hex (hash d)" and "1 \<le> n"
    and "\<forall>q. below [] [''published'', str_uuid p, str_int n] q \<longrightarrow> node_at s q \<in> {None, Some Directory}"
    and "node_at s [''published'', str_uuid p, str_int n, temp_name u] = None"
    and "node_at s [''published'', str_uuid p, str_int n, hash d] = None \<or> holds s [''published'', str_uuid p, str_int n, hash d] d"
  shows "\<exists>uri t. local_publish hash u p (Spec_int n) (hash d) d s = (Inr (stored uri (hash d) d published), t) \<and>
    local_read hash uri t = (Inr d, t) \<and>
    (\<forall>q. \<not> below [] [''published'', str_uuid p, str_int n] q \<and> q \<noteq> [''published'', str_uuid p, str_int n, hash d] \<longrightarrow>
      node_at t q = node_at s q)"
  by (rule publish_calm [where hash = hash and d = d, OF assms])

definition example_disk :: disk where
  "example_disk = \<lparr>dk_nodes = [([], Directory)], dk_data = (\<lambda>i. []), dk_next = 0, dk_events = []\<rparr>"

lemma example_disk_wf: "wf_disk example_disk" "is_directory example_disk []" "node_at example_disk (x # q) = None"
  by (auto simp: wf_disk_def example_disk_def node_at_def is_directory_def split: if_splits)

theorem publish_succeeds_witness:
  "\<exists>uri t. local_publish example_bytes_digest 5 7 (Spec_int 1) (example_bytes_digest [1, 2]) [1, 2] example_disk =
      (Inr (stored uri (example_bytes_digest [1, 2]) [1, 2] published), t) \<and> local_read example_bytes_digest uri t = (Inr [1, 2], t)"
proof -
  have hex: "sha256_hex (example_bytes_digest [1, 2])" by code_simp
  have calm: "dk_events example_disk = []" by (simp add: example_disk_def)
  show ?thesis using publish_succeeds [of example_disk example_bytes_digest "[1, 2]" 1 7 5] example_disk_wf calm hex
    by simp metis
qed

text \<open>C32: What is published stays published: after a publication that returned, under any system call
  failures, short transfers and interleaved writers, and after any later publications, temporary
  writes, reads, discards and clean-ups, each again under any events, a read of the object's URI
  returns the bytes that were published.\<close>

theorem published_objects_survive:
  assumes "wf_disk s" and "local_publish_under (hash, u, evs) p v h d s = (Inr obj, t)"
    and "w = (fold (\<lambda>(env, op). local_run env op) ops t)\<lparr>dk_events := []\<rparr>"
  shows "wf_disk w \<and> local_read hash (so_storage_uri obj) w = (Inr d, w)"
proof -
  let ?w = "fold (\<lambda>(env, op). local_run env op) ops t"
  have t: "wf_disk t" using local_store.publish_ok [OF assms(1,2)] .
  have "wf_disk (fold (\<lambda>(env, op). local_run env op) ops t)" using t
    by (induction ops arbitrary: t) (auto intro: local_store.run_ok)
  then have wf: "wf_disk w" by (simp add: assms(3))
  have "local_content w (so_storage_uri obj) = Some d"
    using local_store.published_for_good [OF assms(1,2), of ops] assms(3) by simp
  moreover obtain uri where uri: "object_uri ''fixture'' p v h = Inr uri" "obj = stored uri h d published" "hash d = h"
    and dg: "sha256_hex h"
    using assms(1,2) local_put_Inr [of hash u p v h d "s\<lparr>dk_events := evs\<rparr>" obj t]
    by (auto simp: local_publish_under_def under_def local_publish_def local_put_def liftS_def require_digest_Inr elim!: bindS_cases)
  moreover then obtain n where "uri_key uri = Inr (published, str_uuid p, str_int n, h)"
    using uri_key_object_uri [OF dg, of published p v uri] by (auto simp: role_scheme_def)
  ultimately show ?thesis using local_read_calm [OF wf, of uri d published "str_uuid p" "str_int n" h hash] wf assms(3)
    by (simp add: stored_def)
qed


text \<open>A discard of the published object, with a failing system call, changes nothing.\<close>

theorem published_objects_survive_witness:
  "\<exists>uri. let t = snd (local_publish_under (example_bytes_digest, 5, []) 7 (Spec_int 1) (example_bytes_digest [1, 2]) [1, 2] example_disk);
       w = (local_run (example_bytes_digest, 6, [Fine, Fails EIO]) (Discard uri) t)\<lparr>dk_events := []\<rparr> in
   local_read example_bytes_digest uri w = (Inr [1, 2], w)"
proof -
  have hex: "sha256_hex (example_bytes_digest [1, 2])" by code_simp
  have calm: "dk_events example_disk = []" "example_disk\<lparr>dk_events := []\<rparr> = example_disk" by (simp_all add: example_disk_def)
  obtain uri t where run: "local_publish example_bytes_digest 5 7 (Spec_int 1) (example_bytes_digest [1, 2]) [1, 2] example_disk =
      (Inr (stored uri (example_bytes_digest [1, 2]) [1, 2] published), t)"
    using publish_calm [of example_disk example_bytes_digest "[1, 2]" 1 7 5] example_disk_wf calm hex by auto
  then have under: "local_publish_under (example_bytes_digest, 5, []) 7 (Spec_int 1) (example_bytes_digest [1, 2]) [1, 2] example_disk =
      (Inr (stored uri (example_bytes_digest [1, 2]) [1, 2] published), t)"
    by (simp add: local_publish_under_def under_def calm(2))
  from published_objects_survive [OF example_disk_wf(1) this refl, of "[((example_bytes_digest, 6, [Fine, Fails EIO]), Discard uri)]"]
  show ?thesis using under by (intro exI [of _ uri]) (simp add: Let_def stored_def)
qed

end
