(* ===== verification/Etsy_Fixtures.thy ===== *)
theory Etsy_Fixtures
  imports Dedupe Config
begin

section \<open>Fixture listings\<close>

text \<open>
  \<^verbatim>\<open>integrations/etsy/interface.py\<close> and \<^verbatim>\<open>integrations/etsy/fixture_adapter.py\<close>: the listing a search
  returns, the forty fixture listings in their five niches, and the search by shared words. The time
  at which the adapter is built is an argument.
\<close>

record listing_search_result =
  et_source_reference :: string
  et_title :: string
  et_price :: "rat option"
  et_anchor_price :: "rat option"
  et_currency :: string
  et_shop_reference :: string
  et_shop_sales :: "int option"
  et_shop_opened_on :: "time option"
  et_identity_niche :: "string option"
  et_base_category :: "string option"
  et_badges :: "(string \<times> bool) list"
  et_urgency_signals :: "(string \<times> string) list"
  et_review_count :: "int option"
  et_review_average :: "rat option"
  et_observed_at :: time

definition young_shop_age :: "time \<Rightarrow> time" where
  "young_shop_age now = now - 180 * day_microseconds"

definition FAST_SALES :: int where "FAST_SALES = 500"

definition planner_fixtures :: "time \<Rightarrow> listing_search_result list" where
  "planner_fixtures now = [
    \<lparr>et_source_reference = ''https://etsy.com/listing/1001'', et_title = ''2024 Daily Planner Printable - Productivity Journal Template'', et_price = Some (499 / 100), et_anchor_price = Some (999 / 100),
     et_currency = ''USD'', et_shop_reference = ''PlannerProShop'', et_shop_sales = Some (FAST_SALES + 50), et_shop_opened_on = Some (young_shop_age now),
     et_identity_niche = Some ''productivity planner'', et_base_category = Some ''Office & School Supplies'', et_badges = [(''bestseller'', True), (''star_seller'', False)],
     et_urgency_signals = [(''in_carts'', ''15+ people have this in their cart'')], et_review_count = Some 89, et_review_average = Some (48 / 10), et_observed_at = now\<rparr>,
    \<lparr>et_source_reference = ''https://etsy.com/listing/1002'', et_title = ''Weekly Goal Tracker Printable - Habit Tracker PDF'', et_price = Some (399 / 100), et_anchor_price = None,
     et_currency = ''USD'', et_shop_reference = ''HabitHeroDesigns'', et_shop_sales = Some (FAST_SALES - 100), et_shop_opened_on = Some (young_shop_age now + 30 * day_microseconds),
     et_identity_niche = Some ''habit tracker'', et_base_category = Some ''Office & School Supplies'', et_badges = [(''bestseller'', False), (''star_seller'', True)],
     et_urgency_signals = [], et_review_count = Some 45, et_review_average = Some (49 / 10), et_observed_at = now\<rparr>,
    \<lparr>et_source_reference = ''https://etsy.com/listing/1003'', et_title = ''Budget Planner Template - Financial Goal Tracker Printable'', et_price = Some (599 / 100), et_anchor_price = Some (1299 / 100),
     et_currency = ''USD'', et_shop_reference = ''MoneyMindsetCo'', et_shop_sales = Some (FAST_SALES + 200), et_shop_opened_on = Some (young_shop_age now - 20 * day_microseconds),
     et_identity_niche = Some ''budget planner'', et_base_category = Some ''Office & School Supplies'', et_badges = [(''bestseller'', True), (''star_seller'', True)],
     et_urgency_signals = [(''limited_time'', ''Sale ends in 6 hours'')], et_review_count = Some 156, et_review_average = Some (47 / 10), et_observed_at = now\<rparr>,
    \<lparr>et_source_reference = ''https://etsy.com/listing/1004'', et_title = ''Budget Planner Printable - Monthly Finance Tracker'', et_price = Some (899 / 100), et_anchor_price = Some (1599 / 100),
     et_currency = ''USD'', et_shop_reference = ''HealthyHomeHub'', et_shop_sales = Some (FAST_SALES), et_shop_opened_on = Some (young_shop_age now + 15 * day_microseconds),
     et_identity_niche = Some ''budget planner'', et_base_category = Some ''Office & School Supplies'', et_badges = [(''bestseller'', False), (''star_seller'', False)],
     et_urgency_signals = [(''in_carts'', ''8 people have this in their cart'')], et_review_count = Some 34, et_review_average = Some (46 / 10), et_observed_at = now\<rparr>,
    \<lparr>et_source_reference = ''https://etsy.com/listing/1005'', et_title = ''Gratitude Journal Prompts - Daily Thankfulness Tracker'', et_price = Some (299 / 100), et_anchor_price = Some (699 / 100),
     et_currency = ''USD'', et_shop_reference = ''MindfulMomentsShop'', et_shop_sales = Some (FAST_SALES + 300), et_shop_opened_on = Some (young_shop_age now),
     et_identity_niche = Some ''gratitude journal'', et_base_category = Some ''Books, Movies & Music'', et_badges = [(''bestseller'', True), (''star_seller'', True)],
     et_urgency_signals = [(''bestseller_badge'', ''Etsy's Pick'')], et_review_count = Some 201, et_review_average = Some (49 / 10), et_observed_at = now\<rparr>,
    \<lparr>et_source_reference = ''https://etsy.com/listing/1006'', et_title = ''Student Planner 2024 - College Assignment Tracker'', et_price = Some (699 / 100), et_anchor_price = None,
     et_currency = ''USD'', et_shop_reference = ''StudySuccessHub'', et_shop_sales = Some (FAST_SALES - 50), et_shop_opened_on = Some (young_shop_age now + 45 * day_microseconds),
     et_identity_niche = Some ''student planner'', et_base_category = Some ''Office & School Supplies'', et_badges = [(''bestseller'', False), (''star_seller'', True)],
     et_urgency_signals = [], et_review_count = Some 67, et_review_average = Some (48 / 10), et_observed_at = now\<rparr>,
    \<lparr>et_source_reference = ''https://etsy.com/listing/1007'', et_title = ''Password Tracker Printable - Secure Login Organizer'', et_price = Some (349 / 100), et_anchor_price = Some (799 / 100),
     et_currency = ''USD'', et_shop_reference = ''SecureLifePrints'', et_shop_sales = Some (FAST_SALES + 100), et_shop_opened_on = Some (young_shop_age now - 10 * day_microseconds),
     et_identity_niche = Some ''password organizer'', et_base_category = Some ''Office & School Supplies'', et_badges = [(''bestseller'', True), (''star_seller'', False)],
     et_urgency_signals = [(''in_carts'', ''12+ people have this in their cart'')], et_review_count = Some 78, et_review_average = Some (47 / 10), et_observed_at = now\<rparr>,
    \<lparr>et_source_reference = ''https://etsy.com/listing/1008'', et_title = ''Workout Tracker Printable - Fitness Journal Template'', et_price = Some (499 / 100), et_anchor_price = None,
     et_currency = ''USD'', et_shop_reference = ''FitLifeDesigns'', et_shop_sales = Some (FAST_SALES + 150), et_shop_opened_on = Some (young_shop_age now + 60 * day_microseconds),
     et_identity_niche = Some ''workout tracker'', et_base_category = Some ''Sports & Recreation'', et_badges = [(''bestseller'', False), (''star_seller'', True)],
     et_urgency_signals = [], et_review_count = Some 91, et_review_average = Some (48 / 10), et_observed_at = now\<rparr>,
    \<lparr>et_source_reference = ''https://etsy.com/listing/1009'', et_title = ''Desk Organizer Printable Labels - Office Storage System'', et_price = Some (249 / 100), et_anchor_price = Some (599 / 100),
     et_currency = ''USD'', et_shop_reference = ''OrganizedSpacesCo'', et_shop_sales = Some (FAST_SALES + 250), et_shop_opened_on = Some (young_shop_age now),
     et_identity_niche = Some ''desk organizer'', et_base_category = Some ''Office & School Supplies'', et_badges = [(''bestseller'', True), (''star_seller'', True)],
     et_urgency_signals = [(''limited_quantity'', ''Only 3 left'')], et_review_count = Some 134, et_review_average = Some (49 / 10), et_observed_at = now\<rparr>,
    \<lparr>et_source_reference = ''https://etsy.com/listing/1010'', et_title = ''Travel Planner Printable - Vacation Itinerary Template'', et_price = Some (549 / 100), et_anchor_price = None,
     et_currency = ''USD'', et_shop_reference = ''WanderlustPrints'', et_shop_sales = Some (FAST_SALES - 80), et_shop_opened_on = Some (young_shop_age now + 75 * day_microseconds),
     et_identity_niche = Some ''travel planner'', et_base_category = Some ''Bags & Purses'', et_badges = [(''bestseller'', False), (''star_seller'', False)],
     et_urgency_signals = [], et_review_count = Some 42, et_review_average = Some (46 / 10), et_observed_at = now\<rparr>]"

definition teacher_fixtures :: "time \<Rightarrow> listing_search_result list" where
  "teacher_fixtures now = [
    \<lparr>et_source_reference = ''https://etsy.com/listing/2001'', et_title = ''Teacher Appreciation Gift Tags - Thank You Cards Printable'', et_price = Some (299 / 100), et_anchor_price = Some (599 / 100),
     et_currency = ''USD'', et_shop_reference = ''TeacherTreasuresShop'', et_shop_sales = Some (FAST_SALES + 400), et_shop_opened_on = Some (young_shop_age now - 30 * day_microseconds),
     et_identity_niche = Some ''teacher appreciation'', et_base_category = Some ''Paper & Party Supplies'', et_badges = [(''bestseller'', True), (''star_seller'', True)],
     et_urgency_signals = [(''trending'', ''Trending in Teacher Gifts'')], et_review_count = Some 267, et_review_average = Some (49 / 10), et_observed_at = now\<rparr>,
    \<lparr>et_source_reference = ''https://etsy.com/listing/2002'', et_title = ''Classroom Management Chart - Student Behavior Tracker'', et_price = Some (399 / 100), et_anchor_price = None,
     et_currency = ''USD'', et_shop_reference = ''ClassroomCornerCo'', et_shop_sales = Some (FAST_SALES + 180), et_shop_opened_on = Some (young_shop_age now + 20 * day_microseconds),
     et_identity_niche = Some ''classroom management'', et_base_category = Some ''Office & School Supplies'', et_badges = [(''bestseller'', False), (''star_seller'', True)],
     et_urgency_signals = [], et_review_count = Some 89, et_review_average = Some (48 / 10), et_observed_at = now\<rparr>,
    \<lparr>et_source_reference = ''https://etsy.com/listing/2003'', et_title = ''Lesson Plan Template - Weekly Teacher Planner Printable'', et_price = Some (449 / 100), et_anchor_price = Some (999 / 100),
     et_currency = ''USD'', et_shop_reference = ''EduPlanPro'', et_shop_sales = Some (FAST_SALES + 220), et_shop_opened_on = Some (young_shop_age now),
     et_identity_niche = Some ''lesson planner'', et_base_category = Some ''Office & School Supplies'', et_badges = [(''bestseller'', True), (''star_seller'', False)],
     et_urgency_signals = [(''in_carts'', ''25+ people have this in their cart'')], et_review_count = Some 145, et_review_average = Some (47 / 10), et_observed_at = now\<rparr>,
    \<lparr>et_source_reference = ''https://etsy.com/listing/2004'', et_title = ''Student Awards Certificates - Achievement Recognition Printable'', et_price = Some (249 / 100), et_anchor_price = None,
     et_currency = ''USD'', et_shop_reference = ''AwardWinningTeachers'', et_shop_sales = Some (FAST_SALES + 90), et_shop_opened_on = Some (young_shop_age now + 40 * day_microseconds),
     et_identity_niche = Some ''student awards'', et_base_category = Some ''Paper & Party Supplies'', et_badges = [(''bestseller'', False), (''star_seller'', True)],
     et_urgency_signals = [], et_review_count = Some 56, et_review_average = Some (48 / 10), et_observed_at = now\<rparr>,
    \<lparr>et_source_reference = ''https://etsy.com/listing/2005'', et_title = ''Back to School Labels - Classroom Organization Printable'', et_price = Some (349 / 100), et_anchor_price = Some (799 / 100),
     et_currency = ''USD'', et_shop_reference = ''SchoolSupplyCentral'', et_shop_sales = Some (FAST_SALES + 350), et_shop_opened_on = Some (young_shop_age now - 15 * day_microseconds),
     et_identity_niche = Some ''classroom organization'', et_base_category = Some ''Office & School Supplies'', et_badges = [(''bestseller'', True), (''star_seller'', True)],
     et_urgency_signals = [(''limited_time'', ''Flash sale - 50% off'')], et_review_count = Some 198, et_review_average = Some (49 / 10), et_observed_at = now\<rparr>,
    \<lparr>et_source_reference = ''https://etsy.com/listing/2006'', et_title = ''Alphabet Flashcards Printable - Phonics Learning Cards'', et_price = Some (499 / 100), et_anchor_price = None,
     et_currency = ''USD'', et_shop_reference = ''LearnAndGrowShop'', et_shop_sales = Some (FAST_SALES + 120), et_shop_opened_on = Some (young_shop_age now + 55 * day_microseconds),
     et_identity_niche = Some ''educational flashcards'', et_base_category = Some ''Toys & Games'', et_badges = [(''bestseller'', False), (''star_seller'', False)],
     et_urgency_signals = [], et_review_count = Some 73, et_review_average = Some (47 / 10), et_observed_at = now\<rparr>,
    \<lparr>et_source_reference = ''https://etsy.com/listing/2007'', et_title = ''Teacher Planner 2024 - Grade Book and Attendance Tracker'', et_price = Some (699 / 100), et_anchor_price = Some (1499 / 100),
     et_currency = ''USD'', et_shop_reference = ''TeachAndThriveHub'', et_shop_sales = Some (FAST_SALES + 280), et_shop_opened_on = Some (young_shop_age now),
     et_identity_niche = Some ''teacher planner'', et_base_category = Some ''Office & School Supplies'', et_badges = [(''bestseller'', True), (''star_seller'', True)],
     et_urgency_signals = [(''bestseller_badge'', ''Best Teacher Tools'')], et_review_count = Some 212, et_review_average = Some (48 / 10), et_observed_at = now\<rparr>,
    \<lparr>et_source_reference = ''https://etsy.com/listing/2008'', et_title = ''Reading Log Printable - Student Book Tracker Template'', et_price = Some (299 / 100), et_anchor_price = None,
     et_currency = ''USD'', et_shop_reference = ''BookwormClassroom'', et_shop_sales = Some (FAST_SALES - 70), et_shop_opened_on = Some (young_shop_age now + 85 * day_microseconds),
     et_identity_niche = Some ''reading log'', et_base_category = Some ''Books, Movies & Music'', et_badges = [(''bestseller'', False), (''star_seller'', True)],
     et_urgency_signals = [], et_review_count = Some 38, et_review_average = Some (46 / 10), et_observed_at = now\<rparr>]"

definition wellness_fixtures :: "time \<Rightarrow> listing_search_result list" where
  "wellness_fixtures now = [
    \<lparr>et_source_reference = ''https://etsy.com/listing/3001'', et_title = ''Mindfulness Journal Prompts - Daily Reflection Template'', et_price = Some (399 / 100), et_anchor_price = Some (899 / 100),
     et_currency = ''USD'', et_shop_reference = ''CalmMindDesigns'', et_shop_sales = Some (FAST_SALES + 310), et_shop_opened_on = Some (young_shop_age now - 25 * day_microseconds),
     et_identity_niche = Some ''mindfulness journal'', et_base_category = Some ''Books, Movies & Music'', et_badges = [(''bestseller'', True), (''star_seller'', True)],
     et_urgency_signals = [(''in_carts'', ''18+ people have this in their cart'')], et_review_count = Some 187, et_review_average = Some (49 / 10), et_observed_at = now\<rparr>,
    \<lparr>et_source_reference = ''https://etsy.com/listing/3002'', et_title = ''Self Care Checklist Printable - Mental Health Tracker'', et_price = Some (299 / 100), et_anchor_price = None,
     et_currency = ''USD'', et_shop_reference = ''WellnessWarriorsCo'', et_shop_sales = Some (FAST_SALES + 140), et_shop_opened_on = Some (young_shop_age now + 35 * day_microseconds),
     et_identity_niche = Some ''self care tracker'', et_base_category = Some ''Bath & Beauty'', et_badges = [(''bestseller'', False), (''star_seller'', True)],
     et_urgency_signals = [], et_review_count = Some 95, et_review_average = Some (48 / 10), et_observed_at = now\<rparr>,
    \<lparr>et_source_reference = ''https://etsy.com/listing/3003'', et_title = ''Mood Tracker Printable - Emotional Wellness Journal'', et_price = Some (349 / 100), et_anchor_price = Some (699 / 100),
     et_currency = ''USD'', et_shop_reference = ''MindfulMoodHub'', et_shop_sales = Some (FAST_SALES + 260), et_shop_opened_on = Some (young_shop_age now),
     et_identity_niche = Some ''mood tracker'', et_base_category = Some ''Books, Movies & Music'', et_badges = [(''bestseller'', True), (''star_seller'', False)],
     et_urgency_signals = [(''trending'', ''Popular this week'')], et_review_count = Some 176, et_review_average = Some (47 / 10), et_observed_at = now\<rparr>,
    \<lparr>et_source_reference = ''https://etsy.com/listing/3004'', et_title = ''Affirmation Cards Printable - Positive Mindset Daily Reminders'', et_price = Some (449 / 100), et_anchor_price = None,
     et_currency = ''USD'', et_shop_reference = ''PositiveVibesPrints'', et_shop_sales = Some (FAST_SALES + 190), et_shop_opened_on = Some (young_shop_age now + 50 * day_microseconds),
     et_identity_niche = Some ''affirmation cards'', et_base_category = Some ''Paper & Party Supplies'', et_badges = [(''bestseller'', False), (''star_seller'', True)],
     et_urgency_signals = [], et_review_count = Some 112, et_review_average = Some (49 / 10), et_observed_at = now\<rparr>,
    \<lparr>et_source_reference = ''https://etsy.com/listing/3005'', et_title = ''Anxiety Relief Worksheets - Calm Down Strategies Printable'', et_price = Some (599 / 100), et_anchor_price = Some (1199 / 100),
     et_currency = ''USD'', et_shop_reference = ''PeacefulPathDesigns'', et_shop_sales = Some (FAST_SALES + 85), et_shop_opened_on = Some (young_shop_age now + 65 * day_microseconds),
     et_identity_niche = Some ''anxiety relief'', et_base_category = Some ''Books, Movies & Music'', et_badges = [(''bestseller'', True), (''star_seller'', True)],
     et_urgency_signals = [(''limited_time'', ''Sale ends tonight'')], et_review_count = Some 67, et_review_average = Some (48 / 10), et_observed_at = now\<rparr>,
    \<lparr>et_source_reference = ''https://etsy.com/listing/3006'', et_title = ''Sleep Tracker Printable - Restful Night Journal Template'', et_price = Some (249 / 100), et_anchor_price = None,
     et_currency = ''USD'', et_shop_reference = ''SleepWellHub'', et_shop_sales = Some (FAST_SALES - 60), et_shop_opened_on = Some (young_shop_age now + 90 * day_microseconds),
     et_identity_niche = Some ''sleep tracker'', et_base_category = Some ''Health & Wellness'', et_badges = [(''bestseller'', False), (''star_seller'', False)],
     et_urgency_signals = [], et_review_count = Some 41, et_review_average = Some (46 / 10), et_observed_at = now\<rparr>,
    \<lparr>et_source_reference = ''https://etsy.com/listing/3007'', et_title = ''Meditation Guide Printable - Beginner's Mindfulness Practice'', et_price = Some (499 / 100), et_anchor_price = Some (999 / 100),
     et_currency = ''USD'', et_shop_reference = ''ZenLifePrints'', et_shop_sales = Some (FAST_SALES + 220), et_shop_opened_on = Some (young_shop_age now),
     et_identity_niche = Some ''meditation guide'', et_base_category = Some ''Books, Movies & Music'', et_badges = [(''bestseller'', True), (''star_seller'', True)],
     et_urgency_signals = [(''bestseller_badge'', ''Bestseller in Meditation'')], et_review_count = Some 158, et_review_average = Some (49 / 10), et_observed_at = now\<rparr>,
    \<lparr>et_source_reference = ''https://etsy.com/listing/3008'', et_title = ''Vision Board Template - Goal Setting Printable Worksheet'', et_price = Some (399 / 100), et_anchor_price = None,
     et_currency = ''USD'', et_shop_reference = ''DreamBigDesignsCo'', et_shop_sales = Some (FAST_SALES + 170), et_shop_opened_on = Some (young_shop_age now + 45 * day_microseconds),
     et_identity_niche = Some ''vision board'', et_base_category = Some ''Office & School Supplies'', et_badges = [(''bestseller'', False), (''star_seller'', True)],
     et_urgency_signals = [(''in_carts'', ''14 people have this in their cart'')], et_review_count = Some 103, et_review_average = Some (47 / 10), et_observed_at = now\<rparr>]"

definition home_fixtures :: "time \<Rightarrow> listing_search_result list" where
  "home_fixtures now = [
    \<lparr>et_source_reference = ''https://etsy.com/listing/4001'', et_title = ''Pantry Labels Printable - Kitchen Organization System'', et_price = Some (349 / 100), et_anchor_price = Some (799 / 100),
     et_currency = ''USD'', et_shop_reference = ''OrganizedHomeHub'', et_shop_sales = Some (FAST_SALES + 380), et_shop_opened_on = Some (young_shop_age now - 20 * day_microseconds),
     et_identity_niche = Some ''pantry organization'', et_base_category = Some ''Kitchen & Dining'', et_badges = [(''bestseller'', True), (''star_seller'', True)],
     et_urgency_signals = [(''trending'', ''Trending in Home Organization'')], et_review_count = Some 245, et_review_average = Some (49 / 10), et_observed_at = now\<rparr>,
    \<lparr>et_source_reference = ''https://etsy.com/listing/4002'', et_title = ''Cleaning Schedule Printable - Weekly Chore Checklist'', et_price = Some (299 / 100), et_anchor_price = None,
     et_currency = ''USD'', et_shop_reference = ''TidyHomeDesigns'', et_shop_sales = Some (FAST_SALES + 160), et_shop_opened_on = Some (young_shop_age now + 30 * day_microseconds),
     et_identity_niche = Some ''cleaning schedule'', et_base_category = Some ''Home & Living'', et_badges = [(''bestseller'', False), (''star_seller'', True)],
     et_urgency_signals = [], et_review_count = Some 87, et_review_average = Some (48 / 10), et_observed_at = now\<rparr>,
    \<lparr>et_source_reference = ''https://etsy.com/listing/4003'', et_title = ''Moving Checklist Printable - Complete Relocation Planner'', et_price = Some (499 / 100), et_anchor_price = Some (1099 / 100),
     et_currency = ''USD'', et_shop_reference = ''MoveMasterPrints'', et_shop_sales = Some (FAST_SALES - 90), et_shop_opened_on = Some (young_shop_age now + 70 * day_microseconds),
     et_identity_niche = Some ''moving checklist'', et_base_category = Some ''Home & Living'', et_badges = [(''bestseller'', True), (''star_seller'', False)],
     et_urgency_signals = [(''in_carts'', ''9 people have this in their cart'')], et_review_count = Some 52, et_review_average = Some (47 / 10), et_observed_at = now\<rparr>,
    \<lparr>et_source_reference = ''https://etsy.com/listing/4004'', et_title = ''Freezer Inventory Template - Food Storage Organization Sheet'', et_price = Some (249 / 100), et_anchor_price = None,
     et_currency = ''USD'', et_shop_reference = ''FreezerFriendlyHub'', et_shop_sales = Some (FAST_SALES + 110), et_shop_opened_on = Some (young_shop_age now + 55 * day_microseconds),
     et_identity_niche = Some ''freezer organization'', et_base_category = Some ''Kitchen & Dining'', et_badges = [(''bestseller'', False), (''star_seller'', True)],
     et_urgency_signals = [], et_review_count = Some 64, et_review_average = Some (46 / 10), et_observed_at = now\<rparr>,
    \<lparr>et_source_reference = ''https://etsy.com/listing/4005'', et_title = ''Home Maintenance Checklist - Seasonal Care Schedule'', et_price = Some (399 / 100), et_anchor_price = Some (899 / 100),
     et_currency = ''USD'', et_shop_reference = ''HomeCarePro'', et_shop_sales = Some (FAST_SALES + 200), et_shop_opened_on = Some (young_shop_age now),
     et_identity_niche = Some ''home maintenance'', et_base_category = Some ''Home & Living'', et_badges = [(''bestseller'', True), (''star_seller'', True)],
     et_urgency_signals = [(''bestseller_badge'', ''Top Rated'')], et_review_count = Some 134, et_review_average = Some (48 / 10), et_observed_at = now\<rparr>,
    \<lparr>et_source_reference = ''https://etsy.com/listing/4006'', et_title = ''Spice Rack Labels - Kitchen Cabinet Organization Printable'', et_price = Some (299 / 100), et_anchor_price = None,
     et_currency = ''USD'', et_shop_reference = ''SpiceItUpDesigns'', et_shop_sales = Some (FAST_SALES + 290), et_shop_opened_on = Some (young_shop_age now - 10 * day_microseconds),
     et_identity_niche = Some ''spice organization'', et_base_category = Some ''Kitchen & Dining'', et_badges = [(''bestseller'', False), (''star_seller'', True)],
     et_urgency_signals = [(''in_carts'', ''11 people have this in their cart'')], et_review_count = Some 167, et_review_average = Some (49 / 10), et_observed_at = now\<rparr>,
    \<lparr>et_source_reference = ''https://etsy.com/listing/4007'', et_title = ''Closet Organization Labels - Wardrobe System Printable'', et_price = Some (349 / 100), et_anchor_price = Some (799 / 100),
     et_currency = ''USD'', et_shop_reference = ''StyleAndStorageCo'', et_shop_sales = Some (FAST_SALES + 75), et_shop_opened_on = Some (young_shop_age now + 80 * day_microseconds),
     et_identity_niche = Some ''closet organization'', et_base_category = Some ''Clothing'', et_badges = [(''bestseller'', True), (''star_seller'', False)],
     et_urgency_signals = [], et_review_count = Some 49, et_review_average = Some (47 / 10), et_observed_at = now\<rparr>]"

definition finance_fixtures :: "time \<Rightarrow> listing_search_result list" where
  "finance_fixtures now = [
    \<lparr>et_source_reference = ''https://etsy.com/listing/5001'', et_title = ''Debt Payoff Tracker - Financial Freedom Planner Printable'', et_price = Some (499 / 100), et_anchor_price = Some (1199 / 100),
     et_currency = ''USD'', et_shop_reference = ''DebtFreeJourneyHub'', et_shop_sales = Some (FAST_SALES + 240), et_shop_opened_on = Some (young_shop_age now),
     et_identity_niche = Some ''debt tracker'', et_base_category = Some ''Office & School Supplies'', et_badges = [(''bestseller'', True), (''star_seller'', True)],
     et_urgency_signals = [(''trending'', ''Trending in Finance'')], et_review_count = Some 189, et_review_average = Some (48 / 10), et_observed_at = now\<rparr>,
    \<lparr>et_source_reference = ''https://etsy.com/listing/5002'', et_title = ''Savings Challenge Printable - Money Saving Goal Tracker'', et_price = Some (299 / 100), et_anchor_price = None,
     et_currency = ''USD'', et_shop_reference = ''SaveSmartDesigns'', et_shop_sales = Some (FAST_SALES + 320), et_shop_opened_on = Some (young_shop_age now - 15 * day_microseconds),
     et_identity_niche = Some ''savings tracker'', et_base_category = Some ''Office & School Supplies'', et_badges = [(''bestseller'', False), (''star_seller'', True)],
     et_urgency_signals = [(''in_carts'', ''22+ people have this in their cart'')], et_review_count = Some 203, et_review_average = Some (49 / 10), et_observed_at = now\<rparr>,
    \<lparr>et_source_reference = ''https://etsy.com/listing/5003'', et_title = ''Investment Tracker Spreadsheet - Portfolio Management Template'', et_price = Some (599 / 100), et_anchor_price = Some (1299 / 100),
     et_currency = ''USD'', et_shop_reference = ''WealthBuilderPro'', et_shop_sales = Some (FAST_SALES - 100), et_shop_opened_on = Some (young_shop_age now + 95 * day_microseconds),
     et_identity_niche = Some ''investment tracker'', et_base_category = Some ''Office & School Supplies'', et_badges = [(''bestseller'', True), (''star_seller'', False)],
     et_urgency_signals = [], et_review_count = Some 43, et_review_average = Some (46 / 10), et_observed_at = now\<rparr>,
    \<lparr>et_source_reference = ''https://etsy.com/listing/5004'', et_title = ''Bill Payment Tracker - Monthly Expense Organizer Printable'', et_price = Some (349 / 100), et_anchor_price = None,
     et_currency = ''USD'', et_shop_reference = ''BillBuddyHub'', et_shop_sales = Some (FAST_SALES + 180), et_shop_opened_on = Some (young_shop_age now + 40 * day_microseconds),
     et_identity_niche = Some ''bill tracker'', et_base_category = Some ''Office & School Supplies'', et_badges = [(''bestseller'', False), (''star_seller'', True)],
     et_urgency_signals = [], et_review_count = Some 98, et_review_average = Some (47 / 10), et_observed_at = now\<rparr>,
    \<lparr>et_source_reference = ''https://etsy.com/listing/5005'', et_title = ''Net Worth Tracker Template - Financial Progress Worksheet'', et_price = Some (449 / 100), et_anchor_price = Some (999 / 100),
     et_currency = ''USD'', et_shop_reference = ''NetWorthNinja'', et_shop_sales = Some (FAST_SALES + 95), et_shop_opened_on = Some (young_shop_age now + 60 * day_microseconds),
     et_identity_niche = Some ''net worth tracker'', et_base_category = Some ''Office & School Supplies'', et_badges = [(''bestseller'', True), (''star_seller'', True)],
     et_urgency_signals = [(''limited_time'', ''Weekend sale'')], et_review_count = Some 71, et_review_average = Some (48 / 10), et_observed_at = now\<rparr>,
    \<lparr>et_source_reference = ''https://etsy.com/listing/5006'', et_title = ''Tax Deduction Tracker - Self-Employed Expense Log'', et_price = Some (549 / 100), et_anchor_price = None,
     et_currency = ''USD'', et_shop_reference = ''TaxTimePro'', et_shop_sales = Some (FAST_SALES - 120), et_shop_opened_on = Some (young_shop_age now + 100 * day_microseconds),
     et_identity_niche = Some ''tax tracker'', et_base_category = Some ''Office & School Supplies'', et_badges = [(''bestseller'', False), (''star_seller'', False)],
     et_urgency_signals = [], et_review_count = Some 36, et_review_average = Some (45 / 10), et_observed_at = now\<rparr>,
    \<lparr>et_source_reference = ''https://etsy.com/listing/5007'', et_title = ''Emergency Fund Tracker - Financial Safety Net Planner'', et_price = Some (399 / 100), et_anchor_price = Some (899 / 100),
     et_currency = ''USD'', et_shop_reference = ''SecureSavingsHub'', et_shop_sales = Some (FAST_SALES + 210), et_shop_opened_on = Some (young_shop_age now + 25 * day_microseconds),
     et_identity_niche = Some ''emergency fund'', et_base_category = Some ''Office & School Supplies'', et_badges = [(''bestseller'', True), (''star_seller'', True)],
     et_urgency_signals = [(''in_carts'', ''16 people have this in their cart'')], et_review_count = Some 142, et_review_average = Some (49 / 10), et_observed_at = now\<rparr>]"

definition build_fixture_data :: "time \<Rightarrow> listing_search_result list" where
  "build_fixture_data now = planner_fixtures now @ teacher_fixtures now @ wellness_fixtures now @ home_fixtures now @ finance_fixtures now"

subsection \<open>Search\<close>

text \<open>A slice \<^verbatim>\<open>xs[:n]\<close>.\<close>

definition slice_to :: "int \<Rightarrow> 'a list \<Rightarrow> 'a list" where
  "slice_to n xs = (if 0 \<le> n then take (nat n) xs else take (length xs - nat (- n)) xs)"

definition word_set :: "string \<Rightarrow> string list" where
  "word_set s = split_words (lower_str s)"

definition shares_word :: "string list \<Rightarrow> listing_search_result \<Rightarrow> bool" where
  "shares_word query_words fixture \<longleftrightarrow>
     (let title_words = word_set (et_title fixture);
          niche_words = word_set (case et_identity_niche fixture of None \<Rightarrow> [] | Some n \<Rightarrow> n) in
      list_ex (\<lambda>w. w \<in> set query_words) (title_words @ niche_words))"

definition search_listings :: "listing_search_result list \<Rightarrow> string \<Rightarrow> int \<Rightarrow> listing_search_result list" where
  "search_listings fixtures query max_results =
     (let query_lower = py_strip (lower_str query) in
      if query_lower = [] then slice_to max_results fixtures
      else slice_to max_results (filter (shares_word (split_words query_lower)) fixtures))"

lemma is_space_code [code]: "is_space (Char b0 b1 b2 b3 b4 b5 b6 b7) =
  (\<not> b6 \<and> (if b5 then \<not> b4 \<and> \<not> b3 \<and> \<not> b2 \<and> \<not> b1 \<and> \<not> b0
     else if b7 then \<not> b4 \<and> \<not> b3 \<and> b2 \<and> \<not> b1 \<and> b0
     else if b4 then b3 \<and> b2 else b3 \<and> (if b2 then \<not> b1 else b1 \<or> b0)))"
  by (cases b0; cases b1; cases b2; cases b3; cases b4; cases b5; cases b6; cases b7;
      simp add: is_space_def is_space_point_def)

lemma set_slice_to: "set (slice_to n xs) \<subseteq> set xs"
  by (simp add: slice_to_def set_take_subset)

lemma distinct_slice_to: "distinct (map f xs) \<Longrightarrow> distinct (map f (slice_to n xs))"
  by (simp add: slice_to_def flip: take_map)

lemma search_subset: "set (search_listings fixtures query n) \<subseteq> set fixtures"
  unfolding search_listings_def Let_def
  by (auto dest!: set_slice_to [THEN subsetD] split: if_splits)

lemma fixture_count: "length (build_fixture_data now) = 40"
  by (simp add: build_fixture_data_def planner_fixtures_def teacher_fixtures_def wellness_fixtures_def home_fixtures_def finance_fixtures_def)

lemma fixture_references: "distinct (map et_source_reference (build_fixture_data now))"
  by (simp add: build_fixture_data_def planner_fixtures_def teacher_fixtures_def wellness_fixtures_def home_fixtures_def finance_fixtures_def)

end
