(* ===== verification/Market_Research.thy ===== *)
theory Market_Research
  imports Etsy_Fixtures Effect_Steps "HOL-Library.Multiset"
begin

section \<open>Market research\<close>

text \<open>
  \<^verbatim>\<open>domain/models/research.py\<close> and \<^verbatim>\<open>agents/implementations/market_research.py\<close> (A03) with the four
  tables it writes. A run commits three times: the run itself, the observations, the shortlist; what
  was committed stays when a later step raises. The adapter is its search function and whether it
  is the fixture adapter; the clock at each reading and the identifiers of the rows are arguments. A price is
  an exact rational; the widths of the columns are left out.
\<close>

subsection \<open>Contracts and rows\<close>

record listing_facts =
  fa_shop_reference :: string
  fa_badges :: "(string \<times> bool) list"
  fa_urgency_signals :: "(string \<times> string) list"
  fa_review_count :: "int option"
  fa_review_average :: "rat option"

record listing_observation =
  lo_source_reference :: string
  lo_title :: string
  lo_price :: "rat option"
  lo_anchor_price :: "rat option"
  lo_currency :: string
  lo_identity_niche :: "string option"
  lo_base_category :: "string option"
  lo_facts :: listing_facts
  lo_observed_at :: time

record shop_observation =
  so_source_reference :: string
  so_shop_reference :: string
  so_shop_sales :: "int option"
  so_shop_opened_on :: "time option"
  so_badges :: "(string \<times> bool) list"
  so_observed_at :: time

record candidate_profile =
  cp_identity :: string
  cp_base_category :: string
  cp_price_range :: "rat \<times> rat"
  cp_observation_count :: nat
  cp_shop_count :: nat
  cp_young_fast_shop_count :: nat
  cp_risk_notes :: string

record shortlist_analysis =
  sl_research_run_id :: uuid
  sl_workflow_id :: uuid
  sl_candidates :: "candidate_profile list"
  sl_total_niches_found :: nat
  sl_total_categories_found :: nat
  sl_analyzed_at :: time

record market_research_report =
  rp_research_run_id :: uuid
  rp_workflow_id :: uuid
  rp_job_id :: uuid
  rp_source_policy_version :: string
  rp_query_terms :: "string list"
  rp_observation_count :: nat
  rp_listing_count :: nat
  rp_shop_count :: nat
  rp_listing_observations :: "listing_observation list"
  rp_shop_observations :: "shop_observation list"
  rp_shortlist :: shortlist_analysis
  rp_completed_at :: time

record research_run =
  rr_id :: uuid
  rr_workflow_id :: uuid
  rr_job_id :: uuid
  rr_source_policy_version :: string
  rr_query_terms :: "string list"
  rr_observation_count :: nat
  rr_completed_at :: "time option"
  rr_created_at :: time

record product_candidate =
  pc_workflow_id :: uuid
  pc_research_run_id :: uuid
  pc_identity :: string
  pc_base_category :: string
  pc_impulse_priced_score :: "int option"
  pc_tangible_score :: "int option"
  pc_honest_promise_score :: "int option"
  pc_trendy_but_tricky_score :: "int option"
  pc_total_score :: "int option"
  pc_maximum_score :: "int option"
  pc_selection :: "string option"
  pc_created_at :: time

record research_db =
  rd_runs :: "research_run list"
  rd_listings :: "(uuid \<times> listing_observation) list"
  rd_shops :: "(uuid \<times> shop_observation) list"
  rd_candidates :: "product_candidate list"

datatype research_error =
    Config_missing
  | Config_invalid
  | No_seed_phrases
  | Adapter_not_commissioned
  | Bad_target int
  | Too_few nat
  | Too_many nat
  | Unique_violation

subsection \<open>Configuration\<close>

text \<open>The keys of the \<^verbatim>\<open>research\<close> section; an absent key has the default that the code gives it.\<close>

record research_config =
  rc_seed_phrases :: "string list option"
  rc_target_observation_count :: "int option"
  rc_max_results_per_query :: "int option"
  rc_young_shop_age_days :: "int option"
  rc_fast_shop_sales_threshold :: "int option"
  rc_shortlist_size :: "int option"
  rc_source_policy_version :: "string option"

definition get_or :: "'a option \<Rightarrow> 'a \<Rightarrow> 'a" where
  "get_or v d = (case v of None \<Rightarrow> d | Some x \<Rightarrow> x)"

text \<open>The document a file holds, when it exists, and its \<^verbatim>\<open>research\<close> section, when it has one.\<close>

definition load_config :: "research_config option option \<Rightarrow> research_error + research_config" where
  "load_config file = (case file of
     None \<Rightarrow> Inl Config_missing
   | Some None \<Rightarrow> Inl Config_invalid
   | Some (Some config) \<Rightarrow> Inr config)"

definition validate_seed_phrases :: "research_config \<Rightarrow> research_error + string list" where
  "validate_seed_phrases config = (let phrases = get_or (rc_seed_phrases config) [] in
     if phrases = [] then Inl No_seed_phrases else Inr phrases)"

subsection \<open>Collecting observations\<close>

type_synonym searcher = "string \<Rightarrow> int \<Rightarrow> (unit + listing_search_result list)"

fun add_unseen :: "listing_search_result list \<Rightarrow> listing_search_result list \<Rightarrow> listing_search_result list" where
  "add_unseen collected [] = collected"
| "add_unseen collected (r # results) =
    (if et_source_reference r \<in> et_source_reference ` set collected then add_unseen collected results
     else add_unseen (collected @ [r]) results)"

text \<open>A search that raises is skipped; the loop stops once the target is reached.\<close>

fun collect :: "searcher \<Rightarrow> int \<Rightarrow> int \<Rightarrow> string list \<Rightarrow> listing_search_result list \<Rightarrow> listing_search_result list" where
  "collect look max_per_query target [] collected = collected"
| "collect look max_per_query target (phrase # phrases) collected = (case look phrase max_per_query of
     Inl e \<Rightarrow> collect look max_per_query target phrases collected
   | Inr results \<Rightarrow> (let now = add_unseen collected results in
       if target \<le> int (length now) then now else collect look max_per_query target phrases now))"

definition observe_listing :: "listing_search_result \<Rightarrow> listing_observation" where
  "observe_listing r = \<lparr>lo_source_reference = et_source_reference r, lo_title = et_title r, lo_price = et_price r,
     lo_anchor_price = et_anchor_price r, lo_currency = et_currency r, lo_identity_niche = et_identity_niche r,
     lo_base_category = et_base_category r,
     lo_facts = \<lparr>fa_shop_reference = et_shop_reference r, fa_badges = et_badges r, fa_urgency_signals = et_urgency_signals r,
       fa_review_count = et_review_count r,
       fa_review_average = (if et_review_average r = Some 0 then None else et_review_average r)\<rparr>,
     lo_observed_at = et_observed_at r\<rparr>"

definition observe_shop :: "listing_search_result \<Rightarrow> shop_observation" where
  "observe_shop r = \<lparr>so_source_reference = et_source_reference r, so_shop_reference = et_shop_reference r,
     so_shop_sales = et_shop_sales r, so_shop_opened_on = et_shop_opened_on r, so_badges = et_badges r,
     so_observed_at = et_observed_at r\<rparr>"

fun observe_shops :: "string list \<Rightarrow> listing_search_result list \<Rightarrow> shop_observation list" where
  "observe_shops seen [] = []"
| "observe_shops seen (r # results) =
    (if et_shop_reference r \<in> set seen then observe_shops seen results
     else observe_shop r # observe_shops (seen @ [et_shop_reference r]) results)"

subsection \<open>Shortlist\<close>

type_synonym groups = "((string \<times> string) \<times> listing_observation list) list"

fun add_to_group :: "string \<times> string \<Rightarrow> listing_observation \<Rightarrow> groups \<Rightarrow> groups" where
  "add_to_group key obs [] = [(key, [obs])]"
| "add_to_group key obs ((k, os) # rest) =
    (if k = key then (k, os @ [obs]) # rest else (k, os) # add_to_group key obs rest)"

definition niche_key :: "listing_observation \<Rightarrow> (string \<times> string) option" where
  "niche_key obs = (case (lo_identity_niche obs, lo_base_category obs) of
     (Some n, Some c) \<Rightarrow> if n \<noteq> [] \<and> c \<noteq> [] then Some (n, c) else None
   | _ \<Rightarrow> None)"

definition group_observations :: "listing_observation list \<Rightarrow> groups" where
  "group_observations observations =
     fold (\<lambda>obs groups. case niche_key obs of None \<Rightarrow> groups | Some key \<Rightarrow> add_to_group key obs groups) observations []"

definition young_fast :: "time \<Rightarrow> int \<Rightarrow> shop_observation \<Rightarrow> bool" where
  "young_fast cutoff threshold shop \<longleftrightarrow>
     (case so_shop_opened_on shop of None \<Rightarrow> False | Some opened \<Rightarrow> cutoff \<le> opened) \<and>
     (case so_shop_sales shop of None \<Rightarrow> False | Some sales \<Rightarrow> sales \<noteq> 0 \<and> threshold \<le> sales)"

definition risk_notes_of :: "nat \<Rightarrow> rat \<Rightarrow> nat \<Rightarrow> string list" where
  "risk_notes_of young_fast_count highest observations =
     (if young_fast_count = 0 then [''No young-and-fast shops observed''] else []) @
     (if 15 < highest then [''High price point may reduce impulse purchases''] else []) @
     (if observations < 5 then [''Limited market evidence (< 5 observations)''] else [])"

definition risk_note_of :: "string list \<Rightarrow> string" where
  "risk_note_of notes = (if notes = [] then ''No significant risks identified'' else join_with ''; '' notes)"

text \<open>\<^verbatim>\<open>{shop.shop_reference: shop}\<close>: a later observation of a shop replaces an earlier one.\<close>

definition shop_lookup :: "shop_observation list \<Rightarrow> string \<Rightarrow> shop_observation option" where
  "shop_lookup shops ref = map_of (rev (map (\<lambda>s. (so_shop_reference s, s)) shops)) ref"

definition score_group ::
    "shop_observation list \<Rightarrow> time \<Rightarrow> int \<Rightarrow> (string \<times> string) \<times> listing_observation list \<Rightarrow> (candidate_profile \<times> nat) option" where
  "score_group shop_observations cutoff threshold niche = (case niche of ((identity, category), observations) \<Rightarrow>
     (case List.map_filter lo_price observations of
       [] \<Rightarrow> None
     | p # prices \<Rightarrow>
        (let lowest = fold min prices p; highest = fold max prices p;
             shop_refs = remdups (map (\<lambda>obs. fa_shop_reference (lo_facts obs)) observations);
             shops = List.map_filter (shop_lookup shop_observations) shop_refs;
             young_fast_count = length (filter (young_fast cutoff threshold) shops) in
         Some (\<lparr>cp_identity = identity, cp_base_category = category, cp_price_range = (lowest, highest),
           cp_observation_count = length observations, cp_shop_count = length shops,
           cp_young_fast_shop_count = young_fast_count,
           cp_risk_notes = risk_note_of (risk_notes_of young_fast_count highest (length observations))\<rparr>,
           length observations + young_fast_count * 2))))"

text \<open>\<^verbatim>\<open>list.sort(key, reverse=True)\<close> is stable.\<close>

definition rank_candidates :: "(candidate_profile \<times> nat) list \<Rightarrow> (candidate_profile \<times> nat) list" where
  "rank_candidates scores = sort_key (\<lambda>(c, score). - int score) scores"

definition shortlist_of ::
    "research_config \<Rightarrow> time \<Rightarrow> listing_observation list \<Rightarrow> shop_observation list \<Rightarrow> candidate_profile list" where
  "shortlist_of config now listings shops =
     (let cutoff = now - get_or (rc_young_shop_age_days config) 365 * day_microseconds;
          threshold = get_or (rc_fast_shop_sales_threshold config) 400;
          scores = List.map_filter (score_group shops cutoff threshold) (group_observations listings) in
      map fst (slice_to (get_or (rc_shortlist_size config) 5) (rank_candidates scores)))"

definition candidate_row :: "uuid \<Rightarrow> uuid \<Rightarrow> time \<Rightarrow> candidate_profile \<Rightarrow> product_candidate" where
  "candidate_row workflow_id run_id now c = \<lparr>pc_workflow_id = workflow_id, pc_research_run_id = run_id,
     pc_identity = cp_identity c, pc_base_category = cp_base_category c, pc_impulse_priced_score = None,
     pc_tangible_score = None, pc_honest_promise_score = None, pc_trendy_but_tricky_score = None,
     pc_total_score = None, pc_maximum_score = None, pc_selection = None, pc_created_at = now\<rparr>"

definition candidate_rows :: "uuid \<Rightarrow> uuid \<Rightarrow> (nat \<Rightarrow> time) \<Rightarrow> candidate_profile list \<Rightarrow> product_candidate list" where
  "candidate_rows workflow_id run_id created cs =
     map (\<lambda>(n, c). candidate_row workflow_id run_id (created n) c) (enumerate 0 cs)"

text \<open>The primary key of a run and the unique constraints of the tables, checked when a transaction commits.\<close>

definition unique_rows :: "research_db \<Rightarrow> bool" where
  "unique_rows d \<longleftrightarrow> distinct (map rr_id (rd_runs d)) \<and>
     distinct (map (\<lambda>(run, o'). (run, lo_source_reference o')) (rd_listings d)) \<and>
     distinct (map (\<lambda>(run, o'). (run, so_source_reference o')) (rd_shops d)) \<and>
     distinct (map (\<lambda>c. (pc_workflow_id c, pc_identity c, pc_base_category c)) (rd_candidates d))"

definition commit :: "(research_db \<Rightarrow> research_db) \<Rightarrow> (research_error, unit, research_db) step" where
  "commit change d = (if unique_rows (change d) then (Inr (), change d) else (Inl Unique_violation, d))"

text \<open>The clock is read for the age of the shops, for every candidate row, and for the analysis.\<close>

record shortlist_clock =
  sc_cutoff :: time
  sc_created :: "nat \<Rightarrow> time"
  sc_analyzed :: time

definition generate_shortlist ::
    "research_config \<Rightarrow> shortlist_clock \<Rightarrow> uuid \<Rightarrow> uuid \<Rightarrow> listing_observation list \<Rightarrow> shop_observation list \<Rightarrow>
     (research_error, shortlist_analysis, research_db) step" where
  "generate_shortlist config clock run_id workflow_id listings shops =
     (let candidates = shortlist_of config (sc_cutoff clock) listings shops; groups = map fst (group_observations listings) in
      bindS (commit (\<lambda>d. d\<lparr>rd_candidates := rd_candidates d @ candidate_rows workflow_id run_id (sc_created clock) candidates\<rparr>)) (\<lambda>_.
      returnS \<lparr>sl_research_run_id = run_id, sl_workflow_id = workflow_id, sl_candidates = candidates,
        sl_total_niches_found = length (remdups (map fst groups)),
        sl_total_categories_found = length (remdups (map snd groups)), sl_analyzed_at = sc_analyzed clock\<rparr>))"

subsection \<open>The agent\<close>

definition new_run :: "research_config \<Rightarrow> uuid \<Rightarrow> uuid \<Rightarrow> uuid \<Rightarrow> string list \<Rightarrow> time \<Rightarrow> research_run" where
  "new_run config run_id workflow_id job_id phrases now = \<lparr>rr_id = run_id, rr_workflow_id = workflow_id, rr_job_id = job_id,
     rr_source_policy_version = get_or (rc_source_policy_version config) ''v1.0'', rr_query_terms = phrases,
     rr_observation_count = 0, rr_completed_at = None, rr_created_at = now\<rparr>"

definition complete_run :: "uuid \<Rightarrow> nat \<Rightarrow> time \<Rightarrow> research_run \<Rightarrow> research_run" where
  "complete_run run_id n now r = (if rr_id r = run_id then r\<lparr>rr_observation_count := n, rr_completed_at := Some now\<rparr> else r)"

definition persist_observations ::
    "uuid \<Rightarrow> time \<Rightarrow> listing_observation list \<Rightarrow> shop_observation list \<Rightarrow> (research_error, unit, research_db) step" where
  "persist_observations run_id now listings shops =
     commit (\<lambda>d. d\<lparr>rd_listings := rd_listings d @ map (Pair run_id) listings,
       rd_shops := rd_shops d @ map (Pair run_id) shops,
       rd_runs := map (complete_run run_id (length listings) now) (rd_runs d)\<rparr>)"

definition market_research ::
    "bool \<Rightarrow> searcher \<Rightarrow> research_config \<Rightarrow> uuid \<Rightarrow> uuid \<Rightarrow> uuid \<Rightarrow> time \<Rightarrow> time \<Rightarrow> shortlist_clock \<Rightarrow>
     (research_error, market_research_report, research_db) step" where
  "market_research is_fixture look config run_id workflow_id job_id started completed clock =
    (if \<not> is_fixture then raiseS Adapter_not_commissioned
     else bindS (liftS (validate_seed_phrases config)) (\<lambda>phrases.
       let target = get_or (rc_target_observation_count config) 30 in
       if \<not> (25 \<le> target \<and> target \<le> 40) then raiseS (Bad_target target)
       else bindS (commit (\<lambda>d. d\<lparr>rd_runs := rd_runs d @ [new_run config run_id workflow_id job_id phrases started]\<rparr>)) (\<lambda>_.
         let results = collect look (get_or (rc_max_results_per_query config) 50) target phrases [] in
         if length results < 25 then raiseS (Too_few (length results))
         else if 40 < length results then raiseS (Too_many (length results))
         else let listings = map observe_listing results; shops = observe_shops [] results in
           bindS (persist_observations run_id completed listings shops) (\<lambda>_.
           bindS (generate_shortlist config clock run_id workflow_id listings shops) (\<lambda>shortlist.
           returnS \<lparr>rp_research_run_id = run_id, rp_workflow_id = workflow_id, rp_job_id = job_id,
             rp_source_policy_version = get_or (rc_source_policy_version config) ''v1.0'', rp_query_terms = phrases,
             rp_observation_count = length listings, rp_listing_count = length listings, rp_shop_count = length shops,
             rp_listing_observations = listings, rp_shop_observations = shops, rp_shortlist = shortlist,
             rp_completed_at = completed\<rparr>)))))"


subsection \<open>Grouping and scoring\<close>

definition of_niche :: "string \<times> string \<Rightarrow> listing_observation list \<Rightarrow> listing_observation list" where
  "of_niche key listings = filter (\<lambda>o'. niche_key o' = Some key) listings"

lemma add_to_group_map: "map_of (add_to_group key obs g) =
    (map_of g)(key \<mapsto> (case map_of g key of None \<Rightarrow> [obs] | Some os \<Rightarrow> os @ [obs]))"
  by (induction key obs g rule: add_to_group.induct) (auto simp: fun_eq_iff)

lemma add_to_group_keys: "set (map fst (add_to_group key obs g)) = insert key (set (map fst g))"
  by (induction key obs g rule: add_to_group.induct) auto

lemma add_to_group_distinct: "distinct (map fst g) \<Longrightarrow> distinct (map fst (add_to_group key obs g))"
  using add_to_group_keys by (induction key obs g rule: add_to_group.induct) (auto simp flip: set_map)

lemma group_observations_snoc: "group_observations (os @ [obs]) =
    (case niche_key obs of None \<Rightarrow> group_observations os | Some key \<Rightarrow> add_to_group key obs (group_observations os))"
  by (cases "niche_key obs") (simp_all add: group_observations_def)

lemma group_observations_exact:
  "distinct (map fst (group_observations os)) \<and>
   (\<forall>key. map_of (group_observations os) key = (if of_niche key os = [] then None else Some (of_niche key os)))"
proof (induction os rule: rev_induct)
  case Nil
  then show ?case by (simp add: group_observations_def of_niche_def)
next
  case (snoc obs os)
  then show ?case
    by (cases "niche_key obs") (auto simp: group_observations_snoc add_to_group_distinct add_to_group_map of_niche_def)
qed

lemma in_groups: "(key, os) \<in> set (group_observations listings) \<longleftrightarrow> os = of_niche key listings \<and> os \<noteq> []"
proof -
  note e = group_observations_exact [of listings]
  have "(key, os) \<in> set (group_observations listings) \<longleftrightarrow> map_of (group_observations listings) key = Some os"
    using e by simp
  then show ?thesis using e by auto
qed

text \<open>What a profile has to say of its niche.\<close>

definition niche_shops :: "shop_observation list \<Rightarrow> listing_observation list \<Rightarrow> shop_observation set" where
  "niche_shops shops os = {s. \<exists>o' \<in> set os. shop_lookup shops (fa_shop_reference (lo_facts o')) = Some s}"

definition priced :: "string \<times> string \<Rightarrow> listing_observation list \<Rightarrow> bool" where
  "priced key listings \<longleftrightarrow> (\<exists>o' \<in> set (of_niche key listings). lo_price o' \<noteq> None)"

definition niche_prices :: "string \<times> string \<Rightarrow> listing_observation list \<Rightarrow> rat set" where
  "niche_prices key listings = {p. \<exists>o' \<in> set (of_niche key listings). lo_price o' = Some p}"

definition niche_score :: "time \<Rightarrow> int \<Rightarrow> shop_observation list \<Rightarrow> listing_observation list \<Rightarrow> string \<times> string \<Rightarrow> nat" where
  "niche_score cutoff threshold shops listings key = length (of_niche key listings) +
     2 * card {s \<in> niche_shops shops (of_niche key listings). young_fast cutoff threshold s}"

definition describes :: "time \<Rightarrow> int \<Rightarrow> shop_observation list \<Rightarrow> listing_observation list \<Rightarrow> candidate_profile \<Rightarrow> bool" where
  "describes cutoff threshold shops listings c \<longleftrightarrow> (let key = (cp_identity c, cp_base_category c) in
     priced key listings \<and>
     cp_price_range c = (Min (niche_prices key listings), Max (niche_prices key listings)) \<and>
     cp_observation_count c = length (of_niche key listings) \<and>
     cp_shop_count c = card (niche_shops shops (of_niche key listings)) \<and>
     cp_young_fast_shop_count c = card {s \<in> niche_shops shops (of_niche key listings). young_fast cutoff threshold s} \<and>
     cp_risk_notes c = risk_note_of (risk_notes_of (cp_young_fast_shop_count c) (Max (niche_prices key listings))
       (cp_observation_count c)))"

lemma shop_lookup_reference: "shop_lookup shops ref = Some s \<Longrightarrow> so_shop_reference s = ref"
  by (auto simp: shop_lookup_def dest!: map_of_SomeD)

lemma lookup_shops:
  assumes "R = remdups (map (\<lambda>obs. fa_shop_reference (lo_facts obs)) os)"
  shows "distinct (List.map_filter (shop_lookup shops) R) \<and> set (List.map_filter (shop_lookup shops) R) = niche_shops shops os"
proof
  have "distinct R \<Longrightarrow> distinct (List.map_filter (shop_lookup shops) R)" for R
  proof (induction R)
    case (Cons r R)
    have "s \<notin> set (List.map_filter (shop_lookup shops) R)" if "shop_lookup shops r = Some s" for s
    proof
      assume "s \<in> set (List.map_filter (shop_lookup shops) R)"
      then obtain q where "q \<in> set R" "shop_lookup shops q = Some s" by (auto simp: map_filter_def)
      then have "q = r" using that shop_lookup_reference by metis
      then show False using \<open>q \<in> set R\<close> Cons.prems by simp
    qed
    with Cons show ?case by (simp add: map_filter_simps split: option.split)
  qed (simp add: map_filter_simps)
  then show "distinct (List.map_filter (shop_lookup shops) R)" using assms by simp
  show "set (List.map_filter (shop_lookup shops) R) = niche_shops shops os"
    by (auto simp: assms niche_shops_def map_filter_def image_iff) (metis option.sel option.distinct(1))+
qed

lemma fold_min_max: "fold min ps p = Min (insert p (set ps))" "fold max ps p = Max (insert p (set ps))" for p :: rat
  by (simp_all flip: Min.set_eq_fold Max.set_eq_fold)

lemma score_group_exact:
  assumes "os = of_niche key listings" and "score_group shops cutoff threshold (key, os) = Some (c, score)"
  shows "(cp_identity c, cp_base_category c) = key \<and> describes cutoff threshold shops listings c \<and>
    score = niche_score cutoff threshold shops listings key"
proof -
  obtain identity category where key: "key = (identity, category)" by (cases key)
  let ?shops = "List.map_filter (shop_lookup shops) (remdups (map (\<lambda>obs. fa_shop_reference (lo_facts obs)) os))"
  have shops: "distinct ?shops" "set ?shops = niche_shops shops os" using lookup_shops [OF refl] by blast+
  have count: "length ?shops = card (niche_shops shops os)"
    "length (filter P ?shops) = card {s \<in> niche_shops shops os. P s}" for P
    using shops distinct_card [of ?shops] distinct_card [of "filter P ?shops"] by auto
  obtain p ps where ps: "List.map_filter lo_price os = p # ps"
    using assms(2) by (cases "List.map_filter lo_price os") (auto simp: score_group_def key)
  have "niche_prices key listings = set (List.map_filter lo_price os)"
    unfolding assms(1) by (auto simp: niche_prices_def map_filter_def image_iff) force
  then have prices: "niche_prices key listings = insert p (set ps)" by (simp add: ps)
  then have "p \<in> niche_prices key listings" by simp
  then have "priced key listings" by (auto simp: niche_prices_def priced_def)
  then show ?thesis using assms ps prices
    by (auto simp: score_group_def key Let_def describes_def fold_min_max count [unfolded assms(1) key] niche_score_def)
qed

lemma score_group_None: "score_group shops cutoff threshold (key, of_niche key listings) = None \<longleftrightarrow> \<not> priced key listings"
proof -
  have "List.map_filter lo_price (of_niche key listings) = [] \<longleftrightarrow> \<not> priced key listings"
    by (auto simp: map_filter_def filter_empty_conv priced_def)
  then show ?thesis by (cases key) (auto simp: score_group_def Let_def split: list.split)
qed


subsection \<open>The shortlist takes the best\<close>

definition niche_of :: "candidate_profile \<Rightarrow> string \<times> string" where
  "niche_of c = (cp_identity c, cp_base_category c)"

definition group_scores :: "time \<Rightarrow> int \<Rightarrow> shop_observation list \<Rightarrow> listing_observation list \<Rightarrow> (candidate_profile \<times> nat) list" where
  "group_scores cutoff threshold shops listings =
     List.map_filter (score_group shops cutoff threshold) (group_observations listings)"

lemma group_scores_sound:
  assumes "(c, score) \<in> set (group_scores cutoff threshold shops listings)"
  shows "describes cutoff threshold shops listings c \<and> score = niche_score cutoff threshold shops listings (niche_of c)"
proof -
  from assms obtain key os where g: "(key, os) \<in> set (group_observations listings)"
    "score_group shops cutoff threshold (key, os) = Some (c, score)"
    by (auto simp: group_scores_def map_filter_def)
  then show ?thesis using score_group_exact [of os key listings shops cutoff threshold c score] in_groups
    by (auto simp: niche_of_def)
qed

lemma group_scores_complete:
  assumes "priced key listings"
  shows "\<exists>c. (c, niche_score cutoff threshold shops listings key) \<in> set (group_scores cutoff threshold shops listings) \<and> niche_of c = key"
proof -
  have "of_niche key listings \<noteq> []" using assms by (auto simp: priced_def)
  then have g: "(key, of_niche key listings) \<in> set (group_observations listings)" by (simp add: in_groups)
  obtain c score where c: "score_group shops cutoff threshold (key, of_niche key listings) = Some (c, score)"
    using score_group_None [of shops cutoff threshold key listings] assms by auto
  from score_group_exact [OF refl c] have "niche_of c = key" "score = niche_score cutoff threshold shops listings key"
    by (simp_all add: niche_of_def)
  then show ?thesis using g c by (force simp: group_scores_def map_filter_def)
qed

lemma group_scores_distinct: "distinct (map (niche_of \<circ> fst) (group_scores cutoff threshold shops listings))"
proof -
  have sub: "distinct (map (niche_of \<circ> fst) (List.map_filter (score_group shops cutoff threshold) g)) \<and>
      set (map (niche_of \<circ> fst) (List.map_filter (score_group shops cutoff threshold) g)) \<subseteq> set (map fst g)"
    if "distinct (map fst g)" "\<forall>(key, os) \<in> set g. os = of_niche key listings" for g
    using that
  proof (induction g)
    case (Cons x g)
    obtain key os where x: "x = (key, os)" by (cases x)
    have "niche_of c = key" if "score_group shops cutoff threshold x = Some (c, score)" for c score
      using score_group_exact [of os key listings shops cutoff threshold c score] that Cons.prems(2) x
      by (simp add: niche_of_def)
    then show ?case using Cons x by (auto simp: map_filter_simps split: option.split)
  qed (simp add: map_filter_simps)
  then show ?thesis using group_observations_exact [of listings] in_groups
    unfolding group_scores_def by (metis (mono_tags, lifting) case_prodI2)
qed

lemma ranked: "set (rank_candidates xs) = set xs" "length (rank_candidates xs) = length xs"
  "distinct (map f xs) \<Longrightarrow> distinct (map f (rank_candidates xs))" "sorted_wrt (\<lambda>a b. snd b \<le> snd a) (rank_candidates xs)"
proof -
  show "set (rank_candidates xs) = set xs" "length (rank_candidates xs) = length xs" by (simp_all add: rank_candidates_def)
  have "mset (map f (rank_candidates xs)) = mset (map f xs)" unfolding rank_candidates_def mset_map mset_sort ..
  then show "distinct (map f xs) \<Longrightarrow> distinct (map f (rank_candidates xs))" by (metis mset_eq_imp_distinct_iff)
  have "sorted (map (\<lambda>(c, score). - int score) (rank_candidates xs))" by (simp add: rank_candidates_def)
  then show "sorted_wrt (\<lambda>a b. snd b \<le> snd a) (rank_candidates xs)" by (simp add: sorted_map case_prod_beta)
qed

lemma slice_best:
  assumes "sorted_wrt (\<lambda>a b. snd b \<le> snd a) xs" and "a \<in> set (slice_to n xs)" and "b \<in> set xs - set (slice_to n xs)"
  shows "snd b \<le> (snd a :: nat)"
proof -
  obtain k where k: "slice_to n xs = take k xs" by (metis slice_to_def)
  then have "b \<in> set (drop k xs)" using assms(3) by (metis Diff_iff Un_iff append_take_drop_id set_append)
  moreover have "sorted_wrt (\<lambda>a b. snd b \<le> snd a) (take k xs @ drop k xs)" using assms(1) by simp
  ultimately show ?thesis using assms(2) k unfolding sorted_wrt_append by auto
qed


lemma group_scores_count: "length (group_scores cutoff threshold shops listings) = card {key. priced key listings}"
proof -
  let ?xs = "group_scores cutoff threshold shops listings"
  have "niche_of ` fst ` set ?xs = {key. priced key listings}"
  proof (intro equalityI subsetI)
    fix key
    assume "key \<in> niche_of ` fst ` set ?xs"
    then obtain c score where "(c, score) \<in> set ?xs" "key = niche_of c" by auto
    then show "key \<in> {key. priced key listings}"
      using group_scores_sound [of c score] by (auto simp: describes_def niche_of_def Let_def)
  next
    fix key
    assume "key \<in> {key. priced key listings}"
    then obtain c where c: "(c, niche_score cutoff threshold shops listings key) \<in> set ?xs" "niche_of c = key"
      using group_scores_complete [of key listings cutoff threshold shops] by auto
    show "key \<in> niche_of ` fst ` set ?xs" using imageI [OF imageI [OF c(1)], of niche_of fst] c(2) by simp
  qed
  then show ?thesis using distinct_card [OF group_scores_distinct [of cutoff threshold shops listings]]
    by (simp add: image_comp)
qed

text \<open>The length of a Python slice that stops at \<open>n\<close>.\<close>

definition slice_length :: "int \<Rightarrow> nat \<Rightarrow> nat" where
  "slice_length n len = (if 0 \<le> n then min (nat n) len else len - nat (- n))"

lemma length_slice_to: "length (slice_to n xs) = slice_length n (length xs)"
  by (simp add: slice_to_def slice_length_def min.commute)

lemma shortlist_exact:
  assumes "cutoff = now - get_or (rc_young_shop_age_days config) 365 * day_microseconds"
    and "threshold = get_or (rc_fast_shop_sales_threshold config) 400" and "cs = shortlist_of config now listings shops"
  shows "\<forall>c \<in> set cs. describes cutoff threshold shops listings c"
    and "distinct (map niche_of cs)"
    and "sorted_wrt (\<lambda>a b. niche_score cutoff threshold shops listings (niche_of b) \<le> niche_score cutoff threshold shops listings (niche_of a)) cs"
    and "\<forall>key. priced key listings \<and> key \<notin> niche_of ` set cs \<longrightarrow>
      (\<forall>c \<in> set cs. niche_score cutoff threshold shops listings key \<le> niche_score cutoff threshold shops listings (niche_of c))"
    and "length cs = slice_length (get_or (rc_shortlist_size config) 5) (card {key. priced key listings})"
proof -
  let ?score = "niche_score cutoff threshold shops listings"
  let ?xs = "rank_candidates (group_scores cutoff threshold shops listings)"
  let ?best = "slice_to (get_or (rc_shortlist_size config) 5) ?xs"
  have cs: "cs = map fst ?best" using assms by (simp add: shortlist_of_def Let_def group_scores_def)
  have sub: "set ?best \<subseteq> set (group_scores cutoff threshold shops listings)" using set_slice_to ranked(1) by metis
  then have score: "s = ?score (niche_of c)" if "(c, s) \<in> set ?best" for c s using that group_scores_sound by blast
  show "length cs = slice_length (get_or (rc_shortlist_size config) 5) (card {key. priced key listings})"
    by (simp add: cs length_slice_to ranked(2) group_scores_count)
  show "\<forall>c \<in> set cs. describes cutoff threshold shops listings c" using sub group_scores_sound by (fastforce simp: cs)
  have "distinct (map (niche_of \<circ> fst) ?best)"
    using distinct_slice_to ranked(3) group_scores_distinct by blast
  then show "distinct (map niche_of cs)" by (simp add: cs)
  have "sorted_wrt (\<lambda>a b. snd b \<le> snd a) ?best" using ranked(4) by (simp add: slice_to_def sorted_wrt_take)
  then show "sorted_wrt (\<lambda>a b. ?score (niche_of b) \<le> ?score (niche_of a)) cs"
    unfolding cs sorted_wrt_map by (rule sorted_wrt_mono_rel [rotated]) (metis score prod.collapse)
  show "\<forall>key. priced key listings \<and> key \<notin> niche_of ` set cs \<longrightarrow> (\<forall>c \<in> set cs. ?score key \<le> ?score (niche_of c))"
  proof (intro allI impI ballI)
    fix key c
    assume key: "priced key listings \<and> key \<notin> niche_of ` set cs" and c: "c \<in> set cs"
    obtain b where b: "(b, ?score key) \<in> set ?xs" "niche_of b = key"
      using group_scores_complete [of key listings] key by (metis ranked(1))
    then have "(b, ?score key) \<notin> set ?best" using key by (force simp: cs)
    moreover obtain s where s: "(c, s) \<in> set ?best" using c by (auto simp: cs)
    ultimately have "snd (b, ?score key) \<le> snd (c, s)" using slice_best [OF ranked(4) s] b(1) by blast
    then show "?score key \<le> ?score (niche_of c)" using score [OF s] by simp
  qed
qed

subsection \<open>Collecting\<close>

lemma add_unseen_distinct:
  "distinct (map et_source_reference collected) \<Longrightarrow> distinct (map et_source_reference (add_unseen collected results))"
  by (induction collected results rule: add_unseen.induct) auto

lemma collect_distinct:
  "distinct (map et_source_reference collected) \<Longrightarrow> distinct (map et_source_reference (collect look m target phrases collected))"
  by (induction look m target phrases collected rule: collect.induct) (auto simp: Let_def add_unseen_distinct split: sum.split)

lemma observe_shops_exact:
  "distinct (map so_shop_reference (observe_shops seen results)) \<and>
   set (map so_shop_reference (observe_shops seen results)) = et_shop_reference ` set results - set seen"
proof (induction seen results rule: observe_shops.induct)
  case (2 seen r results)
  then show ?case by (auto simp: observe_shop_def)
qed simp


lemma observe_shops_references:
  "distinct (map et_source_reference results) \<Longrightarrow> distinct (map so_source_reference (observe_shops seen results))"
proof -
  have sub: "set (map so_source_reference (observe_shops seen results)) \<subseteq> et_source_reference ` set results" for seen results
    by (induction seen results rule: observe_shops.induct) (auto simp: observe_shop_def)
  show "distinct (map et_source_reference results) \<Longrightarrow> distinct (map so_source_reference (observe_shops seen results))"
  proof (induction seen results rule: observe_shops.induct)
    case (2 seen r results)
    then show ?case using sub [of "seen @ [et_shop_reference r]" results] by (auto simp: observe_shop_def)
  qed simp
qed

subsection \<open>Properties\<close>

lemma commit_cases: "commit change d = (r, t) \<Longrightarrow> r = Inr () \<and> t = change d \<and> unique_rows t \<or> r = Inl Unique_violation \<and> t = d"
  by (auto simp: commit_def split: if_splits)

lemma market_research_steps:
  assumes "market_research is_fixture look config run_id workflow_id job_id started completed clock d = (Inr report, d')"
  obtains phrases results shortlist d1 d2 where
    "results = collect look (get_or (rc_max_results_per_query config) 50) (get_or (rc_target_observation_count config) 30) phrases []"
    "25 \<le> length results" "length results \<le> 40"
    "d1 = d\<lparr>rd_runs := rd_runs d @ [new_run config run_id workflow_id job_id phrases started]\<rparr>"
    "persist_observations run_id completed (map observe_listing results) (observe_shops [] results) d1 = (Inr (), d2)"
    "generate_shortlist config clock run_id workflow_id (map observe_listing results) (observe_shops [] results) d2 = (Inr shortlist, d')"
    "report = \<lparr>rp_research_run_id = run_id, rp_workflow_id = workflow_id, rp_job_id = job_id,
       rp_source_policy_version = get_or (rc_source_policy_version config) ''v1.0'', rp_query_terms = phrases,
       rp_observation_count = length results, rp_listing_count = length results, rp_shop_count = length (observe_shops [] results),
       rp_listing_observations = map observe_listing results, rp_shop_observations = observe_shops [] results,
       rp_shortlist = shortlist, rp_completed_at = completed\<rparr>"
  using assms unfolding market_research_def
  by (auto simp: raiseS_def returnS_def liftS_def Let_def split: if_splits elim!: bindS_cases dest!: commit_cases)

text \<open>The niches that already have a candidate row in a workflow.\<close>

definition stored_niches :: "uuid \<Rightarrow> research_db \<Rightarrow> (string \<times> string) set" where
  "stored_niches workflow_id d = {(pc_identity c, pc_base_category c) |c. c \<in> set (rd_candidates d) \<and> pc_workflow_id c = workflow_id}"

text \<open>The row of a run that has finished.\<close>

definition finished_run ::
    "string \<Rightarrow> uuid \<Rightarrow> uuid \<Rightarrow> uuid \<Rightarrow> string list \<Rightarrow> nat \<Rightarrow> time \<Rightarrow> time \<Rightarrow> research_run" where
  "finished_run policy run_id workflow_id job_id phrases n started completed =
     \<lparr>rr_id = run_id, rr_workflow_id = workflow_id, rr_job_id = job_id, rr_source_policy_version = policy,
      rr_query_terms = phrases, rr_observation_count = n, rr_completed_at = Some completed, rr_created_at = started\<rparr>"

lemma complete_runs:
  assumes "distinct (map rr_id (rs @ [new_run config run_id workflow_id job_id phrases started]))"
  shows "map (complete_run run_id n completed) (rs @ [new_run config run_id workflow_id job_id phrases started]) =
    rs @ [finished_run (get_or (rc_source_policy_version config) ''v1.0'') run_id workflow_id job_id phrases n started completed]"
proof -
  have "complete_run run_id n completed r = r" if "r \<in> set rs" for r
    using that assms by (auto simp: complete_run_def new_run_def)
  then show ?thesis by (simp add: map_idI) (simp add: complete_run_def new_run_def finished_run_def)
qed

lemma candidate_rows_keys:
  "map (\<lambda>c. (pc_workflow_id c, pc_identity c, pc_base_category c)) (candidate_rows workflow_id run_id created cs) =
     map (Pair workflow_id) (map niche_of cs)"
proof -
  have "map (f \<circ> snd) (enumerate 0 cs) = map f cs" for f :: "candidate_profile \<Rightarrow> 'b"
    by (simp flip: map_map)
  from this [of "\<lambda>c. (workflow_id, niche_of c)"] show ?thesis
    by (simp add: candidate_rows_def candidate_row_def niche_of_def comp_def split_def)
qed

lemma candidates_commit:
  assumes "unique_rows e" and "distinct (map niche_of cs)"
  shows "unique_rows (e\<lparr>rd_candidates := rd_candidates e @ candidate_rows workflow_id run_id created cs\<rparr>) \<longleftrightarrow>
    niche_of ` set cs \<inter> stored_niches workflow_id e = {}"
proof -
  let ?key = "\<lambda>c. (pc_workflow_id c, pc_identity c, pc_base_category c)"
  have "distinct (map (Pair workflow_id) (map niche_of cs))" using assms(2) by (simp add: distinct_map inj_on_def)
  moreover have "?key ` set (rd_candidates e) \<inter> set (map (Pair workflow_id) (map niche_of cs)) = {} \<longleftrightarrow>
      niche_of ` set cs \<inter> stored_niches workflow_id e = {}"
    by (auto simp: stored_niches_def)
  moreover have "unique_rows (e\<lparr>rd_candidates := xs\<rparr>) \<longleftrightarrow> distinct (map ?key xs)" for xs
    using assms(1) by (simp add: unique_rows_def)
  moreover have "distinct (map ?key (rd_candidates e))" using assms(1) by (simp add: unique_rows_def)
  ultimately show ?thesis by (simp only: map_append candidate_rows_keys distinct_append set_map simp_thms)
qed

lemma generate_shortlist_exact:
  assumes "unique_rows e" and "cs = shortlist_of config (sc_cutoff clock) listings shops"
  shows "if niche_of ` set cs \<inter> stored_niches workflow_id e = {}
    then \<exists>s. generate_shortlist config clock run_id workflow_id listings shops e =
      (Inr s, e\<lparr>rd_candidates := rd_candidates e @ candidate_rows workflow_id run_id (sc_created clock) cs\<rparr>) \<and> sl_candidates s = cs
    else generate_shortlist config clock run_id workflow_id listings shops e = (Inl Unique_violation, e)"
  using candidates_commit [OF assms(1) shortlist_exact(2) [OF refl refl assms(2)], of workflow_id run_id "sc_created clock"]
  by (auto simp: generate_shortlist_def commit_def Let_def returnS_def bindS_def assms(2))

lemma generate_shortlist_Inr:
  assumes "generate_shortlist config clock run_id workflow_id listings shops d = (Inr s, t)"
  shows "sl_candidates s = shortlist_of config (sc_cutoff clock) listings shops \<and> unique_rows t \<and>
    t = d\<lparr>rd_candidates := rd_candidates d @ candidate_rows workflow_id run_id (sc_created clock) (sl_candidates s)\<rparr>"
  using assms by (auto simp: generate_shortlist_def Let_def returnS_def elim!: bindS_cases dest!: commit_cases)


text \<open>Research that collects too little or too much raises, and what it committed before remains: the new
  run is stored as unfinished, with no observations and no completion time, and nothing else changed.\<close>

theorem failed_research_leaves_open_run:
  assumes "market_research is_fixture look config run_id workflow_id job_id started completed clock d = (Inl e, d')"
    and "e = Too_few n \<or> e = Too_many n"
  shows "(n < 25 \<or> 40 < n) \<and>
    d' = d\<lparr>rd_runs := rd_runs d @ [new_run config run_id workflow_id job_id (get_or (rc_seed_phrases config) []) started]\<rparr> \<and>
    rr_completed_at (last (rd_runs d')) = None \<and> rr_observation_count (last (rd_runs d')) = 0"
  using assms unfolding market_research_def
  by (auto simp: raiseS_def returnS_def liftS_def Let_def new_run_def validate_seed_phrases_def persist_observations_def generate_shortlist_def
      split: if_splits elim!: bindS_cases dest!: commit_cases)

text \<open>What a run that found 25 to 40 listings has committed before it makes the shortlist.\<close>

definition observed_db ::
    "research_config \<Rightarrow> uuid \<Rightarrow> uuid \<Rightarrow> uuid \<Rightarrow> string list \<Rightarrow> time \<Rightarrow> time \<Rightarrow> listing_search_result list \<Rightarrow> research_db \<Rightarrow> research_db" where
  "observed_db config run_id workflow_id job_id phrases started completed results d = d\<lparr>
     rd_runs := rd_runs d @ [finished_run (get_or (rc_source_policy_version config) ''v1.0'') run_id workflow_id job_id phrases
       (length results) started completed],
     rd_listings := rd_listings d @ map (Pair run_id) (map observe_listing results),
     rd_shops := rd_shops d @ map (Pair run_id) (observe_shops [] results)\<rparr>"

definition new_id :: "uuid \<Rightarrow> research_db \<Rightarrow> bool" where
  "new_id run_id d \<longleftrightarrow> run_id \<notin> rr_id ` set (rd_runs d) \<union> fst ` set (rd_listings d) \<union> fst ` set (rd_shops d)"

lemma research_prefix:
  assumes "is_fixture" and "validate_seed_phrases config = Inr phrases"
    and "25 \<le> get_or (rc_target_observation_count config) 30" and "get_or (rc_target_observation_count config) 30 \<le> 40"
    and "results = collect look (get_or (rc_max_results_per_query config) 50) (get_or (rc_target_observation_count config) 30) phrases []"
    and "25 \<le> length results" and "length results \<le> 40" and "unique_rows d" and "new_id run_id d"
    and "e = observed_db config run_id workflow_id job_id phrases started completed results d"
  shows "unique_rows e"
    and "market_research is_fixture look config run_id workflow_id job_id started completed clock d =
      bindS (generate_shortlist config clock run_id workflow_id (map observe_listing results) (observe_shops [] results)) (\<lambda>shortlist.
        returnS \<lparr>rp_research_run_id = run_id, rp_workflow_id = workflow_id, rp_job_id = job_id,
          rp_source_policy_version = get_or (rc_source_policy_version config) ''v1.0'', rp_query_terms = phrases,
          rp_observation_count = length results, rp_listing_count = length results, rp_shop_count = length (observe_shops [] results),
          rp_listing_observations = map observe_listing results, rp_shop_observations = observe_shops [] results,
          rp_shortlist = shortlist, rp_completed_at = completed\<rparr>) e"
proof -
  let ?ls = "map observe_listing results" and ?ss = "observe_shops [] results"
  define e1 where "e1 = d\<lparr>rd_runs := rd_runs d @ [new_run config run_id workflow_id job_id phrases started]\<rparr>"
  have runs: "distinct (map rr_id (rd_runs d @ [new_run config run_id workflow_id job_id phrases started]))"
    using assms(8,9) by (auto simp: unique_rows_def new_id_def new_run_def)
  have e: "e = e1\<lparr>rd_listings := rd_listings e1 @ map (Pair run_id) ?ls, rd_shops := rd_shops e1 @ map (Pair run_id) ?ss,
      rd_runs := map (complete_run run_id (length ?ls) completed) (rd_runs e1)\<rparr>"
    using complete_runs [OF runs, of "length results" completed] by (simp add: assms(10) observed_db_def e1_def)
  have "distinct (map et_source_reference results)" using collect_distinct [of "[]"] assms(5) by simp
  moreover have "distinct (map so_source_reference ?ss)" using calculation by (rule observe_shops_references)
  moreover have "distinct (map rr_id (rd_runs e))" using runs by (simp add: assms(10) observed_db_def finished_run_def new_run_def)
  ultimately show u: "unique_rows e"
    using assms(8,9) by (auto simp: unique_rows_def assms(10) observed_db_def new_id_def observe_listing_def comp_def inj_on_def
        distinct_map rev_image_eqI)
  have first: "commit (\<lambda>d. d\<lparr>rd_runs := rd_runs d @ [new_run config run_id workflow_id job_id phrases started]\<rparr>) d = (Inr (), e1)"
    using assms(8) runs by (simp add: commit_def e1_def unique_rows_def)
  have second: "persist_observations run_id completed ?ls ?ss e1 = (Inr (), e)"
    using u unfolding persist_observations_def commit_def e by simp
  show "market_research is_fixture look config run_id workflow_id job_id started completed clock d =
      bindS (generate_shortlist config clock run_id workflow_id ?ls ?ss) (\<lambda>shortlist.
        returnS \<lparr>rp_research_run_id = run_id, rp_workflow_id = workflow_id, rp_job_id = job_id,
          rp_source_policy_version = get_or (rc_source_policy_version config) ''v1.0'', rp_query_terms = phrases,
          rp_observation_count = length results, rp_listing_count = length results, rp_shop_count = length ?ss,
          rp_listing_observations = ?ls, rp_shop_observations = ?ss, rp_shortlist = shortlist, rp_completed_at = completed\<rparr>) e"
    using assms(1-4,6,7) first second by (simp add: market_research_def Let_def flip: assms(5))
qed

text \<open>
  C36: what research does to a workflow that was researched before. A run under a new identifier that
  found 25 to 40 listings commits these, their shops and its own row as finished in any case. It
  then returns its report exactly when none of the niches on its shortlist has a candidate row in
  the workflow yet, and adds a row for each. Otherwise it raises on the unique constraint of the
  candidates and adds none, although the run stays stored as finished: a retry of the job that
  shortlists a niche of an earlier run can never complete.
\<close>

theorem repeated_research_is_refused:
  assumes "is_fixture" and "validate_seed_phrases config = Inr phrases"
    and "25 \<le> get_or (rc_target_observation_count config) 30" and "get_or (rc_target_observation_count config) 30 \<le> 40"
    and "results = collect look (get_or (rc_max_results_per_query config) 50) (get_or (rc_target_observation_count config) 30) phrases []"
    and "25 \<le> length results" and "length results \<le> 40" and "unique_rows d" and "new_id run_id d"
    and "cs = shortlist_of config (sc_cutoff clock) (map observe_listing results) (observe_shops [] results)"
    and "e = d\<lparr>
      rd_runs := rd_runs d @ [finished_run (get_or (rc_source_policy_version config) ''v1.0'') run_id workflow_id job_id phrases
        (length results) started completed],
      rd_listings := rd_listings d @ map (Pair run_id) (map observe_listing results),
      rd_shops := rd_shops d @ map (Pair run_id) (observe_shops [] results)\<rparr>"
  shows "if niche_of ` set cs \<inter> stored_niches workflow_id d = {}
    then \<exists>report. market_research is_fixture look config run_id workflow_id job_id started completed clock d =
        (Inr report, e\<lparr>rd_candidates := rd_candidates d @ candidate_rows workflow_id run_id (sc_created clock) cs\<rparr>) \<and>
      rp_listing_observations report = map observe_listing results \<and> sl_candidates (rp_shortlist report) = cs
    else market_research is_fixture look config run_id workflow_id job_id started completed clock d = (Inl Unique_violation, e)"
proof -
  have e: "e = observed_db config run_id workflow_id job_id phrases started completed results d"
    by (simp add: assms(11) observed_db_def)
  note run = research_prefix [OF assms(1-9) e]
  have same: "stored_niches workflow_id e = stored_niches workflow_id d" "rd_candidates e = rd_candidates d"
    by (simp_all add: assms(11) stored_niches_def)
  show ?thesis
    using generate_shortlist_exact [OF run(1) assms(10), of workflow_id run_id] unfolding same run(2) [of clock]
    by (auto simp: returnS_def bindS_def split: if_splits)
qed

subsection \<open>The shipped configuration\<close>

text \<open>The \<^verbatim>\<open>research\<close> section of \<^verbatim>\<open>config/research.yaml\<close>, and the fixture adapter as a search.\<close>

definition shipped_research_config :: research_config where
  "shipped_research_config = \<lparr>
     rc_seed_phrases = Some [''budget spreadsheet'', ''business card template'', ''custom pet portrait'', ''digital planner'',
       ''meal planner printable'', ''printable wall art'', ''resume template'', ''social media templates'',
       ''vintage logo design'', ''wedding invitation template''],
     rc_target_observation_count = Some 30, rc_max_results_per_query = Some 50, rc_young_shop_age_days = Some 365,
     rc_fast_shop_sales_threshold = Some 400, rc_shortlist_size = Some 5, rc_source_policy_version = Some ''v1.0''\<rparr>"

definition fixture_search :: "time \<Rightarrow> searcher" where
  "fixture_search now query max_results = Inr (search_listings (build_fixture_data now) query max_results)"

definition no_research :: research_db where
  "no_research = \<lparr>rd_runs = [], rd_listings = [], rd_shops = [], rd_candidates = []\<rparr>"

lemma shipped_listings: "length (collect (fixture_search 0) 50 30 (get_or (rc_seed_phrases shipped_research_config) []) []) = 36"
  by code_simp

lemma shipped_values:
  "validate_seed_phrases shipped_research_config = Inr (get_or (rc_seed_phrases shipped_research_config) [])"
  "get_or (rc_target_observation_count shipped_research_config) 30 = 30" "get_or (rc_max_results_per_query shipped_research_config) 50 = 50"
  "unique_rows no_research" "rd_listings no_research = []" "rd_shops no_research = []" "rd_candidates no_research = []"
  by (simp_all add: validate_seed_phrases_def shipped_research_config_def get_or_def unique_rows_def no_research_def)

text \<open>
  With the shipped configuration and the fixture data, research in an empty workflow returns a
  report over the 36 listings that its phrases find.
\<close>

definition clock_at :: "time \<Rightarrow> shortlist_clock" where
  "clock_at t = \<lparr>sc_cutoff = t, sc_created = (\<lambda>_. t), sc_analyzed = t\<rparr>"

theorem shipped_research_succeeds:
  "\<exists>report d'. market_research True (fixture_search 0) shipped_research_config 1 2 3 0 0 (clock_at 0) no_research = (Inr report, d') \<and>
     length (rp_listing_observations report) = 36"
proof -
  let ?results = "collect (fixture_search 0) 50 30 (get_or (rc_seed_phrases shipped_research_config) []) []"
  let ?e = "observed_db shipped_research_config 1 2 3 (get_or (rc_seed_phrases shipped_research_config) []) 0 0 ?results no_research"
  have new: "new_id 1 no_research" by (simp add: new_id_def no_research_def)
  note run = research_prefix [OF TrueI shipped_values(1), of ?results "fixture_search 0" no_research 1 ?e 2 3 0 0,
      unfolded shipped_values(2,3) shipped_listings, OF _ _ refl _ _ shipped_values(4) new refl, simplified]
  have "stored_niches 2 ?e = {}" by (simp add: stored_niches_def observed_db_def no_research_def)
  with generate_shortlist_exact [OF run(1) refl, where workflow_id = 2 and run_id = 1 and config = shipped_research_config
      and clock = "clock_at 0" and listings = "map observe_listing ?results" and shops = "observe_shops [] ?results"]
  show ?thesis unfolding run(2) by (auto simp: returnS_def bindS_def shipped_listings)
qed

text \<open>Twenty-five listings of one shop and niche.\<close>

definition plain_listing :: "nat \<Rightarrow> listing_search_result" where
  "plain_listing n = \<lparr>et_source_reference = str_nat n, et_title = ''t'', et_price = Some 5, et_anchor_price = None, et_currency = ''USD'',
     et_shop_reference = ''s'', et_shop_sales = Some 450, et_shop_opened_on = Some 0, et_identity_niche = Some ''n'', et_base_category = Some ''c'',
     et_badges = [], et_urgency_signals = [], et_review_count = None, et_review_average = None, et_observed_at = 0\<rparr>"

definition plain_search :: searcher where
  "plain_search query max_results = Inr (map plain_listing [0..<25])"

definition plain_config :: research_config where
  "plain_config = \<lparr>rc_seed_phrases = Some [''x''], rc_target_observation_count = Some 25, rc_max_results_per_query = None,
     rc_young_shop_age_days = None, rc_fast_shop_sales_threshold = None, rc_shortlist_size = None, rc_source_policy_version = None\<rparr>"

definition plain_run :: "(research_error + market_research_report) \<times> research_db" where
  "plain_run = market_research True plain_search plain_config 1 2 3 0 0 (clock_at 0) no_research"

definition plain_candidate :: candidate_profile where
  "plain_candidate = \<lparr>cp_identity = ''n'', cp_base_category = ''c'', cp_price_range = (5, 5), cp_observation_count = 25,
     cp_shop_count = 1, cp_young_fast_shop_count = 1, cp_risk_notes = ''No significant risks identified''\<rparr>"

definition plain_run_ok :: "(research_error + market_research_report) \<times> research_db \<Rightarrow> bool" where
  "plain_run_ok run = (case run of
     (Inr report, d) \<Rightarrow> sl_candidates (rp_shortlist report) = [plain_candidate] \<and> unique_rows d \<and>
       list_all (\<lambda>r. rr_id r \<noteq> 9) (rd_runs d) \<and> list_all (\<lambda>x. fst x \<noteq> 9) (rd_listings d) \<and>
       list_all (\<lambda>x. fst x \<noteq> 9) (rd_shops d) \<and> length (rd_listings d) = 25 \<and>
       map (\<lambda>c. (pc_workflow_id c, pc_identity c, pc_base_category c)) (rd_candidates d) = [(2, ''n'', ''c'')]
   | _ \<Rightarrow> False)"

lemma plain_run_is_ok: "plain_run_ok plain_run"
  by code_simp

lemma plain_report:
  obtains report d where "market_research True plain_search plain_config 1 2 3 0 0 (clock_at 0) no_research = (Inr report, d)"
    "sl_candidates (rp_shortlist report) = [plain_candidate]" "unique_rows d" "new_id 9 d" "length (rd_listings d) = 25"
    "map (\<lambda>c. (pc_workflow_id c, pc_identity c, pc_base_category c)) (rd_candidates d) = [(2, ''n'', ''c'')]"
proof (cases plain_run)
  case (Pair r d)
  then obtain report where r: "r = Inr report" using plain_run_is_ok unfolding Pair by (cases r) (simp_all add: plain_run_ok_def)
  note ok = plain_run_is_ok [unfolded Pair r plain_run_ok_def, simplified]
  have "new_id 9 d" using ok by (auto simp: new_id_def list_all_iff)
  with that [of report d] ok Pair r show thesis by (simp add: plain_run_def)
qed

lemma plain_results:
  "validate_seed_phrases plain_config = Inr [''x'']" "get_or (rc_target_observation_count plain_config) 30 = 25"
  "length (collect plain_search (get_or (rc_max_results_per_query plain_config) 50) 25 [''x''] []) = 25"
  "shortlist_of plain_config 1 (map observe_listing (collect plain_search (get_or (rc_max_results_per_query plain_config) 50) 25 [''x''] []))
     (observe_shops [] (collect plain_search (get_or (rc_max_results_per_query plain_config) 50) 25 [''x''] [])) = [plain_candidate]"
  by code_simp+


theorem failed_research_leaves_open_run_witness:
  "\<exists>d. market_research True (\<lambda>q n. Inl ()) plain_config 1 2 3 0 0 (clock_at 0) no_research = (Inl (Too_few 0), d) \<and>
     rr_completed_at (last (rd_runs d)) = None"
proof -
  have "fst (market_research True (\<lambda>q n. Inl ()) plain_config 1 2 3 0 0 (clock_at 0) no_research) = Inl (Too_few 0)" by code_simp
  then obtain d where run: "market_research True (\<lambda>q n. Inl ()) plain_config 1 2 3 0 0 (clock_at 0) no_research = (Inl (Too_few 0), d)"
    by (metis prod.collapse)
  show ?thesis using failed_research_leaves_open_run [OF run, of 0] run by blast
qed

theorem repeated_research_is_refused_witness:
  "\<exists>report d d2. market_research True plain_search plain_config 1 2 3 0 0 (clock_at 0) no_research = (Inr report, d) \<and>
     market_research True plain_search plain_config 9 2 3 1 1 (clock_at 1) d = (Inl Unique_violation, d2) \<and>
     length (rd_listings d2) = 50 \<and> rr_completed_at (last (rd_runs d2)) = Some 1 \<and> rd_candidates d2 = rd_candidates d"
proof -
  obtain report d where run: "market_research True plain_search plain_config 1 2 3 0 0 (clock_at 0) no_research = (Inr report, d)"
    and d: "unique_rows d" "new_id 9 d" and n: "length (rd_listings d) = 25"
    and c: "map (\<lambda>c. (pc_workflow_id c, pc_identity c, pc_base_category c)) (rd_candidates d) = [(2, ''n'', ''c'')]"
    by (rule plain_report)
  let ?results = "collect plain_search (get_or (rc_max_results_per_query plain_config) 50) 25 [''x''] []"
  have stored: "niche_of ` set [plain_candidate] \<inter> stored_niches 2 d \<noteq> {}"
    using c by (auto simp: stored_niches_def niche_of_def plain_candidate_def)
  note r = repeated_research_is_refused [OF TrueI plain_results(1) _ _ refl _ _ d refl refl, of plain_search "clock_at 1" 2 3 1 1,
      unfolded plain_results(2)]
  have cut: "sc_cutoff (clock_at 1) = 1" by (simp add: clock_at_def)
  show ?thesis using r [unfolded cut plain_results(3,4)] stored run n plain_results(3)
    by (auto simp: finished_run_def)
qed

end
