(* ===== verification/Product_Strategy.thy ===== *)
theory Product_Strategy
  imports Market_Research Agent_Runner
begin

section \<open>Product strategy\<close>

text \<open>
  \<^verbatim>\<open>domain/models/product_spec.py\<close>, \<^verbatim>\<open>agents/contracts/product_strategy.py\<close> and
  \<^verbatim>\<open>agents/implementations/product_strategy.py\<close> (A05): the scoring of the candidates that market
  research shortlisted, their ranking, the choice of a primary and a backup, and the specification
  generated for a qualified primary. The framework's decoding of the job input and its rendering of
  models as JSON, the digest, the clock, the identifiers and the text of an exception are arguments (\<open>strategy_env\<close>).
\<close>

subsection \<open>Contracts\<close>

record colour_token =
  ct_name :: string
  ct_hex :: string

record hub =
  hb_name :: string
  hb_description :: string
  hb_page_count :: int

record strategy_spec =
  ss_spec_id :: uuid
  ss_product_id :: uuid
  ss_workflow_id :: uuid
  ss_version :: int
  ss_producing_job_id :: uuid
  ss_producing_agent_run_id :: uuid
  ss_research_run_id :: "uuid option"
  ss_identity :: string
  ss_base_category :: string
  ss_buyer_problem :: string
  ss_title :: string
  ss_tier :: string
  ss_real_price :: rat
  ss_anchor_price :: rat
  ss_currency :: string
  ss_palette_name :: string
  ss_palette_tokens :: "colour_token list"
  ss_hubs :: "hub list"
  ss_colour_variants :: "string list"
  ss_flagship_feature :: string
  ss_shared_databases :: "string list"
  ss_page_target_min :: int
  ss_page_target_max :: int
  ss_feature_targets :: "string list"
  ss_experiment_hypothesis :: string
  ss_experiment_tags :: "string list"
  ss_concept_fingerprint :: string
  ss_rule_version :: string
  ss_evidence :: "evidence_reference list"
  ss_created_at :: time

text \<open>A \<^verbatim>\<open>NonEmptyStr\<close> with a maximum length; the framework strips a text before it checks and keeps it.\<close>

definition text_within :: "nat \<Rightarrow> string \<Rightarrow> bool" where
  "text_within n s \<longleftrightarrow> strip_str s \<noteq> [] \<and> length (strip_str s) \<le> n"

definition some_text :: "string \<Rightarrow> bool" where
  "some_text s \<longleftrightarrow> strip_str s \<noteq> []"

definition colour_token_ok :: "colour_token \<Rightarrow> bool" where
  "colour_token_ok t \<longleftrightarrow> some_text (ct_name t) \<and>
     (case ct_hex t of c # cs \<Rightarrow> c = CHR ''#'' \<and> length cs = 6 \<and> list_all (\<lambda>x. x \<in> set ''0123456789ABCDEFabcdef'') cs | [] \<Rightarrow> False)"

definition hub_ok :: "hub \<Rightarrow> bool" where
  "hub_ok h \<longleftrightarrow> text_within 64 (hb_name h) \<and> text_within 500 (hb_description h) \<and> 0 < hb_page_count h"

definition evidence_ok :: "evidence_reference \<Rightarrow> bool" where
  "evidence_ok e \<longleftrightarrow> some_text (er_evidence_type e) \<and> some_text (er_source_reference e) \<and>
     (case er_sha256 e of None \<Rightarrow> True | Some h \<Rightarrow> sha256_hex h) \<and> some_text (er_safe_summary e)"

definition strategy_spec_ok :: "strategy_spec \<Rightarrow> bool" where
  "strategy_spec_ok p \<longleftrightarrow> 0 < ss_version p \<and> some_text (ss_identity p) \<and> some_text (ss_base_category p) \<and>
     text_within 1000 (ss_buyer_problem p) \<and> text_within 500 (ss_title p) \<and> text_within 64 (ss_tier p) \<and>
     0 < ss_real_price p \<and> 0 < ss_anchor_price p \<and> currency_is_iso4217 (ss_currency p) \<and> some_text (ss_palette_name p) \<and>
     list_all colour_token_ok (ss_palette_tokens p) \<and> 3 \<le> length (ss_palette_tokens p) \<and> length (ss_palette_tokens p) \<le> 4 \<and>
     list_all hub_ok (ss_hubs p) \<and> 6 \<le> length (ss_hubs p) \<and> length (ss_hubs p) \<le> 8 \<and>
     list_all some_text (ss_colour_variants p) \<and> 3 \<le> length (ss_colour_variants p) \<and> length (ss_colour_variants p) \<le> 4 \<and>
     text_within 500 (ss_flagship_feature p) \<and> list_all some_text (ss_shared_databases p) \<and>
     0 < ss_page_target_min p \<and> 0 < ss_page_target_max p \<and> list_all some_text (ss_feature_targets p) \<and>
     text_within 1000 (ss_experiment_hypothesis p) \<and> list_all some_text (ss_experiment_tags p) \<and>
     sha256_hex (ss_concept_fingerprint p) \<and> some_text (ss_rule_version p) \<and>
     ss_evidence p \<noteq> [] \<and> list_all evidence_ok (ss_evidence p)"

record product_strategy_input =
  pi_job_id :: uuid
  pi_workflow_id :: uuid
  pi_research_run_id :: uuid
  pi_candidates :: "candidate_profile list"
  pi_scoring_threshold :: int
  pi_maximum_score :: int

definition strategy_input_ok :: "product_strategy_input \<Rightarrow> bool" where
  "strategy_input_ok i \<longleftrightarrow> 1 \<le> length (pi_candidates i) \<and> length (pi_candidates i) \<le> 5 \<and>
     0 < pi_scoring_threshold i \<and> 0 < pi_maximum_score i"

datatype dimension = impulse_priced | tangible | honest_promise | trendy_but_tricky

record scoring_reasoning =
  sr_dimension :: dimension
  sr_score :: int
  sr_reasoning :: string
  sr_evidence_refs :: "string list"

definition scoring_reasoning_ok :: "scoring_reasoning \<Rightarrow> bool" where
  "scoring_reasoning_ok s \<longleftrightarrow> 0 \<le> sr_score s \<and> text_within 500 (sr_reasoning s) \<and>
     sr_evidence_refs s \<noteq> [] \<and> list_all some_text (sr_evidence_refs s)"

datatype selection = PRIMARY | BACKUP | REJECTED

record scored_candidate =
  sd_candidate :: candidate_profile
  sd_scoring :: "scoring_reasoning list"
  sd_total_score :: int
  sd_passed_threshold :: bool
  sd_rank :: nat
  sd_selection :: selection

definition scored_candidate_ok :: "scored_candidate \<Rightarrow> bool" where
  "scored_candidate_ok c \<longleftrightarrow> list_all scoring_reasoning_ok (sd_scoring c) \<and> length (sd_scoring c) = 4 \<and>
     0 \<le> sd_total_score c \<and> 0 < sd_rank c"

datatype qualification = QUALIFIED | NOT_QUALIFIED

record product_strategy_result =
  pr_job_id :: uuid
  pr_workflow_id :: uuid
  pr_research_run_id :: uuid
  pr_scored_candidates :: "scored_candidate list"
  pr_primary_candidate :: scored_candidate
  pr_backup_candidate :: "scored_candidate option"
  pr_product_spec :: "strategy_spec option"
  pr_qualification_outcome :: qualification
  pr_evidence :: "evidence_reference list"
  pr_completed_at :: time

definition strategy_result_ok :: "product_strategy_result \<Rightarrow> bool" where
  "strategy_result_ok r \<longleftrightarrow> 1 \<le> length (pr_scored_candidates r) \<and> length (pr_scored_candidates r) \<le> 5 \<and> pr_evidence r \<noteq> []"

subsection \<open>Scoring\<close>

definition score_impulse_priced :: "candidate_profile \<Rightarrow> int" where
  "score_impulse_priced c = (if contains_str ''Digital'' (cp_base_category c) \<or> contains_str ''Template'' (cp_identity c) then 9 else 7)"

definition score_tangible :: "candidate_profile \<Rightarrow> int" where
  "score_tangible c = (if contains_str ''Template'' (cp_identity c) \<or> contains_str ''Guide'' (cp_identity c) then 9 else 7)"

definition score_honest_promise :: "candidate_profile \<Rightarrow> int" where
  "score_honest_promise c = 8"

definition score_trendy_but_tricky :: "candidate_profile \<Rightarrow> int" where
  "score_trendy_but_tricky c = (if contains_str ''HIGH'' (cp_risk_notes c) then 5 else 8)"

definition total_of :: "candidate_profile \<Rightarrow> int" where
  "total_of c = score_impulse_priced c + score_tangible c + score_honest_promise c + score_trendy_but_tricky c"

definition reasonings :: "candidate_profile \<Rightarrow> scoring_reasoning list" where
  "reasonings c =
    [\<lparr>sr_dimension = impulse_priced, sr_score = score_impulse_priced c,
      sr_reasoning = strip_str (''Price point analysis for '' @ cp_identity c), sr_evidence_refs = [''research_observation'']\<rparr>,
     \<lparr>sr_dimension = tangible, sr_score = score_tangible c,
      sr_reasoning = strip_str (''Tangibility assessment for '' @ cp_base_category c), sr_evidence_refs = [''category_analysis'']\<rparr>,
     \<lparr>sr_dimension = honest_promise, sr_score = score_honest_promise c,
      sr_reasoning = strip_str (''Promise clarity for '' @ cp_identity c), sr_evidence_refs = [''market_observation'']\<rparr>,
     \<lparr>sr_dimension = trendy_but_tricky, sr_score = score_trendy_but_tricky c,
      sr_reasoning = strip_str (''Trend analysis for '' @ cp_base_category c), sr_evidence_refs = [''trend_data'']\<rparr>]"

definition score_candidate :: "int \<Rightarrow> candidate_profile \<Rightarrow> scored_candidate" where
  "score_candidate threshold c = \<lparr>sd_candidate = c, sd_scoring = reasonings c, sd_total_score = total_of c,
     sd_passed_threshold = (threshold \<le> total_of c), sd_rank = 1, sd_selection = REJECTED\<rparr>"

definition score_candidates :: "product_strategy_input \<Rightarrow> error + scored_candidate list" where
  "score_candidates i = (let scored = map (score_candidate (pi_scoring_threshold i)) (pi_candidates i) in
     bindE (guardE (list_all scored_candidate_ok scored) (ValueError ''scoring'')) (\<lambda>_. Inr scored))"

text \<open>\<^verbatim>\<open>sorted(scored, key=..., reverse=True)\<close> is stable.\<close>

definition rank_scored :: "scored_candidate list \<Rightarrow> scored_candidate list" where
  "rank_scored scored = sort_key (\<lambda>c. - sd_total_score c) scored"

text \<open>The ranks are written into the caller's list, every element of it as rejected; primary and backup are copies.\<close>

definition with_ranks :: "scored_candidate list \<Rightarrow> scored_candidate list" where
  "with_ranks ranked = map (\<lambda>(i, c). c\<lparr>sd_rank := i, sd_selection := REJECTED\<rparr>) (zip [1..<Suc (length ranked)] ranked)"

definition select_candidates ::
    "scored_candidate list \<Rightarrow> error + (scored_candidate list \<times> scored_candidate \<times> scored_candidate option)" where
  "select_candidates ranked = (case with_ranks ranked of
     [] \<Rightarrow> Inl (ValueError ''list index out of range'')
   | first # rest \<Rightarrow> Inr (first # rest, first\<lparr>sd_selection := PRIMARY\<rparr>,
       (case rest of [] \<Rightarrow> None
        | second # _ \<Rightarrow> if sd_passed_threshold second then Some (second\<lparr>sd_selection := BACKUP\<rparr>) else None)))"


subsection \<open>The specification\<close>

record strategy_env =
  se_decode :: "(string \<times> json) list \<Rightarrow> error + product_strategy_input"
  se_dump :: "product_strategy_result \<Rightarrow> (string \<times> json) list"
  se_dump_scored :: "scored_candidate \<Rightarrow> string"
  se_sha256 :: "string \<Rightarrow> string"
  se_new_id :: "nat \<Rightarrow> uuid"
  se_now :: time
  se_str :: "json \<Rightarrow> string"
  se_message :: "error \<Rightarrow> string"

definition spec_palette :: "colour_token list" where
  "spec_palette = [\<lparr>ct_name = ''Primary'', ct_hex = ''#2C3E50''\<rparr>, \<lparr>ct_name = ''Secondary'', ct_hex = ''#3498DB''\<rparr>,
     \<lparr>ct_name = ''Accent'', ct_hex = ''#E74C3C''\<rparr>]"

definition spec_hubs :: "hub list" where
  "spec_hubs = [
     \<lparr>hb_name = ''Introduction'', hb_description = ''Getting started guide'', hb_page_count = 5\<rparr>,
     \<lparr>hb_name = ''Core Content'', hb_description = ''Main content section'', hb_page_count = 15\<rparr>,
     \<lparr>hb_name = ''Templates'', hb_description = ''Ready-to-use templates'', hb_page_count = 10\<rparr>,
     \<lparr>hb_name = ''Examples'', hb_description = ''Real-world examples'', hb_page_count = 8\<rparr>,
     \<lparr>hb_name = ''Resources'', hb_description = ''Additional resources'', hb_page_count = 7\<rparr>,
     \<lparr>hb_name = ''Conclusion'', hb_description = ''Wrap-up and next steps'', hb_page_count = 5\<rparr>]"

definition generate_product_spec ::
    "strategy_env \<Rightarrow> candidate_profile \<Rightarrow> int \<Rightarrow> uuid \<Rightarrow> uuid \<Rightarrow> uuid \<Rightarrow> uuid \<Rightarrow> error + strategy_spec" where
  "generate_product_spec env c score workflow_id job_id run_id research_run_id =
    (let identity = cp_identity c; category = cp_base_category c;
         fingerprint = se_sha256 env (identity @ '':'' @ category);
         spec = \<lparr>ss_spec_id = se_new_id env 0, ss_product_id = se_new_id env 1, ss_workflow_id = workflow_id, ss_version = 1,
           ss_producing_job_id = job_id, ss_producing_agent_run_id = run_id, ss_research_run_id = Some research_run_id,
           ss_identity = strip_str identity, ss_base_category = strip_str category,
           ss_buyer_problem = strip_str (''Buyer needs '' @ identity @ '' for '' @ category),
           ss_title = strip_str (identity @ '' '' @ category @ '' Template''), ss_tier = ''mass'',
           ss_real_price = 999 / 100, ss_anchor_price = 1999 / 100, ss_currency = ''USD'',
           ss_palette_name = ''Modern Minimalist'', ss_palette_tokens = spec_palette, ss_hubs = spec_hubs,
           ss_colour_variants = [''Blue'', ''Green'', ''Purple''],
           ss_flagship_feature = ''Complete step-by-step guide with templates'', ss_shared_databases = [],
           ss_page_target_min = 45, ss_page_target_max = 55,
           ss_feature_targets = [''Interactive examples'', ''Downloadable templates''],
           ss_experiment_hypothesis = ''Testing '' @ identity @ '' with clear visual hierarchy'',
           ss_experiment_tags = [''new-front''], ss_concept_fingerprint = fingerprint, ss_rule_version = ''v1'',
           ss_evidence = [\<lparr>er_evidence_id = se_new_id env 2, er_evidence_type = ''scoring_analysis'',
             er_source_reference = strip_str (''candidate:'' @ identity), er_observed_at = se_now env, er_sha256 = Some fingerprint,
             er_artifact_id = None, er_producing_job_id = None,
             er_safe_summary = ''Qualified with score '' @ str_int score @ ''/40''\<rparr>],
           ss_created_at = se_now env\<rparr> in
     bindE (guardE (strategy_spec_ok spec) (ValueError ''spec'')) (\<lambda>_. Inr spec))"

definition scoring_evidence :: "strategy_env \<Rightarrow> uuid \<Rightarrow> nat \<times> scored_candidate \<Rightarrow> evidence_reference" where
  "scoring_evidence env research_run_id indexed = (case indexed of (n, c) \<Rightarrow>
     \<lparr>er_evidence_id = se_new_id env (3 + n), er_evidence_type = ''candidate_scoring'',
      er_source_reference = ''research:'' @ str_uuid research_run_id, er_observed_at = se_now env,
      er_sha256 = Some (se_sha256 env (se_dump_scored env c)), er_artifact_id = None, er_producing_job_id = None,
      er_safe_summary = strip_str (cp_identity (sd_candidate c) @ '': '' @ str_int (sd_total_score c) @ ''/40'')\<rparr>)"

definition collect_evidence :: "strategy_env \<Rightarrow> scored_candidate list \<Rightarrow> product_strategy_input \<Rightarrow> error + evidence_reference list" where
  "collect_evidence env scored i =
    (let evidence = map (scoring_evidence env (pi_research_run_id i)) (zip [0..<length scored] scored) in
     bindE (guardE (list_all evidence_ok evidence) (ValueError ''evidence'')) (\<lambda>_. Inr evidence))"

subsection \<open>The agent\<close>

definition product_strategy :: "strategy_env \<Rightarrow> agent_context \<Rightarrow> product_strategy_input \<Rightarrow> error + product_strategy_result" where
  "product_strategy env context i =
     bindE (score_candidates i) (\<lambda>scored.
     bindE (select_candidates (rank_scored scored)) (\<lambda>(ranked, primary, backup).
     bindE (if sd_passed_threshold primary
        then bindE (generate_product_spec env (sd_candidate primary) (sd_total_score primary) (pi_workflow_id i) (pi_job_id i)
            (cx_run_id context) (pi_research_run_id i)) (\<lambda>spec. Inr (Some spec))
        else Inr None) (\<lambda>spec.
     bindE (collect_evidence env scored i) (\<lambda>evidence.
     let result = \<lparr>pr_job_id = pi_job_id i, pr_workflow_id = pi_workflow_id i, pr_research_run_id = pi_research_run_id i,
           pr_scored_candidates = ranked, pr_primary_candidate = primary, pr_backup_candidate = backup, pr_product_spec = spec,
           pr_qualification_outcome = (if sd_passed_threshold primary then QUALIFIED else NOT_QUALIFIED),
           pr_evidence = evidence, pr_completed_at = se_now env\<rparr> in
     bindE (guardE (strategy_result_ok result \<and> 0 < ad_contract_version (cx_definition context) \<and>
        some_text (cx_prompt_reference context) \<and> some_text (cx_prompt_sha256 context)) (ValueError ''result'')) (\<lambda>_. Inr result)))))"

definition strategy_agent_result ::
    "agent_context \<Rightarrow> agent_run_status \<Rightarrow> (string \<times> json) list \<Rightarrow> evidence_reference list \<Rightarrow> contract_error option \<Rightarrow> error + agent_result" where
  "strategy_agent_result context status out evidence err = validate_terminal_result
     \<lparr>rs_job_id = je_job_id (cx_job context), rs_agent_run_id = cx_run_id context, rs_agent_id = ''A05'',
      rs_agent_definition_version = ad_contract_version (cx_definition context),
      rs_prompt_reference = strip_str (cx_prompt_reference context), rs_prompt_sha256 = cx_prompt_sha256 context,
      rs_status = status, rs_output = out, rs_artifacts = [], rs_evidence = evidence,
      rs_emitted_events = [], rs_effects = [], rs_error = err\<rparr>"

definition error_json :: "contract_error \<Rightarrow> json" where
  "error_json e = JObj [(''schema_version'', JInt 1), (''code'', JStr (ce_code e)), (''message'', JStr (ce_message e)),
     (''retryable'', JBool (ce_retryable e)),
     (''blocker_action'', case ce_blocker_action e of None \<Rightarrow> JNull | Some a \<Rightarrow> JStr a), (''safe_detail'', ce_safe_detail e)]"

definition input_or_new :: "strategy_env \<Rightarrow> nat \<Rightarrow> (string \<times> json) list \<Rightarrow> string \<Rightarrow> string" where
  "input_or_new env n input key = (case map_of input key of None \<Rightarrow> str_uuid (se_new_id env n) | Some v \<Rightarrow> se_str env v)"

definition strategy_failure :: "strategy_env \<Rightarrow> agent_context \<Rightarrow> error \<Rightarrow> error + agent_result" where
  "strategy_failure env context e =
    (if \<not> some_text (se_message env e) then Inl (ValueError ''message'')
     else let err = \<lparr>ce_code = ''PRODUCT_STRATEGY_FAILED'', ce_message = strip_str (se_message env e), ce_retryable = False,
              ce_blocker_action = None, ce_safe_detail = JObj []\<rparr>;
            input = je_input (cx_job context) in
       strategy_agent_result context R_FAILURE
        [(''agent_run_id'', JStr (str_uuid (cx_run_id context))), (''agent_id'', JStr ''A05''),
         (''agent_definition_version'', JInt (ad_contract_version (cx_definition context))),
         (''prompt_reference'', JStr (cx_prompt_reference context)), (''prompt_sha256'', JStr (cx_prompt_sha256 context)),
         (''status'', JStr ''FAILURE''), (''job_id'', JStr (str_uuid (je_job_id (cx_job context)))),
         (''workflow_id'', JStr (input_or_new env 8 input ''workflow_id'')),
         (''research_run_id'', JStr (input_or_new env 9 input ''research_run_id'')),
         (''qualification_outcome'', JStr ''REJECTED''), (''error'', error_json err)] [] (Some err))"

definition a05_execute :: "strategy_env \<Rightarrow> agent_context \<Rightarrow> error + agent_result" where
  "a05_execute env context =
    (case bindE (se_decode env (je_input (cx_job context))) (\<lambda>i.
        bindE (guardE (strategy_input_ok i) (ValueError ''input'')) (\<lambda>_.
        bindE (product_strategy env context i) (\<lambda>result.
        strategy_agent_result context R_SUCCESS (se_dump env result) (pr_evidence result) None)))
     of Inr r \<Rightarrow> Inr r
      | Inl e \<Rightarrow> strategy_failure env context e)"


subsection \<open>Scores\<close>

lemma total_of_bounds: "27 \<le> total_of c \<and> total_of c \<le> 34"
  by (auto simp: total_of_def score_impulse_priced_def score_tangible_def score_honest_promise_def score_trendy_but_tricky_def)

lemma with_ranks_maps:
  "length (with_ranks xs) = length xs" "map sd_candidate (with_ranks xs) = map sd_candidate xs"
  "map sd_total_score (with_ranks xs) = map sd_total_score xs" "map sd_passed_threshold (with_ranks xs) = map sd_passed_threshold xs"
  "map sd_rank (with_ranks xs) = [1..<Suc (length xs)]" "set (map sd_selection (with_ranks xs)) \<subseteq> {REJECTED}"
proof -
  have l: "length [1..<Suc (length xs)] = length xs" by (simp del: upt_Suc)
  have m: "map (\<lambda>p. f (snd p)) (zip [1..<Suc (length xs)] xs) = map f xs" for f :: "scored_candidate \<Rightarrow> 'a"
  proof -
    have "map (\<lambda>p. f (snd p)) (zip [1..<Suc (length xs)] xs) = map f (map snd (zip [1..<Suc (length xs)] xs))" by simp
    then show ?thesis by (simp only: map_snd_zip [OF l])
  qed
  show "length (with_ranks xs) = length xs" by (simp add: with_ranks_def del: upt_Suc)
  show "map sd_candidate (with_ranks xs) = map sd_candidate xs" "map sd_total_score (with_ranks xs) = map sd_total_score xs"
    "map sd_passed_threshold (with_ranks xs) = map sd_passed_threshold xs"
    using m by (simp_all add: with_ranks_def case_prod_beta comp_def del: upt_Suc)
  have "map sd_rank (with_ranks xs) = map fst (zip [1..<Suc (length xs)] xs)"
    by (simp add: with_ranks_def case_prod_beta comp_def del: upt_Suc)
  then show "map sd_rank (with_ranks xs) = [1..<Suc (length xs)]" using map_fst_zip [OF l] by simp
  show "set (map sd_selection (with_ranks xs)) \<subseteq> {REJECTED}" by (auto simp: with_ranks_def)
qed

lemma rank_scored_facts: "mset (rank_scored xs) = mset xs" "sorted_wrt (\<lambda>a b. sd_total_score b \<le> sd_total_score a) (rank_scored xs)"
proof -
  show "mset (rank_scored xs) = mset xs" by (simp add: rank_scored_def)
  have "sorted (map (\<lambda>c. - sd_total_score c) (rank_scored xs))" by (simp add: rank_scored_def)
  then show "sorted_wrt (\<lambda>a b. sd_total_score b \<le> sd_total_score a) (rank_scored xs)" by (simp add: sorted_map)
qed

lemma product_strategy_steps:
  assumes "product_strategy env context i = Inr r"
  obtains scored where "scored = map (score_candidate (pi_scoring_threshold i)) (pi_candidates i)" "score_candidates i = Inr scored"
    "select_candidates (rank_scored scored) = Inr (pr_scored_candidates r, pr_primary_candidate r, pr_backup_candidate r)"
    "(pr_product_spec r \<noteq> None) = sd_passed_threshold (pr_primary_candidate r)"
    "pr_qualification_outcome r = (if sd_passed_threshold (pr_primary_candidate r) then QUALIFIED else NOT_QUALIFIED)"
  using assms unfolding product_strategy_def
  by (auto simp: bindE_eq_Inr Let_def score_candidates_def split: if_splits prod.splits)

lemma select_candidates_Inr:
  assumes "select_candidates ranked = Inr (listed, primary, backup)"
  shows "listed = with_ranks ranked" and "listed \<noteq> []" and "primary = (hd listed)\<lparr>sd_selection := PRIMARY\<rparr>"
    and "backup = (case tl listed of [] \<Rightarrow> None
      | second # _ \<Rightarrow> if sd_passed_threshold second then Some (second\<lparr>sd_selection := BACKUP\<rparr>) else None)"
proof -
  obtain first rest where w: "with_ranks ranked = first # rest"
    using assms by (cases "with_ranks ranked") (auto simp: select_candidates_def)
  then have e: "listed = first # rest" "primary = first\<lparr>sd_selection := PRIMARY\<rparr>" "backup = (case rest of [] \<Rightarrow> None
      | second # _ \<Rightarrow> if sd_passed_threshold second then Some (second\<lparr>sd_selection := BACKUP\<rparr>) else None)"
    using assms by (simp_all add: select_candidates_def)
  show "listed = with_ranks ranked" "listed \<noteq> []" "primary = (hd listed)\<lparr>sd_selection := PRIMARY\<rparr>" using w e by simp_all
  show "backup = (case tl listed of [] \<Rightarrow> None
      | second # _ \<Rightarrow> if sd_passed_threshold second then Some (second\<lparr>sd_selection := BACKUP\<rparr>) else None)" using e by simp
qed

text \<open>What is listed is the scored input in the order of the scores.\<close>

lemma listed_facts:
  assumes "product_strategy env context i = Inr r"
  shows "mset (map sd_candidate (pr_scored_candidates r)) = mset (pi_candidates i)"
    and "sorted_wrt (\<lambda>a b. sd_total_score b \<le> sd_total_score a) (pr_scored_candidates r)"
    and "\<forall>s \<in> set (pr_scored_candidates r). sd_total_score s = total_of (sd_candidate s) \<and>
      sd_passed_threshold s = (pi_scoring_threshold i \<le> total_of (sd_candidate s)) \<and> sd_selection s = REJECTED"
    and "map sd_rank (pr_scored_candidates r) = [1..<Suc (length (pr_scored_candidates r))]"
proof -
  obtain scored where scored: "scored = map (score_candidate (pi_scoring_threshold i)) (pi_candidates i)"
    and sel: "select_candidates (rank_scored scored) = Inr (pr_scored_candidates r, pr_primary_candidate r, pr_backup_candidate r)"
    by (rule product_strategy_steps [OF assms])
  let ?cs = "pr_scored_candidates r" and ?rs = "rank_scored scored"
  have cs: "?cs = with_ranks ?rs" using select_candidates_Inr(1) [OF sel] .
  have "mset (map sd_candidate ?cs) = image_mset sd_candidate (mset scored)"
    unfolding cs with_ranks_maps(2) by (simp add: rank_scored_facts(1))
  then show "mset (map sd_candidate ?cs) = mset (pi_candidates i)"
    by (simp add: scored multiset.map_comp comp_def score_candidate_def)
  have "sorted_wrt (\<lambda>a b. b \<le> a) (map sd_total_score ?rs)" using rank_scored_facts(2) by (simp only: sorted_wrt_map)
  then have "sorted_wrt (\<lambda>a b. b \<le> a) (map sd_total_score ?cs)" by (simp only: cs with_ranks_maps(3))
  then show "sorted_wrt (\<lambda>a b. sd_total_score b \<le> sd_total_score a) ?cs" by (simp only: sorted_wrt_map)
  have rs: "\<forall>s \<in> set ?rs. sd_total_score s = total_of (sd_candidate s) \<and>
      sd_passed_threshold s = (pi_scoring_threshold i \<le> total_of (sd_candidate s))"
    using arg_cong [OF rank_scored_facts(1), of set_mset scored] by (auto simp: scored score_candidate_def)
  show "\<forall>s \<in> set ?cs. sd_total_score s = total_of (sd_candidate s) \<and>
      sd_passed_threshold s = (pi_scoring_threshold i \<le> total_of (sd_candidate s)) \<and> sd_selection s = REJECTED"
    unfolding cs using rs by (auto simp: with_ranks_def dest!: set_zip_rightD)
  show "map sd_rank ?cs = [1..<Suc (length ?cs)]" unfolding cs using with_ranks_maps(1,5) by metis
qed


lemma backup_iff:
  assumes "sorted_wrt (\<lambda>a b. sd_total_score b \<le> sd_total_score a) listed"
    and "\<forall>s \<in> set listed. sd_total_score s = total_of (sd_candidate s) \<and>
      sd_passed_threshold s = (t \<le> total_of (sd_candidate s)) \<and> sd_selection s = REJECTED"
  shows "(case tl listed of [] \<Rightarrow> None | second # _ \<Rightarrow> if sd_passed_threshold second then Some (f second) else None) \<noteq> None \<longleftrightarrow>
    2 \<le> length (filter (\<lambda>c. t \<le> total_of c) (map sd_candidate listed))"
proof -
  consider "listed = []" | a where "listed = [a]" | a b rest where "listed = a # b # rest" by (metis list.exhaust)
  then show ?thesis
  proof cases
    case 3
    then have "total_of (sd_candidate b) \<le> total_of (sd_candidate a)" "\<forall>s \<in> set rest. total_of (sd_candidate s) \<le> total_of (sd_candidate b)"
      and b: "sd_passed_threshold b = (t \<le> total_of (sd_candidate b))"
      using assms by auto
    moreover have "filter (\<lambda>c. t \<le> total_of c) (map sd_candidate rest) = []" if "\<not> t \<le> total_of (sd_candidate b)"
      using that calculation(2) by (fastforce simp: filter_empty_conv)
    ultimately show ?thesis using 3 by (cases "t \<le> total_of (sd_candidate b)") auto
  qed simp_all
qed

subsection \<open>Notes of a researched candidate\<close>

lemma score_group_note:
  assumes "score_group shops cutoff threshold g = Some (c, score)"
  shows "\<exists>n h k. cp_risk_notes c = risk_note_of (risk_notes_of n h k)"
  using assms unfolding score_group_def Let_def
  by (elim prod.split_asm [THEN iffD1, elim_format]) (auto split: prod.splits list.splits; blast)

lemma shortlisted_notes:
  assumes "market_research is_fixture look config run_id workflow_id job_id t0 t1 t2 d = (Inr report, d')"
    and "c \<in> set (sl_candidates (rp_shortlist report))"
  shows "\<exists>n h k. cp_risk_notes c = risk_note_of (risk_notes_of n h k)"
proof -
  obtain results shortlist d2 where
    s: "generate_shortlist config t2 run_id workflow_id (map observe_listing results) (observe_shops [] results) d2 = (Inr shortlist, d')"
    and "rp_shortlist report = shortlist"
    by (rule market_research_steps [OF assms(1)]) simp
  then have "c \<in> set (shortlist_of config (sc_cutoff t2) (map observe_listing results) (observe_shops [] results))"
    using generate_shortlist_Inr [OF s] assms(2) by simp
  then obtain score g where "score_group (observe_shops [] results) (sc_cutoff t2 - get_or (rc_young_shop_age_days config) 365 * day_microseconds)
      (get_or (rc_fast_shop_sales_threshold config) 400) g = Some (c, score)"
    unfolding shortlist_of_def Let_def
    by (auto simp: ranked(1) map_filter_def dest!: set_slice_to [THEN subsetD])
  then show ?thesis by (rule score_group_note)
qed

lemma notes_never_high: "\<not> contains_str ''HIGH'' (risk_note_of (risk_notes_of n h k))"
proof -
  have 1: "\<not> contains_str ''HIGH'' (risk_note_of ((if a then [''No young-and-fast shops observed''] else []) @
     (if b then [''High price point may reduce impulse purchases''] else []) @
     (if e then [''Limited market evidence (< 5 observations)''] else [])))" for a b e
    by (cases a; cases b; cases e) (simp_all add: risk_note_of_def)
  show ?thesis unfolding risk_notes_of_def by (rule 1)
qed

subsection \<open>Properties\<close>

text \<open>C37: The strategy agent lists every candidate it was given, ranked from one in the order of its score, which
  lies between 27 and 34. The primary is the first of them and has the highest score; the
  outcome is qualified, and a specification for the primary is generated, exactly when some candidate
  reaches the threshold; there is a backup exactly when at least two reach it.\<close>

theorem strategy_selects_the_best:
  assumes "product_strategy env context i = Inr r" and "listed = pr_scored_candidates r" and "primary = pr_primary_candidate r"
  shows "mset (map sd_candidate listed) = mset (pi_candidates i) \<and> map sd_rank listed = [1..<Suc (length listed)] \<and>
    sorted_wrt (\<lambda>a b. sd_total_score b \<le> sd_total_score a) listed \<and>
    (\<forall>s \<in> set listed. sd_total_score s = total_of (sd_candidate s) \<and> 27 \<le> sd_total_score s \<and> sd_total_score s \<le> 34) \<and>
    sd_candidate primary \<in> set (pi_candidates i) \<and> (\<forall>c \<in> set (pi_candidates i). total_of c \<le> total_of (sd_candidate primary)) \<and>
    (pr_qualification_outcome r = QUALIFIED \<longleftrightarrow> (\<exists>c \<in> set (pi_candidates i). pi_scoring_threshold i \<le> total_of c)) \<and>
    (pr_product_spec r \<noteq> None \<longleftrightarrow> pr_qualification_outcome r = QUALIFIED) \<and>
    (pr_backup_candidate r \<noteq> None \<longleftrightarrow> 2 \<le> length (filter (\<lambda>c. pi_scoring_threshold i \<le> total_of c) (pi_candidates i)))"
proof -
  obtain scored where sel: "select_candidates (rank_scored scored) = Inr (pr_scored_candidates r, pr_primary_candidate r, pr_backup_candidate r)"
    and spec: "(pr_product_spec r \<noteq> None) = sd_passed_threshold (pr_primary_candidate r)"
    and out: "pr_qualification_outcome r = (if sd_passed_threshold (pr_primary_candidate r) then QUALIFIED else NOT_QUALIFIED)"
    by (rule product_strategy_steps [OF assms(1)])
  note f = listed_facts [OF assms(1), folded assms(2)]
  obtain first rest where l: "listed = first # rest"
    using select_candidates_Inr(2) [OF sel] assms(2) by (metis neq_Nil_conv)
  have "primary = (hd listed)\<lparr>sd_selection := PRIMARY\<rparr>" using select_candidates_Inr(3) [OF sel] by (simp only: assms(2,3))
  then have primary: "primary = first\<lparr>sd_selection := PRIMARY\<rparr>" by (simp add: l)
  have cands: "set (pi_candidates i) = sd_candidate ` set listed"
    using arg_cong [OF f(1), of set_mset] by simp
  have best: "total_of c \<le> total_of (sd_candidate first)" if "c \<in> set (pi_candidates i)" for c
    using that f(2,3) cands l by auto
  have passed: "sd_passed_threshold primary \<longleftrightarrow> (\<exists>c \<in> set (pi_candidates i). pi_scoring_threshold i \<le> total_of c)"
    using f(3) l primary best cands by (auto intro: order_trans)
  let ?p = "\<lambda>c. pi_scoring_threshold i \<le> total_of c"
  have "length (filter ?p (pi_candidates i)) = length (filter ?p (map sd_candidate listed))"
    using f(1) by (metis mset_filter size_mset)
  moreover have "pr_backup_candidate r \<noteq> None \<longleftrightarrow> 2 \<le> length (filter ?p (map sd_candidate listed))"
    using backup_iff [OF f(2,3)] select_candidates_Inr(4) [OF sel] by (simp only: assms(2))
  moreover have "27 \<le> sd_total_score s \<and> sd_total_score s \<le> 34 \<and> sd_total_score s = total_of (sd_candidate s)" if "s \<in> set listed" for s
    using that f(3) total_of_bounds by auto
  ultimately show ?thesis
    using f best passed spec out primary l cands assms(3) by auto
qed

text \<open>C38: Every niche that market research shortlists reaches the default threshold of thirty points, whatever was
  observed: the only deduction is for a risk note that contains HIGH, and none of the notes that
  research writes does. So the strategy agent never turns a researched shortlist down.\<close>

theorem researched_candidates_always_qualify:
  assumes "market_research is_fixture look config run_id workflow_id job_id t0 t1 t2 d = (Inr report, d')"
    and "pi_candidates i = sl_candidates (rp_shortlist report)" and "pi_scoring_threshold i \<le> 30"
    and "product_strategy env context i = Inr r"
  shows "(\<forall>c \<in> set (pi_candidates i). 30 \<le> total_of c) \<and> pr_qualification_outcome r = QUALIFIED \<and> pr_product_spec r \<noteq> None"
proof -
  have "\<not> contains_str ''HIGH'' (cp_risk_notes c)" if c: "c \<in> set (pi_candidates i)" for c
  proof -
    obtain n h k where "cp_risk_notes c = risk_note_of (risk_notes_of n h k)"
      using c shortlisted_notes [OF assms(1), of c] assms(2) by auto
    then show ?thesis using notes_never_high by simp
  qed
  then have thirty: "30 \<le> total_of c" if "c \<in> set (pi_candidates i)" for c
    using that by (auto simp: total_of_def score_impulse_priced_def score_tangible_def score_honest_promise_def score_trendy_but_tricky_def)
  obtain scored where sel: "select_candidates (rank_scored scored) = Inr (pr_scored_candidates r, pr_primary_candidate r, pr_backup_candidate r)"
    and spec: "(pr_product_spec r \<noteq> None) = sd_passed_threshold (pr_primary_candidate r)"
    and out: "pr_qualification_outcome r = (if sd_passed_threshold (pr_primary_candidate r) then QUALIFIED else NOT_QUALIFIED)"
    by (rule product_strategy_steps [OF assms(4)])
  note f = listed_facts [OF assms(4)]
  have first: "hd (pr_scored_candidates r) \<in> set (pr_scored_candidates r)" using select_candidates_Inr(2) [OF sel] by simp
  then have "sd_candidate (hd (pr_scored_candidates r)) \<in> set (pi_candidates i)"
    using arg_cong [OF f(1), of set_mset] by auto
  then have "sd_passed_threshold (pr_primary_candidate r)"
    using f(3) first thirty assms(3) select_candidates_Inr(3) [OF sel] by fastforce
  then show ?thesis using thirty spec out by simp
qed


text \<open>The choice is not in the list it was made from: every listed candidate says that it was rejected, the
  chosen one too, because the ranks are written with that selection and primary and backup are copies.\<close>

theorem listed_candidates_say_rejected:
  assumes "product_strategy env context i = Inr r"
  shows "(\<forall>s \<in> set (pr_scored_candidates r). sd_selection s = REJECTED) \<and> pr_scored_candidates r \<noteq> [] \<and>
    pr_primary_candidate r = (hd (pr_scored_candidates r))\<lparr>sd_selection := PRIMARY\<rparr>"
proof -
  obtain scored where sel: "select_candidates (rank_scored scored) = Inr (pr_scored_candidates r, pr_primary_candidate r, pr_backup_candidate r)"
    by (rule product_strategy_steps [OF assms])
  show ?thesis using select_candidates_Inr(2,3) [OF sel] listed_facts(3) [OF assms] by blast
qed

subsection \<open>The agent returns\<close>

lemma length_strip: "length (strip_str s) \<le> length s"
proof -
  have "length (dropWhile p xs) \<le> length xs" for p :: "char \<Rightarrow> bool" and xs by (rule length_dropWhile_le)
  then show ?thesis unfolding strip_str_def by (metis length_rev order_trans)
qed

lemma dropWhile_id: "s = [] \<or> \<not> p (hd s) \<Longrightarrow> dropWhile p s = s"
  by (cases s) auto

lemma strip_idem: "strip_str (strip_str s) = strip_str s"
proof -
  let ?d = "dropWhile is_white"
  have front: "?d s = [] \<or> \<not> is_white (hd (?d s))" by (metis hd_dropWhile)
  have rear: "rev (?d (rev (?d s))) = [] \<or> \<not> is_white (hd (rev (?d (rev (?d s)))))"
  proof (cases "?d (rev (?d s)) = []")
    case False
    then have "?d s \<noteq> []" by (metis dropWhile.simps(1) rev.simps(1))
    obtain ys where "rev (?d s) = ys @ ?d (rev (?d s))" by (metis takeWhile_dropWhile_id)
    then have "?d s = rev (?d (rev (?d s))) @ rev ys" by (metis rev_append rev_rev_ident)
    then have "hd (?d s) = hd (rev (?d (rev (?d s))))" using False by (metis hd_append2 rev_is_Nil_conv)
    then show ?thesis using front \<open>?d s \<noteq> []\<close> by metis
  qed simp
  have "?d (rev (?d (rev (?d s)))) = rev (?d (rev (?d s)))" by (rule dropWhile_id [where p = is_white, OF rear])
  then show ?thesis by (simp add: strip_str_def dropWhile_idem)
qed

lemma some_text_append: "some_text s \<Longrightarrow> some_text (a @ s @ b)"
  by (auto simp: some_text_def strip_str_Nil)

lemma some_text_simps: "some_text (strip_str s) = some_text s" "text_within n (strip_str s) = text_within n s"
  by (simp_all add: some_text_def text_within_def strip_idem)

lemma text_withinI: "some_text s \<Longrightarrow> length s \<le> n \<Longrightarrow> text_within n s"
  using length_strip [of s] by (simp add: some_text_def text_within_def)

definition plain_candidate_text :: "candidate_profile \<Rightarrow> bool" where
  "plain_candidate_text c \<longleftrightarrow> some_text (cp_identity c) \<and> some_text (cp_base_category c) \<and>
     length (cp_identity c) \<le> 200 \<and> length (cp_base_category c) \<le> 200"

lemma scored_ok: "plain_candidate_text c \<Longrightarrow> scored_candidate_ok (score_candidate t c)"
  using total_of_bounds [of c] some_text_append [of "cp_identity c" _ "[]"] some_text_append [of "cp_base_category c" _ "[]"]
  by (auto simp: scored_candidate_ok_def score_candidate_def reasonings_def scoring_reasoning_ok_def some_text_simps plain_candidate_text_def
      score_impulse_priced_def score_tangible_def score_honest_promise_def score_trendy_but_tricky_def intro!: text_withinI)
    (simp_all add: some_text_def strip_str_Nil is_white_def)


lemma spec_ok:
  assumes "plain_candidate_text c" and "sha256_hex (se_sha256 env (cp_identity c @ '':'' @ cp_base_category c))"
  shows "\<exists>spec. generate_product_spec env c score workflow_id job_id run_id research_run_id = Inr spec"
proof -
  let ?i = "cp_identity c" and ?k = "cp_base_category c"
  have t: "some_text ?i" "some_text ?k" "length ?i \<le> 200" "length ?k \<le> 200" using assms(1) by (simp_all add: plain_candidate_text_def)
  have "text_within 1000 (''Buyer needs '' @ ?i @ '' for '' @ ?k)" using some_text_append [OF t(1), of "''Buyer needs ''" "'' for '' @ ?k"] t by (intro text_withinI) simp_all
  moreover have "text_within 500 (?i @ '' '' @ ?k @ '' Template'')"
    using some_text_append [OF t(1), of "[]" "'' '' @ ?k @ '' Template''"] t by (intro text_withinI) simp_all
  moreover have "text_within 1000 (''Testing '' @ ?i @ '' with clear visual hierarchy'')"
    using some_text_append [OF t(1), of "''Testing ''" "'' with clear visual hierarchy''"] t by (intro text_withinI) simp_all
  moreover have "some_text (''candidate:'' @ ?i)" using some_text_append [OF t(1), of "''candidate:''" "[]"] by simp
  moreover have "some_text (''Qualified with score '' @ x)" for x by (simp add: some_text_def strip_str_Nil is_white_def)
  moreover have "list_all colour_token_ok spec_palette" "list_all hub_ok spec_hubs" by code_simp+
  moreover have "list_all some_text [''Blue'', ''Green'', ''Purple'']" "text_within 64 ''mass''" "some_text ''Modern Minimalist''"
    "text_within 500 ''Complete step-by-step guide with templates''" "list_all some_text [''Interactive examples'', ''Downloadable templates'']"
    "list_all some_text [''new-front'']" "some_text ''v1''" "some_text ''scoring_analysis''" "currency_is_iso4217 ''USD''" by code_simp+
  moreover have "length spec_palette = 3" "length spec_hubs = 6" by (simp_all add: spec_palette_def spec_hubs_def)
  ultimately show ?thesis using t assms(2)
    by (simp add: generate_product_spec_def Let_def strategy_spec_ok_def evidence_ok_def some_text_simps)
qed

lemma evidence_collected:
  assumes "list_all plain_candidate_text (map sd_candidate scored)" and "\<forall>s. sha256_hex (se_sha256 env s)"
  shows "\<exists>es. collect_evidence env scored i = Inr es \<and> length es = length scored \<and>
    map er_evidence_id es = map (\<lambda>n. se_new_id env (3 + n)) [0..<length scored]"
proof -
  have "some_text (''research:'' @ x)" "some_text ''candidate_scoring''" for x by (simp_all add: some_text_def strip_str_Nil is_white_def)
  moreover have "some_text (cp_identity c @ x)" if "plain_candidate_text c" for c x
    using that some_text_append [of "cp_identity c" "[]"] by (simp add: plain_candidate_text_def)
  ultimately have "evidence_ok (scoring_evidence env u (n, s))" if "plain_candidate_text (sd_candidate s)" for u n s
    using that assms(2) by (simp add: scoring_evidence_def evidence_ok_def some_text_simps)
  then have "list_all evidence_ok (map (scoring_evidence env (pi_research_run_id i)) (zip [0..<length scored] scored))"
    using assms(1) by (auto simp: list_all_iff dest!: set_zip_rightD)
  moreover have "map er_evidence_id (map (scoring_evidence env u) (zip [0..<length scored] scored)) =
      map (\<lambda>n. se_new_id env (3 + n)) (map fst (zip [0..<length scored] scored))" for u
    by (auto simp: scoring_evidence_def simp del: map_fst_zip)
  ultimately show ?thesis by (simp add: collect_evidence_def Let_def)
qed

lemma product_strategy_succeeds:
  assumes "strategy_input_ok i" and "\<forall>c \<in> set (pi_candidates i). plain_candidate_text c"
    and "\<forall>s. sha256_hex (se_sha256 env s)" and "0 < ad_contract_version (cx_definition context)"
    and "some_text (cx_prompt_reference context)" and "sha256_hex (cx_prompt_sha256 context)"
  obtains strategy where "product_strategy env context i = Inr strategy" "length (pr_evidence strategy) = length (pi_candidates i)"
    "map er_evidence_id (pr_evidence strategy) = map (\<lambda>n. se_new_id env (3 + n)) [0..<length (pi_candidates i)]"
proof -
  define scored where "scored = map (score_candidate (pi_scoring_threshold i)) (pi_candidates i)"
  have "score_candidates i = Inr scored"
    using assms(2) scored_ok by (simp add: score_candidates_def Let_def scored_def list_all_iff)
  moreover have ne: "with_ranks (rank_scored scored) \<noteq> []"
    using assms(1) with_ranks_maps(1) [of "rank_scored scored"] by (auto simp: strategy_input_ok_def scored_def rank_scored_def)
  then obtain listed primary backup where sel: "select_candidates (rank_scored scored) = Inr (listed, primary, backup)"
    by (cases "with_ranks (rank_scored scored)") (auto simp: select_candidates_def)
  have listed: "listed = with_ranks (rank_scored scored)" "primary = (hd listed)\<lparr>sd_selection := PRIMARY\<rparr>"
    using select_candidates_Inr [OF sel] by blast+
  have len: "length listed = length (pi_candidates i)" using with_ranks_maps(1) by (simp add: listed(1) rank_scored_def scored_def)
  have "sd_candidate primary \<in> set (pi_candidates i)"
  proof -
    have "sd_candidate (hd listed) \<in> set (map sd_candidate listed)" using ne listed(1) by simp
    also have "\<dots> = set (pi_candidates i)" unfolding listed(1) with_ranks_maps(2)
      by (simp add: rank_scored_def scored_def image_image score_candidate_def)
    finally show ?thesis by (simp add: listed(2))
  qed
  then obtain spec where "generate_product_spec env (sd_candidate primary) (sd_total_score primary) (pi_workflow_id i) (pi_job_id i)
      (cx_run_id context) (pi_research_run_id i) = Inr spec"
    using spec_ok assms(2,3) by metis
  moreover obtain es where es: "collect_evidence env scored i = Inr es" "length es = length scored"
      "map er_evidence_id es = map (\<lambda>n. se_new_id env (3 + n)) [0..<length scored]"
    using evidence_collected [of scored env i] assms(2,3) by (auto simp: scored_def list_all_iff score_candidate_def)
  moreover have "some_text (cx_prompt_sha256 context)"
  proof -
    obtain a as where "cx_prompt_sha256 context = a # as" "a \<in> set ''0123456789abcdef''"
      using assms(6) unfolding sha256_hex_def by (cases "cx_prompt_sha256 context") simp_all
    then show ?thesis by (auto simp: some_text_def strip_str_Nil is_white_def)
  qed
  ultimately have "\<exists>strategy. product_strategy env context i = Inr strategy \<and> pr_evidence strategy = es"
    using sel assms(1,4,5) len es by (cases "sd_passed_threshold primary"; cases "es = []") (auto simp: product_strategy_def Let_def strategy_result_ok_def strategy_input_ok_def scored_def)
  then show thesis using that es by (auto simp: scored_def)
qed

text \<open>The agent succeeds on any shortlist of one to five candidates with ordinary texts: when the input decodes
  to them, the digests are well formed and the new identifiers differ, the result of the run is a
  success that carries the JSON of the strategy result and one piece of evidence per candidate.\<close>

theorem strategy_agent_succeeds:
  assumes "se_decode env (je_input (cx_job context)) = Inr i" and "strategy_input_ok i"
    and "\<forall>c \<in> set (pi_candidates i). plain_candidate_text c" and "\<forall>s. sha256_hex (se_sha256 env s)"
    and "inj_on (se_new_id env) {..<8}" and "0 < ad_contract_version (cx_definition context)"
    and "some_text (cx_prompt_reference context)" and "sha256_hex (cx_prompt_sha256 context)"
  shows "\<exists>strategy r. product_strategy env context i = Inr strategy \<and> a05_execute env context = Inr r \<and> rs_status r = R_SUCCESS \<and>
    rs_output r = se_dump env strategy \<and> length (rs_evidence r) = length (pi_candidates i)"
proof -
  obtain strategy where strategy: "product_strategy env context i = Inr strategy" "length (pr_evidence strategy) = length (pi_candidates i)"
    and ids: "map er_evidence_id (pr_evidence strategy) = map (\<lambda>n. se_new_id env (3 + n)) [0..<length (pi_candidates i)]"
    by (rule product_strategy_succeeds [OF assms(2-4,6-8)])
  have "distinct (map er_evidence_id (pr_evidence strategy))"
    unfolding ids using assms(2) by (auto simp: distinct_map strategy_input_ok_def intro!: inj_onI dest: inj_onD [OF assms(5)])
  then have "\<exists>r. strategy_agent_result context R_SUCCESS (se_dump env strategy) (pr_evidence strategy) None = Inr r \<and> rs_status r = R_SUCCESS \<and>
      rs_output r = se_dump env strategy \<and> rs_evidence r = pr_evidence strategy"
    using assms(6-8) by (simp add: strategy_agent_result_def validate_terminal_result_def agent_id_format_def some_text_def)
  then show ?thesis using strategy assms(1,2) by (auto simp: a05_execute_def)
qed

subsection \<open>A shortlist with one niche\<close>

definition plain_input :: product_strategy_input where
  "plain_input = \<lparr>pi_job_id = 2, pi_workflow_id = 7, pi_research_run_id = 1, pi_candidates = [plain_candidate],
     pi_scoring_threshold = 30, pi_maximum_score = 40\<rparr>"

definition plain_env :: strategy_env where
  "plain_env = \<lparr>se_decode = (\<lambda>_. Inr plain_input), se_dump = (\<lambda>_. []), se_dump_scored = (\<lambda>_. []),
     se_sha256 = (\<lambda>_. replicate 64 (CHR ''0'')), se_new_id = of_nat, se_now = 0, se_str = (\<lambda>_. []), se_message = (\<lambda>_. ''failed'')\<rparr>"

definition plain_context :: agent_context where
  "plain_context = \<lparr>cx_job = example_envelope, cx_definition = definition_from_config (example_agent ''A05'') None, cx_run_id = 5,
     cx_prompt_text = [], cx_prompt_reference = ''agent://A05/system/v1'', cx_prompt_sha256 = replicate 64 (CHR ''0''),
     cx_prompt_version = 1, cx_run_at = 0, cx_tool_registry = None, cx_review_coordinator = None\<rparr>"

lemma new_ids: "inj_on (of_nat :: nat \<Rightarrow> uuid) {..<8}"
  by (rule inj_onI) (simp add: word_of_nat_eq_iff take_bit_nat_eq_self)

lemma plain_setting:
  "se_decode plain_env (je_input (cx_job plain_context)) = Inr plain_input" "strategy_input_ok plain_input"
  "\<forall>c \<in> set (pi_candidates plain_input). plain_candidate_text c" "\<forall>s. sha256_hex (se_sha256 plain_env s)" "inj_on (se_new_id plain_env) {..<8}"
  "0 < ad_contract_version (cx_definition plain_context)" "some_text (cx_prompt_reference plain_context)"
  "sha256_hex (cx_prompt_sha256 plain_context)"
  using new_ids by (simp_all add: plain_env_def plain_input_def plain_context_def plain_candidate_def strategy_input_ok_def plain_candidate_text_def
      some_text_def strip_str_Nil is_white_def sha256_hex_def definition_from_config_def example_agent_def list_all_iff)

lemma plain_strategy:
  obtains r where "product_strategy plain_env plain_context plain_input = Inr r"
  by (rule product_strategy_succeeds [OF plain_setting(2-4,6-8)])

theorem strategy_selects_the_best_witness:
  "\<exists>r. product_strategy plain_env plain_context plain_input = Inr r \<and>
     mset (map sd_candidate (pr_scored_candidates r)) = {#plain_candidate#} \<and> pr_qualification_outcome r = QUALIFIED"
proof -
  obtain r where r: "product_strategy plain_env plain_context plain_input = Inr r" by (rule plain_strategy)
  have "30 \<le> total_of plain_candidate" by code_simp
  then show ?thesis using strategy_selects_the_best [OF r refl refl] r by (simp add: plain_input_def)
qed

theorem researched_candidates_always_qualify_witness:
  "\<exists>report d r. market_research True plain_search plain_config 1 2 3 0 0 (clock_at 0) no_research = (Inr report, d) \<and>
     pi_candidates plain_input = sl_candidates (rp_shortlist report) \<and>
     product_strategy plain_env plain_context plain_input = Inr r \<and> pr_product_spec r \<noteq> None"
proof -
  obtain report d where run: "market_research True plain_search plain_config 1 2 3 0 0 (clock_at 0) no_research = (Inr report, d)"
    and cs: "sl_candidates (rp_shortlist report) = [plain_candidate]" by (rule plain_report)
  obtain r where r: "product_strategy plain_env plain_context plain_input = Inr r" by (rule plain_strategy)
  have "pi_candidates plain_input = sl_candidates (rp_shortlist report)" "pi_scoring_threshold plain_input \<le> 30"
    using cs by (simp_all add: plain_input_def)
  then show ?thesis using researched_candidates_always_qualify [OF run _ _ r] run r by blast
qed

theorem listed_candidates_say_rejected_witness:
  "\<exists>r. product_strategy plain_env plain_context plain_input = Inr r \<and>
     sd_selection (hd (pr_scored_candidates r)) = REJECTED \<and> sd_selection (pr_primary_candidate r) = PRIMARY"
proof -
  obtain r where r: "product_strategy plain_env plain_context plain_input = Inr r" by (rule plain_strategy)
  show ?thesis using listed_candidates_say_rejected [OF r] r by simp
qed

theorem strategy_agent_succeeds_witness:
  "\<exists>r. a05_execute plain_env plain_context = Inr r \<and> rs_status r = R_SUCCESS \<and> length (rs_evidence r) = 1"
  using strategy_agent_succeeds [OF plain_setting] by (auto simp: plain_input_def)

end
