(* ===== verification/Spec2Isabelle.thy ===== *)
theory Spec2Isabelle
  imports System Dedupe Asset_Lineage Listing_Effects Closed_Loop Support_Intake Draft_Client Draft_Effects Sim_S3_Store Local_Store Market_Research Product_Strategy
begin

text \<open>
  A verification development of the money-machine repository: the durable orchestration core of
  an autonomous shop (jobs, leases, dependencies, retries, idempotent external effects,
  reconciliation, scheduling, events and successor workflows), the configuration and result
  contracts that this core relies on, and the decision functions of the closed loop. Paths below are under
  \<^verbatim>\<open>src/src/money_machine/\<close>.

  \<^bold>\<open>How the program works.\<close> Workflows are rows of \<^verbatim>\<open>workflow_runs\<close> with jobs in \<^verbatim>\<open>jobs\<close>. The
  engine starts a workflow with its entry jobs; the scheduler promotes due pending jobs whose
  dependencies are met, reclaims expired leases and fails stalled jobs; a worker claims the
  oldest ready job under a lease and releases it with a final status; finished work is announced
  as an event, which the dispatcher appends once to the event log and which creates the successor
  jobs that the configuration lists; an effect whose outcome is unknown is reconciled with its
  provider within a budget; an operator may retry, cancel or settle by hand. Everything happens in
  database transactions, so an operation that raises leaves no trace.

  \<^bold>\<open>Theories, in the order of the code.\<close>
  \<^item> \<open>MM_Prelude\<close>: the exceptions as one \<open>error\<close> type, sequencing of fallible steps
    (\<open>bindE\<close>, \<open>guardE\<close>, \<open>foldE\<close>), Python string operations, facts on keyed tables.
  \<^item> \<open>Enums\<close>: \<^verbatim>\<open>domain/enums.py\<close>, \<^verbatim>\<open>domain/events.py\<close>.
  \<^item> \<open>Transition_Guard\<close>: \<^verbatim>\<open>orchestration/transition_guard.py\<close> and \<^verbatim>\<open>state_machine.py\<close>; the
    locale \<open>transition_guard\<close> is interpreted for both tables.
  \<^item> \<open>Schema\<close>: the eight tables of \<^verbatim>\<open>persistence/tables.py\<close> the core uses, as records with
    their constraints; the locale \<open>row_store\<close> is the keyed-table interface.
  \<^item> \<open>Job_Contract\<close>: what every operation on jobs keeps (\<open>job_inv\<close>, \<open>job_evolves\<close>,
    \<open>db_evolves\<close>) and the locale \<open>job_operation\<close>, interpreted for every operation below.
  \<^item> \<open>Retry\<close>, \<open>Leases\<close>, \<open>Dependencies\<close>, \<open>Idempotency\<close>, \<open>Reconciliation\<close>, \<open>Scheduler\<close>:
    the modules of the same names in \<^verbatim>\<open>orchestration/\<close>; \<open>Calendar\<close> renders instants as Python does.
  \<^item> \<open>Workflow_Config\<close>: workflow contracts of \<^verbatim>\<open>config/settings.py\<close> with the graph validation;
    \<open>Contracts\<close>: \<^verbatim>\<open>domain/models/common.py\<close>, \<^verbatim>\<open>jobs.py\<close>, \<^verbatim>\<open>portfolio.py\<close>.
  \<^item> \<open>Event_Log\<close>: \<^verbatim>\<open>persistence/repositories/events.py\<close> behind the locale \<open>event_log\<close>;
    \<open>Successors\<close>, \<open>Dispatcher\<close>, \<open>Engine\<close>: \<^verbatim>\<open>successor_factory.py\<close>, \<^verbatim>\<open>event_dispatcher.py\<close>,
    \<^verbatim>\<open>engine.py\<close>.
  \<^item> \<open>System\<close>: all operations as one step relation; the locale \<open>log_operation\<close> says what an
    operation does to the event log.
  \<^item> \<open>Config\<close>: the rest of \<^verbatim>\<open>config/settings.py\<close>, \<^verbatim>\<open>domain/models/rules.py\<close>, \<^verbatim>\<open>config/validation.py\<close>
    and \<^verbatim>\<open>config/loader.py\<close>; \<open>Tools\<close>: \<^verbatim>\<open>agents/tool_registry.py\<close> and \<^verbatim>\<open>agents/review_subagent.py\<close>,
    with the locale \<open>tool_catalogue\<close>.
  \<^item> \<open>Patterns\<close>: the regular expressions the code uses, with a derivative matcher;
    \<open>Prompt_Store\<close>: \<^verbatim>\<open>agents/prompt_store.py\<close>.
  \<^item> \<open>Agent_Runtime\<close>: \<^verbatim>\<open>agents/base.py\<close>, \<^verbatim>\<open>agents/registry.py\<close> and the agents A01 and A02;
    \<open>Agent_Runner\<close>: \<^verbatim>\<open>agents/runtime.py\<close>, \<^verbatim>\<open>observability/agent_runs.py\<close> and the agent tables;
    \<open>Worker\<close>: \<^verbatim>\<open>orchestration/worker.py\<close>, refined to the step relation of \<open>System\<close>.
  \<^item> \<open>Maturity\<close>, \<open>Portfolio\<close>: the publishing ramp, the maturity clock and the portfolio decisions of
    \<^verbatim>\<open>assets/publishing_ramp_decision.py\<close>, \<^verbatim>\<open>maturity_clock.py\<close> and \<^verbatim>\<open>portfolio_eligibility.py\<close>.
  \<^item> \<open>Product_Contracts\<close>: \<^verbatim>\<open>domain/models/products.py\<close> and \<^verbatim>\<open>listings.py\<close>; \<open>Dedupe\<close>:
    \<^verbatim>\<open>domain/services/dedupe.py\<close>; \<open>Asset_Lineage\<close>: \<^verbatim>\<open>assets/asset_lineage.py\<close>.
  \<^item> \<open>Ledgers\<close>: the locale \<open>keyed_ledger\<close> of the in-process indexes, in which a first write wins;
    its clients \<open>Listing_Effects\<close> (\<^verbatim>\<open>assets/mutation_receipt.py\<close>, \<^verbatim>\<open>etsy_preflight.py\<close>), \<open>Closed_Loop\<close>
    (\<^verbatim>\<open>metrics_fixture.py\<close>, \<^verbatim>\<open>closed_loop_store.py\<close>) and \<open>Support_Intake\<close> (\<^verbatim>\<open>support_intake.py\<close>).
  \<^item> \<open>Effect_Steps\<close>: steps whose effects survive an error, and the locale \<open>kept\<close> of relations that
    composed steps keep; \<open>Draft_Client\<close>: \<^verbatim>\<open>integrations/etsy/draft_client.py\<close> over a small file system;
    \<open>Draft_Effects\<close>: \<^verbatim>\<open>application/real_draft_authority.py\<close> and \<^verbatim>\<open>real_draft_effects.py\<close>, interleaved.
  \<^item> \<open>Storage_Keys\<close>: \<^verbatim>\<open>integrations/storage/interface.py\<close> and the keys of \<^verbatim>\<open>local.py\<close>, with the locale
    \<open>object_store\<close>, interpreted by \<open>Sim_S3_Store\<close> (\<^verbatim>\<open>s3.py\<close>) and \<open>Local_Store\<close> (\<^verbatim>\<open>local.py\<close> over
    system calls that fail, transfer short and meet other writers).
  \<^item> \<open>Etsy_Fixtures\<close>: \<^verbatim>\<open>integrations/etsy/fixture_adapter.py\<close> with its data; \<open>Market_Research\<close>:
    \<^verbatim>\<open>agents/implementations/market_research.py\<close> and the research tables; \<open>Product_Strategy\<close>:
    \<^verbatim>\<open>agents/implementations/product_strategy.py\<close> with \<^verbatim>\<open>domain/models/product_spec.py\<close>.
  \<^bold>\<open>State and operations.\<close> The database is the record \<open>db\<close>, a table the list of its rows in
  physical order, a row a record whose fields are the columns. An operation is a function from
  its arguments and the database to an error or a result with the new database. A query's
  \<^verbatim>\<open>ORDER BY\<close> is a stable sort; \<^verbatim>\<open>FOR UPDATE SKIP LOCKED\<close> is the argument \<open>locked\<close>, the rows other
  transactions hold. A flushed row gets the next version. Instants and durations are integers in
  microseconds, ids are 128-bit words. Text is a list of characters, the code points below 256;
  where the code lowers or normalises text the components say on which of them.

  \<^bold>\<open>Parameters.\<close> Code outside the repository is an argument: \<open>digest\<close> for SHA-256 (no
  property needs more than that it is a function), the provider adapter \<open>query\<close> of a
  reconciliation with the hypothesis \<open>documented_reconciler\<close> (it answers, and names an object
  exactly when the effect is confirmed), the ids that \<^verbatim>\<open>uuid4\<close> draws as \<open>fresh\<close>, and the clock.

  \<^bold>\<open>What is proved.\<close> For each component: its operations succeed exactly when they should, do
  exactly what they say and nothing else, and raise the documented error otherwise; the job
  contract is kept by every operation. For the whole: every reachable state is sound, jobs and
  events are durable, and the loops (search, reconciliation, scheduler cycle) end. No fuel
  is used: recursions are structural or have a measure.

  \<^bold>\<open>The worker.\<close> An iteration maps the committed state, the database and the agent tables, to the
  next one; a rollback returns the state before the claim. It refines the step relation. For a job
  whose owner has no implementation the code leaves the lease on a FAILED job; that commit is a step
  of its own, and the invariant of \<open>reachable\<close> says which jobs can carry such a lease. The steps are
  the writes of the \<^verbatim>\<open>orchestration\<close> package; the command line of the real draft and the fixture run
  write job rows of their own.

  \<^bold>\<open>The closed loop.\<close> The decision functions around a listing's life are pure: a clock counts
  active time until the portfolio evaluation is due, the evaluation compares the listings of a shop
  and names unexecuted follow-ups, confirmations and triggers are stored once under their keys. The
  provider of a listing mutation is a record of its two calls about which nothing is assumed; what a
  commit may do to it is stated on a record of the calls, and the theorem on duplicates shows what
  an unobserved timeout does.

  \<^bold>\<open>Drafts.\<close> The draft client is proved against every interruption at one of its system calls and
  against a loss of power that keeps of unsynced names and texts what it likes; effects of a draft
  run are proved against every interleaving of their transactions and provider calls. Both say
  that nothing is written twice; for two clients at once the first guarantee fails, as
  \<open>interleaved_clients_post_twice\<close> shows.

  \<^bold>\<open>Not modelled.\<close> Rendering of documents, images and videos, the Notion adapters and the
  builders on top of them, the command line, the HTTP API and the web application (I/O and layout),
  and the migrations, which repeat the table definitions. Log messages are left out; an error
  carries its text only where the code inspects it. SQL isolation is as the code assumes: a
  transaction sees the committed state plus its own writes.
\<close>

section \<open>Properties of the whole orchestrator\<close>

text \<open>
  C1: every state the orchestrator can reach, from an empty store by any interleaving of its
  operations, is sound. Job ids, idempotency keys and event keys are unique; no job has more
  attempts than its budget and a job that may still run has one left. Owner, expiry and heartbeat
  of a lease are set together or clear together, and they are set on every \<open>RUNNING\<close> job. The only
  other jobs that carry a lease are those the worker gave up for want of an implementation: their
  owner is none of the agents it can run, and they are \<open>FAILED\<close>, or since then \<open>READY\<close> for a retry
  or \<open>CANCELLED\<close>.
\<close>

theorem reachable_states_sound:
  assumes "reachable shops d"
  shows "distinct (map j_id (jobs d)) \<and> distinct (map j_idempotency_key (jobs d)) \<and>
     distinct (map e_dedupe_key (events d)) \<and> distinct (map e_id (events d)) \<and>
     (\<forall>j \<in> set (jobs d). 0 < j_max_attempts j \<and> j_attempt j \<le> j_max_attempts j \<and>
        (live_status (j_status j) \<longrightarrow> j_attempt j < j_max_attempts j) \<and>
        (j_lease_owner j = None \<longleftrightarrow> j_lease_expires_at j = None) \<and>
        (j_lease_owner j = None \<longleftrightarrow> j_heartbeat_at j = None) \<and>
        (j_status j = J_RUNNING \<longrightarrow> j_lease_owner j \<noteq> None) \<and>
        (j_lease_owner j \<noteq> None \<and> j_status j \<noteq> J_RUNNING \<longrightarrow>
           agent_map (j_owner_agent_id j) = None \<and> j_status j \<in> {J_FAILED, J_READY, J_CANCELLED}))"
proof -
  from reachable_ok [OF assms] have ok: "jobs_ok d" "event_keys_unique d" by auto
  then have "distinct (map j_id (jobs d)) \<and> distinct (map j_idempotency_key (jobs d)) \<and>
     distinct (map e_dedupe_key (events d)) \<and> distinct (map e_id (events d))"
    unfolding jobs_ok_def job_keys_unique_def event_keys_unique_def by blast
  moreover have "\<forall>j \<in> set (jobs d). job_inv j" using ok(1) by (simp add: jobs_ok_def list_all_iff)
  ultimately show ?thesis using job_inv_budget job_inv_lease by blast
qed

lemma example_start: "\<exists>w e. start_workflow (\<lambda>_. 50) example_workflows 70 ''product'' DISCOVERED 1 5
    (empty_db [1] 0) = Inr (w, e) \<and> jobs e \<noteq> []"
  by (simp add: start_workflow_def example_workflows_def example_defs insert_workflow_def fits_def
      check_workflow_def has_workflow_def spawn_entry_jobs_def entry_job_def new_job_def insert_job_def
      check_job_def fits_opt_def agent_id_format_def has_job_def infer_object_type_for_entry_job_def
      Let_def)

theorem reachable_states_sound_witness:
  "\<exists>d. reachable [1] d \<and> jobs d \<noteq> [] \<and> distinct (map j_idempotency_key (jobs d))"
proof -
  from example_start obtain w e where
    e: "start_workflow (\<lambda>_. 50) example_workflows 70 ''product'' DISCOVERED 1 5 (empty_db [1] 0) =
      Inr (w, e)" "jobs e \<noteq> []" by blast
  have "reachable [1] e"
    by (rule reachable.extended [OF reachable.initial]) (rule system_step.start [OF e(1)])
  with reachable_states_sound e(2) show ?thesis by blast
qed

text \<open>
  C2: jobs are durable. Whatever the orchestrator does after a reachable state, a job is never
  lost, its identity, contract and budget never change, its attempts are never taken back, its
  status only moves along the transition table, and a job that has ended stays as it ended.
\<close>

theorem jobs_are_durable:
  assumes "reachable shops d" and "system_run d e" and "get_job d i = Some j"
  shows "\<exists>k. get_job e i = Some k \<and> job_frame j k \<and> status_path (j_status j) (j_status k) \<and>
     (is_terminal (j_status j) \<longrightarrow> j_status k = j_status j)"
proof -
  have ok: "jobs_ok d" using reachable_ok [OF assms(1)] by simp
  from run_evolves [OF assms(2) ok] have ev: "db_evolves d e" and oke: "jobs_ok e" by auto
  have j: "j \<in> set (jobs d)" "j_id j = i" using job_store.get_member [OF assms(3)] by auto
  obtain k where k: "k \<in> set (jobs e)" "job_evolves j k" using db_evolves_job [OF ev j(1)] by blast
  then have p: "job_frame j k" "status_path (j_status j) (j_status k)"
    using jobs_ok_get [OF ok assms(3)] by (auto simp: job_evolves_def)
  moreover have "get_job e i = Some k"
    using jobs_ok_member_get [OF oke k(1)] p(1) j(2) by (simp add: job_frame_def)
  ultimately show ?thesis using status_path_terminal by blast
qed

theorem jobs_are_durable_witness:
  "\<exists>d e i j. reachable [1] d \<and> system_run d e \<and> get_job d i = Some j \<and> get_job e i \<noteq> None"
proof -
  from example_start obtain w d where
    d: "start_workflow (\<lambda>_. 50) example_workflows 70 ''product'' DISCOVERED 1 5 (empty_db [1] 0) =
      Inr (w, d)" "jobs d \<noteq> []" by blast
  have r: "reachable [1] d"
    by (rule reachable.extended [OF reachable.initial]) (rule system_step.start [OF d(1)])
  have s: "system_run d (d\<lparr>server_now := 9\<rparr>)" by (auto simp: system_run_def intro: system_step.clock)
  have "get_job d (j_id (hd (jobs d))) = Some (hd (jobs d))"
    using jobs_ok_member_get reachable_ok [OF r] d(2) by simp
  from jobs_are_durable [OF r s this] r s this show ?thesis by blast
qed

text \<open>
  C16: the event log is durable. Along any run the log only grows at its end: every recorded event
  stays, unchanged and in its place, and unique keys stay unique.
\<close>

theorem events_are_durable:
  assumes "system_run d e"
  shows "prefix (events d) (events e) \<and> (event_keys_unique d \<longrightarrow> event_keys_unique e)"
proof -
  have "log_evolves d e"
    using assms unfolding system_run_def
    by (induction rule: rtranclp_induct) (auto intro: log_evolves_trans step_log)
  then show ?thesis by (simp add: log_evolves_def)
qed

theorem events_are_durable_witness:
  "\<exists>d e. system_run d e \<and> events e \<noteq> [] \<and> prefix (events d) (events e)"
proof -
  let ?d = "example_db []"
  have "\<exists>ids e. dispatch (\<lambda>_. 50) example_workflows 3 EV_PRODUCT_REJECTED ''products'' 9 (Some 7) None
       (JObj []) 5 ?d = Inr (ids, e) \<and> events e \<noteq> []"
    by (simp add: dispatch_def dispatch_key_def record_once_def append_event_def by_dedupe_key_def
        one_or_none_def example_defs make_event_def insert_event_def check_event_def fits_def
        has_workflow_def dedupe_key_def str_opt_uuid_def create_successors_def example_workflows_def)
  then obtain ids e where e: "dispatch (\<lambda>_. 50) example_workflows 3 EV_PRODUCT_REJECTED ''products'' 9
      (Some 7) None (JObj []) 5 ?d = Inr (ids, e)" "events e \<noteq> []" by blast
  have "system_run ?d e" using system_step.dispatched [OF e(1)] by (auto simp: system_run_def)
  from events_are_durable [OF this] this e(2) show ?thesis by blast
qed

text \<open>
  C9: the worker refines the orchestrator's step relation. What one iteration of the worker does to
  the database, whatever the agents do and whichever errors they raise, is a run of the
  operations above (a claim followed by a heartbeat, a release and dispatches, by a release, or by
  the commit of a job without an implementation; or nothing), so every guarantee of a run holds
  across it. In particular it keeps the job contract and only extends the log.
\<close>

theorem worker_refines_system:
  assumes "registry_from_config config = Inr (rn_registry (wk_runner env))" and "jobs_ok d"
    and "worker_iteration env i (d, s) = Inr (outcome, (d', s'))"
  shows "system_run d d' \<and> db_evolves d d' \<and> jobs_ok d' \<and> log_evolves d d'"
proof -
  have "system_run d d'"
    by (rule worker_iteration_run [OF assms(3) registry_from_config_consistent [OF assms(1)]])
  with run_evolves [OF this assms(2)] show ?thesis by blast
qed

theorem worker_refines_system_witness:
  "\<exists>d' k. worker_iteration example_env (example_input 5) (example_db [example_claimable ''A07''], example_store) =
     Inr (None, (d', example_store)) \<and> system_run (example_db [example_claimable ''A07'']) d' \<and>
     jobs_ok d' \<and> get_job d' 2 = Some k \<and> lease_abandoned k"
proof -
  let ?d = "example_db [example_claimable ''A07'']"
  have "case worker_iteration example_env (example_input 5) (?d, example_store) of
      Inr (None, (d', s')) \<Rightarrow> s' = example_store \<and>
        (case get_job d' 2 of Some k \<Rightarrow> lease_abandoned k | None \<Rightarrow> False) | _ \<Rightarrow> False" by code_simp
  then obtain d' k where r: "worker_iteration example_env (example_input 5) (?d, example_store) =
      Inr (None, (d', example_store))" "get_job d' 2 = Some k" "lease_abandoned k"
    by (auto split: sum.splits prod.splits option.splits)
  have "jobs_ok ?d" by (rule example_claimable_ok) (simp add: agent_id_format_def)
  from worker_refines_system [OF example_registry_config this r(1)] r show ?thesis by blast
qed

end
